(* ===== verification/Cart_Prelude.thy ===== *)
theory Cart_Prelude
  imports Main "HOL-Library.Char_ord" "HOL-Library.List_Lexorder"
    "HOL-Library.Product_Lexorder" "HOL-Library.Word"
begin

text \<open>
  What every theory of the library shares. Rust's \<^verbatim>\<open>String\<close> is its sequence of UTF-8 bytes,
  a \<^typ>\<open>string\<close>, ordered lexicographically by byte as \<^verbatim>\<open>str\<close>'s \<^verbatim>\<open>Ord\<close> does;
  \<^verbatim>\<open>Result<T, E>\<close> is \<^verbatim>\<open>E + T\<close> with \<open>Inl\<close> the error; \<^verbatim>\<open>BTreeMap\<close>
  and an SQLite table with a primary key are association lists kept strictly sorted by key, so
  that iteration order is the list order and every operation computes. The collections
  \<open>result_simps\<close> and \<open>omap_simps\<close> carry the component proofs.
\<close>

named_theorems result_simps \<open>rewriting of the result monad and of error branches\<close>
named_theorems omap_simps \<open>lookup, insertion and removal in key-ordered association lists\<close>

type_synonym u64 = "64 word"

section \<open>Results\<close>

type_synonym ('e, 'a) result = "'e + 'a"

definition rbind :: "('e, 'a) result \<Rightarrow> ('a \<Rightarrow> ('e, 'b) result) \<Rightarrow> ('e, 'b) result" where
  "rbind r f = (case r of Inl e \<Rightarrow> Inl e | Inr a \<Rightarrow> f a)"

lemma rbind_simps [simp, result_simps]:
  "rbind (Inl e) f = Inl e"
  "rbind (Inr a) f = f a"
  by (simp_all add: rbind_def)

lemma rbind_eq_Inr [result_simps]:
  "rbind r f = Inr b \<longleftrightarrow> (\<exists>a. r = Inr a \<and> f a = Inr b)"
  by (cases r) simp_all

lemma rbind_eq_Inl [result_simps]:
  "rbind r f = Inl e \<longleftrightarrow> r = Inl e \<or> (\<exists>a. r = Inr a \<and> f a = Inl e)"
  by (cases r) simp_all

definition is_ok :: "('e, 'a) result \<Rightarrow> bool" where
  "is_ok r = (case r of Inl _ \<Rightarrow> False | Inr _ \<Rightarrow> True)"

lemma is_ok_simps [simp, result_simps]:
  "is_ok (Inl e) = False"
  "is_ok (Inr a) = True"
  by (simp_all add: is_ok_def)

text \<open>\<^verbatim>\<open>iter().map(f).collect::<Result<Vec<_>, _>>()\<close>: the first error stops.\<close>

fun try_map :: "('a \<Rightarrow> ('e, 'b) result) \<Rightarrow> 'a list \<Rightarrow> ('e, 'b list) result" where
  "try_map f [] = Inr []"
| "try_map f (x # xs) = rbind (f x) (\<lambda>y. rbind (try_map f xs) (\<lambda>ys. Inr (y # ys)))"

lemma try_map_all_ok:
  "(\<And>x. x \<in> set xs \<Longrightarrow> f x = Inr (g x)) \<Longrightarrow> try_map f xs = Inr (map g xs)"
  by (induction xs) simp_all

lemma try_map_Inr_iff:
  "try_map f xs = Inr ys \<longleftrightarrow> list_all2 (\<lambda>x y. f x = Inr y) xs ys"
  by (induction xs arbitrary: ys) (auto simp: rbind_eq_Inr list_all2_Cons1)

text \<open>A loop whose body may fail: \<^verbatim>\<open>for x in xs { s = f(s, x)?; }\<close>.\<close>

fun try_fold :: "('a \<Rightarrow> 's \<Rightarrow> ('e, 's) result) \<Rightarrow> 'a list \<Rightarrow> 's \<Rightarrow> ('e, 's) result" where
  "try_fold f [] s = Inr s"
| "try_fold f (x # xs) s = rbind (f x s) (try_fold f xs)"

lemma try_fold_invariant:
  assumes step: "\<And>x s s'. x \<in> set xs \<Longrightarrow> P s \<Longrightarrow> f x s = Inr s' \<Longrightarrow> P s'"
    and "P s" and "try_fold f xs s = Inr s'"
  shows "P s'"
  using assms(2,3) step
proof (induction xs arbitrary: s)
  case Nil
  then show ?case by simp
next
  case (Cons x xs)
  from Cons.prems(2) obtain t where "f x s = Inr t" and t: "try_fold f xs t = Inr s'"
    by (auto simp: rbind_eq_Inr)
  with Cons.prems have "P t" by auto
  with t Cons.prems(3) show ?case by (auto intro: Cons.IH)
qed

lemma try_fold_append:
  "try_fold f (xs @ ys) s = rbind (try_fold f xs s) (try_fold f ys)"
proof (induction xs arbitrary: s)
  case (Cons x xs)
  then show ?case by (cases "f x s") simp_all
qed simp

lemma no_pair_None [simp]: "(\<forall>a b. x \<noteq> Some (a, b)) \<longleftrightarrow> x = None"
  by (cases x) auto

section \<open>Key-ordered maps\<close>

type_synonym ('k, 'v) omap = "('k \<times> 'v) list"

abbreviation om_get :: "('k, 'v) omap \<Rightarrow> 'k \<Rightarrow> 'v option" where
  "om_get m \<equiv> map_of m"

fun om_put :: "'k::linorder \<Rightarrow> 'v \<Rightarrow> ('k, 'v) omap \<Rightarrow> ('k, 'v) omap" where
  "om_put k v [] = [(k, v)]"
| "om_put k v (p # m) =
     (if k = fst p then (k, v) # m
      else if k < fst p then (k, v) # p # m
      else p # om_put k v m)"

definition om_filter :: "('k \<Rightarrow> bool) \<Rightarrow> ('k, 'v) omap \<Rightarrow> ('k, 'v) omap" where
  "om_filter P m = filter (\<lambda>p. P (fst p)) m"

definition om_del :: "'k \<Rightarrow> ('k, 'v) omap \<Rightarrow> ('k, 'v) omap" where
  "om_del k m = om_filter (\<lambda>k'. k' \<noteq> k) m"

definition om_wf :: "('k::linorder, 'v) omap \<Rightarrow> bool" where
  "om_wf m \<longleftrightarrow> sorted_wrt (<) (map fst m)"

lemma om_wf_Nil [simp, omap_simps]: "om_wf []"
  by (simp add: om_wf_def)

lemma om_wf_Cons [omap_simps]:
  "om_wf (p # m) \<longleftrightarrow> (\<forall>k \<in> fst ` set m. fst p < k) \<and> om_wf m"
  by (auto simp: om_wf_def)

lemma om_keys_put [simp, omap_simps]: "fst ` set (om_put k v m) = insert k (fst ` set m)"
  by (induction m) (auto simp: image_iff)

lemma om_get_put [simp, omap_simps]:
  "om_get (om_put k v m) = (om_get m)(k \<mapsto> v)"
  by (induction m) auto

lemma om_wf_put [simp, omap_simps]: "om_wf m \<Longrightarrow> om_wf (om_put k v m)"
  by (induction m) (auto simp: om_wf_Cons)

lemma om_keys_filter [simp, omap_simps]:
  "fst ` set (om_filter P m) = {k \<in> fst ` set m. P k}"
  by (auto simp: om_filter_def)

lemma om_get_filter [simp, omap_simps]:
  "om_get (om_filter P m) = (\<lambda>k. if P k then om_get m k else None)"
  by (induction m) (auto simp: om_filter_def)

lemma om_wf_filter [simp, omap_simps]: "om_wf m \<Longrightarrow> om_wf (om_filter P m)"
  by (induction m) (auto simp: om_filter_def om_wf_Cons)

lemma om_get_del [simp, omap_simps]: "om_get (om_del k m) = (om_get m)(k := None)"
  by (auto simp: om_del_def)

lemma om_wf_del [simp, omap_simps]: "om_wf m \<Longrightarrow> om_wf (om_del k m)"
  by (simp add: om_del_def)

lemma om_wf_distinct: "om_wf m \<Longrightarrow> distinct (map fst m)"
  by (simp add: om_wf_def strict_sorted_iff)

lemma om_wf_sorted: "om_wf m \<Longrightarrow> sorted (map fst m)"
  by (simp add: om_wf_def strict_sorted_iff)

text \<open>A key-ordered map is determined by its lookups.\<close>

lemma om_from_keys:
  "distinct (map fst m) \<Longrightarrow> m = map (\<lambda>k. (k, the (map_of m k))) (map fst m)"
  unfolding map_map comp_def by (rule map_idI [symmetric]) auto

lemma om_ext:
  assumes wf: "om_wf m" "om_wf m'" and eq: "om_get m = om_get m'"
  shows "m = m'"
proof -
  have "set (map fst m) = set (map fst m')"
    using dom_map_of_conv_image_fst [of m] dom_map_of_conv_image_fst [of m'] eq by simp
  then have keys: "map fst m = map fst m'"
    using wf by (simp add: om_wf_def strict_sorted_equal)
  have "m = map (\<lambda>k. (k, the (map_of m k))) (map fst m)"
    by (rule om_from_keys [OF om_wf_distinct [OF wf(1)]])
  also have "\<dots> = map (\<lambda>k. (k, the (map_of m' k))) (map fst m')"
    by (simp only: keys eq)
  also have "\<dots> = m'"
    by (rule om_from_keys [OF om_wf_distinct [OF wf(2)], symmetric])
  finally show ?thesis .
qed

lemma om_put_idem: "om_wf m \<Longrightarrow> om_get m k = Some v \<Longrightarrow> om_put k v m = m"
  by (rule om_ext) auto

lemma map_add_later_writes: "m ++ map_of (rev (p # xs)) = m(fst p \<mapsto> snd p) ++ map_of (rev xs)"
  by (auto simp: map_add_def fun_eq_iff split: option.splits)

lemma map_add_twice [simp]: "(m ++ f) ++ f = m ++ f"
  by (auto simp: map_add_def fun_eq_iff split: option.splits)

text \<open>Multi-maps: \<^verbatim>\<open>map.entry(k).or_default().push(v)\<close> on a \<^verbatim>\<open>BTreeMap<_, Vec<_>>\<close>.\<close>

definition bucket :: "('k, 'a list) omap \<Rightarrow> 'k \<Rightarrow> 'a list" where
  "bucket m k = (case om_get m k of None \<Rightarrow> [] | Some xs \<Rightarrow> xs)"

definition push_bucket :: "'k::linorder \<Rightarrow> 'a \<Rightarrow> ('k, 'a list) omap \<Rightarrow> ('k, 'a list) omap" where
  "push_bucket k v m = om_put k (bucket m k @ [v]) m"

lemma bucket_Nil [simp]: "bucket [] k = []"
  by (simp add: bucket_def)

lemma bucket_push:
  "bucket (push_bucket k v m) k' = (if k' = k then bucket m k @ [v] else bucket m k')"
  by (simp add: bucket_def push_bucket_def)

lemma bucket_pushes:
  "bucket (fold (\<lambda>x. push_bucket (f x) (g x)) xs m) k = bucket m k @ map g (filter (\<lambda>x. f x = k) xs)"
  by (induction xs arbitrary: m) (auto simp: bucket_push)

lemma om_wf_pushes:
  "om_wf m \<Longrightarrow> om_wf (fold (\<lambda>x. push_bucket (f x) (g x)) xs m)"
  by (induction xs arbitrary: m) (auto simp: push_bucket_def)

text \<open>The map contract a client relies on, whatever the representation.\<close>

locale keyed_table =
  fixes get :: "'t \<Rightarrow> 'k \<Rightarrow> 'v option"
    and put :: "'k \<Rightarrow> 'v \<Rightarrow> 't \<Rightarrow> 't"
    and del :: "'k \<Rightarrow> 't \<Rightarrow> 't"
    and wf :: "'t \<Rightarrow> bool"
  assumes get_put: "wf t \<Longrightarrow> get (put k v t) = (get t)(k \<mapsto> v)"
    and get_del: "wf t \<Longrightarrow> get (del k t) = (get t)(k := None)"
    and wf_put: "wf t \<Longrightarrow> wf (put k v t)"
    and wf_del: "wf t \<Longrightarrow> wf (del k t)"
    and wf_ext: "wf t \<Longrightarrow> wf t' \<Longrightarrow> get t = get t' \<Longrightarrow> t = t'"
begin

lemma put_put_same: "wf t \<Longrightarrow> put k v (put k v' t) = put k v t"
  by (rule wf_ext) (simp_all add: wf_put get_put)

lemma put_commute: "wf t \<Longrightarrow> k \<noteq> k' \<Longrightarrow> put k v (put k' v' t) = put k' v' (put k v t)"
  by (rule wf_ext) (simp_all add: wf_put get_put fun_upd_twist)

lemma del_put_same: "wf t \<Longrightarrow> get t k = None \<Longrightarrow> del k (put k v t) = t"
  by (rule wf_ext) (auto simp: wf_put wf_del get_put get_del)

lemma wf_puts: "wf t \<Longrightarrow> wf (fold (\<lambda>(k, v). put k v) kvs t)"
  by (induction kvs arbitrary: t) (auto simp: wf_put)

lemma get_puts:
  "wf t \<Longrightarrow> get (fold (\<lambda>(k, v). put k v) kvs t) = get t ++ map_of (rev kvs)"
proof (induction kvs arbitrary: t)
  case (Cons p kvs)
  then show ?case
    by (cases p) (auto simp: wf_put get_put map_add_def fun_eq_iff split: option.splits)
qed simp

text \<open>Applying the same batch of writes twice changes nothing the second time.\<close>

lemma puts_idem:
  assumes "wf t"
  shows "fold (\<lambda>(k, v). put k v) kvs (fold (\<lambda>(k, v). put k v) kvs t) = fold (\<lambda>(k, v). put k v) kvs t"
  using assms
  by (intro wf_ext) (auto simp: wf_puts get_puts map_add_def fun_eq_iff split: option.splits)

end

interpretation om: keyed_table
  "map_of :: ('k::linorder, 'v) omap \<Rightarrow> 'k \<Rightarrow> 'v option" om_put om_del om_wf
  by unfold_locales (auto intro: om_ext)

section \<open>Byte strings\<close>

definition starts_with :: "string \<Rightarrow> string \<Rightarrow> bool" where
  "starts_with pre s = (take (length pre) s = pre)"

definition strip_prefix :: "string \<Rightarrow> string \<Rightarrow> string option" where
  "strip_prefix pre s = (if starts_with pre s then Some (drop (length pre) s) else None)"

lemma strip_prefix_Some [simp]: "strip_prefix pre s = Some r \<longleftrightarrow> s = pre @ r"
  by (auto simp: strip_prefix_def starts_with_def) (metis append_take_drop_id)

text \<open>\<^verbatim>\<open>str::split(char)\<close>: the pieces between separators, never an empty list.\<close>

fun split_on :: "char \<Rightarrow> string \<Rightarrow> string list" where
  "split_on c [] = [[]]"
| "split_on c (x # xs) =
     (if x = c then [] # split_on c xs
      else (case split_on c xs of [] \<Rightarrow> [[x]] | p # ps \<Rightarrow> (x # p) # ps))"

lemma split_on_nonempty [simp]: "split_on c s \<noteq> []"
  by (induction s) (auto split: list.split)

lemma split_on_piece: "p \<in> set (split_on c s) \<Longrightarrow> c \<notin> set p"
proof (induction s arbitrary: p)
  case (Cons x s)
  then show ?case by (cases "split_on c s") (auto split: if_splits)
qed simp

text \<open>\<^verbatim>\<open>str::split_once(char)\<close>.\<close>

fun split_once :: "char \<Rightarrow> string \<Rightarrow> (string \<times> string) option" where
  "split_once c [] = None"
| "split_once c (x # xs) =
     (if x = c then Some ([], xs)
      else map_option (\<lambda>(a, b). (x # a, b)) (split_once c xs))"

lemma split_once_Some: "split_once c s = Some (a, b) \<Longrightarrow> s = a @ c # b \<and> c \<notin> set a"
  by (induction s arbitrary: a) (auto split: if_splits)

text \<open>
  Whitespace as \<^verbatim>\<open>char::is_whitespace\<close> sees it: every code point with the Unicode
  property White\_Space, written as its UTF-8 bytes. The encoding is self-synchronising, so
  matching whole encodings at the front or at the back of valid UTF-8 text is matching
  characters.
\<close>

definition ws_seqs :: "string list" where
  "ws_seqs =
     [[CHR '' ''], [CHR 0x09], [CHR 0x0A], [CHR 0x0B], [CHR 0x0C], [CHR 0x0D],
      [CHR 0xC2, CHR 0x85], [CHR 0xC2, CHR 0xA0], [CHR 0xE1, CHR 0x9A, CHR 0x80],
      [CHR 0xE2, CHR 0x80, CHR 0x80], [CHR 0xE2, CHR 0x80, CHR 0x81], [CHR 0xE2, CHR 0x80, CHR 0x82],
      [CHR 0xE2, CHR 0x80, CHR 0x83], [CHR 0xE2, CHR 0x80, CHR 0x84], [CHR 0xE2, CHR 0x80, CHR 0x85],
      [CHR 0xE2, CHR 0x80, CHR 0x86], [CHR 0xE2, CHR 0x80, CHR 0x87], [CHR 0xE2, CHR 0x80, CHR 0x88],
      [CHR 0xE2, CHR 0x80, CHR 0x89], [CHR 0xE2, CHR 0x80, CHR 0x8A], [CHR 0xE2, CHR 0x80, CHR 0xA8],
      [CHR 0xE2, CHR 0x80, CHR 0xA9], [CHR 0xE2, CHR 0x80, CHR 0xAF], [CHR 0xE2, CHR 0x81, CHR 0x9F],
      [CHR 0xE3, CHR 0x80, CHR 0x80]]"

lemma starts_with_shrinks: "w \<noteq> [] \<Longrightarrow> starts_with w s \<Longrightarrow> length s - length w < length s"
  by (cases s) (auto simp: starts_with_def)

text \<open>\<^verbatim>\<open>trim_start_matches\<close>: drop any of the given sequences from the front, repeatedly.\<close>

function strip_seqs :: "string list \<Rightarrow> string \<Rightarrow> string" where
  "strip_seqs ws s =
     (case find (\<lambda>w. w \<noteq> [] \<and> starts_with w s) ws of
        None \<Rightarrow> s
      | Some w \<Rightarrow> strip_seqs ws (drop (length w) s))"
  by pat_completeness auto
termination
  by (relation "measure (\<lambda>(ws, s). length s)") (auto simp: find_Some_iff starts_with_shrinks)

declare strip_seqs.simps [simp del]

definition trim_start :: "string \<Rightarrow> string" where
  "trim_start = strip_seqs ws_seqs"

definition trim_end :: "string \<Rightarrow> string" where
  "trim_end s = rev (strip_seqs (map rev ws_seqs) (rev s))"

definition trim :: "string \<Rightarrow> string" where
  "trim s = trim_end (trim_start s)"

text \<open>\<^verbatim>\<open>str::contains(char::is_whitespace)\<close>.\<close>

fun has_ws :: "string \<Rightarrow> bool" where
  "has_ws [] = False"
| "has_ws (c # s) = (list_ex (\<lambda>w. starts_with w (c # s)) ws_seqs \<or> has_ws s)"

text \<open>Decimal rendering, as \<^verbatim>\<open>format!("{}", n)\<close> of an unsigned integer.\<close>

fun show_nat :: "nat \<Rightarrow> string" where
  "show_nat n =
     (if n < 10 then [char_of (48 + n)] else show_nat (n div 10) @ [char_of (48 + n mod 10)])"

declare show_nat.simps [simp del]

text \<open>
  One step of UTF-8 decoding of a non-empty byte string: whether it starts with a well-formed
  scalar value, and how many bytes that takes; of an ill-formed prefix, the length of its longest
  part that could have started one, which is what \<^verbatim>\<open>String::from_utf8_lossy\<close> replaces.
\<close>

definition byte_in :: "nat \<Rightarrow> nat \<Rightarrow> string \<Rightarrow> bool" where
  "byte_in lo hi s = (case s of [] \<Rightarrow> False | c # _ \<Rightarrow> lo \<le> of_char c \<and> of_char c \<le> hi)"

definition utf8_step :: "string \<Rightarrow> bool \<times> nat" where
  "utf8_step s =
     (if byte_in 0x00 0x7F s then (True, 1)
      else if byte_in 0xC2 0xDF s then
        (if byte_in 0x80 0xBF (drop 1 s) then (True, 2) else (False, 1))
      else if byte_in 0xE0 0xEF s then
        (if \<not> (if byte_in 0xE0 0xE0 s then byte_in 0xA0 0xBF (drop 1 s)
               else if byte_in 0xED 0xED s then byte_in 0x80 0x9F (drop 1 s)
               else byte_in 0x80 0xBF (drop 1 s)) then (False, 1)
         else if \<not> byte_in 0x80 0xBF (drop 2 s) then (False, 2) else (True, 3))
      else if byte_in 0xF0 0xF4 s then
        (if \<not> (if byte_in 0xF0 0xF0 s then byte_in 0x90 0xBF (drop 1 s)
               else if byte_in 0xF4 0xF4 s then byte_in 0x80 0x8F (drop 1 s)
               else byte_in 0x80 0xBF (drop 1 s)) then (False, 1)
         else if \<not> byte_in 0x80 0xBF (drop 2 s) then (False, 2)
         else if \<not> byte_in 0x80 0xBF (drop 3 s) then (False, 3) else (True, 4))
      else (False, 1))"

lemma utf8_step_pos: "0 < snd (utf8_step s)"
  by (simp add: utf8_step_def)

function is_utf8 :: "string \<Rightarrow> bool" where
  "is_utf8 s =
     (if s = [] then True
      else if fst (utf8_step s) then is_utf8 (drop (snd (utf8_step s)) s) else False)"
  by pat_completeness auto
termination
  by (relation "measure length") (auto simp: utf8_step_pos)

function from_utf8_lossy :: "string \<Rightarrow> string" where
  "from_utf8_lossy s =
     (if s = [] then []
      else (if fst (utf8_step s) then take (snd (utf8_step s)) s else [CHR 0xEF, CHR 0xBF, CHR 0xBD])
           @ from_utf8_lossy (drop (snd (utf8_step s)) s))"
  by pat_completeness auto
termination
  by (relation "measure length") (auto simp: utf8_step_pos)

declare is_utf8.simps [simp del] from_utf8_lossy.simps [simp del]

lemma from_utf8_lossy_id: "is_utf8 s \<Longrightarrow> from_utf8_lossy s = s"
proof (induction s rule: is_utf8.induct)
  case (1 s)
  from 1(2) have "s = [] \<or> fst (utf8_step s) \<and> is_utf8 (drop (snd (utf8_step s)) s)"
    by (subst (asm) is_utf8.simps) (simp split: if_splits)
  with 1(1) show ?case by (subst from_utf8_lossy.simps) auto
qed

text \<open>
  \<^verbatim>\<open>str::lines\<close>: a line ends at a line feed, which takes one carriage return before it along;
  an unterminated last line is kept as it is, an empty one is not a line.
\<close>

fun str_lines :: "string \<Rightarrow> string list" where
  "str_lines s =
     (let ps = split_on (CHR 0x0A) s;
          strip_cr = (\<lambda>l. if l \<noteq> [] \<and> last l = CHR 0x0D then butlast l else l)
      in map strip_cr (butlast ps) @ (if last ps = [] then [] else [last ps]))"

text \<open>The index of the first occurrence of a pattern, as \<^verbatim>\<open>str::find\<close>.\<close>

fun find_str :: "string \<Rightarrow> string \<Rightarrow> nat option" where
  "find_str pat [] = (if pat = [] then Some 0 else None)"
| "find_str pat (c # s) =
     (if starts_with pat (c # s) then Some 0 else map_option Suc (find_str pat s))"

lemma find_str_skip:
  "CHR ''/'' \<notin> set s \<Longrightarrow> find_str ''/'' (s @ CHR ''/'' # r) = Some (length s)"
  by (induction s) (auto simp: starts_with_def)

end
