(* ===== verification/Json.thy ===== *)
theory Json
  imports Cart_Prelude
begin

text \<open>
  \<^verbatim>\<open>serde_json::Value\<close> as the crates use it. The locked build enables
  \<^verbatim>\<open>preserve_order\<close> (serde\_json depends on indexmap), so an object is an association list
  in insertion order with distinct keys; equality of objects ignores that order, and so does
  \<open>json_eq\<close>. A number is one of serde\_json's three representations; a float is its IEEE bits.
  The JSON text printer and parser are third-party code and are parameters wherever a component
  stores or measures text.
\<close>

datatype json_num = PosInt u64 | NegInt u64 | Float u64

datatype json =
    JNull
  | JBool bool
  | JNum json_num
  | JStr string
  | JArr "json list"
  | JObj "(string \<times> json) list"

section \<open>Access\<close>

text \<open>\<^verbatim>\<open>value[key]\<close>: \<^verbatim>\<open>Null\<close> for a missing key and for anything but an object.\<close>

definition jget :: "json \<Rightarrow> string \<Rightarrow> json option" where
  "jget v k = (case v of JObj o' \<Rightarrow> map_of o' k | _ \<Rightarrow> None)"

definition jidx :: "json \<Rightarrow> string \<Rightarrow> json" where
  "jidx v k = (case jget v k of None \<Rightarrow> JNull | Some w \<Rightarrow> w)"

definition as_str :: "json \<Rightarrow> string option" where
  "as_str v = (case v of JStr s \<Rightarrow> Some s | _ \<Rightarrow> None)"

definition as_bool :: "json \<Rightarrow> bool option" where
  "as_bool v = (case v of JBool b \<Rightarrow> Some b | _ \<Rightarrow> None)"

definition as_array :: "json \<Rightarrow> json list option" where
  "as_array v = (case v of JArr xs \<Rightarrow> Some xs | _ \<Rightarrow> None)"

lemma json_access_simps [simp]:
  "jget (JObj o') k = map_of o' k"
  "jget JNull k = None" "jget (JBool b) k = None" "jget (JNum n) k = None"
  "jget (JStr s) k = None" "jget (JArr xs) k = None"
  "as_str (JStr s) = Some s" "as_str JNull = None"
  "as_bool (JBool b) = Some b" "as_array (JArr xs) = Some xs"
  by (simp_all add: jget_def as_str_def as_bool_def as_array_def)

section \<open>Equality and canonical form\<close>

definition f64_eq :: "u64 \<Rightarrow> u64 \<Rightarrow> bool" where
  "f64_eq a b \<longleftrightarrow> a = b \<or> (2 * a = 0 \<and> 2 * b = 0)"

fun num_eq :: "json_num \<Rightarrow> json_num \<Rightarrow> bool" where
  "num_eq (PosInt a) (PosInt b) = (a = b)"
| "num_eq (NegInt a) (NegInt b) = (a = b)"
| "num_eq (Float a) (Float b) = f64_eq a b"
| "num_eq _ _ = False"

function json_eq :: "json \<Rightarrow> json \<Rightarrow> bool" where
  "json_eq v w =
     (case (v, w) of
        (JNull, JNull) \<Rightarrow> True
      | (JBool a, JBool b) \<Rightarrow> a = b
      | (JNum a, JNum b) \<Rightarrow> num_eq a b
      | (JStr a, JStr b) \<Rightarrow> a = b
      | (JArr xs, JArr ys) \<Rightarrow> length xs = length ys \<and> list_all (\<lambda>(x, y). json_eq x y) (zip xs ys)
      | (JObj xs, JObj ys) \<Rightarrow>
          length xs = length ys \<and>
          list_all (\<lambda>(k, x). case map_of ys k of None \<Rightarrow> False | Some y \<Rightarrow> json_eq x y) xs
      | _ \<Rightarrow> False)"
  by pat_completeness auto
termination
proof (relation "measure (\<lambda>(v, w). size v)", goal_cases)
  case 1
  show ?case by simp
next
  case (2 v w x xa xs ys z xc yc)
  then have "xc \<in> set xs" by (auto dest: set_zip_leftD)
  with 2 show ?case by (auto simp: less_Suc_eq_le dest!: size_list_estimation' [where f = size, OF _ order_refl])
next
  case (3 v w x xa xs ys z k xc y)
  then have "(k, xc) \<in> set xs" by auto
  with 3 show ?case
    by (auto simp: less_Suc_eq_le dest!: size_list_estimation' [where f = "size_prod (\<lambda>_. 0) size", OF _ order_refl])
qed

declare json_eq.simps [simp del]

text \<open>
  Every key of an object, at every level, occurs once: the representation invariant of
  \<^verbatim>\<open>serde_json::Map\<close>.
\<close>

fun json_wf :: "json \<Rightarrow> bool" where
  "json_wf (JArr xs) = list_all json_wf xs"
| "json_wf (JObj o') = (distinct (map fst o') \<and> list_all (\<lambda>(k, v). json_wf v) o')"
| "json_wf _ = True"

fun canonicalize :: "json \<Rightarrow> json" where
  "canonicalize (JObj o') = JObj (fold (\<lambda>(k, v). om_put k v) (map (\<lambda>(k, v). (k, canonicalize v)) o') [])"
| "canonicalize (JArr xs) = JArr (map canonicalize xs)"
| "canonicalize v = v"

end
