(* ===== verification/Prov.thy ===== *)
theory Prov
  imports Json
begin

text \<open>
  The provenance and confidence model of \<^verbatim>\<open>crates/core-prov/src/lib.rs\<close>: the four producing
  tiers, the confidence each may assert, the overwrite rule R-INT-1, provenance construction and
  re-validation, and the serde wire form of provenance (\<open>prov_to_value\<close>, \<open>prov_from_value\<close>).
  The BLAKE3 digest behind \<^verbatim>\<open>content_hash\<close> is third-party code: it is the parameter \<open>H\<close> of
  every definition that hashes.
\<close>

section \<open>Tiers and confidence\<close>

datatype tier = Deterministic | Dynamic | Semantic | Agentic

datatype confidence_tier = Confirmed | InferredStrong | InferredWeak | Gap

definition tier_index :: "tier \<Rightarrow> nat" where
  "tier_index t = (case t of Deterministic \<Rightarrow> 0 | Dynamic \<Rightarrow> 1 | Semantic \<Rightarrow> 2 | Agentic \<Rightarrow> 3)"

lemma tier_index_eq [simp]: "tier_index a = tier_index b \<longleftrightarrow> a = b"
  by (cases a; cases b) (simp_all add: tier_index_def)

text \<open>The derived \<^verbatim>\<open>Ord\<close>: the ladder, lowest rung first.\<close>

instantiation tier :: linorder
begin

definition less_eq_tier :: "tier \<Rightarrow> tier \<Rightarrow> bool" where
  "a \<le> b \<longleftrightarrow> tier_index a \<le> tier_index b"

definition less_tier :: "tier \<Rightarrow> tier \<Rightarrow> bool" where
  "a < b \<longleftrightarrow> tier_index a < tier_index b"

instance
  by standard (auto simp: less_eq_tier_def less_tier_def)

end

definition confidence_ceiling :: "tier \<Rightarrow> confidence_tier" where
  "confidence_ceiling t =
     (case t of
        Deterministic \<Rightarrow> Confirmed
      | Dynamic \<Rightarrow> Confirmed
      | Semantic \<Rightarrow> InferredStrong
      | Agentic \<Rightarrow> InferredWeak)"

definition may_overwrite :: "tier \<Rightarrow> confidence_tier \<Rightarrow> bool" where
  "may_overwrite producer existing =
     (case producer of
        Deterministic \<Rightarrow> True
      | Dynamic \<Rightarrow> True
      | Semantic \<Rightarrow> existing \<in> {InferredStrong, InferredWeak, Gap}
      | Agentic \<Rightarrow> existing \<in> {InferredWeak, Gap})"

definition confidence_rank :: "confidence_tier \<Rightarrow> nat" where
  "confidence_rank c =
     (case c of Confirmed \<Rightarrow> 3 | InferredStrong \<Rightarrow> 2 | InferredWeak \<Rightarrow> 1 | Gap \<Rightarrow> 0)"

definition confidence_above_ceiling :: "tier \<Rightarrow> confidence_tier \<Rightarrow> bool" where
  "confidence_above_ceiling t c \<longleftrightarrow> confidence_rank (confidence_ceiling t) < confidence_rank c"

section \<open>Provenance\<close>

record evidence_ref =
  ev_repo :: string
  ev_path :: string
  ev_byte_start :: u64
  ev_byte_end :: u64
  ev_commit_sha :: string

record provenance =
  p_tier :: tier
  p_confidence :: confidence_tier
  p_evidence :: "evidence_ref list"
  p_extractor :: string
  p_hash :: string

datatype integrity_error = AboveCeiling tier confidence_tier

definition content_hash :: "(string \<Rightarrow> string) \<Rightarrow> string \<Rightarrow> string" where
  "content_hash H bytes = H bytes"

definition prov_new ::
  "(string \<Rightarrow> string) \<Rightarrow> tier \<Rightarrow> confidence_tier \<Rightarrow> evidence_ref list \<Rightarrow> string \<Rightarrow> string
     \<Rightarrow> (integrity_error, provenance) result" where
  "prov_new H t c evidence extractor_id fact_bytes =
     (if confidence_above_ceiling t c then Inl (AboveCeiling t c)
      else Inr \<lparr>p_tier = t, p_confidence = c, p_evidence = evidence,
                p_extractor = extractor_id, p_hash = content_hash H fact_bytes\<rparr>)"

definition prov_validate :: "provenance \<Rightarrow> (integrity_error, unit) result" where
  "prov_validate p =
     (if confidence_above_ceiling (p_tier p) (p_confidence p)
      then Inl (AboveCeiling (p_tier p) (p_confidence p)) else Inr ())"

section \<open>The serde wire form\<close>

definition tier_name :: "tier \<Rightarrow> string" where
  "tier_name t =
     (case t of Deterministic \<Rightarrow> ''Deterministic'' | Dynamic \<Rightarrow> ''Dynamic''
      | Semantic \<Rightarrow> ''Semantic'' | Agentic \<Rightarrow> ''Agentic'')"

definition confidence_name :: "confidence_tier \<Rightarrow> string" where
  "confidence_name c =
     (case c of Confirmed \<Rightarrow> ''Confirmed'' | InferredStrong \<Rightarrow> ''InferredStrong''
      | InferredWeak \<Rightarrow> ''InferredWeak'' | Gap \<Rightarrow> ''Gap'')"

definition evidence_to_value :: "evidence_ref \<Rightarrow> json" where
  "evidence_to_value e =
     JObj [(''repo'', JStr (ev_repo e)), (''path'', JStr (ev_path e)),
           (''byte_start'', JNum (PosInt (ev_byte_start e))),
           (''byte_end'', JNum (PosInt (ev_byte_end e))),
           (''commit_sha'', JStr (ev_commit_sha e))]"

definition prov_to_value :: "provenance \<Rightarrow> json" where
  "prov_to_value p =
     JObj [(''tier'', JStr (tier_name (p_tier p))),
           (''confidence_tier'', JStr (confidence_name (p_confidence p))),
           (''evidence'', JArr (map evidence_to_value (p_evidence p))),
           (''extractor_id'', JStr (p_extractor p)),
           (''content_hash'', JStr (p_hash p))]"

text \<open>
  Deserialisation with serde's derived visitors. A unit variant is its name, or an object with
  that single key and a null value; a struct is an object (unknown keys ignored) or an array of
  exactly its fields in declaration order; an unsigned integer is a non-negative integer number.
\<close>

definition unit_variant :: "json \<Rightarrow> string option" where
  "unit_variant v =
     (case v of JStr s \<Rightarrow> Some s | JObj [(k, JNull)] \<Rightarrow> Some k | _ \<Rightarrow> None)"

definition struct_field :: "string list \<Rightarrow> json \<Rightarrow> string \<Rightarrow> json option" where
  "struct_field names v f =
     (case v of
        JObj o' \<Rightarrow> map_of o' f
      | JArr xs \<Rightarrow> if length xs = length names then map_of (zip names xs) f else None
      | _ \<Rightarrow> None)"

definition u64_from_value :: "json \<Rightarrow> u64 option" where
  "u64_from_value v = (case v of JNum (PosInt n) \<Rightarrow> Some n | _ \<Rightarrow> None)"

definition tier_from_value :: "json \<Rightarrow> tier option" where
  "tier_from_value v =
     Option.bind (unit_variant v) (\<lambda>s.
       find (\<lambda>t. tier_name t = s) [Deterministic, Dynamic, Semantic, Agentic])"

definition confidence_from_value :: "json \<Rightarrow> confidence_tier option" where
  "confidence_from_value v =
     Option.bind (unit_variant v) (\<lambda>s.
       find (\<lambda>c. confidence_name c = s) [Confirmed, InferredStrong, InferredWeak, Gap])"

definition evidence_fields :: "string list" where
  "evidence_fields = [''repo'', ''path'', ''byte_start'', ''byte_end'', ''commit_sha'']"

definition evidence_from_value :: "json \<Rightarrow> evidence_ref option" where
  "evidence_from_value v =
     (let fld = struct_field evidence_fields v in
      case (Option.bind (fld ''repo'') as_str, Option.bind (fld ''path'') as_str,
            Option.bind (fld ''byte_start'') u64_from_value,
            Option.bind (fld ''byte_end'') u64_from_value,
            Option.bind (fld ''commit_sha'') as_str) of
        (Some r, Some p, Some s, Some e, Some c) \<Rightarrow>
          Some \<lparr>ev_repo = r, ev_path = p, ev_byte_start = s, ev_byte_end = e, ev_commit_sha = c\<rparr>
      | _ \<Rightarrow> None)"

fun all_some :: "'a option list \<Rightarrow> 'a list option" where
  "all_some [] = Some []"
| "all_some (x # xs) =
     (case x of None \<Rightarrow> None | Some a \<Rightarrow> map_option ((#) a) (all_some xs))"

lemma all_some_map_Some [simp]: "all_some (map (\<lambda>x. Some (f x)) xs) = Some (map f xs)"
  by (induction xs) simp_all

definition prov_fields :: "string list" where
  "prov_fields = [''tier'', ''confidence_tier'', ''evidence'', ''extractor_id'', ''content_hash'']"

definition prov_from_value :: "json \<Rightarrow> provenance option" where
  "prov_from_value v =
     (let fld = struct_field prov_fields v in
      case (Option.bind (fld ''tier'') tier_from_value,
            Option.bind (fld ''confidence_tier'') confidence_from_value,
            Option.bind (Option.bind (fld ''evidence'') as_array)
              (\<lambda>xs. all_some (map evidence_from_value xs)),
            Option.bind (fld ''extractor_id'') as_str,
            Option.bind (fld ''content_hash'') as_str) of
        (Some t, Some c, Some es, Some x, Some h) \<Rightarrow>
          Some \<lparr>p_tier = t, p_confidence = c, p_evidence = es, p_extractor = x, p_hash = h\<rparr>
      | _ \<Rightarrow> None)"

section \<open>Properties\<close>

lemmas ceiling_defs = confidence_above_ceiling_def confidence_ceiling_def confidence_rank_def

lemma may_overwrite_ceiling:
  "may_overwrite producer existing \<longleftrightarrow> \<not> confidence_above_ceiling producer existing"
  by (cases producer; cases existing) (simp_all add: may_overwrite_def ceiling_defs)

lemma may_overwrite_confirmed:
  "may_overwrite producer Confirmed \<longleftrightarrow> producer \<in> {Deterministic, Dynamic}"
  by (cases producer) (simp_all add: may_overwrite_def)

lemma may_overwrite_gap [simp]: "may_overwrite producer Gap"
  by (cases producer) (simp_all add: may_overwrite_def)

text \<open>
  The overwrite rule R-INT-1 and the confidence ceiling are one order. A producer may write
  over a fact exactly when the confidence the fact holds is one the producer's tier could itself
  assert; a lower rung of the ladder may write wherever a higher one may, and only T0 and T1 may
  touch a Confirmed fact.
\<close>

theorem may_overwrite_iff_within_ceiling:
  "(may_overwrite producer existing \<longleftrightarrow> \<not> confidence_above_ceiling producer existing) \<and>
   (may_overwrite producer Confirmed \<longleftrightarrow> producer \<le> Dynamic) \<and>
   {c. may_overwrite (max producer other) c} \<subseteq> {c. may_overwrite producer c}"
  by (cases producer; cases other)
     (auto simp: may_overwrite_ceiling ceiling_defs less_eq_tier_def tier_index_def max_def)

lemma not_above_ceiling_T0 [simp]: "\<not> confidence_above_ceiling Deterministic c"
  by (cases c) (simp_all add: ceiling_defs)

lemma not_above_ceiling_T1 [simp]: "\<not> confidence_above_ceiling Dynamic c"
  by (cases c) (simp_all add: ceiling_defs)

lemma not_above_ceiling_gap [simp]: "\<not> confidence_above_ceiling t Gap"
  by (simp add: ceiling_defs)

text \<open>
  The construction every deterministic extractor performs: it never fails, whatever the
  confidence, which is why the source can call \<^verbatim>\<open>expect\<close> on it.
\<close>

definition t0_prov ::
  "(string \<Rightarrow> string) \<Rightarrow> confidence_tier \<Rightarrow> evidence_ref list \<Rightarrow> string \<Rightarrow> string \<Rightarrow> provenance" where
  "t0_prov H c evidence extractor_id fct =
     \<lparr>p_tier = Deterministic, p_confidence = c, p_evidence = evidence,
      p_extractor = extractor_id, p_hash = H fct\<rparr>"

lemma prov_new_T0 [simp]:
  "prov_new H Deterministic c evidence extractor_id fct =
     Inr (t0_prov H c evidence extractor_id fct)"
  by (simp add: prov_new_def t0_prov_def content_hash_def)

lemma t0_prov_sel [simp]:
  "p_tier (t0_prov H c ev x f) = Deterministic"
  "p_confidence (t0_prov H c ev x f) = c"
  "p_evidence (t0_prov H c ev x f) = ev"
  "p_extractor (t0_prov H c ev x f) = x"
  "p_hash (t0_prov H c ev x f) = H f"
  by (simp_all add: t0_prov_def)

lemma prov_validate_T0 [simp]: "p_tier p = Deterministic \<Longrightarrow> prov_validate p = Inr ()"
  by (simp add: prov_validate_def)

lemma prov_new_Inr_iff:
  "prov_new H t c ev x f = Inr p \<longleftrightarrow>
     \<not> confidence_above_ceiling t c \<and>
     p = \<lparr>p_tier = t, p_confidence = c, p_evidence = ev, p_extractor = x, p_hash = H f\<rparr>"
  by (auto simp: prov_new_def content_hash_def)

lemma tier_from_value_name [simp]: "tier_from_value (JStr (tier_name t)) = Some t"
  by (cases t) (simp_all add: tier_from_value_def unit_variant_def tier_name_def)

lemma confidence_from_value_name [simp]: "confidence_from_value (JStr (confidence_name c)) = Some c"
  by (cases c) (simp_all add: confidence_from_value_def unit_variant_def confidence_name_def)

lemma evidence_from_to_value [simp]: "evidence_from_value (evidence_to_value e) = Some e"
  by (simp add: evidence_from_value_def evidence_to_value_def struct_field_def u64_from_value_def
      Let_def)

lemma prov_from_to_value [simp]: "prov_from_value (prov_to_value p) = Some p"
  by (simp add: prov_from_value_def prov_to_value_def struct_field_def Let_def comp_def)

text \<open>
  Provenance survives its wire form. Whatever a producer constructs within its ceiling
  serialises to a value from which a consumer reads back exactly the same provenance, and
  re-validation accepts it; a construction above the ceiling is refused with the offending pair.
\<close>

theorem prov_new_wire_roundtrip:
  "case prov_new H t c evidence extractor_id fct of
     Inl err \<Rightarrow> err = AboveCeiling t c \<and> \<not> may_overwrite t c
   | Inr p \<Rightarrow> prov_from_value (prov_to_value p) = Some p \<and> prov_validate p = Inr () \<and>
              may_overwrite t (p_confidence p) \<and> p_evidence p = evidence"
  by (simp add: prov_new_def prov_validate_def may_overwrite_ceiling)

end
