(* ===== verification/Graph_Store.thy ===== *)
theory Graph_Store
  imports Prov
begin

text \<open>
  The unified graph store of \<^verbatim>\<open>crates/core-graph/src/lib.rs\<close>: the SQLite tables as key-ordered
  maps, every statement the store issues (with its foreign keys and the association triggers of
  \<^verbatim>\<open>source.rs\<close> that fire on it), the \<^verbatim>\<open>GraphStore\<close> operations, the conditional patch and the
  recursive reachability query. A statement that fails leaves the database as it was, and so does
  a transaction that is not committed. The JSON text codec of serde\_json is the pair of
  parameters \<open>ts\<close> (\<^verbatim>\<open>to_string\<close>) and \<open>fs\<close> (\<^verbatim>\<open>from_str\<close>).
\<close>

section \<open>Facts, patches, errors\<close>

record node =
  n_id :: string
  n_label :: string
  n_props :: json

record edge =
  e_src :: string
  e_dst :: string
  e_label :: string
  e_props :: json

type_synonym edge_key = "string \<times> string \<times> string"
type_synonym snapshot = "node list \<times> edge list"

definition e_key :: "edge \<Rightarrow> edge_key" where
  "e_key e = (e_src e, e_dst e, e_label e)"

record graph_patch =
  upsert_nodes :: "node list"
  upsert_edges :: "edge list"
  delete_node_ids :: "string list"
  delete_edges :: "edge_key list"

datatype snapshot_bounds_error =
    InvalidLimits | RowLimit | RawByteLimit | CanonicalByteLimit | JsonDepthLimit
  | JsonValueLimit | InvalidSchema | InvalidRow | InvalidJson

datatype storage_error = ForeignKeyViolation | UniqueViolation | CheckViolation

datatype graph_error =
    Storage storage_error
  | Props
  | SourceBindingError string
  | SnapshotBounds snapshot_bounds_error

section \<open>Tables\<close>

record bind_row =
  b_repo_key :: string
  b_receipt_id :: string
  b_digest :: string

text \<open>The association schema: none yet, the owned one with its version rows, or a foreign one.\<close>

datatype assoc_schema = NoSchema | Owned "(int \<times> int) list" | Foreign

text \<open>
  Edge rows are keyed \<^verbatim>\<open>(src, dst, label)\<close>, edge associations
  \<^verbatim>\<open>(source, label, destination)\<close>, as their primary keys are.
\<close>

record graph_db =
  db_nodes :: "(string, string \<times> string) omap"
  db_edges :: "(edge_key, string) omap"
  db_node_bind :: "(string, bind_row) omap"
  db_edge_bind :: "(edge_key, bind_row) omap"
  db_schema :: assoc_schema
  db_version :: "32 word"

definition GRAPH_SCHEMA_VERSION :: "32 word" where
  "GRAPH_SCHEMA_VERSION = 6"

definition has_node :: "graph_db \<Rightarrow> string \<Rightarrow> bool" where
  "has_node db i \<longleftrightarrow> om_get (db_nodes db) i \<noteq> None"

definition has_edge :: "graph_db \<Rightarrow> edge_key \<Rightarrow> bool" where
  "has_edge db k \<longleftrightarrow> om_get (db_edges db) k \<noteq> None"

section \<open>Statements\<close>

text \<open>\<^verbatim>\<open>DELETE FROM edges WHERE ...\<close> with trigger \<^verbatim>\<open>source_binding_edge_delete\<close>.\<close>

definition sql_delete_edges :: "(edge_key \<Rightarrow> bool) \<Rightarrow> graph_db \<Rightarrow> graph_db" where
  "sql_delete_edges P db =
     db\<lparr>db_edges := om_filter (\<lambda>k. \<not> P k) (db_edges db),
        db_edge_bind := om_filter (\<lambda>(s, l, d). \<not> (has_edge db (s, d, l) \<and> P (s, d, l))) (db_edge_bind db)\<rparr>"

text \<open>
  \<^verbatim>\<open>DELETE FROM nodes WHERE ...\<close> with trigger \<^verbatim>\<open>source_binding_node_delete\<close>; an edge that
  still names a deleted node is a foreign-key failure.
\<close>

definition sql_delete_nodes :: "(string \<Rightarrow> bool) \<Rightarrow> graph_db \<Rightarrow> (graph_error, graph_db) result" where
  "sql_delete_nodes P db =
     (if list_ex (\<lambda>((s, d, l), _). (has_node db s \<and> P s) \<or> (has_node db d \<and> P d)) (db_edges db)
      then Inl (Storage ForeignKeyViolation)
      else Inr (db\<lparr>db_nodes := om_filter (\<lambda>i. \<not> P i) (db_nodes db),
                   db_node_bind := om_filter (\<lambda>i. \<not> (has_node db i \<and> P i)) (db_node_bind db),
                   db_edge_bind := om_filter (\<lambda>(s, l, d). \<not> ((has_node db s \<and> P s) \<or> (has_node db d \<and> P d)))
                     (db_edge_bind db)\<rparr>))"

text \<open>The node upsert, with the insert or the update trigger.\<close>

definition write_node :: "(json \<Rightarrow> string) \<Rightarrow> node \<Rightarrow> graph_db \<Rightarrow> (graph_error, graph_db) result" where
  "write_node ts n db =
     (let i = n_id n;
          ebs = (if has_node db i then db_edge_bind db
                 else om_filter (\<lambda>(s, l, d). \<not> (s = i \<or> d = i)) (db_edge_bind db))
      in Inr (db\<lparr>db_nodes := om_put i (n_label n, ts (n_props n)) (db_nodes db),
                 db_node_bind := om_del i (db_node_bind db),
                 db_edge_bind := ebs\<rparr>))"

text \<open>The edge upsert: both endpoints must exist; either trigger drops the edge's association.\<close>

definition write_edge :: "(json \<Rightarrow> string) \<Rightarrow> edge \<Rightarrow> graph_db \<Rightarrow> (graph_error, graph_db) result" where
  "write_edge ts e db =
     (if \<not> has_node db (e_src e) \<or> \<not> has_node db (e_dst e)
      then Inl (Storage ForeignKeyViolation)
      else Inr (db\<lparr>db_edges := om_put (e_key e) (ts (e_props e)) (db_edges db),
                   db_edge_bind := om_del (e_src e, e_label e, e_dst e) (db_edge_bind db)\<rparr>))"

section \<open>Opening a store\<close>

definition check_schema :: "graph_db \<Rightarrow> (graph_error, unit) result" where
  "check_schema db =
     (case db_schema db of
        Owned rows \<Rightarrow> if rows = [(1, 1)] then Inr ()
                      else Inl (SourceBindingError ''unsupported association version'')
      | _ \<Rightarrow> Inl (SourceBindingError ''incompatible association schema''))"

definition source_initialize :: "graph_db \<Rightarrow> (graph_error, graph_db) result" where
  "source_initialize db =
     (let db' = (case db_schema db of NoSchema \<Rightarrow> db\<lparr>db_schema := Owned [(1, 1)]\<rparr> | _ \<Rightarrow> db)
      in rbind (check_schema db') (\<lambda>_. Inr db'))"

definition store_init :: "graph_db \<Rightarrow> (graph_error, graph_db) result" where
  "store_init db =
     rbind (source_initialize db) (\<lambda>db.
       if db_version db \<noteq> GRAPH_SCHEMA_VERSION
       then rbind (sql_delete_nodes (\<lambda>_. True) (sql_delete_edges (\<lambda>_. True) db))
              (\<lambda>db. Inr (db\<lparr>db_version := GRAPH_SCHEMA_VERSION\<rparr>))
       else Inr db)"

section \<open>The GraphStore operations\<close>

definition put_node where "put_node = write_node"
definition put_edge where "put_edge = write_edge"

definition delete_edges_from_with_label :: "string \<Rightarrow> string \<Rightarrow> graph_db \<Rightarrow> (graph_error, graph_db) result" where
  "delete_edges_from_with_label src label db =
     Inr (sql_delete_edges (\<lambda>(s, d, l). s = src \<and> l = label) db)"

definition delete_edge :: "string \<Rightarrow> string \<Rightarrow> string \<Rightarrow> graph_db \<Rightarrow> (graph_error, graph_db) result" where
  "delete_edge src dst label db = Inr (sql_delete_edges (\<lambda>k. k = (src, dst, label)) db)"

definition delete_node :: "string \<Rightarrow> graph_db \<Rightarrow> (graph_error, graph_db) result" where
  "delete_node i db =
     sql_delete_nodes (\<lambda>j. j = i) (sql_delete_edges (\<lambda>(s, d, l). s = i \<or> d = i) db)"

definition store_clear :: "graph_db \<Rightarrow> (graph_error, graph_db) result" where
  "store_clear db = sql_delete_nodes (\<lambda>_. True) (sql_delete_edges (\<lambda>_. True) db)"

definition node_of_row :: "(string \<Rightarrow> json option) \<Rightarrow> string \<times> string \<times> string \<Rightarrow> (graph_error, node) result" where
  "node_of_row fs row =
     (case row of (i, label, props) \<Rightarrow>
        (case fs props of None \<Rightarrow> Inl Props
         | Some v \<Rightarrow> Inr \<lparr>n_id = i, n_label = label, n_props = v\<rparr>))"

definition edge_of_row :: "(string \<Rightarrow> json option) \<Rightarrow> edge_key \<times> string \<Rightarrow> (graph_error, edge) result" where
  "edge_of_row fs row =
     (case row of ((s, d, l), props) \<Rightarrow>
        (case fs props of None \<Rightarrow> Inl Props
         | Some v \<Rightarrow> Inr \<lparr>e_src = s, e_dst = d, e_label = l, e_props = v\<rparr>))"

definition get_node :: "(string \<Rightarrow> json option) \<Rightarrow> string \<Rightarrow> graph_db \<Rightarrow> (graph_error, node option) result" where
  "get_node fs i db =
     (case om_get (db_nodes db) i of
        None \<Rightarrow> Inr None
      | Some (label, props) \<Rightarrow> rbind (node_of_row fs (i, label, props)) (\<lambda>n. Inr (Some n)))"

text \<open>\<^verbatim>\<open>label_selection\<close>: no restriction, or membership in the given labels.\<close>

definition label_selection :: "string list option \<Rightarrow> string \<Rightarrow> bool" where
  "label_selection labels l = (case labels of None \<Rightarrow> True | Some ls \<Rightarrow> l \<in> set ls)"

definition read_nodes :: "(string \<Rightarrow> json option) \<Rightarrow> string list option \<Rightarrow> graph_db \<Rightarrow> (graph_error, node list) result" where
  "read_nodes fs labels db =
     try_map (node_of_row fs) (filter (\<lambda>(i, l, p). label_selection labels l) (db_nodes db))"

definition read_edges :: "(string \<Rightarrow> json option) \<Rightarrow> string list option \<Rightarrow> graph_db \<Rightarrow> (graph_error, edge list) result" where
  "read_edges fs labels db =
     try_map (edge_of_row fs) (filter (\<lambda>((s, d, l), p). label_selection labels l) (db_edges db))"

definition read_snapshot_filtered ::
  "(string \<Rightarrow> json option) \<Rightarrow> string list option \<Rightarrow> string list option \<Rightarrow> graph_db \<Rightarrow> (graph_error, snapshot) result" where
  "read_snapshot_filtered fs nls els db =
     rbind (read_nodes fs nls db) (\<lambda>ns. rbind (read_edges fs els db) (\<lambda>es. Inr (ns, es)))"

definition read_snapshot :: "(string \<Rightarrow> json option) \<Rightarrow> graph_db \<Rightarrow> (graph_error, snapshot) result" where
  "read_snapshot fs db = read_snapshot_filtered fs None None db"

definition all_nodes where "all_nodes fs db = read_nodes fs None db"
definition all_edges where "all_edges fs db = read_edges fs None db"
definition nodes_with_label where "nodes_with_label fs label db = read_nodes fs (Some [label]) db"
definition edges_with_labels where "edges_with_labels fs labels db = read_edges fs (Some labels) db"

definition node_count :: "graph_db \<Rightarrow> nat" where "node_count db = length (db_nodes db)"
definition edge_count :: "graph_db \<Rightarrow> nat" where "edge_count db = length (db_edges db)"
definition fact_counts :: "graph_db \<Rightarrow> nat \<times> nat" where
  "fact_counts db = (length (db_nodes db), length (db_edges db))"

section \<open>Snapshot comparison and the conditional patch\<close>

text \<open>The derived \<^verbatim>\<open>PartialEq\<close> of nodes and edges: JSON equality on the properties.\<close>

definition node_eq :: "node \<Rightarrow> node \<Rightarrow> bool" where
  "node_eq a b \<longleftrightarrow> n_id a = n_id b \<and> n_label a = n_label b \<and> json_eq (n_props a) (n_props b)"

definition edge_eq :: "edge \<Rightarrow> edge \<Rightarrow> bool" where
  "edge_eq a b \<longleftrightarrow> e_src a = e_src b \<and> e_dst a = e_dst b \<and> e_label a = e_label b \<and>
     json_eq (e_props a) (e_props b)"

definition snapshot_eq :: "snapshot \<Rightarrow> snapshot \<Rightarrow> bool" where
  "snapshot_eq a b \<longleftrightarrow> list_all2 node_eq (fst a) (fst b) \<and> list_all2 edge_eq (snd a) (snd b)"

definition patch_delete_node :: "string \<Rightarrow> graph_db \<Rightarrow> (graph_error, graph_db) result" where
  "patch_delete_node i db =
     sql_delete_nodes (\<lambda>j. j = i) (sql_delete_edges (\<lambda>(s, d, l). s = i \<or> d = i) db)"

definition apply_patch_rows ::
  "(json \<Rightarrow> string) \<Rightarrow> graph_patch \<Rightarrow> graph_db \<Rightarrow> (graph_error, graph_db) result" where
  "apply_patch_rows ts patch db =
     (let db1 = fold (\<lambda>k. sql_delete_edges (\<lambda>k'. k' = k)) (delete_edges patch) db in
      rbind (try_fold patch_delete_node (delete_node_ids patch) db1) (\<lambda>db2.
      rbind (try_fold (write_node ts) (upsert_nodes patch) db2) (\<lambda>db3.
      try_fold (write_edge ts) (upsert_edges patch) db3)))"

text \<open>
  One immediate transaction. The result is the returned \<^verbatim>\<open>Result<bool>\<close> and the database
  after the transaction has committed or rolled back.
\<close>

definition apply_patch_if_snapshot_matches ::
  "(json \<Rightarrow> string) \<Rightarrow> (string \<Rightarrow> json option) \<Rightarrow> snapshot \<Rightarrow> graph_patch \<Rightarrow> graph_db
     \<Rightarrow> (graph_error, bool) result \<times> graph_db" where
  "apply_patch_if_snapshot_matches ts fs expected patch db =
     (case read_snapshot fs db of
        Inl e \<Rightarrow> (Inl e, db)
      | Inr current \<Rightarrow>
          if \<not> snapshot_eq current expected then (Inr False, db)
          else (case apply_patch_rows ts patch db of
                  Inl e \<Rightarrow> (Inl e, db)
                | Inr db' \<Rightarrow> (Inr True, db')))"

section \<open>The reachability query\<close>

text \<open>
  The recursive common table expression of \<^verbatim>\<open>reachable_from\<close>: rows are taken from a queue,
  and \<^verbatim>\<open>UNION\<close> admits a row only if it was never queued before, which is what ends the query
  on a cyclic graph.
\<close>

definition succs :: "string option \<Rightarrow> edge_key list \<Rightarrow> string \<Rightarrow> string list" where
  "succs label ks i =
     map (\<lambda>(s, d, l). d) (filter (\<lambda>(s, d, l). s = i \<and> (label = None \<or> label = Some l)) ks)"

function cte_loop :: "string option \<Rightarrow> edge_key list \<Rightarrow> string list \<Rightarrow> string list \<Rightarrow> string list" where
  "cte_loop label ks [] seen = seen"
| "cte_loop label ks (x # queue) seen =
     (let new = remdups (filter (\<lambda>d. d \<notin> set seen) (succs label ks x))
      in cte_loop label ks (queue @ new) (seen @ new))"
  by pat_completeness auto
termination
proof (relation "inv_image (finite_psubset <*lex*> less_than)
    (\<lambda>(label, ks, queue, seen). ((fst \<circ> snd) ` set ks - set seen, length queue))", goal_cases)
  case 1
  show ?case by auto
next
  case (2 label ks x queue seen new)
  have "set new \<subseteq> (fst \<circ> snd) ` set ks" "set new \<inter> set seen = {}"
    using 2 by (force simp: succs_def)+
  moreover have "A - (set seen \<union> set new) \<subset> A - set seen"
    if "new \<noteq> []" "set new \<subseteq> A" "set new \<inter> set seen = {}" for A
    using that by (cases new) auto
  ultimately show ?case
    by (cases "new = []") (simp_all add: finite_psubset_def)
qed

definition reachable_from :: "string \<Rightarrow> string option \<Rightarrow> graph_db \<Rightarrow> string list" where
  "reachable_from start label db =
     (let ks = map fst (db_edges db); init = remdups (succs label ks start)
      in sort (cte_loop label ks init init))"

end
