(* ===== verification/Graph_Store_Props.thy ===== *)
theory Graph_Store_Props
  imports Graph_Store
begin

text \<open>
  Correctness of the graph store. The invariant \<open>db_wf\<close> (primary keys, foreign keys, no
  association without its fact) is kept by every statement; the \<^verbatim>\<open>GraphStore\<close> trait is the
  locale \<open>graph_store\<close>, interpreted on the SQLite model; the conditional patch refines
  \<open>patch_spec\<close>, an update of two partial maps; the recursive query computes reachability.
\<close>

section \<open>The store invariant\<close>

definition db_wf :: "graph_db \<Rightarrow> bool" where
  "db_wf db \<longleftrightarrow>
     om_wf (db_nodes db) \<and> om_wf (db_edges db) \<and> om_wf (db_node_bind db) \<and> om_wf (db_edge_bind db) \<and>
     list_all (\<lambda>((s, d, l), _). has_node db s \<and> has_node db d) (db_edges db) \<and>
     list_all (\<lambda>(i, _). has_node db i) (db_node_bind db) \<and>
     list_all (\<lambda>((s, l, d), _). has_edge db (s, d, l)) (db_edge_bind db)"

lemma om_key_iff: "k \<in> fst ` set m \<longleftrightarrow> om_get m k \<noteq> None"
  using dom_map_of_conv_image_fst [of m] by auto

lemma list_all_keys:
  "list_all (\<lambda>(k, _). P k) m \<longleftrightarrow> (\<forall>k. om_get m k \<noteq> None \<longrightarrow> P k)"
proof -
  have "list_all (\<lambda>(k, _). P k) m \<longleftrightarrow> (\<forall>k \<in> fst ` set m. P k)"
    by (auto simp: list_all_iff)
  then show ?thesis by (simp only: Ball_def om_key_iff)
qed

lemma list_ex_keys:
  "list_ex (\<lambda>(k, _). P k) m \<longleftrightarrow> (\<exists>k. om_get m k \<noteq> None \<and> P k)"
proof -
  have "list_ex (\<lambda>(k, _). P k) m \<longleftrightarrow> (\<exists>k \<in> fst ` set m. P k)"
    by (force simp: list_ex_iff)
  then show ?thesis by (simp only: Bex_def om_key_iff)
qed

lemma db_wf_alt:
  "db_wf db \<longleftrightarrow>
     om_wf (db_nodes db) \<and> om_wf (db_edges db) \<and> om_wf (db_node_bind db) \<and> om_wf (db_edge_bind db) \<and>
     (\<forall>s d l. has_edge db (s, d, l) \<longrightarrow> has_node db s \<and> has_node db d) \<and>
     (\<forall>i. om_get (db_node_bind db) i \<noteq> None \<longrightarrow> has_node db i) \<and>
     (\<forall>s l d. om_get (db_edge_bind db) (s, l, d) \<noteq> None \<longrightarrow> has_edge db (s, d, l))"
  using list_all_keys [of "\<lambda>(s, d, l). has_node db s \<and> has_node db d" "db_edges db"]
    list_all_keys [of "has_node db" "db_node_bind db"]
    list_all_keys [of "\<lambda>(s, l, d). has_edge db (s, d, l)" "db_edge_bind db"]
  by (simp add: db_wf_def has_edge_def case_prod_unfold split_paired_All)

lemma has_fact_upd [simp]:
  "has_node (db\<lparr>db_node_bind := nb\<rparr>) i = has_node db i" "has_edge (db\<lparr>db_node_bind := nb\<rparr>) k = has_edge db k"
  "has_node (db\<lparr>db_edge_bind := eb\<rparr>) i = has_node db i" "has_edge (db\<lparr>db_edge_bind := eb\<rparr>) k = has_edge db k"
  by (simp_all add: has_node_def has_edge_def)

lemma db_wf_meta [simp]:
  "db_wf (db\<lparr>db_schema := x\<rparr>) = db_wf db" "db_wf (db\<lparr>db_version := v\<rparr>) = db_wf db"
  by (simp_all add: db_wf_def has_node_def has_edge_def)

section \<open>Statements keep the invariant\<close>

lemma sql_delete_edges_sel [simp]:
  "db_nodes (sql_delete_edges P db) = db_nodes db"
  "db_node_bind (sql_delete_edges P db) = db_node_bind db"
  "db_schema (sql_delete_edges P db) = db_schema db"
  "db_version (sql_delete_edges P db) = db_version db"
  "has_node (sql_delete_edges P db) i = has_node db i"
  "om_get (db_edges (sql_delete_edges P db)) k = (if P k then None else om_get (db_edges db) k)"
  by (simp_all add: sql_delete_edges_def has_node_def)

lemma has_edge_delete [simp]: "has_edge (sql_delete_edges P db) k \<longleftrightarrow> has_edge db k \<and> \<not> P k"
  by (simp add: has_edge_def)

lemma db_wf_delete_edges [simp]: "db_wf db \<Longrightarrow> db_wf (sql_delete_edges P db)"
  by (auto simp: db_wf_alt) (auto simp: sql_delete_edges_def split: if_splits)

lemma sql_delete_nodes_fk:
  "(\<exists>e. sql_delete_nodes P db = Inl e) \<longleftrightarrow>
     (\<exists>s d l. has_edge db (s, d, l) \<and> ((has_node db s \<and> P s) \<or> (has_node db d \<and> P d)))"
  using list_ex_keys [of "\<lambda>(s, d, l). (has_node db s \<and> P s) \<or> (has_node db d \<and> P d)" "db_edges db"]
  by (auto simp: sql_delete_nodes_def has_edge_def case_prod_unfold split: if_splits)

lemma sql_delete_nodes_Inr:
  assumes "sql_delete_nodes P db = Inr db'"
  shows "om_get (db_nodes db') i = (if P i then None else om_get (db_nodes db) i)"
    and "db_edges db' = db_edges db"
    and "has_node db' i \<longleftrightarrow> has_node db i \<and> \<not> P i"
    and "has_edge db' k = has_edge db k"
    and "db_schema db' = db_schema db" and "db_version db' = db_version db"
  using assms by (auto simp: sql_delete_nodes_def has_node_def has_edge_def split: if_splits)

lemma db_wf_delete_nodes:
  assumes "db_wf db" and r: "sql_delete_nodes P db = Inr db'"
  shows "db_wf db'"
proof -
  have fk: "\<not> (has_edge db (s, d, l) \<and> ((has_node db s \<and> P s) \<or> (has_node db d \<and> P d)))" for s d l
    using sql_delete_nodes_fk [of P db] r by auto
  have refs: "has_edge db (s, d, l) \<Longrightarrow> has_node db s \<and> has_node db d" for s d l
    using assms(1) by (auto simp: db_wf_alt)
  show ?thesis
    using assms(1) fk refs r
    by (auto simp: db_wf_alt sql_delete_nodes_Inr [OF r])
       (auto simp: sql_delete_nodes_def split: if_splits)
qed

lemma write_node_ok:
  obtains db' where "write_node ts n db = Inr db'"
  by (simp add: write_node_def Let_def)

lemma write_node_sel:
  assumes "write_node ts n db = Inr db'"
  shows "om_get (db_nodes db') = (om_get (db_nodes db))(n_id n \<mapsto> (n_label n, ts (n_props n)))"
    and "db_edges db' = db_edges db"
    and "has_node db' i \<longleftrightarrow> i = n_id n \<or> has_node db i"
    and "has_edge db' k = has_edge db k"
    and "db_schema db' = db_schema db" and "db_version db' = db_version db"
  using assms by (auto simp: write_node_def Let_def has_node_def has_edge_def)

lemma db_wf_write_node:
  assumes "db_wf db" and r: "write_node ts n db = Inr db'"
  shows "db_wf db'"
  using assms(1)
  by (auto simp: db_wf_alt write_node_sel [OF r])
     (use r in \<open>auto simp: write_node_def Let_def split: if_splits\<close>)

lemma write_edge_Inl: "write_edge ts e db = Inl err \<longleftrightarrow>
    err = Storage ForeignKeyViolation \<and> \<not> (has_node db (e_src e) \<and> has_node db (e_dst e))"
  by (auto simp: write_edge_def)

lemma write_edge_sel:
  assumes "write_edge ts e db = Inr db'"
  shows "om_get (db_edges db') = (om_get (db_edges db))(e_key e \<mapsto> ts (e_props e))"
    and "db_nodes db' = db_nodes db" and "db_node_bind db' = db_node_bind db"
    and "has_node db' i = has_node db i"
    and "has_edge db' k \<longleftrightarrow> k = e_key e \<or> has_edge db k"
    and "has_node db (e_src e)" and "has_node db (e_dst e)"
    and "db_schema db' = db_schema db" and "db_version db' = db_version db"
  using assms by (auto simp: write_edge_def has_node_def has_edge_def split: if_splits)

lemma db_wf_write_edge:
  assumes "db_wf db" and r: "write_edge ts e db = Inr db'"
  shows "db_wf db'"
  using assms(1) write_edge_sel(6,7) [OF r]
  by (auto simp: db_wf_alt write_edge_sel(2-5,8,9) [OF r] e_key_def)
     (use r in \<open>auto simp: write_edge_def e_key_def split: if_splits\<close>)

lemmas db_wf_statements = db_wf_delete_edges db_wf_delete_nodes db_wf_write_node db_wf_write_edge

text \<open>Deleting a node's incident edges first makes the node deletion succeed.\<close>

lemma patch_delete_node_ok:
  obtains db' where "patch_delete_node i db = Inr db'"
proof -
  have "\<nexists>e. patch_delete_node i db = Inl e"
    unfolding patch_delete_node_def sql_delete_nodes_fk by auto
  then show thesis using that by (cases "patch_delete_node i db") auto
qed

lemma patch_delete_node_sel:
  assumes r: "patch_delete_node i db = Inr db'"
  shows "om_get (db_nodes db') j = (if j = i then None else om_get (db_nodes db) j)"
    and "om_get (db_edges db') (s, d, l) = (if s = i \<or> d = i then None else om_get (db_edges db) (s, d, l))"
    and "db_schema db' = db_schema db" and "db_version db' = db_version db"
  using sql_delete_nodes_Inr [OF r [unfolded patch_delete_node_def]] by simp_all

lemma db_wf_patch_delete_node: "db_wf db \<Longrightarrow> patch_delete_node i db = Inr db' \<Longrightarrow> db_wf db'"
  unfolding patch_delete_node_def by (rule db_wf_delete_nodes [OF db_wf_delete_edges])

lemma store_clear_ok: "\<exists>db'. store_clear db = Inr db'"
  using sql_delete_nodes_fk [of "\<lambda>_. True" "sql_delete_edges (\<lambda>_. True) db"]
  by (cases "store_clear db") (auto simp: store_clear_def)

section \<open>The store as an abstract graph\<close>

text \<open>What a store promises its clients: two partial maps, the facts by their stable keys.\<close>

type_synonym node_view = "string \<Rightarrow> (string \<times> string) option"
type_synonym edge_view = "edge_key \<Rightarrow> string option"

definition node_row :: "(json \<Rightarrow> string) \<Rightarrow> node \<Rightarrow> string \<times> (string \<times> string)" where
  "node_row ts n = (n_id n, n_label n, ts (n_props n))"

definition edge_row :: "(json \<Rightarrow> string) \<Rightarrow> edge \<Rightarrow> edge_key \<times> string" where
  "edge_row ts e = (e_key e, ts (e_props e))"

definition incident :: "string set \<Rightarrow> edge_key \<Rightarrow> bool" where
  "incident A k = (case k of (s, d, l) \<Rightarrow> s \<in> A \<or> d \<in> A)"

definition patch_nodes_spec :: "(json \<Rightarrow> string) \<Rightarrow> graph_patch \<Rightarrow> node_view \<Rightarrow> node_view" where
  "patch_nodes_spec ts p N =
     (\<lambda>i. if i \<in> set (delete_node_ids p) then None else N i) ++
     map_of (rev (map (node_row ts) (upsert_nodes p)))"

definition patch_edges_spec :: "(json \<Rightarrow> string) \<Rightarrow> graph_patch \<Rightarrow> edge_view \<Rightarrow> edge_view" where
  "patch_edges_spec ts p E =
     (\<lambda>k. if k \<in> set (delete_edges p) \<or> incident (set (delete_node_ids p)) k then None else E k) ++
     map_of (rev (map (edge_row ts) (upsert_edges p)))"

text \<open>The abstract patch: every upserted edge must end in a node that exists afterwards.\<close>

definition patch_spec ::
  "(json \<Rightarrow> string) \<Rightarrow> graph_patch \<Rightarrow> node_view \<times> edge_view \<Rightarrow> (node_view \<times> edge_view) option" where
  "patch_spec ts p g =
     (let N = patch_nodes_spec ts p (fst g) in
      if list_all (\<lambda>e. N (e_src e) \<noteq> None \<and> N (e_dst e) \<noteq> None) (upsert_edges p)
      then Some (N, patch_edges_spec ts p (snd g)) else None)"

definition db_view :: "graph_db \<Rightarrow> node_view \<times> edge_view" where
  "db_view db = (om_get (db_nodes db), om_get (db_edges db))"

lemma fold_delete_edges_view:
  "om_get (db_edges (fold (\<lambda>k. sql_delete_edges (\<lambda>k'. k' = k)) ks db)) =
     (\<lambda>k. if k \<in> set ks then None else om_get (db_edges db) k)"
  "db_nodes (fold (\<lambda>k. sql_delete_edges (\<lambda>k'. k' = k)) ks db) = db_nodes db"
  "db_wf db \<Longrightarrow> db_wf (fold (\<lambda>k. sql_delete_edges (\<lambda>k'. k' = k)) ks db)"
  by (induction ks arbitrary: db) auto

text \<open>The \<^verbatim>\<open>GraphStore\<close> trait as its clients see it, over any state type.\<close>

locale graph_store =
  fixes store_node :: "node \<Rightarrow> 's \<Rightarrow> (graph_error, 's) result"
    and store_edge :: "edge \<Rightarrow> 's \<Rightarrow> (graph_error, 's) result"
    and remove_node :: "string \<Rightarrow> 's \<Rightarrow> (graph_error, 's) result"
    and nodes_of :: "'s \<Rightarrow> node_view"
    and edges_of :: "'s \<Rightarrow> edge_view"
    and enc :: "json \<Rightarrow> string"
    and inv :: "'s \<Rightarrow> bool"
  assumes store_node_ok: "inv s \<Longrightarrow> \<exists>s'. store_node n s = Inr s' \<and> inv s' \<and>
      nodes_of s' = (nodes_of s)(n_id n \<mapsto> (n_label n, enc (n_props n))) \<and> edges_of s' = edges_of s"
    and store_edge_ok: "inv s \<Longrightarrow> nodes_of s (e_src e) \<noteq> None \<Longrightarrow> nodes_of s (e_dst e) \<noteq> None \<Longrightarrow>
      \<exists>s'. store_edge e s = Inr s' \<and> inv s' \<and> nodes_of s' = nodes_of s \<and>
        edges_of s' = (edges_of s)(e_key e \<mapsto> enc (e_props e))"
    and store_edge_dangling: "inv s \<Longrightarrow> nodes_of s (e_src e) = None \<or> nodes_of s (e_dst e) = None \<Longrightarrow>
      store_edge e s = Inl (Storage ForeignKeyViolation)"
    and remove_node_ok: "inv s \<Longrightarrow> \<exists>s'. remove_node i s = Inr s' \<and> inv s' \<and>
      nodes_of s' = (nodes_of s)(i := None) \<and>
      edges_of s' = (\<lambda>k. if incident {i} k then None else edges_of s k)"
    and closed: "inv s \<Longrightarrow> edges_of s (a, b, l) \<noteq> None \<Longrightarrow> nodes_of s a \<noteq> None \<and> nodes_of s b \<noteq> None"
begin

definition ends_in :: "'s \<Rightarrow> edge \<Rightarrow> bool" where
  "ends_in s e \<longleftrightarrow> nodes_of s (e_src e) \<noteq> None \<and> nodes_of s (e_dst e) \<noteq> None"

lemma store_nodes:
  assumes "inv s"
  shows "\<exists>s'. try_fold store_node ns s = Inr s' \<and> inv s' \<and> edges_of s' = edges_of s \<and>
    nodes_of s' = nodes_of s ++ map_of (rev (map (node_row enc) ns))"
  using assms
proof (induction ns arbitrary: s)
  case (Cons n ns)
  obtain t where t: "store_node n s = Inr t" "inv t" "edges_of t = edges_of s"
    and nt: "nodes_of t = (nodes_of s)(n_id n \<mapsto> (n_label n, enc (n_props n)))"
    using store_node_ok [OF Cons.prems] by blast
  have "nodes_of s ++ map_of (rev (map (node_row enc) (n # ns))) =
      nodes_of t ++ map_of (rev (map (node_row enc) ns))"
    unfolding list.map map_add_later_writes by (simp add: nt node_row_def)
  with Cons.IH [OF t(2)] t show ?case by simp
qed simp

lemma store_edges:
  assumes "inv s"
  shows "case try_fold store_edge es s of
      Inl err \<Rightarrow> err = Storage ForeignKeyViolation \<and> \<not> list_all (ends_in s) es
    | Inr s' \<Rightarrow> list_all (ends_in s) es \<and> inv s' \<and> nodes_of s' = nodes_of s \<and>
        edges_of s' = edges_of s ++ map_of (rev (map (edge_row enc) es))"
  using assms
proof (induction es arbitrary: s)
  case (Cons e es)
  show ?case
  proof (cases "ends_in s e")
    case False
    then have "store_edge e s = Inl (Storage ForeignKeyViolation)"
      unfolding ends_in_def by (intro store_edge_dangling [OF Cons.prems]) (auto simp del: not_None_eq)
    with False show ?thesis by simp
  next
    case True
    then obtain t where t: "store_edge e s = Inr t" "inv t" "nodes_of t = nodes_of s"
      and et: "edges_of t = (edges_of s)(e_key e \<mapsto> enc (e_props e))"
      using store_edge_ok [OF Cons.prems, of e] unfolding ends_in_def by blast
    have "edges_of s ++ map_of (rev (map (edge_row enc) (e # es))) =
        edges_of t ++ map_of (rev (map (edge_row enc) es))"
      unfolding list.map map_add_later_writes by (simp add: et edge_row_def)
    moreover have "ends_in t = ends_in s" using t by (simp add: ends_in_def fun_eq_iff)
    ultimately show ?thesis
      using Cons.IH [OF t(2)] t True by (simp split: sum.split_asm sum.split)
  qed
qed simp

lemma remove_nodes:
  assumes "inv s"
  shows "\<exists>s'. try_fold remove_node ids s = Inr s' \<and> inv s' \<and>
    nodes_of s' = (\<lambda>i. if i \<in> set ids then None else nodes_of s i) \<and>
    edges_of s' = (\<lambda>k. if incident (set ids) k then None else edges_of s k)"
  using assms
proof (induction ids arbitrary: s)
  case Nil
  then show ?case by (simp add: incident_def case_prod_unfold)
next
  case (Cons i ids)
  obtain t where t: "remove_node i s = Inr t" "inv t" "nodes_of t = (nodes_of s)(i := None)"
    "edges_of t = (\<lambda>k. if incident {i} k then None else edges_of s k)"
    using remove_node_ok [OF Cons.prems] by blast
  from Cons.IH [OF t(2)] t show ?case
    by (auto simp: fun_eq_iff incident_def)
qed

text \<open>Loading a set of facts, nodes before edges.\<close>

definition ingest :: "node list \<Rightarrow> edge list \<Rightarrow> 's \<Rightarrow> (graph_error, 's) result" where
  "ingest ns es s = rbind (try_fold store_node ns s) (try_fold store_edge es)"

lemma ingest_view:
  assumes "inv s" "ingest ns es s = Inr s'"
  shows "inv s' \<and> nodes_of s' = nodes_of s ++ map_of (rev (map (node_row enc) ns)) \<and>
    edges_of s' = edges_of s ++ map_of (rev (map (edge_row enc) es))"
  using assms store_nodes [OF assms(1), of ns] store_edges [of _ es]
  by (fastforce simp: ingest_def rbind_eq_Inr split: sum.splits)

text \<open>Re-ingesting the same facts succeeds and changes nothing a client can see.\<close>

lemma reingest:
  assumes "inv s" "ingest ns es s = Inr s'"
  shows "\<exists>s''. ingest ns es s' = Inr s'' \<and> inv s'' \<and> nodes_of s'' = nodes_of s' \<and> edges_of s'' = edges_of s'"
proof -
  have s': "inv s'" "nodes_of s' = nodes_of s ++ map_of (rev (map (node_row enc) ns))"
    "edges_of s' = edges_of s ++ map_of (rev (map (edge_row enc) es))"
    using ingest_view [OF assms] by blast+
  obtain m where m: "try_fold store_node ns s' = Inr m" "inv m" "edges_of m = edges_of s'"
    "nodes_of m = nodes_of s'"
    using store_nodes [OF s'(1), of ns] s'(2) by auto
  obtain m0 where "try_fold store_node ns s = Inr m0" "inv m0" "try_fold store_edge es m0 = Inr s'"
    "nodes_of m0 = nodes_of s'"
    using assms store_nodes [OF assms(1), of ns] s'(2) by (auto simp: ingest_def)
  then have "list_all (ends_in m) es"
    using store_edges [of m0 es] m(4) by (auto simp: ends_in_def [abs_def])
  with store_edges [OF m(2), of es] m s'(3) show ?thesis
    by (auto simp: ingest_def split: sum.splits)
qed

end

interpretation sq: graph_store "write_node ts" "write_edge ts" patch_delete_node
  "\<lambda>db. om_get (db_nodes db)" "\<lambda>db. om_get (db_edges db)" ts db_wf
  for ts :: "json \<Rightarrow> string"
proof (unfold_locales, goal_cases)
  case (1 s n)
  obtain s' where r: "write_node ts n s = Inr s'" by (rule write_node_ok)
  then show ?case
    using db_wf_write_node [OF 1 r] write_node_sel(1,2) [OF r] by (intro exI [of _ s']) simp
next
  case (2 s e)
  then obtain s' where r: "write_edge ts e s = Inr s'" by (simp add: write_edge_def has_node_def)
  then show ?case
    using db_wf_write_edge [OF 2(1) r] write_edge_sel(1,2) [OF r] by (intro exI [of _ s']) simp
next
  case (3 s e)
  then show ?case by (auto simp: write_edge_def has_node_def)
next
  case (4 s i)
  obtain s' where r: "patch_delete_node i s = Inr s'" by (rule patch_delete_node_ok)
  then show ?case
    using db_wf_patch_delete_node [OF 4 r] patch_delete_node_sel(1,2) [OF r]
    by (intro exI [of _ s']) (auto simp: incident_def fun_eq_iff)
next
  case (5 s a b l)
  then show ?case unfolding db_wf_alt has_edge_def has_node_def by blast
qed

lemma apply_patch_rows_spec:
  assumes "db_wf db"
  shows "case patch_spec ts p (db_view db) of
      None \<Rightarrow> apply_patch_rows ts p db = Inl (Storage ForeignKeyViolation)
    | Some g \<Rightarrow> (\<exists>db'. apply_patch_rows ts p db = Inr db' \<and> db_wf db' \<and> db_view db' = g)"
proof -
  define db1 where "db1 = fold (\<lambda>k. sql_delete_edges (\<lambda>k'. k' = k)) (delete_edges p) db"
  have wf1: "db_wf db1" using assms by (simp add: db1_def fold_delete_edges_view)
  obtain db2 where r2: "try_fold patch_delete_node (delete_node_ids p) db1 = Inr db2"
    and wf2: "db_wf db2"
    and n2: "om_get (db_nodes db2) = (\<lambda>i. if i \<in> set (delete_node_ids p) then None else om_get (db_nodes db1) i)"
    and e2: "om_get (db_edges db2) =
      (\<lambda>k. if incident (set (delete_node_ids p)) k then None else om_get (db_edges db1) k)"
    using sq.remove_nodes [OF wf1] by blast
  obtain db3 where r3: "try_fold (write_node ts) (upsert_nodes p) db2 = Inr db3"
    and wf3: "db_wf db3"
    and n3: "om_get (db_nodes db3) = om_get (db_nodes db2) ++ map_of (rev (map (node_row ts) (upsert_nodes p)))"
    and e3: "om_get (db_edges db3) = om_get (db_edges db2)"
    using sq.store_nodes [OF wf2] by blast
  have rows: "apply_patch_rows ts p db = try_fold (write_edge ts) (upsert_edges p) db3"
    by (simp add: apply_patch_rows_def Let_def db1_def [symmetric] r2 r3)
  have N: "om_get (db_nodes db3) = patch_nodes_spec ts p (om_get (db_nodes db))"
    unfolding n3 n2 patch_nodes_spec_def db1_def fold_delete_edges_view(2) ..
  have E: "om_get (db_edges db3) ++ map_of (rev (map (edge_row ts) (upsert_edges p))) =
      patch_edges_spec ts p (om_get (db_edges db))"
    by (auto simp: e3 e2 db1_def fold_delete_edges_view patch_edges_spec_def intro!: arg_cong2 [where f = map_add])
  show ?thesis
    using sq.store_edges [OF wf3, where ts = ts and es = "upsert_edges p"]
    by (auto simp: rows patch_spec_def db_view_def Let_def sq.ends_in_def [abs_def] N E split: sum.splits)
qed

text \<open>
  C3: the conditional patch is atomic and refines the abstract patch. On a well-formed store it
  reports a decoding failure or a stale snapshot without changing anything; otherwise it either
  applies exactly the abstract patch (deletions before upserts, a deleted node takes its incident
  edges, the last upsert of a key wins, every other fact untouched), keeping the store
  well-formed, or fails on an edge without endpoints and leaves the store as it was.
\<close>

theorem apply_patch_refines_spec:
  assumes "db_wf db"
  shows "case apply_patch_if_snapshot_matches ts fs expected p db of
      (Inl err, db') \<Rightarrow> db' = db \<and>
        (read_snapshot fs db = Inl err \<or>
         (err = Storage ForeignKeyViolation \<and> patch_spec ts p (db_view db) = None))
    | (Inr False, db') \<Rightarrow> db' = db \<and>
        (\<exists>s. read_snapshot fs db = Inr s \<and> \<not> snapshot_eq s expected)
    | (Inr True, db') \<Rightarrow> db_wf db' \<and> patch_spec ts p (db_view db) = Some (db_view db') \<and>
        (\<exists>s. read_snapshot fs db = Inr s \<and> snapshot_eq s expected)"
  using apply_patch_rows_spec [OF assms, of ts p]
  by (auto simp: apply_patch_if_snapshot_matches_def split: sum.splits option.splits bool.splits)

text \<open>A concrete store and codec for the witnesses: two nodes, one edge, string properties.\<close>

definition demo_ts :: "json \<Rightarrow> string" where
  "demo_ts v = (case v of JStr s \<Rightarrow> s | _ \<Rightarrow> ''null'')"

definition demo_fs :: "string \<Rightarrow> json option" where
  "demo_fs s = Some (JStr s)"

definition demo_node :: "string \<Rightarrow> node" where
  "demo_node i = \<lparr>n_id = i, n_label = ''Symbol'', n_props = JStr ''p''\<rparr>"

definition demo_edge :: "string \<Rightarrow> string \<Rightarrow> edge" where
  "demo_edge s d = \<lparr>e_src = s, e_dst = d, e_label = ''CALLS'', e_props = JStr ''q''\<rparr>"

definition demo_db :: graph_db where
  "demo_db = \<lparr>db_nodes = [(''a'', ''Symbol'', ''p''), (''b'', ''Symbol'', ''p'')],
     db_edges = [((''a'', ''b'', ''CALLS''), ''q'')], db_node_bind = [], db_edge_bind = [],
     db_schema = Owned [(1, 1)], db_version = 6\<rparr>"

definition demo_patch :: graph_patch where
  "demo_patch = \<lparr>upsert_nodes = [demo_node ''c''], upsert_edges = [demo_edge ''c'' ''a''],
     delete_node_ids = [''b''], delete_edges = []\<rparr>"

lemma demo_db_wf: "db_wf demo_db"
  by code_simp

theorem apply_patch_refines_spec_witness:
  "db_wf demo_db \<and>
   (case apply_patch_if_snapshot_matches demo_ts demo_fs
           ([demo_node ''a'', demo_node ''b''], [demo_edge ''a'' ''b'']) demo_patch demo_db of
      (res, db') \<Rightarrow> res = Inr True \<and> db_wf db' \<and>
        patch_spec demo_ts demo_patch (db_view demo_db) = Some (db_view db'))"
proof -
  let ?run = "apply_patch_if_snapshot_matches demo_ts demo_fs
      ([demo_node ''a'', demo_node ''b''], [demo_edge ''a'' ''b'']) demo_patch demo_db"
  have "fst ?run = Inr True" by code_simp
  then obtain db' where "?run = (Inr True, db')" by (cases ?run) simp
  with apply_patch_refines_spec [OF demo_db_wf, where ts = demo_ts and fs = demo_fs and p = demo_patch
      and expected = "([demo_node ''a'', demo_node ''b''], [demo_edge ''a'' ''b''])"] demo_db_wf
  show ?thesis by simp
qed

section \<open>Reachability\<close>

definition hop_rel :: "string option \<Rightarrow> graph_db \<Rightarrow> (string \<times> string) set" where
  "hop_rel label db = {(s, d). \<exists>l. has_edge db (s, d, l) \<and> (label = None \<or> label = Some l)}"

lemma set_succs: "set (succs label ks i) = {d. \<exists>l. (i, d, l) \<in> set ks \<and> (label = None \<or> label = Some l)}"
  by (force simp: succs_def)

declare cte_loop.simps(2) [simp del]

lemma cte_loop_extends: "set seen \<subseteq> set (cte_loop label ks queue seen)"
  by (induction label ks queue seen rule: cte_loop.induct) (auto simp: cte_loop.simps Let_def)

lemma cte_loop_distinct: "distinct seen \<Longrightarrow> distinct (cte_loop label ks queue seen)"
  by (induction label ks queue seen rule: cte_loop.induct) (auto simp: cte_loop.simps Let_def)

lemma cte_loop_sound:
  assumes "\<And>x. x \<in> S \<Longrightarrow> set (succs label ks x) \<subseteq> S" "set queue \<subseteq> S" "set seen \<subseteq> S"
  shows "set (cte_loop label ks queue seen) \<subseteq> S"
  using assms
proof (induction label ks queue seen rule: cte_loop.induct)
  case (2 label ks x queue seen)
  from 2(2) [of x] 2(3) have "set (succs label ks x) \<subseteq> S" by simp
  with 2 show ?case by (auto simp: cte_loop.simps Let_def)
qed simp

lemma cte_loop_complete:
  assumes "set queue \<subseteq> set seen"
    and "\<forall>x \<in> set seen - set queue. set (succs label ks x) \<subseteq> set seen"
  shows "\<forall>x \<in> set (cte_loop label ks queue seen).
    set (succs label ks x) \<subseteq> set (cte_loop label ks queue seen)"
  using assms
proof (induction label ks queue seen rule: cte_loop.induct)
  case (2 label ks x queue seen)
  define new where "new = remdups (filter (\<lambda>d. d \<notin> set seen) (succs label ks x))"
  have "set new = set (succs label ks x) - set seen" by (auto simp: new_def)
  with 2(2,3) have "\<forall>y \<in> set (seen @ new) - set (queue @ new). set (succs label ks y) \<subseteq> set (seen @ new)"
    by auto
  moreover from 2(2) have "set (queue @ new) \<subseteq> set (seen @ new)" by auto
  ultimately show ?case
    using 2(1) [OF new_def] unfolding cte_loop.simps Let_def new_def by blast
qed simp

lemma succs_hop_rel: "set (succs label (map fst (db_edges db)) i) = hop_rel label db `` {i}"
proof -
  have "(i, d, l) \<in> set (map fst (db_edges db)) \<longleftrightarrow> has_edge db (i, d, l)" for d l
    by (simp only: set_map om_key_iff has_edge_def)
  then show ?thesis by (simp add: set_succs hop_rel_def set_eq_iff Image_iff)
qed

text \<open>
  C4: the reachability query terminates on every graph, cyclic ones included, and returns in
  strictly ascending order exactly the nodes some non-empty path of matching edges leads to from
  the start; the start itself appears only when it lies on a cycle.
\<close>

theorem reachable_from_correct:
  "set (reachable_from start label db) = (hop_rel label db)\<^sup>+ `` {start} \<and>
   sorted_wrt (<) (reachable_from start label db)"
proof -
  define ks init where "ks = map fst (db_edges db)" and "init = remdups (succs label ks start)"
  let ?R = "hop_rel label db" and ?out = "cte_loop label ks init init"
  note succs = succs_hop_rel [of label db, folded ks_def]
  have "set ?out \<subseteq> ?R\<^sup>+ `` {start}"
    by (rule cte_loop_sound) (auto simp: init_def succs intro: trancl.intros)
  moreover have closed: "?R `` set ?out \<subseteq> set ?out"
    using cte_loop_complete [of init init label ks] by (auto simp: succs)
  moreover have "?R\<^sup>+ `` {start} \<subseteq> set ?out"
  proof
    fix y assume "y \<in> ?R\<^sup>+ `` {start}"
    then have "(start, y) \<in> ?R\<^sup>+" by simp
    then show "y \<in> set ?out"
    proof (induction rule: trancl_induct)
      case (base y)
      then show ?case using cte_loop_extends [of init label ks init] by (auto simp: init_def succs)
    next
      case (step y z)
      then show ?case using closed by blast
    qed
  qed
  moreover have "distinct ?out" by (simp add: cte_loop_distinct init_def)
  ultimately show ?thesis
    by (auto simp: reachable_from_def Let_def strict_sorted_iff simp flip: ks_def init_def)
qed

section \<open>Reads after writes, re-ingest, opening\<close>

text \<open>
  Re-ingesting the same facts is idempotent. Once a batch of nodes and edges has been stored,
  storing the very same batch again succeeds and leaves both fact tables exactly as they were.
\<close>

theorem reingest_idempotent:
  assumes "db_wf db"
    and "rbind (try_fold (put_node ts) ns db) (try_fold (put_edge ts) es) = Inr db'"
  shows "\<exists>db''. rbind (try_fold (put_node ts) ns db') (try_fold (put_edge ts) es) = Inr db'' \<and>
    db_wf db'' \<and> db_nodes db'' = db_nodes db' \<and> db_edges db'' = db_edges db'"
proof -
  have ing: "sq.ingest ts ns es db = Inr db'"
    using assms(2) by (simp add: sq.ingest_def put_node_def put_edge_def)
  obtain db'' where r: "sq.ingest ts ns es db' = Inr db''" "db_wf db''"
    "om_get (db_nodes db'') = om_get (db_nodes db')" "om_get (db_edges db'') = om_get (db_edges db')"
    using sq.reingest [OF assms(1) ing] by blast
  have "db_wf db'" using sq.ingest_view [OF assms(1) ing] by blast
  with r have "db_nodes db'' = db_nodes db'" "db_edges db'' = db_edges db'"
    by (auto simp: db_wf_def intro: om_ext)
  with r show ?thesis by (simp add: sq.ingest_def put_node_def put_edge_def)
qed

theorem reingest_idempotent_witness:
  "db_wf demo_db \<and>
   (\<exists>db' db''. rbind (try_fold (put_node demo_ts) [demo_node ''c''] demo_db)
       (try_fold (put_edge demo_ts) [demo_edge ''c'' ''a'']) = Inr db' \<and>
     rbind (try_fold (put_node demo_ts) [demo_node ''c''] db')
       (try_fold (put_edge demo_ts) [demo_edge ''c'' ''a'']) = Inr db'' \<and>
     db_nodes db'' = db_nodes db' \<and> db_edges db'' = db_edges db')"
proof -
  have "is_ok (rbind (try_fold (put_node demo_ts) [demo_node ''c''] demo_db)
       (try_fold (put_edge demo_ts) [demo_edge ''c'' ''a'']))" by code_simp
  then obtain db' where r: "rbind (try_fold (put_node demo_ts) [demo_node ''c''] demo_db)
       (try_fold (put_edge demo_ts) [demo_edge ''c'' ''a'']) = Inr db'"
    by (auto simp: is_ok_def split: sum.splits)
  from reingest_idempotent [OF demo_db_wf r] r demo_db_wf show ?thesis by blast
qed

lemma node_of_row_Inr:
  "node_of_row fs (i, l, p) = Inr n \<longleftrightarrow> fs p = Some (n_props n) \<and> n_id n = i \<and> n_label n = l"
  by (cases n) (auto simp: node_of_row_def split: option.splits)

lemma edge_of_row_Inr:
  "edge_of_row fs ((s, d, l), p) = Inr e \<longleftrightarrow> fs p = Some (e_props e) \<and> e_key e = (s, d, l)"
  by (cases e) (auto simp: edge_of_row_def e_key_def split: option.splits)

lemma read_nodes_ids:
  assumes "read_nodes fs None db = Inr ns"
  shows "map n_id ns = map fst (db_nodes db)"
proof -
  have "list_all2 (\<lambda>r n. node_of_row fs r = Inr n) (db_nodes db) ns"
    using assms by (simp add: read_nodes_def label_selection_def try_map_Inr_iff case_prod_unfold)
  then show ?thesis
    by (induction rule: list_all2_induct) (auto simp: node_of_row_Inr)
qed

lemma read_edges_keys:
  assumes "read_edges fs None db = Inr es"
  shows "map e_key es = map fst (db_edges db)"
proof -
  have "list_all2 (\<lambda>r e. edge_of_row fs r = Inr e) (db_edges db) es"
    using assms by (simp add: read_edges_def label_selection_def try_map_Inr_iff case_prod_unfold)
  then show ?thesis
    by (induction rule: list_all2_induct) (auto simp: edge_of_row_Inr)
qed

text \<open>
  A node reads back as it was stored, whatever was stored before, as long as the JSON codec
  returns its properties; deleting it makes it unreadable; and a snapshot is one strictly ordered
  copy in which every edge ends in a node of the same copy.
\<close>

theorem store_read_after_write:
  assumes "db_wf db" and "fs (ts (n_props n)) = Some (n_props n)"
  shows "(\<exists>db'. put_node ts n db = Inr db' \<and> get_node fs (n_id n) db' = Inr (Some n)) \<and>
    (\<exists>db'. delete_node (n_id n) db = Inr db' \<and> get_node fs (n_id n) db' = Inr None) \<and>
    (\<forall>ns es. read_snapshot fs db = Inr (ns, es) \<longrightarrow>
       sorted_wrt (<) (map n_id ns) \<and> sorted_wrt (<) (map e_key es) \<and>
       (\<forall>e \<in> set es. e_src e \<in> n_id ` set ns \<and> e_dst e \<in> n_id ` set ns))"
proof (intro conjI allI impI)
  obtain db' where r: "put_node ts n db = Inr db'"
    unfolding put_node_def by (rule write_node_ok)
  then show "\<exists>db'. put_node ts n db = Inr db' \<and> get_node fs (n_id n) db' = Inr (Some n)"
    using assms(2) write_node_sel(1) [OF r [unfolded put_node_def]]
    by (simp add: get_node_def rbind_eq_Inr node_of_row_Inr)
next
  obtain db' where r: "patch_delete_node (n_id n) db = Inr db'" by (rule patch_delete_node_ok)
  then show "\<exists>db'. delete_node (n_id n) db = Inr db' \<and> get_node fs (n_id n) db' = Inr None"
    using patch_delete_node_sel(1) [OF r, of "n_id n"]
    by (simp add: delete_node_def patch_delete_node_def get_node_def)
next
  fix ns es assume "read_snapshot fs db = Inr (ns, es)"
  then have "read_nodes fs None db = Inr ns" "read_edges fs None db = Inr es"
    by (auto simp: read_snapshot_def read_snapshot_filtered_def rbind_eq_Inr)
  note keys = read_nodes_ids [OF this(1)] read_edges_keys [OF this(2)]
  show "sorted_wrt (<) (map n_id ns)" "sorted_wrt (<) (map e_key es)"
    using assms(1) by (simp_all add: keys db_wf_def om_wf_def)
  have ids: "i \<in> n_id ` set ns \<longleftrightarrow> has_node db i" for i
    using keys(1) by (metis list.set_map om_key_iff has_node_def)
  have "e_key e \<in> fst ` set (db_edges db)" if "e \<in> set es" for e
    using keys(2) that by (metis image_eqI list.set_map)
  then show "\<forall>e \<in> set es. e_src e \<in> n_id ` set ns \<and> e_dst e \<in> n_id ` set ns"
    using assms(1) unfolding ids om_key_iff db_wf_alt has_edge_def [symmetric] e_key_def by blast
qed

theorem store_read_after_write_witness:
  "db_wf demo_db \<and> demo_fs (demo_ts (n_props (demo_node ''c''))) = Some (n_props (demo_node ''c'')) \<and>
   (\<exists>db'. put_node demo_ts (demo_node ''c'') demo_db = Inr db' \<and>
      get_node demo_fs ''c'' db' = Inr (Some (demo_node ''c'')))"
proof -
  have codec: "demo_fs (demo_ts (n_props (demo_node ''c''))) = Some (n_props (demo_node ''c''))"
    by (simp add: demo_fs_def demo_ts_def demo_node_def)
  moreover have "n_id (demo_node ''c'') = ''c''" by (simp add: demo_node_def)
  ultimately show ?thesis
    using store_read_after_write [where fs = demo_fs and ts = demo_ts and n = "demo_node ''c''",
        OF demo_db_wf codec] demo_db_wf by simp
qed

text \<open>
  Opening a store. A compatible store of the current fact schema is opened with its facts
  intact; an older one is opened empty under the current version; a foreign association schema is
  refused before any fact is removed.
\<close>

theorem store_init_outcome:
  assumes "db_wf db"
  shows "case store_init db of
      Inl err \<Rightarrow> err \<in> SourceBindingError ` {''unsupported association version'', ''incompatible association schema''} \<and>
        db_schema db \<notin> {NoSchema, Owned [(1, 1)]}
    | Inr db' \<Rightarrow> db_wf db' \<and> db_version db' = GRAPH_SCHEMA_VERSION \<and> db_schema db' = Owned [(1, 1)] \<and>
        db_view db' = (if db_version db = GRAPH_SCHEMA_VERSION then db_view db else (Map.empty, Map.empty))"
proof (cases "source_initialize db")
  case (Inl err)
  then show ?thesis
    by (auto simp: store_init_def source_initialize_def check_schema_def Let_def
        split: assoc_schema.splits if_splits)
next
  case (Inr db0)
  have db0: "db_wf db0" "db_schema db0 = Owned [(1, 1)]" "db_version db0 = db_version db" "db_view db0 = db_view db"
    using Inr assms
    by (auto simp: source_initialize_def check_schema_def rbind_eq_Inr Let_def db_view_def
        split: assoc_schema.splits if_splits)
  obtain db1 where c: "store_clear db0 = Inr db1" using store_clear_ok by blast
  have "db_wf db1" using db_wf_delete_nodes [OF db_wf_delete_edges [OF db0(1)] c [unfolded store_clear_def]] .
  then show ?thesis
    using Inr db0 c sql_delete_nodes_Inr [OF c [unfolded store_clear_def]]
    by (auto simp: store_init_def store_clear_def db_view_def fun_eq_iff)
qed

theorem store_init_outcome_witness:
  "db_wf demo_db \<and> (\<exists>db'. store_init demo_db = Inr db' \<and> db_view db' = db_view demo_db)"
proof -
  have "is_ok (store_init demo_db)" by code_simp
  then obtain db' where "store_init demo_db = Inr db'" by (auto simp: is_ok_def split: sum.splits)
  with store_init_outcome [OF demo_db_wf] demo_db_wf show ?thesis
    by (simp add: demo_db_def GRAPH_SCHEMA_VERSION_def)
qed

end
