(* ===== verification/Source_Binding.thy ===== *)
theory Source_Binding
  imports Graph_Store_Props
begin

text \<open>
  Current source associations (\<^verbatim>\<open>crates/core-graph/src/source.rs\<close>): a binding ties one complete
  fact, by the digest of every field of it, to an immutable producer receipt. Publication replaces
  one repository's bindings in the transaction that applies the patch; the triggers modelled in
  \<open>Graph_Store\<close> drop a binding whenever its fact is written. The invariant \<open>db_bound\<close> says that
  no association ever describes a fact that has since changed.
\<close>

section \<open>Fact identities\<close>

datatype fact_key = NodeKey string | EdgeKey string string string

text \<open>The derived \<^verbatim>\<open>Ord\<close>: nodes before edges, edges by source, label, destination.\<close>

definition fact_key_rank :: "fact_key \<Rightarrow> nat \<times> string \<times> string \<times> string" where
  "fact_key_rank k =
     (case k of NodeKey i \<Rightarrow> (0, i, [], []) | EdgeKey s l d \<Rightarrow> (1, s, l, d))"

lemma fact_key_rank_eq [simp]: "fact_key_rank a = fact_key_rank b \<longleftrightarrow> a = b"
  by (cases a; cases b) (auto simp: fact_key_rank_def)

instantiation fact_key :: linorder
begin

definition less_eq_fact_key :: "fact_key \<Rightarrow> fact_key \<Rightarrow> bool" where
  "a \<le> b \<longleftrightarrow> fact_key_rank a \<le> fact_key_rank b"

definition less_fact_key :: "fact_key \<Rightarrow> fact_key \<Rightarrow> bool" where
  "a < b \<longleftrightarrow> fact_key_rank a < fact_key_rank b"

instance
proof
  fix x y z :: fact_key
  show "(x < y) = (x \<le> y \<and> \<not> y \<le> x)"
    by (simp only: less_eq_fact_key_def less_fact_key_def less_le_not_le)
  show "x \<le> x" by (simp only: less_eq_fact_key_def)
  show "x \<le> y \<Longrightarrow> y \<le> z \<Longrightarrow> x \<le> z"
    unfolding less_eq_fact_key_def by (rule order_trans)
  show "x \<le> y \<Longrightarrow> y \<le> x \<Longrightarrow> x = y"
    unfolding less_eq_fact_key_def using fact_key_rank_eq antisym by blast
  show "x \<le> y \<or> y \<le> x"
    unfolding less_eq_fact_key_def by (rule linear)
qed

end

record source_binding =
  sb_fact :: fact_key
  sb_repo_key :: string
  sb_receipt_id :: string
  sb_digest :: string

definition MAX_ID_BYTES :: nat where "MAX_ID_BYTES = 8192"
definition MAX_LABEL_BYTES :: nat where "MAX_LABEL_BYTES = 256"
definition MAX_REPO_BYTES :: nat where "MAX_REPO_BYTES = 256"
definition MAX_RECEIPT_BYTES :: nat where "MAX_RECEIPT_BYTES = 256"
definition MAX_BINDINGS :: nat where "MAX_BINDINGS = 100000"
definition MAX_SOURCE_SELECTION_KEYS :: nat where "MAX_SOURCE_SELECTION_KEYS = 65"

definition bounded_id :: "string \<Rightarrow> nat \<Rightarrow> (graph_error, unit) result" where
  "bounded_id v maximum =
     (if v = [] \<or> length v > maximum \<or> CHR 0x00 \<in> set v
      then Inl (SourceBindingError ''invalid bounded identity'') else Inr ())"

definition fact_key_validate :: "fact_key \<Rightarrow> (graph_error, unit) result" where
  "fact_key_validate k =
     (case k of
        NodeKey i \<Rightarrow> bounded_id i MAX_ID_BYTES
      | EdgeKey s l d \<Rightarrow>
          rbind (bounded_id s MAX_ID_BYTES) (\<lambda>_.
          rbind (bounded_id l MAX_LABEL_BYTES) (\<lambda>_. bounded_id d MAX_ID_BYTES)))"

definition is_lower_hex :: "char \<Rightarrow> bool" where
  "is_lower_hex c \<longleftrightarrow> (CHR ''0'' \<le> c \<and> c \<le> CHR ''9'') \<or> (CHR ''a'' \<le> c \<and> c \<le> CHR ''f'')"

definition digest_prefix :: "fact_key \<Rightarrow> string" where
  "digest_prefix k = (case k of NodeKey _ \<Rightarrow> ''node-v1:'' | EdgeKey _ _ _ \<Rightarrow> ''edge-v1:'')"

definition binding_validate :: "source_binding \<Rightarrow> (graph_error, unit) result" where
  "binding_validate b =
     rbind (fact_key_validate (sb_fact b)) (\<lambda>_.
     rbind (bounded_id (sb_repo_key b) MAX_REPO_BYTES) (\<lambda>_.
     rbind (bounded_id (sb_receipt_id b) MAX_RECEIPT_BYTES) (\<lambda>_.
     (case strip_prefix (digest_prefix (sb_fact b)) (sb_digest b) of
        None \<Rightarrow> Inl (SourceBindingError ''invalid complete fact digest'')
      | Some hex \<Rightarrow> if length hex \<noteq> 64 \<or> \<not> list_all is_lower_hex hex
                     then Inl (SourceBindingError ''invalid complete fact digest'') else Inr ()))))"

section \<open>Digests\<close>

definition node_to_value :: "node \<Rightarrow> json" where
  "node_to_value n = JObj [(''id'', JStr (n_id n)), (''label'', JStr (n_label n)), (''props'', n_props n)]"

definition edge_to_value :: "edge \<Rightarrow> json" where
  "edge_to_value e =
     JObj [(''src'', JStr (e_src e)), (''dst'', JStr (e_dst e)), (''label'', JStr (e_label e)), (''props'', e_props e)]"

definition fact_digest :: "(string \<Rightarrow> string) \<Rightarrow> (json \<Rightarrow> string) \<Rightarrow> string \<Rightarrow> json \<Rightarrow> string" where
  "fact_digest H ts prefix v =
     prefix @ '':'' @ content_hash H (ts (JArr [JStr (''cartograph.source.'' @ prefix), canonicalize v]))"

definition node_digest where "node_digest H ts n = fact_digest H ts ''node-v1'' (node_to_value n)"
definition edge_digest where "edge_digest H ts e = fact_digest H ts ''edge-v1'' (edge_to_value e)"

section \<open>Reading associations\<close>

definition bind_row_of :: "fact_key \<Rightarrow> graph_db \<Rightarrow> bind_row option" where
  "bind_row_of k db =
     (case k of NodeKey i \<Rightarrow> om_get (db_node_bind db) i
      | EdgeKey s l d \<Rightarrow> om_get (db_edge_bind db) (s, l, d))"

definition binding_of_row :: "fact_key \<Rightarrow> bind_row \<Rightarrow> source_binding" where
  "binding_of_row k r =
     \<lparr>sb_fact = k, sb_repo_key = b_repo_key r, sb_receipt_id = b_receipt_id r, sb_digest = b_digest r\<rparr>"

definition load_binding :: "fact_key \<Rightarrow> graph_db \<Rightarrow> (graph_error, source_binding option) result" where
  "load_binding k db =
     (case bind_row_of k db of
        None \<Rightarrow> Inr None
      | Some r \<Rightarrow> rbind (binding_validate (binding_of_row k r)) (\<lambda>_. Inr (Some (binding_of_row k r))))"

definition current_digest ::
  "(string \<Rightarrow> string) \<Rightarrow> (json \<Rightarrow> string) \<Rightarrow> (string \<Rightarrow> json option) \<Rightarrow> fact_key \<Rightarrow> graph_db
     \<Rightarrow> (graph_error, string option) result" where
  "current_digest H ts fs k db =
     (case k of
        NodeKey i \<Rightarrow>
          (case om_get (db_nodes db) i of
             None \<Rightarrow> Inr None
           | Some (label, props) \<Rightarrow>
               (case fs props of None \<Rightarrow> Inl Props
                | Some v \<Rightarrow> Inr (Some (node_digest H ts \<lparr>n_id = i, n_label = label, n_props = v\<rparr>))))
      | EdgeKey s l d \<Rightarrow>
          (case om_get (db_edges db) (s, d, l) of
             None \<Rightarrow> Inr None
           | Some props \<Rightarrow>
               (case fs props of None \<Rightarrow> Inl Props
                | Some v \<Rightarrow> Inr (Some (edge_digest H ts \<lparr>e_src = s, e_dst = d, e_label = l, e_props = v\<rparr>)))))"

definition current_source_binding ::
  "(string \<Rightarrow> string) \<Rightarrow> (json \<Rightarrow> string) \<Rightarrow> (string \<Rightarrow> json option) \<Rightarrow> fact_key \<Rightarrow> graph_db
     \<Rightarrow> (graph_error, source_binding option) result" where
  "current_source_binding H ts fs k db =
     rbind (fact_key_validate k) (\<lambda>_.
     rbind (check_schema db) (\<lambda>_.
     rbind (load_binding k db) (\<lambda>binding.
     (case binding of
        None \<Rightarrow> Inr None
      | Some b \<Rightarrow>
          rbind (current_digest H ts fs k db) (\<lambda>dg.
            if dg \<noteq> Some (sb_digest b)
            then Inl (SourceBindingError ''missing fact or complete fact digest mismatch'')
            else Inr (Some b))))))"

definition source_bindings_for_repo :: "string \<Rightarrow> graph_db \<Rightarrow> (graph_error, source_binding list) result" where
  "source_bindings_for_repo repo_key db =
     rbind (bounded_id repo_key MAX_REPO_BYTES) (\<lambda>_.
     rbind (check_schema db) (\<lambda>_.
     (let ns = filter (\<lambda>(i, r). b_repo_key r = repo_key) (db_node_bind db);
          es = filter (\<lambda>(k, r). b_repo_key r = repo_key) (db_edge_bind db);
          bs = map (\<lambda>(i, r). binding_of_row (NodeKey i) r) ns @
               map (\<lambda>((s, l, d), r). binding_of_row (EdgeKey s l d) r) es
      in if length ns + length es > MAX_BINDINGS
         then Inl (SourceBindingError ''too many associations'')
         else try_map (\<lambda>b. rbind (binding_validate b) (\<lambda>_. Inr b)) bs)))"

section \<open>Selection states\<close>

datatype fact_source_state =
    Missing
  | Absent string
  | Present string source_binding
  | InvalidState "string option"

text \<open>
  The per-key binding of a selection: a row with a field outside its SQL length guard, or one the
  validation rejects, is \<^verbatim>\<open>Invalid\<close> rather than an error.
\<close>

datatype selection_binding = SelAbsent | SelInvalid | SelPresent source_binding

definition load_selection_binding :: "fact_key \<Rightarrow> graph_db \<Rightarrow> selection_binding" where
  "load_selection_binding k db =
     (case bind_row_of k db of
        None \<Rightarrow> SelAbsent
      | Some r \<Rightarrow>
          if 1 \<le> length (b_repo_key r) \<and> length (b_repo_key r) \<le> MAX_REPO_BYTES \<and>
             1 \<le> length (b_receipt_id r) \<and> length (b_receipt_id r) \<le> MAX_RECEIPT_BYTES \<and>
             length (b_digest r) = 72 \<and> is_ok (binding_validate (binding_of_row k r))
          then SelPresent (binding_of_row k r) else SelInvalid)"

definition snapshot_digest ::
  "(string \<Rightarrow> string) \<Rightarrow> (json \<Rightarrow> string) \<Rightarrow> snapshot \<Rightarrow> fact_key \<Rightarrow> string option" where
  "snapshot_digest H ts graph k =
     (case k of
        NodeKey i \<Rightarrow> map_option (node_digest H ts) (find (\<lambda>n. n_id n = i) (fst graph))
      | EdgeKey s l d \<Rightarrow> map_option (edge_digest H ts) (find (\<lambda>e. e_key e = (s, d, l)) (snd graph)))"

definition selection_state :: "string option \<Rightarrow> selection_binding \<Rightarrow> fact_source_state" where
  "selection_state dg b =
     (case (dg, b) of
        (None, SelAbsent) \<Rightarrow> Missing
      | (Some d, SelAbsent) \<Rightarrow> Absent d
      | (Some d, SelPresent sb) \<Rightarrow> if sb_digest sb = d then Present d sb else InvalidState (Some d)
      | (d, _) \<Rightarrow> InvalidState d)"

definition read_source_selection_snapshot ::
  "(string \<Rightarrow> string) \<Rightarrow> (json \<Rightarrow> string) \<Rightarrow> (string \<Rightarrow> json option) \<Rightarrow> fact_key list \<Rightarrow> graph_db
     \<Rightarrow> (graph_error, snapshot \<times> (fact_key \<times> fact_source_state) list) result" where
  "read_source_selection_snapshot H ts fs keys db =
     (if length keys > MAX_SOURCE_SELECTION_KEYS
      then Inl (SourceBindingError ''too many source selection keys'')
      else rbind (try_map fact_key_validate keys) (\<lambda>_.
           rbind (check_schema db) (\<lambda>_.
           rbind (read_snapshot fs db) (\<lambda>graph.
             Inr (graph, map (\<lambda>k. (k, selection_state (snapshot_digest H ts graph k) (load_selection_binding k db)))
               (sort (remdups keys)))))))"

section \<open>Publication\<close>

text \<open>The association inserts, with their keys, foreign keys and \<^verbatim>\<open>CHECK\<close> constraints.\<close>

definition row_checks :: "bind_row \<Rightarrow> bool" where
  "row_checks r \<longleftrightarrow>
     length (b_repo_key r) \<in> {1..256} \<and> length (b_receipt_id r) \<in> {1..256} \<and> length (b_digest r) = 72"

definition insert_binding :: "fact_key \<Rightarrow> bind_row \<Rightarrow> graph_db \<Rightarrow> (graph_error, graph_db) result" where
  "insert_binding k r db =
     (case k of
        NodeKey i \<Rightarrow>
          if \<not> (row_checks r \<and> length i \<in> {1..8192}) then Inl (Storage CheckViolation)
          else if om_get (db_node_bind db) i \<noteq> None then Inl (Storage UniqueViolation)
          else if \<not> has_node db i then Inl (Storage ForeignKeyViolation)
          else Inr (db\<lparr>db_node_bind := om_put i r (db_node_bind db)\<rparr>)
      | EdgeKey s l d \<Rightarrow>
          if \<not> (row_checks r \<and> length s \<in> {1..8192} \<and> length l \<in> {1..256} \<and> length d \<in> {1..8192})
          then Inl (Storage CheckViolation)
          else if om_get (db_edge_bind db) (s, l, d) \<noteq> None then Inl (Storage UniqueViolation)
          else if \<not> has_edge db (s, d, l) then Inl (Storage ForeignKeyViolation)
          else Inr (db\<lparr>db_edge_bind := om_put (s, l, d) r (db_edge_bind db)\<rparr>))"

definition drop_repo_bindings :: "string \<Rightarrow> graph_db \<Rightarrow> graph_db" where
  "drop_repo_bindings repo_key db =
     db\<lparr>db_node_bind := filter (\<lambda>(i, r). b_repo_key r \<noteq> repo_key) (db_node_bind db),
        db_edge_bind := filter (\<lambda>(k, r). b_repo_key r \<noteq> repo_key) (db_edge_bind db)\<rparr>"

fun check_bindings :: "string \<Rightarrow> fact_key list \<Rightarrow> source_binding list \<Rightarrow> (graph_error, unit) result" where
  "check_bindings repo_key seen [] = Inr ()"
| "check_bindings repo_key seen (b # bs) =
     rbind (binding_validate b) (\<lambda>_.
       if sb_repo_key b \<noteq> repo_key \<or> sb_fact b \<in> set seen
       then Inl (SourceBindingError ''duplicate or wrong-owner association'')
       else check_bindings repo_key (sb_fact b # seen) bs)"

definition check_owner :: "string \<Rightarrow> graph_db \<Rightarrow> source_binding \<Rightarrow> (graph_error, unit) result" where
  "check_owner repo_key db b =
     rbind (load_binding (sb_fact b) db) (\<lambda>old.
       (case old of
          None \<Rightarrow> Inr ()
        | Some o' \<Rightarrow> if sb_repo_key o' \<noteq> repo_key
                     then Inl (SourceBindingError ''fact belongs to another source association'')
                     else Inr ()))"

definition publish_binding ::
  "(string \<Rightarrow> string) \<Rightarrow> (json \<Rightarrow> string) \<Rightarrow> (string \<Rightarrow> json option) \<Rightarrow> string \<Rightarrow> source_binding \<Rightarrow> graph_db
     \<Rightarrow> (graph_error, graph_db) result" where
  "publish_binding H ts fs repo_key b db =
     rbind (current_digest H ts fs (sb_fact b) db) (\<lambda>dg.
       if dg \<noteq> Some (sb_digest b)
       then Inl (SourceBindingError ''missing fact or complete fact digest mismatch'')
       else insert_binding (sb_fact b)
              \<lparr>b_repo_key = repo_key, b_receipt_id = sb_receipt_id b, b_digest = sb_digest b\<rparr> db)"

definition apply_patch_with_source_bindings ::
  "(string \<Rightarrow> string) \<Rightarrow> (json \<Rightarrow> string) \<Rightarrow> (string \<Rightarrow> json option) \<Rightarrow> snapshot \<Rightarrow> graph_patch \<Rightarrow> string
     \<Rightarrow> source_binding list \<Rightarrow> graph_db \<Rightarrow> (graph_error, bool) result \<times> graph_db" where
  "apply_patch_with_source_bindings H ts fs expected patch repo_key bindings db =
     (case (rbind (bounded_id repo_key MAX_REPO_BYTES) (\<lambda>_.
            rbind (if length bindings > MAX_BINDINGS
                   then Inl (SourceBindingError ''too many associations'') else Inr ()) (\<lambda>_.
            rbind (check_bindings repo_key [] bindings) (\<lambda>_.
            rbind (check_schema db) (\<lambda>_.
            rbind (read_snapshot fs db) (\<lambda>current.
            if \<not> snapshot_eq current expected then Inr None
            else rbind (try_map (check_owner repo_key db) bindings) (\<lambda>_.
                 rbind (apply_patch_rows ts patch (drop_repo_bindings repo_key db)) (\<lambda>db1.
                 rbind (try_fold (publish_binding H ts fs repo_key) bindings db1) (\<lambda>db2.
                 Inr (Some db2)))))))))) of
        Inl e \<Rightarrow> (Inl e, db)
      | Inr None \<Rightarrow> (Inr False, db)
      | Inr (Some db') \<Rightarrow> (Inr True, db'))"

end
