(* ===== verification/Source_Binding_Props.thy ===== *)
theory Source_Binding_Props
  imports Source_Binding
begin

text \<open>
  Correctness of source associations: a binding is dropped by every statement that writes its
  fact, so in every reachable store each binding's digest is the digest of the fact as it is now;
  publication replaces exactly one repository's bindings, or changes nothing.
\<close>

section \<open>No association outlives its fact\<close>

definition db_bound ::
  "(string \<Rightarrow> string) \<Rightarrow> (json \<Rightarrow> string) \<Rightarrow> (string \<Rightarrow> json option) \<Rightarrow> graph_db \<Rightarrow> bool" where
  "db_bound H ts fs db \<longleftrightarrow>
     list_all (\<lambda>(i, r). current_digest H ts fs (NodeKey i) db = Inr (Some (b_digest r))) (db_node_bind db) \<and>
     list_all (\<lambda>((s, l, d), r). current_digest H ts fs (EdgeKey s l d) db = Inr (Some (b_digest r))) (db_edge_bind db)"

lemma om_list_all:
  assumes "om_wf m"
  shows "list_all (\<lambda>(k, v). P k v) m \<longleftrightarrow> (\<forall>k v. om_get m k = Some v \<longrightarrow> P k v)"
  using om_wf_distinct [OF assms] by (auto simp: list_all_iff)

lemma db_bound_alt:
  assumes "db_wf db"
  shows "db_bound H ts fs db \<longleftrightarrow>
    (\<forall>k r. bind_row_of k db = Some r \<longrightarrow> current_digest H ts fs k db = Inr (Some (b_digest r)))"
proof -
  have wf: "om_wf (db_node_bind db)" "om_wf (db_edge_bind db)" using assms by (simp_all add: db_wf_def)
  have "(\<forall>k r. bind_row_of k db = Some r \<longrightarrow> Q k r) \<longleftrightarrow>
      (\<forall>i r. om_get (db_node_bind db) i = Some r \<longrightarrow> Q (NodeKey i) r) \<and>
      (\<forall>s l d r. om_get (db_edge_bind db) (s, l, d) = Some r \<longrightarrow> Q (EdgeKey s l d) r)" for Q
    by (auto simp: bind_row_of_def split: fact_key.splits)
  with om_list_all [OF wf(1), of "\<lambda>i r. current_digest H ts fs (NodeKey i) db = Inr (Some (b_digest r))"]
    om_list_all [OF wf(2), of "\<lambda>(s, l, d) r. current_digest H ts fs (EdgeKey s l d) db = Inr (Some (b_digest r))"]
  show ?thesis by (simp add: db_bound_def case_prod_unfold split_paired_All)
qed

text \<open>The two facts a binding looks at, and a step that changes no fact that stays bound.\<close>

definition same_fact :: "fact_key \<Rightarrow> graph_db \<Rightarrow> graph_db \<Rightarrow> bool" where
  "same_fact k db db' =
     (case k of NodeKey i \<Rightarrow> om_get (db_nodes db') i = om_get (db_nodes db) i
      | EdgeKey s l d \<Rightarrow> om_get (db_edges db') (s, d, l) = om_get (db_edges db) (s, d, l))"

definition bind_frame :: "graph_db \<Rightarrow> graph_db \<Rightarrow> bool" where
  "bind_frame db db' \<longleftrightarrow>
     (\<forall>k r. bind_row_of k db' = Some r \<longrightarrow> bind_row_of k db = Some r \<and> same_fact k db db')"

lemma bind_frame_refl [simp]: "bind_frame db db"
  by (auto simp: bind_frame_def same_fact_def split: fact_key.splits)

lemma bind_frame_trans: "bind_frame a b \<Longrightarrow> bind_frame b c \<Longrightarrow> bind_frame a c"
  by (fastforce simp: bind_frame_def same_fact_def split: fact_key.splits)

lemma same_fact_digest: "same_fact k db db' \<Longrightarrow> current_digest H ts fs k db' = current_digest H ts fs k db"
  by (auto simp: same_fact_def current_digest_def split: fact_key.splits)

lemma db_bound_frame:
  assumes "db_wf db" "db_wf db'" "bind_frame db db'" "db_bound H ts fs db"
  shows "db_bound H ts fs db'"
proof -
  from assms(1,4) have old: "bind_row_of k db = Some r \<Longrightarrow> current_digest H ts fs k db = Inr (Some (b_digest r))" for k r
    by (simp add: db_bound_alt)
  show ?thesis
    unfolding db_bound_alt [OF assms(2)]
  proof (intro allI impI)
    fix k r assume "bind_row_of k db' = Some r"
    with assms(3) have "bind_row_of k db = Some r" "same_fact k db db'" by (auto simp: bind_frame_def)
    then show "current_digest H ts fs k db' = Inr (Some (b_digest r))"
      by (simp add: same_fact_digest old)
  qed
qed

lemma frame_delete_edges [simp]: "bind_frame db (sql_delete_edges P db)"
  by (auto simp: bind_frame_def same_fact_def bind_row_of_def split: fact_key.splits)
     (auto simp: sql_delete_edges_def has_edge_def split: if_splits)

lemma frame_delete_nodes: "sql_delete_nodes P db = Inr db' \<Longrightarrow> bind_frame db db'"
  by (auto simp: bind_frame_def same_fact_def bind_row_of_def sql_delete_nodes_def has_node_def
      split: fact_key.splits if_splits)

lemma frame_write_node: "write_node ts n db = Inr db' \<Longrightarrow> bind_frame db db'"
  by (auto simp: bind_frame_def same_fact_def bind_row_of_def write_node_def Let_def
      split: fact_key.splits if_splits)

lemma frame_write_edge: "write_edge ts e db = Inr db' \<Longrightarrow> bind_frame db db'"
  by (auto simp: bind_frame_def same_fact_def bind_row_of_def write_edge_def e_key_def
      split: fact_key.splits if_splits)

lemma frame_patch_delete_node: "patch_delete_node i db = Inr db' \<Longrightarrow> bind_frame db db'"
  unfolding patch_delete_node_def by (blast intro: bind_frame_trans frame_delete_edges frame_delete_nodes)

lemma frame_apply_patch_rows:
  assumes "apply_patch_rows ts p db = Inr db'"
  shows "bind_frame db db'"
proof -
  have del: "bind_frame db (fold (\<lambda>k. sql_delete_edges (\<lambda>k'. k' = k)) ks db)" for ks
    by (induction ks arbitrary: db) (auto intro: bind_frame_trans [OF frame_delete_edges])
  note inv = try_fold_invariant [where P = "bind_frame db"]
  from assms obtain db2 db3 where r:
    "try_fold patch_delete_node (delete_node_ids p)
       (fold (\<lambda>k. sql_delete_edges (\<lambda>k'. k' = k)) (delete_edges p) db) = Inr db2"
    "try_fold (write_node ts) (upsert_nodes p) db2 = Inr db3"
    "try_fold (write_edge ts) (upsert_edges p) db3 = Inr db'"
    by (auto simp: apply_patch_rows_def Let_def rbind_eq_Inr)
  have f2: "bind_frame db db2"
    by (rule inv [OF _ del r(1)]) (blast intro: bind_frame_trans frame_patch_delete_node)
  have f3: "bind_frame db db3"
    by (rule inv [OF _ f2 r(2)]) (blast intro: bind_frame_trans frame_write_node)
  show ?thesis
    by (rule inv [OF _ f3 r(3)]) (blast intro: bind_frame_trans frame_write_edge)
qed

lemma db_wf_apply_patch_rows: "db_wf db \<Longrightarrow> apply_patch_rows ts p db = Inr db' \<Longrightarrow> db_wf db'"
  using apply_patch_rows_spec [of db ts p] by (auto split: option.splits)

section \<open>Publication\<close>

lemma drop_repo_bindings_sel [simp]:
  "db_nodes (drop_repo_bindings rk db) = db_nodes db" "db_edges (drop_repo_bindings rk db) = db_edges db"
  "db_schema (drop_repo_bindings rk db) = db_schema db"
  "has_node (drop_repo_bindings rk db) i = has_node db i" "has_edge (drop_repo_bindings rk db) k = has_edge db k"
  by (simp_all add: drop_repo_bindings_def has_node_def has_edge_def)

lemma om_get_filter_value:
  assumes "om_wf m"
  shows "om_get (filter (\<lambda>(k, v). P v) m) k = (case om_get m k of None \<Rightarrow> None | Some v \<Rightarrow> if P v then Some v else None)"
  using om_wf_distinct [OF assms]
  by (induction m) (auto split: option.splits simp: map_of_eq_None_iff)

lemma om_wf_filter_value: "om_wf m \<Longrightarrow> om_wf (filter (\<lambda>(k, v). P v) m)"
  by (induction m) (auto simp: om_wf_Cons)

lemma bind_row_drop_repo:
  assumes "db_wf db"
  shows "bind_row_of k (drop_repo_bindings rk db) =
    (case bind_row_of k db of None \<Rightarrow> None | Some r \<Rightarrow> if b_repo_key r \<noteq> rk then Some r else None)"
  using assms by (auto simp: drop_repo_bindings_def bind_row_of_def db_wf_def om_get_filter_value split: fact_key.splits)

lemma db_wf_drop_repo: "db_wf db \<Longrightarrow> db_wf (drop_repo_bindings rk db)"
  unfolding db_wf_alt
  by (auto simp: drop_repo_bindings_def om_get_filter_value om_wf_filter_value has_node_def has_edge_def
      split: option.splits if_splits)

lemma frame_drop_repo: "db_wf db \<Longrightarrow> bind_frame db (drop_repo_bindings rk db)"
  by (auto simp: bind_frame_def bind_row_drop_repo same_fact_def split: option.splits if_splits fact_key.splits)

lemma insert_binding_sel:
  assumes "insert_binding k r db = Inr db'"
  shows "db_nodes db' = db_nodes db" "db_edges db' = db_edges db" "db_schema db' = db_schema db"
    "bind_row_of k' db' = (if k' = k then Some r else bind_row_of k' db)"
    "bind_row_of k db = None"
  using assms by (auto simp: insert_binding_def bind_row_of_def split: fact_key.splits if_splits)

lemma db_wf_insert_binding: "db_wf db \<Longrightarrow> insert_binding k r db = Inr db' \<Longrightarrow> db_wf db'"
  unfolding db_wf_alt insert_binding_def by (auto split: fact_key.splits if_splits; blast)

lemma current_digest_insert: "insert_binding k r db = Inr db' \<Longrightarrow> current_digest H ts fs k' db' = current_digest H ts fs k' db"
  by (auto simp: current_digest_def insert_binding_sel split: fact_key.splits)

definition row_of :: "string \<Rightarrow> source_binding \<Rightarrow> bind_row" where
  "row_of rk b = \<lparr>b_repo_key = rk, b_receipt_id = sb_receipt_id b, b_digest = sb_digest b\<rparr>"

lemma publish_binding_Inr:
  assumes "publish_binding H ts fs rk b db = Inr db'"
  shows "insert_binding (sb_fact b) (row_of rk b) db = Inr db'"
    and "current_digest H ts fs (sb_fact b) db = Inr (Some (sb_digest b))"
  using assms by (auto simp: publish_binding_def row_of_def rbind_eq_Inr split: if_splits)

lemma publish_keeps:
  assumes "publish_binding H ts fs rk b db = Inr db'" "db_wf db" "db_bound H ts fs db"
  shows "db_wf db' \<and> db_bound H ts fs db'"
proof -
  note ins = publish_binding_Inr(1) [OF assms(1)]
  have wf: "db_wf db'" by (rule db_wf_insert_binding [OF assms(2) ins])
  moreover have "db_bound H ts fs db'"
    using assms(3) publish_binding_Inr(2) [OF assms(1)]
    by (auto simp: db_bound_alt [OF wf] db_bound_alt [OF assms(2)] insert_binding_sel(4) [OF ins]
        current_digest_insert [OF ins] row_of_def split: if_splits)
  ultimately show ?thesis ..
qed

lemma publish_all_rows:
  assumes "try_fold (publish_binding H ts fs rk) bs db = Inr db'" "distinct (map sb_fact bs)"
  shows "bind_row_of k db' = (case map_of (map (\<lambda>b. (sb_fact b, row_of rk b)) bs) k of
      Some r \<Rightarrow> Some r | None \<Rightarrow> bind_row_of k db)
    \<and> db_nodes db' = db_nodes db \<and> db_edges db' = db_edges db"
  using assms
proof (induction bs arbitrary: db)
  case (Cons b bs)
  then obtain db1 where p: "publish_binding H ts fs rk b db = Inr db1"
    and r: "try_fold (publish_binding H ts fs rk) bs db1 = Inr db'"
    by (auto simp: rbind_eq_Inr)
  note ins = publish_binding_Inr(1) [OF p]
  have fresh: "map_of (map (\<lambda>b. (sb_fact b, row_of rk b)) bs) (sb_fact b) = None"
    using Cons.prems(2) by (auto simp: map_of_eq_None_iff image_iff)
  from Cons.IH [OF r] Cons.prems(2) show ?case
    by (simp add: insert_binding_sel(1,2,4) [OF ins] fresh split: option.split)
qed simp


section \<open>Which associations a patch drops\<close>

text \<open>
  The facts a patch writes or deletes: a node by its id; an edge by its key, or with an endpoint that
  is deleted. Upserting an endpoint does not touch the edge.
\<close>

definition patch_touches :: "graph_patch \<Rightarrow> fact_key \<Rightarrow> bool" where
  "patch_touches p k =
     (case k of
        NodeKey i \<Rightarrow> i \<in> set (delete_node_ids p) \<or> i \<in> n_id ` set (upsert_nodes p)
      | EdgeKey s l d \<Rightarrow> (s, d, l) \<in> set (delete_edges p) \<or> s \<in> set (delete_node_ids p) \<or>
          d \<in> set (delete_node_ids p) \<or> (s, d, l) \<in> e_key ` set (upsert_edges p))"

lemma bound_exists:
  assumes "db_wf db" "bind_row_of k db = Some r"
  shows "case k of NodeKey i \<Rightarrow> has_node db i
    | EdgeKey s l d \<Rightarrow> has_edge db (s, d, l) \<and> has_node db s \<and> has_node db d"
proof (cases k)
  case (NodeKey i)
  with assms show ?thesis by (simp add: db_wf_alt bind_row_of_def)
next
  case (EdgeKey s l d)
  with assms have "has_edge db (s, d, l)" unfolding db_wf_alt bind_row_of_def by simp
  moreover from this have "has_node db s \<and> has_node db d" using assms(1) unfolding db_wf_alt by blast
  ultimately show ?thesis using EdgeKey by simp
qed

text \<open>Each statement drops the associations of the facts it writes, and no other.\<close>

lemma delete_edges_row:
  assumes "db_wf db"
  shows "bind_row_of k (sql_delete_edges P db) =
    (if (case k of NodeKey _ \<Rightarrow> False | EdgeKey s l d \<Rightarrow> P (s, d, l)) then None else bind_row_of k db)"
  using bound_exists [OF assms, of k]
  by (cases "bind_row_of k db"; cases k) (auto simp: bind_row_of_def sql_delete_edges_def)

lemma delete_nodes_row:
  assumes "db_wf db" "sql_delete_nodes P db = Inr db'"
  shows "bind_row_of k db' =
    (if (case k of NodeKey i \<Rightarrow> P i | EdgeKey s l d \<Rightarrow> P s \<or> P d) then None else bind_row_of k db)"
  using bound_exists [OF assms(1), of k] assms(2)
  by (cases "bind_row_of k db"; cases k) (auto simp: bind_row_of_def sql_delete_nodes_def split: if_splits)

lemma patch_delete_node_row:
  assumes "db_wf db" "patch_delete_node i db = Inr db'"
  shows "bind_row_of k db' =
    (if (case k of NodeKey j \<Rightarrow> j = i | EdgeKey s l d \<Rightarrow> s = i \<or> d = i) then None else bind_row_of k db)"
  using delete_nodes_row [OF db_wf_delete_edges [OF assms(1)] assms(2) [unfolded patch_delete_node_def], of k]
    delete_edges_row [OF assms(1), of k "\<lambda>(s, d, l). s = i \<or> d = i"]
  by (cases k) auto

lemma write_node_row:
  assumes "db_wf db" "write_node ts n db = Inr db'"
  shows "bind_row_of k db' = (if k = NodeKey (n_id n) then None else bind_row_of k db)"
  using bound_exists [OF assms(1), of k] assms(2)
  by (cases "bind_row_of k db"; cases k) (auto simp: bind_row_of_def write_node_def Let_def)

lemma write_edge_row:
  assumes "write_edge ts e db = Inr db'"
  shows "bind_row_of k db' = (if k = EdgeKey (e_src e) (e_label e) (e_dst e) then None else bind_row_of k db)"
  using assms by (cases k) (auto simp: bind_row_of_def write_edge_def split: if_splits)

lemma try_fold_rows:
  assumes step: "\<And>x db db'. db_wf db \<Longrightarrow> f x db = Inr db' \<Longrightarrow>
      db_wf db' \<and> bind_row_of k db' = (if T x then None else bind_row_of k db)"
    and "db_wf db" "try_fold f xs db = Inr db'"
  shows "db_wf db' \<and> bind_row_of k db' = (if \<exists>x \<in> set xs. T x then None else bind_row_of k db)"
  using assms(2,3)
proof (induction xs arbitrary: db)
  case (Cons x xs)
  then obtain db1 where "f x db = Inr db1" "try_fold f xs db1 = Inr db'" by (auto simp: rbind_eq_Inr)
  with step [OF Cons.prems(1)] Cons.IH [of db1] show ?case by auto
qed simp

lemma patch_rows:
  assumes wf: "db_wf db" and r: "apply_patch_rows ts p db = Inr db'"
  shows "bind_row_of k db' = (if patch_touches p k then None else bind_row_of k db)"
proof -
  define db1 where "db1 = fold (\<lambda>k. sql_delete_edges (\<lambda>k'. k' = k)) (delete_edges p) db"
  from r obtain db2 db3 where steps: "try_fold patch_delete_node (delete_node_ids p) db1 = Inr db2"
    "try_fold (write_node ts) (upsert_nodes p) db2 = Inr db3"
    "try_fold (write_edge ts) (upsert_edges p) db3 = Inr db'"
    by (auto simp: apply_patch_rows_def Let_def rbind_eq_Inr db1_def)
  have "db_wf (fold (\<lambda>k. sql_delete_edges (\<lambda>k'. k' = k)) ks db) \<and>
      bind_row_of k (fold (\<lambda>k. sql_delete_edges (\<lambda>k'. k' = k)) ks db) =
        (if \<exists>q \<in> set ks. (case k of NodeKey _ \<Rightarrow> False | EdgeKey s l d \<Rightarrow> q = (s, d, l)) then None else bind_row_of k db)"
    for ks using wf
    by (induction ks arbitrary: db) (auto simp: delete_edges_row eq_commute split: fact_key.splits)
  then have f1: "db_wf db1" "bind_row_of k db1 =
      (if \<exists>q \<in> set (delete_edges p). (case k of NodeKey _ \<Rightarrow> False | EdgeKey s l d \<Rightarrow> q = (s, d, l))
       then None else bind_row_of k db)" unfolding db1_def by blast+
  have f2: "db_wf db2 \<and> bind_row_of k db2 =
      (if \<exists>i \<in> set (delete_node_ids p). (case k of NodeKey j \<Rightarrow> j = i | EdgeKey s l d \<Rightarrow> s = i \<or> d = i)
       then None else bind_row_of k db1)"
    by (rule try_fold_rows [OF _ f1(1) steps(1)])
      (simp add: patch_delete_node_row, metis db_wf_delete_nodes db_wf_delete_edges patch_delete_node_def)
  have f3: "db_wf db3 \<and> bind_row_of k db3 =
      (if \<exists>n \<in> set (upsert_nodes p). k = NodeKey (n_id n) then None else bind_row_of k db2)"
    by (rule try_fold_rows [OF _ conjunct1 [OF f2] steps(2)]) (simp add: write_node_row db_wf_write_node)
  have f4: "db_wf db' \<and> bind_row_of k db' =
      (if \<exists>e \<in> set (upsert_edges p). k = EdgeKey (e_src e) (e_label e) (e_dst e) then None else bind_row_of k db3)"
    by (rule try_fold_rows [OF _ conjunct1 [OF f3] steps(3)]) (simp add: write_edge_row db_wf_write_edge)
  show ?thesis
    using f1(2) f2 f3 f4 by (cases k) (auto simp: patch_touches_def e_key_def image_iff)
qed

section \<open>The reachable stores\<close>

text \<open>
  Every operation of the two files that writes, as one step; a failed operation is no step, and an
  operation that reports a stale snapshot steps to the same store.
\<close>

inductive store_step ::
  "(string \<Rightarrow> string) \<Rightarrow> (json \<Rightarrow> string) \<Rightarrow> (string \<Rightarrow> json option) \<Rightarrow> graph_db \<Rightarrow> graph_db \<Rightarrow> bool"
  for H ts fs where
  step_open: "store_init db = Inr db' \<Longrightarrow> store_step H ts fs db db'"
| step_put_node: "put_node ts n db = Inr db' \<Longrightarrow> store_step H ts fs db db'"
| step_put_edge: "put_edge ts e db = Inr db' \<Longrightarrow> store_step H ts fs db db'"
| step_delete_edges: "delete_edges_from_with_label s l db = Inr db' \<Longrightarrow> store_step H ts fs db db'"
| step_delete_edge: "delete_edge s d l db = Inr db' \<Longrightarrow> store_step H ts fs db db'"
| step_delete_node: "delete_node i db = Inr db' \<Longrightarrow> store_step H ts fs db db'"
| step_clear: "store_clear db = Inr db' \<Longrightarrow> store_step H ts fs db db'"
| step_patch: "apply_patch_if_snapshot_matches ts fs expected p db = (Inr b, db') \<Longrightarrow> store_step H ts fs db db'"
| step_publish: "apply_patch_with_source_bindings H ts fs expected p rk bs db = (Inr b, db')
    \<Longrightarrow> store_step H ts fs db db'"

text \<open>A database file that does not exist yet.\<close>

definition empty_db :: graph_db where
  "empty_db = \<lparr>db_nodes = [], db_edges = [], db_node_bind = [], db_edge_bind = [],
     db_schema = NoSchema, db_version = 0\<rparr>"

inductive store_reachable ::
  "(string \<Rightarrow> string) \<Rightarrow> (json \<Rightarrow> string) \<Rightarrow> (string \<Rightarrow> json option) \<Rightarrow> graph_db \<Rightarrow> bool"
  for H ts fs where
  reach_empty: "store_reachable H ts fs empty_db"
| reach_step: "store_reachable H ts fs db \<Longrightarrow> store_step H ts fs db db' \<Longrightarrow> store_reachable H ts fs db'"

lemma publish_outcome:
  assumes "apply_patch_with_source_bindings H ts fs expected p rk bs db = (Inr True, db')"
  obtains db1 where "check_bindings rk [] bs = Inr ()"
    and "try_map (check_owner rk db) bs = Inr (map (\<lambda>_. ()) bs)"
    and "apply_patch_rows ts p (drop_repo_bindings rk db) = Inr db1"
    and "try_fold (publish_binding H ts fs rk) bs db1 = Inr db'"
proof -
  from assms obtain us db1 where r: "check_bindings rk [] bs = Inr ()"
    "try_map (check_owner rk db) bs = Inr us"
    "apply_patch_rows ts p (drop_repo_bindings rk db) = Inr db1"
    "try_fold (publish_binding H ts fs rk) bs db1 = Inr db'"
    by (auto simp: apply_patch_with_source_bindings_def rbind_eq_Inr
        split: sum.splits option.splits if_splits)
  moreover have "us = map (\<lambda>_. ()) bs"
    using list_all2_lengthD [OF r(2) [unfolded try_map_Inr_iff]] by (simp add: nth_equalityI)
  ultimately show thesis using that by blast
qed

lemma publish_keeps_inv:
  assumes wf: "db_wf db" and bd: "db_bound H ts fs db"
    and r: "apply_patch_with_source_bindings H ts fs expected p rk bs db = (Inr b, db')"
  shows "db_wf db' \<and> db_bound H ts fs db'"
proof (cases b)
  case False
  with r have "db' = db"
    by (auto simp: apply_patch_with_source_bindings_def split: sum.splits option.splits)
  with wf bd show ?thesis by simp
next
  case True
  obtain db1 where a: "apply_patch_rows ts p (drop_repo_bindings rk db) = Inr db1"
    and f: "try_fold (publish_binding H ts fs rk) bs db1 = Inr db'"
    using publish_outcome r True by metis
  have wf0: "db_wf (drop_repo_bindings rk db)" by (rule db_wf_drop_repo [OF wf])
  have wf1: "db_wf db1" by (rule db_wf_apply_patch_rows [OF wf0 a])
  have "bind_frame db db1"
    using frame_drop_repo [OF wf] frame_apply_patch_rows [OF a] by (rule bind_frame_trans)
  then have "db_bound H ts fs db1" by (rule db_bound_frame [OF wf wf1 _ bd])
  with wf1 have inv1: "db_wf db1 \<and> db_bound H ts fs db1" by simp
  show ?thesis
    by (rule try_fold_invariant [where P = "\<lambda>s. db_wf s \<and> db_bound H ts fs s", OF _ inv1 f])
       (metis publish_keeps)
qed

lemma store_init_frame: "store_init db = Inr db' \<Longrightarrow> bind_frame db db'"
proof -
  assume r: "store_init db = Inr db'"
  have upd: "bind_frame (a\<lparr>db_schema := x\<rparr>) (c\<lparr>db_version := v\<rparr>) = bind_frame a c"
    "bind_frame a (c\<lparr>db_version := v\<rparr>) = bind_frame a c"
    "bind_frame (a\<lparr>db_schema := x\<rparr>) c = bind_frame a c"
    "bind_frame a (c\<lparr>db_schema := x\<rparr>) = bind_frame a c" for a c x v
    by (auto simp: bind_frame_def bind_row_of_def same_fact_def cong: fact_key.case_cong)
  have del: "sql_delete_nodes P (sql_delete_edges Q a) = Inr c \<Longrightarrow> bind_frame a c" for P Q a c
    using frame_delete_edges frame_delete_nodes bind_frame_trans by blast
  from r show ?thesis
    by (auto simp: store_init_def source_initialize_def rbind_eq_Inr Let_def upd
        dest!: del split: assoc_schema.splits if_splits)
qed

lemma db_wf_store_init: "db_wf db \<Longrightarrow> store_init db = Inr db' \<Longrightarrow> db_wf db'"
  by (auto simp: store_init_def source_initialize_def rbind_eq_Inr Let_def
      dest!: db_wf_delete_nodes [rotated] split: assoc_schema.splits if_splits)

lemma store_step_inv:
  assumes "store_step H ts fs db db'" "db_wf db" "db_bound H ts fs db"
  shows "db_wf db' \<and> db_bound H ts fs db'"
proof -
  have framed: ?thesis if "db_wf db'" "bind_frame db db'"
    using that assms(2,3) db_bound_frame by blast
  have deleted: ?thesis if "sql_delete_nodes P (sql_delete_edges Q db) = Inr db'" for P Q
    using framed db_wf_delete_nodes [OF db_wf_delete_edges [OF assms(2)] that]
      bind_frame_trans [OF frame_delete_edges frame_delete_nodes [OF that]] by blast
  from assms(1) show ?thesis
  proof (cases rule: store_step.cases)
    case step_open
    then show ?thesis using framed db_wf_store_init [OF assms(2)] store_init_frame by blast
  next
    case (step_put_node n)
    then show ?thesis
      unfolding put_node_def using framed db_wf_write_node [OF assms(2)] frame_write_node by blast
  next
    case (step_put_edge e)
    then show ?thesis
      unfolding put_edge_def using framed db_wf_write_edge [OF assms(2)] frame_write_edge by blast
  next
    case (step_delete_edges s l)
    then show ?thesis using framed assms(2) by (auto simp: delete_edges_from_with_label_def)
  next
    case (step_delete_edge s d l)
    then show ?thesis using framed assms(2) by (auto simp: delete_edge_def)
  next
    case (step_delete_node i)
    then show ?thesis unfolding delete_node_def by (rule deleted)
  next
    case step_clear
    then show ?thesis unfolding store_clear_def by (rule deleted)
  next
    case (step_patch expected p b)
    then consider "db' = db" | "apply_patch_rows ts p db = Inr db'"
      by (auto simp: apply_patch_if_snapshot_matches_def split: sum.splits if_splits)
    then show ?thesis
      using framed assms db_wf_apply_patch_rows frame_apply_patch_rows by cases blast+
  next
    case (step_publish expected p rk bs b)
    then show ?thesis by (rule publish_keeps_inv [OF assms(2,3)])
  qed
qed

lemma store_reachable_inv:
  "store_reachable H ts fs db \<Longrightarrow> db_wf db \<and> db_bound H ts fs db"
proof (induction rule: store_reachable.induct)
  case reach_empty
  show ?case by (simp add: empty_db_def db_wf_def db_bound_def)
next
  case (reach_step db db')
  then show ?case using store_step_inv by blast
qed

text \<open>
  C8: in every store reachable from a fresh file by any sequence of its operations, keys are
  unique and ordered, every edge has both endpoints, and reading a fact's current association
  never finds one that describes an earlier version of the fact or no fact at all: the mismatch
  error is unreachable, and a returned association carries the digest of the fact as it is now.
\<close>

theorem reachable_store_bindings_current:
  assumes "store_reachable H ts fs db"
  shows "db_wf db \<and>
    current_source_binding H ts fs k db \<noteq>
      Inl (SourceBindingError ''missing fact or complete fact digest mismatch'') \<and>
    (\<forall>b. current_source_binding H ts fs k db = Inr (Some b) \<longrightarrow>
       sb_fact b = k \<and> current_digest H ts fs k db = Inr (Some (sb_digest b)))"
proof -
  have inv: "db_wf db" "db_bound H ts fs db" using store_reachable_inv [OF assms] by simp_all
  then have cur: "bind_row_of k db = Some r \<Longrightarrow> current_digest H ts fs k db = Inr (Some (b_digest r))" for r
    by (simp add: db_bound_alt)
  have err: "fact_key_validate k \<noteq> Inl (SourceBindingError ''missing fact or complete fact digest mismatch'')"
    "check_schema db \<noteq> Inl (SourceBindingError ''missing fact or complete fact digest mismatch'')"
    "binding_validate b \<noteq> Inl (SourceBindingError ''missing fact or complete fact digest mismatch'')" for b
    by (auto simp: fact_key_validate_def bounded_id_def check_schema_def binding_validate_def rbind_def
        split: fact_key.splits assoc_schema.splits option.splits)
  show ?thesis
    using inv(1) cur err
    by (auto simp: current_source_binding_def load_binding_def rbind_eq_Inl rbind_eq_Inr binding_of_row_def
        split: option.splits if_splits)
qed

text \<open>A reachable store for the witnesses: a fresh file, opened, with one node in it.\<close>

definition demo_H :: "string \<Rightarrow> string" where
  "demo_H s = replicate 64 (CHR ''0'')"

definition demo_opened :: graph_db where
  "demo_opened = empty_db\<lparr>db_schema := Owned [(1, 1)], db_version := 6, db_nodes := [(''a'', ''Symbol'', ''p'')]\<rparr>"

lemma demo_opened_reachable: "store_reachable demo_H demo_ts demo_fs demo_opened"
proof -
  let ?db = "empty_db\<lparr>db_schema := Owned [(1, 1)], db_version := 6\<rparr>"
  have "store_init empty_db = Inr ?db" by code_simp
  then have r: "store_reachable demo_H demo_ts demo_fs ?db"
    by (rule reach_step [OF reach_empty step_open])
  have "put_node demo_ts (demo_node ''a'') ?db = Inr demo_opened" by code_simp
  then show ?thesis by (rule reach_step [OF r step_put_node])
qed

definition demo_binding :: source_binding where
  "demo_binding = \<lparr>sb_fact = NodeKey ''a'', sb_repo_key = ''r'', sb_receipt_id = ''t'',
     sb_digest = ''node-v1:'' @ replicate 64 (CHR ''0'')\<rparr>"

definition no_patch :: graph_patch where
  "no_patch = \<lparr>upsert_nodes = [], upsert_edges = [], delete_node_ids = [], delete_edges = []\<rparr>"

abbreviation demo_publish :: "(graph_error, bool) result \<times> graph_db" where
  "demo_publish \<equiv> apply_patch_with_source_bindings demo_H demo_ts demo_fs
     ([demo_node ''a''], []) no_patch ''r'' [demo_binding] demo_opened"

lemmas demo_defs = demo_opened_def empty_db_def demo_node_def demo_binding_def no_patch_def demo_H_def
  demo_ts_def demo_fs_def

lemma demo_validate: "binding_validate demo_binding = Inr ()"
  by (simp add: binding_validate_def fact_key_validate_def bounded_id_def MAX_ID_BYTES_def MAX_REPO_BYTES_def
      MAX_RECEIPT_BYTES_def digest_prefix_def strip_prefix_def starts_with_def demo_binding_def is_lower_hex_def
      numeral_nat less_eq_char_def)

definition demo_bound :: graph_db where
  "demo_bound = demo_opened\<lparr>db_node_bind := [(''a'', row_of ''r'' demo_binding)]\<rparr>"

lemma demo_digest:
  "db_nodes db = [(''a'', ''Symbol'', ''p'')] \<Longrightarrow>
   current_digest demo_H demo_ts demo_fs (NodeKey ''a'') db = Inr (Some (sb_digest demo_binding))"
  by (simp add: current_digest_def node_digest_def fact_digest_def content_hash_def demo_defs)

lemma demo_snapshot: "read_snapshot demo_fs demo_opened = Inr ([demo_node ''a''], [])"
  by (simp add: read_snapshot_def read_snapshot_filtered_def read_nodes_def read_edges_def label_selection_def
      node_of_row_def demo_defs)

lemma demo_snapshot_eq: "snapshot_eq ([demo_node ''a''], []) ([demo_node ''a''], [])"
  by (simp add: snapshot_eq_def node_eq_def json_eq.simps demo_defs)

lemma demo_owner: "check_owner ''r'' demo_opened demo_binding = Inr ()"
  by (simp add: check_owner_def load_binding_def bind_row_of_def demo_defs)

lemma demo_patched: "apply_patch_rows demo_ts no_patch (drop_repo_bindings ''r'' demo_opened) = Inr demo_opened"
  by (simp add: apply_patch_rows_def drop_repo_bindings_def demo_defs)

lemma demo_published: "publish_binding demo_H demo_ts demo_fs ''r'' demo_binding demo_opened = Inr demo_bound"
proof -
  have "sb_fact demo_binding = NodeKey ''a''" by (simp add: demo_binding_def)
  moreover have "db_nodes demo_opened = [(''a'', ''Symbol'', ''p'')]" by (simp add: demo_defs)
  ultimately have "current_digest demo_H demo_ts demo_fs (sb_fact demo_binding) demo_opened = Inr (Some (sb_digest demo_binding))"
    by (simp add: demo_digest)
  then show ?thesis
    by (simp add: publish_binding_def insert_binding_def row_checks_def has_node_def demo_bound_def row_of_def demo_defs)
qed

lemma demo_publish_run: "demo_publish = (Inr True, demo_bound)"
  by (simp add: apply_patch_with_source_bindings_def bounded_id_def MAX_REPO_BYTES_def MAX_BINDINGS_def
      demo_validate demo_snapshot demo_snapshot_eq demo_owner demo_patched demo_published check_schema_def)
     (simp add: demo_defs)

theorem reachable_store_bindings_current_witness:
  "store_reachable demo_H demo_ts demo_fs demo_bound \<and>
   current_source_binding demo_H demo_ts demo_fs (NodeKey ''a'') demo_bound = Inr (Some demo_binding) \<and>
   current_digest demo_H demo_ts demo_fs (NodeKey ''a'') demo_bound = Inr (Some (sb_digest demo_binding))"
proof -
  have r: "store_reachable demo_H demo_ts demo_fs demo_bound"
    by (rule reach_step [OF demo_opened_reachable step_publish [OF demo_publish_run]])
  have "binding_of_row (NodeKey ''a'') (row_of ''r'' demo_binding) = demo_binding"
    by (simp add: binding_of_row_def row_of_def demo_binding_def)
  moreover have "db_nodes demo_bound = [(''a'', ''Symbol'', ''p'')]" by (simp add: demo_bound_def demo_defs)
  moreover have "fact_key_validate (NodeKey ''a'') = Inr ()"
    by (simp add: fact_key_validate_def bounded_id_def MAX_ID_BYTES_def)
  moreover have "check_schema demo_bound = Inr ()" by (simp add: check_schema_def demo_bound_def demo_defs)
  moreover have "bind_row_of (NodeKey ''a'') demo_bound = Some (row_of ''r'' demo_binding)"
    by (simp add: bind_row_of_def demo_bound_def)
  ultimately have "current_source_binding demo_H demo_ts demo_fs (NodeKey ''a'') demo_bound = Inr (Some demo_binding)"
    by (simp add: current_source_binding_def load_binding_def demo_validate demo_digest)
  with r reachable_store_bindings_current [OF r, of "NodeKey ''a''"] show ?thesis by simp
qed

lemma check_bindings_distinct:
  assumes "check_bindings rk seen bs = Inr ()"
  shows "distinct (map sb_fact bs) \<and> set (map sb_fact bs) \<inter> set seen = {} \<and>
    list_all (\<lambda>b. sb_repo_key b = rk \<and> is_ok (binding_validate b)) bs"
  using assms
  by (induction rk seen bs rule: check_bindings.induct) (auto simp: rbind_eq_Inr split: if_splits)

lemma owner_checked:
  assumes "try_map (check_owner rk db) bs = Inr us" "b \<in> set bs" "bind_row_of (sb_fact b) db = Some r"
  shows "b_repo_key r = rk"
proof -
  from assms(1,2) have "check_owner rk db b = Inr ()"
    by (auto simp: try_map_Inr_iff list_all2_conv_all_nth in_set_conv_nth)
  with assms(3) show ?thesis
    by (auto simp: check_owner_def load_binding_def rbind_eq_Inr binding_of_row_def split: if_splits)
qed

text \<open>
  C9: publication replaces exactly one repository's associations. When it succeeds, no requested
  fact was associated with another repository before (so a request for such a fact never succeeds);
  the associations held for the repository afterwards are exactly the ones requested, each with the
  digest of its final fact; and those of all other repositories are exactly the ones they had whose
  fact the patch neither writes nor deletes. When it does not succeed the store is unchanged.
\<close>

theorem publish_replaces_one_repo:
  assumes "store_reachable H ts fs db"
    and "apply_patch_with_source_bindings H ts fs expected p rk bs db = (res, db')"
  shows "(res \<noteq> Inr True \<longrightarrow> db' = db) \<and>
    (res = Inr True \<longrightarrow>
      (\<forall>b \<in> set bs. \<forall>r. bind_row_of (sb_fact b) db = Some r \<longrightarrow> b_repo_key r = rk) \<and>
      (\<forall>k r. b_repo_key r = rk \<longrightarrow>
         (bind_row_of k db' = Some r \<longleftrightarrow> (\<exists>b \<in> set bs. sb_fact b = k \<and> r = row_of rk b))) \<and>
      (\<forall>k r. b_repo_key r \<noteq> rk \<longrightarrow>
         (bind_row_of k db' = Some r \<longleftrightarrow> bind_row_of k db = Some r \<and> \<not> patch_touches p k)) \<and>
      (\<forall>k r. b_repo_key r \<noteq> rk \<longrightarrow> bind_row_of k db' = Some r \<longrightarrow> same_fact k db db') \<and>
      db_wf db' \<and> db_bound H ts fs db')"
proof (intro conjI impI)
  have inv: "db_wf db" "db_bound H ts fs db" using store_reachable_inv [OF assms(1)] by simp_all
  show "res \<noteq> Inr True \<Longrightarrow> db' = db"
    using assms(2) by (auto simp: apply_patch_with_source_bindings_def split: sum.splits option.splits)
  assume "res = Inr True"
  with assms(2) have r: "apply_patch_with_source_bindings H ts fs expected p rk bs db = (Inr True, db')" by simp
  show "db_wf db'" "db_bound H ts fs db'" using publish_keeps_inv [OF inv r] by simp_all
  obtain db1 where c: "check_bindings rk [] bs = Inr ()"
    and o: "try_map (check_owner rk db) bs = Inr (map (\<lambda>_. ()) bs)"
    and a: "apply_patch_rows ts p (drop_repo_bindings rk db) = Inr db1"
    and f: "try_fold (publish_binding H ts fs rk) bs db1 = Inr db'"
    using publish_outcome [OF r] by metis
  have dist: "distinct (map sb_fact bs)" using check_bindings_distinct [OF c] by simp
  note rows = publish_all_rows [OF f dist]
  show owned: "\<forall>b \<in> set bs. \<forall>r. bind_row_of (sb_fact b) db = Some r \<longrightarrow> b_repo_key r = rk"
    using owner_checked [OF o] by blast
  have fr: "bind_frame (drop_repo_bindings rk db) db1" by (rule frame_apply_patch_rows [OF a])
  have old: "b_repo_key q \<noteq> rk \<and> bind_row_of k db = Some q \<and> same_fact k db db1"
    if "bind_row_of k db1 = Some q" for k q
  proof -
    have "bind_row_of k (drop_repo_bindings rk db) = Some q" "same_fact k (drop_repo_bindings rk db) db1"
      using fr that by (auto simp: bind_frame_def)
    then show ?thesis
      using inv(1) by (auto simp: bind_row_drop_repo same_fact_def cong: fact_key.case_cong
          split: option.splits if_splits)
  qed
  have new: "map_of (map (\<lambda>b. (sb_fact b, row_of rk b)) bs) k = Some q \<longleftrightarrow>
      (\<exists>b \<in> set bs. sb_fact b = k \<and> q = row_of rk b)" for k q
    using dist by (subst map_of_eq_Some_iff) (auto simp: comp_def)
  have rk: "b_repo_key (row_of rk b) = rk" for b by (simp add: row_of_def)
  define M where "M = map_of (map (\<lambda>b. (sb_fact b, row_of rk b)) bs)"
  note new = new [folded M_def]
  have row: "bind_row_of k db' = (case M k of Some r \<Rightarrow> Some r | None \<Rightarrow> bind_row_of k db1)" for k
    using rows unfolding M_def by blast
  have "bind_row_of k db' = Some r \<longleftrightarrow> M k = Some r" if "b_repo_key r = rk" for k r
    using old [of k r] that by (auto simp: row split: option.splits)
  then show "\<forall>k r. b_repo_key r = rk \<longrightarrow>
      (bind_row_of k db' = Some r \<longleftrightarrow> (\<exists>b \<in> set bs. sb_fact b = k \<and> r = row_of rk b))"
    unfolding new by blast
  have "db_nodes db' = db_nodes db1" "db_edges db' = db_edges db1" using rows by blast+
  then have sf: "same_fact k db db' = same_fact k db db1" for k
    by (cases k) (simp_all add: same_fact_def)
  have kept: "bind_row_of k db' = Some r \<longleftrightarrow> bind_row_of k db1 = Some r" if "b_repo_key r \<noteq> rk" for k r
  proof (cases "M k")
    case (Some q)
    then obtain b where b: "b \<in> set bs" "sb_fact b = k" "q = row_of rk b" using new by blast
    then have "bind_row_of k db1 \<noteq> Some r" using old [of k r] owned by blast
    moreover have "r \<noteq> q" using b(3) rk that by blast
    ultimately show ?thesis using Some by (simp add: row)
  qed (simp add: row)
  have patched: "bind_row_of k db1 = Some r \<longleftrightarrow> bind_row_of k db = Some r \<and> \<not> patch_touches p k"
    if "b_repo_key r \<noteq> rk" for k r
    using that patch_rows [OF db_wf_drop_repo [OF inv(1)] a, of k] bind_row_drop_repo [OF inv(1), of k rk]
    by (auto split: option.splits)
  show "\<forall>k r. b_repo_key r \<noteq> rk \<longrightarrow>
      (bind_row_of k db' = Some r \<longleftrightarrow> bind_row_of k db = Some r \<and> \<not> patch_touches p k)"
    using kept patched by blast
  show "\<forall>k r. b_repo_key r \<noteq> rk \<longrightarrow> bind_row_of k db' = Some r \<longrightarrow> same_fact k db db'"
    unfolding sf using kept old by blast
qed

text \<open>One repository publishes a node; after that another one is refused the same node.\<close>

theorem publish_replaces_one_repo_witness:
  "store_reachable demo_H demo_ts demo_fs demo_opened \<and> demo_publish = (Inr True, demo_bound) \<and>
   bind_row_of (NodeKey ''a'') demo_bound = Some (row_of ''r'' demo_binding) \<and>
   db_bound demo_H demo_ts demo_fs demo_bound \<and>
   fst (apply_patch_with_source_bindings demo_H demo_ts demo_fs ([demo_node ''a''], []) no_patch ''q'' [demo_binding\<lparr>sb_repo_key := ''q''\<rparr>]
          demo_bound) \<noteq> Inr True"
proof -
  have key: "b_repo_key (row_of ''r'' demo_binding) = ''r''" "sb_fact demo_binding = NodeKey ''a''"
    "sb_fact (demo_binding\<lparr>sb_repo_key := ''q''\<rparr>) = NodeKey ''a''"
    by (simp_all add: row_of_def demo_binding_def)
  from publish_replaces_one_repo [OF demo_opened_reachable demo_publish_run] key
  have bound: "bind_row_of (NodeKey ''a'') demo_bound = Some (row_of ''r'' demo_binding)"
    "db_bound demo_H demo_ts demo_fs demo_bound" by auto
  let ?again = "apply_patch_with_source_bindings demo_H demo_ts demo_fs ([demo_node ''a''], []) no_patch ''q''
    [demo_binding\<lparr>sb_repo_key := ''q''\<rparr>] demo_bound"
  have reach: "store_reachable demo_H demo_ts demo_fs demo_bound"
    by (rule reach_step [OF demo_opened_reachable step_publish [OF demo_publish_run]])
  have "fst ?again \<noteq> Inr True"
  proof
    assume "fst ?again = Inr True"
    with publish_replaces_one_repo [OF reach prod.collapse [of ?again, symmetric]] bound(1)
    have "b_repo_key (row_of ''r'' demo_binding) = ''q''" by (simp add: key(3))
    with key(1) show False by simp
  qed
  with bound demo_opened_reachable demo_publish_run show ?thesis by simp
qed

end
