(* ===== verification/Flow_Trace.thy ===== *)
theory Flow_Trace
  imports Complex_Main Graph_Store
begin

text \<open>
  The cross-layer flow tracer (\<^verbatim>\<open>crates/flowtracer/src/lib.rs\<close>): adjacency built from one graph
  slice, the trigger rules, and the bounded depth-first walk that records the hops of one flow,
  its status and its score. The walk is a total function: its stack may revisit ids, but each id is
  expanded once. The score is the exact rational the code computes in \<^verbatim>\<open>f64\<close>; rounding is
  not modelled. Provenance fallbacks hash with \<open>H\<close> and print with \<open>ts\<close> as in \<open>Graph_Store\<close>.
\<close>

section \<open>Data\<close>

definition FLOW_EDGE_LABELS :: "string list" where
  "FLOW_EDGE_LABELS =
     [''RENDERS'', ''FETCHES'', ''HANDLES'', ''ENTRY'', ''DEFINED_IN'', ''CALLS'', ''PUBLISHES'',
      ''SUBSCRIBES'', ''DEPENDS_ON'']"

definition FLOW_NODE_LABELS :: "string list" where
  "FLOW_NODE_LABELS =
     [''Screen'', ''Component'', ''Endpoint'', ''Symbol'', ''Channel'', ''ExtensionContext'',
      ''Command'', ''Gap'', ''File'']"

definition MAX_DEPTH :: nat where "MAX_DEPTH = 64"

datatype flow_status = Verified | Partial | Inferred

definition flow_status_as_str :: "flow_status \<Rightarrow> string" where
  "flow_status_as_str s =
     (case s of Verified \<Rightarrow> ''Verified'' | Partial \<Rightarrow> ''Partial'' | Inferred \<Rightarrow> ''Inferred'')"

record hop =
  h_label :: string
  h_src :: string
  h_dst :: string
  h_src_name :: string
  h_dst_name :: string
  h_tier :: string
  h_confidence :: string
  h_evidence :: "string option"
  h_prov :: provenance
  h_gap_reason :: "string option"
  h_attempted_tiers :: "string list"

record flow =
  fl_trigger :: string
  fl_trigger_kind :: string
  fl_trigger_name :: string
  fl_hops :: "hop list"
  fl_status :: flow_status
  fl_score :: rat
  fl_depth_limited :: bool

section \<open>Helpers\<close>

definition display_name :: "node \<Rightarrow> string" where
  "display_name n =
     (let p = n_props n; label = n_label n;
          str = (\<lambda>k. as_str (jidx p k)) in
      if label = ''Screen'' then
        (case str ''route'' of Some r \<Rightarrow> ''Screen '' @ r | None \<Rightarrow> n_id n)
      else if label = ''Endpoint'' then
        (case (str ''method'', str ''path'') of
           (Some m, Some path) \<Rightarrow> m @ '' '' @ path | _ \<Rightarrow> n_id n)
      else if label = ''Symbol'' \<or> label = ''Component'' then
        (case str ''name'' of Some s \<Rightarrow> s | None \<Rightarrow> last (split_on (CHR ''#'') (n_id n)))
      else if label = ''Channel'' then
        (case (str ''kind'', str ''identity'') of
           (Some k, Some i) \<Rightarrow> k @ '':'' @ i | _ \<Rightarrow> n_id n)
      else if label = ''ExtensionContext'' then
        (let kind = (case str ''kind'' of Some k \<Rightarrow> k | None \<Rightarrow> ''context'');
             title = (case str ''title'' of Some t \<Rightarrow> if t = [] then None else Some t | None \<Rightarrow> None);
             detail = (case as_array (jidx p ''entries'') of
                         Some (entry # _) \<Rightarrow> (case as_str entry of Some d \<Rightarrow> Some d | None \<Rightarrow> title)
                       | _ \<Rightarrow> title)
         in case detail of Some d \<Rightarrow> kind @ [CHR '' '', CHR 0xC2, CHR 0xB7, CHR '' ''] @ d | None \<Rightarrow> kind)
      else if label = ''Command'' then
        (case str ''name'' of Some s \<Rightarrow> ''Command '' @ s | None \<Rightarrow> n_id n)
      else if label = ''Gap'' then
        ''GAP: '' @ (case str ''reason'' of Some r \<Rightarrow> r | None \<Rightarrow> ''unresolved'')
      else if label = ''File'' then
        (case str ''path'' of Some s \<Rightarrow> s | None \<Rightarrow> n_id n)
      else n_id n)"

definition hop_weight :: "string \<Rightarrow> rat" where
  "hop_weight c =
     (if c = ''Confirmed'' then 1 else if c = ''InferredStrong'' then 6 / 10
      else if c = ''InferredWeak'' then 3 / 10 else 0)"

text \<open>The provenance an edge carries when it reads back and validates, else an explicit Gap.\<close>

definition edge_provenance :: "(string \<Rightarrow> string) \<Rightarrow> (json \<Rightarrow> string) \<Rightarrow> edge \<Rightarrow> provenance" where
  "edge_provenance H ts e =
     (case prov_from_value (jidx (e_props e) ''prov'') of
        Some p \<Rightarrow> if is_ok (prov_validate p) then p else
          t0_prov H Gap [] ''flowtracer.invalid-provenance'' (ts (JArr [JStr (e_src e), JStr (e_label e), JStr (e_dst e)]))
      | None \<Rightarrow>
          t0_prov H Gap [] ''flowtracer.invalid-provenance'' (ts (JArr [JStr (e_src e), JStr (e_label e), JStr (e_dst e)])))"

definition edge_prov ::
  "(string \<Rightarrow> string) \<Rightarrow> (json \<Rightarrow> string) \<Rightarrow> edge \<Rightarrow> string \<times> string \<times> string option \<times> provenance" where
  "edge_prov H ts e =
     (let p = edge_provenance H ts e in
      (tier_name (p_tier p), confidence_name (p_confidence p),
       (case p_evidence p of [] \<Rightarrow> None
        | ev # _ \<Rightarrow> Some (ev_path ev @ '' bytes '' @ show_nat (unat (ev_byte_start ev)) @ ''..'' @
                          show_nat (unat (ev_byte_end ev)))),
       p))"

definition owns_execution_gap :: "edge \<Rightarrow> (string, node) omap \<Rightarrow> bool" where
  "owns_execution_gap e by_id =
     (let nd = om_get by_id (e_dst e);
          is_gap = (case nd of None \<Rightarrow> starts_with ''gap:'' (e_dst e) | Some n \<Rightarrow> n_label n = ''Gap'');
          rule_scoped = (\<lambda>props. jidx props ''rule_evidence_gap'' = JBool True)
      in is_gap \<and> \<not> rule_scoped (e_props e) \<and>
         \<not> (case nd of None \<Rightarrow> False | Some n \<Rightarrow> rule_scoped (n_props n)))"

definition gap_context :: "node option \<Rightarrow> string option \<times> string list" where
  "gap_context nd =
     (case nd of
        None \<Rightarrow> (None, [])
      | Some n \<Rightarrow>
          if n_label n \<noteq> ''Gap'' then (None, [])
          else (as_str (jidx (n_props n) ''reason''),
                (case as_array (jidx (n_props n) ''attempted_tiers'') of
                   None \<Rightarrow> [] | Some ts \<Rightarrow> List.map_filter as_str ts)))"

section \<open>Adjacency\<close>

record trace_index =
  by_id :: "(string, node) omap"
  out_edges :: "(string, edge list) omap"
  chan_consumers :: "(string, edge list) omap"
  file_symbols :: "(string, edge list) omap"
  published_to :: "string list"

text \<open>The final sort of every bucket.\<close>

definition sort_buckets :: "('a \<Rightarrow> 'b::linorder) \<Rightarrow> (string, 'a list) omap \<Rightarrow> (string, 'a list) omap" where
  "sort_buckets f m = map (\<lambda>(k, xs). (k, sort_key f xs)) m"

definition index_nodes :: "node list \<Rightarrow> (string, node) omap" where
  "index_nodes nodes = fold (\<lambda>n. om_put (n_id n) n) nodes []"

definition forward_labels :: "string list" where
  "forward_labels = [''RENDERS'', ''FETCHES'', ''HANDLES'', ''ENTRY'', ''CALLS'', ''PUBLISHES'']"

definition index_edge :: "edge \<Rightarrow> trace_index \<Rightarrow> trace_index" where
  "index_edge e ix =
     (if e_label e \<in> set forward_labels then
        ix\<lparr>out_edges := push_bucket (e_src e) e (out_edges ix),
           published_to := (if e_label e = ''PUBLISHES'' then e_dst e # published_to ix else published_to ix)\<rparr>
      else if e_label e = ''SUBSCRIBES'' then
        ix\<lparr>chan_consumers := push_bucket (e_dst e) e (chan_consumers ix)\<rparr>
      else if e_label e = ''DEPENDS_ON'' \<and> owns_execution_gap e (by_id ix) then
        ix\<lparr>out_edges := push_bucket (e_src e) e (out_edges ix)\<rparr>
      else if e_label e = ''DEFINED_IN'' then
        ix\<lparr>file_symbols := push_bucket (e_dst e) e (file_symbols ix)\<rparr>
      else ix)"

definition build_index :: "node list \<Rightarrow> edge list \<Rightarrow> trace_index" where
  "build_index nodes edges =
     (let ix = fold index_edge edges
                 \<lparr>by_id = index_nodes nodes, out_edges = [], chan_consumers = [], file_symbols = [],
                  published_to = []\<rparr>
      in ix\<lparr>out_edges := sort_buckets (\<lambda>e. (e_label e, e_dst e)) (out_edges ix),
            chan_consumers := sort_buckets e_src (chan_consumers ix),
            file_symbols := sort_buckets e_src (file_symbols ix)\<rparr>)"

section \<open>One flow\<close>

definition name_of :: "trace_index \<Rightarrow> string \<Rightarrow> string" where
  "name_of ix i = (case om_get (by_id ix) i of Some n \<Rightarrow> display_name n | None \<Rightarrow> i)"

definition make_hop ::
  "(string \<Rightarrow> string) \<Rightarrow> (json \<Rightarrow> string) \<Rightarrow> trace_index \<Rightarrow> edge \<Rightarrow> string \<Rightarrow> string \<Rightarrow> hop" where
  "make_hop H ts ix e src dst =
     (case edge_prov H ts e of (tier, confidence, evidence, p) \<Rightarrow>
      (case gap_context (om_get (by_id ix) dst) of (gap_reason, attempted) \<Rightarrow>
         \<lparr>h_label = e_label e, h_src = src, h_dst = dst, h_src_name = name_of ix src,
          h_dst_name = name_of ix dst, h_tier = tier, h_confidence = confidence, h_evidence = evidence,
          h_prov = p, h_gap_reason = gap_reason, h_attempted_tiers = attempted\<rparr>))"

text \<open>
  The expansion of a node: its forward edges, then, walked backwards, the consumers of a channel
  and the symbols of a file.
\<close>

definition next_hops :: "(string \<Rightarrow> string) \<Rightarrow> (json \<Rightarrow> string) \<Rightarrow> trace_index \<Rightarrow> string \<Rightarrow> hop list" where
  "next_hops H ts ix i =
     map (\<lambda>e. make_hop H ts ix e (e_src e) (e_dst e)) (bucket (out_edges ix) i) @
     map (\<lambda>e. make_hop H ts ix e (e_dst e) (e_src e)) (bucket (chan_consumers ix) i) @
     map (\<lambda>e. make_hop H ts ix e (e_dst e) (e_src e)) (bucket (file_symbols ix) i)"

definition has_continuation :: "trace_index \<Rightarrow> string \<Rightarrow> bool" where
  "has_continuation ix i \<longleftrightarrow>
     om_get (out_edges ix) i \<noteq> None \<or> om_get (chan_consumers ix) i \<noteq> None \<or>
     om_get (file_symbols ix) i \<noteq> None"

definition is_gap_node :: "trace_index \<Rightarrow> string \<Rightarrow> bool" where
  "is_gap_node ix i = (case om_get (by_id ix) i of None \<Rightarrow> False | Some n \<Rightarrow> n_label n = ''Gap'')"

definition hop_key :: "hop \<Rightarrow> string \<times> string \<times> string" where
  "hop_key h = (h_label h, h_src h, h_dst h)"

record walk =
  w_hops :: "hop list"
  w_seen :: "(string \<times> string \<times> string) list"
  w_visited :: "string list"
  w_depth_limited :: bool

definition record_hop :: "hop \<Rightarrow> walk \<Rightarrow> walk" where
  "record_hop h w =
     (if hop_key h \<in> set (w_seen w) then w
      else w\<lparr>w_seen := hop_key h # w_seen w, w_hops := w_hops w @ [h]\<rparr>)"

lemma record_hops_frame [simp]:
  "w_visited (fold record_hop hs w) = w_visited w"
  "w_depth_limited (fold record_hop hs w) = w_depth_limited w"
  by (induction hs arbitrary: w) (simp_all add: record_hop_def)

definition targets :: "trace_index \<Rightarrow> string set" where
  "targets ix =
     (\<Union>(k, es) \<in> set (out_edges ix) \<union> set (chan_consumers ix) \<union> set (file_symbols ix).
        e_src ` set es \<union> e_dst ` set es)"

lemma finite_targets [simp]: "finite (targets ix)"
  by (auto simp: targets_def)

lemma bucket_in: "e \<in> set (bucket m k) \<Longrightarrow> \<exists>es. (k, es) \<in> set m \<and> e \<in> set es"
  by (cases "om_get m k") (auto simp: bucket_def dest: map_of_SomeD)

lemma make_hop_sel [simp]:
  "h_label (make_hop H ts ix e s d) = e_label e"
  "h_src (make_hop H ts ix e s d) = s"
  "h_dst (make_hop H ts ix e s d) = d"
  "h_prov (make_hop H ts ix e s d) = edge_provenance H ts e"
  "h_confidence (make_hop H ts ix e s d) = confidence_name (p_confidence (edge_provenance H ts e))"
  by (simp_all add: make_hop_def edge_prov_def Let_def split: prod.split)

lemma next_hops_targets: "h_dst ` set (next_hops H ts ix i) \<subseteq> targets ix"
proof
  fix d assume "d \<in> h_dst ` set (next_hops H ts ix i)"
  then obtain e m where "m \<in> {out_edges ix, chan_consumers ix, file_symbols ix}"
    "e \<in> set (bucket m i)" "d = e_src e \<or> d = e_dst e"
    by (auto simp: next_hops_def; blast)
  then show "d \<in> targets ix"
    using bucket_in [of e m i] unfolding targets_def by blast
qed

text \<open>The stack is a list with its top first, so pushing the targets in reverse prepends them.\<close>

function walk_loop ::
  "(string \<Rightarrow> string) \<Rightarrow> (json \<Rightarrow> string) \<Rightarrow> trace_index \<Rightarrow> (string \<times> nat) list \<Rightarrow> walk \<Rightarrow> walk" where
  "walk_loop H ts ix [] w = w"
| "walk_loop H ts ix ((i, depth) # stack) w =
     (if MAX_DEPTH \<le> depth then
        walk_loop H ts ix stack (if has_continuation ix i then w\<lparr>w_depth_limited := True\<rparr> else w)
      else if i \<in> set (w_visited w) then walk_loop H ts ix stack w
      else if is_gap_node ix i then walk_loop H ts ix stack (w\<lparr>w_visited := i # w_visited w\<rparr>)
      else walk_loop H ts ix (map (\<lambda>h. (h_dst h, depth + 1)) (next_hops H ts ix i) @ stack)
             (fold record_hop (next_hops H ts ix i) (w\<lparr>w_visited := i # w_visited w\<rparr>)))"
  by pat_completeness auto
termination
proof (relation "inv_image (finite_psubset <*lex*> less_than)
    (\<lambda>(H, ts, ix, stack, w). ((fst ` set stack \<union> targets ix) - set (w_visited w), length stack))",
    goal_cases)
  case 1
  show ?case by auto
next
  case (2 H ts ix i depth stack w)
  then show ?case by (auto simp: finite_psubset_def)
next
  case (3 H ts ix i depth stack w)
  then show ?case by (auto simp: finite_psubset_def)
next
  case (4 H ts ix i depth stack w)
  then show ?case by (auto simp: finite_psubset_def)
next
  case (5 H ts ix i depth stack w)
  let ?new = "map (\<lambda>h. (h_dst h, depth + 1)) (next_hops H ts ix i) @ stack"
  have "fst ` set ?new \<union> targets ix \<subseteq> fst ` set stack \<union> targets ix"
    using next_hops_targets [of H ts ix i] by (auto simp: image_image)
  with 5 have "(fst ` set ?new \<union> targets ix) - insert i (set (w_visited w))
      \<subset> (fst ` set ((i, depth) # stack) \<union> targets ix) - set (w_visited w)" by auto
  then show ?case by (simp add: finite_psubset_def)
qed

declare walk_loop.simps(2) [simp del]

definition flow_has_gap :: "trace_index \<Rightarrow> hop list \<Rightarrow> bool" where
  "flow_has_gap ix hops = list_ex (\<lambda>h. h_confidence h = ''Gap'' \<or> is_gap_node ix (h_dst h)) hops"

definition status_of :: "trace_index \<Rightarrow> hop list \<Rightarrow> bool \<Rightarrow> flow_status" where
  "status_of ix hops depth_limited =
     (if flow_has_gap ix hops \<or> hops = [] \<or> depth_limited then Partial
      else if hops \<noteq> [] \<and> list_all (\<lambda>h. h_confidence h = ''Confirmed'') hops then Verified
      else Inferred)"

definition score_of :: "hop list \<Rightarrow> rat" where
  "score_of hops =
     (if hops = [] then 0 else sum_list (map (\<lambda>h. hop_weight (h_confidence h)) hops) / of_nat (length hops))"

definition trace_one :: "(string \<Rightarrow> string) \<Rightarrow> (json \<Rightarrow> string) \<Rightarrow> trace_index \<Rightarrow> node \<Rightarrow> flow" where
  "trace_one H ts ix trigger =
     (let w = walk_loop H ts ix [(n_id trigger, 0)]
                \<lparr>w_hops = [], w_seen = [], w_visited = [], w_depth_limited = False\<rparr>
      in \<lparr>fl_trigger = n_id trigger, fl_trigger_kind = n_label trigger, fl_trigger_name = display_name trigger,
          fl_hops = w_hops w, fl_status = status_of ix (w_hops w) (w_depth_limited w),
          fl_score = score_of (w_hops w), fl_depth_limited = w_depth_limited w\<rparr>)"

section \<open>Every flow of a slice\<close>

text \<open>\<^verbatim>\<open>Vec::dedup_by\<close> on a key: of a run of equal keys the first element stays.\<close>

fun dedup_key :: "('a \<Rightarrow> 'b) \<Rightarrow> 'a list \<Rightarrow> 'a list" where
  "dedup_key f (x # y # xs) =
     (if f y = f x then dedup_key f (x # xs) else x # dedup_key f (y # xs))"
| "dedup_key f xs = xs"

definition is_anchor :: "node \<Rightarrow> bool" where
  "is_anchor n \<longleftrightarrow> n_label n \<in> {''Screen'', ''ExtensionContext'', ''Command''}"

definition covered_endpoints :: "flow list \<Rightarrow> string list" where
  "covered_endpoints flows =
     map h_dst (filter (\<lambda>h. h_label h = ''FETCHES'') (concat (map fl_hops flows)))"

definition rest_triggers :: "trace_index \<Rightarrow> node list \<Rightarrow> string list \<Rightarrow> node list" where
  "rest_triggers ix nodes covered =
     dedup_key n_id (sort_key n_id
       (filter (\<lambda>n. n_label n = ''Endpoint'' \<and> n_id n \<notin> set covered) nodes @
        filter (\<lambda>n. n_label n = ''Channel'' \<and> n_id n \<notin> set (published_to ix) \<and>
                    om_get (chan_consumers ix) (n_id n) \<noteq> None) nodes))"

definition trace :: "(string \<Rightarrow> string) \<Rightarrow> (json \<Rightarrow> string) \<Rightarrow> node list \<Rightarrow> edge list \<Rightarrow> flow list" where
  "trace H ts nodes edges =
     (let ix = build_index nodes edges;
          flows = map (trace_one H ts ix) (sort_key n_id (filter is_anchor nodes));
          rest = rest_triggers ix nodes (covered_endpoints flows)
      in sort_key fl_trigger (flows @ map (trace_one H ts ix) rest))"

record anchor_probe =
  ap_kind :: string
  ap_found :: nat

definition anchor_probes :: "node list \<Rightarrow> edge list \<Rightarrow> anchor_probe list" where
  "anchor_probes nodes edges =
     (let published = map e_dst (filter (\<lambda>e. e_label e = ''PUBLISHES'') edges);
          consumed = map e_dst (filter (\<lambda>e. e_label e = ''SUBSCRIBES'') edges);
          count = (\<lambda>label. length (filter (\<lambda>n. n_label n = label) nodes));
          external = length (filter (\<lambda>n. n_label n = ''Channel'' \<and> n_id n \<in> set consumed \<and>
                                         n_id n \<notin> set published) nodes)
      in [\<lparr>ap_kind = ''screens (routes/pages)'', ap_found = count ''Screen''\<rparr>,
          \<lparr>ap_kind = ''extension contexts (popup, background, content scripts)'',
           ap_found = count ''ExtensionContext''\<rparr>,
          \<lparr>ap_kind = ''extension commands (keyboard shortcuts)'', ap_found = count ''Command''\<rparr>,
          \<lparr>ap_kind = ''HTTP endpoints'', ap_found = count ''Endpoint''\<rparr>,
          \<lparr>ap_kind = ''externally published event channels'', ap_found = external\<rparr>])"

end
