(* ===== verification/Flow_Trace_Props.thy ===== *)
theory Flow_Trace_Props
  imports Flow_Trace
begin

text \<open>
  Correctness of the flow tracer against a declarative reading of the slice: \<open>flow_step\<close> says which
  edge leads from where to where, \<open>flow_reach\<close> what a trigger reaches without passing a Gap. The
  walk invariant \<open>walk_inv\<close> is kept by every iteration of the loop; the adjacency lemmas tie the
  buckets to the edges of the slice.
\<close>

section \<open>What the adjacency holds\<close>

lemma om_get_map_values: "om_get (map (\<lambda>(k, v). (k, f v)) m) k = map_option f (om_get m k)"
  by (induction m) auto

lemma bucket_sort [simp]: "bucket (sort_buckets f m) k = sort_key f (bucket m k)"
  by (simp add: bucket_def sort_buckets_def om_get_map_values split: option.split)

lemma has_sorted_bucket [simp]: "om_get (sort_buckets f m) k \<noteq> None \<longleftrightarrow> om_get m k \<noteq> None"
  by (simp add: sort_buckets_def om_get_map_values)

definition walks_forward :: "(string, node) omap \<Rightarrow> edge \<Rightarrow> bool" where
  "walks_forward ids e \<longleftrightarrow>
     e_label e \<in> set forward_labels \<or> (e_label e = ''DEPENDS_ON'' \<and> owns_execution_gap e ids)"

lemma forward_label_distinct [simp]:
  "''SUBSCRIBES'' \<notin> set forward_labels" "''DEFINED_IN'' \<notin> set forward_labels"
  "''DEPENDS_ON'' \<notin> set forward_labels" "''PUBLISHES'' \<in> set forward_labels"
  by (simp_all add: forward_labels_def)

lemma index_edges_by_id [simp]: "by_id (fold index_edge es ix) = by_id ix"
  by (induction es arbitrary: ix) (simp_all add: index_edge_def)

lemma index_edges_out:
  "bucket (out_edges (fold index_edge es ix)) i =
     bucket (out_edges ix) i @ filter (\<lambda>e. e_src e = i \<and> walks_forward (by_id ix) e) es"
proof (induction es arbitrary: ix)
  case (Cons e es)
  show ?case
    unfolding fold_simps comp_def by (subst Cons.IH) (auto simp: index_edge_def bucket_push walks_forward_def)
qed simp

lemma index_edges_chan:
  "bucket (chan_consumers (fold index_edge es ix)) i =
     bucket (chan_consumers ix) i @ filter (\<lambda>e. e_dst e = i \<and> e_label e = ''SUBSCRIBES'') es"
proof (induction es arbitrary: ix)
  case (Cons e es)
  show ?case
    unfolding fold_simps comp_def by (subst Cons.IH) (auto simp: index_edge_def bucket_push)
qed simp

lemma index_edges_file:
  "bucket (file_symbols (fold index_edge es ix)) i =
     bucket (file_symbols ix) i @ filter (\<lambda>e. e_dst e = i \<and> e_label e = ''DEFINED_IN'') es"
proof (induction es arbitrary: ix)
  case (Cons e es)
  show ?case
    unfolding fold_simps comp_def by (subst Cons.IH) (auto simp: index_edge_def bucket_push)
qed simp

lemma build_index_by_id [simp]: "by_id (build_index nodes edges) = index_nodes nodes"
  by (simp add: build_index_def Let_def)

lemma build_index_buckets:
  "set (bucket (out_edges (build_index nodes edges)) i) =
     {e \<in> set edges. e_src e = i \<and> walks_forward (index_nodes nodes) e}"
  "set (bucket (chan_consumers (build_index nodes edges)) i) =
     {e \<in> set edges. e_dst e = i \<and> e_label e = ''SUBSCRIBES''}"
  "set (bucket (file_symbols (build_index nodes edges)) i) =
     {e \<in> set edges. e_dst e = i \<and> e_label e = ''DEFINED_IN''}"
  by (auto simp: build_index_def Let_def index_edges_out index_edges_chan index_edges_file)

section \<open>The declarative reading\<close>

definition flow_step :: "node list \<Rightarrow> edge list \<Rightarrow> string \<Rightarrow> edge \<Rightarrow> string \<Rightarrow> bool" where
  "flow_step nodes edges i e j \<longleftrightarrow>
     e \<in> set edges \<and>
     (walks_forward (index_nodes nodes) e \<and> i = e_src e \<and> j = e_dst e \<or>
      e_label e \<in> {''SUBSCRIBES'', ''DEFINED_IN''} \<and> i = e_dst e \<and> j = e_src e)"

definition gap_id :: "node list \<Rightarrow> string \<Rightarrow> bool" where
  "gap_id nodes i = (case om_get (index_nodes nodes) i of None \<Rightarrow> False | Some n \<Rightarrow> n_label n = ''Gap'')"

lemma is_gap_node_build [simp]: "is_gap_node (build_index nodes edges) i = gap_id nodes i"
  by (simp add: is_gap_node_def gap_id_def)

inductive flow_reach :: "node list \<Rightarrow> edge list \<Rightarrow> string \<Rightarrow> string \<Rightarrow> bool"
  for nodes edges t where
  start: "flow_reach nodes edges t t"
| step: "flow_reach nodes edges t i \<Longrightarrow> \<not> gap_id nodes i \<Longrightarrow> flow_step nodes edges i e j
           \<Longrightarrow> flow_reach nodes edges t j"

lemma next_hops_iff:
  "h \<in> set (next_hops H ts (build_index nodes edges) i) \<longleftrightarrow>
     (\<exists>e j. flow_step nodes edges i e j \<and> h = make_hop H ts (build_index nodes edges) e i j)"
  by (auto simp: next_hops_def build_index_buckets flow_step_def walks_forward_def)

lemma no_continuation:
  "\<not> has_continuation ix i \<Longrightarrow> next_hops H ts ix i = []"
  by (simp add: has_continuation_def next_hops_def bucket_def)

section \<open>The walk invariant\<close>

lemma record_hops_seen:
  "set (w_seen (fold record_hop hs w)) = hop_key ` set hs \<union> set (w_seen w)"
  by (induction hs arbitrary: w) (auto simp: record_hop_def)

lemma record_hops_hops:
  "set (w_hops (fold record_hop hs w)) \<subseteq> set hs \<union> set (w_hops w)"
proof (induction hs arbitrary: w)
  case (Cons h hs)
  show ?case using Cons.IH [of "record_hop h w"] by (auto simp: record_hop_def split: if_splits)
qed simp

definition keys_agree :: "walk \<Rightarrow> bool" where
  "keys_agree w \<longleftrightarrow> set (w_seen w) = hop_key ` set (w_hops w) \<and> distinct (map hop_key (w_hops w))"

lemma record_hops_keys: "keys_agree w \<Longrightarrow> keys_agree (fold record_hop hs w)"
proof (induction hs arbitrary: w)
  case (Cons h hs)
  from Cons.prems have "keys_agree (record_hop h w)"
    by (auto simp: keys_agree_def record_hop_def)
  then show ?case by (simp add: Cons.IH)
qed simp

text \<open>
  \<open>walk_sound\<close>: whatever is stacked, visited or recorded was reached. \<open>walk_closed\<close>: what a visited
  node leads to is recorded, and its target is visited, still stacked, a dead end, or cut by the
  bound. \<open>walk_shallow\<close>: a stacked depth never exceeds the number of visited nodes.
\<close>

definition walk_sound ::
  "(string \<Rightarrow> string) \<Rightarrow> (json \<Rightarrow> string) \<Rightarrow> node list \<Rightarrow> edge list \<Rightarrow> string \<Rightarrow> (string \<times> nat) list \<Rightarrow> walk \<Rightarrow> bool" where
  "walk_sound H ts nodes edges t stack w \<longleftrightarrow>
     (\<forall>i \<in> fst ` set stack \<union> set (w_visited w). flow_reach nodes edges t i) \<and>
     (\<forall>h \<in> set (w_hops w). \<exists>i e j. flow_reach nodes edges t i \<and> \<not> gap_id nodes i \<and>
        flow_step nodes edges i e j \<and> h = make_hop H ts (build_index nodes edges) e i j)"

definition walk_closed ::
  "(string \<Rightarrow> string) \<Rightarrow> (json \<Rightarrow> string) \<Rightarrow> trace_index \<Rightarrow> string \<Rightarrow> (string \<times> nat) list \<Rightarrow> walk \<Rightarrow> bool" where
  "walk_closed H ts ix t stack w \<longleftrightarrow>
     (let ok = (\<lambda>j. j \<in> set (w_visited w) \<or> j \<in> fst ` set stack \<or> next_hops H ts ix j = [] \<or> w_depth_limited w)
      in ok t \<and> (\<forall>i \<in> set (w_visited w). \<not> is_gap_node ix i \<longrightarrow>
           (\<forall>h \<in> set (next_hops H ts ix i). hop_key h \<in> set (w_seen w) \<and> ok (h_dst h))))"

definition walk_shallow ::
  "node list \<Rightarrow> edge list \<Rightarrow> string \<Rightarrow> (string \<times> nat) list \<Rightarrow> walk \<Rightarrow> bool" where
  "walk_shallow nodes edges t stack w \<longleftrightarrow>
     distinct (w_visited w) \<and> (\<forall>(i, d) \<in> set stack. d \<le> length (w_visited w)) \<and>
     (w_depth_limited w \<longrightarrow> MAX_DEPTH \<le> card {i. flow_reach nodes edges t i})"

lemma finite_flow_reach: "finite {i. flow_reach nodes edges t i}"
proof (rule finite_subset)
  show "{i. flow_reach nodes edges t i} \<subseteq> insert t (e_src ` set edges \<union> e_dst ` set edges)"
  proof
    fix i assume "i \<in> {i. flow_reach nodes edges t i}"
    then have "flow_reach nodes edges t i" by simp
    then show "i \<in> insert t (e_src ` set edges \<union> e_dst ` set edges)"
      by (induction rule: flow_reach.induct) (auto simp: flow_step_def)
  qed
qed auto

lemma visited_card:
  assumes "walk_sound H ts nodes edges t stack w" "distinct (w_visited w)"
  shows "length (w_visited w) \<le> card {i. flow_reach nodes edges t i}"
proof -
  have "set (w_visited w) \<subseteq> {i. flow_reach nodes edges t i}"
    using assms(1) by (auto simp: walk_sound_def)
  then show ?thesis
    using card_mono [OF finite_flow_reach] distinct_card [OF assms(2)] by metis
qed

definition walk_inv where
  "walk_inv H ts nodes edges t stack w \<longleftrightarrow>
     walk_sound H ts nodes edges t stack w \<and> keys_agree w \<and>
     walk_closed H ts (build_index nodes edges) t stack w \<and> walk_shallow nodes edges t stack w"

lemma walk_inv_limit:
  assumes "walk_inv H ts nodes edges t ((i, d) # stack) w" "MAX_DEPTH \<le> d"
  shows "walk_inv H ts nodes edges t stack
           (if has_continuation (build_index nodes edges) i then w\<lparr>w_depth_limited := True\<rparr> else w)"
proof -
  have s: "walk_sound H ts nodes edges t ((i, d) # stack) w" and
    c: "walk_closed H ts (build_index nodes edges) t ((i, d) # stack) w" and
    sh: "walk_shallow nodes edges t ((i, d) # stack) w" and k: "keys_agree w"
    using assms(1) by (simp_all add: walk_inv_def)
  have "MAX_DEPTH \<le> card {i. flow_reach nodes edges t i}"
    using visited_card [OF s] sh assms(2) by (auto simp: walk_shallow_def)
  moreover have "next_hops H ts (build_index nodes edges) i = []"
    if "\<not> has_continuation (build_index nodes edges) i"
    using that by (rule no_continuation)
  ultimately show ?thesis
    using s c sh k
    by (auto simp: walk_inv_def walk_sound_def walk_closed_def walk_shallow_def keys_agree_def Let_def)
qed

lemma walk_inv_drop:
  assumes "walk_inv H ts nodes edges t ((i, d) # stack) w" "i \<in> set (w_visited w)"
  shows "walk_inv H ts nodes edges t stack w"
  using assms
  by (auto simp: walk_inv_def walk_sound_def walk_closed_def walk_shallow_def Let_def)

lemma walk_inv_gap:
  assumes "walk_inv H ts nodes edges t ((i, d) # stack) w" "i \<notin> set (w_visited w)" "gap_id nodes i"
  shows "walk_inv H ts nodes edges t stack (w\<lparr>w_visited := i # w_visited w\<rparr>)"
  using assms
  by (auto simp: walk_inv_def walk_sound_def walk_closed_def walk_shallow_def keys_agree_def Let_def)

lemma walk_inv_expand:
  fixes H ts nodes edges i
  defines "ix \<equiv> build_index nodes edges"
  defines "hs \<equiv> next_hops H ts ix i"
  assumes inv: "walk_inv H ts nodes edges t ((i, d) # stack) w"
    and new: "i \<notin> set (w_visited w)" and gap: "\<not> gap_id nodes i"
  shows "walk_inv H ts nodes edges t (map (\<lambda>h. (h_dst h, d + 1)) hs @ stack)
           (fold record_hop hs (w\<lparr>w_visited := i # w_visited w\<rparr>))"
proof -
  let ?w = "w\<lparr>w_visited := i # w_visited w\<rparr>"
  have s: "walk_sound H ts nodes edges t ((i, d) # stack) w" and
    c: "walk_closed H ts ix t ((i, d) # stack) w" and
    sh: "walk_shallow nodes edges t ((i, d) # stack) w" and k: "keys_agree w"
    using inv by (simp_all add: walk_inv_def ix_def)
  have ri: "flow_reach nodes edges t i" using s by (simp add: walk_sound_def)
  have hs: "\<exists>e j. flow_step nodes edges i e j \<and> h = make_hop H ts ix e i j" if "h \<in> set hs" for h
    using that next_hops_iff [of h H ts nodes edges i] by (simp add: hs_def ix_def)
  then have "flow_reach nodes edges t (h_dst h)" if "h \<in> set hs" for h
    using that ri gap by (fastforce intro: flow_reach.step)
  then have "walk_sound H ts nodes edges t (map (\<lambda>h. (h_dst h, d + 1)) hs @ stack) (fold record_hop hs ?w)"
    using s ri gap hs record_hops_hops [of hs ?w] unfolding walk_sound_def ix_def
    by (simp add: ball_Un image_Un image_image) blast
  moreover have "keys_agree (fold record_hop hs ?w)"
    using k by (intro record_hops_keys) (simp add: keys_agree_def)
  moreover have "walk_closed H ts ix t (map (\<lambda>h. (h_dst h, d + 1)) hs @ stack) (fold record_hop hs ?w)"
    using c by (auto simp: walk_closed_def Let_def record_hops_seen hs_def [symmetric] image_Un image_image)
  moreover have "walk_shallow nodes edges t (map (\<lambda>h. (h_dst h, d + 1)) hs @ stack) (fold record_hop hs ?w)"
    using sh new by (auto simp: walk_shallow_def)
  ultimately show ?thesis by (simp add: walk_inv_def ix_def)
qed

lemma walk_loop_inv:
  "walk_inv H ts nodes edges t stack w \<Longrightarrow>
     walk_inv H ts nodes edges t [] (walk_loop H ts (build_index nodes edges) stack w)"
proof (induction H ts "build_index nodes edges" stack w rule: walk_loop.induct)
  case (1 H ts w)
  then show ?case by simp
next
  case (2 H ts i d stack w)
  consider "MAX_DEPTH \<le> d" | "d < MAX_DEPTH" "i \<in> set (w_visited w)"
    | "d < MAX_DEPTH" "i \<notin> set (w_visited w)" "gap_id nodes i"
    | "d < MAX_DEPTH" "i \<notin> set (w_visited w)" "\<not> gap_id nodes i" by linarith
  then show ?case
  proof cases
    case 1
    then show ?thesis
      using 2(1) [OF 1] walk_inv_limit [OF 2(5) 1] by (simp add: walk_loop.simps(2))
  next
    case 2
    then show ?thesis
      using "2.hyps"(2) walk_inv_drop [OF "2.prems" 2(2)] by (simp add: walk_loop.simps(2) not_le)
  next
    case 3
    then show ?thesis
      using "2.hyps"(3) walk_inv_gap [OF "2.prems" 3(2,3)] by (simp add: walk_loop.simps(2) not_le)
  next
    case 4
    then show ?thesis
      using "2.hyps"(4) walk_inv_expand [OF "2.prems" 4(2,3)] by (simp add: walk_loop.simps(2) not_le)
  qed
qed

lemma walk_result:
  fixes H ts nodes edges n
  defines "f \<equiv> trace_one H ts (build_index nodes edges) n"
  defines "R \<equiv> flow_reach nodes edges (n_id n)"
  shows hop_sound: "h \<in> set (fl_hops f) \<Longrightarrow>
      \<exists>i e j. R i \<and> \<not> gap_id nodes i \<and> flow_step nodes edges i e j \<and>
        h = make_hop H ts (build_index nodes edges) e i j"
    and hop_complete: "\<not> fl_depth_limited f \<Longrightarrow> R i \<Longrightarrow> \<not> gap_id nodes i \<Longrightarrow>
      flow_step nodes edges i e j \<Longrightarrow> (e_label e, i, j) \<in> hop_key ` set (fl_hops f)"
    and hop_distinct: "distinct (map hop_key (fl_hops f))"
    and limited_large: "fl_depth_limited f \<Longrightarrow> MAX_DEPTH \<le> card {i. R i}"
proof -
  let ?ix = "build_index nodes edges"
  define w where "w = walk_loop H ts ?ix [(n_id n, 0)]
    \<lparr>w_hops = [], w_seen = [], w_visited = [], w_depth_limited = False\<rparr>"
  have f: "fl_hops f = w_hops w" "fl_depth_limited f = w_depth_limited w"
    by (simp_all add: f_def trace_one_def w_def Let_def)
  have "walk_inv H ts nodes edges (n_id n) [] w"
    unfolding w_def
    by (rule walk_loop_inv)
      (simp add: walk_inv_def walk_sound_def walk_closed_def walk_shallow_def keys_agree_def flow_reach.start)
  then have s: "walk_sound H ts nodes edges (n_id n) [] w" and k: "keys_agree w" and
    c: "walk_closed H ts ?ix (n_id n) [] w" and sh: "walk_shallow nodes edges (n_id n) [] w"
    by (simp_all add: walk_inv_def)
  show "h \<in> set (fl_hops f) \<Longrightarrow> \<exists>i e j. R i \<and> \<not> gap_id nodes i \<and> flow_step nodes edges i e j \<and>
        h = make_hop H ts ?ix e i j"
    using s by (simp add: f walk_sound_def R_def)
  show "distinct (map hop_key (fl_hops f))" using k by (simp add: f keys_agree_def)
  show "fl_depth_limited f \<Longrightarrow> MAX_DEPTH \<le> card {i. R i}"
    using sh by (simp add: f walk_shallow_def R_def)
  assume nl: "\<not> fl_depth_limited f" and i: "R i" "\<not> gap_id nodes i" "flow_step nodes edges i e j"
  have "i \<in> set (w_visited w) \<or> next_hops H ts ?ix i = []"
    using i(1) unfolding R_def
  proof (induction rule: flow_reach.induct)
    case start
    then show ?case using c nl by (auto simp: walk_closed_def Let_def f)
  next
    case (step a e b)
    let ?h = "make_hop H ts ?ix e a b"
    have h: "?h \<in> set (next_hops H ts ?ix a)" using step.hyps(3) next_hops_iff by blast
    then have "next_hops H ts ?ix a \<noteq> []" by auto
    with step have "a \<in> set (w_visited w)" by simp
    with h step.hyps c nl have "h_dst ?h \<in> set (w_visited w) \<or> next_hops H ts ?ix (h_dst ?h) = []"
      unfolding walk_closed_def Let_def f by (metis empty_iff empty_set image_empty is_gap_node_build)
    then show ?case by simp
  qed
  moreover have h: "make_hop H ts ?ix e i j \<in> set (next_hops H ts ?ix i)"
    using i(3) next_hops_iff by blast
  ultimately have "i \<in> set (w_visited w)" by auto
  with h i c have "hop_key (make_hop H ts ?ix e i j) \<in> set (w_seen w)"
    unfolding walk_closed_def Let_def by (metis is_gap_node_build)
  then show "(e_label e, i, j) \<in> hop_key ` set (fl_hops f)"
    using k by (simp add: keys_agree_def f hop_key_def)
qed

text \<open>
  C10: the hops of a flow are exactly the walk of the slice. Every recorded hop is an edge of the
  slice walked in its direction, from a node the trigger reaches without passing a Gap, and carries
  that edge's validated provenance; no hop is recorded twice; and unless the flow is flagged as cut
  by the depth bound, every edge that can be walked from a reached node that is not a Gap is recorded.
\<close>

theorem trace_one_exact:
  "let f = trace_one H ts (build_index nodes edges) n; reach = flow_reach nodes edges (n_id n) in
     (\<forall>h \<in> set (fl_hops f). \<exists>e. reach (h_src h) \<and> \<not> gap_id nodes (h_src h) \<and>
        flow_step nodes edges (h_src h) e (h_dst h) \<and> h_label h = e_label e \<and>
        h_prov h = edge_provenance H ts e) \<and>
     distinct (map hop_key (fl_hops f)) \<and>
     (\<not> fl_depth_limited f \<longrightarrow>
        (\<forall>i e j. reach i \<and> \<not> gap_id nodes i \<and> flow_step nodes edges i e j \<longrightarrow>
           (e_label e, i, j) \<in> hop_key ` set (fl_hops f)))"
  unfolding Let_def
proof (intro conjI impI allI ballI)
  fix h assume "h \<in> set (fl_hops (trace_one H ts (build_index nodes edges) n))"
  from hop_sound [OF this]
  show "\<exists>e. flow_reach nodes edges (n_id n) (h_src h) \<and> \<not> gap_id nodes (h_src h) \<and>
        flow_step nodes edges (h_src h) e (h_dst h) \<and> h_label h = e_label e \<and>
        h_prov h = edge_provenance H ts e" by auto
qed (auto intro: hop_distinct hop_complete)

definition demo_screen :: node where
  "demo_screen = \<lparr>n_id = ''s'', n_label = ''Screen'', n_props = JObj []\<rparr>"

definition demo_component :: node where
  "demo_component = \<lparr>n_id = ''c'', n_label = ''Component'', n_props = JObj []\<rparr>"

definition demo_renders :: edge where
  "demo_renders = \<lparr>e_src = ''s'', e_dst = ''c'', e_label = ''RENDERS'',
     e_props = JObj [(''prov'', prov_to_value (t0_prov (\<lambda>x. x) Confirmed [] ''x'' ''f''))]\<rparr>"

lemmas demo_flow_defs = demo_screen_def demo_component_def demo_renders_def

lemma demo_index:
  "build_index [demo_screen, demo_component] [demo_renders] =
     \<lparr>by_id = [(''c'', demo_component), (''s'', demo_screen)], out_edges = [(''s'', [demo_renders])],
      chan_consumers = [], file_symbols = [], published_to = []\<rparr>"
  by (simp add: build_index_def index_nodes_def index_edge_def demo_flow_defs forward_labels_def
      push_bucket_def bucket_def sort_buckets_def)

lemma demo_trace:
  "fl_hops (trace_one H ts (build_index [demo_screen, demo_component] [demo_renders]) demo_screen) =
     [make_hop H ts (build_index [demo_screen, demo_component] [demo_renders]) demo_renders ''s'' ''c'']"
  "\<not> fl_depth_limited (trace_one H ts (build_index [demo_screen, demo_component] [demo_renders]) demo_screen)"
  unfolding trace_one_def demo_index Let_def
  by (simp_all add: walk_loop.simps MAX_DEPTH_def is_gap_node_def next_hops_def bucket_def
      demo_flow_defs record_hop_def)

theorem trace_one_exact_witness:
  "\<not> fl_depth_limited (trace_one (\<lambda>x. x) (\<lambda>_. []) (build_index [demo_screen, demo_component] [demo_renders]) demo_screen) \<and>
   (''RENDERS'', ''s'', ''c'') \<in>
     hop_key ` set (fl_hops (trace_one (\<lambda>x. x) (\<lambda>_. []) (build_index [demo_screen, demo_component] [demo_renders]) demo_screen))"
proof -
  have "flow_step [demo_screen, demo_component] [demo_renders] ''s'' demo_renders ''c''"
    by (simp add: flow_step_def walks_forward_def forward_labels_def demo_renders_def)
  moreover have "\<not> gap_id [demo_screen, demo_component] ''s''"
    by (simp add: gap_id_def index_nodes_def demo_flow_defs)
  moreover have "flow_reach [demo_screen, demo_component] [demo_renders] (n_id demo_screen) ''s''"
    using flow_reach.start [of _ _ "n_id demo_screen"] by (simp add: demo_screen_def)
  moreover have "e_label demo_renders = ''RENDERS''" by (simp add: demo_renders_def)
  ultimately show ?thesis
    using trace_one_exact [of "\<lambda>x. x" "\<lambda>_. []" "[demo_screen, demo_component]" "[demo_renders]" demo_screen] demo_trace(2)
    unfolding Let_def by metis
qed

section \<open>Status and score\<close>

lemma confidence_name_eq [simp]:
  "confidence_name c = ''Confirmed'' \<longleftrightarrow> c = Confirmed"
  "confidence_name c = ''Gap'' \<longleftrightarrow> c = Gap"
  by (cases c; simp add: confidence_name_def)+

lemma flow_step_key_unique:
  assumes "distinct (map e_key edges)" "flow_step nodes edges i e j" "flow_step nodes edges i e' j"
    "e_label e = e_label e'"
  shows "e = e'"
proof -
  have "e \<in> set edges" "e' \<in> set edges" "e_key e = e_key e'"
    using assms(2-4) by (auto simp: flow_step_def e_key_def walks_forward_def)
  with assms(1) show ?thesis by (auto simp: distinct_map inj_on_def)
qed

lemma hops_of_steps:
  fixes H ts nodes edges n
  defines "f \<equiv> trace_one H ts (build_index nodes edges) n"
  assumes keys: "distinct (map e_key edges)" and complete: "\<not> fl_depth_limited f"
  shows "set (fl_hops f) = {make_hop H ts (build_index nodes edges) e i j | i e j.
           flow_reach nodes edges (n_id n) i \<and> \<not> gap_id nodes i \<and> flow_step nodes edges i e j}"
    (is "_ = ?S")
proof (intro set_eqI iffI)
  fix h assume "h \<in> set (fl_hops f)"
  then show "h \<in> ?S" unfolding f_def by (auto dest!: hop_sound)
next
  fix h assume "h \<in> ?S"
  then obtain i e j where h: "h = make_hop H ts (build_index nodes edges) e i j"
    and st: "flow_reach nodes edges (n_id n) i" "\<not> gap_id nodes i" "flow_step nodes edges i e j" by auto
  obtain h' where h': "h' \<in> set (fl_hops f)" "hop_key h' = (e_label e, i, j)"
    using hop_complete [OF complete [unfolded f_def] st] unfolding f_def by force
  moreover from hop_sound [OF h'(1) [unfolded f_def]] obtain i' e' j' where
    "flow_step nodes edges i' e' j'" "h' = make_hop H ts (build_index nodes edges) e' i' j'" by auto
  ultimately have "h' = h"
    using h st(3) flow_step_key_unique [OF keys, of nodes i e j e'] by (auto simp: hop_key_def)
  with h'(1) show "h \<in> set (fl_hops f)" by simp
qed

lemma setcompr_image_key:
  assumes "\<And>i e j. f (g e i j) = k e i j"
  shows "f ` {g e i j | i e j. S i e j} = {k e i j | i e j. S i e j}"
  using assms by (auto simp: image_iff) metis+

text \<open>What a flow that was not flagged recorded of one step, and what it recorded reaches.\<close>

lemma step_recorded:
  fixes H ts nodes edges n
  defines "f \<equiv> trace_one H ts (build_index nodes edges) n"
  assumes complete: "\<not> fl_depth_limited f"
    and st: "flow_reach nodes edges (n_id n) i" "\<not> gap_id nodes i" "flow_step nodes edges i e j"
  shows "\<exists>h \<in> set (fl_hops f). hop_key h = (e_label e, i, j) \<and>
    (distinct (map e_key edges) \<longrightarrow> h_prov h = edge_provenance H ts e \<and>
       h_confidence h = confidence_name (p_confidence (edge_provenance H ts e)))"
proof (cases "distinct (map e_key edges)")
  case True
  have "make_hop H ts (build_index nodes edges) e i j \<in> set (fl_hops f)"
    using hops_of_steps [OF True complete [unfolded f_def]] st unfolding f_def by blast
  then show ?thesis by (rule rev_bexI) (simp add: hop_key_def)
next
  case False
  with hop_complete [OF complete [unfolded f_def] st] show ?thesis unfolding f_def by force
qed

lemma recorded_reached:
  assumes "i = n_id n \<or> i \<in> h_dst ` set (fl_hops (trace_one H ts (build_index nodes edges) n))"
  shows "flow_reach nodes edges (n_id n) i"
  using assms
proof
  assume "i \<in> h_dst ` set (fl_hops (trace_one H ts (build_index nodes edges) n))"
  then obtain h where "h \<in> set (fl_hops (trace_one H ts (build_index nodes edges) n))" "i = h_dst h" by blast
  with hop_sound [OF this(1)] show ?thesis by (auto intro: flow_reach.step)
qed (simp add: flow_reach.start)

text \<open>
  C11: what the status of a flow means, on a slice whose edges have distinct keys (as the store's
  have). A flow is Verified exactly when the tracer did not flag it depth limited, at least one
  edge can be walked from the trigger, and every edge that can be walked from what the trigger
  reaches is Confirmed with provenance that validates and ends at a node that is not a Gap. The
  hops of a Verified flow are all of those edges, so it hides no Gap, no inferred hop and no cut
  continuation; and the flag is never set when fewer than 64 nodes are reached (on a larger reach
  it may be set although nothing was cut).
\<close>

theorem verified_flow_iff:
  assumes "distinct (map e_key edges)"
  shows "(fl_status (trace_one H ts (build_index nodes edges) n) = Verified \<longleftrightarrow>
     \<not> fl_depth_limited (trace_one H ts (build_index nodes edges) n) \<and>
     (\<exists>i e j. flow_reach nodes edges (n_id n) i \<and> \<not> gap_id nodes i \<and> flow_step nodes edges i e j) \<and>
     (\<forall>i e j. flow_reach nodes edges (n_id n) i \<and> \<not> gap_id nodes i \<and> flow_step nodes edges i e j \<longrightarrow>
        p_confidence (edge_provenance H ts e) = Confirmed \<and> \<not> gap_id nodes j)) \<and>
   (fl_status (trace_one H ts (build_index nodes edges) n) = Verified \<longrightarrow>
     hop_key ` set (fl_hops (trace_one H ts (build_index nodes edges) n)) =
       {(e_label e, i, j) | i e j. flow_reach nodes edges (n_id n) i \<and> \<not> gap_id nodes i \<and>
          flow_step nodes edges i e j}) \<and>
   (card {i. flow_reach nodes edges (n_id n) i} < 64 \<longrightarrow>
     \<not> fl_depth_limited (trace_one H ts (build_index nodes edges) n))"
proof (cases "fl_depth_limited (trace_one H ts (build_index nodes edges) n)")
  case True
  then show ?thesis
    using limited_large [of H ts nodes edges n]
    by (auto simp: trace_one_def Let_def status_of_def MAX_DEPTH_def)
next
  case False
  let ?f = "trace_one H ts (build_index nodes edges) n"
  let ?S = "\<lambda>i e j. flow_reach nodes edges (n_id n) i \<and> \<not> gap_id nodes i \<and> flow_step nodes edges i e j"
  have hops: "set (fl_hops ?f) = {make_hop H ts (build_index nodes edges) e i j | i e j. ?S i e j}"
    by (rule hops_of_steps [OF assms False])
  have key: "hop_key (make_hop H ts (build_index nodes edges) e i j) = (e_label e, i, j)" for i e j
    by (simp add: hop_key_def)
  have keys: "hop_key ` set (fl_hops ?f) = {(e_label e, i, j) | i e j. ?S i e j}"
    unfolding hops by (rule setcompr_image_key) (rule key)
  have "fl_status ?f = status_of (build_index nodes edges) (fl_hops ?f) False"
    using False by (simp add: trace_one_def Let_def)
  then have "fl_status ?f = Verified \<longleftrightarrow> set (fl_hops ?f) \<noteq> {} \<and>
      (\<forall>h \<in> set (fl_hops ?f). h_confidence h = ''Confirmed'' \<and> \<not> gap_id nodes (h_dst h))"
    by (auto simp: status_of_def flow_has_gap_def list_all_iff list_ex_iff)
  also have "\<dots> \<longleftrightarrow> (\<exists>i e j. ?S i e j) \<and>
      (\<forall>i e j. ?S i e j \<longrightarrow> p_confidence (edge_provenance H ts e) = Confirmed \<and> \<not> gap_id nodes j)"
    unfolding hops by fastforce
  finally show ?thesis using False keys by simp
qed

lemma demo_confirmed: "p_confidence (edge_provenance H ts demo_renders) = Confirmed"
  by (simp add: edge_provenance_def demo_renders_def jidx_def)

theorem verified_flow_iff_witness:
  "distinct (map e_key [demo_renders]) \<and>
   fl_status (trace_one (\<lambda>x. x) (\<lambda>_. []) (build_index [demo_screen, demo_component] [demo_renders]) demo_screen) = Verified"
proof
  show "distinct (map e_key [demo_renders])" by simp
  have step: "flow_step [demo_screen, demo_component] [demo_renders] i e j \<longleftrightarrow> i = ''s'' \<and> e = demo_renders \<and> j = ''c''" for i e j
    by (auto simp: flow_step_def walks_forward_def forward_labels_def demo_renders_def)
  have "flow_reach [demo_screen, demo_component] [demo_renders] (n_id demo_screen) ''s''"
    using flow_reach.start [of _ _ "n_id demo_screen"] by (simp add: demo_screen_def)
  moreover have "\<not> gap_id [demo_screen, demo_component] ''s''" "\<not> gap_id [demo_screen, demo_component] ''c''"
    by (simp_all add: gap_id_def index_nodes_def demo_flow_defs)
  ultimately show "fl_status (trace_one (\<lambda>x. x) (\<lambda>_. []) (build_index [demo_screen, demo_component] [demo_renders]) demo_screen) = Verified"
    using verified_flow_iff [of "[demo_renders]" "\<lambda>x. x" "\<lambda>_. []" "[demo_screen, demo_component]" demo_screen]
      demo_trace(2) step demo_confirmed by auto
qed

text \<open>
  The depth bound is only felt on large reaches. When fewer than 64 nodes can be reached from
  the trigger, whatever the cycles among them, the flow is not depth limited and its hops are the
  complete walk.
\<close>

theorem small_reach_is_complete:
  assumes "card {i. flow_reach nodes edges (n_id n) i} < 64"
  shows "\<not> fl_depth_limited (trace_one H ts (build_index nodes edges) n) \<and>
     (\<forall>i e j. flow_reach nodes edges (n_id n) i \<longrightarrow> \<not> gap_id nodes i \<longrightarrow> flow_step nodes edges i e j \<longrightarrow>
        (e_label e, i, j) \<in> hop_key ` set (fl_hops (trace_one H ts (build_index nodes edges) n)))"
proof -
  have "\<not> fl_depth_limited (trace_one H ts (build_index nodes edges) n)"
    using assms limited_large [of H ts nodes edges n] by (auto simp: MAX_DEPTH_def)
  then show ?thesis using hop_complete by blast
qed

definition demo_loop :: edge where
  "demo_loop = \<lparr>e_src = ''c'', e_dst = ''c'', e_label = ''CALLS'', e_props = JNull\<rparr>"

theorem small_reach_is_complete_witness:
  "card {i. flow_reach [demo_component] [demo_loop] (n_id demo_component) i} < 64 \<and>
   \<not> fl_depth_limited (trace_one (\<lambda>x. x) (\<lambda>_. []) (build_index [demo_component] [demo_loop]) demo_component)"
proof -
  have "flow_reach [demo_component] [demo_loop] ''c'' i \<Longrightarrow> i = ''c''" for i
    by (induction rule: flow_reach.induct) (auto simp: flow_step_def demo_loop_def)
  then have "{i. flow_reach [demo_component] [demo_loop] (n_id demo_component) i} \<subseteq> {''c''}"
    by (auto simp: demo_component_def)
  from card_mono [OF _ this]
  have small: "card {i. flow_reach [demo_component] [demo_loop] (n_id demo_component) i} < 64" by simp
  then show ?thesis using small_reach_is_complete [OF small] by blast
qed

lemma hop_weight_bounds: "0 \<le> hop_weight c \<and> hop_weight c \<le> 1"
  by (simp add: hop_weight_def)

lemma hop_weight_one [simp]: "hop_weight c = 1 \<longleftrightarrow> c = ''Confirmed''"
  by (simp add: hop_weight_def)

lemma sum_weights_bounds:
  "0 \<le> sum_list (map (\<lambda>h. hop_weight (h_confidence h)) hs) \<and>
   sum_list (map (\<lambda>h. hop_weight (h_confidence h)) hs) \<le> of_nat (length hs)"
proof (induction hs)
  case (Cons h hs)
  then show ?case using hop_weight_bounds [of "h_confidence h"] by simp
qed simp

lemma sum_weights_full:
  "sum_list (map (\<lambda>h. hop_weight (h_confidence h)) hs) = of_nat (length hs) \<longleftrightarrow>
     list_all (\<lambda>h. h_confidence h = ''Confirmed'') hs"
proof (induction hs)
  case (Cons h hs)
  have "a + s = 1 + l \<longleftrightarrow> a = 1 \<and> s = l" if "a \<le> 1" "s \<le> l" for a s l :: rat
    using that by auto
  then have "hop_weight (h_confidence h) + sum_list (map (\<lambda>h. hop_weight (h_confidence h)) hs) =
      1 + of_nat (length hs) \<longleftrightarrow> hop_weight (h_confidence h) = 1 \<and>
      sum_list (map (\<lambda>h. hop_weight (h_confidence h)) hs) = of_nat (length hs)"
    using hop_weight_bounds sum_weights_bounds by blast
  with Cons.IH show ?case by simp
qed simp

text \<open>
  The score of a flow is a mean weight between 0 and 1, it is 1 exactly when the flow has hops
  and all of them are Confirmed, and a Verified flow always scores 1.
\<close>

theorem flow_score_bounds:
  "let f = trace_one H ts ix n in
     0 \<le> fl_score f \<and> fl_score f \<le> 1 \<and>
     (fl_score f = 1 \<longleftrightarrow> fl_hops f \<noteq> [] \<and> (list_all (\<lambda>h. h_confidence h = ''Confirmed'') (fl_hops f))) \<and>
     (if fl_status f = Verified then fl_score f = 1 else True)"
proof -
  have sc: "0 \<le> score_of hs \<and> score_of hs \<le> 1 \<and>
      (score_of hs = 1 \<longleftrightarrow> hs \<noteq> [] \<and> list_all (\<lambda>h. h_confidence h = ''Confirmed'') hs)" for hs
  proof (cases "hs = []")
    case False
    then have "(0::rat) < of_nat (length hs)" by simp
    with False show ?thesis
      using sum_weights_bounds [of hs] sum_weights_full [of hs]
      by (simp add: score_of_def eq_commute [of "of_nat (length hs)"])
  qed (simp add: score_of_def)
  show ?thesis
    by (simp add: trace_one_def Let_def sc status_of_def)
qed

section \<open>The triggers of a slice\<close>

lemma dedup_key_subset: "set (dedup_key f xs) \<subseteq> set xs"
  by (induction f xs rule: dedup_key.induct) auto

lemma dedup_key_keys [simp]: "f ` set (dedup_key f xs) = f ` set xs"
  by (induction f xs rule: dedup_key.induct) auto

lemma dedup_key_head: "dedup_key f (x # xs) = x # ys \<Longrightarrow> sorted (map f (x # xs)) \<Longrightarrow> \<forall>y \<in> set ys. f x < f y"
  for f :: "'a \<Rightarrow> 'b::linorder"
proof (induction xs arbitrary: ys)
  case (Cons y xs)
  show ?case
  proof (cases "f y = f x")
    case True
    with Cons show ?thesis by simp
  next
    case False
    with Cons.prems have ys: "ys = dedup_key f (y # xs)" "f x < f y" by auto
    moreover have "set ys \<subseteq> set (y # xs)" using ys dedup_key_subset by metis
    ultimately show ?thesis using Cons.prems(2) by fastforce
  qed
qed simp

lemma dedup_key_distinct: "sorted (map f xs) \<Longrightarrow> distinct (map f (dedup_key f xs))"
  for f :: "'a \<Rightarrow> 'b::linorder"
proof (induction f xs rule: dedup_key.induct)
  case (1 f x y xs)
  show ?case
  proof (cases "f y = f x")
    case True
    with 1 show ?thesis by simp
  next
    case False
    with dedup_key_head [of f x "y # xs"] 1 show ?thesis by fastforce
  qed
qed simp_all

lemma distinct_map_sort: "distinct (map f (sort_key g xs)) \<longleftrightarrow> distinct (map f xs)"
  by (simp add: distinct_map)

lemma index_edges_published:
  "set (published_to (fold index_edge es ix)) =
     set (published_to ix) \<union> e_dst ` {e \<in> set es. e_label e = ''PUBLISHES''}"
proof (induction es arbitrary: ix)
  case (Cons e es)
  show ?case
    unfolding fold_simps comp_def by (subst Cons.IH) (auto simp: index_edge_def)
qed simp

lemma index_edges_consumed:
  "om_get (chan_consumers (fold index_edge es ix)) k \<noteq> None \<longleftrightarrow>
     om_get (chan_consumers ix) k \<noteq> None \<or> (\<exists>e \<in> set es. e_label e = ''SUBSCRIBES'' \<and> e_dst e = k)"
proof (induction es arbitrary: ix)
  case (Cons e es)
  show ?case
    unfolding fold_simps comp_def
    by (subst Cons.IH) (auto simp: index_edge_def push_bucket_def simp del: not_None_eq)
qed simp

definition external_channel :: "edge list \<Rightarrow> node \<Rightarrow> bool" where
  "external_channel edges n \<longleftrightarrow> n_label n = ''Channel'' \<and>
     (\<exists>e \<in> set edges. e_label e = ''SUBSCRIBES'' \<and> e_dst e = n_id n) \<and>
     (\<forall>e \<in> set edges. e_label e = ''PUBLISHES'' \<longrightarrow> e_dst e \<noteq> n_id n)"

lemma rest_triggers_ids:
  "n_id ` set (rest_triggers (build_index nodes edges) nodes covered) =
     n_id ` {n \<in> set nodes. n_label n = ''Endpoint'' \<and> n_id n \<notin> set covered \<or> external_channel edges n}"
proof -
  have consumed: "om_get (chan_consumers (build_index nodes edges)) k \<noteq> None \<longleftrightarrow>
      (\<exists>e \<in> set edges. e_label e = ''SUBSCRIBES'' \<and> e_dst e = k)" for k
    by (simp add: build_index_def Let_def index_edges_consumed del: not_None_eq)
  have published: "k \<in> set (published_to (build_index nodes edges)) \<longleftrightarrow>
      (\<exists>e \<in> set edges. e_label e = ''PUBLISHES'' \<and> e_dst e = k)" for k
    by (auto simp: build_index_def Let_def index_edges_published)
  show ?thesis
    unfolding rest_triggers_def dedup_key_keys set_sort set_append set_filter consumed published external_channel_def
    by (rule arg_cong [where f = "image n_id"]) auto
qed

lemma rest_triggers_nodes:
  "n \<in> set (rest_triggers ix nodes covered) \<Longrightarrow> n \<in> set nodes \<and> n_label n \<in> {''Endpoint'', ''Channel''}"
  unfolding rest_triggers_def by (drule subsetD [OF dedup_key_subset]) auto

lemma rest_triggers_distinct: "distinct (map n_id (rest_triggers ix nodes covered))"
  unfolding rest_triggers_def by (rule dedup_key_distinct) simp

lemma fl_trigger_trace_one [simp]: "fl_trigger (trace_one H ts ix n) = n_id n"
  by (simp add: trace_one_def Let_def)

text \<open>
  The flows of a slice cover it. Flows are in trigger order; each is the trace of one node
  of the slice that is an anchor, an endpoint or a channel; every user-action anchor has its
  flow; every endpoint either has its own flow or is fetched on a recorded hop of another; every
  channel that is consumed and that nothing local publishes to has one; and no two flows share a
  trigger when node ids are distinct.
\<close>

theorem trace_covers_slice:
  assumes "distinct (map n_id nodes)"
  shows "let flows = trace H ts nodes edges; ix = build_index nodes edges in
     sorted (map fl_trigger flows) \<and> distinct (map fl_trigger flows) \<and>
     (\<forall>f \<in> set flows. \<exists>n \<in> set nodes. f = trace_one H ts ix n \<and>
        (is_anchor n \<or> n_label n \<in> {''Endpoint'', ''Channel''})) \<and>
     (\<forall>n \<in> set nodes.
        (is_anchor n \<longrightarrow> trace_one H ts ix n \<in> set flows) \<and>
        (n_label n = ''Endpoint'' \<longrightarrow> n_id n \<in> fl_trigger ` set flows \<or>
           (\<exists>f \<in> set flows. \<exists>h \<in> set (fl_hops f). h_label h = ''FETCHES'' \<and> h_dst h = n_id n)) \<and>
        (external_channel edges n \<longrightarrow> n_id n \<in> fl_trigger ` set flows))"
proof -
  let ?ix = "build_index nodes edges"
  define flows where "flows = map (trace_one H ts ?ix) (sort_key n_id (filter is_anchor nodes))"
  define rest where "rest = rest_triggers ?ix nodes (covered_endpoints flows)"
  have tr: "trace H ts nodes edges = sort_key fl_trigger (flows @ map (trace_one H ts ?ix) rest)"
    by (simp add: trace_def Let_def flows_def rest_def)
  have trig: "map fl_trigger (flows @ map (trace_one H ts ?ix) rest) =
      map n_id (sort_key n_id (filter is_anchor nodes) @ rest)"
    by (simp add: flows_def)
  have rest_in: "n \<in> set nodes \<and> n_label n \<in> {''Endpoint'', ''Channel''}" if "n \<in> set rest" for n
    using that unfolding rest_def by (rule rest_triggers_nodes)
  have inj: "inj_on n_id (set nodes)" and dn: "distinct nodes" using assms by (simp_all add: distinct_map)
  have "distinct (map n_id (sort_key n_id (filter is_anchor nodes)))"
    using inj dn by (simp add: distinct_map inj_on_subset)
  moreover have "distinct (map n_id rest)" unfolding rest_def by (rule rest_triggers_distinct)
  moreover have "n_id a \<noteq> n_id r" if "a \<in> set nodes" "is_anchor a" "r \<in> set rest" for a r
  proof
    assume "n_id a = n_id r"
    with that(1) rest_in [OF that(3)] inj have "a = r" by (auto dest: inj_onD)
    with that(2) rest_in [OF that(3)] show False by (auto simp: is_anchor_def)
  qed
  ultimately have "distinct (map n_id (sort_key n_id (filter is_anchor nodes) @ rest))" by auto
  then have "distinct (map fl_trigger (trace H ts nodes edges))"
    unfolding tr distinct_map_sort trig .
  moreover have "sorted (map fl_trigger (trace H ts nodes edges))" unfolding tr by simp
  moreover have "\<forall>f \<in> set (trace H ts nodes edges). \<exists>n \<in> set nodes. f = trace_one H ts ?ix n \<and>
        (is_anchor n \<or> n_label n \<in> {''Endpoint'', ''Channel''})"
    unfolding tr flows_def using rest_in by (auto simp del: insert_iff)
  moreover have "trace_one H ts ?ix n \<in> set (trace H ts nodes edges)" if "n \<in> set nodes" "is_anchor n" for n
    unfolding tr flows_def using that by simp
  moreover have "n_id n \<in> fl_trigger ` set (trace H ts nodes edges)" if "n \<in> set nodes"
    "n_label n = ''Endpoint'' \<and> n_id n \<notin> set (covered_endpoints flows) \<or> external_channel edges n" for n
  proof -
    have "n_id n \<in> n_id ` set rest" using that unfolding rest_def rest_triggers_ids by blast
    then show ?thesis unfolding tr by (simp add: image_Un image_image)
  qed
  moreover have "\<exists>f \<in> set (trace H ts nodes edges). \<exists>h \<in> set (fl_hops f). h_label h = ''FETCHES'' \<and> h_dst h = n_id n"
    if "n_id n \<in> set (covered_endpoints flows)" for n
    using that unfolding tr covered_endpoints_def by auto (metis UnI1)
  ultimately show ?thesis unfolding Let_def by blast
qed

theorem trace_covers_slice_witness:
  "distinct (map n_id [demo_screen, demo_component]) \<and>
   trace_one (\<lambda>x. x) (\<lambda>_. []) (build_index [demo_screen, demo_component] [demo_renders]) demo_screen
     \<in> set (trace (\<lambda>x. x) (\<lambda>_. []) [demo_screen, demo_component] [demo_renders])"
proof -
  have d: "distinct (map n_id [demo_screen, demo_component])" by (simp add: demo_flow_defs)
  moreover have "is_anchor demo_screen" by (simp add: is_anchor_def demo_screen_def)
  ultimately show ?thesis
    using trace_covers_slice [OF d, of "\<lambda>x. x" "\<lambda>_. []" "[demo_renders]"] unfolding Let_def by simp
qed

end
