(* ===== verification/Placeholder.thy ===== *)
theory Placeholder
  imports Graph_Store
begin

text \<open>
  Referential closure (\<^verbatim>\<open>crates/core-graph/src/placeholder.rs\<close>): the boundary an adapter claims
  for an endpoint no declaration defines, the placeholder node minted for it, the reconciliation of
  duplicates a merged extraction holds, and the closure over every endpoint of the edges. The
  adapter's \<^verbatim>\<open>label_of\<close> and \<^verbatim>\<open>classify\<close> are arguments, as in the code. Label lowering is
  spelt for ASCII, which every edge label of the program is.
\<close>

section \<open>Boundaries\<close>

datatype boundary =
    External string "evidence_ref list"
  | Internal string "evidence_ref list"
  | Unresolved string

definition boundary_kind :: "boundary \<Rightarrow> string" where
  "boundary_kind b =
     (case b of External _ _ \<Rightarrow> ''external'' | Internal _ _ \<Rightarrow> ''internal'' | Unresolved _ \<Rightarrow> ''unresolved'')"

definition label_for_id :: "string \<Rightarrow> string" where
  "label_for_id i =
     (let scheme = hd (split_on (CHR '':'') i) in
      if scheme = ''file'' then ''File'' else if scheme = ''sym'' then ''Symbol''
      else if scheme = ''mod'' then ''Module'' else if scheme = ''ep'' then ''Endpoint''
      else if scheme = ''res'' then ''Resource'' else if scheme = ''chan'' then ''Channel''
      else if scheme = ''gap'' then ''Gap'' else if scheme = ''screen'' then ''Screen''
      else ''Unknown'')"

text \<open>
  \<^verbatim>\<open>to_lowercase\<close> on ASCII text, which the edge labels of the program are; on other letters the code
  applies the Unicode mapping, which this does not.
\<close>

definition ascii_lower :: "char \<Rightarrow> char" where
  "ascii_lower c = (if CHR ''A'' \<le> c \<and> c \<le> CHR ''Z'' then char_of ((of_char c :: nat) + 32) else c)"

definition relation_word :: "string \<Rightarrow> string" where
  "relation_word label =
     (if label = ''IMPORTS'' then ''import'' else if label = ''CALLS'' then ''call''
      else if label = ''RENDERS'' then ''render'' else if label = ''HANDLES'' then ''handler''
      else if label = ''DEFINED_IN'' then ''definition'' else if label = ''DEPENDS_ON'' then ''dependency''
      else map (\<lambda>c. if c = CHR ''_'' then CHR '' '' else c) (map ascii_lower label))"

definition unresolved_reason :: "edge \<Rightarrow> string" where
  "unresolved_reason e = ''unresolved '' @ relation_word (e_label e) @ '' target''"

text \<open>The provenance an edge carries, when it reads back at all (it is not re-validated here).\<close>

definition ref_provenance :: "edge \<Rightarrow> provenance option" where
  "ref_provenance e = Option.bind (jget (e_props e) ''prov'') prov_from_value"

section \<open>Minting\<close>

definition mint ::
  "(string \<Rightarrow> string) \<Rightarrow> string \<Rightarrow> string \<Rightarrow> boundary \<Rightarrow> evidence_ref list \<Rightarrow> string \<Rightarrow> node" where
  "mint H i label b evidence extractor_id =
     (let kind = boundary_kind b;
          (confidence, reason, evidence') =
            (case b of
               External r extra \<Rightarrow> (Confirmed, r, evidence @ extra)
             | Internal r extra \<Rightarrow> (Confirmed, r, evidence @ extra)
             | Unresolved r \<Rightarrow> (Gap, r, evidence));
          p = t0_prov H confidence evidence' extractor_id
                (label @ '' '' @ i @ '' '' @ kind @ '': '' @ reason);
          props = [(''placeholder'', JBool True), (''boundary'', JStr kind), (''reason'', JStr reason),
                   (''prov'', prov_to_value p)]
      in \<lparr>n_id = i, n_label = label,
          n_props = JObj (if confidence = Gap then props @ [(''attempted_tiers'', JArr [JStr ''T0''])] else props)\<rparr>)"

definition placeholder_node ::
  "(string \<Rightarrow> string) \<Rightarrow> string \<Rightarrow> string \<Rightarrow> edge \<Rightarrow> boundary \<Rightarrow> string \<Rightarrow> node" where
  "placeholder_node H i label e b fallback_extractor =
     (let (evidence, extractor_id) =
            (case ref_provenance e of
               Some p \<Rightarrow> (p_evidence p, p_extractor p) | None \<Rightarrow> ([], fallback_extractor));
          b' = (case b of
                  Unresolved r \<Rightarrow> b
                | _ \<Rightarrow> if evidence = [] then Unresolved (unresolved_reason e) else b)
      in mint H i label b' evidence extractor_id)"

definition is_placeholder :: "node \<Rightarrow> bool" where
  "is_placeholder n \<longleftrightarrow> Option.bind (jget (n_props n) ''placeholder'') as_bool = Some True"

definition node_provenance :: "node \<Rightarrow> provenance option" where
  "node_provenance n = Option.bind (jget (n_props n) ''prov'') prov_from_value"

definition is_gap :: "node \<Rightarrow> bool" where
  "is_gap n \<longleftrightarrow>
     \<not> (case node_provenance n of None \<Rightarrow> False | Some p \<Rightarrow> p_confidence p = Confirmed) \<or>
     as_str (jidx (n_props n) ''boundary'') \<notin> {Some ''external'', Some ''internal''}"

section \<open>Reconciling duplicates\<close>

text \<open>The node that replaces a group of placeholders of one id, given in extraction order.\<close>

definition survivor :: "(string \<Rightarrow> string) \<Rightarrow> node list \<Rightarrow> node" where
  "survivor H g =
     (case find is_gap g of
        Some n \<Rightarrow> n
      | None \<Rightarrow>
          if list_all (\<lambda>n. json_eq (jidx (n_props n) ''boundary'') (jidx (n_props (hd g)) ''boundary'')) g
          then hd g
          else (let (evidence, extractor_id) =
                      (case node_provenance (hd g) of
                         Some p \<Rightarrow> (p_evidence p, p_extractor p) | None \<Rightarrow> ([], []))
                in mint H (n_id (hd g)) (n_label (hd g))
                     (Unresolved ''references disagree on the boundary'') evidence extractor_id))"

definition index_groups :: "node list \<Rightarrow> (string, nat list) omap" where
  "index_groups nodes = fold (\<lambda>p. push_bucket (n_id (snd p)) (fst p)) (enumerate 0 nodes) []"

definition reconcilable :: "node list \<Rightarrow> nat list \<Rightarrow> bool" where
  "reconcilable nodes idx \<longleftrightarrow> \<not> length idx < 2 \<and> list_all (\<lambda>k. is_placeholder (nodes ! k)) idx"

definition reconcile_placeholders :: "(string \<Rightarrow> string) \<Rightarrow> node list \<Rightarrow> node list" where
  "reconcile_placeholders H nodes =
     (let groups = filter (reconcilable nodes) (map snd (index_groups nodes));
          replace = map (\<lambda>idx. (hd idx, survivor H (map ((!) nodes) idx))) groups;
          dropped = concat (map tl groups)
      in if replace = [] then nodes
         else concat (map (\<lambda>(k, n). if k \<in> set dropped then []
                                    else [case map_of replace k of Some m \<Rightarrow> m | None \<Rightarrow> n])
                (enumerate 0 nodes)))"

section \<open>Closing over endpoints\<close>

type_synonym held = "edge \<times> boundary"

text \<open>One more reference to a missing endpoint, judged against the one held so far.\<close>

definition judge :: "held \<Rightarrow> held \<Rightarrow> held" where
  "judge held new =
     (case snd held of
        Unresolved _ \<Rightarrow> held
      | _ \<Rightarrow>
          (case snd new of
             Unresolved _ \<Rightarrow> new
           | _ \<Rightarrow> if boundary_kind (snd held) \<noteq> boundary_kind (snd new)
                  then (fst held, Unresolved ''references disagree on the boundary'')
                  else held))"

definition note_ref ::
  "(string \<Rightarrow> edge \<Rightarrow> boundary option) \<Rightarrow> string list \<Rightarrow> string \<times> edge
     \<Rightarrow> string list \<times> (string, held) omap \<Rightarrow> string list \<times> (string, held) omap" where
  "note_ref classify known ref st =
     (let (i, e) = ref; (order, pending) = st in
      if i \<in> set known then st
      else (let b = (case classify i e of Some b \<Rightarrow> b | None \<Rightarrow> Unresolved (unresolved_reason e)) in
            case om_get pending i of
              None \<Rightarrow> (order @ [i], om_put i (e, b) pending)
            | Some held \<Rightarrow> (order, om_put i (judge held (e, b)) pending)))"

definition endpoint_refs :: "edge list \<Rightarrow> (string \<times> edge) list" where
  "endpoint_refs edges = concat (map (\<lambda>e. [(e_src e, e), (e_dst e, e)]) edges)"

definition close_over_endpoints ::
  "(string \<Rightarrow> string) \<Rightarrow> node list \<Rightarrow> edge list \<Rightarrow> string \<Rightarrow> (string \<Rightarrow> string)
     \<Rightarrow> (string \<Rightarrow> edge \<Rightarrow> boundary option) \<Rightarrow> node list" where
  "close_over_endpoints H nodes edges fallback_extractor label_of classify =
     (let (order, pending) = fold (note_ref classify (map n_id nodes)) (endpoint_refs edges) ([], [])
      in nodes @ map (\<lambda>i. case the (om_get pending i) of (e, b) \<Rightarrow>
                          placeholder_node H i (label_of i) e b fallback_extractor) order)"

section \<open>What a minted node says\<close>

lemma mint_sel [simp]: "n_id (mint H i l b ev x) = i" "n_label (mint H i l b ev x) = l"
  by (auto simp: mint_def Let_def split: boundary.split)

lemma mint_is_placeholder [simp]: "is_placeholder (mint H i l b ev x)"
  by (cases b) (simp_all add: mint_def is_placeholder_def Let_def)

lemma node_provenance_mint:
  "node_provenance (mint H i l b ev x) = Some (t0_prov H
     (case b of Unresolved _ \<Rightarrow> Gap | _ \<Rightarrow> Confirmed)
     (case b of External _ extra \<Rightarrow> ev @ extra | Internal _ extra \<Rightarrow> ev @ extra | Unresolved _ \<Rightarrow> ev) x
     (l @ '' '' @ i @ '' '' @ boundary_kind b @ '': '' @
       (case b of External r _ \<Rightarrow> r | Internal r _ \<Rightarrow> r | Unresolved r \<Rightarrow> r)))"
  by (cases b) (simp_all add: mint_def node_provenance_def Let_def)

lemma is_gap_mint [simp]: "is_gap (mint H i l b ev x) \<longleftrightarrow> (\<exists>r. b = Unresolved r)"
  by (cases b)
    (simp_all add: is_gap_def node_provenance_mint, simp_all add: mint_def jidx_def boundary_kind_def Let_def)

lemma placeholder_node_sel [simp]:
  "n_id (placeholder_node H i l e b x) = i" "n_label (placeholder_node H i l e b x) = l"
  "is_placeholder (placeholder_node H i l e b x)"
  by (auto simp: placeholder_node_def Let_def split: prod.split)

definition cites :: "edge \<Rightarrow> bool" where
  "cites e = (case ref_provenance e of None \<Rightarrow> False | Some p \<Rightarrow> p_evidence p \<noteq> [])"

lemma is_gap_placeholder_node:
  "is_gap (placeholder_node H i l e b x) \<longleftrightarrow> (\<exists>r. b = Unresolved r) \<or> \<not> cites e"
  by (cases b; cases "ref_provenance e") (simp_all add: placeholder_node_def cites_def Let_def)

end
