(* ===== verification/Placeholder_Props.thy ===== *)
theory Placeholder_Props
  imports Placeholder
begin

text \<open>
  What the closure and the reconciliation guarantee: every endpoint exists afterwards, declared
  nodes are never touched, and a placeholder is Confirmed only when every reference that was judged
  agrees on one proven boundary with citable evidence; anything else is an explicit Gap.
\<close>

section \<open>Judging the references to one id\<close>

lemma kind_unresolved: "boundary_kind b = ''unresolved'' \<longleftrightarrow> (\<exists>r. b = Unresolved r)"
  by (cases b) (simp_all add: boundary_kind_def)

abbreviation judge_all :: "held list \<Rightarrow> held \<Rightarrow> held" where
  "judge_all rs h \<equiv> fold (\<lambda>n h. judge h n) rs h"

lemma judge_cases:
  "boundary_kind (snd (judge h n)) = ''unresolved'' \<longleftrightarrow>
     boundary_kind (snd h) = ''unresolved'' \<or> boundary_kind (snd n) \<noteq> boundary_kind (snd h)"
  "boundary_kind (snd h) \<noteq> ''unresolved'' \<Longrightarrow> boundary_kind (snd n) = boundary_kind (snd h) \<Longrightarrow> judge h n = h"
  by (cases "snd h"; cases "snd n"; simp add: judge_def boundary_kind_def)+

lemma judge_all_unresolved:
  "boundary_kind (snd h) = ''unresolved'' \<Longrightarrow> boundary_kind (snd (judge_all rs h)) = ''unresolved''"
  by (induction rs arbitrary: h) (simp_all add: judge_cases)

lemma judge_all_proven:
  assumes "boundary_kind (snd h) \<noteq> ''unresolved''"
  shows "boundary_kind (snd (judge_all rs h)) = ''unresolved'' \<longleftrightarrow>
           (\<exists>n \<in> set rs. boundary_kind (snd n) \<noteq> boundary_kind (snd h))"
    and "(\<forall>n \<in> set rs. boundary_kind (snd n) = boundary_kind (snd h)) \<Longrightarrow> judge_all rs h = h"
  using assms
proof (induction rs arbitrary: h)
  case (Cons n rs)
  {
    case 1
    then show ?case
      using Cons.IH(1) judge_all_unresolved judge_cases
      by (cases "boundary_kind (snd n) = boundary_kind (snd h)") simp_all
  next
    case 2
    then show ?case using Cons.IH(2) judge_cases(2) by simp
  }
qed simp_all

text \<open>All references to an id, each with the boundary its edge supports.\<close>

definition claimed :: "(string \<Rightarrow> edge \<Rightarrow> boundary option) \<Rightarrow> string \<Rightarrow> edge \<Rightarrow> boundary" where
  "claimed classify i e = (case classify i e of Some b \<Rightarrow> b | None \<Rightarrow> Unresolved (unresolved_reason e))"

definition refs_to :: "string \<Rightarrow> edge list \<Rightarrow> edge list" where
  "refs_to i edges = map snd (filter (\<lambda>r. fst r = i) (endpoint_refs edges))"

definition judged :: "held list \<Rightarrow> held option" where
  "judged rs = (case rs of [] \<Rightarrow> None | r # rs \<Rightarrow> Some (judge_all rs r))"

lemma judged_snoc: "judged (rs @ [r]) = Some (case judged rs of None \<Rightarrow> r | Some h \<Rightarrow> judge h r)"
  by (cases rs) (simp_all add: judged_def)

lemma judged_None [simp]: "judged rs = None \<longleftrightarrow> rs = []"
  by (cases rs) (simp_all add: judged_def)

lemma note_ref_eq:
  "note_ref classify known r (order, pending) =
     (if fst r \<in> set known then (order, pending)
      else (if om_get pending (fst r) = None then order @ [fst r] else order,
            om_put (fst r) (let new = (snd r, claimed classify (fst r) (snd r)) in
              case om_get pending (fst r) of None \<Rightarrow> new | Some h \<Rightarrow> judge h new) pending))"
  by (cases r) (simp add: note_ref_def claimed_def Let_def split: option.split)

lemma note_refs_pending:
  "om_get (snd (fold (note_ref classify known) refs ([], []))) i =
     (if i \<in> set known then None
      else judged (map (\<lambda>r. (snd r, claimed classify i (snd r))) (filter (\<lambda>r. fst r = i) refs)))"
proof (induction refs rule: rev_induct)
  case (snoc r refs)
  obtain order pending where st: "fold (note_ref classify known) refs ([], []) = (order, pending)"
    by fastforce
  then show ?case
    using snoc by (auto simp: note_ref_eq judged_snoc Let_def)
qed (simp add: judged_def)

lemma note_refs_order:
  "distinct (fst (fold (note_ref classify known) refs ([], []))) \<and>
   set (fst (fold (note_ref classify known) refs ([], []))) = fst ` set refs - set known"
proof (induction refs rule: rev_induct)
  case (snoc r refs)
  obtain order pending where st: "fold (note_ref classify known) refs ([], []) = (order, pending)"
    by fastforce
  have "om_get pending (fst r) = None \<longleftrightarrow> fst r \<in> set known \<or> fst r \<notin> fst ` set refs"
    using note_refs_pending [of classify known refs "fst r"] st
    by (auto simp: filter_empty_conv image_iff)
  then show ?case
    using snoc st by (auto simp: note_ref_eq)
qed simp

section \<open>Closure\<close>

lemma refs_to_iff: "refs_to i edges \<noteq> [] \<longleftrightarrow> i \<in> e_src ` set edges \<union> e_dst ` set edges"
  by (induction edges) (auto simp: refs_to_def endpoint_refs_def)

lemma endpoint_ids: "fst ` set (endpoint_refs edges) = e_src ` set edges \<union> e_dst ` set edges"
  by (induction edges) (auto simp: endpoint_refs_def)

lemma minted_gap:
  assumes "judged (map (\<lambda>e. (e, claimed classify i e)) refs) = Some (e, b)"
  shows "is_gap (placeholder_node H i l e b x) \<longleftrightarrow>
     \<not> (cites (hd refs) \<and> (\<exists>k \<in> {''external'', ''internal''}. \<forall>e \<in> set refs. boundary_kind (claimed classify i e) = k))"
proof -
  obtain r rs where refs: "refs = r # rs" using assms by (cases refs) (simp_all add: judged_def)
  let ?h = "(r, claimed classify i r)" and ?rs = "map (\<lambda>e. (e, claimed classify i e)) rs"
  have eb: "(e, b) = judge_all ?rs ?h" using assms refs by (simp add: judged_def)
  have kinds: "boundary_kind b \<in> {''external'', ''internal'', ''unresolved''}" for b
    by (cases b) (simp_all add: boundary_kind_def)
  show ?thesis
  proof (cases "boundary_kind (claimed classify i r) = ''unresolved''")
    case True
    then have "boundary_kind b = ''unresolved''" using judge_all_unresolved [of ?h ?rs] eb by (metis snd_conv)
    with True refs show ?thesis by (simp add: is_gap_placeholder_node kind_unresolved [symmetric])
  next
    case False
    then have h: "boundary_kind (snd ?h) \<noteq> ''unresolved''" by simp
    show ?thesis
    proof (cases "\<forall>e \<in> set rs. boundary_kind (claimed classify i e) = boundary_kind (claimed classify i r)")
      case True
      then have "(e, b) = ?h" using judge_all_proven(2) [OF h, of ?rs] eb by simp
      then show ?thesis
        using False True kinds [of "claimed classify i r"] refs
        by (simp add: is_gap_placeholder_node kind_unresolved [symmetric])
    next
      case neq: False
      then have "boundary_kind b = ''unresolved''"
        using judge_all_proven(1) [OF h, of ?rs] eb by (metis (no_types, lifting) imageI list.set_map snd_conv)
      with neq refs show ?thesis by (auto simp: is_gap_placeholder_node kind_unresolved [symmetric])
    qed
  qed
qed

text \<open>
  C15: closing over endpoints. The given nodes come first and unchanged; exactly one flagged
  placeholder follows for every endpoint no node has, so both ends of every edge exist; and a
  placeholder is a Confirmed boundary precisely when every reference to it, wherever it stands in
  the edge order, claims the same proven kind and the first reference cites evidence. Otherwise it
  is an explicit Gap.
\<close>

theorem close_over_endpoints_closes:
  "\<exists>minted. close_over_endpoints H nodes edges x label_of classify = nodes @ minted \<and>
     distinct (map n_id minted) \<and>
     n_id ` set minted = (e_src ` set edges \<union> e_dst ` set edges) - n_id ` set nodes \<and>
     (\<forall>n \<in> set minted. is_placeholder n \<and> n_label n = label_of (n_id n) \<and>
        (is_gap n \<longleftrightarrow> \<not> (cites (hd (refs_to (n_id n) edges)) \<and>
           (\<exists>k \<in> {''external'', ''internal''}. \<forall>e \<in> set (refs_to (n_id n) edges).
              boundary_kind (claimed classify (n_id n) e) = k))))"
proof -
  obtain order pending where
    st: "fold (note_ref classify (map n_id nodes)) (endpoint_refs edges) ([], []) = (order, pending)"
    by fastforce
  have order: "distinct order" "set order = (e_src ` set edges \<union> e_dst ` set edges) - n_id ` set nodes"
    using note_refs_order [of classify "map n_id nodes" "endpoint_refs edges"] st
    by (simp_all add: endpoint_ids)
  let ?mk = "\<lambda>i. case the (om_get pending i) of (e, b) \<Rightarrow> placeholder_node H i (label_of i) e b x"
  have held: "om_get pending i = judged (map (\<lambda>e. (e, claimed classify i e)) (refs_to i edges))"
    if "i \<in> set order" for i
    using that note_refs_pending [of classify "map n_id nodes" "endpoint_refs edges" i] st order(2)
    by (simp add: refs_to_def comp_def)
  have mk: "n_id (?mk i) = i \<and> n_label (?mk i) = label_of i \<and> is_placeholder (?mk i) \<and>
      (is_gap (?mk i) \<longleftrightarrow> \<not> (cites (hd (refs_to i edges)) \<and>
         (\<exists>k \<in> {''external'', ''internal''}. \<forall>e \<in> set (refs_to i edges). boundary_kind (claimed classify i e) = k)))"
    if i: "i \<in> set order" for i
  proof -
    have "refs_to i edges \<noteq> []" using i order(2) by (simp add: refs_to_iff)
    then obtain e b where eb: "judged (map (\<lambda>e. (e, claimed classify i e)) (refs_to i edges)) = Some (e, b)"
      by (metis judged_None list.map_disc_iff option.exhaust surj_pair)
    with minted_gap [OF eb] held [OF i] show ?thesis by simp
  qed
  have "close_over_endpoints H nodes edges x label_of classify = nodes @ map ?mk order"
    by (simp add: close_over_endpoints_def st)
  moreover have "map n_id (map ?mk order) = order" using mk by (simp add: map_idI)
  ultimately show ?thesis
    using order mk by (intro exI [of _ "map ?mk order"]) (auto simp: image_image)
qed

definition demo_import :: edge where
  "demo_import = \<lparr>e_src = ''a'', e_dst = ''mod:x'', e_label = ''IMPORTS'', e_props = JNull\<rparr>"

theorem close_over_endpoints_closes_witness:
  "\<exists>minted. close_over_endpoints (\<lambda>x. x) [\<lparr>n_id = ''a'', n_label = ''File'', n_props = JNull\<rparr>] [demo_import]
       ''x'' label_for_id (\<lambda>_ _. Some (External ''stdlib'' [])) =
     [\<lparr>n_id = ''a'', n_label = ''File'', n_props = JNull\<rparr>] @ minted \<and> n_id ` set minted = {''mod:x''} \<and>
     (\<forall>n \<in> set minted. n_label n = ''Module'' \<and> is_gap n)"
proof -
  have refs: "hd (refs_to ''mod:x'' [demo_import]) = demo_import"
    by (simp add: refs_to_def endpoint_refs_def demo_import_def)
  have "\<not> cites demo_import" by (simp add: cites_def ref_provenance_def demo_import_def)
  let ?nodes = "[\<lparr>n_id = ''a'', n_label = ''File'', n_props = JNull\<rparr>] :: node list"
  obtain minted where m: "close_over_endpoints (\<lambda>x. x) ?nodes [demo_import] ''x'' label_for_id
        (\<lambda>_ _. Some (External ''stdlib'' [])) = ?nodes @ minted"
    "n_id ` set minted = (e_src ` set [demo_import] \<union> e_dst ` set [demo_import]) - n_id ` set ?nodes"
    "\<forall>n \<in> set minted. is_placeholder n \<and> n_label n = label_for_id (n_id n) \<and>
        (is_gap n \<longleftrightarrow> \<not> (cites (hd (refs_to (n_id n) [demo_import])) \<and>
           (\<exists>k \<in> {''external'', ''internal''}. \<forall>e \<in> set (refs_to (n_id n) [demo_import]).
              boundary_kind (claimed (\<lambda>_ _. Some (External ''stdlib'' [])) (n_id n) e) = k)))"
    using close_over_endpoints_closes [of "\<lambda>x. x" ?nodes "[demo_import]" "''x''" label_for_id
        "\<lambda>_ _. Some (External ''stdlib'' [])"] by (elim exE conjE) (rule that)
  have ids: "n_id ` set minted = {''mod:x''}" using m(2) by (auto simp: demo_import_def)
  have "n_label n = ''Module'' \<and> is_gap n" if n: "n \<in> set minted" for n
  proof -
    have "n_id n = ''mod:x''" using ids n by blast
    with m(3) [rule_format, OF n] refs \<open>\<not> cites demo_import\<close> show ?thesis by (auto simp: label_for_id_def)
  qed
  with m(1) ids show ?thesis by blast
qed

section \<open>Reconciliation\<close>

lemma enumerate_upt: "enumerate 0 xs = map (\<lambda>k. (k, xs ! k)) [0..<length xs]"
  by (rule nth_equalityI) (simp_all add: nth_enumerate_eq)

definition places :: "node list \<Rightarrow> string \<Rightarrow> nat list" where
  "places nodes i = filter (\<lambda>k. n_id (nodes ! k) = i) [0..<length nodes]"

lemma places_nodes: "map ((!) nodes) (places nodes i) = filter (\<lambda>n. n_id n = i) nodes"
proof -
  have "filter (\<lambda>n. n_id n = i) (map ((!) nodes) [0..<length nodes]) = map ((!) nodes) (places nodes i)"
    by (simp add: places_def filter_map comp_def)
  then show ?thesis by (simp add: map_nth)
qed

lemma in_places: "k \<in> set (places nodes i) \<longleftrightarrow> k < length nodes \<and> n_id (nodes ! k) = i"
  by (auto simp: places_def)

lemma bucket_groups: "bucket (index_groups nodes) i = places nodes i"
  by (simp add: index_groups_def bucket_pushes enumerate_upt filter_map comp_def places_def)

lemma group_members:
  "set (filter (reconcilable nodes) (map snd (index_groups nodes))) =
     {places nodes i | i. reconcilable nodes (places nodes i)}"
proof -
  have "om_wf (index_groups nodes)" unfolding index_groups_def by (rule om_wf_pushes) simp
  then have "distinct (map fst (index_groups nodes))" by (rule om_wf_distinct)
  then have idx: "idx = places nodes i" if "(i, idx) \<in> set (index_groups nodes)" for i idx
    using that bucket_groups [of nodes i] by (simp add: bucket_def)
  have "(i, places nodes i) \<in> set (index_groups nodes)" if "reconcilable nodes (places nodes i)" for i
  proof -
    have "bucket (index_groups nodes) i \<noteq> []"
      using that by (auto simp: bucket_groups reconcilable_def)
    then obtain idx where "om_get (index_groups nodes) i = Some idx"
      by (auto simp: bucket_def split: option.splits)
    then show ?thesis using idx map_of_SomeD by metis
  qed
  then show ?thesis using idx by force
qed

lemma map_of_image:
  assumes "\<And>x. x \<in> set xs \<Longrightarrow> f x = k \<Longrightarrow> g x = y"
  shows "map_of (map (\<lambda>x. (f x, g x)) xs) k = (if k \<in> f ` set xs then Some y else None)"
  using assms by (induction xs) auto

text \<open>What one position contributes to the reconciled list.\<close>

definition kept :: "(string \<Rightarrow> string) \<Rightarrow> node list \<Rightarrow> nat \<Rightarrow> node list" where
  "kept H nodes k =
     (let idx = places nodes (n_id (nodes ! k)) in
      if \<not> reconcilable nodes idx then [nodes ! k]
      else if k = hd idx then [survivor H (map ((!) nodes) idx)] else [])"

abbreviation groups_of :: "node list \<Rightarrow> nat list list" where
  "groups_of nodes \<equiv> filter (reconcilable nodes) (map snd (index_groups nodes))"

abbreviation own_group :: "node list \<Rightarrow> nat \<Rightarrow> nat list" where
  "own_group nodes k \<equiv> places nodes (n_id (nodes ! k))"

lemma group_owner: "idx \<in> set (groups_of nodes) \<Longrightarrow> k \<in> set idx \<Longrightarrow> idx = own_group nodes k"
  unfolding group_members by (auto simp: in_places)

lemma group_nonempty: "idx \<in> set (groups_of nodes) \<Longrightarrow> idx \<noteq> []"
  by (auto simp: reconcilable_def)

lemma own_group_listed:
  "own_group nodes k \<in> set (groups_of nodes) \<longleftrightarrow> reconcilable nodes (own_group nodes k)"
  unfolding group_members by auto

lemma replaced_at:
  "map_of (map (\<lambda>idx. (hd idx, survivor H (map ((!) nodes) idx))) (groups_of nodes)) k =
     (if reconcilable nodes (own_group nodes k) \<and> k = hd (own_group nodes k)
      then Some (survivor H (map ((!) nodes) (own_group nodes k))) else None)"
proof -
  have own: "idx = own_group nodes k" if "idx \<in> set (groups_of nodes)" "hd idx = k" for idx
    using group_owner [OF that(1)] group_nonempty [OF that(1)] that(2) hd_in_set by metis
  then have "k \<in> hd ` set (groups_of nodes) \<longleftrightarrow>
      reconcilable nodes (own_group nodes k) \<and> k = hd (own_group nodes k)"
    unfolding own_group_listed [symmetric] image_iff by metis
  with own show ?thesis
    by (subst map_of_image [where y = "survivor H (map ((!) nodes) (own_group nodes k))"]) auto
qed

lemma dropped_at:
  "k \<in> set (concat (map tl (groups_of nodes))) \<longleftrightarrow>
     reconcilable nodes (own_group nodes k) \<and> k \<in> set (tl (own_group nodes k))"
proof -
  have "k \<in> set (concat (map tl (groups_of nodes))) \<longleftrightarrow> (\<exists>idx \<in> set (groups_of nodes). k \<in> set (tl idx))"
    by simp
  also have "\<dots> \<longleftrightarrow> own_group nodes k \<in> set (groups_of nodes) \<and> k \<in> set (tl (own_group nodes k))"
    using group_owner group_nonempty list.set_sel(2) by metis
  finally show ?thesis by (simp only: own_group_listed)
qed

lemma kept_at:
  assumes "k < length nodes"
  shows "(if k \<in> set (concat (map tl (groups_of nodes))) then []
      else [case map_of (map (\<lambda>idx. (hd idx, survivor H (map ((!) nodes) idx))) (groups_of nodes)) k of
              Some m \<Rightarrow> m | None \<Rightarrow> nodes ! k]) = kept H nodes k"
proof -
  have "k \<in> set (own_group nodes k)" "distinct (own_group nodes k)"
    using assms by (simp_all add: in_places places_def)
  then have "k \<in> set (tl (own_group nodes k)) \<longleftrightarrow> k \<noteq> hd (own_group nodes k)"
    by (cases "own_group nodes k") auto
  then show ?thesis unfolding dropped_at replaced_at kept_def Let_def by simp
qed

lemma kept_all:
  assumes "groups_of nodes = []"
  shows "concat (map (kept H nodes) [0..<length nodes]) = nodes"
proof -
  have "\<not> reconcilable nodes (places nodes i)" for i using assms group_members [of nodes] by auto
  then have "map (kept H nodes) [0..<length nodes] = map (\<lambda>n. [n]) (map ((!) nodes) [0..<length nodes])"
    by (simp add: kept_def Let_def)
  then show ?thesis by (simp only: map_nth) simp
qed

lemma reconcile_eq: "reconcile_placeholders H nodes = concat (map (kept H nodes) [0..<length nodes])"
proof -
  have "map (\<lambda>(k, n). if k \<in> set (concat (map tl (groups_of nodes))) then []
      else [case map_of (map (\<lambda>idx. (hd idx, survivor H (map ((!) nodes) idx))) (groups_of nodes)) k of
              Some m \<Rightarrow> m | None \<Rightarrow> n]) (enumerate 0 nodes) = map (kept H nodes) [0..<length nodes]"
    unfolding enumerate_upt map_map comp_def prod.case
    by (rule map_cong [OF refl]) (rule kept_at, simp)
  then show ?thesis
    unfolding reconcile_placeholders_def Let_def using kept_all [of nodes H]
    by (simp only: list.map_disc_iff) auto
qed

lemma survivor_gap:
  assumes "g \<noteq> []"
  shows "is_gap (survivor H g) \<longleftrightarrow> list_ex is_gap g \<or>
     \<not> list_all (\<lambda>n. jidx (n_props n) ''boundary'' = jidx (n_props (hd g)) ''boundary'') g"
proof (cases "find is_gap g")
  case None
  then have ng: "\<forall>n \<in> set g. \<not> is_gap n" by (simp add: find_None_iff)
  have str: "\<exists>s. jidx (n_props n) ''boundary'' = JStr s" if "\<not> is_gap n" for n
    using that by (cases "jidx (n_props n) ''boundary''") (auto simp: is_gap_def as_str_def)
  have "json_eq (jidx (n_props n) ''boundary'') (jidx (n_props (hd g)) ''boundary'') \<longleftrightarrow>
      jidx (n_props n) ''boundary'' = jidx (n_props (hd g)) ''boundary''" if "n \<in> set g" for n
    using str [of n] str [of "hd g"] ng that assms by (auto simp: json_eq.simps)
  then have "list_all (\<lambda>n. json_eq (jidx (n_props n) ''boundary'') (jidx (n_props (hd g)) ''boundary'')) g \<longleftrightarrow>
      list_all (\<lambda>n. jidx (n_props n) ''boundary'' = jidx (n_props (hd g)) ''boundary'') g"
    by (simp add: list_all_iff)
  then show ?thesis
    using None ng assms by (auto simp: survivor_def list_ex_iff Let_def split: prod.split)
next
  case (Some n)
  then have "is_gap n" "n \<in> set g" by (auto simp: find_Some_iff)
  with Some show ?thesis by (auto simp: survivor_def list_ex_iff)
qed

lemma survivor_id:
  assumes "g \<noteq> []" "\<forall>n \<in> set g. n_id n = i"
  shows "n_id (survivor H g) = i"
  using assms by (auto simp: survivor_def find_Some_iff Let_def split: option.split prod.split)

lemma concat_if_filter: "concat (map (\<lambda>k. if P k then f k else []) xs) = concat (map f (filter P xs))"
  by (induction xs) simp_all

lemma concat_head:
  assumes "distinct xs" "xs \<noteq> []"
  shows "concat (map (\<lambda>k. if k = hd xs then [v] else []) xs) = [v]"
  using assms by (cases xs) (auto intro: filter_False)

lemma reconcile_per_id_eq:
  fixes nodes i
  defines "g \<equiv> filter (\<lambda>n. n_id n = i) nodes"
  shows "filter (\<lambda>n. n_id n = i) (reconcile_placeholders H nodes) =
     (if length g < 2 \<or> \<not> list_all is_placeholder g then g else [survivor H g])"
proof -
  have g: "g = map ((!) nodes) (places nodes i)" by (simp add: g_def places_nodes)
  have rec: "reconcilable nodes (places nodes i) \<longleftrightarrow> \<not> (length g < 2 \<or> \<not> list_all is_placeholder g)"
    by (auto simp: reconcilable_def g list_all_iff)
  have "filter (\<lambda>n. n_id n = i) (kept H nodes k) = (if n_id (nodes ! k) = i then kept H nodes k else [])"
    if "k < length nodes" for k
  proof -
    have "own_group nodes k \<noteq> []" using that by (metis empty_iff empty_set in_places)
    then have "n_id (survivor H (map ((!) nodes) (own_group nodes k))) = n_id (nodes ! k)"
      by (intro survivor_id) (auto simp: in_places)
    then show ?thesis by (auto simp: kept_def Let_def)
  qed
  then have "filter (\<lambda>n. n_id n = i) (reconcile_placeholders H nodes) = concat (map (kept H nodes) (places nodes i))"
    unfolding reconcile_eq filter_concat map_map comp_def places_def concat_if_filter [symmetric]
    by (intro arg_cong [where f = concat] map_cong) auto
  also have "map (kept H nodes) (places nodes i) =
      map (\<lambda>k. if \<not> reconcilable nodes (places nodes i) then [nodes ! k]
               else if k = hd (places nodes i) then [survivor H g] else []) (places nodes i)"
    by (rule map_cong [OF refl]) (auto simp: kept_def Let_def in_places g)
  also have "concat \<dots> = (if reconcilable nodes (places nodes i) then [survivor H g] else g)"
  proof (cases "reconcilable nodes (places nodes i)")
    case True
    then have "places nodes i \<noteq> []" by (auto simp: reconcilable_def)
    with True concat_head [of "places nodes i"] show ?thesis by (simp add: places_def)
  qed (simp add: g)
  finally show ?thesis using rec by simp
qed

text \<open>
  C16: reconciling a merged extraction, seen one id at a time. The nodes of an id that has a single
  node, or any parsed declaration, are left exactly as they were; several placeholders of one id
  become one node of that id, which is a Gap precisely when one of them was a Gap or their
  boundary kinds disagree, so merging never turns an unresolved reference into a proven one.
\<close>

theorem reconcile_per_id:
  "let g = filter (\<lambda>n. n_id n = i) nodes; out = filter (\<lambda>n. n_id n = i) (reconcile_placeholders H nodes) in
     if length g < 2 \<or> list_ex (\<lambda>n. \<not> is_placeholder n) g then out = g
     else (\<exists>s. out = [s] \<and> n_id s = i \<and>
             (is_gap s \<longleftrightarrow> list_ex is_gap g \<or>
                list_ex (\<lambda>n. jidx (n_props n) ''boundary'' \<noteq> jidx (n_props (hd g)) ''boundary'') g))"
proof -
  let ?g = "filter (\<lambda>n. n_id n = i) nodes"
  have ex: "list_ex (\<lambda>n. \<not> P n) xs \<longleftrightarrow> \<not> list_all P xs" for P and xs :: "node list"
    by (simp add: list_ex_iff list_all_iff)
  show ?thesis
  proof (cases "length ?g < 2 \<or> \<not> list_all is_placeholder ?g")
    case False
    then have ne: "?g \<noteq> []" by auto
    have "n_id (survivor H ?g) = i" by (rule survivor_id [OF ne]) simp
    with False survivor_gap [OF ne] show ?thesis unfolding Let_def reconcile_per_id_eq ex by simp
  qed (simp only: Let_def reconcile_per_id_eq ex if_True)
qed

end
