(* ===== verification/Json_Map.thy ===== *)
theory Json_Map
  imports Json
begin

text \<open>
  \<^verbatim>\<open>serde_json::Map\<close> as it is changed in place: with \<^verbatim>\<open>preserve_order\<close> an insert replaces the value of a
  present key where it stands and appends a new one, and a remove moves the last entry into the hole.
\<close>

section \<open>Insert\<close>

fun obj_put :: "string \<Rightarrow> json \<Rightarrow> (string \<times> json) list \<Rightarrow> (string \<times> json) list" where
  "obj_put k v [] = [(k, v)]"
| "obj_put k v (p # m) = (if fst p = k then (k, v) # m else p # obj_put k v m)"

lemma map_of_obj_put [simp]: "map_of (obj_put k v m) j = (if j = k then Some v else map_of m j)"
  by (induction m) auto

lemma keys_obj_put: "fst ` set (obj_put k v m) = insert k (fst ` set m)"
  by (induction m) auto

lemma distinct_obj_put [simp]: "distinct (map fst (obj_put k v m)) = distinct (map fst m)"
proof (induction m)
  case (Cons p m)
  have "fst p \<in> fst ` set (obj_put k v m) \<longleftrightarrow> fst p \<in> fst ` set m" if "fst p \<noteq> k"
    using that by (simp add: keys_obj_put)
  with Cons show ?case by auto
qed simp

text \<open>\<^verbatim>\<open>as_object_mut\<close> and an insert; other values are left as they are.\<close>

definition jput :: "string \<Rightarrow> json \<Rightarrow> json \<Rightarrow> json" where
  "jput k v w = (case w of JObj m \<Rightarrow> JObj (obj_put k v m) | _ \<Rightarrow> w)"

definition is_object :: "json \<Rightarrow> bool" where
  "is_object v = (case v of JObj _ \<Rightarrow> True | _ \<Rightarrow> False)"

lemma jget_jput [simp]:
  "is_object w \<Longrightarrow> jget (jput k v w) k' = (if k' = k then Some v else jget w k')"
  "\<not> is_object w \<Longrightarrow> jput k v w = w" "is_object (jput k v w) = is_object w"
  by (cases w; simp add: jput_def is_object_def)+

section \<open>Remove\<close>

definition swap_remove :: "string \<Rightarrow> (string \<times> json) list \<Rightarrow> (string \<times> json) list" where
  "swap_remove k o' =
     (let before = takeWhile (\<lambda>p. fst p \<noteq> k) o' in
      case dropWhile (\<lambda>p. fst p \<noteq> k) o' of
        [] \<Rightarrow> o'
      | hit # after \<Rightarrow> if after = [] then before else before @ last after # butlast after)"

definition jdel :: "string \<Rightarrow> json \<Rightarrow> json" where
  "jdel k w = (case w of JObj m \<Rightarrow> JObj (swap_remove k m) | _ \<Rightarrow> w)"

lemma map_of_without:
  assumes "distinct (map fst (before @ hit # after))"
  shows "map_of (before @ after) j = (if j = fst hit then None else map_of (before @ hit # after) j)"
proof (cases hit)
  case (Pair k v)
  have none: "map_of before k = None" "map_of after k = None"
    using assms Pair by (auto simp: map_of_eq_None_iff)
  show ?thesis using none by (auto simp: Pair map_add_def split: option.split)
qed

lemma swap_remove_cut:
  assumes "distinct (map fst o')"
  shows "distinct (map fst (swap_remove k o')) \<and> map_of (swap_remove k o') j = (if j = k then None else map_of o' j)"
proof (cases "dropWhile (\<lambda>p. fst p \<noteq> k) o'")
  case Nil
  then have "k \<notin> fst ` set o'" by (auto simp: dropWhile_eq_Nil_conv)
  then have "map_of o' k = None" by (simp add: map_of_eq_None_iff)
  moreover have "swap_remove k o' = o'" by (simp add: swap_remove_def Nil)
  ultimately show ?thesis using assms by auto
next
  case (Cons hit after)
  let ?before = "takeWhile (\<lambda>p. fst p \<noteq> k) o'"
  have o': "o' = ?before @ hit # after" using takeWhile_dropWhile_id [of "\<lambda>p. fst p \<noteq> k" o'] Cons by simp
  have hit: "fst hit = k" using hd_dropWhile [of "\<lambda>p. fst p \<noteq> k" o'] Cons by simp
  have d: "distinct (map fst (?before @ hit # after))" using assms o' by metis
  have d2: "distinct (map fst (?before @ after))" using d by auto
  have "distinct (map fst (swap_remove k o')) \<and> map_of (swap_remove k o') = map_of (?before @ after)"
  proof (cases after rule: rev_cases)
    case (snoc ys y)
    then have "swap_remove k o' = ?before @ y # ys" by (simp add: swap_remove_def Cons)
    moreover have "distinct (map fst (?before @ y # ys))" "set (?before @ y # ys) = set (?before @ after)"
      using d2 snoc by auto
    ultimately show ?thesis using d2 map_of_inject_set by metis
  qed (use d2 in \<open>simp add: swap_remove_def Cons\<close>)
  moreover have "map_of (?before @ after) j = (if j = k then None else map_of o' j)"
    using map_of_without [OF d, of j] hit o' by simp
  ultimately show ?thesis by simp
qed

lemmas map_of_swap_remove = conjunct2 [OF swap_remove_cut]

text \<open>The keys of an object are distinct; the changes keep that.\<close>

definition obj_wf :: "json \<Rightarrow> bool" where
  "obj_wf v = (case v of JObj m \<Rightarrow> distinct (map fst m) | _ \<Rightarrow> True)"

lemma json_wf_obj: "json_wf v \<Longrightarrow> obj_wf v"
  by (cases v) (simp_all add: obj_wf_def)

lemma jdel_simps [simp]:
  "obj_wf w \<Longrightarrow> jget (jdel k w) j = (if j = k then None else jget w j)"
  "is_object (jdel k w) = is_object w"
  by (cases w; simp add: jdel_def is_object_def obj_wf_def map_of_swap_remove)+

lemma obj_wf_changes [simp]:
  "obj_wf (jput k v w) = obj_wf w" "obj_wf w \<Longrightarrow> obj_wf (jdel k w)"
  by (cases w; simp add: jput_def jdel_def obj_wf_def swap_remove_cut)+

end
