(* ===== verification/Context_Hub.thy ===== *)
theory Context_Hub
  imports Source_Binding Json_Map
begin

text \<open>
  The bounded context service (\<^verbatim>\<open>crates/context-hub/src/lib.rs\<close>): an immutable snapshot of the
  recovered graph, its identity, the projection of every fact with its provenance judged, undirected
  neighbourhoods, and deterministic pages under item and byte budgets. Response size is the length
  of the compact JSON text (\<open>ts\<close>), identities hash it with \<open>H\<close>. Sizes are natural numbers;
  \<^verbatim>\<open>BTreeSet\<close> is a strictly sorted list, kept by \<open>insort_insert\<close>.
\<close>

section \<open>Data\<close>

definition MAX_FACTS :: nat where "MAX_FACTS = 500"
definition MAX_RESPONSE_BYTES :: nat where "MAX_RESPONSE_BYTES = 1024 * 1024"
definition MAX_NEIGHBORHOOD_HOPS :: nat where "MAX_NEIGHBORHOOD_HOPS = 3"

datatype fact_kind = NodeKind | EdgeKind

datatype fact_reference = NodeRef string | EdgeRef string string string

definition ref_kind :: "fact_reference \<Rightarrow> fact_kind" where
  "ref_kind r = (case r of NodeRef _ \<Rightarrow> NodeKind | EdgeRef _ _ _ \<Rightarrow> EdgeKind)"

datatype provenance_problem = ProvMissing | ProvMalformed | ProvAboveCeiling

record context_fact =
  cf_reference :: fact_reference
  cf_label :: string
  cf_properties :: json
  cf_provenance :: "provenance option"
  cf_problem :: "provenance_problem option"
  cf_confidence :: confidence_tier

definition context_fact_new :: "fact_reference \<Rightarrow> string \<Rightarrow> json \<Rightarrow> context_fact" where
  "context_fact_new r label props =
     (let raw = jget props ''prov'';
          props' = (case props of JObj o' \<Rightarrow> JObj (swap_remove ''prov'' o') | _ \<Rightarrow> props);
          validated = (case raw of
              None \<Rightarrow> Inl ProvMissing
            | Some v \<Rightarrow> (case prov_from_value v of
                None \<Rightarrow> Inl ProvMalformed
              | Some p \<Rightarrow> if is_ok (prov_validate p) then Inr p else Inl ProvAboveCeiling))
      in case validated of
           Inr p \<Rightarrow> \<lparr>cf_reference = r, cf_label = label, cf_properties = props', cf_provenance = Some p,
                     cf_problem = None, cf_confidence = p_confidence p\<rparr>
         | Inl problem \<Rightarrow> \<lparr>cf_reference = r, cf_label = label, cf_properties = props', cf_provenance = None,
                           cf_problem = Some problem, cf_confidence = Gap\<rparr>)"

datatype query_scope = ScopeAll | Neighborhood string nat

record query_cursor =
  qc_snapshot_id :: string
  qc_selection_id :: string
  qc_offset :: nat

record query_request =
  qr_scope :: query_scope
  qr_kind :: "fact_kind option"
  qr_labels :: "string list"
  qr_max_facts :: nat
  qr_max_bytes :: nat
  qr_cursor :: "query_cursor option"

definition query_request_default :: query_request where
  "query_request_default =
     \<lparr>qr_scope = ScopeAll, qr_kind = None, qr_labels = [], qr_max_facts = MAX_FACTS,
      qr_max_bytes = MAX_RESPONSE_BYTES, qr_cursor = None\<rparr>"

record query_response =
  rs_snapshot_id :: string
  rs_total_selected :: nat
  rs_facts :: "context_fact list"
  rs_next_cursor :: "query_cursor option"

datatype context_error =
    DuplicateNode string
  | DuplicateEdge fact_reference
  | InvalidLimit string nat nat
  | UnknownAnchor string
  | CursorSnapshotMismatch
  | CursorSelectionMismatch
  | InvalidCursorOffset nat nat
  | ResponseBudgetExceeded nat nat

definition validate_limit :: "string \<Rightarrow> nat \<Rightarrow> nat \<Rightarrow> (context_error, unit) result" where
  "validate_limit name requested maximum =
     (if requested = 0 \<or> requested > maximum then Inl (InvalidLimit name requested maximum) else Inr ())"

definition validate_limits :: "query_request \<Rightarrow> (context_error, unit) result" where
  "validate_limits req =
     rbind (validate_limit ''max_facts'' (qr_max_facts req) MAX_FACTS) (\<lambda>_.
     rbind (validate_limit ''max_bytes'' (qr_max_bytes req) MAX_RESPONSE_BYTES) (\<lambda>_.
     (case qr_scope req of
        ScopeAll \<Rightarrow> Inr ()
      | Neighborhood _ hops \<Rightarrow> validate_limit ''hops'' hops MAX_NEIGHBORHOOD_HOPS)))"

section \<open>Wire forms\<close>

definition jnat :: "nat \<Rightarrow> json" where "jnat n = JNum (PosInt (of_nat n))"

definition joption :: "('a \<Rightarrow> json) \<Rightarrow> 'a option \<Rightarrow> json" where
  "joption f x = (case x of None \<Rightarrow> JNull | Some a \<Rightarrow> f a)"

definition reference_to_value :: "fact_reference \<Rightarrow> json" where
  "reference_to_value r =
     (case r of
        NodeRef i \<Rightarrow> JObj [(''kind'', JStr ''node''), (''id'', JStr i)]
      | EdgeRef s l d \<Rightarrow> JObj [(''kind'', JStr ''edge''), (''source'', JStr s), (''label'', JStr l),
                               (''destination'', JStr d)])"

definition problem_to_value :: "provenance_problem \<Rightarrow> json" where
  "problem_to_value p =
     JStr (case p of ProvMissing \<Rightarrow> ''missing'' | ProvMalformed \<Rightarrow> ''malformed'' | ProvAboveCeiling \<Rightarrow> ''above_ceiling'')"

definition context_fact_to_value :: "context_fact \<Rightarrow> json" where
  "context_fact_to_value f =
     JObj [(''reference'', reference_to_value (cf_reference f)), (''label'', JStr (cf_label f)),
           (''properties'', cf_properties f), (''provenance'', joption prov_to_value (cf_provenance f)),
           (''provenance_problem'', joption problem_to_value (cf_problem f)),
           (''confidence_tier'', JStr (confidence_name (cf_confidence f)))]"

definition cursor_to_value :: "query_cursor \<Rightarrow> json" where
  "cursor_to_value c =
     JObj [(''snapshot_id'', JStr (qc_snapshot_id c)), (''selection_id'', JStr (qc_selection_id c)),
           (''offset'', jnat (qc_offset c))]"

definition response_to_value :: "query_response \<Rightarrow> json" where
  "response_to_value r =
     JObj [(''snapshot_id'', JStr (rs_snapshot_id r)), (''view'', JStr ''recovered_graph''),
           (''total_selected'', jnat (rs_total_selected r)),
           (''facts'', JArr (map context_fact_to_value (rs_facts r))),
           (''next_cursor'', joption cursor_to_value (rs_next_cursor r))]"

definition scope_to_value :: "query_scope \<Rightarrow> json" where
  "scope_to_value s =
     (case s of
        ScopeAll \<Rightarrow> JObj [(''type'', JStr ''all'')]
      | Neighborhood anchor hops \<Rightarrow>
          JObj [(''type'', JStr ''neighborhood''), (''anchor'', JStr anchor), (''hops'', jnat hops)])"

definition kind_to_value :: "fact_kind \<Rightarrow> json" where
  "kind_to_value k = JStr (case k of NodeKind \<Rightarrow> ''node'' | EdgeKind \<Rightarrow> ''edge'')"

definition content_identity :: "(string \<Rightarrow> string) \<Rightarrow> (json \<Rightarrow> string) \<Rightarrow> string \<Rightarrow> json \<Rightarrow> string" where
  "content_identity H ts prefix content = prefix @ '':'' @ H (ts (JArr [JStr prefix, canonicalize content]))"

section \<open>Snapshots\<close>

record context_snapshot =
  cs_id :: string
  cs_facts :: "context_fact list"
  cs_node_ids :: "string list"
  cs_neighbors :: "(string, string list) omap"

definition edge_reference :: "edge \<Rightarrow> fact_reference" where
  "edge_reference e = EdgeRef (e_src e) (e_label e) (e_dst e)"

definition edge_sort_key :: "edge \<Rightarrow> string \<times> string \<times> string" where
  "edge_sort_key e = (e_src e, e_label e, e_dst e)"

text \<open>\<^verbatim>\<open>windows(2).find(..)\<close>: the first of the first adjacent pair with equal keys.\<close>

fun adjacent_dup :: "('a \<Rightarrow> 'b) \<Rightarrow> 'a list \<Rightarrow> 'a option" where
  "adjacent_dup f (x # y # xs) = (if f x = f y then Some x else adjacent_dup f (y # xs))"
| "adjacent_dup f _ = None"

definition link :: "string \<Rightarrow> string \<Rightarrow> (string, string list) omap \<Rightarrow> (string, string list) omap" where
  "link a b m = om_put a (insort_insert b (bucket m a)) m"

definition add_neighbors ::
  "string list \<Rightarrow> edge \<Rightarrow> (string, string list) omap \<Rightarrow> (string, string list) omap" where
  "add_neighbors ids e m =
     (if e_src e \<in> set ids \<and> e_dst e \<in> set ids
      then link (e_dst e) (e_src e) (link (e_src e) (e_dst e) m) else m)"

definition context_snapshot_new ::
  "(string \<Rightarrow> string) \<Rightarrow> (json \<Rightarrow> string) \<Rightarrow> node list \<Rightarrow> edge list \<Rightarrow> (context_error, context_snapshot) result" where
  "context_snapshot_new H ts nodes0 edges0 =
     (let nodes = sort_key n_id nodes0; edges = sort_key edge_sort_key edges0 in
      case adjacent_dup n_id nodes of
        Some n \<Rightarrow> Inl (DuplicateNode (n_id n))
      | None \<Rightarrow>
          (case adjacent_dup edge_sort_key edges of
             Some e \<Rightarrow> Inl (DuplicateEdge (edge_reference e))
           | None \<Rightarrow>
               (let ids = fold (\<lambda>n. insort_insert (n_id n)) nodes []
                in Inr \<lparr>cs_id = content_identity H ts ''context-v1''
                          (JArr [JArr (map node_to_value nodes), JArr (map edge_to_value edges)]),
                        cs_facts = map (\<lambda>n. context_fact_new (NodeRef (n_id n)) (n_label n) (n_props n)) nodes @
                                   map (\<lambda>e. context_fact_new (edge_reference e) (e_label e) (e_props e)) edges,
                        cs_node_ids = ids,
                        cs_neighbors = fold (add_neighbors ids) edges []\<rparr>)))"

section \<open>Neighbourhoods\<close>

definition visit_neighbor :: "string \<Rightarrow> string list \<times> string list \<Rightarrow> string list \<times> string list" where
  "visit_neighbor d st =
     (let (visited, nxt) = st in
      if d \<in> set visited then st else (insort_insert d visited, insort_insert d nxt))"

definition expand_frontier ::
  "context_snapshot \<Rightarrow> string list \<Rightarrow> string list \<Rightarrow> string list \<times> string list" where
  "expand_frontier s visited frontier =
     fold (\<lambda>n. fold visit_neighbor (bucket (cs_neighbors s) n)) frontier (visited, [])"

fun neighborhood_loop :: "context_snapshot \<Rightarrow> nat \<Rightarrow> string list \<Rightarrow> string list \<Rightarrow> string list" where
  "neighborhood_loop s 0 visited frontier = visited"
| "neighborhood_loop s (Suc n) visited frontier =
     (let (visited', nxt) = expand_frontier s visited frontier in
      if nxt = [] then visited' else neighborhood_loop s n visited' nxt)"

definition neighborhood :: "context_snapshot \<Rightarrow> string \<Rightarrow> nat \<Rightarrow> string list" where
  "neighborhood s anchor hops = neighborhood_loop s hops [anchor] [anchor]"

section \<open>Queries\<close>

definition selection_to_value :: "query_request \<Rightarrow> json" where
  "selection_to_value req =
     JObj [(''scope'', scope_to_value (qr_scope req)), (''kind'', joption kind_to_value (qr_kind req)),
           (''labels'', JArr (map JStr (fold insort_insert (qr_labels req) [])))]"

definition selects :: "query_request \<Rightarrow> string list option \<Rightarrow> context_fact \<Rightarrow> bool" where
  "selects req ids f \<longleftrightarrow>
     (case qr_kind req of None \<Rightarrow> True | Some k \<Rightarrow> ref_kind (cf_reference f) = k) \<and>
     (qr_labels req = [] \<or> cf_label f \<in> set (qr_labels req)) \<and>
     (case ids of
        None \<Rightarrow> True
      | Some is \<Rightarrow> (case cf_reference f of
          NodeRef i \<Rightarrow> i \<in> set is
        | EdgeRef src _ dst \<Rightarrow> src \<in> set is \<and> dst \<in> set is))"

definition scope_ids :: "context_snapshot \<Rightarrow> query_scope \<Rightarrow> (context_error, string list option) result" where
  "scope_ids s scope =
     (case scope of
        ScopeAll \<Rightarrow> Inr None
      | Neighborhood anchor hops \<Rightarrow>
          if anchor \<notin> set (cs_node_ids s) then Inl (UnknownAnchor anchor)
          else Inr (Some (neighborhood s anchor hops)))"

definition start_offset ::
  "context_snapshot \<Rightarrow> string \<Rightarrow> nat \<Rightarrow> query_cursor option \<Rightarrow> (context_error, nat) result" where
  "start_offset s selection_id count cursor =
     (case cursor of
        None \<Rightarrow> Inr 0
      | Some c \<Rightarrow>
          if qc_snapshot_id c \<noteq> cs_id s then Inl CursorSnapshotMismatch
          else if qc_selection_id c \<noteq> selection_id then Inl CursorSelectionMismatch
          else if qc_offset c > count then Inl (InvalidCursorOffset (qc_offset c) count)
          else Inr (qc_offset c))"

definition cursor_at :: "context_snapshot \<Rightarrow> string \<Rightarrow> nat \<Rightarrow> nat \<Rightarrow> query_cursor option" where
  "cursor_at s selection_id count offset =
     (if offset < count
      then Some \<lparr>qc_snapshot_id = cs_id s, qc_selection_id = selection_id, qc_offset = offset\<rparr> else None)"

text \<open>The response is a function of the facts taken so far: the loop resets the cursor with them.\<close>

definition page ::
  "context_snapshot \<Rightarrow> string \<Rightarrow> nat \<Rightarrow> nat \<Rightarrow> context_fact list \<Rightarrow> query_response" where
  "page s selection_id count offset taken =
     \<lparr>rs_snapshot_id = cs_id s, rs_total_selected = count, rs_facts = taken,
      rs_next_cursor = cursor_at s selection_id count (offset + length taken)\<rparr>"

definition response_bytes :: "(json \<Rightarrow> string) \<Rightarrow> query_response \<Rightarrow> nat" where
  "response_bytes ts r = length (ts (response_to_value r))"

fun fill_page ::
  "(json \<Rightarrow> string) \<Rightarrow> (context_fact list \<Rightarrow> query_response) \<Rightarrow> nat \<Rightarrow> context_fact list \<Rightarrow> context_fact list
     \<Rightarrow> (context_error, query_response) result" where
  "fill_page ts mk max_bytes taken [] =
     (let bytes = response_bytes ts (mk taken) in
      if bytes > max_bytes then Inl (ResponseBudgetExceeded max_bytes bytes) else Inr (mk taken))"
| "fill_page ts mk max_bytes taken (f # fs) =
     (let bytes = response_bytes ts (mk (taken @ [f])) in
      if bytes > max_bytes
      then (if taken = [] then Inl (ResponseBudgetExceeded max_bytes bytes) else Inr (mk taken))
      else fill_page ts mk max_bytes (taken @ [f]) fs)"

definition query ::
  "(string \<Rightarrow> string) \<Rightarrow> (json \<Rightarrow> string) \<Rightarrow> context_snapshot \<Rightarrow> query_request
     \<Rightarrow> (context_error, query_response) result" where
  "query H ts s req =
     rbind (validate_limits req) (\<lambda>_.
     rbind (scope_ids s (qr_scope req)) (\<lambda>ids.
     (let selection_id = content_identity H ts ''selection-v1'' (selection_to_value req);
          selected = filter (selects req ids) (cs_facts s);
          count = length selected
      in rbind (start_offset s selection_id count (qr_cursor req)) (\<lambda>offset.
           fill_page ts (page s selection_id count offset) (qr_max_bytes req) []
             (take (qr_max_facts req) (drop offset selected))))))"

end
