(* ===== verification/Context_Hub_Props.thy ===== *)
theory Context_Hub_Props
  imports Context_Hub "HOL-Library.Multiset"
begin

text \<open>
  Correctness of the context service: what one page holds, that following cursors reads a selection
  once and completely (through the interface locale \<open>paged_source\<close>), that a neighbourhood is the ball
  of the requested radius, that a snapshot is a function of the facts and not of their order, and
  that a fact without provenance that validates is never shown as more than a Gap.
\<close>

section \<open>Paging as an interface\<close>

text \<open>
  A client that passes back, unchanged, every cursor it is handed until none is given; the fuel is
  the number of requests it makes at most.
\<close>

fun read_pages ::
  "('c option \<Rightarrow> ('e, 'a list \<times> 'c option) result) \<Rightarrow> nat \<Rightarrow> 'c option \<Rightarrow> ('e, 'a list) result option" where
  "read_pages fetch 0 at = None"
| "read_pages fetch (Suc fuel) at =
     (case fetch at of
        Inl e \<Rightarrow> Some (Inl e)
      | Inr (xs, None) \<Rightarrow> Some (Inr xs)
      | Inr (xs, Some c) \<Rightarrow>
          map_option (\<lambda>rest. rbind rest (\<lambda>ys. Inr (xs @ ys))) (read_pages fetch fuel (Some c)))"

text \<open>
  The contract of a paged source: \<open>own\<close> are the starting point and the cursors the source hands
  out, \<open>place\<close> is the item a cursor stands before. A page continues at its cursor and makes
  progress, the cursor that comes with it is again one of the source's own and stands behind the
  page, and what a request with such a cursor can be refused for is a \<open>refusal\<close>.
\<close>

locale paged_source =
  fixes fetch :: "'c option \<Rightarrow> ('e, 'a list \<times> 'c option) result"
    and own :: "'c option \<Rightarrow> bool"
    and place :: "'c option \<Rightarrow> nat"
    and items :: "'a list"
    and refusal :: "'e \<Rightarrow> bool"
  assumes start_law: "own None" "place None = 0"
    and page_law: "own at \<Longrightarrow> fetch at = Inr (xs, nxt) \<Longrightarrow>
        xs = take (length xs) (drop (place at) items) \<and> (place at < length items \<longrightarrow> xs \<noteq> []) \<and>
        (case nxt of
           None \<Rightarrow> length items \<le> place at + length xs
         | Some c \<Rightarrow> own (Some c) \<and> place (Some c) = place at + length xs \<and> place (Some c) < length items)"
    and refusal_law: "own at \<Longrightarrow> fetch at = Inl e \<Longrightarrow> refusal e"
begin

lemma pages_join:
  assumes "own at" "fetch at = Inr (xs, Some c)"
  shows "xs @ drop (place (Some c)) items = drop (place at) items"
proof -
  have "xs = take (length xs) (drop (place at) items)" "place (Some c) = place at + length xs"
    using page_law [OF assms] by simp_all
  then show ?thesis by (metis append_take_drop_id drop_drop add.commute)
qed

lemma reading_ends:
  assumes "length items - place at \<le> fuel" "0 < fuel" "own at"
  shows "(\<exists>at' e. own at' \<and> fetch at' = Inl e \<and> read_pages fetch fuel at = Some (Inl e)) \<or>
     read_pages fetch fuel at = Some (Inr (drop (place at) items))"
  using assms
proof (induction fuel arbitrary: at)
  case (Suc fuel)
  show ?case
  proof (cases "fetch at")
    case (Inl e)
    with Suc.prems show ?thesis by auto
  next
    case (Inr p)
    obtain xs nxt where "p = (xs, nxt)" by (cases p)
    with Inr have f: "fetch at = Inr (xs, nxt)" by simp
    note law = page_law [OF Suc.prems(3) f]
    show ?thesis
    proof (cases nxt)
      case None
      then have "length (drop (place at) items) \<le> length xs" using law by (simp add: le_diff_conv add.commute)
      then have "xs = drop (place at) items" using law by simp
      with f None show ?thesis by simp
    next
      case (Some c)
      then have c: "own (Some c)" "place (Some c) = place at + length xs" "place (Some c) < length items"
        using law by simp_all
      then have "xs \<noteq> []" using law by simp
      then have "length items - place (Some c) \<le> fuel" "0 < fuel"
        using c(2,3) Suc.prems(1) by (cases xs; simp)+
      from Suc.IH [OF this c(1)] show ?thesis
        using f Some pages_join [OF Suc.prems(3), of xs c] by auto
    qed
  qed
qed simp

text \<open>From the start: as many requests as there are items, and one when there are none, are enough.\<close>

lemma reading_all:
  assumes "max 1 (length items) \<le> fuel"
  shows "(\<exists>at e. own at \<and> fetch at = Inl e \<and> refusal e \<and> read_pages fetch fuel None = Some (Inl e)) \<or>
     read_pages fetch fuel None = Some (Inr items)"
  using reading_ends [of None fuel] refusal_law start_law assms by auto

end

section \<open>One page\<close>

definition selected_facts :: "context_snapshot \<Rightarrow> query_request \<Rightarrow> context_fact list" where
  "selected_facts s req =
     (case scope_ids s (qr_scope req) of Inl _ \<Rightarrow> [] | Inr ids \<Rightarrow> filter (selects req ids) (cs_facts s))"

definition selection_id :: "(string \<Rightarrow> string) \<Rightarrow> (json \<Rightarrow> string) \<Rightarrow> query_request \<Rightarrow> string" where
  "selection_id H ts req = content_identity H ts ''selection-v1'' (selection_to_value req)"

definition request_offset :: "query_request \<Rightarrow> nat" where
  "request_offset req = (case qr_cursor req of None \<Rightarrow> 0 | Some c \<Rightarrow> qc_offset c)"

lemma fill_page_ok:
  assumes "fill_page ts mk mb taken fs = Inr r" "taken \<noteq> [] \<longrightarrow> response_bytes ts (mk taken) \<le> mb"
  shows "\<exists>n \<le> length fs. r = mk (taken @ take n fs) \<and> response_bytes ts r \<le> mb \<and>
           (fs \<noteq> [] \<longrightarrow> taken @ take n fs \<noteq> [])"
  using assms
proof (induction fs arbitrary: taken)
  case Nil
  then show ?case by (auto simp: Let_def split: if_splits)
next
  case (Cons f fs)
  show ?case
  proof (cases "response_bytes ts (mk (taken @ [f])) > mb")
    case True
    with Cons.prems have "r = mk taken" "taken \<noteq> []" by (auto simp: Let_def split: if_splits)
    with Cons.prems show ?thesis by (intro exI [of _ 0]) simp
  next
    case False
    with Cons.prems Cons.IH [of "taken @ [f]"] obtain n where
      "n \<le> length fs" "r = mk ((taken @ [f]) @ take n fs)" "response_bytes ts r \<le> mb" by (auto simp: Let_def)
    then show ?thesis by (intro exI [of _ "Suc n"]) simp
  qed
qed

lemma fill_page_fits:
  assumes "taken \<noteq> [] \<longrightarrow> response_bytes ts (mk taken) \<le> mb"
    and "taken = [] \<Longrightarrow> response_bytes ts (mk (take 1 fs)) \<le> mb"
  shows "is_ok (fill_page ts mk mb taken fs)"
  using assms
proof (induction fs arbitrary: taken)
  case (Cons f fs)
  show ?case
  proof (cases "response_bytes ts (mk (taken @ [f])) > mb")
    case True
    with Cons.prems have "taken \<noteq> []" by auto
    with True show ?thesis by (simp add: Let_def)
  next
    case False
    with Cons.IH [of "taken @ [f]"] show ?thesis by (simp add: Let_def)
  qed
qed (auto simp: Let_def)

lemma fill_page_error:
  assumes "fill_page ts mk mb taken fs = Inl e"
  shows "\<exists>n. e = ResponseBudgetExceeded mb n \<and> mb < n"
  using assms by (induction ts mk mb taken fs rule: fill_page.induct) (auto simp: Let_def split: if_splits)

lemma query_eq:
  "query H ts s req =
     rbind (validate_limits req) (\<lambda>_. rbind (scope_ids s (qr_scope req)) (\<lambda>ids.
       rbind (start_offset s (selection_id H ts req) (length (selected_facts s req)) (qr_cursor req)) (\<lambda>off.
         fill_page ts (page s (selection_id H ts req) (length (selected_facts s req)) off) (qr_max_bytes req) []
           (take (qr_max_facts req) (drop off (selected_facts s req))))))"
  by (cases "scope_ids s (qr_scope req)")
    (simp_all add: query_def selected_facts_def selection_id_def Let_def)

lemma start_offset_ok:
  "start_offset s sid n cur = Inr off \<Longrightarrow> off = (case cur of None \<Rightarrow> 0 | Some c \<Rightarrow> qc_offset c) \<and> off \<le> n"
  by (auto simp: start_offset_def split: option.splits if_splits)

lemma query_ok:
  assumes "query H ts s req = Inr r"
  obtains n where "validate_limits req = Inr ()" "request_offset req \<le> length (selected_facts s req)"
    "n \<le> qr_max_facts req" "n \<le> length (selected_facts s req) - request_offset req"
    "r = page s (selection_id H ts req) (length (selected_facts s req)) (request_offset req)
           (take n (drop (request_offset req) (selected_facts s req)))"
    "response_bytes ts r \<le> qr_max_bytes req"
    "request_offset req < length (selected_facts s req) \<longrightarrow> 0 < n"
proof -
  let ?sel = "selected_facts s req"
  from assms obtain off where lim: "validate_limits req = Inr ()"
    and off: "start_offset s (selection_id H ts req) (length ?sel) (qr_cursor req) = Inr off"
    and fill: "fill_page ts (page s (selection_id H ts req) (length ?sel) off) (qr_max_bytes req) []
           (take (qr_max_facts req) (drop off ?sel)) = Inr r"
    unfolding query_eq by (auto simp: rbind_eq_Inr)
  have o: "off = request_offset req" "off \<le> length ?sel"
    using start_offset_ok [OF off] by (simp_all add: request_offset_def)
  have pos: "0 < qr_max_facts req"
    using lim by (auto simp: validate_limits_def validate_limit_def rbind_eq_Inr split: if_splits)
  from fill_page_ok [OF fill] obtain n where n: "n \<le> min (length ?sel - off) (qr_max_facts req)"
    "r = page s (selection_id H ts req) (length ?sel) off ([] @ take n (take (qr_max_facts req) (drop off ?sel)))"
    "response_bytes ts r \<le> qr_max_bytes req"
    "take (qr_max_facts req) (drop off ?sel) \<noteq> [] \<longrightarrow> [] @ take n (take (qr_max_facts req) (drop off ?sel)) \<noteq> []"
    by (metis length_drop length_take)
  show ?thesis
    by (rule that [of n]) (use lim o n pos in \<open>auto simp: min_absorb1\<close>)
qed

text \<open>
  C17: one page. A successful query returns a contiguous run of the selection starting exactly at
  the cursor, within the item cap, the hard cap and the byte budget measured on the whole response;
  it makes progress whenever facts remain, reports the size of the whole selection, and hands out a
  cursor, bound to this snapshot and selection, exactly when facts are left.
\<close>

theorem query_page_correct:
  assumes "query H ts s req = Inr r"
  shows "let sel = selected_facts s req; off = request_offset req; len = length (rs_facts r) in
     off \<le> length sel \<and> rs_facts r = take len (drop off sel) \<and>
     len \<le> qr_max_facts req \<and> qr_max_facts req \<le> 500 \<and>
     response_bytes ts r \<le> qr_max_bytes req \<and> rs_total_selected r = length sel \<and>
     (off < length sel \<longrightarrow> 0 < len) \<and>
     rs_next_cursor r =
       (if off + len < length sel
        then Some \<lparr>qc_snapshot_id = cs_id s, qc_selection_id = selection_id H ts req, qc_offset = off + len\<rparr>
        else None)"
proof -
  from query_ok [OF assms] obtain n where n: "validate_limits req = Inr ()"
    "request_offset req \<le> length (selected_facts s req)"
    "n \<le> qr_max_facts req" "n \<le> length (selected_facts s req) - request_offset req"
    "r = page s (selection_id H ts req) (length (selected_facts s req)) (request_offset req)
           (take n (drop (request_offset req) (selected_facts s req)))"
    "response_bytes ts r \<le> qr_max_bytes req"
    "request_offset req < length (selected_facts s req) \<longrightarrow> 0 < n" .
  have "qr_max_facts req \<le> 500"
    using n(1) by (auto simp: validate_limits_def validate_limit_def rbind_eq_Inr MAX_FACTS_def split: if_splits)
  moreover have "length (rs_facts r) = n" using n(4,5) by (simp add: page_def min_def)
  ultimately show ?thesis using n by (simp add: Let_def page_def cursor_at_def)
qed

definition hub_demo :: context_snapshot where
  "hub_demo =
     \<lparr>cs_id = ''i'', cs_facts = [context_fact_new (NodeRef ''a'') ''File'' JNull, context_fact_new (NodeRef ''b'') ''File'' JNull],
      cs_node_ids = [''a'', ''b''], cs_neighbors = []\<rparr>"

definition hub_demo_request :: query_request where
  "hub_demo_request = query_request_default\<lparr>qr_max_facts := 1\<rparr>"

lemma hub_demo_selected: "selected_facts hub_demo hub_demo_request = cs_facts hub_demo"
  by (simp add: selected_facts_def scope_ids_def hub_demo_request_def query_request_default_def selects_def hub_demo_def)

lemma hub_demo_limits: "validate_limits hub_demo_request = Inr ()"
  by (simp add: hub_demo_request_def query_request_default_def validate_limits_def validate_limit_def
      MAX_FACTS_def MAX_RESPONSE_BYTES_def)

lemma hub_demo_scope: "scope_ids hub_demo (qr_scope hub_demo_request) = Inr None"
  by (simp add: scope_ids_def hub_demo_request_def query_request_default_def)

lemma hub_demo_query:
  "query (\<lambda>x. x) (\<lambda>_. []) hub_demo hub_demo_request =
     Inr (page hub_demo (selection_id (\<lambda>x. x) (\<lambda>_. []) hub_demo_request) 2 0 [context_fact_new (NodeRef ''a'') ''File'' JNull])"
  unfolding query_eq hub_demo_limits hub_demo_scope hub_demo_selected
  by (simp add: hub_demo_def hub_demo_request_def query_request_default_def start_offset_def Let_def
      response_bytes_def MAX_RESPONSE_BYTES_def numeral_2_eq_2)

theorem query_page_correct_witness:
  "query (\<lambda>x. x) (\<lambda>_. []) hub_demo hub_demo_request =
     Inr (page hub_demo (selection_id (\<lambda>x. x) (\<lambda>_. []) hub_demo_request) 2 0 [context_fact_new (NodeRef ''a'') ''File'' JNull]) \<and>
   length (selected_facts hub_demo hub_demo_request) = 2"
proof
  show "length (selected_facts hub_demo hub_demo_request) = 2"
    using query_page_correct [OF hub_demo_query] by (simp add: Let_def page_def)
qed (rule hub_demo_query)

section \<open>Following cursors\<close>

text \<open>One request: the query with the given cursor, and the cursor the response carries.\<close>

definition hub_fetch ::
  "(string \<Rightarrow> string) \<Rightarrow> (json \<Rightarrow> string) \<Rightarrow> context_snapshot \<Rightarrow> query_request \<Rightarrow> query_cursor option
     \<Rightarrow> (context_error, context_fact list \<times> query_cursor option) result" where
  "hub_fetch H ts s req at =
     rbind (query H ts s (req\<lparr>qr_cursor := at\<rparr>)) (\<lambda>r. Inr (rs_facts r, rs_next_cursor r))"

definition hub_refusal :: "context_error \<Rightarrow> bool" where
  "hub_refusal e =
     (case e of InvalidLimit _ _ _ \<Rightarrow> True | UnknownAnchor _ \<Rightarrow> True | ResponseBudgetExceeded _ _ \<Rightarrow> True
      | _ \<Rightarrow> False)"

definition hub_place :: "query_cursor option \<Rightarrow> nat" where
  "hub_place at = (case at of None \<Rightarrow> 0 | Some c \<Rightarrow> qc_offset c)"

definition hub_own ::
  "(string \<Rightarrow> string) \<Rightarrow> (json \<Rightarrow> string) \<Rightarrow> context_snapshot \<Rightarrow> query_request \<Rightarrow> query_cursor option \<Rightarrow> bool" where
  "hub_own H ts s req at \<longleftrightarrow>
     (case at of
        None \<Rightarrow> True
      | Some c \<Rightarrow> qc_snapshot_id c = cs_id s \<and> qc_selection_id c = selection_id H ts req \<and>
          qc_offset c < length (selected_facts s req))"

lemma hub_place_own: "hub_own H ts s req at \<Longrightarrow> hub_place at \<le> length (selected_facts s req)"
  by (cases at) (simp_all add: hub_own_def hub_place_def)

lemma selects_ignores_cursor [simp]: "selects (req\<lparr>qr_cursor := c\<rparr>) = selects req"
  by (rule ext)+ (simp add: selects_def)

lemma selection_ignores_cursor [simp]:
  "selected_facts s (req\<lparr>qr_cursor := c\<rparr>) = selected_facts s req"
  "selection_id H ts (req\<lparr>qr_cursor := c\<rparr>) = selection_id H ts req"
  "validate_limits (req\<lparr>qr_cursor := c\<rparr>) = validate_limits req"
  by (simp_all add: selected_facts_def selection_id_def selection_to_value_def validate_limits_def
      split: sum.split)

lemma own_cursor_accepted:
  "hub_own H ts s req at \<Longrightarrow>
   start_offset s (selection_id H ts req) (length (selected_facts s req)) at = Inr (hub_place at)"
  by (cases at) (simp_all add: start_offset_def hub_own_def hub_place_def)

lemma hub_fetch_page:
  assumes "hub_own H ts s req at" "hub_fetch H ts s req at = Inr (xs, nxt)"
  shows "xs = take (length xs) (drop (hub_place at) (selected_facts s req)) \<and>
     (hub_place at < length (selected_facts s req) \<longrightarrow> xs \<noteq> []) \<and>
     (case nxt of
        None \<Rightarrow> length (selected_facts s req) \<le> hub_place at + length xs
      | Some c \<Rightarrow> hub_own H ts s req (Some c) \<and> hub_place (Some c) = hub_place at + length xs \<and>
          hub_place (Some c) < length (selected_facts s req))"
proof -
  let ?req = "req\<lparr>qr_cursor := at\<rparr>"
  from assms(2) obtain r where q: "query H ts s ?req = Inr r" and r: "xs = rs_facts r" "nxt = rs_next_cursor r"
    by (auto simp: hub_fetch_def rbind_eq_Inr)
  have off: "request_offset ?req = hub_place at" by (cases at) (simp_all add: request_offset_def hub_place_def)
  obtain n where n: "hub_place at \<le> length (selected_facts s req)"
    "n \<le> length (selected_facts s req) - hub_place at"
    "r = page s (selection_id H ts req) (length (selected_facts s req)) (hub_place at)
           (take n (drop (hub_place at) (selected_facts s req)))"
    "hub_place at < length (selected_facts s req) \<longrightarrow> 0 < n"
    by (rule query_ok [OF q]) (simp add: off)
  then have xs: "length xs = n" "xs = take n (drop (hub_place at) (selected_facts s req))"
    by (simp_all add: r page_def)
  have nxt: "nxt = cursor_at s (selection_id H ts req) (length (selected_facts s req)) (hub_place at + length xs)"
    by (simp add: r(2) n(3) page_def xs)
  show ?thesis
    using xs n(4) unfolding nxt by (auto simp: cursor_at_def hub_own_def hub_place_def)
qed

lemma hub_fetch_refusal:
  assumes "hub_own H ts s req at" "hub_fetch H ts s req at = Inl e"
  shows "hub_refusal e"
  using assms(2) own_cursor_accepted [OF assms(1)]
  by (auto simp: hub_fetch_def query_eq rbind_eq_Inl hub_refusal_def validate_limits_def
      validate_limit_def scope_ids_def dest!: fill_page_error split: if_splits query_scope.splits)

interpretation hub: paged_source "hub_fetch H ts s req" "hub_own H ts s req" hub_place "selected_facts s req" hub_refusal
  for H ts s req
  by unfold_locales
    (simp add: hub_own_def, simp add: hub_place_def, rule hub_fetch_page, assumption+, rule hub_fetch_refusal, assumption+)

text \<open>Every single-fact page of the selection, and the empty page, fits the byte budget.\<close>

definition pages_fit :: "(string \<Rightarrow> string) \<Rightarrow> (json \<Rightarrow> string) \<Rightarrow> context_snapshot \<Rightarrow> query_request \<Rightarrow> bool" where
  "pages_fit H ts s req \<longleftrightarrow>
     (\<forall>k \<le> length (selected_facts s req).
        response_bytes ts (page s (selection_id H ts req) (length (selected_facts s req)) k
          (take 1 (drop k (selected_facts s req)))) \<le> qr_max_bytes req)"

lemma hub_fetch_fits:
  assumes "validate_limits req = Inr ()" "scope_ids s (qr_scope req) = Inr ids" "pages_fit H ts s req"
    and own: "hub_own H ts s req at"
  shows "hub_fetch H ts s req at \<noteq> Inl e"
proof -
  have pos: "0 < qr_max_facts req"
    using assms(1) by (auto simp: validate_limits_def validate_limit_def rbind_eq_Inr split: if_splits)
  then have "take 1 (take (qr_max_facts req) xs) = take 1 xs" for xs :: "context_fact list" by (simp add: min_def)
  then have "is_ok (fill_page ts (page s (selection_id H ts req) (length (selected_facts s req)) (hub_place at))
      (qr_max_bytes req) [] (take (qr_max_facts req) (drop (hub_place at) (selected_facts s req))))"
    using assms(3) hub_place_own [OF own] by (intro fill_page_fits) (simp_all add: pages_fit_def)
  then show ?thesis
    using assms(1,2) own_cursor_accepted [OF own]
    by (auto simp: hub_fetch_def query_eq is_ok_def rbind_eq_Inl split: sum.splits)
qed

text \<open>
  C18: following the cursors. A client that repeats a query, each time with the very cursor the last
  response carried, is done after at most one request per selected fact (one when nothing is
  selected): it has read the whole selection, each fact once and in order, or was refused for its
  limits, its anchor or a byte budget, never for a cursor it was given; and when the request is valid
  and every single-fact page fits, it has read the whole selection.
\<close>

theorem following_cursors_reads_selection:
  assumes "max 1 (length (selected_facts s req)) \<le> fuel"
  shows "((\<exists>e. read_pages (hub_fetch H ts s req) fuel None = Some (Inl e) \<and> hub_refusal e) \<or>
           read_pages (hub_fetch H ts s req) fuel None = Some (Inr (selected_facts s req))) \<and>
     (validate_limits req = Inr () \<and> is_ok (scope_ids s (qr_scope req)) \<and> pages_fit H ts s req \<longrightarrow>
        read_pages (hub_fetch H ts s req) fuel None = Some (Inr (selected_facts s req)))"
proof
  note all = hub.reading_all [OF assms, of H ts]
  then show "(\<exists>e. read_pages (hub_fetch H ts s req) fuel None = Some (Inl e) \<and> hub_refusal e) \<or>
      read_pages (hub_fetch H ts s req) fuel None = Some (Inr (selected_facts s req))" by blast
  show "validate_limits req = Inr () \<and> is_ok (scope_ids s (qr_scope req)) \<and> pages_fit H ts s req \<longrightarrow>
      read_pages (hub_fetch H ts s req) fuel None = Some (Inr (selected_facts s req))"
  proof
    assume ok: "validate_limits req = Inr () \<and> is_ok (scope_ids s (qr_scope req)) \<and> pages_fit H ts s req"
    then obtain ids where ids: "scope_ids s (qr_scope req) = Inr ids"
      by (cases "scope_ids s (qr_scope req)") auto
    show "read_pages (hub_fetch H ts s req) fuel None = Some (Inr (selected_facts s req))"
      using all hub_fetch_fits [OF _ ids] ok by blast
  qed
qed

text \<open>Two facts, one to a page: the second request uses the cursor of the first response.\<close>

theorem following_cursors_reads_selection_witness:
  "read_pages (hub_fetch (\<lambda>x. x) (\<lambda>_. []) hub_demo hub_demo_request) 2 None = Some (Inr (cs_facts hub_demo)) \<and>
   hub_fetch (\<lambda>x. x) (\<lambda>_. []) hub_demo hub_demo_request None =
     Inr ([context_fact_new (NodeRef ''a'') ''File'' JNull],
       Some \<lparr>qc_snapshot_id = ''i'', qc_selection_id = selection_id (\<lambda>x. x) (\<lambda>_. []) hub_demo_request, qc_offset = 1\<rparr>)"
proof
  have "max 1 (length (selected_facts hub_demo hub_demo_request)) \<le> 2"
    by (simp add: hub_demo_selected) (simp add: hub_demo_def)
  moreover have "pages_fit (\<lambda>x. x) (\<lambda>_. []) hub_demo hub_demo_request"
    by (simp add: pages_fit_def response_bytes_def)
  ultimately show "read_pages (hub_fetch (\<lambda>x. x) (\<lambda>_. []) hub_demo hub_demo_request) 2 None = Some (Inr (cs_facts hub_demo))"
    using following_cursors_reads_selection [of hub_demo hub_demo_request 2 "\<lambda>x. x" "\<lambda>_. []"]
      hub_demo_limits hub_demo_scope hub_demo_selected by simp
  have "hub_demo_request\<lparr>qr_cursor := None\<rparr> = hub_demo_request"
    by (simp add: hub_demo_request_def query_request_default_def)
  then show "hub_fetch (\<lambda>x. x) (\<lambda>_. []) hub_demo hub_demo_request None =
     Inr ([context_fact_new (NodeRef ''a'') ''File'' JNull],
       Some \<lparr>qc_snapshot_id = ''i'', qc_selection_id = selection_id (\<lambda>x. x) (\<lambda>_. []) hub_demo_request, qc_offset = 1\<rparr>)"
    by (simp add: hub_fetch_def hub_demo_query) (simp add: page_def cursor_at_def hub_demo_def)
qed

section \<open>Neighbourhoods\<close>

definition adjacent :: "context_snapshot \<Rightarrow> (string \<times> string) set" where
  "adjacent s = {(a, b). b \<in> set (bucket (cs_neighbors s) a)}"

definition ball :: "('a \<times> 'a) set \<Rightarrow> nat \<Rightarrow> 'a set \<Rightarrow> 'a set" where
  "ball r n V = (\<Union>k \<le> n. (r ^^ k) `` V)"

lemma ball_0 [simp]: "ball r 0 V = V"
  by (simp add: ball_def)

lemma ball_Suc: "ball r (Suc n) V = ball r n (V \<union> r `` V)"
proof -
  have step: "(r ^^ k) `` (r `` V) = (r ^^ Suc k) `` V" for k
    by (metis relcomp_Image relpow.simps(2) relpow_commute)
  have "ball r n (V \<union> r `` V) = (\<Union>k \<le> n. (r ^^ k) `` V) \<union> (\<Union>k \<le> n. (r ^^ Suc k) `` V)"
    unfolding ball_def Image_Un step by blast
  also have "(\<Union>k \<le> n. (r ^^ Suc k) `` V) = (\<Union>k \<in> Suc ` {..n}. (r ^^ k) `` V)" by simp
  also have "(\<Union>k \<le> n. (r ^^ k) `` V) \<union> (\<Union>k \<in> Suc ` {..n}. (r ^^ k) `` V) = (\<Union>k \<in> {..n} \<union> Suc ` {..n}. (r ^^ k) `` V)"
    by blast
  also have "{..n} \<union> Suc ` {..n} = {..Suc n}"
    using atMost_Suc_eq_insert_0 [of n] by auto
  finally show ?thesis by (simp only: ball_def)
qed

lemma ball_closed: "r `` V \<subseteq> V \<Longrightarrow> ball r n V = V"
proof (induction n)
  case (Suc n)
  then have "V \<union> r `` V = V" by blast
  with Suc show ?case by (simp only: ball_Suc)
qed simp

lemma visit_neighbors:
  "set (fst (fold visit_neighbor ds (v, nx))) = set v \<union> set ds"
  "set (snd (fold visit_neighbor ds (v, nx))) = set nx \<union> (set ds - set v)"
  by (induction ds arbitrary: v nx) (auto simp: visit_neighbor_def set_insort_insert)

lemma expand_frontier_sets:
  "set (fst (fold (\<lambda>n. fold visit_neighbor (bucket (cs_neighbors s) n)) fr st)) = set (fst st) \<union> adjacent s `` set fr"
  "set (snd (fold (\<lambda>n. fold visit_neighbor (bucket (cs_neighbors s) n)) fr st)) =
     set (snd st) \<union> (adjacent s `` set fr - set (fst st))"
proof (induction fr arbitrary: st)
  case (Cons n fr)
  have nb: "set (bucket (cs_neighbors s) n) = adjacent s `` {n}" by (auto simp: adjacent_def)
  {
    case 1
    show ?case
      by (cases st) (simp add: Cons.IH visit_neighbors nb, blast)
  next
    case 2
    show ?case
      by (cases st) (simp add: Cons.IH visit_neighbors nb, blast)
  }
qed simp_all

lemma neighborhood_loop_ball:
  assumes "set fr \<subseteq> set v" "adjacent s `` (set v - set fr) \<subseteq> set v"
  shows "set (neighborhood_loop s n v fr) = ball (adjacent s) n (set v)"
  using assms
proof (induction n arbitrary: v fr)
  case (Suc n)
  obtain v' nx where st: "expand_frontier s v fr = (v', nx)" by fastforce
  then have v': "set v' = set v \<union> adjacent s `` set fr" and nx: "set nx = adjacent s `` set fr - set v"
    using expand_frontier_sets [of s fr "(v, [])"] by (simp_all add: expand_frontier_def)
  have all: "set v \<union> adjacent s `` set v = set v'" using Suc.prems v' by blast
  show ?case
  proof (cases "nx = []")
    case True
    then have "set v' = set v" using v' nx by auto
    then have "adjacent s `` set v \<subseteq> set v" using all by blast
    with True st \<open>set v' = set v\<close> show ?thesis by (simp add: ball_closed)
  next
    case False
    have "set v' - set nx \<subseteq> set v" using v' nx by blast
    then have "adjacent s `` (set v' - set nx) \<subseteq> adjacent s `` set v" by (rule Image_mono [OF subset_refl])
    then have "adjacent s `` (set v' - set nx) \<subseteq> set v'" using all by blast
    moreover have "set nx \<subseteq> set v'" using v' nx by blast
    ultimately have "set nx \<subseteq> set v'" "adjacent s `` (set v' - set nx) \<subseteq> set v'" by simp_all
    from Suc.IH [OF this] False st show ?thesis by (simp add: ball_Suc all)
  qed
qed simp

definition touching :: "node list \<Rightarrow> edge list \<Rightarrow> (string \<times> string) set" where
  "touching nodes edges =
     {(a, b). a \<in> n_id ` set nodes \<and> b \<in> n_id ` set nodes \<and>
        (\<exists>e \<in> set edges. (e_src e = a \<and> e_dst e = b) \<or> (e_src e = b \<and> e_dst e = a))}"

lemma bucket_link: "set (bucket (link a b m) k) = set (bucket m k) \<union> (if k = a then {b} else {})"
  by (auto simp: link_def bucket_def set_insort_insert)

lemma add_neighbors_all:
  "set (bucket (fold (add_neighbors ids) es m) a) =
     set (bucket m a) \<union> {b. a \<in> set ids \<and> b \<in> set ids \<and>
        (\<exists>e \<in> set es. (e_src e = a \<and> e_dst e = b) \<or> (e_src e = b \<and> e_dst e = a))}"
proof (induction es arbitrary: m)
  case (Cons e es)
  show ?case unfolding fold_simps comp_def Cons.IH by (auto simp: add_neighbors_def bucket_link)
qed simp

lemma insort_all: "set (fold (\<lambda>x. insort_insert (f x)) xs acc) = f ` set xs \<union> set acc"
  by (induction xs arbitrary: acc) (auto simp: set_insort_insert)

lemma snapshot_adjacent:
  assumes "context_snapshot_new H ts nodes edges = Inr s"
  shows "adjacent s = touching nodes edges" "set (cs_node_ids s) = n_id ` set nodes"
  using assms
  by (auto simp: context_snapshot_new_def Let_def adjacent_def touching_def add_neighbors_all insort_all
      split: option.splits)

text \<open>
  C19: a neighbourhood is a ball. In a snapshot built from a graph, the ids selected around an
  anchor are exactly those within the requested number of undirected steps, over edges both of
  whose ends are nodes of the snapshot; the breadth-first rounds and their early exit neither lose
  nor add one, and an edge to an id outside the snapshot never extends it.
\<close>

theorem neighborhood_is_ball:
  assumes "context_snapshot_new H ts nodes edges = Inr s"
  shows "set (neighborhood s anchor hops) = {b. \<exists>k \<le> hops. (anchor, b) \<in> touching nodes edges ^^ k}"
proof -
  have "set (neighborhood s anchor hops) = ball (adjacent s) hops {anchor}"
    unfolding neighborhood_def by (subst neighborhood_loop_ball) simp_all
  then show ?thesis using snapshot_adjacent(1) [OF assms] by (auto simp: ball_def)
qed

definition hub_nodes :: "node list" where
  "hub_nodes = [\<lparr>n_id = ''b'', n_label = ''File'', n_props = JNull\<rparr>, \<lparr>n_id = ''a'', n_label = ''File'', n_props = JNull\<rparr>]"

definition hub_edges :: "edge list" where
  "hub_edges = [\<lparr>e_src = ''b'', e_dst = ''a'', e_label = ''IMPORTS'', e_props = JNull\<rparr>]"

definition hub_snapshot :: context_snapshot where
  "hub_snapshot = projr (context_snapshot_new (\<lambda>x. x) (\<lambda>_. []) hub_nodes hub_edges)"

lemma hub_snapshot_new: "context_snapshot_new (\<lambda>x. x) (\<lambda>_. []) hub_nodes hub_edges = Inr hub_snapshot"
  by (simp add: hub_snapshot_def context_snapshot_new_def hub_nodes_def hub_edges_def Let_def)

theorem neighborhood_is_ball_witness:
  "context_snapshot_new (\<lambda>x. x) (\<lambda>_. []) hub_nodes hub_edges = Inr hub_snapshot \<and>
   ''b'' \<in> set (neighborhood hub_snapshot ''a'' 1)"
proof -
  have "(''a'', ''b'') \<in> touching hub_nodes hub_edges ^^ 1"
    by (simp add: touching_def hub_nodes_def hub_edges_def)
  then have "''b'' \<in> set (neighborhood hub_snapshot ''a'' 1)"
    unfolding neighborhood_is_ball [OF hub_snapshot_new] by blast
  with hub_snapshot_new show ?thesis by simp
qed

section \<open>Snapshot identity\<close>

lemma adjacent_dup_keys: "map_option f (adjacent_dup f xs) = adjacent_dup (\<lambda>k. k) (map f xs)"
  by (induction f xs rule: adjacent_dup.induct) simp_all

lemma adjacent_dup_None:
  "sorted (map f xs) \<Longrightarrow> adjacent_dup f xs = None \<longleftrightarrow> distinct (map f xs)" for f :: "'a \<Rightarrow> 'b::linorder"
proof (induction f xs rule: adjacent_dup.induct)
  case (1 f x y xs)
  then have "f x \<noteq> f y \<Longrightarrow> \<forall>z \<in> set (y # xs). f x < f z" by force
  with 1 show ?case by (cases "f x = f y") (auto simp: image_iff)
qed simp_all

lemma sorted_keys_unique:
  assumes "mset xs = mset ys"
  shows "map f (sort_key f xs) = map f (sort_key f ys)"
proof -
  have "mset (map f xs) = mset (map f ys)" using assms by simp
  moreover have "map f (sort_key f zs) = sort (map f zs)" for zs
    by (rule properties_for_sort [symmetric]) simp_all
  ultimately show ?thesis by (metis mset_sort properties_for_sort sorted_sort)
qed

lemma sort_key_perm:
  assumes "mset xs = mset ys" "distinct (map f xs)"
  shows "sort_key f xs = sort_key f ys"
  using assms by (intro sort_key_inj_key_eq) (simp_all add: distinct_map)

text \<open>
  A snapshot depends on the facts it is given and not on their order. Construction succeeds
  exactly when node ids and edge identities are each distinct; two graphs with the same facts in
  any order give the same outcome, identity, facts and adjacency included, or the same error.
\<close>

theorem snapshot_order_independent:
  assumes "mset nodes' = mset nodes" "mset edges' = mset edges"
  shows "context_snapshot_new H ts nodes' edges' = context_snapshot_new H ts nodes edges \<and>
     (is_ok (context_snapshot_new H ts nodes edges) \<longleftrightarrow>
        distinct (map n_id nodes) \<and> distinct (map edge_sort_key edges))"
proof -
  have dup: "adjacent_dup f (sort_key f xs) = None \<longleftrightarrow> distinct (map f xs)" for f :: "'b \<Rightarrow> 'c::linorder" and xs
    by (subst adjacent_dup_None) (simp_all add: distinct_map)
  have same: "map_option f (adjacent_dup f (sort_key f xs)) = map_option f (adjacent_dup f (sort_key f ys))"
    if "mset xs = mset ys" for f :: "'b \<Rightarrow> 'c::linorder" and xs ys
    unfolding adjacent_dup_keys sorted_keys_unique [OF that] ..
  have ref: "edge_reference e = (case edge_sort_key e of (s, l, d) \<Rightarrow> EdgeRef s l d)" for e
    by (simp add: edge_reference_def edge_sort_key_def)
  have "context_snapshot_new H ts nodes' edges' = context_snapshot_new H ts nodes edges"
  proof (cases "distinct (map n_id nodes')")
    case True
    then have n: "sort_key n_id nodes' = sort_key n_id nodes" by (rule sort_key_perm [OF assms(1)])
    show ?thesis
    proof (cases "distinct (map edge_sort_key edges')")
      case True
      then have "sort_key edge_sort_key edges' = sort_key edge_sort_key edges" by (rule sort_key_perm [OF assms(2)])
      with n show ?thesis by (simp add: context_snapshot_new_def)
    next
      case False
      with same [OF assms(2), of edge_sort_key] dup [of edge_sort_key edges'] obtain a b where
        "adjacent_dup edge_sort_key (sort_key edge_sort_key edges') = Some a"
        "adjacent_dup edge_sort_key (sort_key edge_sort_key edges) = Some b" "edge_sort_key a = edge_sort_key b"
        by (cases "adjacent_dup edge_sort_key (sort_key edge_sort_key edges')";
            cases "adjacent_dup edge_sort_key (sort_key edge_sort_key edges)") auto
      with n show ?thesis by (simp add: context_snapshot_new_def ref Let_def split: option.split)
    qed
  next
    case False
    with same [OF assms(1), of n_id] dup [of n_id nodes'] obtain a b where
      "adjacent_dup n_id (sort_key n_id nodes') = Some a"
      "adjacent_dup n_id (sort_key n_id nodes) = Some b" "n_id a = n_id b"
      by (cases "adjacent_dup n_id (sort_key n_id nodes')"; cases "adjacent_dup n_id (sort_key n_id nodes)") auto
    then show ?thesis by (simp add: context_snapshot_new_def Let_def)
  qed
  then show ?thesis
    using dup [of n_id nodes] dup [of edge_sort_key edges]
    by (auto simp: context_snapshot_new_def Let_def split: option.splits)
qed

theorem snapshot_order_independent_witness:
  "context_snapshot_new (\<lambda>x. x) (\<lambda>_. []) (rev hub_nodes) hub_edges = Inr hub_snapshot \<and>
   distinct (map n_id hub_nodes)"
  using snapshot_order_independent [of "rev hub_nodes" hub_nodes hub_edges hub_edges "\<lambda>x. x" "\<lambda>_. []"]
    hub_snapshot_new by simp

section \<open>Facts\<close>

text \<open>
  C21: what a fact shows of its provenance. A fact is shown above Gap only with provenance that read
  back and validates, and then with exactly that provenance's confidence, which its tier may assert;
  a missing, malformed or over-ceiling provenance is named and shown as a Gap. The raw property is
  withheld and every other property is kept.
\<close>

theorem context_fact_fails_closed:
  assumes "json_wf props"
  shows "let f = context_fact_new r label props; raw = jget props ''prov'' in
     (case cf_provenance f of
        Some p \<Rightarrow> Option.bind raw prov_from_value = Some p \<and> may_overwrite (p_tier p) (p_confidence p) \<and>
                  cf_confidence f = p_confidence p \<and> cf_problem f = None
      | None \<Rightarrow> cf_confidence f = Gap \<and>
          cf_problem f = Some (if raw = None then ProvMissing
                               else if Option.bind raw prov_from_value = None then ProvMalformed
                               else ProvAboveCeiling)) \<and>
     (cf_provenance f = None \<longleftrightarrow>
        (case Option.bind raw prov_from_value of None \<Rightarrow> True | Some p \<Rightarrow> \<not> is_ok (prov_validate p))) \<and>
     (\<forall>k. jget (cf_properties f) k = (if k = ''prov'' then None else jget props k))"
proof -
  have props: "jget (cf_properties (context_fact_new r label props)) k =
      (if k = ''prov'' then None else jget props k)" for k
    using assms by (cases props)
      (auto simp: context_fact_new_def Let_def map_of_swap_remove split: option.splits sum.splits)
  have ok: "is_ok (prov_validate p) \<longleftrightarrow> may_overwrite (p_tier p) (p_confidence p)" for p
    by (simp add: prov_validate_def may_overwrite_ceiling)
  show ?thesis
    unfolding Let_def props
    by (cases "jget props ''prov''"; cases "Option.bind (jget props ''prov'') prov_from_value")
      (simp_all add: context_fact_new_def ok)
qed

theorem context_fact_fails_closed_witness:
  "json_wf (JObj [(''prov'', JNull), (''name'', JStr ''x'')]) \<and>
   cf_confidence (context_fact_new (NodeRef ''a'') ''File'' (JObj [(''prov'', JNull), (''name'', JStr ''x'')])) = Gap"
proof -
  have wf: "json_wf (JObj [(''prov'', JNull), (''name'', JStr ''x'')])" by simp
  have "prov_from_value JNull = None" by (simp add: prov_from_value_def struct_field_def Let_def)
  then show ?thesis
    using context_fact_fails_closed [OF wf, of "NodeRef ''a''" "''File''"] wf
    by (auto simp: Let_def split: option.splits)
qed

end
