(* ===== verification/Egress.thy ===== *)
theory Egress
  imports Prov
begin

text \<open>
  Secret redaction (\<^verbatim>\<open>crates/core-redact/src/lib.rs\<close>) and the egress firewall
  (\<^verbatim>\<open>crates/llm/src/lib.rs\<close>). The regular expressions are third-party code: a pattern is what the
  code asks of a compiled regex, the number of its matches and the text with every match replaced,
  and the pattern list is a parameter. A model provider is a record of its identity, locality,
  capabilities and completion function; the firewall's effect on it is explicit, as the list of
  payloads the provider was invoked with.
\<close>

section \<open>Redaction\<close>

datatype secret_kind = PrivateKey | BearerToken | ProviderToken | AwsAccessKey | CredentialAssignment

record redact_pattern =
  rp_count :: "string \<Rightarrow> nat"
  rp_replace_all :: "string \<Rightarrow> string"
  rp_kind :: secret_kind

definition rp_is_match :: "redact_pattern \<Rightarrow> string \<Rightarrow> bool" where
  "rp_is_match p input \<longleftrightarrow> rp_count p input \<noteq> 0"

definition recognized_secrets :: "redact_pattern list \<Rightarrow> string \<Rightarrow> secret_kind list" where
  "recognized_secrets pats input = map rp_kind (filter (\<lambda>p. rp_is_match p input) pats)"

fun redact_loop :: "redact_pattern list \<Rightarrow> string \<Rightarrow> nat \<Rightarrow> string \<times> nat" where
  "redact_loop [] output count = (output, count)"
| "redact_loop (p # ps) output count = redact_loop ps (rp_replace_all p output) (count + rp_count p output)"

definition redact_text :: "redact_pattern list \<Rightarrow> string \<Rightarrow> string \<times> nat" where
  "redact_text pats input = redact_loop pats input 0"

definition is_ascii_alphanumeric :: "char \<Rightarrow> bool" where
  "is_ascii_alphanumeric c \<longleftrightarrow>
     (CHR ''0'' \<le> c \<and> c \<le> CHR ''9'') \<or> (CHR ''A'' \<le> c \<and> c \<le> CHR ''Z'') \<or> (CHR ''a'' \<le> c \<and> c \<le> CHR ''z'')"

definition is_token_shaped :: "string \<Rightarrow> bool" where
  "is_token_shaped v \<longleftrightarrow>
     length v \<ge> 40 \<and> \<not> has_ws v \<and>
     list_all (\<lambda>c. is_ascii_alphanumeric c \<or>
       c \<in> {CHR ''+'', CHR ''/'', CHR ''_'', CHR ''-'', CHR ''='', CHR ''.''}) v"

section \<open>Payloads, previews, grants\<close>

datatype locality = Local | Cloud

datatype analysis_tier = SemanticTier | AgenticTier

record provider_caps =
  pc_embeddings :: bool
  pc_chat :: bool
  pc_tool_use :: bool

record payload_span =
  sp_id :: string
  sp_repo :: string
  sp_path :: string
  sp_byte_start :: u64
  sp_byte_end :: u64
  sp_commit_sha :: string
  sp_text :: string

record completion_payload =
  pl_system :: string
  pl_prompt :: string
  pl_spans :: "payload_span list"

record completion_action =
  ac_id :: string
  ac_tier :: analysis_tier
  ac_payload :: completion_payload

record egress_preview =
  pv_provider_id :: string
  pv_locality :: locality
  pv_tier :: analysis_tier
  pv_action_id :: string
  pv_payload :: completion_payload
  pv_payload_hash :: string
  pv_redaction_count :: nat

record consent_grant =
  cg_provider_id :: string
  cg_tier :: analysis_tier
  cg_action_id :: string
  cg_payload_hash :: string

definition grant_from_preview :: "egress_preview \<Rightarrow> consent_grant" where
  "grant_from_preview pv =
     \<lparr>cg_provider_id = pv_provider_id pv, cg_tier = pv_tier pv, cg_action_id = pv_action_id pv,
      cg_payload_hash = pv_payload_hash pv\<rparr>"

definition grant_matches :: "consent_grant \<Rightarrow> egress_preview \<Rightarrow> bool" where
  "grant_matches g pv \<longleftrightarrow>
     cg_provider_id g = pv_provider_id pv \<and> cg_tier g = pv_tier pv \<and>
     cg_action_id g = pv_action_id pv \<and> cg_payload_hash g = pv_payload_hash pv"

record egress_policy =
  ep_cloud_tiers :: "analysis_tier list"

definition local_only :: egress_policy where
  "local_only = \<lparr>ep_cloud_tiers = []\<rparr>"

definition allow_cloud_for :: "analysis_tier list \<Rightarrow> egress_policy" where
  "allow_cloud_for tiers = \<lparr>ep_cloud_tiers = tiers\<rparr>"

definition cloud_allowed :: "egress_policy \<Rightarrow> analysis_tier \<Rightarrow> bool" where
  "cloud_allowed p t \<longleftrightarrow> t \<in> set (ep_cloud_tiers p)"

datatype provider_error =
    InvalidUrl string
  | NonLoopback string
  | RequestFailed string
  | PayloadError string
  | InvalidEmbeddings string
  | Unsupported string
  | EgressDenied string analysis_tier
  | ConsentRequired egress_preview
  | ConsentMismatch
  | EmptyCompletion
  | Refused string "string option"

record llm_provider =
  lp_id :: string
  lp_locality :: locality
  lp_caps :: provider_caps
  lp_complete :: "completion_payload \<Rightarrow> (provider_error, string) result"

section \<open>Wire form of what the hash binds\<close>

definition locality_name :: "locality \<Rightarrow> string" where
  "locality_name l = (case l of Local \<Rightarrow> ''Local'' | Cloud \<Rightarrow> ''Cloud'')"

definition analysis_tier_name :: "analysis_tier \<Rightarrow> string" where
  "analysis_tier_name t = (case t of SemanticTier \<Rightarrow> ''Semantic'' | AgenticTier \<Rightarrow> ''Agentic'')"

definition span_to_value :: "payload_span \<Rightarrow> json" where
  "span_to_value s =
     JObj [(''id'', JStr (sp_id s)), (''repo'', JStr (sp_repo s)), (''path'', JStr (sp_path s)),
           (''byte_start'', JNum (PosInt (sp_byte_start s))), (''byte_end'', JNum (PosInt (sp_byte_end s))),
           (''commit_sha'', JStr (sp_commit_sha s)), (''text'', JStr (sp_text s))]"

definition payload_to_value :: "completion_payload \<Rightarrow> json" where
  "payload_to_value p =
     JObj [(''system'', JStr (pl_system p)), (''prompt'', JStr (pl_prompt p)),
           (''spans'', JArr (map span_to_value (pl_spans p)))]"

definition bound_value :: "llm_provider \<Rightarrow> completion_action \<Rightarrow> completion_payload \<Rightarrow> json" where
  "bound_value provider action payload =
     JArr [JStr (lp_id provider), JStr (locality_name (lp_locality provider)),
           JStr (analysis_tier_name (ac_tier action)), JStr (ac_id action), payload_to_value payload]"

definition user_message :: "(json \<Rightarrow> string) \<Rightarrow> completion_payload \<Rightarrow> string" where
  "user_message pretty p =
     pl_prompt p @ [CHR 0x0A, CHR 0x0A] @ ''Evidence spans (JSON):'' @ [CHR 0x0A] @
     pretty (JArr (map span_to_value (pl_spans p)))"

section \<open>The firewall\<close>

fun redact_spans :: "redact_pattern list \<Rightarrow> payload_span list \<Rightarrow> nat \<Rightarrow> payload_span list \<times> nat" where
  "redact_spans pats [] count = ([], count)"
| "redact_spans pats (s # ss) count =
     (let (text, n) = redact_text pats (sp_text s); (rest, count') = redact_spans pats ss (count + n)
      in (s\<lparr>sp_text := text\<rparr> # rest, count'))"

definition redact_payload :: "redact_pattern list \<Rightarrow> completion_payload \<Rightarrow> completion_payload \<times> nat" where
  "redact_payload pats p =
     (let (system, count) = redact_text pats (pl_system p);
          (prompt, prompt_count) = redact_text pats (pl_prompt p);
          (spans, count') = redact_spans pats (pl_spans p) (count + prompt_count)
      in (\<lparr>pl_system = system, pl_prompt = prompt, pl_spans = spans\<rparr>, count'))"

definition preview ::
  "(string \<Rightarrow> string) \<Rightarrow> (json \<Rightarrow> string) \<Rightarrow> redact_pattern list \<Rightarrow> egress_policy \<Rightarrow> llm_provider
     \<Rightarrow> completion_action \<Rightarrow> (provider_error, egress_preview) result" where
  "preview H ts pats policy provider action =
     (if \<not> pc_chat (lp_caps provider) then Inl (Unsupported ''chat completion'')
      else if lp_locality provider = Cloud \<and> \<not> cloud_allowed policy (ac_tier action)
      then Inl (EgressDenied (lp_id provider) (ac_tier action))
      else (let (payload, redaction_count) = redact_payload pats (ac_payload action)
            in Inr \<lparr>pv_provider_id = lp_id provider, pv_locality = lp_locality provider,
                    pv_tier = ac_tier action, pv_action_id = ac_id action, pv_payload = payload,
                    pv_payload_hash = H (ts (bound_value provider action payload)),
                    pv_redaction_count = redaction_count\<rparr>))"

definition complete ::
  "(string \<Rightarrow> string) \<Rightarrow> (json \<Rightarrow> string) \<Rightarrow> redact_pattern list \<Rightarrow> egress_policy \<Rightarrow> llm_provider
     \<Rightarrow> completion_action \<Rightarrow> consent_grant option
     \<Rightarrow> (provider_error, string) result \<times> completion_payload list" where
  "complete H ts pats policy provider action consent =
     (case preview H ts pats policy provider action of
        Inl e \<Rightarrow> (Inl e, [])
      | Inr pv \<Rightarrow>
          (case (if pv_locality pv = Cloud
                 then (case consent of
                         None \<Rightarrow> Some (ConsentRequired pv)
                       | Some g \<Rightarrow> if grant_matches g pv then None else Some ConsentMismatch)
                 else None) of
             Some e \<Rightarrow> (Inl e, [])
           | None \<Rightarrow>
               ((case lp_complete provider (pv_payload pv) of
                   Inl e \<Rightarrow> Inl e
                 | Inr text \<Rightarrow> if trim text = [] then Inl EmptyCompletion else Inr text),
                [pv_payload pv])))"

section \<open>Embeddings\<close>

definition f32_finite :: "32 word \<Rightarrow> bool" where
  "f32_finite w \<longleftrightarrow> and w 0x7F800000 \<noteq> 0x7F800000"

definition validate_embeddings :: "nat \<Rightarrow> 32 word list list \<Rightarrow> (provider_error, unit) result" where
  "validate_embeddings expected embeddings =
     (if length embeddings \<noteq> expected
      then Inl (InvalidEmbeddings (''expected '' @ show_nat expected @ '' vectors, got '' @ show_nat (length embeddings)))
      else (case embeddings of
              [] \<Rightarrow> Inr ()
            | e # _ \<Rightarrow>
                if length e = 0 \<or> list_ex (\<lambda>v. length v \<noteq> length e \<or> list_ex (\<lambda>x. \<not> f32_finite x) v) embeddings
                then Inl (InvalidEmbeddings ''vectors must be non-empty, finite, and uniformly sized'')
                else Inr ()))"

section \<open>What redaction does\<close>

lemma redact_loop_count: "redact_loop ps x (m + n) = (fst (redact_loop ps x m), snd (redact_loop ps x m) + n)"
proof (induction ps arbitrary: x m)
  case (Cons p ps)
  have "m + n + rp_count p x = (m + rp_count p x) + n" by simp
  then show ?case by (simp only: redact_loop.simps Cons.IH)
qed simp

lemma redact_loop_clean:
  assumes "\<And>p x. p \<in> set ps \<Longrightarrow> rp_count p x = 0 \<Longrightarrow> rp_replace_all p x = x"
  shows "snd (redact_loop ps x n) = n \<Longrightarrow> redact_loop ps x n = (x, n) \<and> (\<forall>p \<in> set ps. rp_count p x = 0)"
  using assms
proof (induction ps arbitrary: x n)
  case (Cons p ps)
  have "snd (redact_loop ps (rp_replace_all p x) n) + rp_count p x = n"
    using Cons.prems(1) redact_loop_count [of ps "rp_replace_all p x" n "rp_count p x"] by simp
  moreover have "n \<le> snd (redact_loop ps y n)" for y
    using redact_loop_count [of ps y 0 n] by simp
  ultimately have "rp_count p x = 0" "snd (redact_loop ps (rp_replace_all p x) n) = n"
    using le_antisym by (metis add_leE add.right_neutral add_left_cancel le_add1)+
  with Cons show ?case by simp
qed simp

lemma redact_spans_eq:
  "redact_spans pats ss n =
     (map (\<lambda>s. s\<lparr>sp_text := fst (redact_text pats (sp_text s))\<rparr>) ss,
      n + sum_list (map (\<lambda>s. snd (redact_text pats (sp_text s))) ss))"
  by (induction ss arbitrary: n) (simp_all add: split_beta Let_def)

end
