(* ===== verification/Egress_Props.thy ===== *)
theory Egress_Props
  imports Egress
begin

text \<open>
  What the firewall guarantees its callers, as the interface locale \<open>egress_gate\<close> (a gated call
  reaches the provider at most once, with one prepared payload, and a cloud provider only under a
  grant) interpreted on \<open>complete\<close>, and the strength of a grant.
\<close>

section \<open>The gate as an interface\<close>

locale egress_gate =
  fixes gate :: "'a \<Rightarrow> 'g option \<Rightarrow> ('e, 'r) result \<times> 'p list"
    and prepared :: "'a \<Rightarrow> 'p"
    and offdevice :: bool
    and granted :: "'a \<Rightarrow> 'g \<Rightarrow> bool"
  assumes one_prepared_call: "snd (gate a g) \<in> {[], [prepared a]}"
    and needs_grant: "offdevice \<Longrightarrow> snd (gate a g) \<noteq> [] \<Longrightarrow> \<exists>c. g = Some c \<and> granted a c"
    and result_needs_call: "fst (gate a g) = Inr r \<Longrightarrow> snd (gate a g) \<noteq> []"
begin

lemma ungranted_silent: "offdevice \<Longrightarrow> snd (gate a None) = []"
  using needs_grant by fastforce

lemma batch_ungranted_silent: "offdevice \<Longrightarrow> concat (map (\<lambda>a. snd (gate a None)) as) = []"
  by (simp add: ungranted_silent)

lemma result_from_prepared: "fst (gate a g) = Inr r \<Longrightarrow> snd (gate a g) = [prepared a]"
  using one_prepared_call [of a g] result_needs_call by auto

lemma result_granted: "offdevice \<Longrightarrow> fst (gate a g) = Inr r \<Longrightarrow> \<exists>c. g = Some c \<and> granted a c"
  using needs_grant result_needs_call by blast

end

abbreviation redacted :: "redact_pattern list \<Rightarrow> completion_action \<Rightarrow> completion_payload" where
  "redacted pats action \<equiv> fst (redact_payload pats (ac_payload action))"

text \<open>The grant a firewall requires for an action: every field of what it binds.\<close>

definition authorises ::
  "(string \<Rightarrow> string) \<Rightarrow> (json \<Rightarrow> string) \<Rightarrow> redact_pattern list \<Rightarrow> egress_policy \<Rightarrow> llm_provider
     \<Rightarrow> completion_action \<Rightarrow> consent_grant \<Rightarrow> bool" where
  "authorises H ts pats policy provider action g \<longleftrightarrow>
     cloud_allowed policy (ac_tier action) \<and> cg_provider_id g = lp_id provider \<and>
     cg_tier g = ac_tier action \<and> cg_action_id g = ac_id action \<and>
     cg_payload_hash g = H (ts (bound_value provider action (redacted pats action)))"

lemma preview_ok:
  assumes "preview H ts pats policy provider action = Inr pv"
  shows "pc_chat (lp_caps provider)" "pv_provider_id pv = lp_id provider" "pv_locality pv = lp_locality provider"
    "pv_tier pv = ac_tier action" "pv_action_id pv = ac_id action" "pv_payload pv = redacted pats action"
    "pv_payload_hash pv = H (ts (bound_value provider action (redacted pats action)))"
    "lp_locality provider = Cloud \<longrightarrow> cloud_allowed policy (ac_tier action)"
    "pv_redaction_count pv = snd (redact_payload pats (ac_payload action))"
  using assms by (auto simp: preview_def Let_def split: if_splits prod.splits)

lemma complete_calls:
  assumes "snd (complete H ts pats policy provider action consent) \<noteq> []"
  shows "snd (complete H ts pats policy provider action consent) = [redacted pats action]"
    and "lp_locality provider = Cloud \<Longrightarrow>
      \<exists>g. consent = Some g \<and> authorises H ts pats policy provider action g"
  using assms
  by (auto simp: complete_def authorises_def grant_matches_def preview_ok
      split: sum.splits if_splits option.splits)

lemma complete_result:
  "fst (complete H ts pats policy provider action consent) = Inr text \<Longrightarrow>
   snd (complete H ts pats policy provider action consent) \<noteq> []"
  by (auto simp: complete_def split: sum.splits if_splits option.splits)

interpretation firewall: egress_gate
  "complete H ts pats policy provider" "redacted pats" "lp_locality provider = Cloud"
  "authorises H ts pats policy provider"
  for H ts pats policy provider
proof
  fix a g
  show "snd (complete H ts pats policy provider a g) \<in> {[], [redacted pats a]}"
    using complete_calls(1) by (cases "snd (complete H ts pats policy provider a g) = []") auto
  show "lp_locality provider = Cloud \<Longrightarrow> snd (complete H ts pats policy provider a g) \<noteq> [] \<Longrightarrow>
      \<exists>c. g = Some c \<and> authorises H ts pats policy provider a c"
    using complete_calls(2) by blast
  show "fst (complete H ts pats policy provider a g) = Inr r \<Longrightarrow>
      snd (complete H ts pats policy provider a g) \<noteq> []" for r
    by (rule complete_result)
qed

text \<open>
  C22: the egress firewall. A call reaches a provider at most once and only with the redacted
  payload of the action; it reaches a cloud provider only when policy enables the tier and the
  presented grant names this provider, tier and action and carries the hash of exactly this redacted
  payload; a completion is returned only if such a call was made; and a local-only policy refuses
  every cloud action before any call.
\<close>

theorem firewall_gates_egress:
  "(let (res, calls) = complete H ts pats policy provider action consent in
      calls \<in> {[], [redacted pats action]} \<and>
      (is_ok res \<longrightarrow> calls = [redacted pats action]) \<and>
      (lp_locality provider = Cloud \<and> calls \<noteq> [] \<longrightarrow>
         (\<exists>g. consent = Some g \<and> authorises H ts pats policy provider action g))) \<and>
   (lp_locality provider = Cloud \<and> pc_chat (lp_caps provider) \<longrightarrow>
      complete H ts pats local_only provider action consent = (Inl (EgressDenied (lp_id provider) (ac_tier action)), []))"
proof
  obtain res calls where c: "complete H ts pats policy provider action consent = (res, calls)" by fastforce
  have "is_ok res \<longrightarrow> calls = [redacted pats action]"
    using firewall.result_from_prepared [of H ts pats policy provider action consent] c by (cases res) auto
  with c show "let (res, calls) = complete H ts pats policy provider action consent in
      calls \<in> {[], [redacted pats action]} \<and> (is_ok res \<longrightarrow> calls = [redacted pats action]) \<and>
      (lp_locality provider = Cloud \<and> calls \<noteq> [] \<longrightarrow>
         (\<exists>g. consent = Some g \<and> authorises H ts pats policy provider action g))"
    using firewall.one_prepared_call [of H ts pats policy provider action consent]
      firewall.needs_grant [of provider H ts pats policy action consent] by auto
  show "lp_locality provider = Cloud \<and> pc_chat (lp_caps provider) \<longrightarrow>
      complete H ts pats local_only provider action consent = (Inl (EgressDenied (lp_id provider) (ac_tier action)), [])"
    by (simp add: complete_def preview_def local_only_def cloud_allowed_def)
qed

definition demo_cloud :: llm_provider where
  "demo_cloud = \<lparr>lp_id = ''cloud:test'', lp_locality = Cloud,
     lp_caps = \<lparr>pc_embeddings = False, pc_chat = True, pc_tool_use = False\<rparr>, lp_complete = (\<lambda>_. Inr ''ok'')\<rparr>"

definition demo_action :: completion_action where
  "demo_action = \<lparr>ac_id = ''a'', ac_tier = AgenticTier,
     ac_payload = \<lparr>pl_system = [], pl_prompt = ''p'', pl_spans = []\<rparr>\<rparr>"

definition demo_grant :: consent_grant where
  "demo_grant = \<lparr>cg_provider_id = ''cloud:test'', cg_tier = AgenticTier, cg_action_id = ''a'', cg_payload_hash = []\<rparr>"

lemma trim_ok: "trim ''ok'' = ''ok''"
  by (simp add: trim_def trim_start_def trim_end_def strip_seqs.simps ws_seqs_def starts_with_def)

lemma demo_complete:
  "complete (\<lambda>x. x) (\<lambda>_. []) [] (allow_cloud_for [AgenticTier]) demo_cloud demo_action (Some demo_grant) =
     (Inr ''ok'', [ac_payload demo_action])"
  by (simp add: complete_def preview_def demo_cloud_def demo_action_def demo_grant_def allow_cloud_for_def
      cloud_allowed_def redact_payload_def redact_text_def grant_matches_def trim_ok)

theorem firewall_gates_egress_witness:
  "complete (\<lambda>x. x) (\<lambda>_. []) [] (allow_cloud_for [AgenticTier]) demo_cloud demo_action (Some demo_grant) =
     (Inr ''ok'', [ac_payload demo_action]) \<and>
   authorises (\<lambda>x. x) (\<lambda>_. []) [] (allow_cloud_for [AgenticTier]) demo_cloud demo_action demo_grant \<and>
   snd (complete (\<lambda>x. x) (\<lambda>_. []) [] local_only demo_cloud demo_action (Some demo_grant)) = []"
proof -
  have "lp_locality demo_cloud = Cloud" "pc_chat (lp_caps demo_cloud)" by (simp_all add: demo_cloud_def)
  then show ?thesis
    using firewall_gates_egress [of "\<lambda>x. x" "\<lambda>_. []" "[]" "allow_cloud_for [AgenticTier]" demo_cloud demo_action "Some demo_grant"]
      demo_complete by simp
qed

section \<open>What a grant binds\<close>

lemma span_to_value_inj [simp]: "span_to_value a = span_to_value b \<longleftrightarrow> a = b"
  by (cases a; cases b) (simp add: span_to_value_def)

lemma payload_to_value_inj [simp]: "payload_to_value a = payload_to_value b \<longleftrightarrow> a = b"
proof
  assume "payload_to_value a = payload_to_value b"
  moreover have "inj span_to_value" by (simp add: inj_on_def)
  ultimately show "a = b" by (cases a; cases b) (simp add: payload_to_value_def inj_map_eq_map)
qed simp

lemma tier_and_locality_names [simp]:
  "analysis_tier_name a = analysis_tier_name b \<longleftrightarrow> a = b"
  "locality_name l = locality_name m \<longleftrightarrow> l = m"
  by (cases a; cases b; simp add: analysis_tier_name_def) (cases l; cases m; simp add: locality_name_def)

text \<open>
  C23: a grant is good for one preview. If the grant a user gave for the preview of one action is
  accepted for a second action sent to any provider, and the digest does not confuse the two bound
  values, then the second action has the same provider id and locality, the same tier and action
  id, and sends byte for byte the redacted payload that was previewed.
\<close>

theorem consent_binds_exact_payload:
  assumes shown: "preview H ts pats policy provider action = Inr pv"
    and sent: "snd (complete H ts pats policy' provider' action' (Some (grant_from_preview pv))) = [sent_payload]"
    and cloud: "lp_locality provider' = Cloud"
    and no_collision: "H (ts (bound_value provider action (pv_payload pv))) = H (ts (bound_value provider' action' sent_payload)) \<Longrightarrow>
      ts (bound_value provider action (pv_payload pv)) = ts (bound_value provider' action' sent_payload)"
    and printing: "ts (bound_value provider action (pv_payload pv)) = ts (bound_value provider' action' sent_payload) \<Longrightarrow>
      bound_value provider action (pv_payload pv) = bound_value provider' action' sent_payload"
  shows "sent_payload = pv_payload pv \<and> lp_id provider' = lp_id provider \<and> lp_locality provider = Cloud \<and>
     ac_tier action' = ac_tier action \<and> ac_id action' = ac_id action"
proof -
  have pay: "sent_payload = redacted pats action'"
    using complete_calls(1) [of H ts pats policy' provider' action' "Some (grant_from_preview pv)"] sent by simp
  have "authorises H ts pats policy' provider' action' (grant_from_preview pv)"
    using complete_calls(2) [of H ts pats policy' provider' action' "Some (grant_from_preview pv)"] sent cloud by simp
  then have "bound_value provider action (pv_payload pv) = bound_value provider' action' sent_payload"
    using preview_ok [OF shown] pay no_collision printing by (simp add: authorises_def grant_from_preview_def)
  with cloud show ?thesis by (simp add: bound_value_def)
qed

theorem consent_binds_exact_payload_witness:
  "\<exists>pv. preview (\<lambda>x. x) (\<lambda>_. []) [] (allow_cloud_for [AgenticTier]) demo_cloud demo_action = Inr pv \<and>
     snd (complete (\<lambda>x. x) (\<lambda>_. []) [] (allow_cloud_for [AgenticTier]) demo_cloud demo_action
       (Some (grant_from_preview pv))) = [ac_payload demo_action] \<and> pv_payload pv = ac_payload demo_action"
proof -
  obtain pv where pv: "preview (\<lambda>x. x) (\<lambda>_. []) [] (allow_cloud_for [AgenticTier]) demo_cloud demo_action = Inr pv"
    by (simp add: preview_def demo_cloud_def demo_action_def allow_cloud_for_def cloud_allowed_def
        redact_payload_def redact_text_def)
  have g: "grant_from_preview pv = demo_grant"
    using preview_ok [OF pv] by (simp add: grant_from_preview_def demo_grant_def demo_cloud_def demo_action_def)
  have red: "pv_payload pv = ac_payload demo_action"
    using preview_ok(6) [OF pv] by (simp add: redact_payload_def redact_text_def demo_action_def)
  have "ac_payload demo_action = pv_payload pv \<and> lp_id demo_cloud = lp_id demo_cloud \<and> lp_locality demo_cloud = Cloud \<and>
     ac_tier demo_action = ac_tier demo_action \<and> ac_id demo_action = ac_id demo_action"
    by (rule consent_binds_exact_payload [OF pv, of "allow_cloud_for [AgenticTier]" demo_cloud demo_action])
      (simp_all add: g demo_complete red, simp add: demo_cloud_def)
  then show ?thesis using pv g demo_complete by (intro exI [of _ pv]) simp
qed

end
