(* ===== verification/Agent_Broker.thy ===== *)
theory Agent_Broker
  imports Egress_Props
begin

text \<open>
  The bounded, propose-only T3 broker (\<^verbatim>\<open>crates/agents/src/lib.rs\<close>): the task it accepts, its
  hard bounds, the action it sends through the egress firewall, the validation of what the model
  answers, and the class-level batch. Parsing the model's text into the proposal schema
  (\<^verbatim>\<open>serde_json::from_str::<RawProposal>\<close>) is the parameter \<open>parse\<close>, pretty printing is \<open>pretty\<close>.
  Provider calls are explicit, as in \<open>Egress\<close>.
\<close>

section \<open>Data\<close>

definition AGENT_EXTRACTOR_ID :: string where "AGENT_EXTRACTOR_ID = ''t3.agent-broker''"

record agent_evidence =
  ae_id :: string
  ae_source :: evidence_ref
  ae_text :: string

record agent_candidate =
  ca_node_id :: string
  ca_label :: string
  ca_summary :: string
  ca_evidence_ids :: "string list"

record agent_task =
  at_action_id :: string
  at_gap_id :: string
  at_source_id :: string
  at_edge_label :: string
  at_existing_confidence :: confidence_tier
  at_source_evidence_ids :: "string list"
  at_evidence :: "agent_evidence list"
  at_candidates :: "agent_candidate list"

record broker_limits =
  bl_max_evidence_spans :: nat
  bl_max_span_bytes :: nat
  bl_max_total_evidence_bytes :: nat
  bl_max_candidates :: nat
  bl_allowed_edge_labels :: "string list"

definition broker_limits_default :: broker_limits where
  "broker_limits_default =
     \<lparr>bl_max_evidence_spans = 12, bl_max_span_bytes = 8 * 1024, bl_max_total_evidence_bytes = 48 * 1024,
      bl_max_candidates = 20,
      bl_allowed_edge_labels =
        [''BACKS'', ''CALLS'', ''DECIDES'', ''FETCHES'', ''GOVERNS'', ''MAPS_TO'', ''PUBLISHES'', ''REFERENCES'',
         ''SUBSCRIBES'']\<rparr>"

record agent_proposal =
  pp_gap_id :: string
  pp_source_id :: string
  pp_target_id :: string
  pp_edge_label :: string
  pp_annotation :: string
  pp_basis_hash :: string
  pp_provenance :: provenance

record raw_proposal =
  rw_target_id :: string
  rw_annotation :: string
  rw_citations :: "string list"

datatype agent_error =
    InvalidTask string
  | Integrity string
  | InvalidResponse string
  | Provider provider_error
  | AgentJson
  | AgentStorage string

section \<open>The basis of a task\<close>

definition agent_evidence_to_value :: "agent_evidence \<Rightarrow> json" where
  "agent_evidence_to_value e =
     JObj [(''id'', JStr (ae_id e)), (''source'', evidence_to_value (ae_source e)), (''text'', JStr (ae_text e))]"

definition agent_candidate_to_value :: "agent_candidate \<Rightarrow> json" where
  "agent_candidate_to_value c =
     JObj [(''node_id'', JStr (ca_node_id c)), (''label'', JStr (ca_label c)), (''summary'', JStr (ca_summary c)),
           (''evidence_ids'', JArr (map JStr (ca_evidence_ids c)))]"

definition basis_hash :: "(string \<Rightarrow> string) \<Rightarrow> (json \<Rightarrow> string) \<Rightarrow> agent_task \<Rightarrow> string" where
  "basis_hash H ts t =
     (let source_evidence_ids = sort (at_source_evidence_ids t);
          evidence = sort_key ae_id (at_evidence t);
          candidates = sort_key ca_node_id
            (map (\<lambda>c. c\<lparr>ca_evidence_ids := sort (ca_evidence_ids c)\<rparr>) (at_candidates t))
      in content_hash H (ts (JArr
           [JStr (at_gap_id t), JStr (at_source_id t), JStr (at_edge_label t),
            JStr (confidence_name (at_existing_confidence t)), JArr (map JStr source_evidence_ids),
            JArr (map agent_evidence_to_value evidence), JArr (map agent_candidate_to_value candidates)])))"

section \<open>Validating and preparing a task\<close>

definition unique_nonempty :: "string list \<Rightarrow> (agent_error, string list) result" where
  "unique_nonempty values =
     (if list_ex (\<lambda>v. trim v = []) values then Inl (InvalidTask ''ids must be non-empty'')
      else (let unique = fold insort_insert values [] in
            if length unique \<noteq> length values then Inl (InvalidTask ''ids must be unique'') else Inr unique))"

definition validate_task :: "broker_limits \<Rightarrow> agent_task \<Rightarrow> (agent_error, unit) result" where
  "validate_task lim t =
     (if \<not> may_overwrite Agentic (at_existing_confidence t)
      then Inl (Integrity (''T3 cannot propose over '' @ confidence_name (at_existing_confidence t)))
      else if at_edge_label t \<notin> set (bl_allowed_edge_labels lim)
      then Inl (InvalidTask (''edge label '' @ at_edge_label t @ '' is outside the broker allowlist''))
      else if trim (at_action_id t) = [] \<or> trim (at_gap_id t) = [] \<or> trim (at_source_id t) = []
      then Inl (InvalidTask ''action, Gap, and source ids must be non-empty'')
      else if at_evidence t = [] \<or> length (at_evidence t) > bl_max_evidence_spans lim
      then Inl (InvalidTask (''evidence span count must be 1..='' @ show_nat (bl_max_evidence_spans lim)))
      else if at_candidates t = [] \<or> length (at_candidates t) > bl_max_candidates lim
      then Inl (InvalidTask (''candidate count must be 1..='' @ show_nat (bl_max_candidates lim)))
      else if sum_list (map (\<lambda>e. length (ae_text e)) (at_evidence t)) > bl_max_total_evidence_bytes lim \<or>
              list_ex (\<lambda>e. length (ae_text e) > bl_max_span_bytes lim) (at_evidence t)
      then Inl (InvalidTask ''evidence exceeds configured byte bounds'')
      else rbind (unique_nonempty (map ae_id (at_evidence t))) (\<lambda>evidence_ids.
           rbind (unique_nonempty (map ca_node_id (at_candidates t))) (\<lambda>candidate_ids.
             if length candidate_ids \<noteq> length (at_candidates t) then Inl (InvalidTask ''duplicate candidate id'')
             else if at_source_evidence_ids t = [] \<or> list_ex (\<lambda>i. i \<notin> set evidence_ids) (at_source_evidence_ids t)
             then Inl (InvalidTask ''source evidence ids must name available evidence'')
             else if list_ex (\<lambda>c. ca_evidence_ids c = [] \<or> list_ex (\<lambda>i. i \<notin> set evidence_ids) (ca_evidence_ids c))
                       (at_candidates t)
             then Inl (InvalidTask ''each candidate must cite available target evidence'')
             else Inr ())))"

definition SYSTEM_PROMPT :: string where
  "SYSTEM_PROMPT =
     ''You are Cartograph'' @ [CHR 0x27] @ ''s bounded T3 resolver. Propose one link only. '' @
     ''Choose an existing allowed target, cite evidence from both sides, '' @
     ''never claim Confirmed or InferredStrong confidence, never invent a node, '' @
     ''and return exactly one JSON object with target_id, annotation, citations.''"

definition task_prompt :: "agent_task \<Rightarrow> json" where
  "task_prompt t =
     JObj [(''gap_id'', JStr (at_gap_id t)), (''source_id'', JStr (at_source_id t)),
           (''edge_label'', JStr (at_edge_label t)),
           (''source_evidence_ids'', JArr (map JStr (at_source_evidence_ids t))),
           (''allowed_candidates'', JArr (map agent_candidate_to_value (at_candidates t))),
           (''response_schema'',
             JObj [(''target_id'', JStr ''one allowed candidate node_id''), (''annotation'', JStr ''brief rationale''),
                   (''citations'', JArr [JStr ''source evidence id'', JStr ''target evidence id''])])]"

definition evidence_span :: "agent_evidence \<Rightarrow> payload_span" where
  "evidence_span e =
     \<lparr>sp_id = ae_id e, sp_repo = ev_repo (ae_source e), sp_path = ev_path (ae_source e),
      sp_byte_start = ev_byte_start (ae_source e), sp_byte_end = ev_byte_end (ae_source e),
      sp_commit_sha = ev_commit_sha (ae_source e), sp_text = ae_text e\<rparr>"

definition prepare :: "(json \<Rightarrow> string) \<Rightarrow> broker_limits \<Rightarrow> agent_task \<Rightarrow> (agent_error, completion_action) result" where
  "prepare pretty lim t =
     rbind (validate_task lim t) (\<lambda>_.
       Inr \<lparr>ac_id = at_action_id t, ac_tier = AgenticTier,
            ac_payload = \<lparr>pl_system = SYSTEM_PROMPT, pl_prompt = pretty (task_prompt t),
                          pl_spans = map evidence_span (at_evidence t)\<rparr>\<rparr>)"

section \<open>Validating the answer\<close>

definition canonical_fact :: "(json \<Rightarrow> string) \<Rightarrow> string \<Rightarrow> string \<Rightarrow> string \<Rightarrow> string \<Rightarrow> string \<Rightarrow> string" where
  "canonical_fact ts gap source target label basis =
     ts (JArr [JStr gap, JStr source, JStr target, JStr label, JStr basis])"

definition validate_response_with_basis ::
  "(string \<Rightarrow> string) \<Rightarrow> (json \<Rightarrow> string) \<Rightarrow> agent_task \<Rightarrow> raw_proposal \<Rightarrow> string
     \<Rightarrow> (agent_error, agent_proposal) result" where
  "validate_response_with_basis H ts t raw basis =
     (let candidates = fold (\<lambda>c. om_put (ca_node_id c) c) (at_candidates t) [];
          evidence = fold (\<lambda>e. om_put (ae_id e) e) (at_evidence t) []
      in case om_get candidates (rw_target_id raw) of
           None \<Rightarrow> Inl (InvalidResponse ''model selected a target outside the closed candidate set'')
         | Some candidate \<Rightarrow>
             rbind (unique_nonempty (rw_citations raw)) (\<lambda>citations.
             if length citations \<noteq> length (rw_citations raw) \<or> list_ex (\<lambda>i. om_get evidence i = None) citations
             then Inl (InvalidResponse ''citations must be unique ids from the supplied evidence'')
             else if \<not> list_ex (\<lambda>i. i \<in> set citations) (at_source_evidence_ids t) \<or>
                     \<not> list_ex (\<lambda>i. i \<in> set citations) (ca_evidence_ids candidate)
             then Inl (InvalidResponse ''proposal must cite both the source/Gap and selected target'')
             else (case prov_new H Agentic InferredWeak
                          (map ae_source (List.map_filter (om_get evidence) (rw_citations raw))) AGENT_EXTRACTOR_ID
                          (canonical_fact ts (at_gap_id t) (at_source_id t) (rw_target_id raw) (at_edge_label t) basis) of
                     Inl (AboveCeiling tr c) \<Rightarrow>
                       Inl (Integrity (tier_name tr @ '' may not assert '' @ confidence_name c @ '' (above ceiling)''))
                   | Inr p \<Rightarrow> Inr \<lparr>pp_gap_id = at_gap_id t, pp_source_id = at_source_id t,
                                    pp_target_id = rw_target_id raw, pp_edge_label = at_edge_label t,
                                    pp_annotation = rw_annotation raw, pp_basis_hash = basis, pp_provenance = p\<rparr>)))"

definition validate_response where
  "validate_response H ts t raw = validate_response_with_basis H ts t raw (basis_hash H ts t)"

section \<open>Proposing\<close>

text \<open>The world a broker runs in: printers, digest, redaction patterns, policy, provider, parser.\<close>

record broker_env =
  be_hash :: "string \<Rightarrow> string"
  be_ts :: "json \<Rightarrow> string"
  be_pretty :: "json \<Rightarrow> string"
  be_patterns :: "redact_pattern list"
  be_policy :: egress_policy
  be_provider :: llm_provider
  be_parse :: "string \<Rightarrow> (string, raw_proposal) result"

definition broker_preview :: "broker_env \<Rightarrow> broker_limits \<Rightarrow> agent_task \<Rightarrow> (agent_error, egress_preview) result" where
  "broker_preview env lim t =
     rbind (prepare (be_pretty env) lim t) (\<lambda>action.
       (case preview (be_hash env) (be_ts env) (be_patterns env) (be_policy env) (be_provider env) action of
          Inl e \<Rightarrow> Inl (Provider e) | Inr pv \<Rightarrow> Inr pv))"

definition propose ::
  "broker_env \<Rightarrow> broker_limits \<Rightarrow> agent_task \<Rightarrow> consent_grant option
     \<Rightarrow> (agent_error, agent_proposal) result \<times> completion_payload list" where
  "propose env lim t consent =
     (case prepare (be_pretty env) lim t of
        Inl e \<Rightarrow> (Inl e, [])
      | Inr action \<Rightarrow>
          (case complete (be_hash env) (be_ts env) (be_patterns env) (be_policy env) (be_provider env) action consent of
             (Inl e, calls) \<Rightarrow> (Inl (Provider e), calls)
           | (Inr text, calls) \<Rightarrow>
               ((case be_parse env text of
                   Inl msg \<Rightarrow> Inl (InvalidResponse msg)
                 | Inr raw \<Rightarrow> validate_response (be_hash env) (be_ts env) t raw), calls)))"

record batch_outcome =
  bo_proposals :: "agent_proposal list"
  bo_failures :: "(string \<times> string) list"
  bo_cancelled :: bool

text \<open>
  The batch loop. The cancellation poll before instance \<open>k\<close> is \<open>cancelled k\<close>; \<open>show_error\<close> is the
  error's display text. The second component is every provider call of the batch in order.
\<close>

fun batch_loop ::
  "broker_env \<Rightarrow> broker_limits \<Rightarrow> (agent_error \<Rightarrow> string) \<Rightarrow> (nat \<Rightarrow> bool) \<Rightarrow> nat
     \<Rightarrow> (string \<times> (string, agent_task) result) list \<Rightarrow> batch_outcome \<Rightarrow> completion_payload list
     \<Rightarrow> batch_outcome \<times> completion_payload list" where
  "batch_loop env lim show_error cancelled k [] out calls = (out, calls)"
| "batch_loop env lim show_error cancelled k ((gap_id, task) # tasks) out calls =
     (if cancelled k then (out\<lparr>bo_cancelled := True\<rparr>, calls)
      else (case task of
              Inl e \<Rightarrow>
                batch_loop env lim show_error cancelled (k + 1) tasks
                  (out\<lparr>bo_failures := bo_failures out @ [(gap_id, e)]\<rparr>) calls
            | Inr t \<Rightarrow>
                (case propose env lim t None of
                   (Inr p, cs) \<Rightarrow>
                     batch_loop env lim show_error cancelled (k + 1) tasks
                       (out\<lparr>bo_proposals := bo_proposals out @ [p]\<rparr>) (calls @ cs)
                 | (Inl e, cs) \<Rightarrow>
                     batch_loop env lim show_error cancelled (k + 1) tasks
                       (out\<lparr>bo_failures := bo_failures out @ [(gap_id, show_error e)]\<rparr>) (calls @ cs))))"

definition propose_batch where
  "propose_batch env lim show_error cancelled tasks =
     batch_loop env lim show_error cancelled 0 tasks
       \<lparr>bo_proposals = [], bo_failures = [], bo_cancelled = False\<rparr> []"

end
