(* ===== verification/Decision_Log.thy ===== *)
theory Decision_Log
  imports Agent_Broker
begin

text \<open>
  The durable curation log of \<^verbatim>\<open>crates/agents/src/lib.rs\<close>: human decisions on staged proposals,
  keyed by the proposal's content hash, and on cited T2/T3 assertions. The two tables are key-ordered
  maps; a row keeps the proposal as JSON text (\<open>ts\<close>, \<open>fs\<close>) and is validated again when read. The
  timestamp SQLite supplies is the argument \<open>now\<close>.
\<close>

section \<open>Wire forms\<close>

definition proposal_to_value :: "agent_proposal \<Rightarrow> json" where
  "proposal_to_value p =
     JObj [(''gap_id'', JStr (pp_gap_id p)), (''source_id'', JStr (pp_source_id p)),
           (''target_id'', JStr (pp_target_id p)), (''edge_label'', JStr (pp_edge_label p)),
           (''annotation'', JStr (pp_annotation p)), (''basis_hash'', JStr (pp_basis_hash p)),
           (''provenance'', prov_to_value (pp_provenance p))]"

definition proposal_fields :: "string list" where
  "proposal_fields =
     [''gap_id'', ''source_id'', ''target_id'', ''edge_label'', ''annotation'', ''basis_hash'', ''provenance'']"

definition proposal_from_value :: "json \<Rightarrow> agent_proposal option" where
  "proposal_from_value v =
     (let fld = struct_field proposal_fields v; str = (\<lambda>k. Option.bind (fld k) as_str) in
      case (str ''gap_id'', str ''source_id'', str ''target_id'', str ''edge_label'', str ''annotation'',
            str ''basis_hash'', Option.bind (fld ''provenance'') prov_from_value) of
        (Some g, Some s, Some t, Some l, Some a, Some b, Some p) \<Rightarrow>
          Some \<lparr>pp_gap_id = g, pp_source_id = s, pp_target_id = t, pp_edge_label = l, pp_annotation = a,
                pp_basis_hash = b, pp_provenance = p\<rparr>
      | _ \<Rightarrow> None)"

record curatable_assertion =
  cu_subject_id :: string
  cu_summary :: string
  cu_provenance :: provenance

definition assertion_to_value :: "curatable_assertion \<Rightarrow> json" where
  "assertion_to_value a =
     JObj [(''subject_id'', JStr (cu_subject_id a)), (''summary'', JStr (cu_summary a)),
           (''provenance'', prov_to_value (cu_provenance a))]"

definition assertion_from_value :: "json \<Rightarrow> curatable_assertion option" where
  "assertion_from_value v =
     (let fld = struct_field [''subject_id'', ''summary'', ''provenance''] v in
      case (Option.bind (fld ''subject_id'') as_str, Option.bind (fld ''summary'') as_str,
            Option.bind (fld ''provenance'') prov_from_value) of
        (Some s, Some m, Some p) \<Rightarrow> Some \<lparr>cu_subject_id = s, cu_summary = m, cu_provenance = p\<rparr>
      | _ \<Rightarrow> None)"

section \<open>Decisions\<close>

datatype proposal_decision = Accepted | Rejected

definition decision_as_str :: "proposal_decision \<Rightarrow> string" where
  "decision_as_str d = (case d of Accepted \<Rightarrow> ''accepted'' | Rejected \<Rightarrow> ''rejected'')"

definition decision_parse :: "string \<Rightarrow> (agent_error, proposal_decision) result" where
  "decision_parse v =
     (if v = ''accepted'' then Inr Accepted else if v = ''rejected'' then Inr Rejected
      else Inl (AgentStorage (''invalid persisted decision '' @ v)))"

datatype assertion_decision = AssertAccepted | AssertRejected | Annotated

definition assertion_as_str :: "assertion_decision \<Rightarrow> string" where
  "assertion_as_str d =
     (case d of AssertAccepted \<Rightarrow> ''accepted'' | AssertRejected \<Rightarrow> ''rejected'' | Annotated \<Rightarrow> ''annotated'')"

definition assertion_parse :: "string \<Rightarrow> (agent_error, assertion_decision) result" where
  "assertion_parse v =
     (if v = ''accepted'' then Inr AssertAccepted else if v = ''rejected'' then Inr AssertRejected
      else if v = ''annotated'' then Inr Annotated
      else Inl (AgentStorage (''invalid persisted assertion decision '' @ v)))"

record decision_record =
  de_proposal :: agent_proposal
  de_decision :: proposal_decision
  de_note :: "string option"
  de_updated_at :: string

record assertion_record =
  ar_assertion :: curatable_assertion
  ar_decision :: assertion_decision
  ar_note :: "string option"
  ar_updated_at :: string

section \<open>Tables\<close>

record decision_row =
  dr_basis_hash :: string
  dr_gap_id :: string
  dr_decision :: string
  dr_proposal_json :: string
  dr_note :: "string option"
  dr_updated_at :: string

record assertion_row =
  as_json :: string
  as_decision :: string
  as_note :: "string option"
  as_updated_at :: string

record decision_log =
  dl_proposals :: "(string, decision_row) omap"
  dl_assertions :: "(string, assertion_row) omap"

section \<open>Validation\<close>

definition validate_staged_proposal ::
  "(string \<Rightarrow> string) \<Rightarrow> (json \<Rightarrow> string) \<Rightarrow> agent_proposal \<Rightarrow> (agent_error, unit) result" where
  "validate_staged_proposal H ts p =
     (if p_tier (pp_provenance p) \<noteq> Agentic \<or> p_confidence (pp_provenance p) \<noteq> InferredWeak \<or>
         p_extractor (pp_provenance p) \<noteq> AGENT_EXTRACTOR_ID \<or> p_evidence (pp_provenance p) = []
      then Inl (Integrity ''decision log accepts only cited Agentic/InferredWeak broker proposals'')
      else if p_hash (pp_provenance p) \<noteq>
              content_hash H (canonical_fact ts (pp_gap_id p) (pp_source_id p) (pp_target_id p) (pp_edge_label p) (pp_basis_hash p))
      then Inl (Integrity ''proposal content hash does not match its staged fact'')
      else Inr ())"

definition validate_curatable_assertion :: "curatable_assertion \<Rightarrow> (agent_error, unit) result" where
  "validate_curatable_assertion a =
     (if trim (cu_subject_id a) = [] \<or> trim (cu_summary a) = [] \<or>
         \<not> is_ok (prov_validate (cu_provenance a)) \<or> trim (p_hash (cu_provenance a)) = [] \<or>
         p_evidence (cu_provenance a) = [] \<or>
         p_confidence (cu_provenance a) \<notin> {InferredStrong, InferredWeak} \<or>
         p_tier (cu_provenance a) \<notin> {Semantic, Agentic}
      then Inl (Integrity ''Workbench curation accepts only cited T2/T3 inferred assertions'')
      else Inr ())"

section \<open>Operations\<close>

definition parse_decision_row ::
  "(string \<Rightarrow> string) \<Rightarrow> (json \<Rightarrow> string) \<Rightarrow> (string \<Rightarrow> json option) \<Rightarrow> decision_row
     \<Rightarrow> (agent_error, decision_record) result" where
  "parse_decision_row H ts fs row =
     (case Option.bind (fs (dr_proposal_json row)) proposal_from_value of
        None \<Rightarrow> Inl AgentJson
      | Some p \<Rightarrow>
          rbind (validate_staged_proposal H ts p) (\<lambda>_.
          rbind (decision_parse (dr_decision row)) (\<lambda>d.
          Inr \<lparr>de_proposal = p, de_decision = d, de_note = dr_note row, de_updated_at = dr_updated_at row\<rparr>)))"

definition get_decision ::
  "(string \<Rightarrow> string) \<Rightarrow> (json \<Rightarrow> string) \<Rightarrow> (string \<Rightarrow> json option) \<Rightarrow> string \<Rightarrow> decision_log
     \<Rightarrow> (agent_error, decision_record option) result" where
  "get_decision H ts fs h log =
     (case om_get (dl_proposals log) h of
        None \<Rightarrow> Inr None
      | Some row \<Rightarrow> rbind (parse_decision_row H ts fs row) (\<lambda>r. Inr (Some r)))"

text \<open>The upsert: a conflicting row keeps its basis and gap columns, as the statement does.\<close>

definition upsert_decision :: "string \<Rightarrow> decision_row \<Rightarrow> decision_log \<Rightarrow> decision_log" where
  "upsert_decision h row log =
     log\<lparr>dl_proposals := om_put h
       (case om_get (dl_proposals log) h of
          None \<Rightarrow> row
        | Some old \<Rightarrow> row\<lparr>dr_basis_hash := dr_basis_hash old, dr_gap_id := dr_gap_id old\<rparr>) (dl_proposals log)\<rparr>"

definition record_decision ::
  "(string \<Rightarrow> string) \<Rightarrow> (json \<Rightarrow> string) \<Rightarrow> (string \<Rightarrow> json option) \<Rightarrow> string \<Rightarrow> agent_proposal \<Rightarrow> proposal_decision
     \<Rightarrow> string option \<Rightarrow> decision_log \<Rightarrow> (agent_error, decision_record) result \<times> decision_log" where
  "record_decision H ts fs now p d note log =
     (case validate_staged_proposal H ts p of
        Inl e \<Rightarrow> (Inl e, log)
      | Inr _ \<Rightarrow>
          (let h = p_hash (pp_provenance p);
               log' = upsert_decision h \<lparr>dr_basis_hash = pp_basis_hash p, dr_gap_id = pp_gap_id p,
                        dr_decision = decision_as_str d, dr_proposal_json = ts (proposal_to_value p), dr_note = note,
                        dr_updated_at = now\<rparr> log
           in ((case get_decision H ts fs h log' of
                  Inl e \<Rightarrow> Inl e
                | Inr None \<Rightarrow> Inl (AgentStorage ''decision disappeared after successful write'')
                | Inr (Some r) \<Rightarrow> Inr r), log')))"

definition reapply ::
  "(string \<Rightarrow> string) \<Rightarrow> (json \<Rightarrow> string) \<Rightarrow> (string \<Rightarrow> json option) \<Rightarrow> string \<Rightarrow> decision_log
     \<Rightarrow> (agent_error, decision_record list) result" where
  "reapply H ts fs basis log =
     try_map (parse_decision_row H ts fs)
       (map snd (filter (\<lambda>(h, row). dr_basis_hash row = basis) (dl_proposals log)))"

text \<open>\<^verbatim>\<open>ORDER BY updated_at DESC, hash\<close>: a stable descending sort of rows already in hash order.\<close>

definition newest_first :: "('r \<Rightarrow> string) \<Rightarrow> 'r list \<Rightarrow> 'r list" where
  "newest_first f rows = rev (sort_key f (rev rows))"

definition list_decisions ::
  "(string \<Rightarrow> string) \<Rightarrow> (json \<Rightarrow> string) \<Rightarrow> (string \<Rightarrow> json option) \<Rightarrow> decision_log
     \<Rightarrow> (agent_error, decision_record list) result" where
  "list_decisions H ts fs log =
     try_map (parse_decision_row H ts fs) (newest_first dr_updated_at (map snd (dl_proposals log)))"

definition parse_assertion_row ::
  "(string \<Rightarrow> json option) \<Rightarrow> assertion_row \<Rightarrow> (agent_error, assertion_record) result" where
  "parse_assertion_row fs row =
     (case Option.bind (fs (as_json row)) assertion_from_value of
        None \<Rightarrow> Inl AgentJson
      | Some a \<Rightarrow>
          rbind (validate_curatable_assertion a) (\<lambda>_.
          rbind (assertion_parse (as_decision row)) (\<lambda>d.
          Inr \<lparr>ar_assertion = a, ar_decision = d, ar_note = as_note row, ar_updated_at = as_updated_at row\<rparr>)))"

definition get_assertion ::
  "(string \<Rightarrow> json option) \<Rightarrow> string \<Rightarrow> decision_log \<Rightarrow> (agent_error, assertion_record option) result" where
  "get_assertion fs h log =
     (case om_get (dl_assertions log) h of
        None \<Rightarrow> Inr None
      | Some row \<Rightarrow> rbind (parse_assertion_row fs row) (\<lambda>r. Inr (Some r)))"

definition record_assertion ::
  "(json \<Rightarrow> string) \<Rightarrow> (string \<Rightarrow> json option) \<Rightarrow> string \<Rightarrow> curatable_assertion \<Rightarrow> assertion_decision
     \<Rightarrow> string option \<Rightarrow> decision_log \<Rightarrow> (agent_error, assertion_record) result \<times> decision_log" where
  "record_assertion ts fs now a d note log =
     (case validate_curatable_assertion a of
        Inl e \<Rightarrow> (Inl e, log)
      | Inr _ \<Rightarrow>
          (let normalized = (case note of None \<Rightarrow> None | Some s \<Rightarrow> if trim s = [] then None else Some (trim s)) in
           if d = Annotated \<and> normalized = None
           then (Inl (InvalidTask ''annotated decisions require a non-empty note''), log)
           else (let h = p_hash (cu_provenance a);
                     log' = log\<lparr>dl_assertions := om_put h \<lparr>as_json = ts (assertion_to_value a),
                              as_decision = assertion_as_str d, as_note = normalized, as_updated_at = now\<rparr>
                              (dl_assertions log)\<rparr>
                 in ((case get_assertion fs h log' of
                        Inl e \<Rightarrow> Inl e
                      | Inr None \<Rightarrow> Inl (AgentStorage ''assertion decision disappeared after successful write'')
                      | Inr (Some r) \<Rightarrow> Inr r), log'))))"

definition list_assertions ::
  "(string \<Rightarrow> json option) \<Rightarrow> decision_log \<Rightarrow> (agent_error, assertion_record list) result" where
  "list_assertions fs log =
     try_map (parse_assertion_row fs) (newest_first as_updated_at (map snd (dl_assertions log)))"

end
