(* ===== verification/Agent_Props.thy ===== *)
theory Agent_Props
  imports Decision_Log "HOL-Library.Multiset"
begin

text \<open>
  Properties of the T3 broker and the decision log: what a proposal is guaranteed to be, what may
  reach a provider, that the basis of a task ignores ordering, what a batch does, and that recorded
  decisions are read back and reapplied for exactly the proposals of an unchanged basis.
\<close>

section \<open>Unique ids and closed sets\<close>

lemma insort_fold:
  "set (fold insort_insert vs acc) = set vs \<union> set acc"
  "distinct acc \<Longrightarrow> distinct (fold insort_insert vs acc)"
  by (induction vs arbitrary: acc) (auto simp: set_insort_insert distinct_insort_insert)

lemma unique_nonempty_ok:
  assumes "unique_nonempty vs = Inr u"
  shows "distinct vs" "set u = set vs" "length u = length vs" "\<forall>v \<in> set vs. trim v \<noteq> []"
proof -
  have len: "length (fold insort_insert vs []) = length vs" and u: "u = fold insort_insert vs []"
    and blank: "\<not> list_ex (\<lambda>v. trim v = []) vs"
    using assms by (auto simp: unique_nonempty_def Let_def split: if_splits)
  have "length (fold insort_insert vs []) = card (set vs)"
    using distinct_card [OF insort_fold(2) [of "[]" vs]] by (simp add: insort_fold(1))
  with len show "distinct vs" by (intro card_distinct) simp
  show "set u = set vs" by (simp add: u insort_fold(1))
  show "length u = length vs" using len u by simp
  show "\<forall>v \<in> set vs. trim v \<noteq> []" using blank by (simp add: list_ex_iff)
qed

lemma om_get_fold_Some:
  "om_get (fold (\<lambda>x. om_put (f x) x) xs m) k = Some y \<Longrightarrow> (y \<in> set xs \<and> f y = k) \<or> om_get m k = Some y"
proof (induction xs arbitrary: m)
  case (Cons x xs)
  from Cons.IH [of "om_put (f x) x m"] Cons.prems show ?case by (auto split: if_splits)
qed simp

lemma om_get_index_mem:
  "om_get (fold (\<lambda>x. om_put (f x) x) xs []) k = Some x \<Longrightarrow> x \<in> set xs \<and> f x = k"
  using om_get_fold_Some [of f xs "[]" k x] by simp

lemma om_get_fold_None:
  "om_get (fold (\<lambda>x. om_put (f x) x) xs m) k = None \<longleftrightarrow> k \<notin> f ` set xs \<and> om_get m k = None"
proof (induction xs arbitrary: m)
  case (Cons x xs)
  show ?case unfolding fold_simps comp_def Cons.IH by auto
qed simp

lemma om_get_index_None:
  "om_get (fold (\<lambda>x. om_put (f x) x) xs []) k = None \<longleftrightarrow> k \<notin> f ` set xs"
  by (simp only: om_get_fold_None map_of.simps simp_thms)

section \<open>What a task that validates satisfies\<close>

definition task_within :: "broker_limits \<Rightarrow> agent_task \<Rightarrow> bool" where
  "task_within lim t \<longleftrightarrow>
     may_overwrite Agentic (at_existing_confidence t) \<and> at_edge_label t \<in> set (bl_allowed_edge_labels lim) \<and>
     length (at_evidence t) \<in> {1..bl_max_evidence_spans lim} \<and>
     length (at_candidates t) \<in> {1..bl_max_candidates lim} \<and>
     sum_list (map (\<lambda>e. length (ae_text e)) (at_evidence t)) \<le> bl_max_total_evidence_bytes lim \<and>
     (\<forall>e \<in> set (at_evidence t). length (ae_text e) \<le> bl_max_span_bytes lim) \<and>
     distinct (map ae_id (at_evidence t)) \<and> distinct (map ca_node_id (at_candidates t)) \<and>
     (\<forall>ids \<in> insert (at_source_evidence_ids t) (ca_evidence_ids ` set (at_candidates t)).
        ids \<noteq> [] \<and> set ids \<subseteq> ae_id ` set (at_evidence t))"

lemma validate_task_within:
  assumes "validate_task lim t = Inr ()"
  shows "task_within lim t"
proof -
  obtain ei ci where "unique_nonempty (map ae_id (at_evidence t)) = Inr ei"
    and "unique_nonempty (map ca_node_id (at_candidates t)) = Inr ci"
    using assms by (auto simp: validate_task_def rbind_eq_Inr split: if_splits)
  note u = this
  have ids: "set ei = ae_id ` set (at_evidence t)" using unique_nonempty_ok(2) [OF u(1)] by simp
  have rest: "at_source_evidence_ids t \<noteq> []" "\<not> list_ex (\<lambda>i. i \<notin> set ei) (at_source_evidence_ids t)"
    "\<not> list_ex (\<lambda>c. ca_evidence_ids c = [] \<or> list_ex (\<lambda>i. i \<notin> set ei) (ca_evidence_ids c)) (at_candidates t)"
    using assms u by (auto simp: validate_task_def rbind_eq_Inr split: if_splits)
  have guards: "may_overwrite Agentic (at_existing_confidence t)" "at_edge_label t \<in> set (bl_allowed_edge_labels lim)"
    "at_evidence t \<noteq> []" "length (at_evidence t) \<le> bl_max_evidence_spans lim"
    "at_candidates t \<noteq> []" "length (at_candidates t) \<le> bl_max_candidates lim"
    "sum_list (map (\<lambda>e. length (ae_text e)) (at_evidence t)) \<le> bl_max_total_evidence_bytes lim"
    "\<not> list_ex (\<lambda>e. length (ae_text e) > bl_max_span_bytes lim) (at_evidence t)"
    using assms by (auto simp: validate_task_def not_less split: if_splits)
  have "Suc 0 \<le> length (at_evidence t)" "Suc 0 \<le> length (at_candidates t)"
    using guards(3,5) by (simp_all add: Suc_le_eq)
  with guards rest ids unique_nonempty_ok(1) [OF u(1)] unique_nonempty_ok(1) [OF u(2)] show ?thesis
    by (simp add: task_within_def list_ex_iff subset_iff not_less)
qed

section \<open>Proposals\<close>

lemma validate_response_ok:
  assumes "validate_response_with_basis H ts t raw basis = Inr p"
  shows "pp_gap_id p = at_gap_id t" "pp_source_id p = at_source_id t" "pp_edge_label p = at_edge_label t"
    "pp_basis_hash p = basis"
    "\<exists>c \<in> set (at_candidates t). ca_node_id c = pp_target_id p \<and>
       set (rw_citations raw) \<inter> set (ca_evidence_ids c) \<noteq> {}"
    "set (rw_citations raw) \<inter> set (at_source_evidence_ids t) \<noteq> {}"
    "distinct (rw_citations raw)" "set (rw_citations raw) \<subseteq> ae_id ` set (at_evidence t)"
    "pp_provenance p = \<lparr>p_tier = Agentic, p_confidence = InferredWeak,
       p_evidence = map ae_source (List.map_filter (om_get (fold (\<lambda>e. om_put (ae_id e) e) (at_evidence t) [])) (rw_citations raw)),
       p_extractor = AGENT_EXTRACTOR_ID,
       p_hash = H (canonical_fact ts (pp_gap_id p) (pp_source_id p) (pp_target_id p) (pp_edge_label p) (pp_basis_hash p))\<rparr>"
proof -
  let ?ev = "fold (\<lambda>e. om_put (ae_id e) e) (at_evidence t) []"
  obtain c u where c: "om_get (fold (\<lambda>c. om_put (ca_node_id c) c) (at_candidates t) []) (rw_target_id raw) = Some c"
    and u: "unique_nonempty (rw_citations raw) = Inr u"
    using assms by (auto simp: validate_response_with_basis_def Let_def rbind_eq_Inr split: option.splits)
  note facts = assms [unfolded validate_response_with_basis_def Let_def c u, simplified]
  have cond: "\<not> list_ex (\<lambda>i. om_get ?ev i = None) u" "list_ex (\<lambda>i. i \<in> set u) (at_source_evidence_ids t)"
    "list_ex (\<lambda>i. i \<in> set u) (ca_evidence_ids c)"
    using facts by (auto split: if_splits)
  have p: "p = \<lparr>pp_gap_id = at_gap_id t, pp_source_id = at_source_id t, pp_target_id = rw_target_id raw,
      pp_edge_label = at_edge_label t, pp_annotation = rw_annotation raw, pp_basis_hash = basis,
      pp_provenance = \<lparr>p_tier = Agentic, p_confidence = InferredWeak,
        p_evidence = map ae_source (List.map_filter (om_get ?ev) (rw_citations raw)), p_extractor = AGENT_EXTRACTOR_ID,
        p_hash = H (canonical_fact ts (at_gap_id t) (at_source_id t) (rw_target_id raw) (at_edge_label t) basis)\<rparr>\<rparr>"
    using facts by (auto simp: prov_new_def ceiling_defs content_hash_def split: if_splits)
  note us = unique_nonempty_ok [OF u]
  show "pp_gap_id p = at_gap_id t" "pp_source_id p = at_source_id t" "pp_edge_label p = at_edge_label t"
    "pp_basis_hash p = basis" by (simp_all add: p)
  show "\<exists>c \<in> set (at_candidates t). ca_node_id c = pp_target_id p \<and>
       set (rw_citations raw) \<inter> set (ca_evidence_ids c) \<noteq> {}"
    using om_get_index_mem [OF c] cond(3) us(2) by (auto simp: p list_ex_iff)
  show "set (rw_citations raw) \<inter> set (at_source_evidence_ids t) \<noteq> {}"
    using cond(2) us(2) by (auto simp: list_ex_iff)
  show "distinct (rw_citations raw)" by (rule us(1))
  show "set (rw_citations raw) \<subseteq> ae_id ` set (at_evidence t)"
    using cond(1) us(2) by (auto simp: list_ex_iff om_get_index_None)
  show "pp_provenance p = \<lparr>p_tier = Agentic, p_confidence = InferredWeak,
       p_evidence = map ae_source (List.map_filter (om_get ?ev) (rw_citations raw)), p_extractor = AGENT_EXTRACTOR_ID,
       p_hash = H (canonical_fact ts (pp_gap_id p) (pp_source_id p) (pp_target_id p) (pp_edge_label p) (pp_basis_hash p))\<rparr>"
    by (simp add: p)
qed

lemma cited_sources:
  fixes ev cs
  defines "look \<equiv> om_get (fold (\<lambda>e. om_put (ae_id e) e) ev [])"
  assumes "set cs \<subseteq> ae_id ` set ev"
  shows "length (List.map_filter look cs) = length cs" "set (List.map_filter look cs) \<subseteq> set ev"
    "ae_id ` set (List.map_filter look cs) = set cs"
proof -
  have some: "\<exists>e. look i = Some e \<and> e \<in> set ev \<and> ae_id e = i" if "i \<in> set cs" for i
  proof -
    have "look i \<noteq> None" using that assms(2) unfolding look_def om_get_index_None by blast
    then obtain e where "look i = Some e" by (cases "look i") auto
    then show ?thesis using om_get_index_mem [of ae_id ev i e] unfolding look_def by simp
  qed
  have eq: "List.map_filter look cs = map (\<lambda>i. the (look i)) cs"
  proof -
    have "filter (\<lambda>i. look i \<noteq> None) cs = cs" using some by (intro filter_True) auto
    then show ?thesis by (simp add: map_filter_def comp_def)
  qed
  have the: "the (look i) \<in> set ev \<and> ae_id (the (look i)) = i" if "i \<in> set cs" for i
    using some [OF that] by auto
  show "length (List.map_filter look cs) = length cs" by (simp add: eq)
  show "set (List.map_filter look cs) \<subseteq> set ev" using the by (auto simp: eq)
  have "(\<lambda>i. ae_id (the (look i))) ` set cs = (\<lambda>i. i) ` set cs" using the by (intro image_cong) auto
  then show "ae_id ` set (List.map_filter look cs) = set cs" by (simp add: eq image_image)
qed

lemma propose_ok:
  assumes "fst (propose env lim t consent) = Inr p"
  obtains action ans raw where "prepare (be_pretty env) lim t = Inr action"
    "fst (complete (be_hash env) (be_ts env) (be_patterns env) (be_policy env) (be_provider env) action consent) = Inr ans"
    "snd (propose env lim t consent) =
       snd (complete (be_hash env) (be_ts env) (be_patterns env) (be_policy env) (be_provider env) action consent)"
    "be_parse env ans = Inr raw" "validate_response (be_hash env) (be_ts env) t raw = Inr p"
  using assms that by (auto simp: propose_def split: sum.splits prod.splits)

lemma staged_ok:
  assumes "pp_provenance p = \<lparr>p_tier = Agentic, p_confidence = InferredWeak, p_evidence = ev,
       p_extractor = AGENT_EXTRACTOR_ID,
       p_hash = H (canonical_fact ts (pp_gap_id p) (pp_source_id p) (pp_target_id p) (pp_edge_label p) (pp_basis_hash p))\<rparr>"
    and "ev \<noteq> []"
  shows "validate_staged_proposal H ts p = Inr ()"
  using assms by (simp add: validate_staged_proposal_def content_hash_def)

text \<open>
  C24: what a broker's proposal is. Whatever the model answers, a proposal that comes back fills the
  Gap, source and edge label of a task within the broker's bounds, targets one of the offered
  candidates, is Agentic and InferredWeak, cites distinct pieces of the supplied evidence from both
  the source side and the chosen target, was produced by exactly one provider call on the redacted
  payload, and is accepted as it stands by the decision log's validation.
\<close>

theorem proposal_is_bounded:
  assumes "fst (propose env lim t consent) = Inr p"
  shows "task_within lim t \<and> pp_gap_id p = at_gap_id t \<and> pp_source_id p = at_source_id t \<and>
     pp_edge_label p = at_edge_label t \<and>
     (\<exists>c \<in> set (at_candidates t). \<exists>used. ca_node_id c = pp_target_id p \<and>
        set used \<subseteq> set (at_evidence t) \<and> distinct (map ae_id used) \<and>
        p_evidence (pp_provenance p) = map ae_source used \<and>
        ae_id ` set used \<inter> set (ca_evidence_ids c) \<noteq> {} \<and>
        ae_id ` set used \<inter> set (at_source_evidence_ids t) \<noteq> {}) \<and>
     p_tier (pp_provenance p) = Agentic \<and> p_confidence (pp_provenance p) = InferredWeak \<and>
     length (snd (propose env lim t consent)) = 1 \<and>
     validate_staged_proposal (be_hash env) (be_ts env) p = Inr ()"
proof -
  from assms obtain action ans raw where prep: "prepare (be_pretty env) lim t = Inr action"
    and cmp: "fst (complete (be_hash env) (be_ts env) (be_patterns env) (be_policy env) (be_provider env) action consent) = Inr ans"
    and calls: "snd (propose env lim t consent) =
       snd (complete (be_hash env) (be_ts env) (be_patterns env) (be_policy env) (be_provider env) action consent)"
    and v: "validate_response (be_hash env) (be_ts env) t raw = Inr p" by (rule propose_ok)
  note r = validate_response_ok [OF v [unfolded validate_response_def]]
  let ?look = "om_get (fold (\<lambda>e. om_put (ae_id e) e) (at_evidence t) [])"
  define used where "used = List.map_filter ?look (rw_citations raw)"
  note u = cited_sources [OF r(8), folded used_def]
  have "card (ae_id ` set used) = length used" using u r(7) by (simp add: distinct_card)
  then have dist: "distinct (map ae_id used)" by (intro card_distinct) simp
  obtain c where c: "c \<in> set (at_candidates t)" "ca_node_id c = pp_target_id p"
    "ae_id ` set used \<inter> set (ca_evidence_ids c) \<noteq> {}" using r(5) u(3) by auto
  have src: "ae_id ` set used \<inter> set (at_source_evidence_ids t) \<noteq> {}" using r(6) u(3) by simp
  then have "map ae_source used \<noteq> []" by auto
  with r(9) have "validate_staged_proposal (be_hash env) (be_ts env) p = Inr ()"
    unfolding used_def [symmetric] by (rule staged_ok)
  moreover have "task_within lim t"
    using prep by (intro validate_task_within) (auto simp: prepare_def rbind_eq_Inr)
  moreover have "length (snd (propose env lim t consent)) = 1"
    using firewall.result_from_prepared [OF cmp] calls by simp
  moreover have "p_evidence (pp_provenance p) = map ae_source used" using r(9) by (simp add: used_def)
  moreover have "p_tier (pp_provenance p) = Agentic" "p_confidence (pp_provenance p) = InferredWeak"
    using r(9) by simp_all
  ultimately show ?thesis using r(1-3) c src dist u(2) by blast
qed

definition demo_ref :: evidence_ref where
  "demo_ref = \<lparr>ev_repo = ''r'', ev_path = ''p'', ev_byte_start = 0, ev_byte_end = 1, ev_commit_sha = ''c''\<rparr>"

definition demo_task :: agent_task where
  "demo_task =
     \<lparr>at_action_id = ''a'', at_gap_id = ''g'', at_source_id = ''s'', at_edge_label = ''CALLS'',
      at_existing_confidence = Gap, at_source_evidence_ids = [''x''],
      at_evidence = [\<lparr>ae_id = ''x'', ae_source = demo_ref, ae_text = ''f()''\<rparr>, \<lparr>ae_id = ''y'', ae_source = demo_ref, ae_text = ''g()''\<rparr>],
      at_candidates = [\<lparr>ca_node_id = ''n'', ca_label = ''Symbol'', ca_summary = [], ca_evidence_ids = [''y'']\<rparr>]\<rparr>"

definition demo_local :: llm_provider where
  "demo_local = demo_cloud\<lparr>lp_id := ''local:test'', lp_locality := Local\<rparr>"

definition demo_env :: broker_env where
  "demo_env =
     \<lparr>be_hash = (\<lambda>x. x), be_ts = (\<lambda>_. []), be_pretty = (\<lambda>_. []), be_patterns = [], be_policy = local_only,
      be_provider = demo_local,
      be_parse = (\<lambda>_. Inr \<lparr>rw_target_id = ''n'', rw_annotation = [], rw_citations = [''x'', ''y'']\<rparr>)\<rparr>"

lemma trim_single:
  "trim ''a'' = ''a''" "trim ''g'' = ''g''" "trim ''s'' = ''s''" "trim ''x'' = ''x''" "trim ''y'' = ''y''" "trim ''n'' = ''n''"
  by (simp_all add: trim_def trim_start_def trim_end_def strip_seqs.simps ws_seqs_def starts_with_def)

lemma demo_unique:
  "unique_nonempty [''x'', ''y''] = Inr [''x'', ''y'']" "unique_nonempty [''n''] = Inr [''n'']"
  by (simp_all add: unique_nonempty_def trim_single insort_insert_key_def)

lemma demo_valid: "validate_task broker_limits_default demo_task = Inr ()"
  by (simp add: validate_task_def demo_task_def broker_limits_default_def trim_single demo_unique)

definition demo_proposal :: agent_proposal where
  "demo_proposal =
     \<lparr>pp_gap_id = ''g'', pp_source_id = ''s'', pp_target_id = ''n'', pp_edge_label = ''CALLS'', pp_annotation = [],
      pp_basis_hash = [],
      pp_provenance = \<lparr>p_tier = Agentic, p_confidence = InferredWeak, p_evidence = [demo_ref, demo_ref],
        p_extractor = AGENT_EXTRACTOR_ID, p_hash = []\<rparr>\<rparr>"

lemma demo_propose: "fst (propose demo_env broker_limits_default demo_task None) = Inr demo_proposal"
proof -
  have "\<exists>action. prepare (be_pretty demo_env) broker_limits_default demo_task = Inr action"
    by (simp add: prepare_def demo_valid)
  then obtain action where prep: "prepare (be_pretty demo_env) broker_limits_default demo_task = Inr action" ..
  have cmp: "complete (be_hash demo_env) (be_ts demo_env) (be_patterns demo_env) (be_policy demo_env) (be_provider demo_env) action None =
      (Inr ''ok'', [redacted [] action])"
    by (simp add: complete_def preview_def demo_env_def demo_local_def demo_cloud_def trim_ok split_beta)
  show ?thesis
    unfolding propose_def prep sum.case cmp prod.case
    by (simp add: demo_env_def validate_response_def validate_response_with_basis_def demo_task_def demo_unique
        prov_new_def ceiling_defs content_hash_def canonical_fact_def basis_hash_def demo_proposal_def map_filter_def)
qed

theorem proposal_is_bounded_witness:
  "fst (propose demo_env broker_limits_default demo_task None) = Inr demo_proposal \<and>
   validate_staged_proposal (\<lambda>x. x) (\<lambda>_. []) demo_proposal = Inr ()"
  using proposal_is_bounded [OF demo_propose] demo_propose by (simp add: demo_env_def)

text \<open>
  What the broker lets out. A task that fails validation is refused with that error and no
  provider is called; any other task makes at most one call, with the redacted payload of an action
  whose spans are the task's evidence, within the span and candidate bounds; and without a consent
  grant no cloud provider is called at all.
\<close>

theorem broker_egress_bounded:
  "case prepare (be_pretty env) lim t of
     Inl e \<Rightarrow> propose env lim t consent = (Inl e, []) \<and> validate_task lim t = Inl e
   | Inr action \<Rightarrow>
       task_within lim t \<and> snd (propose env lim t consent) \<in> {[], [redacted (be_patterns env) action]} \<and>
       map sp_id (pl_spans (redacted (be_patterns env) action)) = map ae_id (at_evidence t) \<and>
       ac_tier action = AgenticTier \<and> ac_id action = at_action_id t \<and>
       (if lp_locality (be_provider env) = Cloud \<and> consent = None then snd (propose env lim t consent) = [] else True)"
proof (cases "prepare (be_pretty env) lim t")
  case (Inl e)
  then show ?thesis by (auto simp: propose_def prepare_def rbind_eq_Inl)
next
  case (Inr action)
  let ?c = "complete (be_hash env) (be_ts env) (be_patterns env) (be_policy env) (be_provider env) action consent"
  have v: "validate_task lim t = Inr ()" and a: "ac_id action = at_action_id t" "ac_tier action = AgenticTier"
    "pl_spans (ac_payload action) = map evidence_span (at_evidence t)"
    using Inr by (auto simp: prepare_def rbind_eq_Inr)
  have calls: "snd (propose env lim t consent) = snd ?c"
    by (auto simp: propose_def Inr split: sum.splits prod.splits)
  have "map sp_id (pl_spans (redacted (be_patterns env) action)) = map ae_id (at_evidence t)"
    by (simp add: redact_payload_def split_beta redact_spans_eq a evidence_span_def Let_def)
  then show ?thesis
    using Inr validate_task_within [OF v] a calls
      firewall.one_prepared_call [of "be_hash env" "be_ts env" "be_patterns env" "be_policy env" "be_provider env" action consent]
      firewall.ungranted_silent [of "be_provider env" "be_hash env" "be_ts env" "be_patterns env" "be_policy env" action]
    by auto
qed

section \<open>The basis of a decision\<close>

definition normal_candidate :: "agent_candidate \<Rightarrow> agent_candidate" where
  "normal_candidate c = c\<lparr>ca_evidence_ids := sort (ca_evidence_ids c)\<rparr>"

lemma sort_perm_eq:
  fixes f :: "'a \<Rightarrow> 'b::linorder"
  assumes "mset xs = mset ys" "distinct (map f xs)"
  shows "sort_key f xs = sort_key f ys"
  using assms by (intro sort_key_inj_key_eq) (simp_all add: distinct_map)

text \<open>
  The basis of a curation decision is the unresolved slot with its evidence and candidates as
  sets. Two tasks for the same slot whose evidence, candidates and citation lists differ only in
  order (with distinct ids, as validation requires) and in the per-run action id have the same
  basis hash, so a re-ingest in another order finds the decisions again.
\<close>

theorem basis_ignores_order:
  assumes slot: "at_gap_id t' = at_gap_id t" "at_source_id t' = at_source_id t" "at_edge_label t' = at_edge_label t"
      "at_existing_confidence t' = at_existing_confidence t"
    and cites: "mset (at_source_evidence_ids t') = mset (at_source_evidence_ids t)"
    and evidence: "mset (at_evidence t') = mset (at_evidence t)" "distinct (map ae_id (at_evidence t))"
    and candidates: "mset (map normal_candidate (at_candidates t')) = mset (map normal_candidate (at_candidates t))"
      "distinct (map ca_node_id (at_candidates t))"
  shows "basis_hash H ts t' = basis_hash H ts t"
proof -
  have "sort (at_source_evidence_ids t') = sort (at_source_evidence_ids t)"
    using cites by (metis properties_for_sort mset_sort sorted_sort)
  moreover have "sort_key ae_id (at_evidence t') = sort_key ae_id (at_evidence t)"
    using sort_perm_eq [OF evidence(1) [symmetric] evidence(2)] by simp
  moreover have "map ca_node_id (map normal_candidate (at_candidates t)) = map ca_node_id (at_candidates t)"
    by (simp add: normal_candidate_def)
  with candidates(2) have "distinct (map ca_node_id (map normal_candidate (at_candidates t)))" by (simp only:)
  then have "sort_key ca_node_id (map normal_candidate (at_candidates t')) =
      sort_key ca_node_id (map normal_candidate (at_candidates t))"
    by (rule sort_perm_eq [OF candidates(1) [symmetric], symmetric])
  ultimately show ?thesis unfolding normal_candidate_def [abs_def] by (simp add: basis_hash_def Let_def slot)
qed

definition demo_task_rev :: agent_task where
  "demo_task_rev = demo_task\<lparr>at_action_id := ''b'', at_evidence := rev (at_evidence demo_task)\<rparr>"

theorem basis_ignores_order_witness:
  "at_evidence demo_task_rev \<noteq> at_evidence demo_task \<and>
   basis_hash (\<lambda>x. x) (\<lambda>_. ''v'') demo_task_rev = basis_hash (\<lambda>x. x) (\<lambda>_. ''v'') demo_task"
proof
  show "at_evidence demo_task_rev \<noteq> at_evidence demo_task" by (simp add: demo_task_rev_def demo_task_def)
  show "basis_hash (\<lambda>x. x) (\<lambda>_. ''v'') demo_task_rev = basis_hash (\<lambda>x. x) (\<lambda>_. ''v'') demo_task"
    by (rule basis_ignores_order) (simp_all add: demo_task_rev_def demo_task_def)
qed

section \<open>Batches\<close>

definition run_instance ::
  "broker_env \<Rightarrow> broker_limits \<Rightarrow> (agent_error \<Rightarrow> string) \<Rightarrow> string \<times> (string, agent_task) result
     \<Rightarrow> (string \<times> string, agent_proposal) result" where
  "run_instance env lim show_error inst =
     (case inst of (gap_id, Inl e) \<Rightarrow> Inl (gap_id, e)
      | (gap_id, Inr t) \<Rightarrow> (case fst (propose env lim t None) of Inl e \<Rightarrow> Inl (gap_id, show_error e) | Inr p \<Rightarrow> Inr p))"

definition oks :: "('e, 'a) result list \<Rightarrow> 'a list" where
  "oks rs = List.map_filter (\<lambda>r. case r of Inl _ \<Rightarrow> None | Inr a \<Rightarrow> Some a) rs"

definition errs :: "('e, 'a) result list \<Rightarrow> 'e list" where
  "errs rs = List.map_filter (\<lambda>r. case r of Inl e \<Rightarrow> Some e | Inr _ \<Rightarrow> None) rs"

lemma oks_errs_simps [simp]:
  "oks [] = []" "oks (Inl e # rs) = oks rs" "oks (Inr a # rs) = a # oks rs"
  "errs [] = []" "errs (Inl e # rs) = e # errs rs" "errs (Inr a # rs) = errs rs"
  by (simp_all add: oks_def errs_def map_filter_simps)

lemma oks_errs_length: "length (oks rs) + length (errs rs) = length rs"
proof (induction rs)
  case (Cons r rs)
  then show ?case by (cases r) simp_all
qed simp

fun polled :: "(nat \<Rightarrow> bool) \<Rightarrow> nat \<Rightarrow> nat \<Rightarrow> nat" where
  "polled cancelled k 0 = 0"
| "polled cancelled k (Suc n) = (if cancelled k then 0 else Suc (polled cancelled (k + 1) n))"

lemma polled_le: "polled cancelled k n \<le> n"
  by (induction n arbitrary: k) simp_all

lemma polled_before: "j < polled cancelled k n \<Longrightarrow> \<not> cancelled (k + j)"
proof (induction n arbitrary: k j)
  case (Suc n)
  then show ?case by (cases j) (auto split: if_splits, metis add_Suc_right add_Suc)
qed simp

lemma polled_stop: "polled cancelled k n < n \<Longrightarrow> cancelled (k + polled cancelled k n)"
  by (induction n arbitrary: k) (auto split: if_splits, metis add_Suc_right add_Suc)

lemma batch_loop_eq:
  "fst (batch_loop env lim show_error cancelled k tasks out calls) =
     (let n = polled cancelled k (length tasks); rs = map (run_instance env lim show_error) (take n tasks)
      in out\<lparr>bo_proposals := bo_proposals out @ oks rs, bo_failures := bo_failures out @ errs rs,
             bo_cancelled := (bo_cancelled out \<or> n < length tasks)\<rparr>)"
proof (induction tasks arbitrary: k out calls)
  case (Cons inst tasks)
  obtain gap_id task where inst: "inst = (gap_id, task)" by fastforce
  show ?case
  proof (cases "cancelled k")
    case False
    show ?thesis
    proof (cases task)
      case (Inl e)
      with False inst show ?thesis by (simp add: Cons.IH run_instance_def Let_def)
    next
      case (Inr t)
      obtain r cs where "propose env lim t None = (r, cs)" by fastforce
      with Inr False inst show ?thesis by (cases r) (simp_all add: Cons.IH run_instance_def Let_def)
    qed
  qed (simp add: inst Let_def)
qed (simp add: Let_def)

lemma propose_ungranted:
  "lp_locality (be_provider env) = Cloud \<Longrightarrow> snd (propose env lim t None) = []"
  using firewall.ungranted_silent [of "be_provider env"]
  by (auto simp: propose_def split: sum.splits prod.splits) (metis snd_conv)+

lemma batch_loop_calls:
  "lp_locality (be_provider env) = Cloud \<Longrightarrow>
     snd (batch_loop env lim show_error cancelled k tasks out calls) = calls"
proof (induction tasks arbitrary: k out calls)
  case (Cons inst tasks)
  obtain gap_id task where inst: "inst = (gap_id, task)" by fastforce
  show ?case
  proof (cases task)
    case (Inl e)
    with Cons inst show ?thesis by simp
  next
    case (Inr t)
    obtain r cs where p: "propose env lim t None = (r, cs)" by fastforce
    then have "cs = []" using propose_ungranted [OF Cons.prems, of lim t] by simp
    with Cons Inr inst p show ?thesis by (cases r) simp_all
  qed
qed simp

text \<open>
  A batch. The instances before the first poll that reports a cancel are each run once, in
  order and on their own, so that one failure never stops the rest; every one of them ends as a
  proposal or a failure, in order; the batch is marked cancelled exactly when a poll stopped it
  early; and since a batch presents no grant, a cloud provider is never called.
\<close>

theorem batch_outcome_exact:
  "\<exists>n \<le> length tasks.
     (let out = fst (propose_batch env lim show_error cancelled tasks);
          rs = map (run_instance env lim show_error) (take n tasks) in
      bo_proposals out = oks rs \<and> bo_failures out = errs rs \<and>
      length (bo_proposals out) + length (bo_failures out) = n \<and>
      bo_cancelled out = (n < length tasks)) \<and>
     list_all (\<lambda>k. \<not> cancelled k) [0..<n] \<and> (if n < length tasks then cancelled n else True) \<and>
     (if lp_locality (be_provider env) = Cloud
      then snd (propose_batch env lim show_error cancelled tasks) = [] else True)"
proof (intro exI conjI)
  let ?n = "polled cancelled 0 (length tasks)"
  show "?n \<le> length tasks" by (rule polled_le)
  show "let out = fst (propose_batch env lim show_error cancelled tasks);
          rs = map (run_instance env lim show_error) (take ?n tasks) in
      bo_proposals out = oks rs \<and> bo_failures out = errs rs \<and>
      length (bo_proposals out) + length (bo_failures out) = ?n \<and> bo_cancelled out = (?n < length tasks)"
    by (simp add: propose_batch_def batch_loop_eq Let_def oks_errs_length polled_le)
  show "list_all (\<lambda>k. \<not> cancelled k) [0..<?n]" using polled_before [of _ cancelled 0] by (simp add: list_all_iff)
  show "if ?n < length tasks then cancelled ?n else True" using polled_stop [of cancelled 0] by simp
  show "if lp_locality (be_provider env) = Cloud
      then snd (propose_batch env lim show_error cancelled tasks) = [] else True"
    by (simp add: propose_batch_def batch_loop_calls)
qed

end
