(* ===== verification/Decision_Log_Props.thy ===== *)
theory Decision_Log_Props
  imports Agent_Props
begin

text \<open>
  The decision log keeps what it is told: a recorded decision reads back at once, others are not
  touched, and after any history of records the decisions reapplied for a basis are the latest ones
  on the proposals of exactly that basis.
\<close>

section \<open>Reading back\<close>

lemma proposal_from_to_value [simp]: "proposal_from_value (proposal_to_value p) = Some p"
  by (simp add: proposal_from_value_def proposal_to_value_def struct_field_def Let_def)

lemma assertion_from_to_value [simp]: "assertion_from_value (assertion_to_value a) = Some a"
  by (simp add: assertion_from_value_def assertion_to_value_def struct_field_def Let_def)

lemma decision_parse_as_str [simp]: "decision_parse (decision_as_str d) = Inr d"
  by (cases d) (simp_all add: decision_parse_def decision_as_str_def)

lemma assertion_parse_as_str [simp]: "assertion_parse (assertion_as_str d) = Inr d"
  by (cases d) (simp_all add: assertion_parse_def assertion_as_str_def)

text \<open>What the log relies on of the JSON codec, for one value: the text it prints reads back.\<close>

definition reads_back :: "(json \<Rightarrow> string) \<Rightarrow> (string \<Rightarrow> json option) \<Rightarrow> json \<Rightarrow> bool" where
  "reads_back ts fs v \<longleftrightarrow> fs (ts v) = Some v"

definition row_for :: "(json \<Rightarrow> string) \<Rightarrow> decision_record \<Rightarrow> decision_row" where
  "row_for ts r =
     \<lparr>dr_basis_hash = pp_basis_hash (de_proposal r), dr_gap_id = pp_gap_id (de_proposal r),
      dr_decision = decision_as_str (de_decision r), dr_proposal_json = ts (proposal_to_value (de_proposal r)),
      dr_note = de_note r, dr_updated_at = de_updated_at r\<rparr>"

lemma parse_row_columns:
  assumes "validate_staged_proposal H ts p = Inr ()" "reads_back ts fs (proposal_to_value p)"
  shows "parse_decision_row H ts fs \<lparr>dr_basis_hash = b, dr_gap_id = g, dr_decision = decision_as_str d,
      dr_proposal_json = ts (proposal_to_value p), dr_note = note, dr_updated_at = now\<rparr> =
      Inr \<lparr>de_proposal = p, de_decision = d, de_note = note, de_updated_at = now\<rparr>"
  using assms by (simp add: parse_decision_row_def reads_back_def)

lemma record_decision_ok:
  assumes "validate_staged_proposal H ts p = Inr ()" "reads_back ts fs (proposal_to_value p)"
  shows "record_decision H ts fs now p d note log =
     (Inr \<lparr>de_proposal = p, de_decision = d, de_note = note, de_updated_at = now\<rparr>,
      upsert_decision (p_hash (pp_provenance p)) (row_for ts \<lparr>de_proposal = p, de_decision = d, de_note = note, de_updated_at = now\<rparr>) log)"
  using assms parse_row_columns [OF assms]
  by (simp add: record_decision_def Let_def get_decision_def upsert_decision_def row_for_def split: option.split)

text \<open>
  C28: recording one decision. A proposal the validation refuses leaves the log as it was and
  returns the reason. Any other is stored so that the call returns, and a later lookup of its
  content hash finds, exactly the proposal, decision, note and time recorded, whatever was recorded
  for it before; no other decision and no assertion changes.
\<close>

theorem decision_reads_back:
  assumes "reads_back ts fs (proposal_to_value p)"
  shows "case validate_staged_proposal H ts p of
     Inl e \<Rightarrow> record_decision H ts fs now p d note log = (Inl e, log)
   | Inr _ \<Rightarrow>
       (let r = \<lparr>de_proposal = p, de_decision = d, de_note = note, de_updated_at = now\<rparr>;
            (res, log') = record_decision H ts fs now p d note log in
        res = Inr r \<and> get_decision H ts fs (p_hash (pp_provenance p)) log' = Inr (Some r) \<and>
        (\<forall>h. h = p_hash (pp_provenance p) \<or> get_decision H ts fs h log' = get_decision H ts fs h log) \<and>
        dl_assertions log' = dl_assertions log)"
proof (cases "validate_staged_proposal H ts p")
  case (Inl e)
  then show ?thesis by (simp add: record_decision_def)
next
  case (Inr u)
  then have v: "validate_staged_proposal H ts p = Inr ()" by simp
  note parse = parse_row_columns [OF v assms]
  show ?thesis
    unfolding Inr sum.case record_decision_ok [OF v assms]
    using parse by (auto simp: Let_def get_decision_def upsert_decision_def row_for_def split: option.split)
qed

definition demo_prop_fs :: "string \<Rightarrow> json option" where
  "demo_prop_fs s = (if s = [] then Some (proposal_to_value demo_proposal) else None)"

definition empty_log :: decision_log where
  "empty_log = \<lparr>dl_proposals = [], dl_assertions = []\<rparr>"

lemma demo_staged: "validate_staged_proposal (\<lambda>x. x) (\<lambda>_. []) demo_proposal = Inr ()"
  by (simp add: validate_staged_proposal_def demo_proposal_def content_hash_def canonical_fact_def)

theorem decision_reads_back_witness:
  "reads_back (\<lambda>_. []) demo_prop_fs (proposal_to_value demo_proposal) \<and>
   get_decision (\<lambda>x. x) (\<lambda>_. []) demo_prop_fs []
     (snd (record_decision (\<lambda>x. x) (\<lambda>_. []) demo_prop_fs ''t'' demo_proposal Accepted None empty_log)) =
   Inr (Some \<lparr>de_proposal = demo_proposal, de_decision = Accepted, de_note = None, de_updated_at = ''t''\<rparr>)"
proof -
  have codec: "reads_back (\<lambda>_. []) demo_prop_fs (proposal_to_value demo_proposal)"
    by (simp add: reads_back_def demo_prop_fs_def)
  have "p_hash (pp_provenance demo_proposal) = []" by (simp add: demo_proposal_def)
  then show ?thesis
    using decision_reads_back [OF codec, of "\<lambda>x. x" "''t''" Accepted None empty_log] demo_staged codec
    by (auto simp: Let_def split: prod.splits)
qed

section \<open>Histories\<close>

type_synonym decision_entry = "agent_proposal \<times> proposal_decision \<times> string option \<times> string"

definition apply_entry ::
  "(string \<Rightarrow> string) \<Rightarrow> (json \<Rightarrow> string) \<Rightarrow> (string \<Rightarrow> json option) \<Rightarrow> decision_entry \<Rightarrow> decision_log \<Rightarrow> decision_log" where
  "apply_entry H ts fs en log =
     (case en of (p, d, note, now) \<Rightarrow> snd (record_decision H ts fs now p d note log))"

definition entry_hash :: "decision_entry \<Rightarrow> string" where
  "entry_hash en = p_hash (pp_provenance (fst en))"

definition entry_record :: "decision_entry \<Rightarrow> decision_record" where
  "entry_record en =
     (case en of (p, d, note, now) \<Rightarrow> \<lparr>de_proposal = p, de_decision = d, de_note = note, de_updated_at = now\<rparr>)"

definition entry_valid :: "(string \<Rightarrow> string) \<Rightarrow> (json \<Rightarrow> string) \<Rightarrow> decision_entry \<Rightarrow> bool" where
  "entry_valid H ts en \<longleftrightarrow> is_ok (validate_staged_proposal H ts (fst en))"

text \<open>The last valid entry for each content hash.\<close>

definition latest ::
  "(string \<Rightarrow> string) \<Rightarrow> (json \<Rightarrow> string) \<Rightarrow> decision_entry list \<Rightarrow> string \<Rightarrow> decision_record option" where
  "latest H ts hist =
     map_of (rev (map (\<lambda>en. (entry_hash en, entry_record en)) (filter (entry_valid H ts) hist)))"

definition history_ok ::
  "(string \<Rightarrow> string) \<Rightarrow> (json \<Rightarrow> string) \<Rightarrow> (string \<Rightarrow> json option) \<Rightarrow> decision_entry list \<Rightarrow> bool" where
  "history_ok H ts fs hist \<longleftrightarrow>
     (\<forall>en \<in> set hist. reads_back ts fs (proposal_to_value (fst en))) \<and>
     (\<forall>a \<in> set hist. \<forall>b \<in> set hist. entry_valid H ts a \<and> entry_valid H ts b \<and> entry_hash a = entry_hash b \<longrightarrow>
        pp_basis_hash (fst a) = pp_basis_hash (fst b) \<and> pp_gap_id (fst a) = pp_gap_id (fst b))"

lemma latest_entry:
  "latest H ts hist h = Some r \<Longrightarrow> \<exists>en \<in> set hist. entry_valid H ts en \<and> entry_hash en = h \<and> entry_record en = r"
  unfolding latest_def by (drule map_of_SomeD) auto

lemma latest_snoc:
  "latest H ts (hist @ [en]) = (if entry_valid H ts en then (latest H ts hist)(entry_hash en \<mapsto> entry_record en) else latest H ts hist)"
  by (auto simp: latest_def)

lemma history_rows:
  assumes "history_ok H ts fs hist"
  shows "om_wf (dl_proposals (fold (apply_entry H ts fs) hist empty_log)) \<and>
     om_get (dl_proposals (fold (apply_entry H ts fs) hist empty_log)) = (\<lambda>h. map_option (row_for ts) (latest H ts hist h))"
  using assms
proof (induction hist rule: rev_induct)
  case Nil
  then show ?case by (simp add: empty_log_def latest_def fun_eq_iff)
next
  case (snoc en hist)
  let ?log = "fold (apply_entry H ts fs) hist empty_log"
  have ok: "history_ok H ts fs hist" using snoc.prems unfolding history_ok_def set_append by blast
  from snoc.IH [OF ok] have wf: "om_wf (dl_proposals ?log)"
    and get: "om_get (dl_proposals ?log) = (\<lambda>h. map_option (row_for ts) (latest H ts hist h))" by simp_all
  obtain p d nt now where en: "en = (p, d, nt, now)" by (cases en)
  show ?case
  proof (cases "entry_valid H ts en")
    case True
    then have v: "validate_staged_proposal H ts p = Inr ()"
      by (cases "validate_staged_proposal H ts p") (simp_all add: entry_valid_def en)
    have codec: "reads_back ts fs (proposal_to_value p)"
      using snoc.prems by (simp add: history_ok_def en)
    have keep: "dr_basis_hash old = pp_basis_hash p \<and> dr_gap_id old = pp_gap_id p"
      if "om_get (dl_proposals ?log) (entry_hash en) = Some old" for old
    proof -
      from that obtain r where r: "latest H ts hist (entry_hash en) = Some r" "old = row_for ts r"
        by (auto simp: get)
      from latest_entry [OF r(1)] obtain en' where "en' \<in> set hist" "entry_valid H ts en'"
        "entry_hash en' = entry_hash en" "entry_record en' = r" by blast
      with True snoc.prems r(2) show ?thesis
        by (cases en') (auto simp: history_ok_def row_for_def entry_record_def en)
    qed
    have "apply_entry H ts fs en ?log =
        ?log\<lparr>dl_proposals := om_put (entry_hash en) (row_for ts (entry_record en)) (dl_proposals ?log)\<rparr>"
      using record_decision_ok [OF v codec, of now d nt ?log] keep
      by (cases "om_get (dl_proposals ?log) (entry_hash en)")
        (simp_all add: apply_entry_def en upsert_decision_def entry_hash_def entry_record_def row_for_def)
    then show ?thesis using wf get True by (simp add: latest_snoc fun_eq_iff)
  next
    case False
    then obtain e where "validate_staged_proposal H ts p = Inl e"
      by (cases "validate_staged_proposal H ts p") (simp_all add: entry_valid_def en)
    then have "apply_entry H ts fs en ?log = ?log" by (simp add: apply_entry_def en record_decision_def)
    then show ?thesis using wf get False by (simp add: latest_snoc)
  qed
qed

lemma try_map_snd:
  "(\<And>p. p \<in> set xs \<Longrightarrow> f (snd p) = Inr (g (fst p))) \<Longrightarrow> try_map f (map snd xs) = Inr (map (\<lambda>p. g (fst p)) xs)"
  by (induction xs) simp_all

text \<open>
  C29: reapplying decisions after a re-ingest. After any history of decisions on proposals whose
  JSON text reads back and whose content hashes identify gap and basis, reapplying a basis never
  fails and returns, in content-hash order and each once, the latest decision on every recorded
  proposal of exactly that basis; a proposal of a changed basis stays undecided.
\<close>

theorem reapply_latest_of_basis:
  assumes "history_ok H ts fs hist"
  shows "\<exists>rs. reapply H ts fs basis (fold (apply_entry H ts fs) hist empty_log) = Inr rs \<and>
     set rs = {r. \<exists>h. latest H ts hist h = Some r \<and> pp_basis_hash (de_proposal r) = basis} \<and>
     sorted_wrt (<) (map (\<lambda>r. p_hash (pp_provenance (de_proposal r))) rs)"
proof -
  let ?rows = "dl_proposals (fold (apply_entry H ts fs) hist empty_log)"
  let ?keep = "filter (\<lambda>(h, row). dr_basis_hash row = basis) ?rows"
  have wf: "om_wf ?rows" and get: "om_get ?rows = (\<lambda>h. map_option (row_for ts) (latest H ts hist h))"
    using history_rows [OF assms] by simp_all
  have mem: "(h, row) \<in> set ?rows \<longleftrightarrow> (\<exists>r. latest H ts hist h = Some r \<and> row = row_for ts r)" for h row
    using map_of_eq_Some_iff [OF om_wf_distinct [OF wf], of h row] get by auto
  have rec: "de_proposal r = fst en \<and> h = p_hash (pp_provenance (de_proposal r)) \<and>
      parse_decision_row H ts fs (row_for ts r) = Inr r"
    if "latest H ts hist h = Some r" "en \<in> set hist" "entry_valid H ts en" "entry_hash en = h" "entry_record en = r" for h r en
  proof -
    obtain p d nt now where en: "en = (p, d, nt, now)" by (cases en)
    have "validate_staged_proposal H ts p = Inr ()"
      using that(3) by (cases "validate_staged_proposal H ts p") (simp_all add: entry_valid_def en)
    moreover have "reads_back ts fs (proposal_to_value p)"
      using assms that(2) by (auto simp: history_ok_def en)
    ultimately show ?thesis
      using parse_row_columns [of H ts p fs] that(4,5) by (auto simp: en entry_hash_def entry_record_def row_for_def)
  qed
  have look: "h = p_hash (pp_provenance (de_proposal r)) \<and> parse_decision_row H ts fs (row_for ts r) = Inr r"
    if "latest H ts hist h = Some r" for h r
    using rec [OF that] latest_entry [OF that] by blast
  define rs where "rs = map (\<lambda>q. the (latest H ts hist (fst q))) ?keep"
  have "reapply H ts fs basis (fold (apply_entry H ts fs) hist empty_log) = Inr rs"
    unfolding reapply_def rs_def using mem look by (intro try_map_snd) auto
  moreover have "set rs = {r. \<exists>h. latest H ts hist h = Some r \<and> pp_basis_hash (de_proposal r) = basis}"
    unfolding rs_def using mem by (force simp: row_for_def image_iff)
  moreover have "map (\<lambda>r. p_hash (pp_provenance (de_proposal r))) rs = map fst ?keep"
    unfolding rs_def using mem look by auto
  moreover have "sorted_wrt (<) (map fst ?keep)"
    using wf unfolding om_wf_def sorted_wrt_map by (rule sorted_wrt_filter)
  ultimately show ?thesis by (intro exI [of _ rs]) simp
qed

theorem reapply_latest_of_basis_witness:
  "history_ok (\<lambda>x. x) (\<lambda>_. []) demo_prop_fs [(demo_proposal, Accepted, None, ''t''), (demo_proposal, Rejected, None, ''u'')] \<and>
   (\<exists>rs. reapply (\<lambda>x. x) (\<lambda>_. []) demo_prop_fs []
       (fold (apply_entry (\<lambda>x. x) (\<lambda>_. []) demo_prop_fs)
         [(demo_proposal, Accepted, None, ''t''), (demo_proposal, Rejected, None, ''u'')] empty_log) = Inr rs \<and>
     \<lparr>de_proposal = demo_proposal, de_decision = Rejected, de_note = None, de_updated_at = ''u''\<rparr> \<in> set rs)"
proof -
  let ?hist = "[(demo_proposal, Accepted, None, ''t''), (demo_proposal, Rejected, None, ''u'')] :: decision_entry list"
  have ok: "history_ok (\<lambda>x. x) (\<lambda>_. []) demo_prop_fs ?hist"
    by (simp add: history_ok_def reads_back_def demo_prop_fs_def)
  have "latest (\<lambda>x. x) (\<lambda>_. []) ?hist (p_hash (pp_provenance demo_proposal)) =
      Some \<lparr>de_proposal = demo_proposal, de_decision = Rejected, de_note = None, de_updated_at = ''u''\<rparr>"
    by (simp add: latest_def entry_valid_def demo_staged entry_hash_def entry_record_def)
  moreover have "pp_basis_hash demo_proposal = []" by (simp add: demo_proposal_def)
  ultimately show ?thesis using ok reapply_latest_of_basis [OF ok, of "[]"] by fastforce
qed

end
