(* ===== verification/Source_Walk.thy ===== *)
theory Source_Walk
  imports Cart_Prelude
begin

text \<open>
  The one source-tree walk of \<^verbatim>\<open>crates/source-walk/src/lib.rs\<close>: \<open>descend\<close> and
  \<open>is_ignored\<close> on the \<^verbatim>\<open>.gitignore\<close> layers in force, the recursive \<open>visit\<close> with its
  per-directory hook, \<open>files_until\<close> and \<open>files\<close>. The file system is a tree \<open>fs_tree\<close> as the
  walk sees it (what \<^verbatim>\<open>read_dir\<close> and \<^verbatim>\<open>file_type\<close> report, symbolic links not followed);
  every read that may fail is an entry that holds its error. Compiling a \<^verbatim>\<open>.gitignore\<close> into
  a matcher is the third-party \<^verbatim>\<open>ignore\<close> crate: the parameter \<open>GB\<close>, given the directory and
  the lines, answers the matcher and whether it is empty, or nothing when building fails.
\<close>

section \<open>The file system\<close>

type_synonym io_error = string

datatype fs_tree =
    FFile string
  | FFileErr io_error
  | FDir "(string \<times> fs_tree) list"
  | FDirErr io_error
  | FSymlink
  | FOther
  | FUnknown io_error

fun is_file :: "fs_tree \<Rightarrow> bool" where
  "is_file (FFile _) = True"
| "is_file (FFileErr _) = True"
| "is_file _ = False"

text \<open>What a directory is on any file system: names are distinct, non-empty and without a slash.\<close>

definition name_ok :: "string \<Rightarrow> bool" where
  "name_ok n \<longleftrightarrow> n \<noteq> [] \<and> CHR ''/'' \<notin> set n"

fun fs_wf :: "fs_tree \<Rightarrow> bool" where
  "fs_wf (FDir es) =
     (distinct (map fst es) \<and> list_all name_ok (map fst es) \<and> list_all (\<lambda>(_, t). fs_wf t) es)"
| "fs_wf _ = True"

text \<open>A tree all of whose names are UTF-8, where the lossy conversion of names changes nothing.\<close>

fun fs_utf8 :: "fs_tree \<Rightarrow> bool" where
  "fs_utf8 (FDir es) = list_all (\<lambda>(n, t). is_utf8 n \<and> fs_utf8 t) es"
| "fs_utf8 _ = True"

section \<open>Ignore rules\<close>

datatype gi_match = GiNone | GiIgnore | GiWhitelist

type_synonym matcher = "string \<Rightarrow> bool \<Rightarrow> gi_match"
type_synonym gitignore_builder = "string \<Rightarrow> string list \<Rightarrow> (bool \<times> matcher) option"
type_synonym ignore_rules = "matcher list"

definition GITIGNORE :: string where "GITIGNORE = ''.gitignore''"

definition MAX_GITIGNORE_BYTES :: nat where "MAX_GITIGNORE_BYTES = 1024 * 1024"

definition descend ::
  "gitignore_builder \<Rightarrow> ignore_rules \<Rightarrow> string \<Rightarrow> string option \<Rightarrow> ignore_rules" where
  "descend GB rules rel_dir gitignore =
     (case gitignore of
        None \<Rightarrow> rules
      | Some bytes \<Rightarrow>
          (let lossy = from_utf8_lossy bytes;
               content = (case strip_prefix [CHR 0xEF, CHR 0xBB, CHR 0xBF] lossy of
                            None \<Rightarrow> lossy | Some rest \<Rightarrow> rest)
           in case GB (if rel_dir = [] then ''.'' else rel_dir) (str_lines content) of
                None \<Rightarrow> rules
              | Some (is_empty, m) \<Rightarrow> if is_empty then rules else rules @ [m]))"

fun verdict :: "matcher list \<Rightarrow> string \<Rightarrow> bool \<Rightarrow> bool" where
  "verdict [] rel_path is_dir = False"
| "verdict (layer # layers) rel_path is_dir =
     (case layer rel_path is_dir of
        GiIgnore \<Rightarrow> True
      | GiWhitelist \<Rightarrow> False
      | GiNone \<Rightarrow> verdict layers rel_path is_dir)"

definition is_ignored :: "ignore_rules \<Rightarrow> string \<Rightarrow> bool \<Rightarrow> bool" where
  "is_ignored rules rel_path is_dir = verdict (rev rules) rel_path is_dir"

definition read_gitignore :: "string \<Rightarrow> (io_error, string) result" where
  "read_gitignore reader =
     (let bytes = take (MAX_GITIGNORE_BYTES + 1) reader in
      if length bytes > MAX_GITIGNORE_BYTES
      then Inl ''a .gitignore exceeds the supported size'' else Inr bytes)"

datatype gitignores = Honor | Disregard

text \<open>The directory's own rules file, when it is a regular file; opening or reading it may fail.\<close>

definition own_gitignore :: "(string \<times> fs_tree) list \<Rightarrow> (io_error, string option) result" where
  "own_gitignore entries =
     (case find (\<lambda>e. fst e = GITIGNORE) entries of
        Some (_, FFile bytes) \<Rightarrow> rbind (read_gitignore bytes) (\<lambda>b. Inr (Some b))
      | Some (_, FFileErr e) \<Rightarrow> Inl e
      | _ \<Rightarrow> Inr None)"

definition dir_rules ::
  "gitignore_builder \<Rightarrow> gitignores \<Rightarrow> ignore_rules \<Rightarrow> string \<Rightarrow> (string \<times> fs_tree) list
     \<Rightarrow> (io_error, ignore_rules) result" where
  "dir_rules GB gi parent rel_dir entries =
     (case gi of
        Honor \<Rightarrow> rbind (own_gitignore entries) (\<lambda>own. Inr (descend GB parent rel_dir own))
      | Disregard \<Rightarrow> Inr [])"

section \<open>The walk\<close>

record walked_file =
  wk_rel :: string
  wk_path :: "string list"
  wk_name :: string

record walk_step =
  ws_dir :: string
  ws_found :: nat

text \<open>
  The hook is a \<^verbatim>\<open>FnMut\<close>: its captured state is passed along; it answers whether to break.
\<close>

type_synonym 's on_dir = "walk_step \<Rightarrow> 's \<Rightarrow> bool \<times> 's"

definition join_rel :: "string \<Rightarrow> string \<Rightarrow> string" where
  "join_rel rel_dir name = (if rel_dir = [] then name else rel_dir @ ''/'' @ name)"

text \<open>
  An entry's name is any byte string; the walk keeps the name on disk in \<open>wk_path\<close> and works on
  \<^verbatim>\<open>to_string_lossy\<close> of it everywhere else, which replaces what is not UTF-8.
\<close>

abbreviation to_string_lossy :: "string \<Rightarrow> string" where
  "to_string_lossy \<equiv> from_utf8_lossy"

lemma size_list_insort: "size_list f (insort_key k x xs) = Suc (f x + size_list f xs)"
  by (induction xs) simp_all

lemma size_list_sort [simp]: "size_list f (sort_key k xs) = size_list f xs"
  by (induction xs) (simp_all add: size_list_insort)

text \<open>
  \<open>Inr True\<close> is \<^verbatim>\<open>ControlFlow::Break\<close>; one turn of the loop over the entries ends in
  \<open>Inr False\<close>, which goes on with the next one, or returns. A directory's path on disk is the list of its
  components below the root.
\<close>

function (sequential) visit ::
    "gitignore_builder \<Rightarrow> (string \<Rightarrow> bool) \<Rightarrow> gitignores \<Rightarrow> 's on_dir \<Rightarrow> string list \<Rightarrow> string \<Rightarrow> ignore_rules
       \<Rightarrow> fs_tree \<Rightarrow> 's \<Rightarrow> walked_file list \<Rightarrow> (io_error, bool) result \<times> 's \<times> walked_file list"
  and visit_entries ::
    "gitignore_builder \<Rightarrow> (string \<Rightarrow> bool) \<Rightarrow> gitignores \<Rightarrow> 's on_dir \<Rightarrow> string list \<Rightarrow> string \<Rightarrow> ignore_rules
       \<Rightarrow> (string \<times> fs_tree) list \<Rightarrow> 's \<Rightarrow> walked_file list
       \<Rightarrow> (io_error, bool) result \<times> 's \<times> walked_file list" where
  "visit GB skip gi hook path rel_dir parent t s out =
     (case hook \<lparr>ws_dir = rel_dir, ws_found = length out\<rparr> s of (brk, s') \<Rightarrow>
        if brk then (Inr True, s', out)
        else (case t of
                FDir es \<Rightarrow>
                  (case dir_rules GB gi parent rel_dir (sort_key fst es) of
                     Inl e \<Rightarrow> (Inl e, s', out)
                   | Inr rules \<Rightarrow> visit_entries GB skip gi hook path rel_dir rules (sort_key fst es) s' out)
              | FDirErr e \<Rightarrow> (Inl e, s', out)
              | _ \<Rightarrow> (Inl ''Not a directory'', s', out)))"
| "visit_entries GB skip gi hook path rel_dir rules [] s out = (Inr False, s, out)"
| "visit_entries GB skip gi hook path rel_dir rules ((name, t) # es) s out =
     (case (case t of
              FUnknown e \<Rightarrow> (Inl e, s, out)
            | FSymlink \<Rightarrow> (Inr False, s, out)
            | FOther \<Rightarrow> (Inr False, s, out)
            | _ \<Rightarrow>
                if is_file t then
                  (Inr False, s,
                   if is_ignored rules (join_rel rel_dir (to_string_lossy name)) False then out
                   else out @ [\<lparr>wk_rel = join_rel rel_dir (to_string_lossy name), wk_path = path @ [name],
                                wk_name = to_string_lossy name\<rparr>])
                else if skip (to_string_lossy name) \<or>
                        is_ignored rules (join_rel rel_dir (to_string_lossy name)) True then (Inr False, s, out)
                else visit GB skip gi hook (path @ [name]) (join_rel rel_dir (to_string_lossy name)) rules t s out) of
        (Inr False, s', out') \<Rightarrow> visit_entries GB skip gi hook path rel_dir rules es s' out'
      | stop \<Rightarrow> stop)"
  by pat_completeness auto
termination
  by (relation "measure (case_sum (\<lambda>(_, _, _, _, _, _, _, t, _, _). size t)
        (\<lambda>(_, _, _, _, _, _, _, es, _, _). size_list (size_prod (\<lambda>_. 0) size) es))") auto

declare visit.simps [simp del]

definition files_until ::
  "gitignore_builder \<Rightarrow> fs_tree \<Rightarrow> (string \<Rightarrow> bool) \<Rightarrow> gitignores \<Rightarrow> 's on_dir \<Rightarrow> 's
     \<Rightarrow> (io_error, walked_file list option) result \<times> 's" where
  "files_until GB root skip_dir gi hook s =
     (case visit GB skip_dir gi hook [] [] [] root s [] of
        (Inl e, s', out) \<Rightarrow> (Inl e, s')
      | (Inr True, s', out) \<Rightarrow> (Inr None, s')
      | (Inr False, s', out) \<Rightarrow> (Inr (Some (sort_key wk_rel out)), s'))"

text \<open>\<open>WalkPanic\<close> is the \<^verbatim>\<open>expect\<close> of \<^verbatim>\<open>files\<close> on a walk that was broken off.\<close>

datatype walk_error = WalkIo io_error | WalkPanic

definition files ::
  "gitignore_builder \<Rightarrow> fs_tree \<Rightarrow> (string \<Rightarrow> bool) \<Rightarrow> gitignores \<Rightarrow> (walk_error, walked_file list) result" where
  "files GB root skip_dir gi =
     (case fst (files_until GB root skip_dir gi (\<lambda>_ s. (False, s)) ()) of
        Inl e \<Rightarrow> Inl (WalkIo e)
      | Inr None \<Rightarrow> Inl WalkPanic
      | Inr (Some ws) \<Rightarrow> Inr ws)"

section \<open>Reading a file by its relative path\<close>

fun fs_at :: "fs_tree \<Rightarrow> string list \<Rightarrow> fs_tree option" where
  "fs_at t [] = Some t"
| "fs_at t (n # ns) =
     (case t of FDir es \<Rightarrow> (case map_of es n of None \<Rightarrow> None | Some t' \<Rightarrow> fs_at t' ns) | _ \<Rightarrow> None)"

text \<open>\<^verbatim>\<open>std::fs::read_to_string(root.join(rel))\<close>: invalid UTF-8 is an error.\<close>

definition read_to_string :: "fs_tree \<Rightarrow> string \<Rightarrow> (io_error, string) result" where
  "read_to_string root rel =
     (case fs_at root (split_on (CHR ''/'') rel) of
        Some (FFile bytes) \<Rightarrow>
          if is_utf8 bytes then Inr bytes else Inl ''stream did not contain valid UTF-8''
      | Some (FFileErr e) \<Rightarrow> Inl e
      | Some (FDir _) \<Rightarrow> Inl ''Is a directory''
      | _ \<Rightarrow> Inl ''No such file or directory'')"

end
