(* ===== verification/Event_Stitch.thy ===== *)
theory Event_Stitch
  imports Graph_Store Source_Walk
begin

text \<open>
  Event and fetch stitching of \<^verbatim>\<open>crates/events/src/lib.rs\<close>: the \<open>config_index\<close> built from the
  env files of a source tree, the resolution of a site's identity (literal, env key, or
  runtime-computed), the \<open>stitch\<close> loop that turns event sites into channels and
  \<^verbatim>\<open>PUBLISHES\<close>/\<^verbatim>\<open>SUBSCRIBES\<close> edges, and \<open>stitch_fetches\<close>, which matches
  fetch sites with the endpoints of their repository. The site types are those of
  \<^verbatim>\<open>crates/adapters-fw/src/events.rs\<close> and \<^verbatim>\<open>client.rs\<close>. A provenance hashes with the parameter
  \<open>H\<close>; a walk takes the ignore crate's builder \<open>GB\<close>, which it never calls here.
\<close>

section \<open>Sites\<close>

datatype channel_role = Produces | Consumes

datatype identity_expr = Literal string | EnvRef string | Computed string

record event_site =
  es_kind :: string
  es_role :: channel_role
  es_identity :: identity_expr
  es_symbol :: "string option"
  es_path :: string
  es_byte_start :: u64
  es_byte_end :: u64

record fetch_site =
  fs_method :: string
  fs_url :: identity_expr
  fs_symbol :: "string option"
  fs_path :: string
  fs_byte_start :: u64
  fs_byte_end :: u64

definition EVENT_SDK_VERSION :: string where "EVENT_SDK_VERSION = ''ts-2026.07''"

record extraction =
  x_nodes :: "node list"
  x_edges :: "edge list"

record source_id =
  sid_repo :: string
  sid_commit :: string

definition EXTRACTOR_ID :: string where "EXTRACTOR_ID = ''t0.events''"

datatype stitch_error = StitchIo walk_error

section \<open>The config index\<close>

text \<open>Key to value and repository-relative source file.\<close>

type_synonym config_index = "(string, string \<times> string) omap"

definition env_skip :: "string \<Rightarrow> bool" where
  "env_skip name \<longleftrightarrow> name = ''node_modules'' \<or> name = ''dist'' \<or> starts_with ''.'' name"

definition is_env_name :: "string \<Rightarrow> bool" where
  "is_env_name name \<longleftrightarrow> name = ''.env'' \<or> starts_with ''.env.'' name"

definition collect_env_files :: "gitignore_builder \<Rightarrow> fs_tree \<Rightarrow> (walk_error, string list) result" where
  "collect_env_files GB root =
     rbind (files GB root env_skip Disregard) (\<lambda>ws.
       Inr (map wk_rel (filter (\<lambda>w. is_env_name (wk_name w)) ws)))"

definition trim_quotes :: "string \<Rightarrow> string" where
  "trim_quotes s =
     (let q = (\<lambda>c. c = CHR 0x22 \<or> c = CHR 0x27) in rev (dropWhile q (rev (dropWhile q s))))"

text \<open>One line of an env file: its definition, or nothing for what the loop skips.\<close>

definition parse_env_line :: "string \<Rightarrow> (string \<times> string) option" where
  "parse_env_line raw =
     (let line = trim raw in
      if line = [] \<or> starts_with ''#'' line then None
      else (case split_once (CHR ''='') line of
              None \<Rightarrow> None
            | Some (k, v) \<Rightarrow>
                (let key = trim (strip_seqs [''export ''] (trim k));
                     val = trim_quotes (trim v)
                 in if key = [] \<or> has_ws key then None else Some (key, val))))"

definition or_insert :: "'k::linorder \<Rightarrow> 'v \<Rightarrow> ('k, 'v) omap \<Rightarrow> ('k, 'v) omap" where
  "or_insert k v m = (case om_get m k of None \<Rightarrow> om_put k v m | Some _ \<Rightarrow> m)"

definition index_line :: "string \<Rightarrow> string \<Rightarrow> config_index \<Rightarrow> config_index" where
  "index_line rel raw index =
     (case parse_env_line raw of None \<Rightarrow> index | Some (key, val) \<Rightarrow> or_insert key (val, rel) index)"

definition from_dir :: "gitignore_builder \<Rightarrow> fs_tree \<Rightarrow> (stitch_error, config_index) result" where
  "from_dir GB root =
     (case collect_env_files GB root of
        Inl e \<Rightarrow> Inl (StitchIo e)
      | Inr rels \<Rightarrow>
          try_fold (\<lambda>rel index.
            (case read_to_string root rel of
               Inl e \<Rightarrow> Inl (StitchIo (WalkIo e))
             | Inr content \<Rightarrow> Inr (fold (index_line rel) (str_lines content) index)))
            (sort rels) [])"

definition resolve :: "config_index \<Rightarrow> string \<Rightarrow> (string \<times> string) option" where
  "resolve cfg key = om_get cfg key"

definition apply_manifest :: "(string, string) omap \<Rightarrow> string \<Rightarrow> config_index \<Rightarrow> config_index" where
  "apply_manifest env source cfg = fold (\<lambda>(key, val). om_put key (val, source)) env cfg"

section \<open>Channels\<close>

definition event_prov ::
  "(string \<Rightarrow> string) \<Rightarrow> source_id \<Rightarrow> string \<Rightarrow> u64 \<times> u64 \<Rightarrow> confidence_tier \<Rightarrow> string \<Rightarrow> json" where
  "event_prov H sid path span confidence fct =
     prov_to_value (t0_prov H confidence
       [\<lparr>ev_repo = sid_repo sid, ev_path = path, ev_byte_start = fst span, ev_byte_end = snd span,
         ev_commit_sha = sid_commit sid\<rparr>] EXTRACTOR_ID fct)"

definition site_source :: "string \<Rightarrow> string option \<Rightarrow> string \<Rightarrow> string" where
  "site_source repo symbol path =
     (case symbol of Some s \<Rightarrow> s | None \<Rightarrow> ''file:'' @ repo @ ''@'' @ path)"

definition role_label :: "channel_role \<Rightarrow> string" where
  "role_label r = (case r of Produces \<Rightarrow> ''PUBLISHES'' | Consumes \<Rightarrow> ''SUBSCRIBES'')"

text \<open>The identity at T0 and the resolver that found it.\<close>

definition resolve_identity :: "config_index \<Rightarrow> identity_expr \<Rightarrow> (string \<times> string) option" where
  "resolve_identity cfg x =
     (case x of
        Literal s \<Rightarrow> Some (s, ''literal'')
      | EnvRef key \<Rightarrow> map_option (\<lambda>(val, file). (val, ''config:'' @ file)) (resolve cfg key)
      | Computed _ \<Rightarrow> None)"

definition chan_id :: "event_site \<Rightarrow> string \<Rightarrow> string" where
  "chan_id site identity = ''chan:'' @ es_kind site @ '':'' @ identity"

definition chan_gap_id :: "source_id \<Rightarrow> event_site \<Rightarrow> string" where
  "chan_gap_id sid site =
     ''gap:chan:'' @ sid_repo sid @ ''@'' @ es_path site @ ''@'' @ show_nat (unat (es_byte_start site))"

definition site_prov ::
  "(string \<Rightarrow> string) \<Rightarrow> source_id \<Rightarrow> event_site \<Rightarrow> confidence_tier \<Rightarrow> string \<Rightarrow> json" where
  "site_prov H sid site = event_prov H sid (es_path site) (es_byte_start site, es_byte_end site)"

definition channel_node :: "(string \<Rightarrow> string) \<Rightarrow> source_id \<Rightarrow> event_site \<Rightarrow> string \<Rightarrow> node" where
  "channel_node H sid site identity =
     \<lparr>n_id = chan_id site identity, n_label = ''Channel'',
      n_props = JObj [(''kind'', JStr (es_kind site)), (''identity'', JStr identity),
        (''prov'', site_prov H sid site Confirmed (''Channel '' @ chan_id site identity))]\<rparr>"

definition channel_edge :: "(string \<Rightarrow> string) \<Rightarrow> source_id \<Rightarrow> event_site \<Rightarrow> string \<Rightarrow> string \<Rightarrow> edge" where
  "channel_edge H sid site identity resolver =
     \<lparr>e_src = site_source (sid_repo sid) (es_symbol site) (es_path site), e_dst = chan_id site identity,
      e_label = role_label (es_role site),
      e_props = JObj [(''resolver'', JStr resolver), (''registry'', JStr EVENT_SDK_VERSION),
        (''prov'', site_prov H sid site Confirmed
                     (role_label (es_role site) @ '' -> '' @ chan_id site identity))]\<rparr>"

text \<open>Why a site stays open, and the text it was written as; a literal never gets here.\<close>

definition gap_reason :: "identity_expr \<Rightarrow> string \<times> string" where
  "gap_reason x =
     (case x of
        EnvRef key \<Rightarrow> (''env key '' @ key @ '' not found in any env file in the repo'', ''process.env.'' @ key)
      | Computed raw \<Rightarrow> (''runtime-computed channel identity'', raw)
      | Literal _ \<Rightarrow> undefined)"

definition chan_gap_node :: "(string \<Rightarrow> string) \<Rightarrow> source_id \<Rightarrow> event_site \<Rightarrow> node" where
  "chan_gap_node H sid site =
     (let (reason, raw) = gap_reason (es_identity site) in
      \<lparr>n_id = chan_gap_id sid site, n_label = ''Gap'',
       n_props = JObj [(''reason'', JStr reason), (''raw'', JStr raw), (''kind'', JStr (es_kind site)),
         (''attempted_tiers'', JArr [JStr ''T0'']),
         (''prov'', site_prov H sid site Gap (''Gap '' @ chan_gap_id sid site))]\<rparr>)"

definition chan_gap_edge :: "(string \<Rightarrow> string) \<Rightarrow> source_id \<Rightarrow> event_site \<Rightarrow> edge" where
  "chan_gap_edge H sid site =
     (let (reason, raw) = gap_reason (es_identity site) in
      \<lparr>e_src = site_source (sid_repo sid) (es_symbol site) (es_path site), e_dst = chan_gap_id sid site,
       e_label = role_label (es_role site),
       e_props = JObj [(''reason'', JStr reason), (''registry'', JStr EVENT_SDK_VERSION),
         (''prov'', site_prov H sid site Gap (role_label (es_role site) @ '' -> '' @ chan_gap_id sid site))]\<rparr>)"

record stitching =
  st_out :: extraction
  st_channels :: "(string, node) omap"

definition push_edge :: "edge \<Rightarrow> extraction \<Rightarrow> extraction" where
  "push_edge e x = x\<lparr>x_edges := x_edges x @ [e]\<rparr>"

definition push_node :: "node \<Rightarrow> extraction \<Rightarrow> extraction" where
  "push_node n x = x\<lparr>x_nodes := x_nodes x @ [n]\<rparr>"

definition stitch_site ::
  "(string \<Rightarrow> string) \<Rightarrow> config_index \<Rightarrow> source_id \<Rightarrow> event_site \<Rightarrow> stitching \<Rightarrow> stitching" where
  "stitch_site H cfg sid site st =
     (case resolve_identity cfg (es_identity site) of
        Some (identity, resolver) \<Rightarrow>
          st\<lparr>st_channels := or_insert (chan_id site identity) (channel_node H sid site identity) (st_channels st),
             st_out := push_edge (channel_edge H sid site identity resolver) (st_out st)\<rparr>
      | None \<Rightarrow>
          st\<lparr>st_out := push_edge (chan_gap_edge H sid site) (push_node (chan_gap_node H sid site) (st_out st))\<rparr>)"

definition stitch ::
  "(string \<Rightarrow> string) \<Rightarrow> event_site list \<Rightarrow> config_index \<Rightarrow> source_id \<Rightarrow> extraction" where
  "stitch H sites cfg sid =
     (let st = fold (stitch_site H cfg sid) sites
                 \<lparr>st_out = \<lparr>x_nodes = [], x_edges = []\<rparr>, st_channels = []\<rparr>
      in (st_out st)\<lparr>x_nodes := x_nodes (st_out st) @ map snd (st_channels st)\<rparr>)"

section \<open>Fetches\<close>

definition url_path :: "string \<Rightarrow> string" where
  "url_path url =
     (let u = takeWhile (\<lambda>c. c \<noteq> CHR ''?'' \<and> c \<noteq> CHR ''#'') url in
      case find_str ''://'' u of
        Some i \<Rightarrow>
          (let rest = drop (i + 3) u in
           case find_str ''/'' rest of Some j \<Rightarrow> drop j rest | None \<Rightarrow> ''/'')
      | None \<Rightarrow> u)"

definition segment_matches :: "string \<Rightarrow> string \<Rightarrow> bool" where
  "segment_matches p c \<longleftrightarrow> p = c \<or> (starts_with '':'' p \<and> c \<noteq> [])"

definition route_matches :: "string \<Rightarrow> string \<Rightarrow> bool" where
  "route_matches pattern concrete =
     (let ps = split_on (CHR ''/'') pattern; cs = split_on (CHR ''/'') concrete in
      length ps = length cs \<and> list_all (\<lambda>(p, c). segment_matches p c) (zip ps cs))"

definition parse_endpoint :: "string \<Rightarrow> string \<Rightarrow> (string \<times> string \<times> string) option" where
  "parse_endpoint ns eid =
     Option.bind (strip_prefix ''ep:'' eid) (\<lambda>r.
     Option.bind (strip_prefix ns r) (\<lambda>rest.
     map_option (\<lambda>(verb, route). (eid, verb, route)) (split_once (CHR '':'') rest)))"

definition resolve_url :: "config_index \<Rightarrow> identity_expr \<Rightarrow> (string \<times> string) option" where
  "resolve_url cfg x =
     (case x of
        Literal u \<Rightarrow> Some (url_path u, ''literal'')
      | EnvRef key \<Rightarrow> map_option (\<lambda>(val, file). (url_path val, ''config:'' @ file)) (resolve cfg key)
      | Computed _ \<Rightarrow> None)"

text \<open>The endpoint and resolver of a fetch, or the reason it stays open.\<close>

definition fetch_outcome ::
  "(string \<times> string \<times> string) list \<Rightarrow> config_index \<Rightarrow> fetch_site \<Rightarrow> (string, string \<times> string) result" where
  "fetch_outcome endpoints cfg site =
     (case resolve_url cfg (fs_url site) of
        None \<Rightarrow>
          Inl (case fs_url site of
                 EnvRef key \<Rightarrow> ''env key '' @ key @ '' not found in any env file in the repo''
               | _ \<Rightarrow> ''runtime-computed fetch URL'')
      | Some (path, resolver) \<Rightarrow>
          if fs_method site = ''?'' then Inl ''runtime-computed HTTP method''
          else (case map fst (filter (\<lambda>(_, verb, route). verb = fs_method site \<and> route_matches route path) endpoints) of
                  [one] \<Rightarrow> Inr (one, resolver)
                | [] \<Rightarrow> Inl (''no recovered endpoint matches '' @ fs_method site @ '' '' @ path)
                | many \<Rightarrow> Inl (''ambiguous endpoint match for '' @ fs_method site @ '' '' @ path @ '' ('' @
                                 show_nat (length many) @ '' candidates)'')))"

definition fetch_prov ::
  "(string \<Rightarrow> string) \<Rightarrow> source_id \<Rightarrow> fetch_site \<Rightarrow> confidence_tier \<Rightarrow> string \<Rightarrow> json" where
  "fetch_prov H sid site = event_prov H sid (fs_path site) (fs_byte_start site, fs_byte_end site)"

definition fetch_gap_id :: "source_id \<Rightarrow> fetch_site \<Rightarrow> string" where
  "fetch_gap_id sid site =
     ''gap:fetch:'' @ sid_repo sid @ ''@'' @ fs_path site @ ''@'' @ show_nat (unat (fs_byte_start site))"

definition fetch_edge ::
  "(string \<Rightarrow> string) \<Rightarrow> source_id \<Rightarrow> fetch_site \<Rightarrow> string \<Rightarrow> string \<Rightarrow> edge" where
  "fetch_edge H sid site ep_id resolver =
     \<lparr>e_src = site_source (sid_repo sid) (fs_symbol site) (fs_path site), e_dst = ep_id, e_label = ''FETCHES'',
      e_props = JObj [(''method'', JStr (fs_method site)), (''resolver'', JStr resolver),
        (''prov'', fetch_prov H sid site Confirmed (''FETCHES -> '' @ ep_id))]\<rparr>"

definition fetch_gap_node :: "(string \<Rightarrow> string) \<Rightarrow> source_id \<Rightarrow> fetch_site \<Rightarrow> string \<Rightarrow> node" where
  "fetch_gap_node H sid site reason =
     \<lparr>n_id = fetch_gap_id sid site, n_label = ''Gap'',
      n_props = JObj [(''reason'', JStr reason), (''attempted_tiers'', JArr [JStr ''T0'']),
        (''prov'', fetch_prov H sid site Gap (''Gap '' @ fetch_gap_id sid site))]\<rparr>"

definition fetch_gap_edge :: "(string \<Rightarrow> string) \<Rightarrow> source_id \<Rightarrow> fetch_site \<Rightarrow> string \<Rightarrow> edge" where
  "fetch_gap_edge H sid site reason =
     \<lparr>e_src = site_source (sid_repo sid) (fs_symbol site) (fs_path site), e_dst = fetch_gap_id sid site,
      e_label = ''FETCHES'',
      e_props = JObj [(''reason'', JStr reason), (''method'', JStr (fs_method site)),
        (''prov'', fetch_prov H sid site Gap (''FETCHES -> '' @ fetch_gap_id sid site))]\<rparr>"

definition stitch_fetch ::
  "(string \<Rightarrow> string) \<Rightarrow> (string \<times> string \<times> string) list \<Rightarrow> config_index \<Rightarrow> source_id \<Rightarrow> fetch_site
     \<Rightarrow> extraction \<Rightarrow> extraction" where
  "stitch_fetch H endpoints cfg sid site x =
     (case fetch_outcome endpoints cfg site of
        Inr (ep_id, resolver) \<Rightarrow> push_edge (fetch_edge H sid site ep_id resolver) x
      | Inl reason \<Rightarrow> push_edge (fetch_gap_edge H sid site reason) (push_node (fetch_gap_node H sid site reason) x))"

definition stitch_fetches ::
  "(string \<Rightarrow> string) \<Rightarrow> fetch_site list \<Rightarrow> string list \<Rightarrow> config_index \<Rightarrow> source_id \<Rightarrow> extraction" where
  "stitch_fetches H sites endpoint_ids cfg sid =
     fold (stitch_fetch H (List.map_filter (parse_endpoint (sid_repo sid @ ''@'')) endpoint_ids) cfg sid) sites
       \<lparr>x_nodes = [], x_edges = []\<rparr>"

end
