(* ===== verification/Source_Walk_Props.thy ===== *)
theory Source_Walk_Props
  imports Source_Walk "HOL-Library.Multiset"
begin

text \<open>
  Correctness of the source-tree walk. \<open>walk_selects\<close> says of one path, by following it down the tree,
  whether it names a regular file that no skipped directory and no ignore rule excludes; the walk
  lists exactly those paths, in order, whatever order the directories are read in, and a hook can
  only turn that list into nothing.
\<close>

section \<open>Relative paths\<close>

definition rel_of :: "string list \<Rightarrow> string" where
  "rel_of p = foldl join_rel [] (map to_string_lossy p)"

lemma rel_of_snoc [simp]: "rel_of (p @ [n]) = join_rel (rel_of p) (to_string_lossy n)"
  by (simp add: rel_of_def)

lemma rel_of_Nil [simp]: "rel_of [] = []"
  by (simp add: rel_of_def)

lemma rel_of_single [simp]: "rel_of [n] = to_string_lossy n"
  by (simp add: rel_of_def join_rel_def)

text \<open>A path of proper names that are UTF-8 can be read off its relative path again.\<close>

definition path_ok :: "string list \<Rightarrow> bool" where
  "path_ok p \<longleftrightarrow> p \<noteq> [] \<and> list_all name_ok p \<and> list_all is_utf8 p"

lemma rel_of_nonempty: "p \<noteq> [] \<Longrightarrow> list_all name_ok p \<Longrightarrow> list_all is_utf8 p \<Longrightarrow> rel_of p \<noteq> []"
  by (induction p rule: rev_induct) (auto simp: join_rel_def name_ok_def from_utf8_lossy_id)

lemma split_on_single: "c \<notin> set s \<Longrightarrow> split_on c s = [s]"
  by (induction s) auto

lemma split_on_append: "split_on c (a @ c # b) = split_on c a @ split_on c b"
proof (induction a)
  case (Cons x a)
  then show ?case by (cases "split_on c a") auto
qed simp

lemma split_rel_of: "path_ok p \<Longrightarrow> split_on (CHR ''/'') (rel_of p) = p"
proof (induction p rule: rev_induct)
  case (snoc n p)
  then show ?case
    by (cases "p = []")
      (auto simp: path_ok_def join_rel_def name_ok_def split_on_single split_on_append rel_of_nonempty
          from_utf8_lossy_id)
qed (simp add: path_ok_def)

lemma rel_of_inj: "path_ok p \<Longrightarrow> path_ok q \<Longrightarrow> rel_of p = rel_of q \<Longrightarrow> p = q"
  by (metis split_rel_of)

definition walked :: "string list \<Rightarrow> walked_file" where
  "walked p = \<lparr>wk_rel = rel_of p, wk_path = p, wk_name = to_string_lossy (last p)\<rparr>"

section \<open>What the walk should list\<close>

text \<open>
  The rules in force below a directory: those of its parent and, in the honouring mode, its own rules
  file as one more layer, so that an inner file is asked first; none at all when rules are disregarded.
\<close>

definition rules_below ::
  "gitignore_builder \<Rightarrow> gitignores \<Rightarrow> ignore_rules \<Rightarrow> string \<Rightarrow> (string \<times> fs_tree) list \<Rightarrow> ignore_rules option" where
  "rules_below GB gi R rel es =
     (if gi = Disregard then Some []
      else (case own_gitignore es of Inl _ \<Rightarrow> None | Inr own \<Rightarrow> Some (descend GB R rel own)))"

lemma dir_rules_below:
  "rules_below GB gi R rel es = (case dir_rules GB gi R rel es of Inl _ \<Rightarrow> None | Inr R' \<Rightarrow> Some R')"
  by (cases gi) (auto simp: rules_below_def dir_rules_def rbind_def split: sum.split)

fun walk_selects ::
  "gitignore_builder \<Rightarrow> (string \<Rightarrow> bool) \<Rightarrow> gitignores \<Rightarrow> string list \<Rightarrow> ignore_rules \<Rightarrow> (string \<times> fs_tree) list
     \<Rightarrow> string list \<Rightarrow> bool" where
  "walk_selects GB skip gi path R es [] = False"
| "walk_selects GB skip gi path R es [n] =
     (case map_of es n of
        None \<Rightarrow> False
      | Some t \<Rightarrow> is_file t \<and> \<not> is_ignored R (rel_of (path @ [n])) False)"
| "walk_selects GB skip gi path R es (n # m # q) =
     (case map_of es n of
        Some (FDir es') \<Rightarrow>
          \<not> skip (to_string_lossy n) \<and> \<not> is_ignored R (rel_of (path @ [n])) True \<and>
          (case rules_below GB gi R (rel_of (path @ [n])) es' of
             None \<Rightarrow> False
           | Some R' \<Rightarrow> walk_selects GB skip gi (path @ [n]) R' es' (m # q))
      | _ \<Rightarrow> False)"

lemma walk_selects_cong:
  "map_of es = map_of es' \<Longrightarrow> walk_selects GB skip gi path R es q = walk_selects GB skip gi path R es' q"
  by (cases q rule: remdups_adj.cases) simp_all

lemma walk_selects_hd: "walk_selects GB skip gi path R es q \<Longrightarrow> q \<noteq> [] \<and> hd q \<in> fst ` set es"
  by (cases q rule: remdups_adj.cases) (auto split: option.splits dest: map_of_SomeD simp: image_iff intro: rev_bexI)

lemma walk_selects_Cons:
  assumes "n \<notin> fst ` set es"
  shows "walk_selects GB skip gi path R ((n, t) # es) q \<longleftrightarrow>
     walk_selects GB skip gi path R [(n, t)] q \<or> walk_selects GB skip gi path R es q"
proof (cases "q = [] \<or> hd q \<noteq> n")
  case True
  then have "\<not> walk_selects GB skip gi path R [(n, t)] q" using walk_selects_hd by fastforce
  moreover from True have "walk_selects GB skip gi path R ((n, t) # es) q = walk_selects GB skip gi path R es q"
    by (cases q rule: remdups_adj.cases) auto
  ultimately show ?thesis by simp
next
  case False
  then have "\<not> walk_selects GB skip gi path R es q" using walk_selects_hd assms by metis
  moreover from False have "walk_selects GB skip gi path R ((n, t) # es) q = walk_selects GB skip gi path R [(n, t)] q"
    by (cases q rule: remdups_adj.cases) auto
  ultimately show ?thesis by simp
qed

lemma walk_selects_file:
  "is_file t \<Longrightarrow> {q. walk_selects GB skip gi path R [(n, t)] q} =
     (if is_ignored R (join_rel (rel_of path) (to_string_lossy n)) False then {} else {[n]})"
proof -
  assume t: "is_file t"
  have "walk_selects GB skip gi path R [(n, t)] q \<longleftrightarrow> q = [n] \<and> \<not> is_ignored R (join_rel (rel_of path) (to_string_lossy n)) False" for q
    using t by (cases q rule: remdups_adj.cases) (auto split: fs_tree.splits)
  then show ?thesis by auto
qed

lemma walk_selects_dir:
  "{q. walk_selects GB skip gi path R [(n, FDir es)] q} =
     (if skip (to_string_lossy n) \<or> is_ignored R (join_rel (rel_of path) (to_string_lossy n)) True then {}
      else (case dir_rules GB gi R (join_rel (rel_of path) (to_string_lossy n)) es of
              Inl _ \<Rightarrow> {}
            | Inr R' \<Rightarrow> (#) n ` {q. walk_selects GB skip gi (path @ [n]) R' es q}))"
  (is "?L = ?R")
proof -
  have "q \<in> ?L \<longleftrightarrow> q \<in> ?R" for q
    by (cases q rule: remdups_adj.cases) (auto simp: dir_rules_below split: sum.splits)
  then show ?thesis by auto
qed

lemma walk_selects_other:
  "\<not> is_file t \<Longrightarrow> \<forall>es. t \<noteq> FDir es \<Longrightarrow> {q. walk_selects GB skip gi path R [(n, t)] q} = {}"
proof -
  assume "\<not> is_file t" "\<forall>es. t \<noteq> FDir es"
  then have "\<not> walk_selects GB skip gi path R [(n, t)] q" for q
    by (cases q rule: remdups_adj.cases) (auto split: fs_tree.splits)
  then show ?thesis by auto
qed

section \<open>The order directories are read in does not matter\<close>

lemma map_of_sort [simp]:
  "distinct (map fst es) \<Longrightarrow> map_of (sort_key fst es) = map_of es"
proof -
  assume d: "distinct (map fst es)"
  then have "distinct (map fst (sort_key fst es))"
    by (metis distinct_map distinct_sort inj_on_def set_sort)
  with d show ?thesis by (simp add: map_of_inject_set)
qed

lemma find_by_name: "find (\<lambda>e. fst e = k) es = map_option (Pair k) (map_of es k)"
  by (induction es) auto

lemma own_gitignore_cong:
  "map_of es = map_of es' \<Longrightarrow> own_gitignore es = own_gitignore es'"
  by (simp add: own_gitignore_def find_by_name)

lemma dir_rules_sort [simp]:
  "distinct (map fst es) \<Longrightarrow> dir_rules GB gi parent rel (sort_key fst es) = dir_rules GB gi parent rel es"
  using own_gitignore_cong [of "sort_key fst es" es] by (cases gi) (simp_all add: dir_rules_def)

section \<open>The walk lists exactly the selected paths\<close>

text \<open>What a finished directory adds to the output: the selected paths below it, each once.\<close>

definition adds ::
  "walked_file list \<Rightarrow> walked_file list \<Rightarrow> string list \<Rightarrow> string list set \<Rightarrow> bool" where
  "adds out out' path Q \<longleftrightarrow>
     (\<exists>new. out' = out @ map walked new \<and> distinct new \<and> set new = (@) path ` Q)"

lemma adds_refl [simp]: "adds out out path {}"
  by (simp add: adds_def)

lemma adds_one: "adds out (out @ [walked (path @ [n])]) path {[n]}"
  unfolding adds_def by (rule exI [of _ "[path @ [n]]"]) simp

lemma adds_trans:
  assumes "adds a b path P" "adds b c path Q" "P \<inter> Q = {}"
  shows "adds a c path (P \<union> Q)"
proof -
  from assms obtain xs ys where xs: "b = a @ map walked xs" "distinct xs" "set xs = (@) path ` P"
    and ys: "c = b @ map walked ys" "distinct ys" "set ys = (@) path ` Q" unfolding adds_def by blast
  have "set xs \<inter> set ys = {}" using xs(3) ys(3) assms(3) by auto
  then show ?thesis unfolding adds_def using xs ys
    by (intro exI [of _ "xs @ ys"]) (simp add: image_Un)
qed

lemma adds_below: "adds out out' (path @ [n]) Q \<Longrightarrow> adds out out' path ((#) n ` Q)"
  by (simp add: adds_def image_image)

lemma walked_file_rec:
  "\<lparr>wk_rel = join_rel (rel_of path) (to_string_lossy n), wk_path = path @ [n], wk_name = to_string_lossy n\<rparr> = walked (path @ [n])"
  by (simp add: walked_def)

lemma walk_selects_disjoint:
  "n \<notin> fst ` set es \<Longrightarrow>
     {q. walk_selects GB skip gi path R [(n, t)] q} \<inter> {q. walk_selects GB skip gi path R es q} = {}"
  using walk_selects_hd [of GB skip gi path R "[(n, t)]"] walk_selects_hd [of GB skip gi path R es] by fastforce

lemma walk_selects_split:
  "n \<notin> fst ` set es \<Longrightarrow> {q. walk_selects GB skip gi path R ((n, t) # es) q} =
     {q. walk_selects GB skip gi path R [(n, t)] q} \<union> {q. walk_selects GB skip gi path R es q}"
  using walk_selects_Cons [of n es GB skip gi path R t] by auto

lemma adds_entry:
  assumes "n \<notin> fst ` set es"
    and "adds a b path {q. walk_selects GB skip gi path R [(n, t)] q}"
    and "adds b c path {q. walk_selects GB skip gi path R es q}"
  shows "adds a c path {q. walk_selects GB skip gi path R ((n, t) # es) q}"
  unfolding walk_selects_split [OF assms(1)] by (rule adds_trans [OF assms(2,3) walk_selects_disjoint [OF assms(1)]])

text \<open>One turn of the loop over a directory's entries, by the kind of the entry.\<close>

definition entry_turn ::
  "(io_error, bool) result \<times> 's \<times> walked_file list \<Rightarrow> (string \<Rightarrow> bool) \<Rightarrow> string list \<Rightarrow> string
     \<Rightarrow> ignore_rules \<Rightarrow> string \<Rightarrow> fs_tree \<Rightarrow> 's \<Rightarrow> walked_file list
     \<Rightarrow> (io_error, bool) result \<times> 's \<times> walked_file list" where
  "entry_turn v skip path rel R n t s out =
     (case t of
        FUnknown e \<Rightarrow> (Inl e, s, out)
      | FSymlink \<Rightarrow> (Inr False, s, out)
      | FOther \<Rightarrow> (Inr False, s, out)
      | _ \<Rightarrow>
          if is_file t then
            (Inr False, s,
             if is_ignored R (join_rel rel (to_string_lossy n)) False then out
             else out @ [\<lparr>wk_rel = join_rel rel (to_string_lossy n), wk_path = path @ [n], wk_name = to_string_lossy n\<rparr>])
          else if skip (to_string_lossy n) \<or> is_ignored R (join_rel rel (to_string_lossy n)) True then (Inr False, s, out)
          else v)"

lemma visit_entries_turn:
  "visit_entries GB skip gi hook path rel R ((n, t) # es) s out =
     (case entry_turn (visit GB skip gi hook (path @ [n]) (join_rel rel (to_string_lossy n)) R t s out) skip path rel R n t s out of
        (Inr False, s', out') \<Rightarrow> visit_entries GB skip gi hook path rel R es s' out'
      | stop \<Rightarrow> stop)"
  by (simp add: entry_turn_def)

declare visit_entries.simps(2) [simp del]

fun is_dir :: "fs_tree \<Rightarrow> bool" where
  "is_dir (FDir _) = True"
| "is_dir (FDirErr _) = True"
| "is_dir _ = False"

lemma entry_turn_exact:
  assumes turn: "entry_turn v skip path rel R n t s out = (Inr False, s', out')"
    and rel: "rel = rel_of path"
    and below: "is_dir t \<Longrightarrow> \<not> (skip (to_string_lossy n) \<or> is_ignored R (join_rel rel (to_string_lossy n)) True) \<Longrightarrow> v = (Inr False, s', out') \<Longrightarrow>
       \<exists>es R'. t = FDir es \<and> dir_rules GB gi R (join_rel rel (to_string_lossy n)) es = Inr R' \<and>
         adds out out' (path @ [n]) {q. walk_selects GB skip gi (path @ [n]) R' es q}"
  shows "adds out out' path {q. walk_selects GB skip gi path R [(n, t)] q}"
proof (cases "is_dir t \<and> \<not> (skip (to_string_lossy n) \<or> is_ignored R (join_rel rel (to_string_lossy n)) True)")
  case True
  with turn have "v = (Inr False, s', out')" by (cases t) (auto simp: entry_turn_def)
  with below True obtain es R' where "t = FDir es" "dir_rules GB gi R (join_rel rel (to_string_lossy n)) es = Inr R'"
    "adds out out' (path @ [n]) {q. walk_selects GB skip gi (path @ [n]) R' es q}" by blast
  with True rel show ?thesis by (auto simp: walk_selects_dir intro: adds_below)
next
  case False
  note turn_simps = entry_turn_def walk_selects_file walk_selects_dir walk_selects_other walked_file_rec rel
  show ?thesis
  proof (cases t)
    case (FDir es)
    with turn False rel show ?thesis by (auto simp: turn_simps)
  qed (use turn False rel in \<open>auto simp: turn_simps intro: adds_one\<close>)
qed

lemma visit_exact:
  "visit GB skip gi hook path rel parent t s out = (Inr False, s', out') \<Longrightarrow>
     rel = rel_of path \<Longrightarrow> fs_wf t \<Longrightarrow>
     \<exists>es R. t = FDir es \<and> dir_rules GB gi parent rel es = Inr R \<and>
       adds out out' path {q. walk_selects GB skip gi path R es q}"
  "visit_entries GB skip gi hook path rel R es s out = (Inr False, s', out') \<Longrightarrow>
     rel = rel_of path \<Longrightarrow> distinct (map fst es) \<Longrightarrow> list_all (\<lambda>(_, t). fs_wf t) es \<Longrightarrow>
     adds out out' path {q. walk_selects GB skip gi path R es q}"
proof (induction GB skip gi hook path rel parent t s out and GB skip gi hook path rel R es s out
    arbitrary: s' out' and s' out' rule: visit_visit_entries.induct)
  case (1 GB skip gi hook path rel parent t s out)
  obtain brk s1 where hook: "hook \<lparr>ws_dir = rel, ws_found = length out\<rparr> s = (brk, s1)"
    by (cases "hook \<lparr>ws_dir = rel, ws_found = length out\<rparr> s")
  from 1(2) hook obtain es R where t: "t = FDir es" and nb: "\<not> brk"
    and R: "dir_rules GB gi parent rel (sort_key fst es) = Inr R"
    and v: "visit_entries GB skip gi hook path rel R (sort_key fst es) s1 out = (Inr False, s', out')"
    by (auto simp: visit.simps split: if_splits fs_tree.splits sum.splits)
  from 1(4) t have wf: "distinct (map fst es)" "list_all (\<lambda>(_, t). fs_wf t) es" by simp_all
  then have wf': "distinct (map fst (sort_key fst es))" "list_all (\<lambda>(_, t). fs_wf t) (sort_key fst es)"
    by (auto simp: list_all_iff distinct_map)
  have "adds out out' path {q. walk_selects GB skip gi path R (sort_key fst es) q}"
    by (rule 1(1) [OF hook [symmetric] nb t R v 1(3) wf'])
  then show ?case using t R wf
    by (auto simp: walk_selects_cong [OF map_of_sort [OF wf(1)]])
next
  case (2 GB skip gi hook path rel R s out)
  have "{q. walk_selects GB skip gi path R [] q} = {}" using walk_selects_hd by fastforce
  with 2 show ?case by simp
next
  case (3 GB skip gi hook path rel R n t es s out)
  let ?v = "visit GB skip gi hook (path @ [n]) (join_rel rel (to_string_lossy n)) R t s out"
  note rest = 3(5) [folded entry_turn_def, OF _ refl refl refl]
  from 3(6) obtain s1 out1 where turn: "entry_turn ?v skip path rel R n t s out = (Inr False, s1, out1)"
    and v: "visit_entries GB skip gi hook path rel R es s1 out1 = (Inr False, s', out')"
    by (auto simp: visit_entries_turn split: prod.splits sum.splits bool.splits)
  have wf: "n \<notin> fst ` set es" "distinct (map fst es)" "fs_wf t" "list_all (\<lambda>(_, t). fs_wf t) es"
    using 3(8,9) by auto
  have "adds out out1 path {q. walk_selects GB skip gi path R [(n, t)] q}"
    by (rule entry_turn_exact [OF turn 3(7)]) (cases t; use 3(3,4) 3(7) wf(3) in auto)
  then show ?case
    by (rule adds_entry [OF wf(1) _ rest [OF turn [symmetric] v 3(7) wf(2,4)]])
qed

section \<open>Hooks and errors\<close>

text \<open>The hook \<^verbatim>\<open>files\<close> passes.\<close>

abbreviation never :: "unit on_dir" where
  "never \<equiv> \<lambda>_ s. (False, s)"

text \<open>A walk its hook does not break off finds, or fails with, what the plain walk does.\<close>

lemma visit_hook:
  "visit GB skip gi hook path rel parent t s out = (r, s', out') \<Longrightarrow> r \<noteq> Inr True \<Longrightarrow>
     visit GB skip gi never path rel parent t () out = (r, (), out')"
  "visit_entries GB skip gi hook path rel R es s out = (r, s', out') \<Longrightarrow> r \<noteq> Inr True \<Longrightarrow>
     visit_entries GB skip gi never path rel R es () out = (r, (), out')"
proof (induction GB skip gi hook path rel parent t s out and GB skip gi hook path rel R es s out
    arbitrary: r s' out' and r s' out' rule: visit_visit_entries.induct)
  case (1 GB skip gi hook path rel parent t s out)
  obtain brk s1 where hook: "hook \<lparr>ws_dir = rel, ws_found = length out\<rparr> s = (brk, s1)"
    by (cases "hook \<lparr>ws_dir = rel, ws_found = length out\<rparr> s")
  with 1(2,3) have nb: "\<not> brk" by (auto simp: visit.simps)
  note body = 1(1) [OF hook [symmetric] nb]
  from 1(2,3) hook nb body show ?case
    by (auto simp: visit.simps [of GB skip gi] split: fs_tree.splits sum.splits)
next
  case (2 GB skip gi hook path rel R s out)
  then show ?case by simp
next
  case (3 GB skip gi hook path rel R n t es s out)
  let ?v = "visit GB skip gi hook (path @ [n]) (join_rel rel (to_string_lossy n)) R t s out"
  let ?w = "visit GB skip gi never (path @ [n]) (join_rel rel (to_string_lossy n)) R t () out"
  note rest = 3(5) [folded entry_turn_def, OF _ refl refl refl]
  obtain r1 s1 out1 where turn: "entry_turn ?v skip path rel R n t s out = (r1, s1, out1)"
    by (cases "entry_turn ?v skip path rel R n t s out")
  with 3(6,7) have r1: "r1 \<noteq> Inr True" by (auto simp: visit_entries_turn)
  have "entry_turn ?w skip path rel R n t () out = (r1, (), out1)"
    using turn r1 3(1-4) by (cases t) (auto simp: entry_turn_def split: if_splits)
  with turn r1 3(6,7) rest show ?case
    by (auto simp: visit_entries_turn split: sum.splits bool.splits)
qed

text \<open>A tree the walk can read: no entry fails, and every rules file can be read when it matters.\<close>

fun fs_ok :: "gitignores \<Rightarrow> fs_tree \<Rightarrow> bool" where
  "fs_ok gi (FDir es) =
     ((gi = Honor \<longrightarrow> is_ok (own_gitignore es)) \<and> list_all (\<lambda>(_, t). fs_ok gi t) es)"
| "fs_ok gi (FDirErr e) = False"
| "fs_ok gi (FUnknown e) = False"
| "fs_ok gi _ = True"

lemma dir_rules_ok:
  "gi = Honor \<longrightarrow> is_ok (own_gitignore es) \<Longrightarrow> \<exists>R. dir_rules GB gi parent rel es = Inr R"
  by (cases gi; cases "own_gitignore es") (auto simp: dir_rules_def)

lemma visit_ok:
  "hook = never \<Longrightarrow> is_dir t \<Longrightarrow> fs_ok gi t \<Longrightarrow> fs_wf t \<Longrightarrow>
     fst (visit GB skip gi hook path rel parent t s out) = Inr False"
  "hook = never \<Longrightarrow> list_all (\<lambda>(_, t). fs_ok gi t \<and> fs_wf t) es \<Longrightarrow>
     fst (visit_entries GB skip gi hook path rel R es s out) = Inr False"
proof (induction GB skip gi hook path rel parent t s out and GB skip gi hook path rel R es s out
    rule: visit_visit_entries.induct)
  case (1 GB skip gi hook path rel parent t s out)
  then obtain es where t: "t = FDir es" by (cases t) auto
  with 1 obtain R where R: "dir_rules GB gi parent rel (sort_key fst es) = Inr R"
    using dir_rules_ok [of gi es GB parent rel] by auto
  have "hook \<lparr>ws_dir = rel, ws_found = length out\<rparr> s = (False, s)" using 1 by simp
  moreover have "list_all (\<lambda>(_, t). fs_ok gi t \<and> fs_wf t) (sort_key fst es)"
    using 1 t by (auto simp: list_all_iff)
  ultimately show ?case using 1(1) [of False s es R] 1(2) t R by (simp add: visit.simps)
next
  case (2 GB skip gi hook path rel R s out)
  then show ?case by simp
next
  case (3 GB skip gi hook path rel R n t es s out)
  let ?v = "visit GB skip gi hook (path @ [n]) (join_rel rel (to_string_lossy n)) R t s out"
  note rest = 3(5) [folded entry_turn_def, OF _ refl refl refl]
  have "fst (entry_turn ?v skip path rel R n t s out) = Inr False"
    using 3(3,4,6,7) by (cases t) (auto simp: entry_turn_def)
  then obtain s1 out1 where "entry_turn ?v skip path rel R n t s out = (Inr False, s1, out1)"
    by (cases "entry_turn ?v skip path rel R n t s out") auto
  with rest 3(6,7) show ?case by (simp add: visit_entries_turn)
qed

lemma walk_selects_names_ok:
  "walk_selects GB skip gi path R es q \<Longrightarrow> fs_wf (FDir es) \<Longrightarrow> list_all name_ok q"
proof (induction q arbitrary: path R es)
  case (Cons n q)
  from Cons(2) have n: "n \<in> fst ` set es" using walk_selects_hd [OF Cons(2)] by simp
  with Cons(3) have "name_ok n" by (auto simp: list_all_iff)
  moreover have "list_all name_ok q"
  proof (cases q)
    case (Cons m q')
    with Cons.prems(1) obtain es' R' where es': "map_of es n = Some (FDir es')"
      and "walk_selects GB skip gi (path @ [n]) R' es' q"
      by (auto simp: dir_rules_below split: option.splits fs_tree.splits sum.splits)
    moreover have "fs_wf (FDir es')"
      using map_of_SomeD [OF es'] Cons.prems(2) unfolding fs_wf.simps(1) [of es] list_all_iff by (elim conjE) (drule (1) bspec, simp)+
    ultimately show ?thesis by (rule_tac Cons.IH)
  qed simp
  ultimately show ?case by simp
qed simp

text \<open>Under wholly disregarded ignore files, selection is plain: a file, and no directory on its way skipped.\<close>

lemma is_ignored_Nil [simp]: "\<not> is_ignored [] p d"
  by (simp add: is_ignored_def)

lemma walk_selects_disregard:
  "walk_selects GB skip Disregard path [] es q \<longleftrightarrow>
     q \<noteq> [] \<and> (\<exists>t. fs_at (FDir es) q = Some t \<and> is_file t) \<and>
     list_all (\<lambda>d. \<not> skip (to_string_lossy d)) (butlast q)"
proof (induction q arbitrary: path es)
  case (Cons n q)
  show ?case
  proof (cases q)
    case Nil
    then show ?thesis by (auto split: option.splits)
  next
    case (Cons m q')
    then show ?thesis using Cons.IH
      by (auto simp: rules_below_def split: option.splits fs_tree.splits)
  qed
qed simp

section \<open>Properties\<close>

lemma visit_unbroken:
  "\<forall>x s. \<not> fst (hook x s) \<Longrightarrow> fst (visit GB skip gi hook path rel parent t s out) \<noteq> Inr True"
  "\<forall>x s. \<not> fst (hook x s) \<Longrightarrow> fst (visit_entries GB skip gi hook path rel R es s out) \<noteq> Inr True"
proof (induction GB skip gi hook path rel parent t s out and GB skip gi hook path rel R es s out
    rule: visit_visit_entries.induct)
  case (1 GB skip gi hook path rel parent t s out)
  obtain s1 where hook: "hook \<lparr>ws_dir = rel, ws_found = length out\<rparr> s = (False, s1)"
    using 1(2) by (metis prod.collapse)
  from 1(1) [OF hook [symmetric]] 1(2) hook show ?case
    by (auto simp: visit.simps [of GB skip gi] split: fs_tree.splits sum.splits)
next
  case (2 GB skip gi hook path rel R s out)
  then show ?case by simp
next
  case (3 GB skip gi hook path rel R n t es s out)
  let ?v = "visit GB skip gi hook (path @ [n]) (join_rel rel (to_string_lossy n)) R t s out"
  note rest = 3(5) [folded entry_turn_def, OF _ refl refl refl]
  have "fst (entry_turn ?v skip path rel R n t s out) \<noteq> Inr True"
    using 3(1-4,6) by (cases t) (auto simp: entry_turn_def)
  with rest 3(6) show ?case
    by (cases "entry_turn ?v skip path rel R n t s out")
      (auto simp: visit_entries_turn split: sum.splits bool.splits)
qed

lemma files_plain:
  "files GB root skip gi =
     (case visit GB skip gi never [] [] [] root () [] of
        (Inl e, _, _) \<Rightarrow> Inl (WalkIo e)
      | (Inr True, _, _) \<Rightarrow> Inl WalkPanic
      | (Inr False, _, out) \<Rightarrow> Inr (sort_key wk_rel out))"
  by (auto simp: files_def files_until_def split: prod.splits sum.splits bool.splits)

lemma files_returns:
  "fs_wf (FDir es) \<Longrightarrow> fs_ok gi (FDir es) \<Longrightarrow> \<exists>ws. files GB (FDir es) skip gi = Inr ws"
proof -
  assume "fs_wf (FDir es)" "fs_ok gi (FDir es)"
  then have "fst (visit GB skip gi never [] [] [] (FDir es) () []) = Inr False"
    by (intro visit_ok(1)) auto
  then show ?thesis
    by (cases "visit GB skip gi never [] [] [] (FDir es) () []") (auto simp: files_plain)
qed

lemma walk_selects_path_ok:
  assumes "walk_selects GB skip gi path R es q" "fs_wf (FDir es)" "fs_utf8 (FDir es)"
  shows "path_ok q"
proof -
  have "list_all is_utf8 q" using assms(1,3)
  proof (induction q arbitrary: path R es)
    case (Cons n q)
    have n: "is_utf8 n" using walk_selects_hd [OF Cons.prems(1)] Cons.prems(2) by (auto simp: list_all_iff)
    show ?case
    proof (cases q)
      case (Cons m q')
      with Cons.prems(1) obtain es' R' where es': "map_of es n = Some (FDir es')"
        and q: "walk_selects GB skip gi (path @ [n]) R' es' q"
        by (auto simp: dir_rules_below split: option.splits fs_tree.splits sum.splits)
      have "fs_utf8 (FDir es')"
        using map_of_SomeD [OF es'] Cons.prems(2) unfolding fs_utf8.simps(1) [of es] list_all_iff
        by (drule_tac bspec) auto
      with Cons.IH [OF q] n show ?thesis by simp
    qed (use n in simp)
  qed simp
  then show ?thesis
    using walk_selects_names_ok [OF assms(1,2)] walk_selects_hd [OF assms(1)] by (simp add: path_ok_def)
qed

lemma files_exact:
  assumes wf: "fs_wf (FDir es)" and "files GB (FDir es) skip gi = Inr ws"
  shows "sorted (map wk_rel ws)" "distinct (map wk_path ws)"
    "fs_utf8 (FDir es) \<Longrightarrow> sorted_wrt (<) (map wk_rel ws)"
    "\<exists>R. rules_below GB gi [] [] es = Some R \<and> set ws = walked ` {q. walk_selects GB skip gi [] R es q}"
proof -
  obtain out where v: "visit GB skip gi never [] [] [] (FDir es) () [] = (Inr False, (), out)"
    and ws: "ws = sort_key wk_rel out"
    using assms(2) by (auto simp: files_plain split: prod.splits sum.splits bool.splits)
  from visit_exact(1) [OF v _ wf] obtain R new where R: "dir_rules GB gi [] [] es = Inr R"
    and out: "out = map walked new" and new: "distinct new" "set new = {q. walk_selects GB skip gi [] R es q}"
    by (auto simp: adds_def)
  show s: "sorted (map wk_rel ws)" by (simp add: ws)
  have dist: "distinct (map f ws)" if "distinct (map f out)" for f :: "walked_file \<Rightarrow> 'x"
  proof -
    have "mset (map f ws) = mset (map f out)" by (simp add: ws)
    with that show ?thesis by (metis mset_eq_imp_distinct_iff)
  qed
  show "distinct (map wk_path ws)" by (rule dist) (use new(1) in \<open>simp add: out walked_def comp_def\<close>)
  show "sorted_wrt (<) (map wk_rel ws)" if u: "fs_utf8 (FDir es)"
  proof -
    have "inj_on rel_of (set new)"
      using new(2) by (auto intro!: inj_onI rel_of_inj intro: walk_selects_path_ok [OF _ wf u])
    with new(1) have "distinct (map rel_of new)" by (simp add: distinct_map)
    then have "distinct (map wk_rel ws)" by (intro dist) (simp add: out walked_def comp_def)
    with s show ?thesis by (simp add: strict_sorted_iff)
  qed
  show "\<exists>R. rules_below GB gi [] [] es = Some R \<and> set ws = walked ` {q. walk_selects GB skip gi [] R es q}"
    using R out new by (simp add: ws dir_rules_below)
qed

text \<open>
  C30: \<open>files\<close> on a readable tree succeeds, and whenever it succeeds it lists exactly the regular
  files that no skipped directory and no ignore rule in force excludes, each file on disk once, in
  increasing order of the relative path: none is missed, and neither the order in which directories
  are read nor a symbolic link changes the list. Relative paths, file names and what the rules and
  the skip test see are the lossy conversions of the names on disk; when all names of the tree are
  UTF-8 no two relative paths agree, so the order is strict.
\<close>

theorem files_lists_selected:
  assumes wf: "fs_wf (FDir es)"
  shows "(fs_ok gi (FDir es) \<longrightarrow> (\<exists>ws. files GB (FDir es) skip gi = Inr ws)) \<and>
    (\<forall>ws. files GB (FDir es) skip gi = Inr ws \<longrightarrow>
       sorted (map wk_rel ws) \<and> distinct (map wk_path ws) \<and>
       (fs_utf8 (FDir es) \<longrightarrow> sorted_wrt (<) (map wk_rel ws)) \<and>
       (\<exists>R. rules_below GB gi [] [] es = Some R \<and>
          set ws = walked ` {q. walk_selects GB skip gi [] R es q}))"
  using files_returns [OF wf, of gi GB skip] files_exact [OF wf, of GB skip gi] by (intro conjI allI impI) auto

text \<open>A tree for the witnesses: a rules file that ignores \<^verbatim>\<open>out\<close>, a sub-directory and a link.\<close>

definition demo_tree :: "(string \<times> fs_tree) list" where
  "demo_tree =
     [(''main.rs'', FFile ''m''), (''out'', FDir [(''gen.rs'', FFile ''g'')]),
      (''lib'', FDir [(''util.rs'', FFile ''u''), (''link'', FSymlink)]),
      (''.gitignore'', FFile ''out'')]"

definition line_matcher :: gitignore_builder where
  "line_matcher rel_dir lines =
     Some (lines = [], \<lambda>p d. if p \<in> set lines then GiIgnore else GiNone)"

lemma read_gitignore_short: "length b \<le> MAX_GITIGNORE_BYTES \<Longrightarrow> read_gitignore b = Inr b"
  by (simp add: read_gitignore_def)

lemma demo_names [simp]:
  "from_utf8_lossy ''main.rs'' = ''main.rs''" "from_utf8_lossy ''lib'' = ''lib''"
  "from_utf8_lossy ''out'' = ''out''" "from_utf8_lossy ''util.rs'' = ''util.rs''"
  "from_utf8_lossy ''.gitignore'' = ''.gitignore''" "fs_utf8 (FDir demo_tree)"
  by code_simp+

lemma demo_rules:
  "own_gitignore (sort_key fst demo_tree) = Inr (Some ''out'')"
  "str_lines ''out'' = [''out'']"
  "own_gitignore [(''gen.rs'', t)] = Inr None"
  "own_gitignore [(''link'', t), (''util.rs'', t')] = Inr None"
  by (simp add: own_gitignore_def GITIGNORE_def demo_tree_def read_gitignore_short MAX_GITIGNORE_BYTES_def,
      code_simp, simp_all add: own_gitignore_def GITIGNORE_def)

lemma demo_facts:
  "fs_wf (FDir demo_tree)" "fs_ok Honor (FDir demo_tree)"
  "files line_matcher (FDir demo_tree) (\<lambda>_. False) Honor =
     Inr (map walked [[''.gitignore''], [''lib'', ''util.rs''], [''main.rs'']])"
proof -
  show "fs_wf (FDir demo_tree)" by code_simp
  show "fs_ok Honor (FDir demo_tree)"
    by (simp add: demo_tree_def own_gitignore_def GITIGNORE_def read_gitignore_short MAX_GITIGNORE_BYTES_def)
  show "files line_matcher (FDir demo_tree) (\<lambda>_. False) Honor =
     Inr (map walked [[''.gitignore''], [''lib'', ''util.rs''], [''main.rs'']])"
    by (simp add: files_plain visit.simps dir_rules_def demo_rules descend_def strip_prefix_def
          starts_with_def line_matcher_def)
      (simp add: demo_tree_def visit_entries_turn entry_turn_def is_ignored_def join_rel_def visit.simps
          dir_rules_def demo_rules descend_def walked_def rel_of_def)
qed

theorem files_lists_selected_witness:
  "distinct (map wk_path (map walked [[''.gitignore''], [''lib'', ''util.rs''], [''main.rs'']])) \<and>
   sorted_wrt (<) (map wk_rel (map walked [[''.gitignore''], [''lib'', ''util.rs''], [''main.rs'']])) \<and>
   (\<exists>R. rules_below line_matcher Honor [] [] demo_tree = Some R \<and>
     set (map walked [[''.gitignore''], [''lib'', ''util.rs''], [''main.rs'']]) =
       walked ` {q. walk_selects line_matcher (\<lambda>_. False) Honor [] R demo_tree q})"
  using files_lists_selected [OF demo_facts(1), of Honor line_matcher "\<lambda>_. False"]
    demo_facts(3) demo_names(6) by blast

text \<open>
  Two names that are not UTF-8 can become one relative path: the walk then lists both files under
  the same path, which is why strictness needs the names to be UTF-8.
\<close>

lemma lossy_names_collide:
  "files line_matcher (FDir [([CHR 0xFF], FFile []), ([CHR 0xFE], FFile [])]) (\<lambda>_. False) Disregard =
     Inr [walked [[CHR 0xFE]], walked [[CHR 0xFF]]]"
  "wk_rel (walked [[CHR 0xFE]]) = wk_rel (walked [[CHR 0xFF]])"
proof -
  have l: "from_utf8_lossy [CHR 0xFE] = [CHR 0xEF, CHR 0xBF, CHR 0xBD]"
    "from_utf8_lossy [CHR 0xFF] = [CHR 0xEF, CHR 0xBF, CHR 0xBD]" by code_simp+
  have srt: "sort_key fst [([CHR 0xFF], FFile []), ([CHR 0xFE], FFile [])] =
      [([CHR 0xFE], FFile []), ([CHR 0xFF], FFile [])]" by code_simp
  show "wk_rel (walked [[CHR 0xFE]]) = wk_rel (walked [[CHR 0xFF]])" by (simp add: walked_def l)
  show "files line_matcher (FDir [([CHR 0xFF], FFile []), ([CHR 0xFE], FFile [])]) (\<lambda>_. False) Disregard =
     Inr [walked [[CHR 0xFE]], walked [[CHR 0xFF]]]"
    by (simp add: files_plain visit.simps srt dir_rules_def visit_entries_turn entry_turn_def join_rel_def
        walked_def l sort_key_def)
qed

text \<open>
  A hook can stop a walk, never thin it out: whatever the hook does, \<open>files_until\<close> answers
  nothing at all, or exactly the list or the error of the plain walk; and a hook that never
  breaks always gets the latter.
\<close>

theorem files_until_all_or_nothing:
  "(fst (files_until GB root skip gi hook s) = Inr None \<or>
    fst (files_until GB root skip gi hook s) =
      (case files GB root skip gi of
         Inl (WalkIo e) \<Rightarrow> Inl e | Inl WalkPanic \<Rightarrow> Inr None | Inr ws \<Rightarrow> Inr (Some ws))) \<and>
   files GB root skip gi \<noteq> Inl WalkPanic \<and>
   ((\<forall>x s. \<not> fst (hook x s)) \<longrightarrow> fst (files_until GB root skip gi hook s) \<noteq> Inr None)"
proof (intro conjI impI)
  obtain r s' out where v: "visit GB skip gi hook [] [] [] root s [] = (r, s', out)"
    by (cases "visit GB skip gi hook [] [] [] root s []")
  show "fst (files_until GB root skip gi hook s) = Inr None \<or>
    fst (files_until GB root skip gi hook s) =
      (case files GB root skip gi of
         Inl (WalkIo e) \<Rightarrow> Inl e | Inl WalkPanic \<Rightarrow> Inr None | Inr ws \<Rightarrow> Inr (Some ws))"
  proof (cases "r = Inr True")
    case True
    with v show ?thesis by (simp add: files_until_def)
  next
    case False
    with visit_hook(1) [OF v] v show ?thesis
      by (auto simp: files_until_def files_plain split: sum.splits bool.splits)
  qed
next
  show "files GB root skip gi \<noteq> Inl WalkPanic"
    using visit_unbroken(1) [of never GB skip gi "[]" "[]" "[]" root "()" "[]"]
    by (auto simp: files_plain split: prod.splits sum.splits bool.splits)
next
  assume "\<forall>x s. \<not> fst (hook x s)"
  from visit_unbroken(1) [OF this, of GB skip gi "[]" "[]" "[]" root s "[]"]
  show "fst (files_until GB root skip gi hook s) \<noteq> Inr None"
    by (auto simp: files_until_def split: prod.splits sum.splits bool.splits)
qed

theorem files_until_all_or_nothing_witness:
  "fst (files_until line_matcher (FDir demo_tree) (\<lambda>_. False) Honor (\<lambda>x n. (False, n + ws_found x)) (0::nat)) =
     Inr (Some (map walked [[''.gitignore''], [''lib'', ''util.rs''], [''main.rs'']]))"
proof -
  have "\<forall>x s. \<not> fst ((\<lambda>x n. (False, n + ws_found x)) x (s :: nat))" by simp
  then show ?thesis
    using files_until_all_or_nothing [of line_matcher "FDir demo_tree" "\<lambda>_. False" Honor
        "\<lambda>x n. (False, n + ws_found x)" "0::nat"] demo_facts(3)
    by auto
qed

end
