(* ===== verification/Event_Stitch_Props.thy ===== *)
theory Event_Stitch_Props
  imports Event_Stitch Source_Walk_Props Placeholder Flow_Trace_Props
begin

text \<open>
  Correctness of event and fetch stitching: which definition of an env key counts, that every
  site yields exactly one edge with a target that exists and a confidence that says whether its
  identity was resolved, that a fetch is confirmed only by a unique endpoint of its repository,
  and that a resolved producer and consumer of one channel join the flows of the tracer.
\<close>

section \<open>First definition wins\<close>

lemma om_get_or_insert: "om_get (or_insert k v m) = [k \<mapsto> v] ++ om_get m"
  by (auto simp: or_insert_def map_add_def fun_eq_iff split: option.splits)

lemma om_wf_or_insert [simp]: "om_wf m \<Longrightarrow> om_wf (or_insert k v m)"
  by (simp add: or_insert_def split: option.split)

text \<open>The definitions of one env file, in order.\<close>

definition env_defs :: "string \<Rightarrow> string \<Rightarrow> (string \<times> string \<times> string) list" where
  "env_defs rel content =
     map (\<lambda>(k, v). (k, (v, rel))) (List.map_filter parse_env_line (str_lines content))"

lemma index_lines:
  "om_get (fold (index_line rel) raws m) =
     map_of (map (\<lambda>(k, v). (k, (v, rel))) (List.map_filter parse_env_line raws)) ++ om_get m"
proof (induction raws arbitrary: m)
  case Nil
  then show ?case by (simp add: List.map_filter_def)
next
  case (Cons raw raws)
  then show ?case
    by (cases "parse_env_line raw")
      (auto simp: index_line_def List.map_filter_simps om_get_or_insert simp flip: map_add_assoc
        simp del: map_add_upd, simp add: map_add_def fun_eq_iff split: option.splits)
qed

text \<open>The bytes of the file at a path.\<close>

definition file_bytes :: "fs_tree \<Rightarrow> string list \<Rightarrow> string" where
  "file_bytes t p = (case fs_at t p of Some (FFile b) \<Rightarrow> b | _ \<Rightarrow> [])"

definition text_file :: "fs_tree \<Rightarrow> string list \<Rightarrow> bool" where
  "text_file t p \<longleftrightarrow> (\<exists>b. fs_at t p = Some (FFile b) \<and> is_utf8 b)"

lemma read_to_string_at:
  assumes "path_ok p"
  shows "read_to_string t (rel_of p) = Inr c \<longleftrightarrow> text_file t p \<and> c = file_bytes t p"
  by (auto simp: read_to_string_def split_rel_of [OF assms] text_file_def file_bytes_def
      split: option.splits fs_tree.splits if_splits)

lemma index_files:
  assumes "\<forall>p \<in> set ps. path_ok p"
    and "try_fold (\<lambda>rel index.
            (case read_to_string t rel of
               Inl e \<Rightarrow> Inl (StitchIo (WalkIo e))
             | Inr content \<Rightarrow> Inr (fold (index_line rel) (str_lines content) index)))
            (map rel_of ps) m = Inr cfg"
  shows "list_all (text_file t) ps \<and>
    om_get cfg = map_of (concat (map (\<lambda>p. env_defs (rel_of p) (file_bytes t p)) ps)) ++ om_get m"
  using assms
proof (induction ps arbitrary: m)
  case (Cons p ps)
  from Cons.prems obtain c where c: "read_to_string t (rel_of p) = Inr c"
    by (auto simp: rbind_eq_Inr split: sum.splits)
  with Cons.prems(1) have p: "text_file t p" "c = file_bytes t p" by (simp_all add: read_to_string_at)
  from Cons.prems c have ih: "list_all (text_file t) ps \<and>
      om_get cfg = map_of (concat (map (\<lambda>p. env_defs (rel_of p) (file_bytes t p)) ps)) ++
        om_get (fold (index_line (rel_of p)) (str_lines c) m)"
    by (intro Cons.IH) auto
  then show ?case using p by (simp add: index_lines env_defs_def)
qed simp

lemma index_files_ok:
  assumes "\<forall>p \<in> set ps. path_ok p" "list_all (text_file t) ps"
  shows "\<exists>cfg. try_fold (\<lambda>rel index.
            (case read_to_string t rel of
               Inl e \<Rightarrow> Inl (StitchIo (WalkIo e))
             | Inr content \<Rightarrow> Inr (fold (index_line rel) (str_lines content) index)))
            (map rel_of ps) m = Inr cfg"
  using assms
proof (induction ps arbitrary: m)
  case (Cons p ps)
  then have "read_to_string t (rel_of p) = Inr (file_bytes t p)" by (simp add: read_to_string_at)
  with Cons show ?case by simp
qed simp

section \<open>Which env files take part\<close>

definition env_path :: "fs_tree \<Rightarrow> string list \<Rightarrow> bool" where
  "env_path t p \<longleftrightarrow>
     p \<noteq> [] \<and> is_env_name (last p) \<and> list_all (\<lambda>d. \<not> env_skip d) (butlast p) \<and>
     (\<exists>f. fs_at t p = Some f \<and> is_file f)"

lemma fs_at_names_ok:
  "fs_at t p = Some f \<Longrightarrow> fs_wf t \<Longrightarrow> list_all name_ok p"
proof (induction p arbitrary: t)
  case (Cons n p)
  then obtain es t' where t: "t = FDir es" "map_of es n = Some t'" "fs_at t' p = Some f"
    by (auto split: fs_tree.splits option.splits)
  with map_of_SomeD [OF t(2)] Cons.prems(2) have "name_ok n" "fs_wf t'"
    by (auto simp: list_all_iff)
  with Cons.IH t(3) show ?case by simp
qed simp

lemma fs_at_utf8: "fs_at t p = Some f \<Longrightarrow> fs_utf8 t \<Longrightarrow> list_all is_utf8 p"
proof (induction p arbitrary: t)
  case (Cons n p)
  then obtain es t' where t: "t = FDir es" "map_of es n = Some t'" "fs_at t' p = Some f"
    by (auto split: fs_tree.splits option.splits)
  with map_of_SomeD [OF t(2)] Cons.prems(2) have "is_utf8 n" "fs_utf8 t'"
    by (auto simp: list_all_iff)
  with Cons.IH t(3) show ?case by simp
qed simp

lemma map_lossy_id: "list_all is_utf8 p \<Longrightarrow> map to_string_lossy p = p"
  by (induction p) (simp_all add: from_utf8_lossy_id)

lemma walked_sel [simp]: "wk_rel (walked p) = rel_of p" "wk_name (walked p) = to_string_lossy (last p)"
  by (simp_all add: walked_def)

text \<open>On a tree of UTF-8 names the walk of the env files sees the names as they are.\<close>

lemma env_selected:
  assumes u: "fs_utf8 (FDir es)"
  shows "walk_selects GB env_skip Disregard [] [] es p \<and> is_env_name (to_string_lossy (last p)) \<longleftrightarrow>
    env_path (FDir es) p"
proof (cases "\<exists>f. fs_at (FDir es) p = Some f")
  case True
  then have p: "list_all is_utf8 p" using fs_at_utf8 [OF _ u] by blast
  then have name: "to_string_lossy d = d" if "d \<in> set p" for d
    using that by (simp add: list_all_iff from_utf8_lossy_id)
  have "list_all (\<lambda>d. \<not> env_skip (to_string_lossy d)) (butlast p) = list_all (\<lambda>d. \<not> env_skip d) (butlast p)"
    by (rule list_all_cong [OF refl]) (simp add: name in_set_butlastD)
  moreover have "p \<noteq> [] \<Longrightarrow> to_string_lossy (last p) = last p"
    by (simp add: name)
  ultimately show ?thesis by (auto simp: walk_selects_disregard env_path_def simp del: fs_at.simps)
qed (auto simp: walk_selects_disregard env_path_def simp del: fs_at.simps)

lemma collect_exact:
  assumes wf: "fs_wf (FDir es)" and u: "fs_utf8 (FDir es)" and "collect_env_files GB (FDir es) = Inr rels"
  shows "\<exists>ps. rels = map rel_of ps \<and> sorted_wrt (<) rels \<and> set ps = {p. env_path (FDir es) p}"
proof -
  from assms(3) obtain ws where f: "files GB (FDir es) env_skip Disregard = Inr ws"
    and rels: "rels = map wk_rel (filter (\<lambda>w. is_env_name (wk_name w)) ws)"
    by (auto simp: collect_env_files_def rbind_eq_Inr)
  have sorted: "sorted_wrt (<) (map wk_rel ws)" and
    ws: "set ws = walked ` {q. walk_selects GB env_skip Disregard [] [] es q}"
    using files_exact(3,4) [OF wf f] u by (auto simp: rules_below_def)
  have all: "w = walked (wk_path w) \<and> walk_selects GB env_skip Disregard [] [] es (wk_path w)" if "w \<in> set ws" for w
    using that ws by (auto simp: walked_def)
  let ?ps = "map wk_path (filter (\<lambda>w. is_env_name (wk_name w)) ws)"
  have "wk_rel w = rel_of (wk_path w)" if "w \<in> set ws" for w
    by (subst conjunct1 [OF all [OF that]]) simp
  then have "rels = map rel_of ?ps" by (simp add: rels)
  moreover have "sorted_wrt (<) rels"
    using sorted unfolding rels by (simp add: sorted_wrt_map sorted_wrt_filter)
  moreover have "set ?ps = {p. env_path (FDir es) p}"
    unfolding env_selected [OF u, of GB, symmetric] by (force simp: ws walked_def)
  ultimately show ?thesis by blast
qed

lemma env_path_names: "fs_wf t \<Longrightarrow> fs_utf8 t \<Longrightarrow> env_path t p \<Longrightarrow> path_ok p"
  by (auto simp: env_path_def path_ok_def dest: fs_at_names_ok fs_at_utf8)

lemma sorted_strict_sort: "sorted_wrt (<) xs \<Longrightarrow> sort xs = (xs :: string list)"
  by (simp add: sorted_sort_id strict_sorted_iff)

lemma from_dir_exact:
  assumes wf: "fs_wf (FDir es)" and u: "fs_utf8 (FDir es)" and "from_dir GB (FDir es) = Inr cfg"
  shows "\<exists>ps. sorted_wrt (<) (map rel_of ps) \<and> set ps = {p. env_path (FDir es) p} \<and>
    list_all (text_file (FDir es)) ps \<and>
    om_get cfg = map_of (concat (map (\<lambda>p. env_defs (rel_of p) (file_bytes (FDir es) p)) ps))"
proof -
  from assms(3) obtain rels where c: "collect_env_files GB (FDir es) = Inr rels"
    by (auto simp: from_dir_def split: sum.splits)
  from collect_exact [OF wf u c] obtain ps where ps: "rels = map rel_of ps" "sorted_wrt (<) rels"
    "set ps = {p. env_path (FDir es) p}" by blast
  have names: "\<forall>p \<in> set ps. path_ok p" using ps(3) env_path_names [OF wf u] by simp
  have "sort rels = map rel_of ps" using ps(1,2) sorted_strict_sort by simp
  with assms(3) c have "try_fold (\<lambda>rel index.
            (case read_to_string (FDir es) rel of
               Inl e \<Rightarrow> Inl (StitchIo (WalkIo e))
             | Inr content \<Rightarrow> Inr (fold (index_line rel) (str_lines content) index)))
            (map rel_of ps) [] = Inr cfg"
    by (simp add: from_dir_def)
  from index_files [OF names this] ps show ?thesis by auto
qed

lemma from_dir_returns:
  assumes wf: "fs_wf (FDir es)" and u: "fs_utf8 (FDir es)" and ok: "fs_ok Disregard (FDir es)"
    and utf8: "\<forall>p. env_path (FDir es) p \<longrightarrow> text_file (FDir es) p"
  shows "\<exists>cfg. from_dir GB (FDir es) = Inr cfg"
proof -
  obtain rels where c: "collect_env_files GB (FDir es) = Inr rels"
    using files_returns [OF wf ok, of GB env_skip] by (auto simp: collect_env_files_def)
  from collect_exact [OF wf u c] obtain ps where ps: "rels = map rel_of ps" "sorted_wrt (<) rels"
    "set ps = {p. env_path (FDir es) p}" by blast
  have "\<forall>p \<in> set ps. path_ok p" "list_all (text_file (FDir es)) ps"
    using ps(3) env_path_names [OF wf u] utf8 by (simp_all add: list_all_iff)
  from index_files_ok [OF this, of "[]"] show ?thesis
    using ps(1,2) sorted_strict_sort [of rels] by (simp add: from_dir_def c)
qed

lemma om_get_apply_manifest:
  assumes "om_wf env"
  shows "om_get (apply_manifest env src cfg) key =
    (case om_get env key of Some v \<Rightarrow> Some (v, src) | None \<Rightarrow> om_get cfg key)"
proof -
  have "om_get (fold (\<lambda>(k, v). om_put k (v, src)) kvs m) key =
      (case map_of (rev kvs) key of Some v \<Rightarrow> Some (v, src) | None \<Rightarrow> om_get m key)"
    for kvs :: "(string, string) omap" and m
    by (induction kvs arbitrary: m) (auto simp: map_add_def split: option.splits)
  moreover have "map_of (rev env) = map_of env"
    using om_wf_distinct [OF assms] by (simp add: map_of_inject_set rev_map [symmetric])
  ultimately show ?thesis by (simp add: apply_manifest_def)
qed

section \<open>Properties\<close>

text \<open>
  Which declaration of an env key counts. \<open>from_dir\<close> succeeds on a readable tree of UTF-8 names whose
  env files are text; the index it builds then holds, for every key, the first definition in the env
  files \<^verbatim>\<open>.env\<close> and \<^verbatim>\<open>.env.*\<close> outside the skipped directories, taken in the order of their
  relative paths and, inside a file, of its lines, together with the file that defines it; and an
  entry of the topology manifest overrides whatever the files say.
\<close>

theorem config_precedence:
  assumes wf: "fs_wf (FDir es)" and u: "fs_utf8 (FDir es)" and env: "om_wf env"
  shows "(fs_ok Disregard (FDir es) \<and> (\<forall>p. env_path (FDir es) p \<longrightarrow> text_file (FDir es) p) \<longrightarrow>
      (\<exists>cfg. from_dir GB (FDir es) = Inr cfg)) \<and>
    (\<forall>cfg. from_dir GB (FDir es) = Inr cfg \<longrightarrow>
      (\<exists>ps. sorted_wrt (<) (map rel_of ps) \<and> set ps = {p. env_path (FDir es) p} \<and>
        (\<forall>key. resolve (apply_manifest env src cfg) key =
          (case om_get env key of
             Some v \<Rightarrow> Some (v, src)
           | None \<Rightarrow> map_of (concat (map (\<lambda>p. env_defs (rel_of p) (file_bytes (FDir es) p)) ps)) key))))"
proof (intro conjI impI allI)
  assume "fs_ok Disregard (FDir es) \<and> (\<forall>p. env_path (FDir es) p \<longrightarrow> text_file (FDir es) p)"
  then show "\<exists>cfg. from_dir GB (FDir es) = Inr cfg" by (intro from_dir_returns [OF wf u]) auto
next
  fix cfg
  assume "from_dir GB (FDir es) = Inr cfg"
  from from_dir_exact [OF wf u this] obtain ps where "sorted_wrt (<) (map rel_of ps)"
    "set ps = {p. env_path (FDir es) p}"
    "om_get cfg = map_of (concat (map (\<lambda>p. env_defs (rel_of p) (file_bytes (FDir es) p)) ps))" by blast
  then show "\<exists>ps. sorted_wrt (<) (map rel_of ps) \<and> set ps = {p. env_path (FDir es) p} \<and>
        (\<forall>key. resolve (apply_manifest env src cfg) key =
          (case om_get env key of
             Some v \<Rightarrow> Some (v, src)
           | None \<Rightarrow> map_of (concat (map (\<lambda>p. env_defs (rel_of p) (file_bytes (FDir es) p)) ps)) key))"
    by (intro exI [of _ ps]) (simp add: resolve_def om_get_apply_manifest [OF env] split: option.splits)
qed

text \<open>Two env files that disagree on a key, and a manifest that overrides another.\<close>

definition demo_env :: "(string \<times> fs_tree) list" where
  "demo_env = [(''.env.local'', FFile ''Q=local''), (''.env'', FFile ''Q=base'')]"

lemma demo_env_index:
  "from_dir (\<lambda>_ _. None) (FDir demo_env) = Inr [(''Q'', (''base'', ''.env''))]"
  by code_simp

theorem config_precedence_witness:
  "\<exists>ps. sorted_wrt (<) (map rel_of ps) \<and> set ps = {p. env_path (FDir demo_env) p} \<and>
     (\<forall>key. resolve (apply_manifest [(''T'', ''topic'')] ''cartograph.json'' [(''Q'', (''base'', ''.env''))]) key =
       (case om_get [(''T'', ''topic'')] key of
          Some v \<Rightarrow> Some (v, ''cartograph.json'')
        | None \<Rightarrow> map_of (concat (map (\<lambda>p. env_defs (rel_of p) (file_bytes (FDir demo_env) p)) ps)) key))"
proof -
  have "fs_wf (FDir demo_env)" "fs_utf8 (FDir demo_env)" by code_simp+
  moreover have "om_wf [(''T'', ''topic'')]" by (simp add: om_wf_def)
  ultimately show ?thesis using config_precedence demo_env_index by blast
qed

section \<open>Closed forms of the stitching loop\<close>

definition site_edge :: "(string \<Rightarrow> string) \<Rightarrow> config_index \<Rightarrow> source_id \<Rightarrow> event_site \<Rightarrow> edge" where
  "site_edge H cfg sid site =
     (case resolve_identity cfg (es_identity site) of
        Some (identity, resolver) \<Rightarrow> channel_edge H sid site identity resolver
      | None \<Rightarrow> chan_gap_edge H sid site)"

definition unresolved :: "config_index \<Rightarrow> event_site \<Rightarrow> bool" where
  "unresolved cfg site \<longleftrightarrow> resolve_identity cfg (es_identity site) = None"

definition site_channel ::
  "(string \<Rightarrow> string) \<Rightarrow> config_index \<Rightarrow> source_id \<Rightarrow> event_site \<Rightarrow> (string \<times> node) option" where
  "site_channel H cfg sid site =
     map_option (\<lambda>(identity, _). (chan_id site identity, channel_node H sid site identity))
       (resolve_identity cfg (es_identity site))"

lemma stitch_fold:
  "x_edges (st_out (fold (stitch_site H cfg sid) sites st)) =
     x_edges (st_out st) @ map (site_edge H cfg sid) sites"
  "x_nodes (st_out (fold (stitch_site H cfg sid) sites st)) =
     x_nodes (st_out st) @ map (chan_gap_node H sid) (filter (unresolved cfg) sites)"
  "om_get (st_channels (fold (stitch_site H cfg sid) sites st)) =
     map_of (List.map_filter (site_channel H cfg sid) sites) ++ om_get (st_channels st)"
  "om_wf (st_channels st) \<Longrightarrow> om_wf (st_channels (fold (stitch_site H cfg sid) sites st))"
proof (induction sites arbitrary: st)
  case (Cons s sites)
  note step = stitch_site_def [of H cfg sid s] site_edge_def [of H cfg sid s] unresolved_def [of cfg s]
    site_channel_def [of H cfg sid s] push_edge_def push_node_def
  {
    case 1
    show ?case by (simp add: Cons.IH step split: option.split)
  next
    case 2
    show ?case by (simp add: Cons.IH step split: option.split)
  next
    case 3
    show ?case
      by (simp add: Cons.IH(3)) (auto simp: step List.map_filter_simps om_get_or_insert map_add_def fun_eq_iff
          split: option.splits)
  next
    case 4
    then show ?case by (simp add: Cons.IH step split: option.split)
  }
qed (simp_all add: List.map_filter_def)

definition stitched_channels ::
  "(string \<Rightarrow> string) \<Rightarrow> event_site list \<Rightarrow> config_index \<Rightarrow> source_id \<Rightarrow> (string, node) omap" where
  "stitched_channels H sites cfg sid =
     st_channels (fold (stitch_site H cfg sid) sites
       \<lparr>st_out = \<lparr>x_nodes = [], x_edges = []\<rparr>, st_channels = []\<rparr>)"

lemma stitch_closed:
  "x_edges (stitch H sites cfg sid) = map (site_edge H cfg sid) sites"
  "x_nodes (stitch H sites cfg sid) =
     map (chan_gap_node H sid) (filter (unresolved cfg) sites) @ map snd (stitched_channels H sites cfg sid)"
  by (simp_all add: stitch_def stitched_channels_def Let_def stitch_fold)

lemma om_wf_stitched: "om_wf (stitched_channels H sites cfg sid)"
  by (simp add: stitched_channels_def stitch_fold)

lemma get_stitched:
  "om_get (stitched_channels H sites cfg sid) = map_of (List.map_filter (site_channel H cfg sid) sites)"
  by (simp add: stitched_channels_def stitch_fold)

lemma stitched_entry:
  assumes "(k, n) \<in> set (stitched_channels H sites cfg sid)"
  shows "\<exists>s i r. s \<in> set sites \<and> resolve_identity cfg (es_identity s) = Some (i, r) \<and>
    k = chan_id s i \<and> n = channel_node H sid s i"
proof -
  have "om_get (stitched_channels H sites cfg sid) k = Some n"
    using om_wf_distinct [OF om_wf_stitched] assms by simp
  then have "(k, n) \<in> set (List.map_filter (site_channel H cfg sid) sites)"
    unfolding get_stitched by (rule map_of_SomeD)
  then show ?thesis
    by (force simp: List.map_filter_def site_channel_def)
qed

lemma stitched_keys:
  "fst ` set (stitched_channels H sites cfg sid) =
     {chan_id s i | s i r. s \<in> set sites \<and> resolve_identity cfg (es_identity s) = Some (i, r)}"
proof -
  have "fst ` set (stitched_channels H sites cfg sid) = dom (om_get (stitched_channels H sites cfg sid))"
    by (simp add: dom_map_of_conv_image_fst)
  also have "\<dots> = fst ` set (List.map_filter (site_channel H cfg sid) sites)"
    unfolding get_stitched by (simp add: dom_map_of_conv_image_fst)
  also have "\<dots> = {chan_id s i | s i r. s \<in> set sites \<and> resolve_identity cfg (es_identity s) = Some (i, r)}"
    by (force simp: List.map_filter_def site_channel_def)
  finally show ?thesis .
qed

lemma stitched_labels:
  "n \<in> snd ` set (stitched_channels H sites cfg sid) \<Longrightarrow> n_label n = ''Channel''"
  by (auto dest!: stitched_entry simp: channel_node_def)

lemma stitched_ids:
  "map n_id (map snd (stitched_channels H sites cfg sid)) = map fst (stitched_channels H sites cfg sid)"
  by (auto dest!: stitched_entry simp: channel_node_def)

lemma chan_gap_node_sel [simp]:
  "n_id (chan_gap_node H sid s) = chan_gap_id sid s" "n_label (chan_gap_node H sid s) = ''Gap''"
  by (simp_all add: chan_gap_node_def split: prod.split)

lemma channel_nodes_of_stitch:
  "filter (\<lambda>n. n_label n = ''Channel'') (x_nodes (stitch H sites cfg sid)) =
     map snd (stitched_channels H sites cfg sid)"
  using stitched_labels by (fastforce simp: stitch_closed filter_empty_conv filter_id_conv)

lemma gap_nodes_of_stitch:
  "filter (\<lambda>n. n_label n = ''Gap'') (x_nodes (stitch H sites cfg sid)) =
     map (chan_gap_node H sid) (filter (unresolved cfg) sites)"
  using stitched_labels by (fastforce simp: stitch_closed filter_empty_conv filter_id_conv)

section \<open>Event sites\<close>

definition site_evidence :: "source_id \<Rightarrow> event_site \<Rightarrow> evidence_ref" where
  "site_evidence sid s =
     \<lparr>ev_repo = sid_repo sid, ev_path = es_path s, ev_byte_start = es_byte_start s,
      ev_byte_end = es_byte_end s, ev_commit_sha = sid_commit sid\<rparr>"

text \<open>What an edge claims: the confidence it reads back with, on exactly this evidence.\<close>

definition claims :: "edge \<Rightarrow> confidence_tier \<Rightarrow> evidence_ref \<Rightarrow> bool" where
  "claims e c ev \<longleftrightarrow>
     (\<exists>p. ref_provenance e = Some p \<and> p_tier p = Deterministic \<and> p_confidence p = c \<and> p_evidence p = [ev])"

lemmas event_defs = claims_def ref_provenance_def site_prov_def fetch_prov_def event_prov_def

lemma channel_edge_sel:
  "e_src (channel_edge H sid s i r) = site_source (sid_repo sid) (es_symbol s) (es_path s)"
  "e_dst (channel_edge H sid s i r) = chan_id s i"
  "e_label (channel_edge H sid s i r) = role_label (es_role s)"
  "jget (e_props (channel_edge H sid s i r)) ''resolver'' = Some (JStr r)"
  "claims (channel_edge H sid s i r) Confirmed (site_evidence sid s)"
  by (simp_all add: channel_edge_def event_defs site_evidence_def)

lemma chan_gap_edge_sel:
  "e_src (chan_gap_edge H sid s) = site_source (sid_repo sid) (es_symbol s) (es_path s)"
  "e_dst (chan_gap_edge H sid s) = chan_gap_id sid s"
  "e_label (chan_gap_edge H sid s) = role_label (es_role s)"
  "jget (e_props (chan_gap_edge H sid s)) ''reason'' = Some (JStr (fst (gap_reason (es_identity s))))"
  "jget (n_props (chan_gap_node H sid s)) ''reason'' = Some (JStr (fst (gap_reason (es_identity s))))"
  "jget (n_props (chan_gap_node H sid s)) ''raw'' = Some (JStr (snd (gap_reason (es_identity s))))"
  "claims (chan_gap_edge H sid s) Gap (site_evidence sid s)"
  by (simp_all add: chan_gap_edge_def chan_gap_node_def event_defs site_evidence_def split: prod.split)

text \<open>
  C33: Stitching event sites drops none and invents none. The \<open>k\<close>-th edge belongs to the \<open>k\<close>-th
  site: it leaves the site's symbol (or file), carries the role's label and the site's own span
  as its only evidence. It is Confirmed, leads to the channel of the site's kind and identity and
  names the resolver exactly when the identity is a literal or a configured env key; otherwise it
  is a Gap edge into a Gap node, and both give the reason: the env key that no env file defines, or
  that the identity is computed at run time; the node also keeps the expression as written. Channel nodes come in strictly
  increasing id order, one for each resolved identity and no other, and there is one Gap node for
  each unresolved site.
\<close>

theorem stitch_exact:
  "let x = stitch H sites cfg sid in
     length (x_edges x) = length sites \<and>
     (\<forall>k < length sites. let s = sites ! k; e = x_edges x ! k in
        e_src e = site_source (sid_repo sid) (es_symbol s) (es_path s) \<and> e_label e = role_label (es_role s) \<and>
        (case resolve_identity cfg (es_identity s) of
           Some (i, r) \<Rightarrow>
             e_dst e = chan_id s i \<and> claims e Confirmed (site_evidence sid s) \<and>
             jget (e_props e) ''resolver'' = Some (JStr r)
         | None \<Rightarrow>
             e_dst e = chan_gap_id sid s \<and> claims e Gap (site_evidence sid s) \<and>
             (let why = (case es_identity s of
                   EnvRef key \<Rightarrow> ''env key '' @ key @ '' not found in any env file in the repo''
                 | _ \<Rightarrow> ''runtime-computed channel identity'');
                  written = (case es_identity s of
                   EnvRef key \<Rightarrow> ''process.env.'' @ key | Computed raw \<Rightarrow> raw | Literal l \<Rightarrow> l)
              in jget (e_props e) ''reason'' = Some (JStr why) \<and>
                 (\<exists>n \<in> set (x_nodes x). n_id n = e_dst e \<and> n_label n = ''Gap'' \<and>
                    jget (n_props n) ''reason'' = Some (JStr why) \<and> jget (n_props n) ''raw'' = Some (JStr written))))) \<and>
     sorted_wrt (<) (map n_id (filter (\<lambda>n. n_label n = ''Channel'') (x_nodes x))) \<and>
     n_id ` {n \<in> set (x_nodes x). n_label n = ''Channel''} =
       {chan_id s i | s i r. s \<in> set sites \<and> resolve_identity cfg (es_identity s) = Some (i, r)} \<and>
     length (filter (\<lambda>n. n_label n = ''Gap'') (x_nodes x)) =
       length (filter (\<lambda>s. resolve_identity cfg (es_identity s) = None) sites)"
  unfolding Let_def
proof (intro conjI allI impI)
  let ?x = "stitch H sites cfg sid"
  show "length (x_edges ?x) = length sites" by (simp add: stitch_closed)
  show "sorted_wrt (<) (map n_id (filter (\<lambda>n. n_label n = ''Channel'') (x_nodes ?x)))"
    unfolding channel_nodes_of_stitch stitched_ids using om_wf_stitched by (simp add: om_wf_def)
  have "{n \<in> set (x_nodes ?x). n_label n = ''Channel''} = set (map snd (stitched_channels H sites cfg sid))"
    by (simp add: channel_nodes_of_stitch [symmetric])
  then have "n_id ` {n \<in> set (x_nodes ?x). n_label n = ''Channel''} =
      set (map n_id (map snd (stitched_channels H sites cfg sid)))" by (simp add: image_image)
  then show "n_id ` {n \<in> set (x_nodes ?x). n_label n = ''Channel''} =
      {chan_id s i | s i r. s \<in> set sites \<and> resolve_identity cfg (es_identity s) = Some (i, r)}"
    unfolding stitched_ids using stitched_keys by simp
  show "length (filter (\<lambda>n. n_label n = ''Gap'') (x_nodes ?x)) =
      length (filter (\<lambda>s. resolve_identity cfg (es_identity s) = None) sites)"
    unfolding gap_nodes_of_stitch by (simp add: unresolved_def [abs_def])
next
  fix k
  assume k: "k < length sites"
  let ?s = "sites ! k" and ?e = "x_edges (stitch H sites cfg sid) ! k"
  have e: "?e = site_edge H cfg sid ?s" using k by (simp add: stitch_closed)
  show "e_src ?e = site_source (sid_repo sid) (es_symbol ?s) (es_path ?s)"
    "e_label ?e = role_label (es_role ?s)"
    unfolding e site_edge_def by (simp_all add: channel_edge_sel chan_gap_edge_sel split: option.split)
  show "case resolve_identity cfg (es_identity ?s) of
      Some (i, r) \<Rightarrow> e_dst ?e = chan_id ?s i \<and> claims ?e Confirmed (site_evidence sid ?s) \<and>
        jget (e_props ?e) ''resolver'' = Some (JStr r)
    | None \<Rightarrow> e_dst ?e = chan_gap_id sid ?s \<and> claims ?e Gap (site_evidence sid ?s) \<and>
        jget (e_props ?e) ''reason'' = Some (JStr (case es_identity ?s of
             EnvRef key \<Rightarrow> ''env key '' @ key @ '' not found in any env file in the repo''
           | _ \<Rightarrow> ''runtime-computed channel identity'')) \<and>
        (\<exists>n \<in> set (x_nodes (stitch H sites cfg sid)). n_id n = e_dst ?e \<and> n_label n = ''Gap'' \<and>
           jget (n_props n) ''reason'' = Some (JStr (case es_identity ?s of
             EnvRef key \<Rightarrow> ''env key '' @ key @ '' not found in any env file in the repo''
           | _ \<Rightarrow> ''runtime-computed channel identity'')) \<and>
           jget (n_props n) ''raw'' = Some (JStr (case es_identity ?s of
             EnvRef key \<Rightarrow> ''process.env.'' @ key | Computed raw \<Rightarrow> raw | Literal l \<Rightarrow> l)))"
  proof (cases "resolve_identity cfg (es_identity ?s)")
    case None
    then have reason: "gap_reason (es_identity ?s) =
        (case es_identity ?s of
           EnvRef key \<Rightarrow> ''env key '' @ key @ '' not found in any env file in the repo''
         | _ \<Rightarrow> ''runtime-computed channel identity'',
         case es_identity ?s of EnvRef key \<Rightarrow> ''process.env.'' @ key | Computed raw \<Rightarrow> raw | Literal l \<Rightarrow> l)"
      by (cases "es_identity ?s") (simp_all add: gap_reason_def resolve_identity_def)
    from None k have "chan_gap_node H sid ?s \<in> set (x_nodes (stitch H sites cfg sid))"
      by (simp add: stitch_closed unresolved_def)
    then show ?thesis
      unfolding e site_edge_def None by (simp only: option.case chan_gap_edge_sel reason fst_conv snd_conv simp_thms)
        (rule rev_bexI, assumption, simp only: chan_gap_edge_sel chan_gap_node_sel reason fst_conv snd_conv simp_thms)
  next
    case (Some ir)
    then show ?thesis unfolding e site_edge_def by (cases ir) (simp add: channel_edge_sel)
  qed
qed

text \<open>A producer that resolves through the configuration, and a consumer that does not resolve.\<close>

definition demo_sites :: "event_site list" where
  "demo_sites =
     [\<lparr>es_kind = ''sqs-queue'', es_role = Produces, es_identity = EnvRef ''Q'', es_symbol = Some ''sym:a'',
       es_path = ''a.ts'', es_byte_start = 1, es_byte_end = 2\<rparr>,
      \<lparr>es_kind = ''sqs-queue'', es_role = Consumes, es_identity = Computed ''q()'', es_symbol = None,
       es_path = ''b.ts'', es_byte_start = 7, es_byte_end = 9\<rparr>]"

definition demo_id :: source_id where
  "demo_id = \<lparr>sid_repo = ''r'', sid_commit = ''c''\<rparr>"

theorem stitch_exact_witness:
  "let x = stitch (\<lambda>x. x) demo_sites [(''Q'', (''orders'', ''.env''))] demo_id in
     e_src (x_edges x ! 0) = ''sym:a'' \<and> e_dst (x_edges x ! 0) = ''chan:sqs-queue:orders'' \<and>
     claims (x_edges x ! 0) Confirmed (site_evidence demo_id (demo_sites ! 0)) \<and>
     jget (e_props (x_edges x ! 1)) ''reason'' = Some (JStr ''runtime-computed channel identity'')"
proof -
  note all = stitch_exact [of "\<lambda>x. x" demo_sites "[(''Q'', (''orders'', ''.env''))]" demo_id, unfolded Let_def,
      THEN conjunct2, THEN conjunct1, rule_format]
  show ?thesis
    using all [of 0] all [of 1] unfolding Let_def
    by (simp add: demo_sites_def demo_id_def resolve_identity_def resolve_def chan_id_def site_source_def)
qed

section \<open>Fetch sites\<close>

text \<open>
  An endpoint of the repository that serves a method at a path: its id is written
  \<^verbatim>\<open>ep:REPO@VERB:ROUTE\<close> and the route matches.
\<close>

definition serves :: "string \<Rightarrow> string \<Rightarrow> string \<Rightarrow> string \<Rightarrow> bool" where
  "serves repo meth path eid \<longleftrightarrow>
     CHR '':'' \<notin> set meth \<and>
     (\<exists>route. eid = ''ep:'' @ repo @ ''@'' @ meth @ '':'' @ route \<and> route_matches route path)"

lemma split_once_exact: "split_once c s = Some (a, b) \<longleftrightarrow> s = a @ c # b \<and> c \<notin> set a"
proof
  assume "s = a @ c # b \<and> c \<notin> set a"
  then show "split_once c s = Some (a, b)" by (induction a arbitrary: s) auto
qed (rule split_once_Some)

lemma strip_prefix_append [simp]: "strip_prefix p (p @ r) = Some r"
  by (simp add: strip_prefix_def starts_with_def)

lemma parse_endpoint_iff:
  "parse_endpoint ns eid = Some (e, verb, route) \<longleftrightarrow>
     e = eid \<and> eid = ''ep:'' @ ns @ verb @ '':'' @ route \<and> CHR '':'' \<notin> set verb"
proof -
  have "parse_endpoint ns eid = Some (e, verb, route) \<longleftrightarrow>
      (\<exists>r. strip_prefix ''ep:'' eid = Some r \<and> (\<exists>rest. strip_prefix ns r = Some rest \<and> e = eid \<and>
         split_once (CHR '':'') rest = Some (verb, route)))"
    by (auto simp: parse_endpoint_def bind_eq_Some_conv simp del: strip_prefix_Some)
  then show ?thesis by (auto simp: split_once_exact)
qed

lemma endpoint_hits:
  "map fst (filter (\<lambda>(_, verb, route). verb = meth \<and> route_matches route path)
     (List.map_filter (parse_endpoint (repo @ ''@'')) eids)) = filter (serves repo meth path) eids"
proof (induction eids)
  case (Cons eid eids)
  show ?case
  proof (cases "parse_endpoint (repo @ ''@'') eid")
    case None
    then have "\<not> serves repo meth path eid"
      using parse_endpoint_iff [of "repo @ ''@''" eid eid meth] by (auto simp: serves_def)
    with None Cons show ?thesis by (simp add: List.map_filter_simps)
  next
    case (Some evr)
    then obtain verb route where p: "parse_endpoint (repo @ ''@'') eid = Some (eid, verb, route)"
      using parse_endpoint_iff by (cases evr) auto
    have "serves repo meth path eid \<longleftrightarrow> verb = meth \<and> route_matches route path"
    proof
      assume "serves repo meth path eid"
      then obtain route' where "parse_endpoint (repo @ ''@'') eid = Some (eid, meth, route')"
        "route_matches route' path" by (auto simp: serves_def parse_endpoint_iff)
      with p show "verb = meth \<and> route_matches route path" by simp
    next
      assume "verb = meth \<and> route_matches route path"
      with p show "serves repo meth path eid" by (auto simp: serves_def parse_endpoint_iff)
    qed
    with p Cons show ?thesis by (simp add: List.map_filter_simps)
  qed
qed (simp add: List.map_filter_simps)

definition fetch_evidence :: "source_id \<Rightarrow> fetch_site \<Rightarrow> evidence_ref" where
  "fetch_evidence sid s =
     \<lparr>ev_repo = sid_repo sid, ev_path = fs_path s, ev_byte_start = fs_byte_start s,
      ev_byte_end = fs_byte_end s, ev_commit_sha = sid_commit sid\<rparr>"

text \<open>The endpoints a fetch could mean; an unresolved URL or method has none.\<close>

definition candidates :: "string list \<Rightarrow> config_index \<Rightarrow> source_id \<Rightarrow> fetch_site \<Rightarrow> string list" where
  "candidates eids cfg sid s =
     (case resolve_url cfg (fs_url s) of
        None \<Rightarrow> []
      | Some (path, _) \<Rightarrow>
          if fs_method s = ''?'' then [] else filter (serves (sid_repo sid) (fs_method s) path) eids)"

lemma fetch_outcome_iff:
  "(\<exists>r. fetch_outcome (List.map_filter (parse_endpoint (sid_repo sid @ ''@'')) eids) cfg s = Inr (ep, r)) \<longleftrightarrow>
     candidates eids cfg sid s = [ep]"
  by (auto simp: fetch_outcome_def candidates_def endpoint_hits split: option.splits list.splits)

definition fetch_site_edge ::
  "(string \<Rightarrow> string) \<Rightarrow> (string \<times> string \<times> string) list \<Rightarrow> config_index \<Rightarrow> source_id \<Rightarrow> fetch_site \<Rightarrow> edge" where
  "fetch_site_edge H endpoints cfg sid s =
     (case fetch_outcome endpoints cfg s of
        Inr (ep_id, resolver) \<Rightarrow> fetch_edge H sid s ep_id resolver
      | Inl reason \<Rightarrow> fetch_gap_edge H sid s reason)"

lemma map_filter_mem: "x \<in> set xs \<Longrightarrow> f x = Some y \<Longrightarrow> y \<in> set (List.map_filter f xs)"
  by (induction xs) (auto simp: List.map_filter_simps split: option.split)

lemma stitch_fetch_fold:
  "x_edges (fold (stitch_fetch H eps cfg sid) sites x) = x_edges x @ map (fetch_site_edge H eps cfg sid) sites"
  "x_nodes (fold (stitch_fetch H eps cfg sid) sites x) =
     x_nodes x @ List.map_filter (\<lambda>s. case fetch_outcome eps cfg s of
       Inl reason \<Rightarrow> Some (fetch_gap_node H sid s reason) | Inr _ \<Rightarrow> None) sites"
proof (induction sites arbitrary: x)
  case (Cons s sites)
  note step = stitch_fetch_def [of H eps cfg sid s] fetch_site_edge_def [of H eps cfg sid s]
    push_edge_def push_node_def
  {
    case 1
    show ?case by (simp add: Cons.IH step split: sum.split prod.split)
  next
    case 2
    show ?case by (simp add: Cons.IH step List.map_filter_simps split: sum.split prod.split)
  }
qed (simp_all add: List.map_filter_simps)

text \<open>The edge of a site with one candidate, and of any other.\<close>

lemma fetch_site_hit:
  "candidates eids cfg sid s = [ep] \<Longrightarrow>
     \<exists>r. fetch_site_edge H (List.map_filter (parse_endpoint (sid_repo sid @ ''@'')) eids) cfg sid s =
       fetch_edge H sid s ep r"
  by (auto simp: fetch_outcome_iff [symmetric] fetch_site_edge_def)

lemma fetch_miss_iff:
  "(\<exists>reason. fetch_outcome (List.map_filter (parse_endpoint (sid_repo sid @ ''@'')) eids) cfg s = Inl reason) \<longleftrightarrow>
     \<not> (\<exists>ep. candidates eids cfg sid s = [ep])"
  unfolding fetch_outcome_iff [symmetric]
  by (cases "fetch_outcome (List.map_filter (parse_endpoint (sid_repo sid @ ''@'')) eids) cfg s") auto

lemma fetch_edge_sel:
  "e_src (fetch_edge H sid s ep r) = site_source (sid_repo sid) (fs_symbol s) (fs_path s)"
  "e_dst (fetch_edge H sid s ep r) = ep" "e_label (fetch_edge H sid s ep r) = ''FETCHES''"
  "claims (fetch_edge H sid s ep r) Confirmed (fetch_evidence sid s)"
  "e_src (fetch_gap_edge H sid s q) = site_source (sid_repo sid) (fs_symbol s) (fs_path s)"
  "e_dst (fetch_gap_edge H sid s q) = n_id (fetch_gap_node H sid s q)"
  "e_label (fetch_gap_edge H sid s q) = ''FETCHES''"
  "claims (fetch_gap_edge H sid s q) Gap (fetch_evidence sid s)"
  "jget (e_props (fetch_gap_edge H sid s q)) ''reason'' = Some (JStr q)"
  "jget (n_props (fetch_gap_node H sid s q)) ''reason'' = Some (JStr q)"
  "n_label (fetch_gap_node H sid s q) = ''Gap''"
  by (simp_all add: fetch_edge_def fetch_gap_edge_def fetch_gap_node_def event_defs fetch_evidence_def)

text \<open>
  C34: Every fetch site yields one \<^verbatim>\<open>FETCHES\<close> edge, in site order, on its own span. The edge is
  Confirmed, and leads to an endpoint, exactly when one and only one recovered endpoint of the
  site's repository serves the fetch's method at the resolved path; a computed URL or method, an
  unknown env key, no match and several matches all give a Gap edge into a Gap node with the same
  reason, and no other node is made.
\<close>

theorem stitch_fetches_exact:
  "let x = stitch_fetches H sites eids cfg sid in
     length (x_edges x) = length sites \<and>
     (\<forall>k < length sites. let s = sites ! k; e = x_edges x ! k in
        e_src e = site_source (sid_repo sid) (fs_symbol s) (fs_path s) \<and> e_label e = ''FETCHES'' \<and>
        (if \<exists>ep. candidates eids cfg sid s = [ep]
         then candidates eids cfg sid s = [e_dst e] \<and> claims e Confirmed (fetch_evidence sid s)
         else claims e Gap (fetch_evidence sid s) \<and>
           (\<exists>n \<in> set (x_nodes x). \<exists>reason. n_id n = e_dst e \<and> n_label n = ''Gap'' \<and>
              jget (n_props n) ''reason'' = Some (JStr reason) \<and>
              jget (e_props e) ''reason'' = Some (JStr reason)))) \<and>
     length (x_nodes x) = length (filter (\<lambda>s. \<not> (\<exists>ep. candidates eids cfg sid s = [ep])) sites)"
  unfolding Let_def
proof (intro conjI allI impI)
  define eps where "eps = List.map_filter (parse_endpoint (sid_repo sid @ ''@'')) eids"
  let ?x = "stitch_fetches H sites eids cfg sid"
  have edges: "x_edges ?x = map (fetch_site_edge H eps cfg sid) sites"
    and nodes: "x_nodes ?x = List.map_filter (\<lambda>s. case fetch_outcome eps cfg s of
       Inl reason \<Rightarrow> Some (fetch_gap_node H sid s reason) | Inr _ \<Rightarrow> None) sites"
    by (simp_all add: stitch_fetches_def stitch_fetch_fold eps_def)
  note miss = fetch_miss_iff [of sid eids cfg, folded eps_def]
  show "length (x_edges ?x) = length sites" by (simp add: edges)
  show "length (x_nodes ?x) = length (filter (\<lambda>s. \<not> (\<exists>ep. candidates eids cfg sid s = [ep])) sites)"
    unfolding nodes miss [symmetric] by (induction sites) (auto simp: List.map_filter_simps split: sum.splits)
  fix k
  assume k: "k < length sites"
  let ?s = "sites ! k" and ?e = "x_edges ?x ! k"
  have e: "?e = fetch_site_edge H eps cfg sid ?s" using k by (simp add: edges)
  show "e_src ?e = site_source (sid_repo sid) (fs_symbol ?s) (fs_path ?s)" "e_label ?e = ''FETCHES''"
    unfolding e fetch_site_edge_def by (simp_all add: fetch_edge_sel split: sum.split prod.split)
  show "if \<exists>ep. candidates eids cfg sid ?s = [ep]
      then candidates eids cfg sid ?s = [e_dst ?e] \<and> claims ?e Confirmed (fetch_evidence sid ?s)
      else claims ?e Gap (fetch_evidence sid ?s) \<and>
        (\<exists>n \<in> set (x_nodes ?x). \<exists>reason. n_id n = e_dst ?e \<and> n_label n = ''Gap'' \<and>
           jget (n_props n) ''reason'' = Some (JStr reason) \<and>
           jget (e_props ?e) ''reason'' = Some (JStr reason))"
  proof (cases "\<exists>ep. candidates eids cfg sid ?s = [ep]")
    case True
    then obtain ep r where "candidates eids cfg sid ?s = [ep]" "?e = fetch_edge H sid ?s ep r"
      using fetch_site_hit [of eids cfg sid ?s _ H, folded eps_def] unfolding e by blast
    with True show ?thesis by (simp add: fetch_edge_sel)
  next
    case False
    then obtain reason where out: "fetch_outcome eps cfg ?s = Inl reason" using miss [of ?s] by blast
    have mem: "fetch_gap_node H sid ?s reason \<in> set (x_nodes ?x)"
      unfolding nodes by (rule map_filter_mem [OF nth_mem [OF k]]) (simp add: out)
    have "?e = fetch_gap_edge H sid ?s reason" unfolding e fetch_site_edge_def out by simp
    then show ?thesis unfolding if_not_P [OF False]
      by (intro conjI bexI [OF _ mem] exI [of _ reason]) (simp_all add: fetch_edge_sel)
  qed
qed

text \<open>A fetch of one user matches the route with a parameter, and only that route.\<close>

definition demo_fetch :: fetch_site where
  "demo_fetch = \<lparr>fs_method = ''GET'', fs_url = Literal ''https://api.x/users/7?v=1'', fs_symbol = Some ''sym:f'',
     fs_path = ''f.ts'', fs_byte_start = 3, fs_byte_end = 8\<rparr>"

definition demo_eids :: "string list" where
  "demo_eids = [''ep:r@GET:/users/:id'', ''ep:r@POST:/users/:id'', ''ep:other@GET:/users/:id'', ''ep:r@GET:/users'']"

lemma demo_candidates: "candidates demo_eids [] demo_id demo_fetch = [''ep:r@GET:/users/:id'']"
proof -
  have "map fst (filter (\<lambda>(_, verb, route). verb = ''GET'' \<and> route_matches route ''/users/7'')
      (List.map_filter (parse_endpoint (''r'' @ ''@'')) demo_eids)) = [''ep:r@GET:/users/:id'']"
    by code_simp
  then have "filter (serves ''r'' ''GET'' ''/users/7'') demo_eids = [''ep:r@GET:/users/:id'']"
    unfolding endpoint_hits .
  moreover have "url_path ''https://api.x/users/7?v=1'' = ''/users/7''" by code_simp
  ultimately show ?thesis
    by (simp add: candidates_def demo_fetch_def demo_id_def resolve_url_def)
qed

theorem stitch_fetches_exact_witness:
  "let e = x_edges (stitch_fetches (\<lambda>x. x) [demo_fetch] demo_eids [] demo_id) ! 0 in
     e_dst e = ''ep:r@GET:/users/:id'' \<and> claims e Confirmed (fetch_evidence demo_id demo_fetch)"
  using stitch_fetches_exact [of "\<lambda>x. x" "[demo_fetch]" demo_eids "[]" demo_id]
  unfolding Let_def by (elim conjE) (drule spec [of _ 0], simp add: demo_candidates)

section \<open>URLs and routes\<close>

lemma takeWhile_stop:
  "\<forall>c \<in> set u. P c \<Longrightarrow> q = [] \<or> \<not> P (hd q) \<Longrightarrow> takeWhile P (u @ q) = u"
  by (cases q) (auto simp: takeWhile_append)

lemma find_scheme:
  "CHR '':'' \<notin> set scheme \<Longrightarrow> find_str ''://'' (scheme @ '':'' @ ''//'' @ rest) = Some (length scheme)"
proof (induction scheme)
  case Nil
  then show ?case by (simp add: starts_with_def)
next
  case (Cons c scheme)
  then show ?case by (auto simp: starts_with_def)
qed

definition plain_char :: "char \<Rightarrow> bool" where
  "plain_char c \<longleftrightarrow> c \<noteq> CHR ''?'' \<and> c \<noteq> CHR ''#''"

lemma url_path_absolute:
  assumes "list_all plain_char (scheme @ host @ path)" "CHR '':'' \<notin> set scheme" "CHR ''/'' \<notin> set host"
    and "query = [] \<or> \<not> plain_char (hd query)"
  shows "url_path (scheme @ ''://'' @ host @ CHR ''/'' # path @ query) = CHR ''/'' # path"
proof -
  let ?u = "scheme @ '':'' @ ''//'' @ host @ CHR ''/'' # path"
  have "\<forall>c \<in> set ?u. plain_char c"
    using assms(1) by (auto simp: list_all_iff plain_char_def)
  then have "takeWhile plain_char (?u @ query) = ?u" using assms(4) by (rule takeWhile_stop)
  moreover have "(\<lambda>c. c \<noteq> CHR ''?'' \<and> c \<noteq> CHR ''#'') = plain_char" by (simp add: plain_char_def fun_eq_iff)
  moreover have "find_str ''/'' (host @ CHR ''/'' # path) = Some (length host)"
    using assms(3) by (rule find_str_skip)
  ultimately show ?thesis using find_scheme [OF assms(2)] by (simp add: url_path_def)
qed

fun join_segments :: "string list \<Rightarrow> string" where
  "join_segments [] = []"
| "join_segments [s] = s"
| "join_segments (s # t # ss) = s @ CHR ''/'' # join_segments (t # ss)"

lemma split_join_segments:
  "ss \<noteq> [] \<Longrightarrow> \<forall>s \<in> set ss. CHR ''/'' \<notin> set s \<Longrightarrow> split_on (CHR ''/'') (join_segments ss) = ss"
  by (induction ss rule: join_segments.induct) (auto simp: split_on_single split_on_append)

text \<open>
  A route is matched by exactly the paths obtained by filling in its parameters: a path
  made of slash-free segments matches a route made of slash-free segments precisely when there
  are as many of them and each is the route's own or fills a parameter \<^verbatim>\<open>:name\<close> with something
  non-empty; and an absolute URL, with any host, query or fragment, is matched by its path alone.
\<close>

theorem route_matches_absolute_url:
  assumes "ps \<noteq> []" "cs \<noteq> []" "\<forall>s \<in> set ps \<union> set cs. CHR ''/'' \<notin> set s"
    and "list_all plain_char (scheme @ host @ join_segments cs)" "CHR '':'' \<notin> set scheme"
    and "CHR ''/'' \<notin> set host" "query = [] \<or> \<not> plain_char (hd query)"
  shows "route_matches (CHR ''/'' # join_segments ps)
      (url_path (scheme @ ''://'' @ host @ CHR ''/'' # join_segments cs @ query)) \<longleftrightarrow>
    list_all2 (\<lambda>p c. p = c \<or> (p \<noteq> [] \<and> hd p = CHR '':'' \<and> c \<noteq> [])) ps cs"
proof -
  have "segment_matches p c \<longleftrightarrow> p = c \<or> (p \<noteq> [] \<and> hd p = CHR '':'' \<and> c \<noteq> [])" for p c
    by (cases p) (auto simp: segment_matches_def starts_with_def)
  then show ?thesis
    using assms(3) unfolding url_path_absolute [OF assms(4-7)]
    by (auto simp: route_matches_def split_join_segments [OF assms(1)] split_join_segments [OF assms(2)]
        list_all2_iff list_all_iff segment_matches_def starts_with_def)
qed

theorem route_matches_absolute_url_witness:
  "route_matches ''/users/:id'' (url_path ''https://api.x/users/7?v=1'')"
  using route_matches_absolute_url [of "[''users'', '':id'']" "[''users'', ''7'']"
      "''https''" "''api.x''" "''?v=1''"]
  by (simp add: plain_char_def)

section \<open>Stitched channels join flows\<close>

lemma gap_not_channel: "chan_gap_id sid g \<noteq> chan_id s i"
  by (simp add: chan_gap_id_def chan_id_def)

lemma site_edge_mem:
  "s \<in> set sites \<Longrightarrow> resolve_identity cfg (es_identity s) = Some (i, r) \<Longrightarrow>
     channel_edge H sid s i r \<in> set (x_edges (stitch H sites cfg sid))"
  by (force simp: stitch_closed site_edge_def)

lemma index_nodes_wins:
  assumes "n \<in> set new" "\<forall>m \<in> set new. n_id m = n_id n \<longrightarrow> n_label m = l"
  shows "\<exists>m. om_get (index_nodes (old @ new)) (n_id n) = Some m \<and> n_label m = l"
proof -
  have "\<exists>m. om_get (fold (\<lambda>n. om_put (n_id n) n) new d) (n_id n) = Some m \<and> n_label m = l" for d
    using assms
  proof (induction new arbitrary: d rule: rev_induct)
    case (snoc x new)
    show ?case
    proof (cases "n_id x = n_id n")
      case True
      with snoc.prems show ?thesis by simp
    next
      case False
      with snoc have "\<exists>m. om_get (fold (\<lambda>n. om_put (n_id n) n) new d) (n_id n) = Some m \<and> n_label m = l"
        by auto
      with False show ?thesis by simp
    qed
  qed simp
  then show ?thesis by (simp add: index_nodes_def)
qed

lemma index_nodes_later:
  assumes "om_get (index_nodes ns) i = Some m" "n_label m \<noteq> l" "\<forall>n \<in> set new. n_id n = i \<longrightarrow> n_label n \<noteq> l"
  shows "\<exists>m. om_get (index_nodes (ns @ new)) i = Some m \<and> n_label m \<noteq> l"
proof -
  have "\<exists>m. om_get (fold (\<lambda>n. om_put (n_id n) n) new d) i = Some m \<and> n_label m \<noteq> l"
    if "om_get d i = Some m" "n_label m \<noteq> l" for d m
    using that assms(3)
  proof (induction new arbitrary: d m)
    case (Cons a new)
    have "\<exists>m. om_get (om_put (n_id a) a d) i = Some m \<and> n_label m \<noteq> l"
      using Cons.prems by (cases "n_id a = i") auto
    then obtain m' where "om_get (om_put (n_id a) a d) i = Some m'" "n_label m' \<noteq> l" by blast
    from Cons.IH [OF this] Cons.prems(3) show ?case by simp
  qed auto
  with assms(1,2) show ?thesis by (simp add: index_nodes_def)
qed

lemma channel_not_gap:
  assumes "s \<in> set sites" "resolve_identity cfg (es_identity s) = Some (i, r)"
    and "\<forall>n \<in> set new. n_id n = chan_id s i \<longrightarrow> n_label n \<noteq> ''Gap''"
  shows "\<not> gap_id (ns @ x_nodes (stitch H sites cfg sid) @ new) (chan_id s i)"
proof -
  let ?nodes = "x_nodes (stitch H sites cfg sid)"
  have "chan_id s i \<in> fst ` set (stitched_channels H sites cfg sid)"
    unfolding stitched_keys using assms(1,2) by blast
  then obtain n where n: "n \<in> set (map snd (stitched_channels H sites cfg sid))" "n_id n = chan_id s i"
    using stitched_ids [of H sites cfg sid] by (metis (no_types, lifting) image_iff list.set_map)
  have "\<forall>m \<in> set ?nodes. n_id m = n_id n \<longrightarrow> n_label m = ''Channel''"
    using gap_not_channel [of sid _ s i] n(2)
    by (auto simp: stitch_closed intro: stitched_labels [of _ H sites cfg sid] rev_image_eqI)
  from index_nodes_wins [OF _ this, of ns] n obtain m where
    "om_get (index_nodes (ns @ ?nodes)) (chan_id s i) = Some m" "n_label m = ''Channel''"
    by (auto simp: stitch_closed)
  with index_nodes_later [OF this(1) _ assms(3)] show ?thesis by (auto simp: gap_id_def)
qed

lemma channel_edge_prov:
  "p_confidence (edge_provenance H' ts (channel_edge H sid s i r)) = Confirmed"
  "p_evidence (edge_provenance H' ts (channel_edge H sid s i r)) = [site_evidence sid s]"
  by (simp_all add: edge_provenance_def channel_edge_def jidx_def site_prov_def event_prov_def site_evidence_def)

lemma channel_step_recorded:
  assumes "\<not> fl_depth_limited (trace_one H' ts (build_index nodes edges) t)"
    and "flow_reach nodes edges (n_id t) a" "\<not> gap_id nodes a"
    and "flow_step nodes edges a (channel_edge H sid s i r) b"
  shows "\<exists>h \<in> set (fl_hops (trace_one H' ts (build_index nodes edges) t)).
    hop_key h = (role_label (es_role s), a, b) \<and>
    (distinct (map e_key edges) \<longrightarrow>
       h_confidence h = ''Confirmed'' \<and> p_evidence (h_prov h) = [site_evidence sid s])"
proof -
  from step_recorded [OF assms] obtain h where
    h: "h \<in> set (fl_hops (trace_one H' ts (build_index nodes edges) t))"
    "hop_key h = (role_label (es_role s), a, b)"
    "distinct (map e_key edges) \<Longrightarrow> h_prov h = edge_provenance H' ts (channel_edge H sid s i r)"
    "distinct (map e_key edges) \<Longrightarrow> h_confidence h =
       confidence_name (p_confidence (edge_provenance H' ts (channel_edge H sid s i r)))"
    unfolding channel_edge_sel by blast
  from h(1,2) h(3,4) show ?thesis
    by (intro bexI [of _ h] conjI impI) (simp_all add: channel_edge_prov)
qed

text \<open>
  C36: Stitching and tracing compose. Take a slice that holds the stitched facts, before and after
  them any others (where no later node turns the channel's id into a Gap), and a flow the tracer
  did not flag depth limited. When a producing and a consuming site resolve to the same channel
  and the flow starts at or arrives at the producer's symbol, which is no Gap, then the flow
  records the hop from the producer to the channel and the hop from the channel to the consumer's
  symbol; on a slice of distinct edge keys both are Confirmed hops on the sites' own evidence.
\<close>

theorem stitched_channel_joins_flows:
  assumes "p \<in> set sites" "es_role p = Produces" "resolve_identity cfg (es_identity p) = Some (i, r)"
    and "c \<in> set sites" "es_role c = Consumes" "resolve_identity cfg (es_identity c) = Some (j, q)"
    and chan: "chan_id p i = chan_id c j"
    and nodes: "nodes = ns @ x_nodes (stitch H sites cfg sid) @ ns'"
    and edges: "edges = es @ x_edges (stitch H sites cfg sid) @ es'"
    and later: "\<forall>n \<in> set ns'. n_id n = chan_id p i \<longrightarrow> n_label n \<noteq> ''Gap''"
    and f: "f = trace_one H' ts (build_index nodes edges) t"
    and complete: "\<not> fl_depth_limited f"
    and psym: "psym = site_source (sid_repo sid) (es_symbol p) (es_path p)"
    and csym: "csym = site_source (sid_repo sid) (es_symbol c) (es_path c)"
    and reach: "psym = n_id t \<or> psym \<in> h_dst ` set (fl_hops f)"
    and leave: "\<not> is_gap_node (build_index nodes edges) psym"
  shows "(\<exists>h \<in> set (fl_hops f). hop_key h = (''PUBLISHES'', psym, chan_id p i) \<and>
      (distinct (map e_key edges) \<longrightarrow>
         h_confidence h = ''Confirmed'' \<and> p_evidence (h_prov h) = [site_evidence sid p])) \<and>
    (\<exists>h \<in> set (fl_hops f). hop_key h = (''SUBSCRIBES'', chan_id p i, csym) \<and>
      (distinct (map e_key edges) \<longrightarrow>
         h_confidence h = ''Confirmed'' \<and> p_evidence (h_prov h) = [site_evidence sid c]))"
proof -
  let ?e = "channel_edge H sid p i r" and ?e' = "channel_edge H sid c j q"
  have "?e \<in> set edges" "?e' \<in> set edges"
    using site_edge_mem [OF assms(1,3)] site_edge_mem [OF assms(4,6)] edges by auto
  moreover have "walks_forward ids ?e" for ids
    using assms(2) by (simp add: walks_forward_def channel_edge_sel role_label_def)
  ultimately have s1: "flow_step nodes edges psym ?e (chan_id p i)"
    and s2: "flow_step nodes edges (chan_id p i) ?e' csym"
    using assms(5) chan by (simp_all add: flow_step_def channel_edge_sel role_label_def psym csym)
  have r1: "flow_reach nodes edges (n_id t) psym"
    using reach unfolding f by (rule recorded_reached)
  have g1: "\<not> gap_id nodes psym" using leave by simp
  have r2: "flow_reach nodes edges (n_id t) (chan_id p i)" using r1 g1 s1 by (rule flow_reach.step)
  have g2: "\<not> gap_id nodes (chan_id p i)" unfolding nodes by (rule channel_not_gap [OF assms(1,3) later])
  note complete = complete [unfolded f]
  have "role_label (es_role p) = ''PUBLISHES''" "role_label (es_role c) = ''SUBSCRIBES''"
    using assms(2,5) by (simp_all add: role_label_def)
  then show ?thesis
    using channel_step_recorded [OF complete r1 g1 s1] channel_step_recorded [OF complete r2 g2 s2]
    unfolding f by simp
qed

definition demo_pair :: "event_site list" where
  "demo_pair =
     [\<lparr>es_kind = ''kafka-topic'', es_role = Produces, es_identity = Literal ''orders'', es_symbol = Some ''sym:p'',
       es_path = ''p.ts'', es_byte_start = 1, es_byte_end = 2\<rparr>,
      \<lparr>es_kind = ''kafka-topic'', es_role = Consumes, es_identity = EnvRef ''Q'', es_symbol = Some ''sym:c'',
       es_path = ''c.ts'', es_byte_start = 7, es_byte_end = 9\<rparr>]"

lemma demo_pair_facts:
  "x_nodes (stitch (\<lambda>x. x) demo_pair [(''Q'', (''orders'', ''.env''))] demo_id) =
     [channel_node (\<lambda>x. x) demo_id (demo_pair ! 0) ''orders'']"
  "x_edges (stitch (\<lambda>x. x) demo_pair [(''Q'', (''orders'', ''.env''))] demo_id) =
     [channel_edge (\<lambda>x. x) demo_id (demo_pair ! 0) ''orders'' ''literal'',
      channel_edge (\<lambda>x. x) demo_id (demo_pair ! 1) ''orders'' ''config:.env'']"
  by (simp_all add: stitch_def stitch_site_def demo_pair_def resolve_identity_def resolve_def chan_id_def
      or_insert_def push_edge_def)

text \<open>A screen before the stitched facts that calls the producer, and the symbols after them.\<close>

definition demo_calls :: edge where
  "demo_calls = \<lparr>e_src = ''s'', e_dst = ''sym:p'', e_label = ''CALLS'', e_props = JNull\<rparr>"

definition demo_symbols :: "node list" where
  "demo_symbols = [\<lparr>n_id = ''sym:p'', n_label = ''Symbol'', n_props = JNull\<rparr>,
     \<lparr>n_id = ''sym:c'', n_label = ''Symbol'', n_props = JNull\<rparr>]"

abbreviation demo_x :: extraction where
  "demo_x \<equiv> stitch (\<lambda>x. x) demo_pair [(''Q'', (''orders'', ''.env''))] demo_id"

definition demo_joined :: flow where
  "demo_joined =
     trace_one (\<lambda>x. x) (\<lambda>_. []) (build_index ([demo_screen] @ x_nodes demo_x @ demo_symbols)
       ([] @ x_edges demo_x @ [demo_calls])) demo_screen"

lemma demo_pair_ends:
  "e_src (channel_edge (\<lambda>x. x) demo_id (demo_pair ! 0) ''orders'' r) = ''sym:p''"
  "e_dst (channel_edge (\<lambda>x. x) demo_id (demo_pair ! 0) ''orders'' r) = ''chan:kafka-topic:orders''"
  "e_src (channel_edge (\<lambda>x. x) demo_id (demo_pair ! 1) ''orders'' r) = ''sym:c''"
  "e_dst (channel_edge (\<lambda>x. x) demo_id (demo_pair ! 1) ''orders'' r) = ''chan:kafka-topic:orders''"
  by (simp_all add: channel_edge_sel demo_pair_def site_source_def chan_id_def)

lemma demo_joined_start:
  fixes nodes edges
  defines "nodes \<equiv> [demo_screen] @ x_nodes demo_x @ demo_symbols" and "edges \<equiv> [] @ x_edges demo_x @ [demo_calls]"
  shows "\<not> fl_depth_limited demo_joined" "''sym:p'' \<in> h_dst ` set (fl_hops demo_joined)"
    "\<not> gap_id nodes ''sym:p''"
proof -
  have "i \<in> {''s'', ''sym:p'', ''sym:c'', ''chan:kafka-topic:orders''}" if "flow_reach nodes edges ''s'' i" for i
    using that
  proof (induction rule: flow_reach.induct)
    case (step i e j)
    then have "e \<in> set edges" "j = e_src e \<or> j = e_dst e" by (auto simp: flow_step_def)
    then show ?case by (auto simp: edges_def demo_pair_facts demo_pair_ends demo_calls_def simp del: One_nat_def)
  qed simp
  then have "{i. flow_reach nodes edges ''s'' i} \<subseteq> set [''s'', ''sym:p'', ''sym:c'', ''chan:kafka-topic:orders'']"
    by auto
  from card_mono [OF _ this] have "card {i. flow_reach nodes edges ''s'' i} \<le> 4" by simp
  then show nl: "\<not> fl_depth_limited demo_joined"
    using limited_large [of "\<lambda>x. x" "\<lambda>_. []" nodes edges demo_screen]
    by (auto simp: demo_joined_def nodes_def edges_def MAX_DEPTH_def demo_screen_def)
  have "\<not> gap_id nodes ''s''" and p: "\<not> gap_id nodes ''sym:p''"
    unfolding nodes_def demo_pair_facts
    by (simp_all add: gap_id_def index_nodes_def demo_screen_def demo_symbols_def channel_node_def chan_id_def
        demo_pair_def)
  moreover have "flow_step nodes edges ''s'' demo_calls ''sym:p''"
    by (simp add: flow_step_def edges_def walks_forward_def forward_labels_def demo_calls_def)
  ultimately have "(''CALLS'', ''s'', ''sym:p'') \<in> hop_key ` set (fl_hops demo_joined)"
    using hop_complete [of "\<lambda>x. x" "\<lambda>_. []" nodes edges demo_screen "''s''" demo_calls] nl
      flow_reach.start [of nodes edges "''s''"]
    by (simp add: demo_joined_def nodes_def edges_def demo_screen_def demo_calls_def)
  then show "''sym:p'' \<in> h_dst ` set (fl_hops demo_joined)" by (force simp: hop_key_def)
  show "\<not> gap_id nodes ''sym:p''" by (rule p)
qed

theorem stitched_channel_joins_flows_witness:
  "\<exists>h \<in> set (fl_hops demo_joined). hop_key h = (''SUBSCRIBES'', ''chan:kafka-topic:orders'', ''sym:c'')"
proof -
  have sites: "demo_pair ! 0 \<in> set demo_pair" "demo_pair ! 1 \<in> set demo_pair" by (simp_all add: demo_pair_def)
  have roles: "es_role (demo_pair ! 0) = Produces" "es_role (demo_pair ! 1) = Consumes"
    by (simp_all add: demo_pair_def)
  have ids: "resolve_identity [(''Q'', (''orders'', ''.env''))] (es_identity (demo_pair ! 0)) = Some (''orders'', ''literal'')"
    "resolve_identity [(''Q'', (''orders'', ''.env''))] (es_identity (demo_pair ! 1)) = Some (''orders'', ''config:.env'')"
    by (simp_all add: demo_pair_def resolve_identity_def resolve_def)
  have chan: "chan_id (demo_pair ! 0) ''orders'' = ''chan:kafka-topic:orders''"
    "chan_id (demo_pair ! 0) ''orders'' = chan_id (demo_pair ! 1) ''orders''"
    by (simp_all add: chan_id_def demo_pair_def)
  have later: "\<forall>n \<in> set demo_symbols. n_id n = chan_id (demo_pair ! 0) ''orders'' \<longrightarrow> n_label n \<noteq> ''Gap''"
    by (simp add: demo_symbols_def)
  have ends: "''sym:p'' = site_source (sid_repo demo_id) (es_symbol (demo_pair ! 0)) (es_path (demo_pair ! 0))"
    "''sym:c'' = site_source (sid_repo demo_id) (es_symbol (demo_pair ! 1)) (es_path (demo_pair ! 1))"
    by (simp_all add: demo_pair_def site_source_def)
  have "\<not> is_gap_node (build_index ([demo_screen] @ x_nodes demo_x @ demo_symbols)
      ([] @ x_edges demo_x @ [demo_calls])) ''sym:p''"
    using demo_joined_start(3) by simp
  then show ?thesis
    using stitched_channel_joins_flows [OF sites(1) roles(1) ids(1) sites(2) roles(2) ids(2) chan(2) refl refl
        later demo_joined_def demo_joined_start(1) ends disjI2 [OF demo_joined_start(2)]]
    unfolding chan(1) by blast
qed

end
