(* ===== verification/Source_Basis.thy ===== *)
theory Source_Basis
  imports Agent_Broker
begin

text \<open>
  Bounded source-selection metadata (\<^verbatim>\<open>crates/agents/src/source_basis.rs\<close>), the task manifest it
  is checked against (\<^verbatim>\<open>TaskBasisManifest\<close> of \<^verbatim>\<open>staging.rs\<close>) and prepared tasks
  (\<^verbatim>\<open>crates/agents/src/prepared.rs\<close>). The JSON text of a value is what serde's derived serialiser
  and serde\_json's writer produce, third-party code: a parameter \<open>jb\<close> of the definitions that
  measure or hash it. Integers of the records are naturals, except byte offsets, which stay words.
\<close>

section \<open>Bounded text and hashes\<close>

definition text_ok :: "string \<Rightarrow> nat \<Rightarrow> bool" where
  "text_ok v maximum \<longleftrightarrow> trim v \<noteq> [] \<and> length v \<le> maximum \<and> CHR 0x00 \<notin> set v"

definition hex_byte :: "char \<Rightarrow> bool" where
  "hex_byte c \<longleftrightarrow> (CHR ''0'' \<le> c \<and> c \<le> CHR ''9'') \<or> (CHR ''a'' \<le> c \<and> c \<le> CHR ''f'')"

definition is_hash :: "string \<Rightarrow> bool" where
  "is_hash v \<longleftrightarrow> length v = 64 \<and> list_all hex_byte v"

definition prefixed :: "string \<Rightarrow> string \<Rightarrow> bool" where
  "prefixed v pre = (case strip_prefix pre v of None \<Rightarrow> False | Some r \<Rightarrow> is_hash r)"

definition is_receipt :: "string \<Rightarrow> bool" where
  "is_receipt v \<longleftrightarrow> prefixed v ''ts-primary-v1:'' \<or> prefixed v ''ts-primary-v2:''"

definition valid_path :: "string \<Rightarrow> bool" where
  "valid_path p \<longleftrightarrow>
     text_ok p 1024 \<and> \<not> starts_with ''/'' p \<and> CHR 0x5C \<notin> set p \<and> CHR '':'' \<notin> set p \<and>
     list_all (\<lambda>s. s \<noteq> [] \<and> s \<noteq> ''.'' \<and> s \<noteq> ''..'') (split_on (CHR ''/'') p)"

definition domain_hash :: "(string \<Rightarrow> string) \<Rightarrow> string \<Rightarrow> string \<Rightarrow> string" where
  "domain_hash H domain bytes = content_hash H (domain @ bytes)"

text \<open>\<^verbatim>\<open>u64::checked_add\<close>.\<close>

definition checked_add64 :: "nat \<Rightarrow> nat \<Rightarrow> nat option" where
  "checked_add64 a b = (if a + b < 2 ^ 64 then Some (a + b) else None)"

section \<open>Records\<close>

datatype task_fact_key = TfNode string | TfEdge string string string

definition task_fact_rank :: "task_fact_key \<Rightarrow> nat \<times> string \<times> string \<times> string" where
  "task_fact_rank k = (case k of TfNode i \<Rightarrow> (0, i, [], []) | TfEdge s l d \<Rightarrow> (1, s, l, d))"

lemma task_fact_rank_eq [simp]: "task_fact_rank a = task_fact_rank b \<longleftrightarrow> a = b"
  by (cases a; cases b) (auto simp: task_fact_rank_def)

instantiation task_fact_key :: linorder
begin

definition less_eq_task_fact_key :: "task_fact_key \<Rightarrow> task_fact_key \<Rightarrow> bool" where
  "a \<le> b \<longleftrightarrow> task_fact_rank a \<le> task_fact_rank b"

definition less_task_fact_key :: "task_fact_key \<Rightarrow> task_fact_key \<Rightarrow> bool" where
  "a < b \<longleftrightarrow> task_fact_rank a < task_fact_rank b"

instance
proof
  fix x y z :: task_fact_key
  show "(x < y) = (x \<le> y \<and> \<not> y \<le> x)"
    by (simp only: less_eq_task_fact_key_def less_task_fact_key_def less_le_not_le)
  show "x \<le> x" by (simp only: less_eq_task_fact_key_def)
  show "x \<le> y \<Longrightarrow> y \<le> z \<Longrightarrow> x \<le> z" unfolding less_eq_task_fact_key_def by (rule order_trans)
  show "x \<le> y \<Longrightarrow> y \<le> x \<Longrightarrow> x = y"
    unfolding less_eq_task_fact_key_def using task_fact_rank_eq antisym by blast
  show "x \<le> y \<or> y \<le> x" unfolding less_eq_task_fact_key_def by (rule linear)
qed

end

record task_source_association =
  sa_repo_key :: string
  sa_receipt_id :: string
  sa_digest :: string

record task_fact_selection =
  fsel_fact :: task_fact_key
  fsel_digest :: string
  fsel_binding :: "task_source_association option"

datatype task_range_role =
    RoleProvenance | RuleExit | ConditionBranch | ConditionExpression | ReturnValue | ThrowValue
  | Dependency | DependencyDeclaration | Redaction | DefinitionDeclaration | DefinitionUse
  | DefinitionInitializer | DefinitionExpression | DefinitionDependency | DefinitionDependencyDeclaration

definition definition_roles :: "task_range_role list" where
  "definition_roles =
     [DefinitionDeclaration, DefinitionUse, DefinitionInitializer, DefinitionExpression,
      DefinitionDependency, DefinitionDependencyDeclaration]"

record task_capture_file =
  cf_source_id :: string
  cf_capture_id :: string
  cf_path :: string
  cf_digest :: string
  cf_byte_len :: u64

record task_capture_span =
  cs_file :: task_capture_file
  cs_byte_start :: u64
  cs_byte_end :: u64

datatype primary_source_scope = PrimarySourceOnly
datatype input_closure_status = InputClosureNotEstablished

record captured_origin =
  co_source_id :: string
  co_receipt_id :: string
  co_inventory_index :: nat
  co_captured :: task_capture_span
  co_scope :: primary_source_scope
  co_input_closure :: input_closure_status

datatype task_evidence_kind = WorkingTreeUnverified | CapturedPrimarySource captured_origin

record task_evidence_origin =
  eo_evidence_id :: string
  eo_fact :: task_fact_key
  eo_role :: task_range_role
  eo_index :: nat
  eo_origin :: task_evidence_kind

record selection_limits =
  sl_metadata_lookahead :: nat
  sl_acquisition_attempts :: nat
  sl_selected_facts :: nat
  sl_evidence :: nat
  sl_candidates :: nat
  sl_span_bytes :: nat
  sl_total_evidence_bytes :: nat
  sl_captured_validation_bytes :: nat

definition MAX_CAPTURED_VALIDATION_BYTES :: nat where
  "MAX_CAPTURED_VALIDATION_BYTES = 128 * 1024 * 1024"

definition MAX_SOURCE_BASIS_BYTES :: nat where "MAX_SOURCE_BASIS_BYTES = 64 * 1024"

definition selection_limits_default :: selection_limits where
  "selection_limits_default =
     \<lparr>sl_metadata_lookahead = 64, sl_acquisition_attempts = 64, sl_selected_facts = 65, sl_evidence = 12,
      sl_candidates = 8, sl_span_bytes = 8192, sl_total_evidence_bytes = 49152,
      sl_captured_validation_bytes = MAX_CAPTURED_VALIDATION_BYTES\<rparr>"

datatype selection_omission_reason = MissingCitation | LegacyReadUnavailable

record selection_omission =
  so_request_index :: nat
  so_fact :: task_fact_key
  so_reason :: selection_omission_reason

datatype selection_stop_reason =
    CandidateLimit | NeighborhoodExhausted | AttemptLimit | ValidationByteLimit
  | ParticipatingSourceUnavailable | InvalidSelection | RequiredMembershipMissing

record selection_report =
  sr_metadata_lookahead :: nat
  sr_acquisition_attempts :: nat
  sr_supplied_evidence :: nat
  sr_supplied_candidates :: nat
  sr_captured_validation_bytes :: nat
  sr_limits :: selection_limits
  sr_omissions :: "selection_omission list"
  sr_preselected_not_read :: nat
  sr_unread_tail :: bool
  sr_stop_reason :: selection_stop_reason

record task_source_basis =
  tsb_schema_version :: nat
  tsb_graph_snapshot_id :: string
  tsb_selected_facts :: "task_fact_selection list"
  tsb_evidence :: "task_evidence_origin list"
  tsb_selection :: selection_report

record evidence_basis =
  eb_id :: string
  eb_source :: evidence_ref
  eb_text_hash :: string
  eb_text_bytes :: nat

record candidate_basis =
  cb_node_id :: string
  cb_label :: string
  cb_summary_hash :: string
  cb_summary_bytes :: nat
  cb_evidence_ids :: "string list"

record task_basis_manifest =
  tm_schema_version :: nat
  tm_action_id :: string
  tm_gap_id :: string
  tm_source_id :: string
  tm_edge_label :: string
  tm_existing_confidence :: confidence_tier
  tm_source_evidence_ids :: "string list"
  tm_evidence :: "evidence_basis list"
  tm_candidates :: "candidate_basis list"

section \<open>Checking a source basis\<close>

definition basis_invalid :: agent_error where
  "basis_invalid = InvalidTask ''invalid prepared source basis''"

definition require :: "bool \<Rightarrow> (agent_error, unit) result" where
  "require ok = (if ok then Inr () else Inl basis_invalid)"

definition bounded_json :: "string \<Rightarrow> nat \<Rightarrow> (agent_error, string) result" where
  "bounded_json bytes limit = (if length bytes > limit then Inl basis_invalid else Inr bytes)"

definition fact_valid :: "task_fact_key \<Rightarrow> bool" where
  "fact_valid k =
     (case k of
        TfNode i \<Rightarrow> text_ok i 8192
      | TfEdge s l d \<Rightarrow> text_ok s 8192 \<and> text_ok l 256 \<and> text_ok d 8192)"

definition digest_valid :: "task_fact_key \<Rightarrow> string \<Rightarrow> bool" where
  "digest_valid k v = prefixed v (case k of TfNode _ \<Rightarrow> ''node-v1:'' | TfEdge _ _ _ \<Rightarrow> ''edge-v1:'')"

definition basis_fingerprint ::
  "(string \<Rightarrow> string) \<Rightarrow> (task_source_basis \<Rightarrow> string) \<Rightarrow> task_source_basis \<Rightarrow> (agent_error, string) result" where
  "basis_fingerprint H jb b =
     rbind (bounded_json (jb b) MAX_SOURCE_BASIS_BYTES) (\<lambda>bytes.
       Inr (domain_hash H (''cartograph:task-source-basis:v2'' @ [CHR 0x00]) bytes))"

definition stop_reason_consistent :: "selection_report \<Rightarrow> bool" where
  "stop_reason_consistent r =
     (case sr_stop_reason r of
        CandidateLimit \<Rightarrow> sr_supplied_candidates r = sl_candidates (sr_limits r)
      | NeighborhoodExhausted \<Rightarrow> \<not> sr_unread_tail r \<and> sr_preselected_not_read r = 0
      | AttemptLimit \<Rightarrow> sr_acquisition_attempts r = sl_acquisition_attempts (sr_limits r) \<and> sr_unread_tail r
      | _ \<Rightarrow> False)"

definition binding_valid :: "task_fact_selection \<Rightarrow> bool" where
  "binding_valid sel =
     (case fsel_binding sel of
        None \<Rightarrow> True
      | Some b \<Rightarrow> text_ok (sa_repo_key b) 256 \<and> is_receipt (sa_receipt_id b) \<and> sa_digest b = fsel_digest sel)"

text \<open>The selected facts, strictly increasing, indexed by key.\<close>

definition index_selection ::
  "task_fact_selection \<Rightarrow> (task_fact_key, task_fact_selection) omap \<times> task_fact_key option
     \<Rightarrow> (agent_error, (task_fact_key, task_fact_selection) omap \<times> task_fact_key option) result" where
  "index_selection sel st =
     (case st of (facts, previous) \<Rightarrow>
        if \<not> fact_valid (fsel_fact sel) \<or> \<not> digest_valid (fsel_fact sel) (fsel_digest sel) \<or>
           (case previous of None \<Rightarrow> False | Some p \<Rightarrow> p \<ge> fsel_fact sel) \<or> \<not> binding_valid sel
        then Inl basis_invalid
        else Inr (om_put (fsel_fact sel) sel facts, Some (fsel_fact sel)))"

text \<open>A captured origin against the binding of its fact and the supplied span.\<close>

definition captured_matches ::
  "selection_limits \<Rightarrow> task_range_role \<Rightarrow> captured_origin \<Rightarrow> task_source_association \<Rightarrow> evidence_basis \<Rightarrow> bool" where
  "captured_matches l role co b item \<longleftrightarrow>
     (let span = co_captured co; file = cs_file span; src = eb_source item in
      text_ok (co_source_id co) 256 \<and> co_source_id co = cf_source_id file \<and>
      co_receipt_id co = sa_receipt_id b \<and> co_inventory_index co < 1024 \<and> sa_repo_key b = ev_repo src \<and>
      prefixed (cf_capture_id file) ''capture-v1:'' \<and> is_hash (cf_digest file) \<and> valid_path (cf_path file) \<and>
      cf_path file = ev_path src \<and> unat (cf_byte_len file) \<le> 16 * 1024 * 1024 \<and>
      cs_byte_start span < cs_byte_end span \<and> cs_byte_end span \<le> cf_byte_len file \<and>
      cs_byte_start span = ev_byte_start src \<and> cs_byte_end span = ev_byte_end src \<and>
      unat (cs_byte_end span - cs_byte_start span) = eb_text_bytes item \<and>
      unat (cs_byte_end span - cs_byte_start span) \<le> sl_span_bytes l \<and>
      \<not> (starts_with ''ts-primary-v1:'' (co_receipt_id co) \<and> role \<in> set definition_roles))"

record basis_scan =
  bs_seen :: "string list"
  bs_justified :: "task_fact_key list"
  bs_charged :: nat

definition scan_evidence ::
  "task_basis_manifest \<Rightarrow> selection_limits \<Rightarrow> (task_fact_key, task_fact_selection) omap
     \<Rightarrow> task_evidence_origin \<Rightarrow> basis_scan \<Rightarrow> (agent_error, basis_scan) result" where
  "scan_evidence basis l facts o' st =
     (case find (\<lambda>e. eb_id e = eo_evidence_id o') (tm_evidence basis) of
        None \<Rightarrow> Inl basis_invalid
      | Some item \<Rightarrow>
          if eo_evidence_id o' \<in> set (bs_seen st) \<or> eo_index o' \<ge> 1024 then Inl basis_invalid
          else (case om_get facts (eo_fact o') of
                  None \<Rightarrow> Inl basis_invalid
                | Some sel \<Rightarrow>
                    if eo_evidence_id o' \<in> set (tm_source_evidence_ids basis) \<and>
                       eo_fact o' \<noteq> TfNode (tm_source_id basis) \<and> eo_fact o' \<noteq> TfNode (tm_gap_id basis)
                    then Inl basis_invalid
                    else if list_ex (\<lambda>c. eo_evidence_id o' \<in> set (cb_evidence_ids c) \<and>
                                eo_fact o' \<noteq> TfNode (cb_node_id c)) (tm_candidates basis)
                    then Inl basis_invalid
                    else (let st' = st\<lparr>bs_seen := eo_evidence_id o' # bs_seen st,
                                       bs_justified := eo_fact o' # bs_justified st\<rparr> in
                          case eo_origin o' of
                            WorkingTreeUnverified \<Rightarrow>
                              if fsel_binding sel \<noteq> None then Inl basis_invalid else Inr st'
                          | CapturedPrimarySource co \<Rightarrow>
                              (case fsel_binding sel of
                                 None \<Rightarrow> Inl basis_invalid
                               | Some b \<Rightarrow>
                                   if \<not> captured_matches l (eo_role o') co b item then Inl basis_invalid
                                   else (case checked_add64 (bs_charged st) (unat (cf_byte_len (cs_file (co_captured co)))) of
                                           None \<Rightarrow> Inl basis_invalid
                                         | Some n \<Rightarrow> Inr (st'\<lparr>bs_charged := n\<rparr>))))))"

definition scan_omission ::
  "selection_report \<Rightarrow> (task_fact_key, task_fact_selection) omap \<Rightarrow> selection_omission
     \<Rightarrow> nat option \<times> task_fact_key list \<Rightarrow> (agent_error, nat option \<times> task_fact_key list) result" where
  "scan_omission r facts om st =
     (case st of (previous, justified) \<Rightarrow>
        (case om_get facts (so_fact om) of
           None \<Rightarrow> Inl basis_invalid
         | Some sel \<Rightarrow>
             if so_request_index om \<ge> sr_acquisition_attempts r \<or>
                (case previous of None \<Rightarrow> False | Some p \<Rightarrow> p \<ge> so_request_index om) \<or>
                (so_reason om = LegacyReadUnavailable \<and> fsel_binding sel \<noteq> None)
             then Inl basis_invalid
             else Inr (Some (so_request_index om), so_fact om # justified)))"

definition report_consistent :: "task_source_basis \<Rightarrow> task_basis_manifest \<Rightarrow> bool" where
  "report_consistent b basis \<longleftrightarrow>
     (let r = tsb_selection b; l = sr_limits r in
      tsb_schema_version b = 2 \<and> prefixed (tsb_graph_snapshot_id b) ''context-v1:'' \<and>
      l = selection_limits_default \<and> sr_metadata_lookahead r \<le> sl_metadata_lookahead l \<and>
      sr_acquisition_attempts r \<le> sr_metadata_lookahead r \<and>
      sr_acquisition_attempts r \<le> sl_acquisition_attempts l \<and>
      sr_preselected_not_read r = sr_metadata_lookahead r - sr_acquisition_attempts r \<and>
      sr_supplied_evidence r = length (tm_evidence basis) \<and>
      sr_supplied_candidates r = length (tm_candidates basis) \<and>
      sr_supplied_candidates r \<le> sl_candidates l \<and> sr_supplied_evidence r \<le> sl_evidence l \<and>
      sr_captured_validation_bytes r \<le> sl_captured_validation_bytes l \<and>
      length (sr_omissions r) \<le> sr_acquisition_attempts r \<and>
      sr_acquisition_attempts r = sr_supplied_evidence r + length (sr_omissions r) \<and>
      length (tsb_selected_facts b) \<le> sl_selected_facts l \<and>
      length (tsb_selected_facts b) \<le> sr_acquisition_attempts r + 1 \<and>
      length (tsb_evidence b) = length (tm_evidence basis))"

text \<open>At most one selected fact may lack support, and only an edge of the task's relation.\<close>

definition extras_allowed ::
  "task_basis_manifest \<Rightarrow> (task_fact_key, task_fact_selection) omap \<Rightarrow> task_fact_key list \<Rightarrow> bool" where
  "extras_allowed basis facts justified =
     (case filter (\<lambda>f. f \<notin> set justified) (map fst facts) of
        [] \<Rightarrow> True
      | [f] \<Rightarrow> (case f of TfEdge s l d \<Rightarrow> l = tm_edge_label basis | _ \<Rightarrow> False)
      | _ \<Rightarrow> False)"

definition source_basis_validate ::
  "(string \<Rightarrow> string) \<Rightarrow> (task_source_basis \<Rightarrow> string) \<Rightarrow> task_source_basis \<Rightarrow> task_basis_manifest
     \<Rightarrow> (agent_error, unit) result" where
  "source_basis_validate H jb b basis =
     (let r = tsb_selection b in
      rbind (require (report_consistent b basis)) (\<lambda>_.
      rbind (require (stop_reason_consistent r)) (\<lambda>_.
      rbind (try_fold index_selection (tsb_selected_facts b) ([], None)) (\<lambda>(facts, _).
      rbind (require (om_get facts (TfNode (tm_source_id basis)) \<noteq> None \<and>
                      om_get facts (TfNode (tm_gap_id basis)) \<noteq> None \<and>
                      list_all (\<lambda>c. om_get facts (TfNode (cb_node_id c)) \<noteq> None) (tm_candidates basis))) (\<lambda>_.
      rbind (try_fold (scan_evidence basis (sr_limits r) facts) (tsb_evidence b)
               \<lparr>bs_seen = [], bs_justified = [], bs_charged = 0\<rparr>) (\<lambda>scan.
      rbind (try_fold (scan_omission r facts) (sr_omissions r) (None, bs_justified scan)) (\<lambda>(_, justified).
      rbind (require (bs_charged scan = sr_captured_validation_bytes r)) (\<lambda>_.
      rbind (require (extras_allowed basis facts justified)) (\<lambda>_.
      rbind (basis_fingerprint H jb b) (\<lambda>_. Inr ()))))))))))"

section \<open>Prepared tasks\<close>

definition MAX_STAGED_RECORD_BYTES :: nat where "MAX_STAGED_RECORD_BYTES = 128 * 1024"

record prepared_agent_task =
  pt_task :: agent_task
  pt_source_basis :: task_source_basis

definition identity_metadata :: "string \<Rightarrow> string \<Rightarrow> string \<Rightarrow> string \<Rightarrow> bool" where
  "identity_metadata action gap src lbl \<longleftrightarrow>
     text_ok action 8192 \<and> text_ok gap 8192 \<and> text_ok src 8192 \<and> text_ok lbl 256"

definition membership_metadata :: "string list \<Rightarrow> bool" where
  "membership_metadata ids \<longleftrightarrow>
     length ids \<le> 12 \<and> list_all (\<lambda>s. text_ok s 8192) ids \<and> is_ok (unique_nonempty ids)"

definition evidence_metadata :: "string \<Rightarrow> evidence_ref \<Rightarrow> bool" where
  "evidence_metadata i src \<longleftrightarrow>
     text_ok i 8192 \<and> text_ok (ev_repo src) 256 \<and> text_ok (ev_path src) 1024 \<and>
     text_ok (ev_commit_sha src) 1024 \<and> ev_byte_start src < ev_byte_end src"

definition candidate_metadata :: "string \<Rightarrow> string \<Rightarrow> string list \<Rightarrow> bool" where
  "candidate_metadata nd lbl ids \<longleftrightarrow> text_ok nd 8192 \<and> text_ok lbl 256 \<and> membership_metadata ids"

definition validate_summary_bound :: "agent_task \<Rightarrow> (agent_error, unit) result" where
  "validate_summary_bound t =
     require (sum_list (map (\<lambda>c. length (ca_summary c)) (at_candidates t)) \<le> MAX_STAGED_RECORD_BYTES)"

definition task_manifest :: "(string \<Rightarrow> string) \<Rightarrow> agent_task \<Rightarrow> nat \<Rightarrow> task_basis_manifest" where
  "task_manifest H t version =
     \<lparr>tm_schema_version = version, tm_action_id = at_action_id t, tm_gap_id = at_gap_id t,
      tm_source_id = at_source_id t, tm_edge_label = at_edge_label t,
      tm_existing_confidence = at_existing_confidence t, tm_source_evidence_ids = at_source_evidence_ids t,
      tm_evidence = map (\<lambda>e. \<lparr>eb_id = ae_id e, eb_source = ae_source e,
        eb_text_hash = content_hash H (ae_text e), eb_text_bytes = length (ae_text e)\<rparr>) (at_evidence t),
      tm_candidates = map (\<lambda>c. \<lparr>cb_node_id = ca_node_id c, cb_label = ca_label c,
        cb_summary_hash = content_hash H (ca_summary c), cb_summary_bytes = length (ca_summary c),
        cb_evidence_ids = ca_evidence_ids c\<rparr>) (at_candidates t)\<rparr>"

definition validate_manifest_metadata :: "task_basis_manifest \<Rightarrow> (agent_error, unit) result" where
  "validate_manifest_metadata b =
     require (tm_schema_version b = 2 \<and>
       identity_metadata (tm_action_id b) (tm_gap_id b) (tm_source_id b) (tm_edge_label b) \<and>
       length (tm_evidence b) \<le> 12 \<and> length (tm_candidates b) \<le> 8 \<and>
       membership_metadata (tm_source_evidence_ids b) \<and>
       list_all (\<lambda>e. evidence_metadata (eb_id e) (eb_source e)) (tm_evidence b) \<and>
       list_all (\<lambda>c. candidate_metadata (cb_node_id c) (cb_label c) (cb_evidence_ids c)) (tm_candidates b) \<and>
       sum_list (map cb_summary_bytes (tm_candidates b)) \<le> MAX_STAGED_RECORD_BYTES)"

definition prepared_new ::
  "(string \<Rightarrow> string) \<Rightarrow> (task_source_basis \<Rightarrow> string) \<Rightarrow> agent_task \<Rightarrow> task_source_basis
     \<Rightarrow> (agent_error, prepared_agent_task) result" where
  "prepared_new H jb t sb =
     rbind (require (length (at_evidence t) \<le> 12 \<and> length (at_candidates t) \<le> 8 \<and>
              identity_metadata (at_action_id t) (at_gap_id t) (at_source_id t) (at_edge_label t) \<and>
              membership_metadata (at_source_evidence_ids t) \<and>
              list_all (\<lambda>e. length (ae_text e) \<le> 8192 \<and> evidence_metadata (ae_id e) (ae_source e)) (at_evidence t) \<and>
              list_all (\<lambda>c. candidate_metadata (ca_node_id c) (ca_label c) (ca_evidence_ids c)) (at_candidates t))) (\<lambda>_.
     rbind (validate_summary_bound t) (\<lambda>_.
     rbind (validate_task broker_limits_default t) (\<lambda>_.
     rbind (validate_manifest_metadata (task_manifest H t 2)) (\<lambda>_.
     rbind (source_basis_validate H jb sb (task_manifest H t 2)) (\<lambda>_.
     Inr \<lparr>pt_task = t, pt_source_basis = sb\<rparr>)))))"

definition prepared_basis_hash ::
  "(string \<Rightarrow> string) \<Rightarrow> (task_source_basis \<Rightarrow> string) \<Rightarrow> (task_basis_manifest \<times> task_source_basis \<Rightarrow> string)
     \<Rightarrow> task_basis_manifest \<Rightarrow> task_source_basis \<Rightarrow> (agent_error, string) result" where
  "prepared_basis_hash H jb jp b sb =
     rbind (validate_manifest_metadata b) (\<lambda>_.
     rbind (source_basis_validate H jb sb b) (\<lambda>_.
       (let b' = b\<lparr>tm_action_id := [], tm_source_evidence_ids := sort (tm_source_evidence_ids b),
                   tm_evidence := sort_key eb_id (tm_evidence b),
                   tm_candidates := sort_key cb_node_id
                     (map (\<lambda>c. c\<lparr>cb_evidence_ids := sort (cb_evidence_ids c)\<rparr>) (tm_candidates b))\<rparr>;
            sb' = sb\<lparr>tsb_evidence := sort_key eo_evidence_id (tsb_evidence sb)\<rparr>
        in Inr (domain_hash H (''cartograph:prepared-agent-task:v2'' @ [CHR 0x00]) (jp (b', sb'))))))"

definition prepared_task_basis_hash ::
  "(string \<Rightarrow> string) \<Rightarrow> (task_source_basis \<Rightarrow> string) \<Rightarrow> (task_basis_manifest \<times> task_source_basis \<Rightarrow> string)
     \<Rightarrow> prepared_agent_task \<Rightarrow> (agent_error, string) result" where
  "prepared_task_basis_hash H jb jp p =
     prepared_basis_hash H jb jp (task_manifest H (pt_task p) 2) (pt_source_basis p)"

end
