(* ===== verification/Source_Basis_Props.thy ===== *)
theory Source_Basis_Props
  imports Source_Basis Agent_Props
begin

text \<open>
  Properties of source bases and prepared tasks: one invariant per loop of
  \<^verbatim>\<open>TaskSourceBasisV2::validate\<close>, and what a task that was prepared is guaranteed to say about
  where its evidence came from.
\<close>

section \<open>The loops of the check\<close>

lemma require_ok [simp, result_simps]: "require b = Inr u \<longleftrightarrow> b"
  by (simp add: require_def)

text \<open>Selected facts are strictly increasing and are what the index returns.\<close>

lemma index_selection_step:
  "index_selection s (m, p) = Inr st \<longleftrightarrow>
     fact_valid (fsel_fact s) \<and> digest_valid (fsel_fact s) (fsel_digest s) \<and> binding_valid s \<and>
     (\<forall>q. p = Some q \<longrightarrow> q < fsel_fact s) \<and> st = (om_put (fsel_fact s) s m, Some (fsel_fact s))"
  by (auto simp: index_selection_def not_le split: option.splits)

lemma index_selection_fold:
  assumes "try_fold index_selection xs (m, p) = Inr (facts, q)"
  shows "sorted_wrt (<) (map fsel_fact xs) \<and> (\<forall>k. p = Some k \<longrightarrow> (\<forall>s \<in> set xs. k < fsel_fact s)) \<and>
     fst ` set facts = fsel_fact ` set xs \<union> fst ` set m \<and>
     (\<forall>s \<in> set xs. binding_valid s) \<and>
     (\<forall>k s. om_get facts k = Some s \<longrightarrow> (s \<in> set xs \<and> fsel_fact s = k) \<or> om_get m k = Some s)"
  using assms
proof (induction xs arbitrary: m p)
  case (Cons x xs)
  then have x: "binding_valid x" "\<forall>q. p = Some q \<longrightarrow> q < fsel_fact x"
    and rest: "try_fold index_selection xs (om_put (fsel_fact x) x m, Some (fsel_fact x)) = Inr (facts, q)"
    by (auto simp: rbind_eq_Inr index_selection_step)
  note ih = Cons.IH [OF rest]
  have "\<forall>k. p = Some k \<longrightarrow> (\<forall>s \<in> set (x # xs). k < fsel_fact s)"
    using x(2) ih by (auto intro: less_trans)
  moreover have "\<forall>k s. om_get facts k = Some s \<longrightarrow> (s \<in> set (x # xs) \<and> fsel_fact s = k) \<or> om_get m k = Some s"
  proof (intro allI impI)
    fix k s assume "om_get facts k = Some s"
    with ih have "(s \<in> set xs \<and> fsel_fact s = k) \<or> om_get (om_put (fsel_fact x) x m) k = Some s" by blast
    then show "(s \<in> set (x # xs) \<and> fsel_fact s = k) \<or> om_get m k = Some s" by (auto split: if_splits)
  qed
  ultimately show ?case using ih x(1) by auto
qed simp

lemma index_selection_all:
  assumes "try_fold index_selection xs ([], None) = Inr (facts, q)"
  shows "sorted_wrt (<) (map fsel_fact xs)" "fst ` set facts = fsel_fact ` set xs"
    "\<And>s. s \<in> set xs \<Longrightarrow> binding_valid s"
    "\<And>k s. om_get facts k = Some s \<Longrightarrow> s \<in> set xs \<and> fsel_fact s = k"
    "\<And>k. om_get facts k \<noteq> None \<longleftrightarrow> k \<in> fsel_fact ` set xs"
proof -
  note inv = index_selection_fold [OF assms]
  from inv show "sorted_wrt (<) (map fsel_fact xs)" by simp
  from inv show keys: "fst ` set facts = fsel_fact ` set xs" by simp
  show "om_get facts k \<noteq> None \<longleftrightarrow> k \<in> fsel_fact ` set xs" for k
    unfolding keys [symmetric] by (simp add: map_of_eq_None_iff)
  show "s \<in> set xs \<Longrightarrow> binding_valid s" for s using inv by simp
  show "om_get facts k = Some s \<Longrightarrow> s \<in> set xs \<and> fsel_fact s = k" for k s using inv by simp
qed

text \<open>The bytes an origin charges, and what a supported origin satisfies.\<close>

definition origin_bytes :: "task_evidence_origin \<Rightarrow> nat" where
  "origin_bytes o' = (case eo_origin o' of
     WorkingTreeUnverified \<Rightarrow> 0
   | CapturedPrimarySource co \<Rightarrow> unat (cf_byte_len (cs_file (co_captured co))))"

definition origin_supported ::
  "task_basis_manifest \<Rightarrow> selection_limits \<Rightarrow> (task_fact_key, task_fact_selection) omap
     \<Rightarrow> task_evidence_origin \<Rightarrow> bool" where
  "origin_supported basis l facts o' \<longleftrightarrow>
     (\<exists>item sel. item \<in> set (tm_evidence basis) \<and> eb_id item = eo_evidence_id o' \<and>
        om_get facts (eo_fact o') = Some sel \<and>
        (eo_evidence_id o' \<in> set (tm_source_evidence_ids basis) \<longrightarrow>
           eo_fact o' \<in> {TfNode (tm_source_id basis), TfNode (tm_gap_id basis)}) \<and>
        (\<forall>c \<in> set (tm_candidates basis). eo_evidence_id o' \<in> set (cb_evidence_ids c) \<longrightarrow>
           eo_fact o' = TfNode (cb_node_id c)) \<and>
        (case eo_origin o' of
           WorkingTreeUnverified \<Rightarrow> fsel_binding sel = None
         | CapturedPrimarySource co \<Rightarrow>
             (\<exists>b. fsel_binding sel = Some b \<and> captured_matches l (eo_role o') co b item)))"

lemma scan_evidence_step:
  assumes "scan_evidence basis l facts o' st = Inr st'"
  shows "origin_supported basis l facts o'" "eo_evidence_id o' \<notin> set (bs_seen st)"
    "bs_seen st' = eo_evidence_id o' # bs_seen st" "bs_justified st' = eo_fact o' # bs_justified st"
    "bs_charged st' = bs_charged st + origin_bytes o'"
proof -
  from assms obtain item sel where
    f: "find (\<lambda>e. eb_id e = eo_evidence_id o') (tm_evidence basis) = Some item"
      "om_get facts (eo_fact o') = Some sel"
    by (auto simp: scan_evidence_def split: option.splits if_splits)
  have item: "item \<in> set (tm_evidence basis)" "eb_id item = eo_evidence_id o'"
    using f(1) by (auto simp: find_Some_iff)
  note body = assms [unfolded scan_evidence_def f option.case]
  show "eo_evidence_id o' \<notin> set (bs_seen st)" using body by (simp split: if_splits)
  show "bs_seen st' = eo_evidence_id o' # bs_seen st" "bs_justified st' = eo_fact o' # bs_justified st"
    "bs_charged st' = bs_charged st + origin_bytes o'"
    using body by (auto simp: Let_def origin_bytes_def checked_add64_def
        split: if_splits task_evidence_kind.splits option.splits)
  show "origin_supported basis l facts o'"
    unfolding origin_supported_def
    using body by (intro exI [of _ item] exI [of _ sel] conjI item f(2))
      (auto simp: Let_def list_ex_iff split: if_splits task_evidence_kind.splits option.splits)
qed

lemma scan_evidence_fold:
  assumes "try_fold (scan_evidence basis l facts) os st = Inr st'" and "distinct (bs_seen st)"
  shows "(\<forall>o' \<in> set os. origin_supported basis l facts o') \<and> distinct (map eo_evidence_id os) \<and>
     set (map eo_evidence_id os) \<inter> set (bs_seen st) = {} \<and>
     set (bs_justified st') = eo_fact ` set os \<union> set (bs_justified st) \<and>
     bs_charged st' = bs_charged st + sum_list (map origin_bytes os)"
  using assms
proof (induction os arbitrary: st)
  case (Cons o' os)
  then obtain mid where s: "scan_evidence basis l facts o' st = Inr mid"
    and rest: "try_fold (scan_evidence basis l facts) os mid = Inr st'"
    by (auto simp: rbind_eq_Inr)
  note step = scan_evidence_step [OF s]
  have "distinct (bs_seen mid)" using step Cons.prems(2) by simp
  from Cons.IH [OF rest this] step show ?case by auto
qed simp

lemma scan_omission_step:
  "scan_omission r facts om (p, j) = Inr st \<Longrightarrow> snd st = so_fact om # j"
  by (auto simp: scan_omission_def split: option.splits if_splits)

lemma scan_omission_fold:
  "try_fold (scan_omission r facts) oms (p, j) = Inr (p', j') \<Longrightarrow> set j' = so_fact ` set oms \<union> set j"
proof (induction oms arbitrary: p j)
  case (Cons om oms)
  then obtain mid where s: "scan_omission r facts om (p, j) = Inr mid"
    and rest: "try_fold (scan_omission r facts) oms mid = Inr (p', j')"
    by (auto simp: rbind_eq_Inr)
  from scan_omission_step [OF s] rest have "try_fold (scan_omission r facts) oms (fst mid, so_fact om # j) = Inr (p', j')"
    by (metis prod.collapse)
  from Cons.IH [OF this] show ?case by auto
qed simp

lemma extras_allowed_cases:
  assumes "extras_allowed basis facts j"
  obtains u where "{f \<in> fst ` set facts. f \<notin> set j} \<subseteq> {u}"
    and "\<And>f. f \<in> fst ` set facts \<Longrightarrow> f \<notin> set j \<Longrightarrow> \<exists>s d. f = TfEdge s (tm_edge_label basis) d"
proof -
  let ?ex = "filter (\<lambda>f. f \<notin> set j) (map fst facts)"
  have mem: "f \<in> fst ` set facts \<Longrightarrow> f \<notin> set j \<Longrightarrow> f \<in> set ?ex" for f by auto
  have "?ex = [] \<or> (\<exists>s d. ?ex = [TfEdge s (tm_edge_label basis) d])"
    using assms by (auto simp: extras_allowed_def split: list.splits task_fact_key.splits)
  then show thesis
  proof
    assume "?ex = []"
    with mem have "\<And>f. f \<in> fst ` set facts \<Longrightarrow> f \<notin> set j \<Longrightarrow> False" by simp
    then show thesis by (intro that [of undefined]) auto
  next
    assume "\<exists>s d. ?ex = [TfEdge s (tm_edge_label basis) d]"
    then obtain s d where "?ex = [TfEdge s (tm_edge_label basis) d]" by blast
    with mem have "\<And>f. f \<in> fst ` set facts \<Longrightarrow> f \<notin> set j \<Longrightarrow> f = TfEdge s (tm_edge_label basis) d" by simp
    then show thesis by (intro that [of "TfEdge s (tm_edge_label basis) d"]) auto
  qed
qed

section \<open>What a validated basis satisfies\<close>

lemma source_basis_ok:
  assumes "source_basis_validate H jb b basis = Inr ()"
  obtains facts where
    "report_consistent b basis" "stop_reason_consistent (tsb_selection b)"
    "sorted_wrt (<) (map fsel_fact (tsb_selected_facts b))"
    "\<forall>k s. om_get facts k = Some s \<longrightarrow> s \<in> set (tsb_selected_facts b) \<and> fsel_fact s = k"
    "insert (TfNode (tm_source_id basis)) (insert (TfNode (tm_gap_id basis))
       ((\<lambda>c. TfNode (cb_node_id c)) ` set (tm_candidates basis))) \<subseteq> fsel_fact ` set (tsb_selected_facts b)"
    "\<forall>o' \<in> set (tsb_evidence b). origin_supported basis (sr_limits (tsb_selection b)) facts o'"
    "distinct (map eo_evidence_id (tsb_evidence b))"
    "sum_list (map origin_bytes (tsb_evidence b)) = sr_captured_validation_bytes (tsb_selection b)"
    "\<exists>u. {f \<in> fsel_fact ` set (tsb_selected_facts b).
           f \<notin> eo_fact ` set (tsb_evidence b) \<union> so_fact ` set (sr_omissions (tsb_selection b))} \<subseteq> {u}"
    "\<forall>f \<in> fsel_fact ` set (tsb_selected_facts b).
       f \<notin> eo_fact ` set (tsb_evidence b) \<union> so_fact ` set (sr_omissions (tsb_selection b)) \<longrightarrow>
       (\<exists>s d. f = TfEdge s (tm_edge_label basis) d)"
proof -
  from assms obtain facts q scan p' j where
    r: "report_consistent b basis" "stop_reason_consistent (tsb_selection b)"
    and idx: "try_fold index_selection (tsb_selected_facts b) ([], None) = Inr (facts, q)"
    and mem: "om_get facts (TfNode (tm_source_id basis)) \<noteq> None" "om_get facts (TfNode (tm_gap_id basis)) \<noteq> None"
      "list_all (\<lambda>c. om_get facts (TfNode (cb_node_id c)) \<noteq> None) (tm_candidates basis)"
    and ev: "try_fold (scan_evidence basis (sr_limits (tsb_selection b)) facts) (tsb_evidence b)
               \<lparr>bs_seen = [], bs_justified = [], bs_charged = 0\<rparr> = Inr scan"
    and om: "try_fold (scan_omission (tsb_selection b) facts) (sr_omissions (tsb_selection b))
               (None, bs_justified scan) = Inr (p', j)"
    and ch: "bs_charged scan = sr_captured_validation_bytes (tsb_selection b)"
    and ex: "extras_allowed basis facts j"
    by (auto simp: source_basis_validate_def Let_def rbind_eq_Inr split: prod.splits)
  note i = index_selection_all [OF idx]
  note e = scan_evidence_fold [OF ev, simplified]
  have j: "set j = eo_fact ` set (tsb_evidence b) \<union> so_fact ` set (sr_omissions (tsb_selection b))"
    using scan_omission_fold [OF om] e by auto
  from extras_allowed_cases [OF ex] obtain u where
    u: "{f \<in> fst ` set facts. f \<notin> set j} \<subseteq> {u}"
      "\<And>f. f \<in> fst ` set facts \<Longrightarrow> f \<notin> set j \<Longrightarrow> \<exists>s d. f = TfEdge s (tm_edge_label basis) d" by blast
  show thesis
  proof (rule that [of facts])
    show "insert (TfNode (tm_source_id basis)) (insert (TfNode (tm_gap_id basis))
       ((\<lambda>c. TfNode (cb_node_id c)) ` set (tm_candidates basis))) \<subseteq> fsel_fact ` set (tsb_selected_facts b)"
      using mem i(5) by (auto simp: list_all_iff)
    show "\<exists>u. {f \<in> fsel_fact ` set (tsb_selected_facts b).
           f \<notin> eo_fact ` set (tsb_evidence b) \<union> so_fact ` set (sr_omissions (tsb_selection b))} \<subseteq> {u}"
      using u(1) unfolding i(2) j by (rule exI)
    show "\<forall>f \<in> fsel_fact ` set (tsb_selected_facts b).
       f \<notin> eo_fact ` set (tsb_evidence b) \<union> so_fact ` set (sr_omissions (tsb_selection b)) \<longrightarrow>
       (\<exists>s d. f = TfEdge s (tm_edge_label basis) d)"
      using u(2) unfolding i(2) j by blast
  qed (use r i(1,4) e ch in auto)
qed

section \<open>Prepared tasks\<close>

lemma set_eq_of_distinct_length:
  assumes "distinct xs" "length xs = length ys" "set xs \<subseteq> set ys"
  shows "set xs = set ys"
proof (rule card_subset_eq [OF _ assms(3)])
  have "card (set ys) \<le> card (set xs)" using card_length [of ys] assms(1,2) by (simp add: distinct_card)
  then show "card (set xs) = card (set ys)" using card_mono [OF _ assms(3)] by simp
qed simp

text \<open>A captured origin is the range the span cites, byte for byte.\<close>

lemma captured_matches_range:
  assumes "captured_matches l role co b item"
  shows "sa_receipt_id b = co_receipt_id co \<and> sa_repo_key b = ev_repo (eb_source item) \<and>
     cf_path (cs_file (co_captured co)) = ev_path (eb_source item) \<and>
     unat (ev_byte_end (eb_source item)) = unat (ev_byte_start (eb_source item)) + eb_text_bytes item \<and>
     unat (ev_byte_end (eb_source item)) \<le> unat (cf_byte_len (cs_file (co_captured co)))"
proof -
  have *: "unat (ev_byte_end (eb_source item) - ev_byte_start (eb_source item)) = eb_text_bytes item"
    "ev_byte_start (eb_source item) < ev_byte_end (eb_source item)"
    "ev_byte_end (eb_source item) \<le> cf_byte_len (cs_file (co_captured co))"
    "sa_receipt_id b = co_receipt_id co \<and> sa_repo_key b = ev_repo (eb_source item) \<and>
     cf_path (cs_file (co_captured co)) = ev_path (eb_source item)"
    using assms by (auto simp: captured_matches_def Let_def)
  from *(2) have "unat (ev_byte_end (eb_source item) - ev_byte_start (eb_source item)) =
      unat (ev_byte_end (eb_source item)) - unat (ev_byte_start (eb_source item))"
    "unat (ev_byte_start (eb_source item)) < unat (ev_byte_end (eb_source item))"
    using unat_sub [OF order.strict_implies_order [OF *(2)]] by (simp_all add: word_less_nat_alt)
  with * show ?thesis by (simp add: word_le_nat_alt)
qed

lemma prepared_new_ok:
  assumes "prepared_new H jb t sb = Inr p"
  shows "p = \<lparr>pt_task = t, pt_source_basis = sb\<rparr>" "validate_task broker_limits_default t = Inr ()"
    "source_basis_validate H jb sb (task_manifest H t 2) = Inr ()"
  using assms by (auto simp: prepared_new_def rbind_eq_Inr)

text \<open>
  What an origin of a prepared task says: it names a supplied span and a selected fact; an unverified
  read is claimed only for a fact with no recorded capture; a captured read carries the receipt the
  fact is bound to, and its file, path and byte range are those of the span, whose text has exactly
  that many bytes.
\<close>

definition origin_faithful :: "agent_task \<Rightarrow> task_source_basis \<Rightarrow> task_evidence_origin \<Rightarrow> bool" where
  "origin_faithful t sb o' \<longleftrightarrow>
     (\<exists>e \<in> set (at_evidence t). \<exists>s \<in> set (tsb_selected_facts sb).
        ae_id e = eo_evidence_id o' \<and> fsel_fact s = eo_fact o' \<and>
        (case eo_origin o' of
           WorkingTreeUnverified \<Rightarrow> fsel_binding s = None
         | CapturedPrimarySource co \<Rightarrow>
             (\<exists>b. fsel_binding s = Some b \<and> sa_receipt_id b = co_receipt_id co \<and>
                sa_repo_key b = ev_repo (ae_source e) \<and>
                cf_path (cs_file (co_captured co)) = ev_path (ae_source e) \<and>
                unat (ev_byte_end (ae_source e)) = unat (ev_byte_start (ae_source e)) + length (ae_text e) \<and>
                unat (ev_byte_end (ae_source e)) \<le> unat (cf_byte_len (cs_file (co_captured co))))))"

lemma faithful_names_span:
  assumes "origin_faithful t sb o'"
  shows "eo_evidence_id o' \<in> ae_id ` set (at_evidence t)"
proof -
  from assms obtain e where "e \<in> set (at_evidence t)" "ae_id e = eo_evidence_id o'"
    unfolding origin_faithful_def by (elim bexE conjE)
  then show ?thesis by (metis imageI)
qed

lemma supported_is_faithful:
  assumes sup: "origin_supported (task_manifest H t 2) l facts o'"
    and mem: "\<And>k s. om_get facts k = Some s \<Longrightarrow> s \<in> set (tsb_selected_facts sb) \<and> fsel_fact s = k"
  shows "origin_faithful t sb o'"
proof -
  from sup obtain item sel where item: "item \<in> set (tm_evidence (task_manifest H t 2))" "eb_id item = eo_evidence_id o'"
    and sel: "om_get facts (eo_fact o') = Some sel"
    and kind: "case eo_origin o' of
           WorkingTreeUnverified \<Rightarrow> fsel_binding sel = None
         | CapturedPrimarySource co \<Rightarrow>
             (\<exists>b. fsel_binding sel = Some b \<and> captured_matches l (eo_role o') co b item)"
    by (auto simp: origin_supported_def)
  from item obtain e where e: "e \<in> set (at_evidence t)" "ae_id e = eo_evidence_id o'"
    "eb_source item = ae_source e" "eb_text_bytes item = length (ae_text e)"
    by (auto simp: task_manifest_def)
  show ?thesis
    unfolding origin_faithful_def
  proof (intro bexI [OF _ e(1)] bexI [of _ sel] conjI e(2))
    show "sel \<in> set (tsb_selected_facts sb)" "fsel_fact sel = eo_fact o'" using mem [OF sel] by simp_all
  qed (use kind e(3,4) in \<open>auto split: task_evidence_kind.splits dest!: captured_matches_range\<close>)
qed

text \<open>
  C37: what a prepared task says about its sources. When a task is prepared, it passes the broker's
  own validation; every supplied span has exactly one recorded origin and no origin is recorded for
  anything else; each origin is faithful to its span and to the capture its fact is bound to; the
  selected facts are strictly sorted and contain the source, the Gap and every candidate; at most one
  selected fact has neither evidence nor a recorded omission, and that one is an edge of the task's
  relation; and the report adds up, with reads plus omissions equal to the attempts, at most 64, and
  the captured bytes equal to the files' sizes and at most 128 MiB.
\<close>

theorem prepared_task_accounts_for_sources:
  assumes "prepared_new H jb t sb = Inr p"
  shows "p = \<lparr>pt_task = t, pt_source_basis = sb\<rparr> \<and> task_within broker_limits_default t \<and>
     distinct (map eo_evidence_id (tsb_evidence sb)) \<and>
     set (map eo_evidence_id (tsb_evidence sb)) = set (map ae_id (at_evidence t)) \<and>
     (\<forall>o' \<in> set (tsb_evidence sb). origin_faithful t sb o') \<and>
     sorted_wrt (<) (map fsel_fact (tsb_selected_facts sb)) \<and>
     {TfNode (at_source_id t), TfNode (at_gap_id t)} \<union> TfNode ` ca_node_id ` set (at_candidates t)
       \<subseteq> fsel_fact ` set (tsb_selected_facts sb) \<and>
     (\<exists>u. \<forall>s \<in> set (tsb_selected_facts sb).
        fsel_fact s \<in> eo_fact ` set (tsb_evidence sb) \<union> so_fact ` set (sr_omissions (tsb_selection sb)) \<or>
        fsel_fact s = u \<and> (\<exists>a b. u = TfEdge a (at_edge_label t) b)) \<and>
     length (tsb_evidence sb) + length (sr_omissions (tsb_selection sb)) =
       sr_acquisition_attempts (tsb_selection sb) \<and> sr_acquisition_attempts (tsb_selection sb) \<le> 64 \<and>
     sum_list (map origin_bytes (tsb_evidence sb)) = sr_captured_validation_bytes (tsb_selection sb) \<and>
     sr_captured_validation_bytes (tsb_selection sb) \<le> 128 * 1024 * 1024"
proof -
  note p = prepared_new_ok [OF assms]
  let ?m = "task_manifest H t 2"
  have mt: "tm_source_id ?m = at_source_id t" "tm_gap_id ?m = at_gap_id t" "tm_edge_label ?m = at_edge_label t"
    "cb_node_id ` set (tm_candidates ?m) = ca_node_id ` set (at_candidates t)"
    "length (tm_evidence ?m) = length (at_evidence t)"
    by (simp_all add: task_manifest_def image_image)
  obtain facts where b:
    "report_consistent sb ?m" "stop_reason_consistent (tsb_selection sb)" "sorted_wrt (<) (map fsel_fact (tsb_selected_facts sb))"
    "\<forall>k s. om_get facts k = Some s \<longrightarrow> s \<in> set (tsb_selected_facts sb) \<and> fsel_fact s = k"
    "insert (TfNode (tm_source_id ?m)) (insert (TfNode (tm_gap_id ?m))
       ((\<lambda>c. TfNode (cb_node_id c)) ` set (tm_candidates ?m))) \<subseteq> fsel_fact ` set (tsb_selected_facts sb)"
    "\<forall>o' \<in> set (tsb_evidence sb). origin_supported ?m (sr_limits (tsb_selection sb)) facts o'"
    "distinct (map eo_evidence_id (tsb_evidence sb))"
    "sum_list (map origin_bytes (tsb_evidence sb)) = sr_captured_validation_bytes (tsb_selection sb)"
    "\<exists>u. {f \<in> fsel_fact ` set (tsb_selected_facts sb).
           f \<notin> eo_fact ` set (tsb_evidence sb) \<union> so_fact ` set (sr_omissions (tsb_selection sb))} \<subseteq> {u}"
    "\<forall>f \<in> fsel_fact ` set (tsb_selected_facts sb).
       f \<notin> eo_fact ` set (tsb_evidence sb) \<union> so_fact ` set (sr_omissions (tsb_selection sb)) \<longrightarrow>
       (\<exists>s d. f = TfEdge s (tm_edge_label ?m) d)"
    by (rule source_basis_ok [OF p(3)])
  have faithful: "\<And>o'. o' \<in> set (tsb_evidence sb) \<Longrightarrow> origin_faithful t sb o'"
    using supported_is_faithful [OF bspec [OF b(6)]] b(4) by blast
  from faithful_names_span [OF this] have "set (map eo_evidence_id (tsb_evidence sb)) \<subseteq> set (map ae_id (at_evidence t))"
    by auto
  moreover have "length (tsb_evidence sb) = length (at_evidence t)"
    using b(1) by (simp add: report_consistent_def Let_def mt)
  ultimately have ids: "set (map eo_evidence_id (tsb_evidence sb)) = set (map ae_id (at_evidence t))"
    using b(7) by (intro set_eq_of_distinct_length) simp_all
  have members: "{TfNode (at_source_id t), TfNode (at_gap_id t)} \<union> TfNode ` ca_node_id ` set (at_candidates t)
       \<subseteq> fsel_fact ` set (tsb_selected_facts sb)"
    using b(5) unfolding mt(1-2) by (simp add: image_image [symmetric, of TfNode cb_node_id] mt(4))
  from b(9) obtain u where u: "{f \<in> fsel_fact ` set (tsb_selected_facts sb).
           f \<notin> eo_fact ` set (tsb_evidence sb) \<union> so_fact ` set (sr_omissions (tsb_selection sb))} \<subseteq> {u}" ..
  have extra: "\<forall>s \<in> set (tsb_selected_facts sb).
        fsel_fact s \<in> eo_fact ` set (tsb_evidence sb) \<union> so_fact ` set (sr_omissions (tsb_selection sb)) \<or>
        fsel_fact s = u \<and> (\<exists>a b. u = TfEdge a (at_edge_label t) b)"
  proof
    fix s assume s: "s \<in> set (tsb_selected_facts sb)"
    show "fsel_fact s \<in> eo_fact ` set (tsb_evidence sb) \<union> so_fact ` set (sr_omissions (tsb_selection sb)) \<or>
        fsel_fact s = u \<and> (\<exists>a b. u = TfEdge a (at_edge_label t) b)"
    proof (rule disjCI)
      assume "\<not> (fsel_fact s = u \<and> (\<exists>a b. u = TfEdge a (at_edge_label t) b))"
      then show "fsel_fact s \<in> eo_fact ` set (tsb_evidence sb) \<union> so_fact ` set (sr_omissions (tsb_selection sb))"
        using u bspec [OF b(10), of "fsel_fact s"] s unfolding mt(3) by auto
    qed
  qed
  have report: "length (tsb_evidence sb) + length (sr_omissions (tsb_selection sb)) =
       sr_acquisition_attempts (tsb_selection sb)" "sr_acquisition_attempts (tsb_selection sb) \<le> 64"
    "sr_captured_validation_bytes (tsb_selection sb) \<le> 128 * 1024 * 1024"
    using b(1) by (auto simp: report_consistent_def Let_def selection_limits_default_def
        MAX_CAPTURED_VALIDATION_BYTES_def)
  from extra have "\<exists>u. \<forall>s \<in> set (tsb_selected_facts sb).
        fsel_fact s \<in> eo_fact ` set (tsb_evidence sb) \<union> so_fact ` set (sr_omissions (tsb_selection sb)) \<or>
        fsel_fact s = u \<and> (\<exists>a b. u = TfEdge a (at_edge_label t) b)" by (rule exI)
  then show ?thesis
    by (intro conjI p(1) validate_task_within [OF p(2)] b(3,7,8) ids ballI faithful members report)
qed

text \<open>A prepared task with one captured span, one unverified span and one recorded omission.\<close>

definition demo_hex :: string where "demo_hex = replicate 64 (CHR ''a'')"

definition demo_receipt :: string where "demo_receipt = ''ts-primary-v2:'' @ demo_hex"
definition demo_capture :: string where "demo_capture = ''capture-v1:'' @ demo_hex"
definition demo_digest :: string where "demo_digest = ''node-v1:'' @ demo_hex"
definition demo_graph :: string where "demo_graph = ''context-v1:'' @ demo_hex"

definition demo_origins :: "task_evidence_origin list" where
  "demo_origins =
     [\<lparr>eo_evidence_id = ''x'', eo_fact = TfNode ''s'', eo_role = RoleProvenance, eo_index = 0,
       eo_origin = CapturedPrimarySource
         \<lparr>co_source_id = ''r'', co_receipt_id = demo_receipt, co_inventory_index = 0,
          co_captured = \<lparr>cs_file = \<lparr>cf_source_id = ''r'', cf_capture_id = demo_capture, cf_path = ''p'',
             cf_digest = demo_hex, cf_byte_len = 9\<rparr>, cs_byte_start = 0, cs_byte_end = 1\<rparr>,
          co_scope = PrimarySourceOnly, co_input_closure = InputClosureNotEstablished\<rparr>\<rparr>,
      \<lparr>eo_evidence_id = ''y'', eo_fact = TfNode ''n'', eo_role = RoleProvenance, eo_index = 0,
       eo_origin = WorkingTreeUnverified\<rparr>]"

definition demo_selected :: "task_fact_selection list" where
  "demo_selected =
     [\<lparr>fsel_fact = TfNode ''g'', fsel_digest = demo_digest, fsel_binding = None\<rparr>,
      \<lparr>fsel_fact = TfNode ''n'', fsel_digest = demo_digest, fsel_binding = None\<rparr>,
      \<lparr>fsel_fact = TfNode ''s'', fsel_digest = demo_digest,
       fsel_binding = Some \<lparr>sa_repo_key = ''r'', sa_receipt_id = demo_receipt,
         sa_digest = demo_digest\<rparr>\<rparr>]"

definition demo_basis :: task_source_basis where
  "demo_basis =
     \<lparr>tsb_schema_version = 2, tsb_graph_snapshot_id = demo_graph,
      tsb_selected_facts = demo_selected, tsb_evidence = demo_origins,
      tsb_selection = \<lparr>sr_metadata_lookahead = 3, sr_acquisition_attempts = 3, sr_supplied_evidence = 2,
        sr_supplied_candidates = 1, sr_captured_validation_bytes = 9, sr_limits = selection_limits_default,
        sr_omissions = [\<lparr>so_request_index = 2, so_fact = TfNode ''g'', so_reason = MissingCitation\<rparr>],
        sr_preselected_not_read = 0, sr_unread_tail = False, sr_stop_reason = NeighborhoodExhausted\<rparr>\<rparr>"

definition demo_span_task :: agent_task where
  "demo_span_task = demo_task\<lparr>at_evidence :=
     [\<lparr>ae_id = ''x'', ae_source = demo_ref, ae_text = ''f''\<rparr>, \<lparr>ae_id = ''y'', ae_source = demo_ref, ae_text = ''g()''\<rparr>]\<rparr>"

lemma demo_hash [simp]: "is_hash demo_hex"
  by (simp add: is_hash_def demo_hex_def hex_byte_def list_all_iff)

lemma demo_prefixed [simp]: "prefixed (pre @ demo_hex) pre"
proof -
  have "strip_prefix pre (pre @ demo_hex) = Some demo_hex" by simp
  then show ?thesis by (simp only: prefixed_def option.case demo_hash)
qed

lemma demo_hashes [simp]:
  "prefixed demo_receipt ''ts-primary-v2:''" "prefixed demo_capture ''capture-v1:''"
  "prefixed demo_digest ''node-v1:''" "prefixed demo_graph ''context-v1:''"
  by (simp_all only: demo_receipt_def demo_capture_def demo_digest_def demo_graph_def demo_prefixed)

lemma demo_text [simp]:
  "text_ok ''a'' n \<longleftrightarrow> 1 \<le> n" "text_ok ''g'' n \<longleftrightarrow> 1 \<le> n" "text_ok ''s'' n \<longleftrightarrow> 1 \<le> n" "text_ok ''x'' n \<longleftrightarrow> 1 \<le> n"
  "text_ok ''y'' n \<longleftrightarrow> 1 \<le> n" "text_ok ''n'' n \<longleftrightarrow> 1 \<le> n" "text_ok ''r'' n \<longleftrightarrow> 1 \<le> n" "text_ok ''p'' n \<longleftrightarrow> 1 \<le> n"
  "text_ok ''c'' n \<longleftrightarrow> 1 \<le> n" "text_ok ''CALLS'' 256" "text_ok ''Symbol'' 256"
  by (simp_all add: text_ok_def trim_def trim_start_def trim_end_def strip_seqs.simps ws_seqs_def starts_with_def)

lemma demo_basis_index:
  "try_fold index_selection demo_selected ([], None) =
     Inr (map (\<lambda>s. (fsel_fact s, s)) demo_selected, Some (TfNode ''s''))"
  by (simp add: demo_selected_def index_selection_def fact_valid_def digest_valid_def is_receipt_def
      binding_valid_def less_eq_task_fact_key_def less_task_fact_key_def task_fact_rank_def)

lemma demo_scan:
  "try_fold (scan_evidence (task_manifest (\<lambda>x. x) demo_span_task 2) selection_limits_default
       (map (\<lambda>s. (fsel_fact s, s)) demo_selected)) demo_origins \<lparr>bs_seen = [], bs_justified = [], bs_charged = 0\<rparr> =
     Inr \<lparr>bs_seen = [''y'', ''x''], bs_justified = [TfNode ''n'', TfNode ''s''], bs_charged = 9\<rparr>"
  by (simp add: demo_origins_def scan_evidence_def task_manifest_def demo_span_task_def demo_task_def demo_selected_def
      captured_matches_def demo_ref_def Let_def valid_path_def starts_with_def checked_add64_def definition_roles_def
      selection_limits_default_def)

lemma demo_basis_valid:
  "source_basis_validate (\<lambda>x. x) (\<lambda>_. []) demo_basis (task_manifest (\<lambda>x. x) demo_span_task 2) = Inr ()"
proof -
  have "report_consistent demo_basis (task_manifest (\<lambda>x. x) demo_span_task 2)"
    by (simp add: report_consistent_def demo_basis_def task_manifest_def demo_span_task_def demo_task_def Let_def
        selection_limits_default_def MAX_CAPTURED_VALIDATION_BYTES_def demo_selected_def demo_origins_def)
  then show ?thesis
    using demo_basis_index demo_scan
    by (simp add: source_basis_validate_def Let_def stop_reason_consistent_def basis_fingerprint_def bounded_json_def
        demo_basis_def demo_selected_def task_manifest_def demo_span_task_def demo_task_def scan_omission_def
        extras_allowed_def require_def)
qed

lemma demo_prepared:
  "prepared_new (\<lambda>x. x) (\<lambda>_. []) demo_span_task demo_basis =
     Inr \<lparr>pt_task = demo_span_task, pt_source_basis = demo_basis\<rparr>"
proof -
  have u: "is_ok (unique_nonempty [''x''])" "is_ok (unique_nonempty [''y''])"
    by (simp_all add: unique_nonempty_def trim_single insort_insert_key_def)
  have "validate_task broker_limits_default demo_span_task = Inr ()"
    by (simp add: validate_task_def demo_span_task_def demo_task_def broker_limits_default_def trim_single demo_unique)
  moreover have "validate_manifest_metadata (task_manifest (\<lambda>x. x) demo_span_task 2) = Inr ()"
    using u by (simp add: validate_manifest_metadata_def require_def task_manifest_def demo_span_task_def demo_task_def
        identity_metadata_def membership_metadata_def evidence_metadata_def candidate_metadata_def demo_ref_def)
  ultimately show ?thesis
    using u by (simp add: prepared_new_def demo_basis_valid require_def validate_summary_bound_def)
      (simp add: demo_span_task_def demo_task_def
        identity_metadata_def membership_metadata_def evidence_metadata_def candidate_metadata_def demo_ref_def)
qed

theorem prepared_task_accounts_for_sources_witness:
  "prepared_new (\<lambda>x. x) (\<lambda>_. []) demo_span_task demo_basis =
     Inr \<lparr>pt_task = demo_span_task, pt_source_basis = demo_basis\<rparr> \<and>
   sum_list (map origin_bytes (tsb_evidence demo_basis)) = sr_captured_validation_bytes (tsb_selection demo_basis) \<and>
   set (map eo_evidence_id (tsb_evidence demo_basis)) = set (map ae_id (at_evidence demo_span_task))"
  using prepared_task_accounts_for_sources [OF demo_prepared] demo_prepared by (elim conjE, intro conjI)

end
