(* ===== verification/Investigation_Props.thy ===== *)
theory Investigation_Props
  imports Investigation Source_Basis_Props "HOL-Library.Sublist"
begin

text \<open>
  Properties of the investigation protocol: what the replay check excludes, what an admitted answer
  is, and that the shape check bounds what is ever decoded.
\<close>

section \<open>Replay\<close>

lemma inv_require_ok [simp, result_simps]: "inv_require e b = Inr u \<longleftrightarrow> b"
  by (simp add: inv_require_def)

lemma mem_windows: "w \<in> set (windows n xs) \<longleftrightarrow> sublist w xs \<and> length w = n"
proof
  assume "w \<in> set (windows n xs)"
  then obtain i where i: "i < length xs + 1 - n" "w = take n (drop i xs)" by (auto simp: windows_def)
  have "xs = take i xs @ w @ drop n (drop i xs)" by (simp add: i(2) del: drop_drop)
  then have "sublist w xs" by (metis sublist_appendI)
  then show "sublist w xs \<and> length w = n" using i by simp
next
  assume w: "sublist w xs \<and> length w = n"
  then obtain a b where xs: "xs = a @ w @ b" by (auto simp: sublist_def)
  with w have "length a < length xs + 1 - n" "take n (drop (length a) xs) = w" by auto
  then show "w \<in> set (windows n xs)" unfolding windows_def by force
qed

text \<open>A run shared by an output and a supplied item, both stripped of whitespace.\<close>

definition shared_run :: "string \<Rightarrow> string \<Rightarrow> string list \<Rightarrow> bool" where
  "shared_run out item w \<longleftrightarrow> w \<noteq> [] \<and> sublist w (normalize_chars out) \<and> sublist w (normalize_chars item)"

lemma not_repeats_run:
  assumes "\<not> repeats short (normalize_chars out) (normalize_chars item)" and "shared_run out item w"
  shows "length w < REPLAY_WINDOW" "short \<Longrightarrow> w \<noteq> normalize_chars item"
proof -
  let ?o = "normalize_chars out" and ?s = "normalize_chars item"
  have w: "w \<noteq> []" "sublist w ?o" "sublist w ?s" using assms(2) by (simp_all add: shared_run_def)
  have len: "length w \<le> length ?s" using w(3) by (rule sublist_length_le)
  show long: "length w < REPLAY_WINDOW"
  proof (rule ccontr)
    assume "\<not> length w < REPLAY_WINDOW"
    then have n: "REPLAY_WINDOW \<le> length w" by simp
    let ?v = "take REPLAY_WINDOW w"
    have v: "sublist ?v w" by (rule prefix_imp_sublist) (simp add: take_is_prefix)
    have "?v \<in> set (windows REPLAY_WINDOW ?o)" "?v \<in> set (windows REPLAY_WINDOW ?s)"
      using v w(2,3) n by (auto simp: mem_windows intro: sublist_order.order_trans)
    moreover have "?s \<noteq> []" "\<not> length ?s < REPLAY_WINDOW" using n len w(1) by (auto simp: REPLAY_WINDOW_def)
    ultimately have "repeats short ?o ?s" by (auto simp: repeats_def list_ex_iff)
    with assms(1) show False by simp
  qed
  show "w \<noteq> ?s" if short
  proof
    assume "w = ?s"
    with w long that have "repeats short ?o ?s" by (auto simp: repeats_def mem_windows)
    with assms(1) show False by simp
  qed
qed

lemma join_prose_ok:
  "join_prose pats ps joined = Inr out \<Longrightarrow>
     out = joined @ concat ps \<and> (\<forall>p \<in> set ps. snd (redact_text pats p) = 0)"
  by (induction pats ps joined rule: join_prose.induct) (auto split: if_splits)

lemma scan_supplied_ok:
  "scan_supplied pats short out items n k = Inr u \<Longrightarrow> item \<in> set items \<Longrightarrow>
     \<not> repeats short out (normalize_chars item)"
  by (induction pats short out items n k rule: scan_supplied.induct) (auto split: if_splits option.splits)

lemma reject_replay_ok:
  assumes "reject_replay pats prose supplied short = Inr u"
  shows "\<forall>p \<in> set prose. snd (redact_text pats p) = 0"
    and "item \<in> set supplied \<Longrightarrow> shared_run (concat prose) item w \<Longrightarrow> length w < 48 \<and> (short \<longrightarrow> w \<noteq> normalize_chars item)"
proof -
  from assms obtain out where j: "join_prose pats prose [] = Inr out"
    and s: "scan_supplied pats short (normalize_chars out) supplied 0 0 = Inr u"
    by (auto simp: reject_replay_def rbind_eq_Inr)
  note j' = join_prose_ok [OF j]
  then show "\<forall>p \<in> set prose. snd (redact_text pats p) = 0" by blast
  assume it: "item \<in> set supplied" and run: "shared_run (concat prose) item w"
  from j' have "out = concat prose" by simp
  with not_repeats_run [OF scan_supplied_ok [OF s it] run [folded \<open>out = concat prose\<close>]]
  show "length w < 48 \<and> (short \<longrightarrow> w \<noteq> normalize_chars item)" by (simp add: REPLAY_WINDOW_def)
qed

section \<open>Answers\<close>

lemma bounded_bytes_ok [result_simps]: "bounded_bytes b n = Inr x \<longleftrightarrow> x = b \<and> length b \<le> n"
  by (auto simp: bounded_bytes_def bounded_json_def)

lemma admit_finish_ok:
  assumes "admit_finish pats enc a admitted supplied = Inr out"
  obtains findings completeness limitations where "a = ActFinish findings completeness limitations"
    "length findings \<le> 12" "(findings = []) = (completeness = InsufficientEvidence)"
    "\<forall>f \<in> set findings. finding_shape f \<and> set (pf_citation_ids f) \<subseteq> set admitted"
    "reject_prose_replay pats (answer_prose findings limitations) supplied = Inr ()"
    "out = map admit_finding (enumerate 0 findings)"
proof (cases a)
  case (ActFinish findings completeness limitations)
  show ?thesis
    using assms ActFinish
    by (intro that [of findings completeness limitations])
      (auto simp: admit_finish_def validate_shape_def Let_def list_all_iff result_simps)
qed (use assms in \<open>auto simp: admit_finish_def rbind_eq_Inr\<close>)

lemma result_admit_ok:
  assumes "result_admit H pats cdc inv_id l a supplied model created = Inr r"
  obtains findings completeness limitations where "a = ActFinish findings completeness limitations"
    "admit_finish pats (cdc_findings cdc) a (map ic_citation_id (il_citations l)) supplied = Inr (ir_findings r)"
    "reject_prose_replay pats (answer_prose findings limitations @ (case model of None \<Rightarrow> [] | Some m \<Rightarrow> [m])) supplied = Inr ()"
    "result_validate H pats cdc r l = Inr ()"
    "ir_investigation_id r = inv_id" "ir_observed_model r = model" "ir_limitations r = limitations"
    "ir_completeness r = completeness"
proof (cases a)
  case (ActFinish findings completeness limitations)
  show ?thesis
    using assms ActFinish
    by (intro that [of findings completeness limitations]) (auto simp: result_admit_def Let_def result_simps)
qed (use assms in \<open>auto simp: result_admit_def rbind_eq_Inr\<close>)

lemma unstamp_admit [simp]: "unstamp (admit_finding p) = snd p"
  by (cases p) (simp add: admit_finding_def unstamp_def)

lemma stamped_findings:
  fixes findings :: "proposed_finding list"
  defines "out \<equiv> map admit_finding (enumerate 0 findings)"
  shows "map fi_id out = map finding_id_at [0 ..< length findings]"
    and "\<forall>f \<in> set out. fi_tier f = Agentic \<and> fi_confidence f = InferredWeak"
  by (auto simp: out_def admit_finding_def unstamp_def enumerate_eq_zip o_def split_beta in_set_zip intro!: nth_equalityI)

text \<open>
  C38: what an admitted investigation answer is. When an answer is admitted, it is a finish action of
  the model, at most twelve findings numbered in order, none exactly when evidence was insufficient;
  every finding is stamped Agentic and InferredWeak, whatever the model wrote, and cites one to eight
  distinct citations of the ledger the step was given; the stored result validates against that
  ledger; no piece of its prose, nor the reported model name, holds a recognised secret; and of the
  text the model was given, ignoring whitespace, no run of 48 characters and no complete source or
  history item is repeated in the prose.
\<close>

theorem admitted_result_is_bounded:
  assumes "admit_result H pats cdc i inv_id a model created = Inr r"
  shows "\<exists>findings completeness limitations. a = ActFinish findings completeness limitations \<and>
     result_validate H pats cdc r (in_ledger i) = Inr () \<and>
     ir_investigation_id r = inv_id \<and> ir_observed_model r = model \<and>
     map unstamp (ir_findings r) = findings \<and> ir_completeness r = completeness \<and> ir_limitations r = limitations \<and>
     length (ir_findings r) \<le> 12 \<and> (ir_findings r = [] \<longleftrightarrow> ir_completeness r = InsufficientEvidence) \<and>
     map fi_id (ir_findings r) = map finding_id_at [0 ..< length (ir_findings r)] \<and>
     (\<forall>f \<in> set (ir_findings r). fi_tier f = Agentic \<and> fi_confidence f = InferredWeak \<and>
        distinct (fi_citation_ids f) \<and> length (fi_citation_ids f) \<in> {1..8} \<and>
        set (fi_citation_ids f) \<subseteq> ic_citation_id ` set (il_citations (in_ledger i))) \<and>
     (let prose = answer_prose findings limitations @ (case model of None \<Rightarrow> [] | Some m \<Rightarrow> [m]) in
      (\<forall>p \<in> set prose. snd (redact_text pats p) = 0) \<and>
      (\<forall>item \<in> set (in_supplied_strings i). \<forall>w.
         shared_run (concat prose) item w \<longrightarrow> length w < 48 \<and> w \<noteq> normalize_chars item) \<and>
      (\<forall>item \<in> set (in_graph_strings i). \<forall>w. shared_run (concat prose) item w \<longrightarrow> length w < 48))"
proof -
  from assms obtain findings completeness limitations where a: "a = ActFinish findings completeness limitations"
    and meta: "reject_metadata_replay pats (answer_prose findings limitations @
        (case model of None \<Rightarrow> [] | Some m \<Rightarrow> [m])) (in_graph_strings i) = Inr ()"
    and adm: "result_admit H pats cdc inv_id (in_ledger i) a (in_supplied_strings i) model created = Inr r"
    by (auto simp: admit_result_def rbind_eq_Inr split: inv_action.splits)
  let ?prose = "answer_prose findings limitations @ (case model of None \<Rightarrow> [] | Some m \<Rightarrow> [m])"
  obtain fs where r: "admit_finish pats (cdc_findings cdc) a (map ic_citation_id (il_citations (in_ledger i)))
        (in_supplied_strings i) = Inr (ir_findings r)"
    and pr: "reject_prose_replay pats ?prose (in_supplied_strings i) = Inr ()"
    and rest: "result_validate H pats cdc r (in_ledger i) = Inr ()" "ir_investigation_id r = inv_id"
      "ir_observed_model r = model" "ir_limitations r = limitations" "ir_completeness r = completeness"
    using a by (auto intro: result_admit_ok [OF adm])
  have f: "length findings \<le> 12" "(findings = []) = (completeness = InsufficientEvidence)"
    "\<forall>f \<in> set findings. finding_shape f \<and> set (pf_citation_ids f) \<subseteq> ic_citation_id ` set (il_citations (in_ledger i))"
    "ir_findings r = map admit_finding (enumerate 0 findings)"
    using a by - (rule admit_finish_ok [OF r]; auto)+
  note st = stamped_findings [of findings, folded f(4)]
  have un: "map unstamp (ir_findings r) = findings"
    unfolding f(4) map_map o_def by simp
  have cites: "distinct (fi_citation_ids g) \<and> length (fi_citation_ids g) \<in> {1..8} \<and>
        set (fi_citation_ids g) \<subseteq> ic_citation_id ` set (il_citations (in_ledger i))" if "g \<in> set (ir_findings r)" for g
  proof -
    have "unstamp g \<in> set findings" using un that by (metis imageI set_map)
    from bspec [OF f(3) this] have "finding_shape (unstamp g)"
      "set (pf_citation_ids (unstamp g)) \<subseteq> ic_citation_id ` set (il_citations (in_ledger i))" by simp_all
    then show ?thesis
      by (auto simp: finding_shape_def unstamp_def Suc_le_eq intro: card_distinct)
  qed
  have len: "length (ir_findings r) = length findings" by (simp add: f(4))
  note replay = reject_replay_ok [OF pr [unfolded reject_prose_replay_def]]
    reject_replay_ok(2) [OF meta [unfolded reject_metadata_replay_def]]
  show ?thesis
    unfolding Let_def
    by (intro exI [of _ findings] exI [of _ completeness] exI [of _ limitations] conjI ballI)
      (use a rest un len f(1,2) st cites replay in auto)
qed

text \<open>An answer over a ledger of one graph fact, one query and one citation.\<close>

definition demo_ledger :: inv_ledger where
  "demo_ledger =
     \<lparr>il_schema_version = 1, il_graph_snapshot_id = demo_graph, il_scope_snapshot_id = demo_graph, il_revision = 1,
      il_selected_facts = [\<lparr>fsel_fact = TfNode ''n'', fsel_digest = demo_digest, fsel_binding = None\<rparr>],
      il_receipt_references = [],
      il_citations = [\<lparr>ic_citation_id = ''c1'', ic_fact = TfNode ''n'', ic_digest = demo_digest, ic_source = None,
        ic_role = None, ic_index = None, ic_text_hash = None, ic_origin = OriginGraphMetadata\<rparr>],
      il_queries = [\<lparr>iqm_query = \<lparr>iq_scope = ScopeAll, iq_kind = None, iq_labels = [], iq_max_facts = 12,
           iq_max_bytes = 16384, iq_cursor = None\<rparr>,
         iqm_response_hash = demo_hex, iqm_response_bytes = 40, iqm_returned_facts = 1, iqm_total_selected = 1,
         iqm_has_more = False\<rparr>],
      il_supplied_history_hash = None, il_supplied_history_bytes = 0\<rparr>"

definition demo_codec :: inv_codec where
  "demo_codec = \<lparr>cdc_ledger = (\<lambda>_. []), cdc_findings = (\<lambda>_. []), cdc_result = (\<lambda>_. [])\<rparr>"

definition demo_input :: inv_input where
  "demo_input = \<lparr>in_ledger = demo_ledger, in_payload = \<lparr>pl_system = [], pl_prompt = [], pl_spans = []\<rparr>,
     in_supplied_strings = [''f()''], in_graph_strings = [''n'']\<rparr>"

definition demo_finish :: inv_action where
  "demo_finish = ActFinish [\<lparr>pf_claim_kind = InferredInterpretation, pf_title = ''a'', pf_statement = ''g'',
      pf_citation_ids = [''c1''], pf_limitations = [''s'']\<rparr>] PartialKnowledge [''x'']"

definition demo_result :: inv_result where
  "demo_result =
     \<lparr>ir_schema_version = 1, ir_investigation_id = ''r'',
      ir_result_id = ''investigation-result-v1:cartograph:investigation-result:v1'' @ [CHR 0x00],
      ir_input_ledger_hash = ''cartograph:investigation-input-ledger:v1'' @ [CHR 0x00],
      ir_graph_snapshot_id = demo_graph,
      ir_findings = [\<lparr>fi_id = ''finding-1'', fi_claim_kind = InferredInterpretation, fi_title = ''a'',
        fi_statement = ''g'', fi_citation_ids = [''c1''], fi_limitations = [''s''], fi_tier = Agentic,
        fi_confidence = InferredWeak\<rparr>],
      ir_completeness = PartialKnowledge, ir_limitations = [''x''], ir_observed_model = None, ir_created_at = ''c''\<rparr>"

lemma demo_opaque [simp]: "opaque_id ''c1''" "opaque_id ''r''"
  by (simp_all add: opaque_id_def opaque_char_def is_ascii_alphanumeric_def)

lemma demo_context [simp]: "context_hash demo_graph"
  using demo_hashes(4) by (simp only: context_hash_def prefixed_def)

lemma demo_digest_ok [simp]: "inv_digest (TfNode i) demo_digest"
  using demo_hashes(3) by (simp only: inv_digest_def prefixed_def task_fact_key.case)

lemma demo_ledger_valid: "ledger_validate (\<lambda>_. []) demo_ledger = Inr ()"
  by (simp add: ledger_validate_def demo_ledger_def ledger_head_ok_def MAX_SELECTED_FACTS_def MAX_TOOL_ACTIONS_def
      option_ok_def inv_require_def ledger_select_def valid_fact_def expected_receipts_def map_filter_def
      scan_citation_def scan_query_def query_validate_def scope_validate_def MAX_QUERY_FACTS_def MAX_QUERY_BYTES_def
      checked_add64_def bounded_bytes_def bounded_json_def)

lemma utf8_chars_ascii:
  "utf8_chars [] = []"
  "(of_char c :: nat) \<le> 127 \<Longrightarrow> utf8_chars (c # cs) = [c] # utf8_chars cs"
  by (simp_all add: utf8_chars.simps [of "[]"] utf8_chars.simps [of "c # cs"] utf8_step_def byte_in_def)

lemma demo_text_id [simp]: "text_ok ''c1'' 128"
  by (simp add: text_ok_def trim_def trim_start_def trim_end_def strip_seqs.simps ws_seqs_def starts_with_def)

lemma demo_normalized:
  "normalize_chars ''agsx'' = [''a'', ''g'', ''s'', ''x'']" "normalize_chars ''f()'' = [''f'', ''('', '')'']"
  "normalize_chars ''n'' = [''n'']"
  by (simp_all add: normalize_chars_def utf8_chars_ascii ws_seqs_def)

lemma demo_repeats:
  "\<not> repeats True [''a'', ''g'', ''s'', ''x''] [''f'', ''('', '')'']" "\<not> repeats False [''a'', ''g'', ''s'', ''x''] [''n'']"
  by (simp_all add: repeats_def REPLAY_WINDOW_def mem_windows sublist_Cons_right)

lemma demo_replay:
  "reject_prose_replay [] [''a'', ''g'', ''s'', ''x''] [''f()''] = Inr ()"
  "reject_prose_replay [] [''a'', ''g'', ''s'', ''x''] [] = Inr ()"
  "reject_metadata_replay [] [''a'', ''g'', ''s'', ''x''] [''n''] = Inr ()"
  by (simp_all add: reject_prose_replay_def reject_metadata_replay_def reject_replay_def MAX_INPUT_BYTES_def
      redact_text_def demo_normalized demo_repeats checked_add64_def)

lemma demo_finding_id: "finding_id_at 0 = ''finding-1''"
  by code_simp

lemma demo_admit_finish:
  "supplied \<in> {[], [''f()'']} \<Longrightarrow> admit_finish [] (\<lambda>_. []) demo_finish [''c1''] supplied = Inr (ir_findings demo_result)"
  using demo_replay(1,2)
  by (auto simp: admit_finish_def demo_finish_def validate_shape_def inv_require_def valid_limitations_def
      finding_shape_def answer_prose_def finding_prose_def admit_finding_def demo_finding_id bounded_bytes_def
      bounded_json_def demo_result_def)

lemma demo_codec_sel [simp]:
  "cdc_ledger demo_codec = (\<lambda>_. [])" "cdc_findings demo_codec = (\<lambda>_. [])" "cdc_result demo_codec = (\<lambda>_. [])"
  by (simp_all add: demo_codec_def)

lemma demo_result_valid: "result_validate (\<lambda>x. x) [] demo_codec demo_result demo_ledger = Inr ()"
proof -
  have fin: "ActFinish (map unstamp (ir_findings demo_result)) (ir_completeness demo_result) (ir_limitations demo_result) = demo_finish"
    by (simp add: demo_result_def demo_finish_def unstamp_def)
  have cites: "map ic_citation_id (il_citations demo_ledger) = [''c1'']" by (simp add: demo_ledger_def)
  have stamped: "list_all finding_stamped (enumerate 0 (ir_findings demo_result))" "distinct (map fi_id (ir_findings demo_result))"
    by (simp_all add: demo_result_def finding_stamped_def demo_finding_id)
  show ?thesis
    unfolding result_validate_def fin cites
    by (simp add: demo_ledger_valid ledger_fingerprint_def result_content_id_def stamped demo_admit_finish)
      (simp add: demo_result_def demo_ledger_def inv_require_def bounded_bytes_def bounded_json_def domain_hash_def
        content_hash_def option_ok_def)
qed

lemma demo_admitted: "admit_result (\<lambda>x. x) [] demo_codec demo_input ''r'' demo_finish None ''c'' = Inr demo_result"
proof -
  have cites: "map ic_citation_id (il_citations demo_ledger) = [''c1'']" by (simp add: demo_ledger_def)
  have prose: "answer_prose [\<lparr>pf_claim_kind = InferredInterpretation, pf_title = ''a'', pf_statement = ''g'',
      pf_citation_ids = [''c1''], pf_limitations = [''s'']\<rparr>] [''x''] = [''a'', ''g'', ''s'', ''x'']"
    by (simp add: answer_prose_def finding_prose_def)
  have fp: "ledger_fingerprint (\<lambda>x. x) (\<lambda>_. []) demo_ledger = Inr (ir_input_ledger_hash demo_result)"
    by (simp add: ledger_fingerprint_def demo_ledger_valid bounded_bytes_def bounded_json_def domain_hash_def
        content_hash_def demo_result_def)
  have cid: "result_content_id (\<lambda>x. x) demo_codec r = Inr (ir_result_id demo_result)" for r
    by (simp add: result_content_id_def bounded_bytes_def bounded_json_def domain_hash_def
        content_hash_def demo_result_def)
  have r: "\<lparr>ir_schema_version = Suc 0, ir_investigation_id = ''r'', ir_result_id = ir_result_id demo_result,
       ir_input_ledger_hash = ir_input_ledger_hash demo_result, ir_graph_snapshot_id = il_graph_snapshot_id demo_ledger,
       ir_findings = ir_findings demo_result, ir_completeness = PartialKnowledge, ir_limitations = [''x''],
       ir_observed_model = None, ir_created_at = ''c''\<rparr> = demo_result"
    by (simp add: demo_result_def demo_ledger_def)
  have adm: "result_admit (\<lambda>x. x) [] demo_codec ''r'' demo_ledger demo_finish [''f()''] None ''c'' = Inr demo_result"
    unfolding result_admit_def cites
    using demo_admit_finish [of "[''f()'']"]
    by (simp add: demo_ledger_valid fp cid)
      (simp add: demo_finish_def prose demo_replay fp cid r demo_result_valid Let_def)
  then show ?thesis
    by (simp add: admit_result_def demo_input_def)
      (simp add: demo_finish_def prose demo_replay)
qed

theorem admitted_result_is_bounded_witness:
  "admit_result (\<lambda>x. x) [] demo_codec demo_input ''r'' demo_finish None ''c'' = Inr demo_result \<and>
   map fi_id (ir_findings demo_result) = [''finding-1''] \<and>
   map fi_tier (ir_findings demo_result) = [Agentic] \<and> map fi_confidence (ir_findings demo_result) = [InferredWeak]"
proof -
  from admitted_result_is_bounded [OF demo_admitted]
  have "map fi_id (ir_findings demo_result) = map finding_id_at [0 ..< length (ir_findings demo_result)]"
    "\<forall>f \<in> set (ir_findings demo_result). fi_tier f = Agentic \<and> fi_confidence f = InferredWeak" by auto
  with demo_admitted show ?thesis by (simp add: demo_result_def demo_finding_id)
qed

end
