(* ===== verification/Job_State.thy ===== *)
theory Job_State
  imports Complex_Main Investigation "HOL-Library.Product_Lexorder"
begin

text \<open>
  The state spine of the desktop shell: the tables of the durable job ledger and of investigation
  history, and the records they hold (\<^verbatim>\<open>src-tauri/src/jobs.rs\<close>, \<^verbatim>\<open>jobs/execution.rs\<close>,
  \<^verbatim>\<open>job_execution.rs\<close>, \<^verbatim>\<open>jobs/investigations.rs\<close>, \<^verbatim>\<open>jobs/investigations/storage.rs\<close>). One value of
  \<open>job_db\<close> is the committed state of the database; an operation that fails leaves it as it was. A
  stored body is either the value it decodes to or bytes that the decoder rejects; the length of the
  JSON text of a value, which the capacity checks measure, comes from the parameter \<open>store_env\<close>, as do
  the digest, the redaction patterns and the text of a request. The clock and the random tokens an
  operation reads are its arguments, one reading of the clock per transaction.
\<close>

section \<open>Jobs and attempts\<close>

text \<open>A finite \<^verbatim>\<open>f64\<close> percentage, or one that is not finite.\<close>

datatype percent = Finite rat | NotFinite

record job_row =
  jr_kind :: string
  jr_status :: string
  jr_stage :: "string option"
  jr_progress :: "rat option"
  jr_error :: "string option"
  jr_artifacts :: "string option"
  jr_created_at :: string
  jr_updated_at :: string

record attempt_row =
  ar_generation :: int
  ar_owner :: "string option"

datatype execution_tracking = Recorded | LegacyUnknownTracking

record job =
  jb_investigation_id :: "string option"
  jb_tracking :: execution_tracking
  jb_id :: int
  jb_row :: job_row

record exec_namespace =
  ns_value :: string
  ns_store_path :: string

record lock_target =
  lt_namespace :: exec_namespace
  lt_id :: int
  lt_existing :: bool

datatype sql_error = SqlInvalidQuery | SqlNoRows | SqlConstraint | SqlFull

datatype job_error =
    JeInvalidFrom string string
  | JeStore sql_error
  | JeBusy
  | JeLockUnavailable
  | JeForeignStore
  | JeLegacyUnknown
  | JeMissing
  | JeStaleAttempt
  | JeStopped
  | JeInvalidMetadata
  | JeGenerationOverflow

text \<open>A held lock: its target and what checking the lock file answers at the time of the call.\<close>

record execution_reservation =
  rv_target :: lock_target
  rv_verify :: "(job_error, unit) result"

record job_execution =
  je_namespace :: exec_namespace
  je_id :: int
  je_generation :: int
  je_owner :: string
  je_reservation :: execution_reservation

definition execution_verify :: "job_execution \<Rightarrow> (job_error, unit) result" where
  "execution_verify e = rv_verify (je_reservation e)"

section \<open>Investigation records\<close>

datatype store_error =
    SeInvalid | SeMissing | SeConflict | SeStale | SeCapacity | SeUnavailable | SeCancelled | SeOwnership
  | SeStorage

record inv_actions =
  ia_can_cancel :: bool
  ia_can_follow_up :: bool

record inv_summary =
  su_schema_version :: nat
  su_investigation_id :: string
  su_conversation_id :: string
  su_parent_id :: "string option"
  su_job_id :: int
  su_specialist_id :: specialist_id
  su_question :: string
  su_scope :: inv_scope
  su_provider_mode :: provider_mode
  su_status :: inv_status
  su_revision :: nat
  su_cancel_requested :: bool
  su_invocation_pending :: bool
  su_actions :: inv_actions
  su_graph_snapshot_id :: "string option"
  su_last_event_sequence :: nat
  su_has_result :: bool
  su_created_at :: string
  su_updated_at :: string

datatype inv_origin = OriginApp

record inv_detail =
  dt_summary :: inv_summary
  dt_context_owner :: string
  dt_origin :: inv_origin
  dt_specialist :: inv_specialist
  dt_provider :: inv_provider
  dt_scope_snapshot_id :: "string option"
  dt_limits :: inv_limits
  dt_usage :: inv_usage
  dt_citations :: "inv_citation list"
  dt_error :: "string option"

datatype inv_event_kind =
    EvCreated | EvPreparationStarted | EvContextPrepared | EvModelStarted | EvModelCompleted
  | EvActionAdmitted | EvToolStarted | EvToolCompleted | EvConsentRequired | EvConsentApproved
  | EvConsentDeclined | EvCancelRequested | EvResultPersisted | EvCompleted | EvFailed | EvCancelled
  | EvInterrupted | EvOutcomeUnknown | EvEvidenceValidationReserved

record inv_event =
  evt_investigation_id :: string
  evt_sequence :: nat
  evt_revision :: nat
  evt_kind :: inv_event_kind
  evt_step_id :: "string option"
  evt_tool :: "inv_tool option"
  evt_summary :: string
  evt_created_at :: string

record pending_step =
  ps_step_id :: string
  ps_payload_hash :: string
  ps_input_ledger_hash :: string
  ps_input_bytes :: nat
  ps_generated_tokens :: nat

record response_meta =
  rm_step_id :: string
  rm_response_hash :: string
  rm_action_hash :: string
  rm_observed_model :: "string option"
  rm_reported_input_tokens :: "nat option"
  rm_reported_output_tokens :: "nat option"
  rm_active_milliseconds :: nat

datatype inv_stop_reason =
    SrCancelled | SrPreparationFailed | SrInputChanged | SrSourceUnavailable | SrInvalidResponse
  | SrLimitExceeded | SrProviderFailure | SrOutcomeUnknown | SrConsentExpired | SrConsentDeclined
  | SrOperational

datatype inv_transition =
    TrInputPrepared inv_ledger inv_usage
  | TrInputAdmitted inv_ledger inv_usage
  | TrAwaitConsent pending_step
  | TrBeginInvocation pending_step
  | TrActionAdmitted response_meta "inv_tool option" "inv_result option"
  | TrBeginTool inv_tool
  | TrChargeEvidence nat
  | TrStopWithElapsed inv_stop_reason nat

datatype phase =
    PhQueued | PhPreparing | PhReady | PhConsent | PhInvocation | PhAction | PhTool | PhTerminal

record stored_execution =
  sx_namespace :: string
  sx_job_id :: int
  sx_generation :: int
  sx_owner :: string

record stored_task =
  st_schema_version :: nat
  st_nonce :: string
  st_intent_hash :: string
  st_expected_graph_revision :: "string option"
  st_detail :: inv_detail
  st_phase :: phase
  st_execution :: "stored_execution option"
  st_ledger_hash :: "string option"
  st_ledger_revision :: "nat option"
  st_pending :: "pending_step option"
  st_approved :: bool
  st_action_tool :: "inv_tool option"

record inv_start =
  is_detail :: inv_detail
  is_created :: bool

record inv_recovery_candidate =
  rc_id :: string
  rc_revision :: nat
  rc_identity :: "stored_execution option"
  rc_target :: lock_target

text \<open>A stored body: the value it decodes to, or the size of bytes that the decoder rejects.\<close>

datatype 'a cell = Intact 'a | Corrupt nat

record task_row =
  tr_ordinal :: int
  tr_id :: string
  tr_nonce :: string
  tr_conversation_id :: string
  tr_job_id :: int
  tr_revision :: int
  tr_live :: bool
  tr_record :: "stored_task cell"

section \<open>The database\<close>

record job_db =
  jd_exec_schema :: bool
  jd_namespace :: string
  jd_inv_schema :: bool
  jd_inv_namespace :: string
  jd_jobs :: "(int, job_row) omap"
  jd_attempts :: "(int, attempt_row) omap"
  jd_next_job :: int
  jd_next_ordinal :: int
  jd_conversations :: "(string, string) omap"
  jd_tasks :: "task_row list"
  jd_events :: "(string \<times> nat, inv_event cell) omap"
  jd_inputs :: "(string \<times> nat, inv_ledger cell) omap"
  jd_invocations :: "(string \<times> string, pending_step cell) omap"
  jd_responses :: "(string \<times> string, response_meta cell) omap"
  jd_results :: "(string, inv_result cell) omap"
  jd_refs :: "(string \<times> string \<times> string \<times> string, nat) omap"

record store_env =
  se_hash :: "string \<Rightarrow> string"
  se_pats :: "redact_pattern list"
  se_codec :: inv_codec
  se_request :: "start_request \<Rightarrow> string"
  se_specialist :: "specialist_id \<times> nat \<times> string \<Rightarrow> string"
  se_task :: "stored_task \<Rightarrow> string"
  se_summary :: "inv_summary \<Rightarrow> string"
  se_event :: "inv_event \<Rightarrow> string"
  se_step :: "pending_step \<Rightarrow> string"
  se_response :: "response_meta \<Rightarrow> string"

definition i64_max :: int where "i64_max = 2 ^ 63 - 1"

definition is_token :: "string \<Rightarrow> bool" where
  "is_token v \<longleftrightarrow> length v = 32 \<and> list_all hex_byte v"

section \<open>Reading jobs\<close>

text \<open>
  The schema comparisons of \<^verbatim>\<open>read_namespace\<close> are one flag of the state; no operation changes it.
\<close>

definition read_namespace :: "job_db \<Rightarrow> (sql_error, string) result" where
  "read_namespace db =
     (if jd_exec_schema db \<and> is_token (jd_namespace db) then Inr (jd_namespace db) else Inl SqlInvalidQuery)"

definition exec_validate :: "job_db \<Rightarrow> exec_namespace \<Rightarrow> (sql_error, unit) result" where
  "exec_validate db ns =
     rbind (read_namespace db) (\<lambda>v. if v \<noteq> ns_value ns then Inl SqlInvalidQuery else Inr ())"

definition row_attempt :: "attempt_row option \<Rightarrow> (sql_error, attempt_row option) result" where
  "row_attempt a =
     (case a of
        None \<Rightarrow> Inr None
      | Some r \<Rightarrow>
          (let owner = (case ar_owner r of Some w \<Rightarrow> if length w = 32 then Some w else None | None \<Rightarrow> None) in
           if ar_generation r < 0 \<or> (ar_generation r = 0 \<and> ar_owner r \<noteq> None) \<or>
              (ar_generation r > 0 \<and> \<not> (case owner of None \<Rightarrow> False | Some w \<Rightarrow> is_token w))
           then Inl SqlInvalidQuery
           else Inr (Some \<lparr>ar_generation = ar_generation r, ar_owner = owner\<rparr>)))"

definition task_of_job :: "job_db \<Rightarrow> int \<Rightarrow> task_row option" where
  "task_of_job db i = find (\<lambda>r. tr_job_id r = i) (jd_tasks db)"

definition job_row_of :: "job_db \<Rightarrow> int \<Rightarrow> job_row \<Rightarrow> (sql_error, job \<times> attempt_row option) result" where
  "job_row_of db i r =
     rbind (row_attempt (om_get (jd_attempts db) i)) (\<lambda>a.
       Inr (\<lparr>jb_investigation_id =
               (case task_of_job db i of
                  None \<Rightarrow> None | Some t \<Rightarrow> if length (tr_id t) \<le> 128 then Some (tr_id t) else None),
             jb_tracking = (if a = None then LegacyUnknownTracking else Recorded), jb_id = i, jb_row = r\<rparr>, a))"

definition read_state :: "job_db \<Rightarrow> int \<Rightarrow> (sql_error, job \<times> attempt_row option) result" where
  "read_state db i = (case om_get (jd_jobs db) i of None \<Rightarrow> Inl SqlNoRows | Some r \<Rightarrow> job_row_of db i r)"

definition read_job :: "job_db \<Rightarrow> int \<Rightarrow> (sql_error, job) result" where
  "read_job db i = rbind (read_state db i) (\<lambda>(j, _). Inr j)"

text \<open>\<^verbatim>\<open>INSERT INTO jobs(kind)\<close> with its defaults, and the row of its first attempt.\<close>

definition insert_job :: "string \<Rightarrow> string \<Rightarrow> job_db \<Rightarrow> (sql_error, int \<times> job_db) result" where
  "insert_job now kind db =
     (if jd_next_job db > i64_max then Inl SqlFull
      else Inr (jd_next_job db,
        db\<lparr>jd_jobs := om_put (jd_next_job db)
             \<lparr>jr_kind = kind, jr_status = ''queued'', jr_stage = None, jr_progress = None, jr_error = None,
              jr_artifacts = None, jr_created_at = now, jr_updated_at = now\<rparr> (jd_jobs db),
           jd_next_job := jd_next_job db + 1\<rparr>))"

definition insert_attempt :: "int \<Rightarrow> job_db \<Rightarrow> (sql_error, job_db) result" where
  "insert_attempt i db =
     (if om_get (jd_attempts db) i \<noteq> None then Inl SqlConstraint
      else Inr (db\<lparr>jd_attempts := om_put i \<lparr>ar_generation = 0, ar_owner = None\<rparr> (jd_attempts db)\<rparr>))"

text \<open>An update of one row of \<^verbatim>\<open>jobs\<close>, where its guard holds.\<close>

definition update_job :: "int \<Rightarrow> (job_row \<Rightarrow> bool) \<Rightarrow> (job_row \<Rightarrow> job_row) \<Rightarrow> job_db \<Rightarrow> nat \<times> job_db" where
  "update_job i guard f db =
     (case om_get (jd_jobs db) i of
        None \<Rightarrow> (0, db)
      | Some r \<Rightarrow> if guard r then (1, db\<lparr>jd_jobs := om_put i (f r) (jd_jobs db)\<rparr>) else (0, db))"

definition active_status :: "job_row \<Rightarrow> bool" where
  "active_status r \<longleftrightarrow> jr_status r \<in> {''queued'', ''running''}"

end
