(* ===== verification/Investigation_Store.thy ===== *)
theory Investigation_Store
  imports Job_State
begin

text \<open>
  The durable investigation store (\<^verbatim>\<open>src-tauri/src/jobs/investigations.rs\<close> and its
  \<^verbatim>\<open>storage.rs\<close> and \<^verbatim>\<open>transitions.rs\<close>): starting an investigation, the transitions its worker
  commits, consent, cancellation, recovery after the death of a worker, and the reads of one task.
  Every operation is one transaction: it returns the new database, or an error and no change.
\<close>

section \<open>Bounds and small checks\<close>

definition KIND_PREFIX :: string where "KIND_PREFIX = ''investigation-v1:''"
definition MAX_TASKS :: nat where "MAX_TASKS = 128"
definition MAX_LIVE_TASKS :: nat where "MAX_LIVE_TASKS = 2"
definition TASK_CAPACITY :: nat where "TASK_CAPACITY = 2 * 1024 * 1024"
definition TERMINAL_RESERVE :: nat where "TERMINAL_RESERVE = 256 * 1024"
definition STORE_CAPACITY :: nat where "STORE_CAPACITY = 256 * 1024 * 1024"
definition MAX_EVENTS :: nat where "MAX_EVENTS = 96"

definition se_require :: "store_error \<Rightarrow> bool \<Rightarrow> (store_error, unit) result" where
  "se_require e ok = (if ok then Inr () else Inl e)"

text \<open>The conversions of \<^verbatim>\<open>From\<close> on the three error types that \<^verbatim>\<open>?\<close> applies.\<close>

definition of_sql :: "(sql_error, 'a) result \<Rightarrow> (store_error, 'a) result" where
  "of_sql r = (case r of Inl _ \<Rightarrow> Inl SeStorage | Inr x \<Rightarrow> Inr x)"

definition of_inv :: "(investigation_error, 'a) result \<Rightarrow> (store_error, 'a) result" where
  "of_inv r = (case r of Inl _ \<Rightarrow> Inl SeInvalid | Inr x \<Rightarrow> Inr x)"

definition of_job :: "(job_error, 'a) result \<Rightarrow> (store_error, 'a) result" where
  "of_job r = (case r of Inl _ \<Rightarrow> Inl SeOwnership | Inr x \<Rightarrow> Inr x)"

definition stop_message :: "inv_stop_reason \<Rightarrow> string" where
  "stop_message r =
     (case r of
        SrCancelled \<Rightarrow> ''Cancellation requested; no further work was started.''
      | SrPreparationFailed \<Rightarrow> ''Investigation input preparation failed.''
      | SrInputChanged \<Rightarrow> ''The selected graph or source binding changed.''
      | SrSourceUnavailable \<Rightarrow> ''Selected source evidence is unavailable.''
      | SrInvalidResponse \<Rightarrow> ''The completed provider response was not an admissible action.''
      | SrLimitExceeded \<Rightarrow> ''An investigation work or storage limit was reached.''
      | SrProviderFailure \<Rightarrow> ''The provider call failed without a usable response.''
      | SrOutcomeUnknown \<Rightarrow> ''A dispatched provider call has no durable admitted outcome.''
      | SrConsentExpired \<Rightarrow> ''The exact step consent wait expired.''
      | SrConsentDeclined \<Rightarrow> ''The exact cloud step was declined; no fallback was authorized.''
      | SrOperational \<Rightarrow> ''An investigation operation failed; no additional work was started.'')"

definition id_valid :: "string \<Rightarrow> bool" where
  "id_valid v \<longleftrightarrow> v \<noteq> [] \<and> length v \<le> 128 \<and> list_all opaque_char v"

definition hash_valid :: "string \<Rightarrow> bool" where
  "hash_valid v \<longleftrightarrow> length v = 64 \<and> list_all hex_byte v"

definition encode :: "string \<Rightarrow> nat \<Rightarrow> (store_error, string) result" where
  "encode bytes maximum = (if length bytes > maximum then Inl SeCapacity else Inr bytes)"

definition signed :: "nat \<Rightarrow> (store_error, int) result" where
  "signed v = (if int v \<le> i64_max then Inr (int v) else Inl SeInvalid)"

definition u64_add :: "nat \<Rightarrow> nat \<Rightarrow> (store_error, nat) result" where
  "u64_add a b = (case checked_add64 a b of None \<Rightarrow> Inl SeCapacity | Some n \<Rightarrow> Inr n)"

definition u32_add :: "nat \<Rightarrow> nat \<Rightarrow> (store_error, nat) result" where
  "u32_add a b = (if a + b < 2 ^ 32 then Inr (a + b) else Inl SeCapacity)"

definition cell_value :: "'a cell \<Rightarrow> (store_error, 'a) result" where
  "cell_value c = (case c of Intact v \<Rightarrow> Inr v | Corrupt _ \<Rightarrow> Inl SeInvalid)"

section \<open>Validation\<close>

definition store_validate :: "job_db \<Rightarrow> exec_namespace \<Rightarrow> (store_error, unit) result" where
  "store_validate db ns =
     rbind (of_sql (exec_validate db ns)) (\<lambda>_.
     rbind (se_require SeInvalid (jd_inv_schema db)) (\<lambda>_.
     se_require SeInvalid (length (jd_inv_namespace db) = 32 \<and> jd_inv_namespace db = ns_value ns)))"

definition validate_provider :: "store_env \<Rightarrow> inv_provider \<Rightarrow> (store_error, unit) result" where
  "validate_provider env p =
     rbind (se_require SeUnavailable (ivp_available p \<and> ivp_unavailable_reason p = None)) (\<lambda>_.
     se_require SeInvalid
       (list_all (\<lambda>v. v \<noteq> [] \<and> length v \<le> 2048 \<and> redacted_history_text (se_pats env) v 2048 = Inr v)
         ([ivp_provider_id p, ivp_model p, ivp_endpoint p] @
          (case ivp_deployment p of None \<Rightarrow> [] | Some v \<Rightarrow> [v]) @
          (case ivp_protocol_version p of None \<Rightarrow> [] | Some v \<Rightarrow> [v]))))"

definition usage_within :: "inv_usage \<Rightarrow> inv_limits \<Rightarrow> bool" where
  "usage_within u l \<longleftrightarrow>
     us_model_invocations u \<le> ivl_model_invocations l \<and> us_tool_actions u \<le> ivl_tool_actions l \<and>
     us_selected_facts u \<le> ivl_selected_facts l \<and> us_evidence_requests u \<le> ivl_evidence_requests l \<and>
     us_evidence_items u \<le> ivl_evidence_items l \<and> us_evidence_bytes u \<le> ivl_evidence_bytes l \<and>
     us_captured_validation_bytes u \<le> ivl_captured_validation_bytes l \<and>
     us_generated_token_reservations u \<le> ivl_generated_token_reservations l"

definition validate_usage :: "inv_usage \<Rightarrow> inv_limits \<Rightarrow> (store_error, unit) result" where
  "validate_usage u l = se_require SeCapacity (usage_within u l)"

definition validate_step :: "pending_step \<Rightarrow> (store_error, unit) result" where
  "validate_step s =
     se_require SeInvalid
       (id_valid (ps_step_id s) \<and> hash_valid (ps_payload_hash s) \<and> hash_valid (ps_input_ledger_hash s) \<and>
        ps_input_bytes s \<noteq> 0 \<and> ps_input_bytes s \<le> MAX_INPUT_BYTES \<and>
        ps_generated_tokens s \<noteq> 0 \<and> ps_generated_tokens s \<le> 2048)"

definition status_of_phase :: "stored_task \<Rightarrow> bool" where
  "status_of_phase t =
     (let status = su_status (dt_summary (st_detail t)) in
      case st_phase t of
        PhQueued \<Rightarrow> status = StQueued \<and> st_execution t = None
      | PhPreparing \<Rightarrow> status = StPreparing \<and> st_execution t \<noteq> None
      | PhConsent \<Rightarrow> status = StAwaitingConsent \<and> st_pending t \<noteq> None
      | PhTerminal \<Rightarrow> status \<in> {StCompleted, StFailed, StCancelled, StInterrupted, StOutcomeUnknown}
      | _ \<Rightarrow> status = StRunning)"

definition execution_wellformed :: "stored_task \<Rightarrow> bool" where
  "execution_wellformed t =
     (case st_execution t of
        None \<Rightarrow> st_phase t \<in> {PhQueued, PhTerminal}
      | Some x \<Rightarrow>
          sx_namespace x = dt_context_owner (st_detail t) \<and> sx_job_id x = su_job_id (dt_summary (st_detail t)) \<and>
          sx_generation x > 0 \<and> is_token (sx_owner x))"

definition header_wellformed :: "store_env \<Rightarrow> stored_task \<Rightarrow> bool" where
  "header_wellformed env t \<longleftrightarrow>
     (let d = st_detail t; s = dt_summary d in
      st_schema_version t = 1 \<and> su_schema_version s = 1 \<and> id_valid (su_investigation_id s) \<and>
      id_valid (su_conversation_id s) \<and> id_valid (st_nonce t) \<and> hash_valid (st_intent_hash t) \<and>
      su_job_id s > 0 \<and> option_ok id_valid (su_parent_id s) \<and> is_token (dt_context_owner d) \<and>
      specialist_definition (se_hash env) (se_specialist env) (su_specialist_id s) = Inr (dt_specialist d) \<and>
      ivp_mode (dt_provider d) = su_provider_mode s \<and> dt_limits d = inv_limits_default \<and>
      redacted_history_text (se_pats env) (su_question s) MAX_QUESTION_BYTES = Inr (su_question s) \<and>
      su_last_event_sequence s \<le> MAX_EVENTS \<and>
      ia_can_cancel (su_actions s) = (st_phase t \<noteq> PhTerminal \<and> \<not> su_cancel_requested s) \<and>
      ia_can_follow_up (su_actions s) \<and> su_invocation_pending s = (st_phase t = PhInvocation) \<and>
      (st_ledger_hash t = None) = (st_ledger_revision t = None) \<and> option_ok hash_valid (st_ledger_hash t) \<and>
      length (dt_citations d) \<le> 76 \<and> length (su_created_at s) \<le> 32 \<and> length (su_updated_at s) \<le> 32)"

definition validate_stored_task :: "store_env \<Rightarrow> stored_task \<Rightarrow> (store_error, unit) result" where
  "validate_stored_task env t =
     (let d = st_detail t; s = dt_summary d in
      rbind (se_require SeInvalid (header_wellformed env t)) (\<lambda>_.
      rbind (of_inv (scope_validate (su_scope s))) (\<lambda>_.
      rbind (validate_provider env (dt_provider d)) (\<lambda>_.
      rbind (validate_usage (dt_usage d) (dt_limits d)) (\<lambda>_.
      rbind (se_require SeInvalid
        (status_of_phase t \<and> su_has_result s = (su_status s = StCompleted) \<and> execution_wellformed t)) (\<lambda>_.
      rbind (case st_pending t of None \<Rightarrow> Inr () | Some p \<Rightarrow> validate_step p) (\<lambda>_.
      rbind (se_require SeInvalid
        ((st_pending t \<noteq> None) = (st_phase t \<in> {PhConsent, PhInvocation}) \<and>
         \<not> (st_approved t \<and> st_phase t \<noteq> PhConsent) \<and>
         (st_action_tool t \<noteq> None) = (st_phase t \<in> {PhAction, PhTool}))) (\<lambda>_.
      rbind (encode (se_summary env s) 4096) (\<lambda>_. Inr ())))))))))"

section \<open>Rows\<close>

definition task_row_of :: "job_db \<Rightarrow> string \<Rightarrow> task_row option" where
  "task_row_of db i = find (\<lambda>r. tr_id r = i) (jd_tasks db)"

definition load_task :: "store_env \<Rightarrow> job_db \<Rightarrow> string \<Rightarrow> (store_error, stored_task) result" where
  "load_task env db i =
     (if \<not> id_valid i then Inl SeInvalid
      else (case task_row_of db i of
              None \<Rightarrow> Inl SeMissing
            | Some r \<Rightarrow>
                rbind (se_require SeInvalid (length (tr_nonce r) \<le> 128 \<and> length (tr_conversation_id r) \<le> 128)) (\<lambda>_.
                rbind (cell_value (tr_record r)) (\<lambda>t.
                rbind (validate_stored_task env t) (\<lambda>_.
                rbind (se_require SeInvalid (su_investigation_id (dt_summary (st_detail t)) = i)) (\<lambda>_.
                rbind (signed (su_revision (dt_summary (st_detail t)))) (\<lambda>revision.
                rbind (se_require SeInvalid
                  (revision = tr_revision r \<and> tr_live r = (st_phase t \<noteq> PhTerminal) \<and>
                   su_job_id (dt_summary (st_detail t)) = tr_job_id r \<and> st_nonce t = tr_nonce r \<and>
                   su_conversation_id (dt_summary (st_detail t)) = tr_conversation_id r \<and>
                   dt_context_owner (st_detail t) = jd_inv_namespace db)) (\<lambda>_.
                Inr t))))))))"

definition body_size :: "store_env \<Rightarrow> ('a \<Rightarrow> string) \<Rightarrow> 'a cell \<Rightarrow> nat" where
  "body_size env enc c =
     (case c of Intact v \<Rightarrow> length (enc v) + length (content_hash (se_hash env) (enc v)) | Corrupt n \<Rightarrow> n)"

definition table_size :: "store_env \<Rightarrow> ('a \<Rightarrow> string) \<Rightarrow> string \<Rightarrow> (string \<times> 'k, 'a cell) omap \<Rightarrow> nat" where
  "table_size env enc i m =
     sum_list (map (\<lambda>(k, c). body_size env enc c + 256) (filter (\<lambda>(k, c). fst k = i) m))"

definition task_size :: "store_env \<Rightarrow> job_db \<Rightarrow> task_row \<Rightarrow> nat" where
  "task_size env db r =
     (let i = tr_id r in
      1024 + (body_size env (se_task env) (tr_record r) + length i + length (tr_nonce r) + length (tr_conversation_id r)) +
      table_size env (se_event env) i (jd_events db) +
      table_size env (cdc_ledger (se_codec env)) i (jd_inputs db) +
      table_size env (se_step env) i (jd_invocations db) +
      table_size env (se_response env) i (jd_responses db) +
      sum_list (map (\<lambda>(k, c). body_size env (cdc_result (se_codec env)) c + 256)
        (filter (\<lambda>(k, c). k = i) (jd_results db))) +
      sum_list (map (\<lambda>((a, b, c, d), _). length a + length b + length c + length d + 128)
        (filter (\<lambda>((a, _), _). a = i) (jd_refs db))))"

definition check_task_capacity :: "store_env \<Rightarrow> job_db \<Rightarrow> string \<Rightarrow> bool \<Rightarrow> (store_error, unit) result" where
  "check_task_capacity env db i terminal =
     (case task_row_of db i of
        None \<Rightarrow> Inl SeStorage
      | Some r \<Rightarrow>
          se_require SeCapacity
            (task_size env db r \<le> (if terminal then TASK_CAPACITY else TASK_CAPACITY - TERMINAL_RESERVE)))"

definition insert_task :: "store_env \<Rightarrow> stored_task \<Rightarrow> job_db \<Rightarrow> (store_error, job_db) result" where
  "insert_task env t db =
     (let s = dt_summary (st_detail t) in
      rbind (validate_stored_task env t) (\<lambda>_.
      rbind (encode (se_task env t) MAX_RECORD_BYTES) (\<lambda>_.
      rbind (signed (su_revision s)) (\<lambda>revision.
      if list_ex (\<lambda>r. tr_id r = su_investigation_id s \<or> tr_nonce r = st_nonce t \<or> tr_job_id r = su_job_id s) (jd_tasks db) \<or>
         jd_next_ordinal db > i64_max
      then Inl SeStorage
      else Inr (db\<lparr>jd_tasks := jd_tasks db @
             [\<lparr>tr_ordinal = jd_next_ordinal db, tr_id = su_investigation_id s, tr_nonce = st_nonce t,
               tr_conversation_id = su_conversation_id s, tr_job_id = su_job_id s, tr_revision = revision,
               tr_live = (st_phase t \<noteq> PhTerminal), tr_record = Intact t\<rparr>],
           jd_next_ordinal := jd_next_ordinal db + 1\<rparr>)))))"

definition save_task :: "store_env \<Rightarrow> stored_task \<Rightarrow> nat \<Rightarrow> bool \<Rightarrow> job_db \<Rightarrow> (store_error, job_db) result" where
  "save_task env t expected terminal db =
     (let s = dt_summary (st_detail t) in
      rbind (validate_stored_task env t) (\<lambda>_.
      rbind (encode (se_task env t) MAX_RECORD_BYTES) (\<lambda>_.
      rbind (signed (su_revision s)) (\<lambda>revision.
      rbind (signed expected) (\<lambda>expected'.
      if \<not> list_ex (\<lambda>r. tr_id r = su_investigation_id s \<and> tr_revision r = expected') (jd_tasks db) then Inl SeStorage
      else (let db' = db\<lparr>jd_tasks := map (\<lambda>r.
                  if tr_id r = su_investigation_id s \<and> tr_revision r = expected'
                  then r\<lparr>tr_revision := revision, tr_live := (st_phase t \<noteq> PhTerminal), tr_record := Intact t\<rparr>
                  else r) (jd_tasks db)\<rparr> in
            rbind (check_task_capacity env db' (su_investigation_id s) terminal) (\<lambda>_. Inr db')))))))"

definition check_start_capacity :: "job_db \<Rightarrow> bool \<Rightarrow> (store_error, unit) result" where
  "check_start_capacity db new_conversation =
     se_require SeCapacity
       (length (jd_tasks db) < MAX_TASKS \<and> length (filter tr_live (jd_tasks db)) < MAX_LIVE_TASKS \<and>
        \<not> (new_conversation \<and> length (jd_conversations db) \<ge> MAX_TASKS) \<and>
        (length (jd_tasks db) + 1) * TASK_CAPACITY \<le> STORE_CAPACITY)"

text \<open>Field updates of the nested record of a task.\<close>

abbreviation summary_of :: "stored_task \<Rightarrow> inv_summary" where
  "summary_of t \<equiv> dt_summary (st_detail t)"

definition with_summary :: "(inv_summary \<Rightarrow> inv_summary) \<Rightarrow> stored_task \<Rightarrow> stored_task" where
  "with_summary f t = t\<lparr>st_detail := (st_detail t)\<lparr>dt_summary := f (summary_of t)\<rparr>\<rparr>"

definition with_usage :: "(inv_usage \<Rightarrow> inv_usage) \<Rightarrow> stored_task \<Rightarrow> stored_task" where
  "with_usage f t = t\<lparr>st_detail := (st_detail t)\<lparr>dt_usage := f (dt_usage (st_detail t))\<rparr>\<rparr>"

definition event_limit :: "stored_task \<Rightarrow> inv_event_kind \<Rightarrow> nat" where
  "event_limit t kind =
     (if st_phase t = PhTerminal then MAX_EVENTS
      else if kind = EvCancelRequested then MAX_EVENTS - 2 else MAX_EVENTS - 3)"

definition event ::
  "store_env \<Rightarrow> string \<Rightarrow> stored_task \<Rightarrow> inv_event_kind \<Rightarrow> string option \<Rightarrow> inv_tool option \<Rightarrow> string \<Rightarrow> job_db
     \<Rightarrow> (store_error, stored_task \<times> job_db) result" where
  "event env now t kind step tool msg db =
     rbind (u64_add (su_last_event_sequence (summary_of t)) 1) (\<lambda>nxt.
     rbind (se_require SeCapacity (nxt \<le> event_limit t kind)) (\<lambda>_.
     (let t' = with_summary (\<lambda>s. s\<lparr>su_last_event_sequence := nxt\<rparr>) t;
          e = \<lparr>evt_investigation_id = su_investigation_id (summary_of t), evt_sequence = nxt,
               evt_revision = su_revision (summary_of t), evt_kind = kind, evt_step_id = step, evt_tool = tool,
               evt_summary = msg, evt_created_at = now\<rparr> in
      rbind (encode (se_event env e) (16 * 1024)) (\<lambda>_.
      rbind (signed nxt) (\<lambda>_.
      if om_get (jd_events db) (evt_investigation_id e, nxt) \<noteq> None then Inl SeStorage
      else Inr (t', db\<lparr>jd_events := om_put (evt_investigation_id e, nxt) (Intact e) (jd_events db)\<rparr>))))))"

definition bump :: "string \<Rightarrow> stored_task \<Rightarrow> (store_error, stored_task) result" where
  "bump now t =
     rbind (u64_add (su_revision (summary_of t)) 1) (\<lambda>r.
       Inr (with_summary (\<lambda>s. s\<lparr>su_revision := r, su_updated_at := now,
              su_actions := (su_actions s)\<lparr>ia_can_cancel := (st_phase t \<noteq> PhTerminal \<and> \<not> su_cancel_requested s)\<rparr>,
              su_invocation_pending := (st_phase t = PhInvocation)\<rparr>) t))"

definition bump_event ::
  "store_env \<Rightarrow> string \<Rightarrow> stored_task \<Rightarrow> inv_event_kind \<Rightarrow> string option \<Rightarrow> inv_tool option \<Rightarrow> string \<Rightarrow> job_db
     \<Rightarrow> (store_error, stored_task \<times> job_db) result" where
  "bump_event env now t kind step tool msg db = rbind (bump now t) (\<lambda>t'. event env now t' kind step tool msg db)"

definition read_body :: "('k, 'a cell) omap \<Rightarrow> 'k \<Rightarrow> (store_error, 'a option) result" where
  "read_body m k =
     (case om_get m k of None \<Rightarrow> Inr None | Some c \<Rightarrow> rbind (cell_value c) (\<lambda>v. Inr (Some v)))"

definition load_ledger :: "store_env \<Rightarrow> job_db \<Rightarrow> stored_task \<Rightarrow> (store_error, inv_ledger option) result" where
  "load_ledger env db t =
     (case st_ledger_revision t of
        None \<Rightarrow> Inr None
      | Some revision \<Rightarrow>
          rbind (signed revision) (\<lambda>_.
          rbind (read_body (jd_inputs db) (su_investigation_id (summary_of t), revision)) (\<lambda>body.
          case body of
            None \<Rightarrow> Inl SeInvalid
          | Some l \<Rightarrow>
              rbind (of_inv (ledger_validate (cdc_ledger (se_codec env)) l)) (\<lambda>_.
              rbind (of_inv (ledger_fingerprint (se_hash env) (cdc_ledger (se_codec env)) l)) (\<lambda>fp.
              rbind (se_require SeInvalid
                (Some fp = st_ledger_hash t \<and> il_revision l = revision \<and>
                 Some (il_graph_snapshot_id l) = su_graph_snapshot_id (summary_of t) \<and>
                 Some (il_scope_snapshot_id l) = dt_scope_snapshot_id (st_detail t) \<and>
                 il_citations l = dt_citations (st_detail t))) (\<lambda>_.
              Inr (Some l)))))))"

definition load_result :: "store_env \<Rightarrow> job_db \<Rightarrow> stored_task \<Rightarrow> (store_error, inv_result option) result" where
  "load_result env db t =
     (let i = su_investigation_id (summary_of t) in
      rbind (read_body (jd_results db) i) (\<lambda>body.
      rbind (se_require SeInvalid ((body \<noteq> None) = su_has_result (summary_of t))) (\<lambda>_.
      case body of
        None \<Rightarrow> Inr None
      | Some r \<Rightarrow>
          rbind (load_ledger env db t) (\<lambda>l.
          case l of
            None \<Rightarrow> Inl SeInvalid
          | Some l \<Rightarrow>
              rbind (of_inv (result_validate (se_hash env) (se_pats env) (se_codec env) r l)) (\<lambda>_.
              rbind (se_require SeInvalid (ir_investigation_id r = i)) (\<lambda>_. Inr (Some r)))))))"

text \<open>\<^verbatim>\<open>insert_body\<close>: the length bound of the text, then the primary key.\<close>

definition insert_body ::
  "string \<Rightarrow> nat \<Rightarrow> 'k::linorder \<Rightarrow> 'a \<Rightarrow> ('k, 'a cell) omap \<Rightarrow> (store_error, ('k, 'a cell) omap) result" where
  "insert_body bytes maximum k v m =
     rbind (encode bytes maximum) (\<lambda>_.
       if om_get m k \<noteq> None then Inl SeStorage else Inr (om_put k (Intact v) m))"

section \<open>Starting an investigation\<close>

definition usage_zero :: inv_usage where
  "usage_zero =
     \<lparr>us_model_invocations = 0, us_tool_actions = 0, us_selected_facts = 0, us_evidence_requests = 0,
      us_evidence_items = 0, us_evidence_bytes = 0, us_captured_validation_bytes = 0,
      us_generated_token_reservations = 0, us_reported_input_tokens = None, us_reported_output_tokens = None,
      us_active_milliseconds = 0\<rparr>"

definition new_task ::
  "string \<Rightarrow> start_request \<Rightarrow> string \<Rightarrow> string \<Rightarrow> string \<Rightarrow> int \<Rightarrow> string \<Rightarrow> inv_specialist \<Rightarrow> inv_provider \<Rightarrow> string
     \<Rightarrow> stored_task" where
  "new_task ns rq intent conversation i job_id question sp provider now =
     \<lparr>st_schema_version = 1, st_nonce = rq_request_nonce rq, st_intent_hash = intent,
      st_expected_graph_revision = rq_expected_graph_revision rq,
      st_detail = \<lparr>dt_summary =
        \<lparr>su_schema_version = 1, su_investigation_id = i, su_conversation_id = conversation,
         su_parent_id = rq_parent_id rq, su_job_id = job_id, su_specialist_id = rq_specialist_id rq,
         su_question = question, su_scope = rq_scope rq, su_provider_mode = rq_provider_mode rq,
         su_status = StQueued, su_revision = 0, su_cancel_requested = False, su_invocation_pending = False,
         su_actions = \<lparr>ia_can_cancel = True, ia_can_follow_up = True\<rparr>, su_graph_snapshot_id = None,
         su_last_event_sequence = 0, su_has_result = False, su_created_at = now, su_updated_at = now\<rparr>,
       dt_context_owner = ns, dt_origin = OriginApp, dt_specialist = sp, dt_provider = provider,
       dt_scope_snapshot_id = None, dt_limits = inv_limits_default, dt_usage = usage_zero, dt_citations = [],
       dt_error = None\<rparr>,
      st_phase = PhQueued, st_execution = None, st_ledger_hash = None, st_ledger_revision = None,
      st_pending = None, st_approved = False, st_action_tool = None\<rparr>"

text \<open>
  \<open>suffixes\<close> are the two random tokens of \<^verbatim>\<open>new_id\<close>, for a new conversation and for the investigation.
\<close>

definition choose_conversation ::
  "start_request \<Rightarrow> string \<Rightarrow> job_db \<Rightarrow> (store_error, string) result" where
  "choose_conversation rq suffix db =
     (case rq_conversation_id rq of
        Some c \<Rightarrow> if om_get (jd_conversations db) c = None then Inl SeMissing else Inr c
      | None \<Rightarrow> Inr (''conversation:'' @ suffix))"

definition check_parent :: "store_env \<Rightarrow> start_request \<Rightarrow> string \<Rightarrow> job_db \<Rightarrow> (store_error, unit) result" where
  "check_parent env rq conversation db =
     (case rq_parent_id rq of
        None \<Rightarrow> Inr ()
      | Some p \<Rightarrow>
          rbind (load_task env db p) (\<lambda>t.
            se_require SeInvalid (su_conversation_id (summary_of t) = conversation)))"

definition add_conversation :: "start_request \<Rightarrow> string \<Rightarrow> string \<Rightarrow> job_db \<Rightarrow> (store_error, job_db) result" where
  "add_conversation rq conversation now db =
     (if rq_conversation_id rq \<noteq> None then Inr db
      else if om_get (jd_conversations db) conversation \<noteq> None then Inl SeStorage
      else Inr (db\<lparr>jd_conversations := om_put conversation now (jd_conversations db)\<rparr>))"

definition create_task ::
  "store_env \<Rightarrow> exec_namespace \<Rightarrow> start_request \<Rightarrow> string \<Rightarrow> inv_provider \<Rightarrow> string \<times> string \<Rightarrow> string \<Rightarrow> job_db
     \<Rightarrow> (store_error, inv_start \<times> job_db) result" where
  "create_task env ns rq intent provider suffixes now db =
     rbind (validate_provider env provider) (\<lambda>_.
     rbind (check_start_capacity db (rq_conversation_id rq = None)) (\<lambda>_.
     rbind (choose_conversation rq (fst suffixes) db) (\<lambda>conversation.
     rbind (check_parent env rq conversation db) (\<lambda>_.
     (let i = ''investigation:'' @ snd suffixes in
      rbind (add_conversation rq conversation now db) (\<lambda>db1.
      rbind (of_sql (insert_job now (KIND_PREFIX @ i) db1)) (\<lambda>(job_id, db2).
      rbind (of_sql (insert_attempt job_id db2)) (\<lambda>db3.
      rbind (of_inv (redacted_history_text (se_pats env) (rq_question rq) MAX_QUESTION_BYTES)) (\<lambda>question.
      rbind (of_inv (specialist_definition (se_hash env) (se_specialist env) (rq_specialist_id rq))) (\<lambda>sp.
      (let t = new_task (ns_value ns) rq intent conversation i job_id question sp provider now in
       rbind (insert_task env t db3) (\<lambda>db4.
       rbind (event env now t EvCreated None None ''Investigation created.'' db4) (\<lambda>(t', db5).
       rbind (save_task env t' 0 True db5) (\<lambda>db6.
       rbind (check_task_capacity env db6 i False) (\<lambda>_.
       Inr (\<lparr>is_detail = st_detail t', is_created = True\<rparr>, db6))))))))))))))))"

definition start_investigation ::
  "store_env \<Rightarrow> exec_namespace \<Rightarrow> start_request \<Rightarrow> inv_provider option \<Rightarrow> string \<times> string \<Rightarrow> string \<Rightarrow> job_db
     \<Rightarrow> (store_error, inv_start \<times> job_db) result" where
  "start_investigation env ns rq provider suffixes now db =
     rbind (of_inv (request_validate (se_request env) rq)) (\<lambda>_.
     rbind (of_inv (intent_hash (se_hash env) (se_request env) rq)) (\<lambda>intent.
     rbind (store_validate db ns) (\<lambda>_.
     case find (\<lambda>r. tr_nonce r = rq_request_nonce rq) (jd_tasks db) of
       Some r \<Rightarrow>
         rbind (se_require SeInvalid (length (tr_id r) \<le> 128)) (\<lambda>_.
         rbind (load_task env db (tr_id r)) (\<lambda>t.
           if st_intent_hash t \<noteq> intent then Inl SeConflict
           else Inr (\<lparr>is_detail = st_detail t, is_created = False\<rparr>, db)))
     | None \<Rightarrow>
         (case provider of
            None \<Rightarrow> Inl SeUnavailable
          | Some p \<Rightarrow>
              if \<not> (ivp_available p \<and> ivp_mode p = rq_provider_mode rq) then Inl SeUnavailable
              else create_task env ns rq intent p suffixes now db))))"

section \<open>Reading one task\<close>

definition investigation :: "store_env \<Rightarrow> exec_namespace \<Rightarrow> string \<Rightarrow> job_db \<Rightarrow> (store_error, inv_detail) result" where
  "investigation env ns i db =
     rbind (store_validate db ns) (\<lambda>_. rbind (load_task env db i) (\<lambda>t. Inr (st_detail t)))"

definition investigation_ledger ::
  "store_env \<Rightarrow> exec_namespace \<Rightarrow> string \<Rightarrow> job_db \<Rightarrow> (store_error, inv_ledger option) result" where
  "investigation_ledger env ns i db =
     rbind (store_validate db ns) (\<lambda>_. rbind (load_task env db i) (load_ledger env db))"

definition investigation_result ::
  "store_env \<Rightarrow> exec_namespace \<Rightarrow> string \<Rightarrow> job_db \<Rightarrow> (store_error, inv_result option) result" where
  "investigation_result env ns i db =
     rbind (store_validate db ns) (\<lambda>_. rbind (load_task env db i) (load_result env db))"

definition investigation_pending_step ::
  "store_env \<Rightarrow> exec_namespace \<Rightarrow> string \<Rightarrow> job_db \<Rightarrow> (store_error, (nat \<times> pending_step \<times> bool) option) result" where
  "investigation_pending_step env ns i db =
     rbind (store_validate db ns) (\<lambda>_.
     rbind (load_task env db i) (\<lambda>t.
       Inr (if st_phase t = PhConsent \<and> \<not> su_cancel_requested (summary_of t)
            then map_option (\<lambda>p. (su_revision (summary_of t), p, st_approved t)) (st_pending t)
            else None)))"

section \<open>Transitions\<close>

definition task_id_for_job :: "job_db \<Rightarrow> int \<Rightarrow> (store_error, string option) result" where
  "task_id_for_job db job_id =
     (case task_of_job db job_id of
        None \<Rightarrow> Inr None
      | Some r \<Rightarrow> if length (tr_id r) \<le> 128 then Inr (Some (tr_id r)) else Inl SeInvalid)"

definition check_identity :: "stored_task \<Rightarrow> job_execution \<Rightarrow> (store_error, unit) result" where
  "check_identity t e =
     (case st_execution t of
        None \<Rightarrow> Inl SeOwnership
      | Some x \<Rightarrow>
          se_require SeOwnership
            (sx_namespace x = ns_value (je_namespace e) \<and> sx_job_id x = je_id e \<and>
             sx_generation x = je_generation e \<and> sx_owner x = je_owner e))"

definition check_job :: "job_db \<Rightarrow> job_execution \<Rightarrow> bool \<Rightarrow> (store_error, unit) result" where
  "check_job db e allow =
     (case om_get (jd_jobs db) (je_id e) of
        None \<Rightarrow> if allow then Inr () else Inl SeOwnership
      | Some r \<Rightarrow>
          se_require SeOwnership
            (length (jr_status r) \<le> 32 \<and>
             map_option ar_generation (om_get (jd_attempts db) (je_id e)) = Some (je_generation e) \<and>
             (case om_get (jd_attempts db) (je_id e) of
                None \<Rightarrow> False
              | Some a \<Rightarrow> ar_owner a = Some (je_owner e) \<and> length (je_owner e) = 32) \<and>
             (jr_status r = ''running'' \<or> (allow \<and> jr_status r = ''cancelled''))))"

definition available_time :: "stored_task \<Rightarrow> (store_error, unit) result" where
  "available_time t =
     se_require SeCapacity
       (us_active_milliseconds (dt_usage (st_detail t)) < ivl_active_seconds (dt_limits (st_detail t)) * 1000)"

definition check_ready :: "stored_task \<Rightarrow> pending_step \<Rightarrow> (store_error, unit) result" where
  "check_ready t step =
     rbind (validate_step step) (\<lambda>_.
     rbind (se_require SeStale (st_phase t = PhReady \<and> st_ledger_hash t = Some (ps_input_ledger_hash step))) (\<lambda>_.
     available_time t))"

definition add_reported :: "nat option \<Rightarrow> nat option \<Rightarrow> bool \<Rightarrow> (store_error, nat option) result" where
  "add_reported previous current first =
     (if first then Inr current
      else (case (previous, current) of
              (Some p, Some c) \<Rightarrow> rbind (u64_add p c) (\<lambda>n. Inr (Some n))
            | _ \<Rightarrow> Inr None))"

definition clear_unmeasured_usage :: "stored_task \<Rightarrow> stored_task" where
  "clear_unmeasured_usage t =
     with_usage (\<lambda>u. u\<lparr>us_reported_input_tokens := None, us_reported_output_tokens := None\<rparr>) t"

definition sync_terminal_job :: "string \<Rightarrow> stored_task \<Rightarrow> job_db \<Rightarrow> job_db" where
  "sync_terminal_job now t db =
     (let status = (if su_cancel_requested (summary_of t) then ''cancelled''
                    else (case su_status (summary_of t) of
                            StCompleted \<Rightarrow> ''done''
                          | StInterrupted \<Rightarrow> ''interrupted''
                          | StOutcomeUnknown \<Rightarrow> ''interrupted''
                          | _ \<Rightarrow> ''failed'')) in
      snd (update_job (su_job_id (summary_of t)) active_status
        (\<lambda>r. r\<lparr>jr_status := status,
               jr_progress := (if status = ''done'' then Some 100 else jr_progress r),
               jr_error := dt_error (st_detail t), jr_updated_at := now\<rparr>) db))"

definition cancel_job_row :: "string \<Rightarrow> int \<Rightarrow> job_db \<Rightarrow> nat \<times> job_db" where
  "cancel_job_row now job_id =
     update_job job_id active_status (\<lambda>r. r\<lparr>jr_status := ''cancelled'', jr_updated_at := now\<rparr>)"

definition request_cancel ::
  "store_env \<Rightarrow> string \<Rightarrow> stored_task \<Rightarrow> job_db \<Rightarrow> (store_error, stored_task \<times> job_db) result" where
  "request_cancel env now t db =
     (let t1 = with_summary (\<lambda>s. s\<lparr>su_cancel_requested := True\<rparr>) t;
          t2 = (if st_phase t1 = PhQueued
                then with_summary (\<lambda>s. s\<lparr>su_status := StCancelled\<rparr>) (t1\<lparr>st_phase := PhTerminal\<rparr>)
                else t1) in
      rbind (bump_event env now t2 EvCancelRequested None None
        ''Cancellation requested; outstanding provider work retains its execution lease.'' db) (\<lambda>(t3, db').
      Inr (t3, snd (cancel_job_row now (su_job_id (summary_of t3)) db'))))"

definition end_task :: "inv_status \<Rightarrow> string option \<Rightarrow> stored_task \<Rightarrow> stored_task" where
  "end_task status err t =
     (let t' = with_summary (\<lambda>s. s\<lparr>su_status := status\<rparr>)
                 (t\<lparr>st_phase := PhTerminal, st_pending := None, st_approved := False, st_action_tool := None\<rparr>) in
      t'\<lparr>st_detail := (st_detail t')\<lparr>dt_error := err\<rparr>\<rparr>)"

definition stop ::
  "store_env \<Rightarrow> string \<Rightarrow> stored_task \<Rightarrow> inv_stop_reason \<Rightarrow> job_db \<Rightarrow> (store_error, stored_task \<times> job_db) result" where
  "stop env now t reason db =
     (if reason = SrOutcomeUnknown \<and> st_phase t \<noteq> PhInvocation then Inl SeStale
      else (let t1 = (if st_phase t = PhInvocation then clear_unmeasured_usage t else t);
                cancelled = (su_cancel_requested (summary_of t1) \<or> reason \<in> {SrCancelled, SrConsentDeclined});
                unknown = (reason = SrOutcomeUnknown);
                t2 = (if cancelled then with_summary (\<lambda>s. s\<lparr>su_cancel_requested := True\<rparr>) t1 else t1);
                t3 = end_task (if unknown then StOutcomeUnknown else if cancelled then StCancelled else StFailed)
                       (Some (stop_message reason)) t2 in
            rbind (bump_event env now t3
              (if unknown then EvOutcomeUnknown else if reason = SrConsentDeclined then EvConsentDeclined
               else if cancelled then EvCancelled else EvFailed) None None (stop_message reason) db) (\<lambda>(t4, db').
            Inr (t4, sync_terminal_job now t4 db'))))"

text \<open>The evidence a ledger cites: how many items, how many source bytes, how many captured bytes.\<close>

definition count_evidence :: "inv_citation \<Rightarrow> nat \<times> nat \<times> nat \<Rightarrow> (store_error, nat \<times> nat \<times> nat) result" where
  "count_evidence c st =
     (case st of (items, bytes, captured) \<Rightarrow>
        (case ic_source c of
           None \<Rightarrow> Inl SeInvalid
         | Some src \<Rightarrow>
             rbind (u64_add bytes (unat (ev_byte_end src - ev_byte_start src))) (\<lambda>b.
             case ic_origin c of
               OriginCaptured co \<Rightarrow>
                 rbind (u64_add captured (unat (cf_byte_len (cs_file (co_captured co))))) (\<lambda>n. Inr (items + 1, b, n))
             | _ \<Rightarrow> Inr (items + 1, b, captured))))"

definition usage_continues :: "inv_usage \<Rightarrow> inv_usage \<Rightarrow> inv_ledger \<Rightarrow> bool" where
  "usage_continues prior u l \<longleftrightarrow>
     us_model_invocations u = us_model_invocations prior \<and> us_tool_actions u = us_tool_actions prior \<and>
     us_evidence_requests u = us_evidence_requests prior \<and>
     us_captured_validation_bytes u = us_captured_validation_bytes prior \<and>
     us_generated_token_reservations u = us_generated_token_reservations prior \<and>
     us_reported_input_tokens u = us_reported_input_tokens prior \<and>
     us_reported_output_tokens u = us_reported_output_tokens prior \<and>
     us_active_milliseconds prior \<le> us_active_milliseconds u \<and> us_selected_facts prior \<le> us_selected_facts u \<and>
     us_evidence_items prior \<le> us_evidence_items u \<and> us_evidence_bytes prior \<le> us_evidence_bytes u \<and>
     us_selected_facts u = length (il_selected_facts l)"

definition ledger_extends :: "inv_ledger \<Rightarrow> inv_ledger \<Rightarrow> bool" where
  "ledger_extends previous l \<longleftrightarrow>
     il_revision previous < il_revision l \<and> il_graph_snapshot_id l = il_graph_snapshot_id previous \<and>
     il_scope_snapshot_id l = il_scope_snapshot_id previous \<and>
     il_supplied_history_hash l = il_supplied_history_hash previous \<and>
     il_supplied_history_bytes l = il_supplied_history_bytes previous \<and>
     set (il_selected_facts previous) \<subseteq> set (il_selected_facts l) \<and>
     set (il_citations previous) \<subseteq> set (il_citations l) \<and>
     take (length (il_queries previous)) (il_queries l) = il_queries previous \<and>
     set (il_receipt_references previous) \<subseteq> set (il_receipt_references l)"

text \<open>Receipt references are recorded once, with the first ledger that holds them.\<close>

definition insert_ref :: "string \<Rightarrow> nat \<Rightarrow> receipt_reference \<Rightarrow> job_db \<Rightarrow> job_db" where
  "insert_ref i revision r db =
     (let k = (i, rr_source_id r, rr_repo_key r, rr_receipt_id r) in
      if om_get (jd_refs db) k \<noteq> None then db else db\<lparr>jd_refs := om_put k revision (jd_refs db)\<rparr>)"

definition ready_task :: "inv_ledger \<Rightarrow> string \<Rightarrow> inv_usage \<Rightarrow> stored_task \<Rightarrow> stored_task" where
  "ready_task l fp u t =
     t\<lparr>st_ledger_revision := Some (il_revision l), st_ledger_hash := Some fp, st_action_tool := None,
       st_phase := PhReady,
       st_detail := (st_detail t)\<lparr>dt_summary := (summary_of t)\<lparr>su_graph_snapshot_id := Some (il_graph_snapshot_id l),
           su_status := StRunning\<rparr>,
         dt_scope_snapshot_id := Some (il_scope_snapshot_id l), dt_citations := il_citations l, dt_usage := u\<rparr>\<rparr>"

definition admit_input ::
  "store_env \<Rightarrow> string \<Rightarrow> stored_task \<Rightarrow> inv_ledger \<Rightarrow> inv_usage \<Rightarrow> bool \<Rightarrow> job_db
     \<Rightarrow> (store_error, stored_task \<times> job_db) result" where
  "admit_input env now t l u first db =
     (let i = su_investigation_id (summary_of t) in
      rbind (of_inv (ledger_validate (cdc_ledger (se_codec env)) l)) (\<lambda>_.
      rbind (validate_usage u (dt_limits (st_detail t))) (\<lambda>_.
      rbind (se_require SeInvalid (usage_continues (dt_usage (st_detail t)) u l)) (\<lambda>_.
      rbind (try_fold count_evidence (filter (\<lambda>c. ic_origin c \<noteq> OriginGraphMetadata) (il_citations l)) (0, 0, 0))
        (\<lambda>(items, bytes, captured).
      rbind (se_require SeInvalid (us_evidence_items u = items \<and> us_evidence_bytes u = bytes \<and>
               captured \<le> us_captured_validation_bytes u)) (\<lambda>_.
      rbind (load_ledger env db t) (\<lambda>previous.
      rbind (se_require SeConflict (option_ok (\<lambda>p. ledger_extends p l) previous)) (\<lambda>_.
      rbind (signed (il_revision l)) (\<lambda>_.
      rbind (insert_body (cdc_ledger (se_codec env) l) MAX_MANIFEST_BYTES (i, il_revision l) l (jd_inputs db)) (\<lambda>inputs.
      (let db1 = fold (insert_ref i (il_revision l)) (il_receipt_references l) (db\<lparr>jd_inputs := inputs\<rparr>) in
       rbind (of_inv (ledger_fingerprint (se_hash env) (cdc_ledger (se_codec env)) l)) (\<lambda>fp.
       bump_event env now (ready_task l fp u t) (if first then EvContextPrepared else EvToolCompleted) None
         (st_action_tool t)
         (if first then ''Frozen context and original input metadata committed.''
          else ''Tool input and its actual receipt references committed before lease release.'') db1))))))))))))"

text \<open>The arms of \<^verbatim>\<open>advance_investigation\<close>, each on the loaded task.\<close>

definition adv_input_prepared ::
  "store_env \<Rightarrow> string \<Rightarrow> stored_task \<Rightarrow> inv_ledger \<Rightarrow> inv_usage \<Rightarrow> job_db \<Rightarrow> (store_error, stored_task \<times> job_db) result" where
  "adv_input_prepared env now t l u db =
     rbind (se_require SeStale (st_phase t = PhPreparing \<and> st_ledger_revision t = None)) (\<lambda>_.
     rbind (se_require SeConflict (option_ok (\<lambda>g. g = il_graph_snapshot_id l) (st_expected_graph_revision t))) (\<lambda>_.
     admit_input env now t l u True db))"

definition adv_input_admitted ::
  "store_env \<Rightarrow> string \<Rightarrow> stored_task \<Rightarrow> inv_ledger \<Rightarrow> inv_usage \<Rightarrow> job_db \<Rightarrow> (store_error, stored_task \<times> job_db) result" where
  "adv_input_admitted env now t l u db =
     rbind (se_require SeStale (st_phase t = PhTool)) (\<lambda>_. admit_input env now t l u False db)"

definition adv_await_consent ::
  "store_env \<Rightarrow> string \<Rightarrow> stored_task \<Rightarrow> pending_step \<Rightarrow> job_db \<Rightarrow> (store_error, stored_task \<times> job_db) result" where
  "adv_await_consent env now t step db =
     rbind (check_ready t step) (\<lambda>_.
     rbind (se_require SeInvalid (ivp_mode (dt_provider (st_detail t)) = ModeCloud)) (\<lambda>_.
     (let t' = with_summary (\<lambda>s. s\<lparr>su_status := StAwaitingConsent\<rparr>)
                 (t\<lparr>st_phase := PhConsent, st_pending := Some step, st_approved := False\<rparr>) in
      bump_event env now t' EvConsentRequired (Some (ps_step_id step)) None
        ''Exact step consent is required; no provider call has started.'' db)))"

definition adv_begin_invocation ::
  "store_env \<Rightarrow> string \<Rightarrow> stored_task \<Rightarrow> pending_step \<Rightarrow> job_db \<Rightarrow> (store_error, stored_task \<times> job_db) result" where
  "adv_begin_invocation env now t step db =
     (let i = su_investigation_id (summary_of t); u = dt_usage (st_detail t) in
      rbind (validate_step step) (\<lambda>_.
      rbind (se_require SeConflict (st_ledger_hash t = Some (ps_input_ledger_hash step))) (\<lambda>_.
      rbind (case ivp_mode (dt_provider (st_detail t)) of
               ModeLocal \<Rightarrow> check_ready t step
             | ModeCloud \<Rightarrow>
                 se_require SeStale (st_phase t = PhConsent \<and> st_approved t \<and> st_pending t = Some step)) (\<lambda>_.
      rbind (available_time t) (\<lambda>_.
      rbind (u32_add (us_model_invocations u) 1) (\<lambda>calls.
      rbind (u32_add (us_generated_token_reservations u) (ps_generated_tokens step)) (\<lambda>tokens.
      (let u' = u\<lparr>us_model_invocations := calls, us_generated_token_reservations := tokens\<rparr> in
       rbind (validate_usage u' (dt_limits (st_detail t))) (\<lambda>_.
       rbind (read_body (jd_invocations db) (i, ps_step_id step)) (\<lambda>prior.
       rbind (se_require SeConflict (prior = None)) (\<lambda>_.
       rbind (insert_body (se_step env step) 4096 (i, ps_step_id step) step (jd_invocations db)) (\<lambda>invocations.
       (let t' = with_summary (\<lambda>s. s\<lparr>su_status := StRunning\<rparr>) (with_usage (\<lambda>_. u')
                   (t\<lparr>st_pending := Some step, st_approved := False, st_phase := PhInvocation\<rparr>)) in
        bump_event env now t' EvModelStarted (Some (ps_step_id step)) None
          ''Invocation boundary committed; the provider outcome is pending.''
          (db\<lparr>jd_invocations := invocations\<rparr>))))))))))))))"

text \<open>
  What a provider response must satisfy. Redacting the observed model may fail with an
  \<^verbatim>\<open>InvestigationError\<close>; \<^verbatim>\<open>From<InvestigationError>\<close> of the store turns every such error into
  \<^verbatim>\<open>Invalid\<close>, which is also the answer when the redacted text differs.
\<close>

definition response_ok :: "store_env \<Rightarrow> stored_task \<Rightarrow> pending_step \<Rightarrow> response_meta \<Rightarrow> bool" where
  "response_ok env t pending r \<longleftrightarrow>
     rm_step_id r = ps_step_id pending \<and> hash_valid (rm_response_hash r) \<and> hash_valid (rm_action_hash r) \<and>
     option_ok (\<lambda>m. m \<noteq> [] \<and> length m \<le> 256) (rm_observed_model r) \<and>
     us_active_milliseconds (dt_usage (st_detail t)) \<le> rm_active_milliseconds r \<and>
     option_ok (\<lambda>m. redacted_history_text (se_pats env) m 256 = Inr m) (rm_observed_model r)"

definition store_result ::
  "store_env \<Rightarrow> stored_task \<Rightarrow> response_meta \<Rightarrow> inv_result \<Rightarrow> job_db \<Rightarrow> (store_error, job_db) result" where
  "store_result env t r result db =
     (let i = su_investigation_id (summary_of t) in
      rbind (load_ledger env db t) (\<lambda>l.
      case l of
        None \<Rightarrow> Inl SeInvalid
      | Some l \<Rightarrow>
          rbind (of_inv (result_validate (se_hash env) (se_pats env) (se_codec env) result l)) (\<lambda>_.
          rbind (se_require SeInvalid (ir_investigation_id result = i \<and> ir_observed_model result = rm_observed_model r)) (\<lambda>_.
          rbind (insert_body (cdc_result (se_codec env) result) MAX_RESULT_BYTES i result (jd_results db)) (\<lambda>results.
          Inr (db\<lparr>jd_results := results\<rparr>))))))"

definition adv_action_admitted ::
  "store_env \<Rightarrow> string \<Rightarrow> stored_task \<Rightarrow> response_meta \<Rightarrow> inv_tool option \<Rightarrow> inv_result option \<Rightarrow> job_db
     \<Rightarrow> (store_error, stored_task \<times> job_db) result" where
  "adv_action_admitted env now t r tool result db =
     (let i = su_investigation_id (summary_of t); u = dt_usage (st_detail t) in
      rbind (se_require SeStale (st_phase t = PhInvocation \<and> (tool \<noteq> None) \<noteq> (result \<noteq> None))) (\<lambda>_.
      case st_pending t of
        None \<Rightarrow> Inl SeInvalid
      | Some pending \<Rightarrow>
          rbind (se_require SeInvalid (response_ok env t pending r)) (\<lambda>_.
          rbind (read_body (jd_invocations db) (i, rm_step_id r)) (\<lambda>invoked.
          rbind (se_require SeInvalid (invoked = Some pending)) (\<lambda>_.
          rbind (add_reported (us_reported_input_tokens u) (rm_reported_input_tokens r) (us_model_invocations u = 1)) (\<lambda>rin.
          rbind (add_reported (us_reported_output_tokens u) (rm_reported_output_tokens r) (us_model_invocations u = 1)) (\<lambda>rout.
          (let u' = u\<lparr>us_reported_input_tokens := rin, us_reported_output_tokens := rout,
                     us_active_milliseconds := rm_active_milliseconds r\<rparr> in
           rbind (validate_usage u' (dt_limits (st_detail t))) (\<lambda>_.
           rbind (case result of None \<Rightarrow> Inr db | Some res \<Rightarrow> store_result env t r res db) (\<lambda>db1.
           rbind (insert_body (se_response env r) 4096 (i, rm_step_id r) r (jd_responses db1)) (\<lambda>responses.
           (let t1 = (if result = None then t\<lparr>st_phase := PhAction\<rparr>
                      else with_summary (\<lambda>s. s\<lparr>su_status := StCompleted, su_has_result := True\<rparr>) (t\<lparr>st_phase := PhTerminal\<rparr>));
                t2 = (with_usage (\<lambda>_. u') t1)\<lparr>st_pending := None, st_approved := False, st_action_tool := tool\<rparr> in
            rbind (bump_event env now t2 EvModelCompleted (Some (rm_step_id r)) tool
              ''A complete provider response was admitted and its identity persisted.''
              (db1\<lparr>jd_responses := responses\<rparr>)) (\<lambda>(t3, db2).
            rbind (event env now t3 (if result = None then EvActionAdmitted else EvResultPersisted) (Some (rm_step_id r)) tool
              (if result = None then ''A bounded tool action was admitted; its tool has not started.''
               else ''Cited findings were persisted against the original input ledger.'') db2) (\<lambda>(t4, db3).
            Inr (t4, if result = None then db3 else sync_terminal_job now t4 db3)))))))))))))))"

definition adv_begin_tool ::
  "store_env \<Rightarrow> string \<Rightarrow> stored_task \<Rightarrow> inv_tool \<Rightarrow> job_db \<Rightarrow> (store_error, stored_task \<times> job_db) result" where
  "adv_begin_tool env now t tool db =
     (let u = dt_usage (st_detail t) in
      rbind (se_require SeStale (st_phase t = PhAction \<and> st_action_tool t = Some tool)) (\<lambda>_.
      rbind (available_time t) (\<lambda>_.
      rbind (u32_add (us_tool_actions u) 1) (\<lambda>actions.
      rbind (if tool = ReadEvidence then u32_add (us_evidence_requests u) 1 else Inr (us_evidence_requests u)) (\<lambda>requests.
      (let u' = u\<lparr>us_tool_actions := actions, us_evidence_requests := requests\<rparr> in
       rbind (validate_usage u' (dt_limits (st_detail t))) (\<lambda>_.
       bump_event env now (with_usage (\<lambda>_. u') (t\<lparr>st_phase := PhTool\<rparr>)) EvToolStarted None (Some tool)
         ''Tool attempt budget reserved before execution.'' db)))))))"

definition adv_charge_evidence ::
  "store_env \<Rightarrow> string \<Rightarrow> stored_task \<Rightarrow> nat \<Rightarrow> job_db \<Rightarrow> (store_error, stored_task \<times> job_db) result" where
  "adv_charge_evidence env now t bytes db =
     (let u = dt_usage (st_detail t) in
      rbind (se_require SeStale (st_phase t = PhTool \<and> st_action_tool t = Some ReadEvidence \<and> bytes \<noteq> 0 \<and>
               bytes \<le> 16 * 1024 * 1024)) (\<lambda>_.
      rbind (available_time t) (\<lambda>_.
      rbind (u64_add (us_captured_validation_bytes u) bytes) (\<lambda>n.
      (let u' = u\<lparr>us_captured_validation_bytes := n\<rparr> in
       rbind (validate_usage u' (dt_limits (st_detail t))) (\<lambda>_.
       bump_event env now (with_usage (\<lambda>_. u') t) EvEvidenceValidationReserved None (Some ReadEvidence)
         ''Full captured file validation bytes reserved before reading.'' db))))))"

definition adv_stop ::
  "store_env \<Rightarrow> string \<Rightarrow> stored_task \<Rightarrow> inv_stop_reason \<Rightarrow> nat \<Rightarrow> job_db \<Rightarrow> (store_error, stored_task \<times> job_db) result" where
  "adv_stop env now t reason ms db =
     rbind (se_require SeInvalid (us_active_milliseconds (dt_usage (st_detail t)) \<le> ms)) (\<lambda>_.
     stop env now (with_usage (\<lambda>u. u\<lparr>us_active_milliseconds := ms\<rparr>) t) reason db)"

definition transition_arm ::
  "store_env \<Rightarrow> string \<Rightarrow> stored_task \<Rightarrow> inv_transition \<Rightarrow> job_db \<Rightarrow> (store_error, stored_task \<times> job_db) result" where
  "transition_arm env now t tr db =
     (case tr of
        TrInputPrepared l u \<Rightarrow> adv_input_prepared env now t l u db
      | TrInputAdmitted l u \<Rightarrow> adv_input_admitted env now t l u db
      | TrAwaitConsent step \<Rightarrow> adv_await_consent env now t step db
      | TrBeginInvocation step \<Rightarrow> adv_begin_invocation env now t step db
      | TrActionAdmitted r tool result \<Rightarrow> adv_action_admitted env now t r tool result db
      | TrBeginTool tool \<Rightarrow> adv_begin_tool env now t tool db
      | TrChargeEvidence n \<Rightarrow> adv_charge_evidence env now t n db
      | TrStopWithElapsed reason ms \<Rightarrow> adv_stop env now t reason ms db)"

definition late_finish :: "inv_transition \<Rightarrow> bool" where
  "late_finish tr = (case tr of TrActionAdmitted _ _ (Some _) \<Rightarrow> True | _ \<Rightarrow> False)"

definition stopping :: "inv_transition \<Rightarrow> bool" where
  "stopping tr = (case tr of TrStopWithElapsed _ _ \<Rightarrow> True | _ \<Rightarrow> False)"

definition advance_investigation ::
  "store_env \<Rightarrow> exec_namespace \<Rightarrow> job_execution \<Rightarrow> nat \<Rightarrow> inv_transition \<Rightarrow> string \<Rightarrow> job_db
     \<Rightarrow> (store_error, inv_detail \<times> job_db) result" where
  "advance_investigation env ns e expected tr now db =
     rbind (of_job (execution_verify e)) (\<lambda>_.
     rbind (se_require SeOwnership (je_namespace e = ns)) (\<lambda>_.
     rbind (store_validate db ns) (\<lambda>_.
     rbind (task_id_for_job db (je_id e)) (\<lambda>i.
     case i of
       None \<Rightarrow> Inl SeMissing
     | Some i \<Rightarrow>
         rbind (load_task env db i) (\<lambda>t.
         rbind (check_identity t e) (\<lambda>_.
         rbind (se_require SeStale (su_revision (summary_of t) = expected)) (\<lambda>_.
         rbind (check_job db e (late_finish tr \<or> stopping tr)) (\<lambda>_.
         rbind (se_require SeStale (st_phase t \<noteq> PhTerminal)) (\<lambda>_.
         rbind (se_require SeCancelled (\<not> (su_cancel_requested (summary_of t) \<and> \<not> late_finish tr \<and> \<not> stopping tr))) (\<lambda>_.
         rbind (transition_arm env now t tr db) (\<lambda>(t', db1).
         rbind (save_task env t' expected (st_phase t' = PhTerminal) db1) (\<lambda>db2.
         Inr (st_detail t', db2)))))))))))))"

section \<open>Consent, cancellation and recovery\<close>

definition consent_decision ::
  "store_env \<Rightarrow> exec_namespace \<Rightarrow> string \<Rightarrow> nat \<Rightarrow> string \<Rightarrow> string \<Rightarrow> bool \<Rightarrow> string \<Rightarrow> job_db
     \<Rightarrow> (store_error, inv_detail \<times> job_db) result" where
  "consent_decision env ns i revision step_id payload_hash approved now db =
     rbind (store_validate db ns) (\<lambda>_.
     rbind (load_task env db i) (\<lambda>t.
     rbind (se_require SeStale
       (su_revision (summary_of t) = revision \<and> st_phase t = PhConsent \<and> \<not> st_approved t \<and>
        (case st_pending t of
           None \<Rightarrow> False | Some p \<Rightarrow> ps_step_id p = step_id \<and> ps_payload_hash p = payload_hash))) (\<lambda>_.
     rbind (se_require SeCancelled (\<not> su_cancel_requested (summary_of t))) (\<lambda>_.
     rbind (if approved
            then bump_event env now (t\<lparr>st_approved := True\<rparr>) EvConsentApproved (Some step_id) None
                   ''Exact step approved; authorization will be consumed at invocation start.'' db
            else stop env now (with_summary (\<lambda>s. s\<lparr>su_cancel_requested := True\<rparr>) t) SrConsentDeclined db) (\<lambda>(t', db1).
     rbind (save_task env t' revision (st_phase t' = PhTerminal) db1) (\<lambda>db2.
     Inr (st_detail t', db2)))))))"

definition cancel_investigation ::
  "store_env \<Rightarrow> exec_namespace \<Rightarrow> string \<Rightarrow> string \<Rightarrow> job_db \<Rightarrow> (store_error, inv_detail \<times> job_db) result" where
  "cancel_investigation env ns i now db =
     rbind (store_validate db ns) (\<lambda>_.
     rbind (load_task env db i) (\<lambda>t.
     if st_phase t \<noteq> PhTerminal \<and> \<not> su_cancel_requested (summary_of t)
     then rbind (request_cancel env now t db) (\<lambda>(t', db1).
          rbind (save_task env t' (su_revision (summary_of t)) True db1) (\<lambda>db2. Inr (st_detail t', db2)))
     else Inr (st_detail t, db)))"

definition investigation_recovery_candidates ::
  "store_env \<Rightarrow> exec_namespace \<Rightarrow> job_db \<Rightarrow> (store_error, inv_recovery_candidate list) result" where
  "investigation_recovery_candidates env ns db =
     rbind (store_validate db ns) (\<lambda>_.
     (let rows = take 3 (filter tr_live (jd_tasks db)) in
      rbind (se_require SeInvalid (length rows \<le> MAX_LIVE_TASKS)) (\<lambda>_.
      rbind (try_map (\<lambda>r. rbind (se_require SeInvalid (length (tr_id r) \<le> 128)) (\<lambda>_. load_task env db (tr_id r))) rows) (\<lambda>ts.
      Inr (map (\<lambda>t. \<lparr>rc_id = su_investigation_id (summary_of t), rc_revision = su_revision (summary_of t),
                    rc_identity = st_execution t,
                    rc_target = \<lparr>lt_namespace = ns, lt_id = su_job_id (summary_of t), lt_existing = True\<rparr>\<rparr>)
             (filter (\<lambda>t. st_execution t \<noteq> None) ts))))))"

definition recover_investigation ::
  "store_env \<Rightarrow> exec_namespace \<Rightarrow> inv_recovery_candidate \<Rightarrow> execution_reservation \<Rightarrow> string \<Rightarrow> job_db
     \<Rightarrow> (store_error, inv_detail option \<times> job_db) result" where
  "recover_investigation env ns c rv now db =
     rbind (of_job (rv_verify rv)) (\<lambda>_.
     rbind (se_require SeOwnership
       (lt_namespace (rv_target rv) = ns \<and> lt_id (rv_target rv) = lt_id (rc_target c) \<and>
        lt_existing (rv_target rv) = lt_existing (rc_target c) \<and> lt_namespace (rc_target c) = ns)) (\<lambda>_.
     rbind (store_validate db ns) (\<lambda>_.
     rbind (load_task env db (rc_id c)) (\<lambda>t.
     if st_phase t = PhTerminal \<or> su_revision (summary_of t) \<noteq> rc_revision c \<or> st_execution t \<noteq> rc_identity c
     then Inr (None, db)
     else (let unknown = (st_phase t = PhInvocation);
               t1 = end_task (if unknown then StOutcomeUnknown else StInterrupted)
                 (Some (if unknown then ''A started invocation has no durable admitted outcome; it was not replayed.''
                        else ''The execution owner stopped and its transient input was lost; work was not resumed.''))
                 (if unknown then clear_unmeasured_usage t else t) in
           rbind (bump_event env now t1 (if unknown then EvOutcomeUnknown else EvInterrupted) None None
             (if unknown then ''Owner death confirmed; the started invocation outcome is unknown.''
              else ''Owner death confirmed; transient preparation was interrupted.'') db) (\<lambda>(t2, db1).
           rbind (save_task env t2 (su_revision (summary_of t)) True (sync_terminal_job now t2 db1)) (\<lambda>db2.
           Inr (Some (st_detail t2), db2))))))))"

text \<open>What the job ledger calls when a job is claimed and when it is cancelled.\<close>

definition attach_execution ::
  "store_env \<Rightarrow> exec_namespace \<Rightarrow> int \<Rightarrow> string \<Rightarrow> int \<Rightarrow> string \<Rightarrow> string \<Rightarrow> job_db \<Rightarrow> (store_error, job_db) result" where
  "attach_execution env ns job_id kind generation owner now db =
     rbind (task_id_for_job db job_id) (\<lambda>i.
     if \<not> starts_with KIND_PREFIX kind \<and> i = None then Inr db
     else rbind (store_validate db ns) (\<lambda>_.
     case i of
       None \<Rightarrow> Inl SeInvalid
     | Some i \<Rightarrow>
         rbind (se_require SeInvalid (kind = KIND_PREFIX @ i)) (\<lambda>_.
         rbind (load_task env db i) (\<lambda>t.
         rbind (se_require SeStale (st_phase t = PhQueued \<and> st_execution t = None \<and>
                  \<not> su_cancel_requested (summary_of t) \<and> generation = 1)) (\<lambda>_.
         (let t1 = with_summary (\<lambda>s. s\<lparr>su_status := StPreparing\<rparr>)
                (t\<lparr>st_execution := Some \<lparr>sx_namespace = ns_value ns, sx_job_id = job_id,
                     sx_generation = generation, sx_owner = owner\<rparr>, st_phase := PhPreparing\<rparr>) in
          rbind (bump_event env now t1 EvPreparationStarted None None
            ''Execution ownership attached atomically; preparation started.'' db) (\<lambda>(t2, db1).
          save_task env t2 (su_revision (summary_of t)) False db1)))))))"

definition cancel_for_job ::
  "store_env \<Rightarrow> exec_namespace \<Rightarrow> int \<Rightarrow> string \<Rightarrow> job_db \<Rightarrow> (store_error, job_db) result" where
  "cancel_for_job env ns job_id now db =
     rbind (task_id_for_job db job_id) (\<lambda>i.
     case i of
       None \<Rightarrow> Inr db
     | Some i \<Rightarrow>
         rbind (store_validate db ns) (\<lambda>_.
         rbind (load_task env db i) (\<lambda>t.
         if st_phase t \<noteq> PhTerminal \<and> \<not> su_cancel_requested (summary_of t)
         then rbind (request_cancel env now t db) (\<lambda>(t', db1). save_task env t' (su_revision (summary_of t)) True db1)
         else Inr db)))"

end
