(* ===== verification/Job_Ledger.thy ===== *)
theory Job_Ledger
  imports Investigation_Store
begin

text \<open>
  The durable job ledger (\<^verbatim>\<open>src-tauri/src/jobs.rs\<close> and \<^verbatim>\<open>jobs/execution.rs\<close>): enqueueing,
  cancelling and clearing jobs, claiming an execution with a new generation and owner token, recovery
  of jobs whose worker died, and the updates a worker makes under its execution handle. The OS lock a
  reservation holds is represented by what checking it answers; the owner token drawn by a claim is
  its argument.
\<close>

datatype claim_mode = StartQueued | RetryTerminal

record claim_plan =
  cp_job :: job
  cp_attempt :: attempt_row
  cp_target :: lock_target

datatype execution_check = CheckRunning | CheckCancelled | CheckTerminal

datatype execution_update = Applied job | Unchanged job

datatype job_update = UpProgress string rat | UpFinish string | UpFail string

definition of_store :: "(sql_error, 'a) result \<Rightarrow> (job_error, 'a) result" where
  "of_store r = (case r of Inl e \<Rightarrow> Inl (JeStore e) | Inr x \<Rightarrow> Inr x)"

definition missing :: "(sql_error, 'a) result \<Rightarrow> (job_error, 'a) result" where
  "missing r =
     (case r of Inl SqlNoRows \<Rightarrow> Inl JeMissing | Inl e \<Rightarrow> Inl (JeStore e) | Inr x \<Rightarrow> Inr x)"

definition je_require :: "job_error \<Rightarrow> bool \<Rightarrow> (job_error, unit) result" where
  "je_require e ok = (if ok then Inr () else Inl e)"

definition one_row :: "nat \<times> job_db \<Rightarrow> (job_error, job_db) result" where
  "one_row r = (if fst r = 1 then Inr (snd r) else Inl (JeStore SqlInvalidQuery))"

definition metadata_error :: "(store_error, 'a) result \<Rightarrow> (job_error, 'a) result" where
  "metadata_error r = (case r of Inl _ \<Rightarrow> Inl JeInvalidMetadata | Inr x \<Rightarrow> Inr x)"

section \<open>Queueing, cancelling, clearing\<close>

definition enqueue :: "exec_namespace \<Rightarrow> string \<Rightarrow> string \<Rightarrow> job_db \<Rightarrow> (sql_error, job \<times> job_db) result" where
  "enqueue ns kind now db =
     rbind (exec_validate db ns) (\<lambda>_.
     rbind (insert_job now kind db) (\<lambda>(i, db1).
     rbind (insert_attempt i db1) (\<lambda>db2.
     rbind (read_job db2 i) (\<lambda>j. Inr (j, db2)))))"

definition cancel :: "store_env \<Rightarrow> exec_namespace \<Rightarrow> int \<Rightarrow> string \<Rightarrow> job_db \<Rightarrow> (job_error, job \<times> job_db) result" where
  "cancel env ns i now db =
     rbind (of_store (exec_validate db ns)) (\<lambda>_.
     rbind (missing (read_job db i)) (\<lambda>before.
     rbind (je_require (JeInvalidFrom ''cancel'' (jr_status (jb_row before))) (active_status (jb_row before))) (\<lambda>_.
     rbind (one_row (cancel_job_row now i db)) (\<lambda>db1.
     rbind (metadata_error (cancel_for_job env ns i now db1)) (\<lambda>db2.
     rbind (of_store (read_job db2 i)) (\<lambda>j. Inr (j, db2)))))))"

definition job_finished :: "job_db \<Rightarrow> int \<Rightarrow> job_row \<Rightarrow> bool" where
  "job_finished db i r \<longleftrightarrow>
     jr_status r \<in> {''done'', ''failed'', ''cancelled''} \<or>
     (jr_status r = ''interrupted'' \<and> list_ex (\<lambda>t. tr_job_id t = i \<and> \<not> tr_live t) (jd_tasks db))"

definition clear_finished :: "exec_namespace \<Rightarrow> job_db \<Rightarrow> (sql_error, nat \<times> job_db) result" where
  "clear_finished ns db =
     rbind (exec_validate db ns) (\<lambda>_.
     (let gone = map fst (filter (\<lambda>(i, r). job_finished db i r) (jd_jobs db)) in
      Inr (length gone,
        db\<lparr>jd_attempts := om_filter (\<lambda>i. i \<notin> set gone) (jd_attempts db),
           jd_jobs := om_filter (\<lambda>i. i \<notin> set gone) (jd_jobs db)\<rparr>)))"

definition list_jobs :: "exec_namespace \<Rightarrow> job_db \<Rightarrow> (sql_error, job list) result" where
  "list_jobs ns db =
     rbind (exec_validate db ns) (\<lambda>_.
     try_map (\<lambda>(i, r). rbind (job_row_of db i r) (\<lambda>(j, _). Inr j)) (rev (jd_jobs db)))"

definition get_job :: "exec_namespace \<Rightarrow> int \<Rightarrow> job_db \<Rightarrow> (sql_error, job) result" where
  "get_job ns i db = rbind (exec_validate db ns) (\<lambda>_. read_job db i)"

section \<open>Claiming\<close>

definition plan :: "exec_namespace \<Rightarrow> job \<Rightarrow> attempt_row \<Rightarrow> claim_plan" where
  "plan ns j a =
     \<lparr>cp_job = j, cp_attempt = a,
      cp_target = \<lparr>lt_namespace = ns, lt_id = jb_id j, lt_existing = (ar_generation a > 0)\<rparr>\<rparr>"

definition matches_plan :: "job_db \<Rightarrow> claim_plan \<Rightarrow> (job_error, bool) result" where
  "matches_plan db p =
     (case read_state db (jb_id (cp_job p)) of
        Inl SqlNoRows \<Rightarrow> Inr False
      | Inl e \<Rightarrow> Inl (JeStore e)
      | Inr (j, a) \<Rightarrow>
          Inr (jr_kind (jb_row j) = jr_kind (jb_row (cp_job p)) \<and>
               jr_status (jb_row j) = jr_status (jb_row (cp_job p)) \<and> a = Some (cp_attempt p)))"

definition claim_plan_for :: "exec_namespace \<Rightarrow> int \<Rightarrow> claim_mode \<Rightarrow> job_db \<Rightarrow> (job_error, claim_plan) result" where
  "claim_plan_for ns i mode db =
     rbind (of_store (exec_validate db ns)) (\<lambda>_.
     rbind (missing (read_state db i)) (\<lambda>(j, a).
     case a of
       None \<Rightarrow> Inl JeLegacyUnknown
     | Some a \<Rightarrow>
         (let status = jr_status (jb_row j) in
          if mode = RetryTerminal \<and> starts_with KIND_PREFIX (jr_kind (jb_row j))
          then Inl (JeInvalidFrom ''retry investigation; request an explicit follow-up for'' ''coordinator-owned history'')
          else if \<not> (case mode of
                       StartQueued \<Rightarrow> status = ''queued'' \<and> ar_generation a = 0
                     | RetryTerminal \<Rightarrow> status \<in> {''failed'', ''cancelled'', ''interrupted''})
          then Inl (JeInvalidFrom (case mode of StartQueued \<Rightarrow> ''start'' | RetryTerminal \<Rightarrow> ''retry'') status)
          else Inr (plan ns j a))))"

definition check_reservation ::
  "exec_namespace \<Rightarrow> claim_plan \<Rightarrow> execution_reservation \<Rightarrow> (job_error, unit) result" where
  "check_reservation ns p rv =
     rbind (je_require JeForeignStore
       (lt_namespace (cp_target p) = ns \<and> lt_namespace (rv_target rv) = ns \<and>
        lt_id (rv_target rv) = jb_id (cp_job p) \<and> lt_existing (rv_target rv) = lt_existing (cp_target p))) (\<lambda>_.
     rv_verify rv)"

definition next_generation :: "int \<Rightarrow> (job_error, int) result" where
  "next_generation g = (if g + 1 > i64_max then Inl JeGenerationOverflow else Inr (g + 1))"

text \<open>\<^verbatim>\<open>UPDATE job_attempts ... WHERE job_id, generation, owner IS\<close>.\<close>

definition bump_attempt :: "int \<Rightarrow> attempt_row \<Rightarrow> attempt_row \<Rightarrow> job_db \<Rightarrow> nat \<times> job_db" where
  "bump_attempt i old new db =
     (case om_get (jd_attempts db) i of
        None \<Rightarrow> (0, db)
      | Some a \<Rightarrow>
          if ar_generation a = ar_generation old \<and> ar_owner a = ar_owner old
          then (1, db\<lparr>jd_attempts := om_put i new (jd_attempts db)\<rparr>) else (0, db))"

definition claim_execution ::
  "store_env \<Rightarrow> exec_namespace \<Rightarrow> claim_plan \<Rightarrow> execution_reservation \<Rightarrow> string \<Rightarrow> string \<Rightarrow> job_db
     \<Rightarrow> (job_error, job \<times> job_execution \<times> job_db) result" where
  "claim_execution env ns p rv owner now db =
     (let i = jb_id (cp_job p); r = jb_row (cp_job p) in
      rbind (check_reservation ns p rv) (\<lambda>_.
      rbind (of_store (exec_validate db ns)) (\<lambda>_.
      rbind (matches_plan db p) (\<lambda>ok.
      rbind (je_require JeStaleAttempt ok) (\<lambda>_.
      rbind (next_generation (ar_generation (cp_attempt p))) (\<lambda>g.
      rbind (one_row (bump_attempt i (cp_attempt p) \<lparr>ar_generation = g, ar_owner = Some owner\<rparr> db)) (\<lambda>db1.
      rbind (one_row (update_job i (\<lambda>x. jr_kind x = jr_kind r \<and> jr_status x = jr_status r)
        (\<lambda>x. x\<lparr>jr_status := ''running'', jr_stage := None, jr_progress := None, jr_error := None,
               jr_updated_at := now\<rparr>) db1)) (\<lambda>db2.
      rbind (metadata_error (attach_execution env ns i (jr_kind r) g owner now db2)) (\<lambda>db3.
      rbind (of_store (read_job db3 i)) (\<lambda>j.
      Inr (j, \<lparr>je_namespace = ns, je_id = i, je_generation = g, je_owner = owner, je_reservation = rv\<rparr>, db3)))))))))))"

section \<open>Recovery\<close>

definition recovery_candidate_row :: "job_db \<Rightarrow> int \<times> job_row \<Rightarrow> bool" where
  "recovery_candidate_row db p =
     (case p of (i, r) \<Rightarrow>
        jr_status r = ''running'' \<and> om_get (jd_attempts db) i \<noteq> None \<and> task_of_job db i = None)"

definition recovery_candidates :: "exec_namespace \<Rightarrow> job_db \<Rightarrow> (job_error, claim_plan list) result" where
  "recovery_candidates ns db =
     rbind (of_store (exec_validate db ns)) (\<lambda>_.
     rbind (of_store (try_map (\<lambda>(i, r). job_row_of db i r) (filter (recovery_candidate_row db) (jd_jobs db)))) (\<lambda>states.
     try_map (\<lambda>(j, a). case a of
        None \<Rightarrow> Inl JeInvalidMetadata
      | Some a \<Rightarrow> if ar_generation a = 0 then Inl JeInvalidMetadata else Inr (plan ns j a)) states))"

text \<open>The guard \<^verbatim>\<open>EXISTS (SELECT 1 FROM job_attempts ...)\<close> on the current generation and owner.\<close>

definition owned_by :: "job_db \<Rightarrow> int \<Rightarrow> int \<Rightarrow> string option \<Rightarrow> bool" where
  "owned_by db i g owner =
     (case om_get (jd_attempts db) i of
        None \<Rightarrow> False | Some a \<Rightarrow> ar_generation a = g \<and> ar_owner a = owner \<and> owner \<noteq> None)"

definition recover_reserved ::
  "exec_namespace \<Rightarrow> claim_plan \<Rightarrow> execution_reservation \<Rightarrow> string \<Rightarrow> job_db \<Rightarrow> (job_error, job option \<times> job_db) result" where
  "recover_reserved ns p rv now db =
     (let i = jb_id (cp_job p) in
      rbind (check_reservation ns p rv) (\<lambda>_.
      rbind (of_store (exec_validate db ns)) (\<lambda>_.
      rbind (matches_plan db p) (\<lambda>ok.
      if \<not> ok then Inr (None, db)
      else rbind (one_row (update_job i
             (\<lambda>x. jr_status x = ''running'' \<and> owned_by db i (ar_generation (cp_attempt p)) (ar_owner (cp_attempt p)))
             (\<lambda>x. x\<lparr>jr_status := ''interrupted'', jr_updated_at := now\<rparr>) db)) (\<lambda>db1.
           rbind (of_store (read_job db1 i)) (\<lambda>j. Inr (Some j, db1)))))))"

section \<open>Updates under an execution handle\<close>

definition checked_job :: "job_db \<Rightarrow> job_execution \<Rightarrow> (job_error, job) result" where
  "checked_job db e =
     rbind (missing (read_state db (je_id e))) (\<lambda>(j, a).
     rbind (je_require JeStaleAttempt
       (case a of None \<Rightarrow> False | Some a \<Rightarrow> ar_generation a = je_generation e \<and> ar_owner a = Some (je_owner e))) (\<lambda>_.
     Inr j))"

definition validate_handle :: "exec_namespace \<Rightarrow> job_execution \<Rightarrow> (job_error, unit) result" where
  "validate_handle ns e =
     rbind (je_require JeForeignStore (je_namespace e = ns)) (\<lambda>_. execution_verify e)"

definition check_execution :: "exec_namespace \<Rightarrow> job_execution \<Rightarrow> job_db \<Rightarrow> (job_error, execution_check) result" where
  "check_execution ns e db =
     rbind (validate_handle ns e) (\<lambda>_.
     rbind (of_store (exec_validate db ns)) (\<lambda>_.
     rbind (checked_job db e) (\<lambda>j.
     (let status = jr_status (jb_row j) in
      if status = ''running'' then Inr CheckRunning
      else if status = ''cancelled'' then Inr CheckCancelled
      else if status \<in> {''done'', ''failed''} then Inr CheckTerminal
      else if status = ''interrupted'' then Inl JeStopped
      else Inl JeInvalidMetadata))))"

definition apply_update :: "job_update \<Rightarrow> string \<Rightarrow> job_row \<Rightarrow> job_row" where
  "apply_update u now r =
     (case u of
        UpProgress stage percent \<Rightarrow> r\<lparr>jr_stage := Some stage, jr_progress := Some percent, jr_updated_at := now\<rparr>
      | UpFinish artifacts \<Rightarrow>
          r\<lparr>jr_status := ''done'', jr_progress := Some 100, jr_error := None, jr_artifacts := Some artifacts,
            jr_updated_at := now\<rparr>
      | UpFail err \<Rightarrow> r\<lparr>jr_status := ''failed'', jr_error := Some err, jr_updated_at := now\<rparr>)"

definition update_execution ::
  "exec_namespace \<Rightarrow> job_execution \<Rightarrow> job_update \<Rightarrow> string \<Rightarrow> job_db \<Rightarrow> (job_error, execution_update \<times> job_db) result" where
  "update_execution ns e u now db =
     rbind (validate_handle ns e) (\<lambda>_.
     rbind (of_store (exec_validate db ns)) (\<lambda>_.
     rbind (checked_job db e) (\<lambda>j.
     (let status = jr_status (jb_row j) in
      if status \<in> {''cancelled'', ''done'', ''failed''} then Inr (Unchanged j, db)
      else if status = ''interrupted'' then Inl JeStopped
      else if status \<noteq> ''running'' then Inl JeInvalidMetadata
      else rbind (one_row (update_job (je_id e)
             (\<lambda>x. jr_status x = ''running'' \<and> owned_by db (je_id e) (je_generation e) (Some (je_owner e)))
             (apply_update u now) db)) (\<lambda>db1.
           rbind (of_store (read_job db1 (je_id e))) (\<lambda>j'. Inr (Applied j', db1)))))))"

definition clamp_percent :: "rat \<Rightarrow> rat" where
  "clamp_percent p = (if p < 0 then 0 else if p > 100 then 100 else p)"

definition progress_execution ::
  "exec_namespace \<Rightarrow> job_execution \<Rightarrow> string \<Rightarrow> percent \<Rightarrow> string \<Rightarrow> job_db
     \<Rightarrow> (job_error, execution_update \<times> job_db) result" where
  "progress_execution ns e stage p now db =
     (case p of
        NotFinite \<Rightarrow> Inl JeInvalidMetadata
      | Finite x \<Rightarrow> update_execution ns e (UpProgress stage (clamp_percent x)) now db)"

definition finish_execution ::
  "(string list \<Rightarrow> string) \<Rightarrow> exec_namespace \<Rightarrow> job_execution \<Rightarrow> string list \<Rightarrow> string \<Rightarrow> job_db
     \<Rightarrow> (job_error, execution_update \<times> job_db) result" where
  "finish_execution js ns e artifacts now db = update_execution ns e (UpFinish (js artifacts)) now db"

definition fail_execution ::
  "exec_namespace \<Rightarrow> job_execution \<Rightarrow> string \<Rightarrow> string \<Rightarrow> job_db \<Rightarrow> (job_error, execution_update \<times> job_db) result" where
  "fail_execution ns e err now db = update_execution ns e (UpFail err) now db"

end
