(* ===== verification/Job_Effects.thy ===== *)
theory Job_Effects
  imports Job_Ledger
begin

text \<open>
  What one operation of the job ledger and of the investigation store does to the jobs, the attempts,
  the tasks and the begun invocations. Each operation is a rule of \<open>spine_step\<close>; the lemmas here
  summarise it by \<open>job_evolves\<close> (attempts are fenced by generation, settled rows stay settled) and by
  its effect on at most one task, and \<open>Job_Props\<close> composes them over runs.
\<close>

section \<open>Frames of the helpers\<close>

lemma je_require_ok [simp, result_simps]: "je_require e b = Inr u \<longleftrightarrow> b"
  by (simp add: je_require_def)

lemma se_require_ok [simp, result_simps]: "se_require e b = Inr u \<longleftrightarrow> b"
  by (simp add: se_require_def)

lemma error_maps_ok [simp, result_simps]:
  "of_sql r = Inr x \<longleftrightarrow> r = Inr x" "of_inv r' = Inr x \<longleftrightarrow> r' = Inr x" "of_job r'' = Inr x \<longleftrightarrow> r'' = Inr x"
  "of_store r = Inr x \<longleftrightarrow> r = Inr x" "metadata_error r3 = Inr x \<longleftrightarrow> r3 = Inr x"
  "missing r = Inr x \<longleftrightarrow> r = Inr x"
  by (auto simp: of_sql_def of_inv_def of_job_def of_store_def metadata_error_def missing_def split: sum.splits sql_error.splits)

lemma small_steps_ok [simp, result_simps]:
  "encode bytes n = Inr x \<longleftrightarrow> x = bytes \<and> length bytes \<le> n"
  "signed v = Inr i \<longleftrightarrow> i = int v \<and> int v \<le> i64_max"
  "one_row r = Inr db \<longleftrightarrow> fst r = 1 \<and> db = snd r"
  "u32_add a b = Inr c \<longleftrightarrow> c = a + b \<and> a + b < 2 ^ 32"
  "u64_add a b = Inr c \<longleftrightarrow> c = a + b \<and> a + b < 2 ^ 64"
  by (auto simp: encode_def signed_def one_row_def u32_add_def u64_add_def checked_add64_def split: if_splits)

lemma insert_body_ok [result_simps]:
  "insert_body bytes n k v m = Inr m' \<longleftrightarrow> length bytes \<le> n \<and> om_get m k = None \<and> m' = om_put k (Intact v) m"
  by (auto simp: insert_body_def rbind_eq_Inr)

text \<open>The fields of the jobs and of the tasks, which most helpers leave alone.\<close>

definition job_part :: "job_db \<Rightarrow> (int, job_row) omap \<times> (int, attempt_row) omap \<times> int" where
  "job_part db = (jd_jobs db, jd_attempts db, jd_next_job db)"

definition task_part :: "job_db \<Rightarrow> task_row list \<times> (string \<times> string, pending_step cell) omap" where
  "task_part db = (jd_tasks db, jd_invocations db)"

definition core :: "stored_task \<Rightarrow> inv_usage \<times> pending_step option \<times> bool \<times> string \<times> provider_mode \<times> phase \<times> int" where
  "core t = (dt_usage (st_detail t), st_pending t, st_approved t, su_investigation_id (summary_of t),
     ivp_mode (dt_provider (st_detail t)), st_phase t, su_job_id (summary_of t))"

lemma update_job_frame:
  "jd_attempts (snd (update_job i g f db)) = jd_attempts db" "jd_next_job (snd (update_job i g f db)) = jd_next_job db"
  "task_part (snd (update_job i g f db)) = task_part db"
  by (auto simp: update_job_def task_part_def split: option.splits)

lemma update_job_get:
  "om_get (jd_jobs (snd (update_job i g f db))) k =
     (if k = i then map_option (\<lambda>r. if g r then f r else r) (om_get (jd_jobs db) i) else om_get (jd_jobs db) k)"
  by (auto simp: update_job_def split: option.splits)

lemma event_ok:
  assumes "event env now t kind step tool msg db = Inr (t', db')"
  shows "core t' = core t" "job_part db' = job_part db" "task_part db' = task_part db"
    "su_revision (summary_of t') = su_revision (summary_of t)"
  using assms by (auto simp: event_def Let_def rbind_eq_Inr core_def job_part_def task_part_def with_summary_def split: if_splits)

lemma bump_event_ok:
  assumes "bump_event env now t kind step tool msg db = Inr (t', db')"
  shows "core t' = core t" "job_part db' = job_part db" "task_part db' = task_part db"
proof -
  from assms obtain t1 where b: "bump now t = Inr t1" and e: "event env now t1 kind step tool msg db = Inr (t', db')"
    by (auto simp: bump_event_def rbind_eq_Inr)
  have "core t1 = core t" using b by (auto simp: bump_def rbind_eq_Inr core_def with_summary_def)
  then show "core t' = core t" "job_part db' = job_part db" "task_part db' = task_part db"
    using event_ok [OF e] by simp_all
qed

lemma save_task_ok:
  assumes "save_task env t e term db = Inr db'"
  shows "job_part db' = job_part db" "jd_invocations db' = jd_invocations db"
    "jd_tasks db' = map (\<lambda>r. if tr_id r = su_investigation_id (summary_of t) \<and> tr_revision r = int e
        then r\<lparr>tr_revision := int (su_revision (summary_of t)), tr_live := (st_phase t \<noteq> PhTerminal), tr_record := Intact t\<rparr>
        else r) (jd_tasks db)"
    "validate_stored_task env t = Inr ()"
  using assms by (auto simp: save_task_def Let_def rbind_eq_Inr job_part_def split: if_splits)

section \<open>How the jobs of the ledger evolve\<close>

definition settled :: "job_row \<Rightarrow> bool" where
  "settled r \<longleftrightarrow> jr_status r \<in> {''done'', ''failed'', ''cancelled'', ''interrupted''}"

definition ledger_wf :: "job_db \<Rightarrow> bool" where
  "ledger_wf db \<longleftrightarrow>
     (\<forall>i. om_get (jd_jobs db) i \<noteq> None \<or> om_get (jd_attempts db) i \<noteq> None \<longrightarrow> i < jd_next_job db)"

text \<open>
  Row identifiers are never reused and no row comes back; an attempt changes only by a claim of its
  job, to a higher generation; and a settled row changes only by such a claim or by its removal.
\<close>

definition job_evolves :: "int set \<Rightarrow> job_db \<Rightarrow> job_db \<Rightarrow> bool" where
  "job_evolves claimed db db' \<longleftrightarrow>
     jd_next_job db \<le> jd_next_job db' \<and>
     (\<forall>i < jd_next_job db. om_get (jd_jobs db) i = None \<longrightarrow> om_get (jd_jobs db') i = None) \<and>
     (\<forall>i < jd_next_job db. \<forall>a'. om_get (jd_attempts db') i = Some a' \<longrightarrow>
        (\<exists>a. om_get (jd_attempts db) i = Some a \<and>
           (a' = a \<or> i \<in> claimed \<and> ar_generation a < ar_generation a'))) \<and>
     (\<forall>i < jd_next_job db. \<forall>r. om_get (jd_jobs db) i = Some r \<longrightarrow> settled r \<longrightarrow> i \<notin> claimed \<longrightarrow>
        om_get (jd_jobs db') i \<in> {None, Some r})"

lemma job_evolves_refl: "job_part db' = job_part db \<Longrightarrow> job_evolves {} db db'"
  by (auto simp: job_evolves_def job_part_def)

lemma job_evolves_trans:
  assumes "job_evolves A db1 db2" "job_evolves B db2 db3"
  shows "job_evolves (A \<union> B) db1 db3"
proof -
  note a = assms(1) [unfolded job_evolves_def] and b = assms(2) [unfolded job_evolves_def]
  have nx: "jd_next_job db1 \<le> jd_next_job db3" "\<And>i. i < jd_next_job db1 \<Longrightarrow> i < jd_next_job db2"
    using a b by auto
  have att: "\<exists>x. om_get (jd_attempts db1) i = Some x \<and> (a' = x \<or> i \<in> A \<union> B \<and> ar_generation x < ar_generation a')"
    if i: "i < jd_next_job db1" and h: "om_get (jd_attempts db3) i = Some a'" for i a'
  proof -
    from b nx(2) [OF i] h obtain y where y: "om_get (jd_attempts db2) i = Some y"
      "a' = y \<or> i \<in> B \<and> ar_generation y < ar_generation a'" by blast
    from a i y(1) obtain x where "om_get (jd_attempts db1) i = Some x"
      "y = x \<or> i \<in> A \<and> ar_generation x < ar_generation y" by blast
    with y(2) show ?thesis by auto
  qed
  have row: "om_get (jd_jobs db3) i \<in> {None, Some r}"
    if i: "i < jd_next_job db1" and h: "om_get (jd_jobs db1) i = Some r" "settled r" "i \<notin> A \<union> B" for i r
  proof -
    from a i h have "om_get (jd_jobs db2) i \<in> {None, Some r}" by blast
    with b nx(2) [OF i] h show ?thesis by fastforce
  qed
  have "om_get (jd_jobs db1) i = None \<Longrightarrow> om_get (jd_jobs db3) i = None" if i: "i < jd_next_job db1" for i
    using a b i nx(2) [OF i] by blast
  with nx(1) att row show ?thesis unfolding job_evolves_def by blast
qed

lemma job_evolves_then:
  "job_evolves A db1 db2 \<Longrightarrow> job_part db3 = job_part db2 \<Longrightarrow> job_evolves A db1 db3"
  using job_evolves_trans [OF _ job_evolves_refl] by fastforce

lemma ledger_wf_part: "job_part db' = job_part db \<Longrightarrow> ledger_wf db' = ledger_wf db"
  by (simp add: ledger_wf_def job_part_def)

lemma job_part_of: "job_part db' = job_part db \<Longrightarrow> jd_jobs db' = jd_jobs db \<and> jd_attempts db' = jd_attempts db \<and> jd_next_job db' = jd_next_job db"
  by (simp add: job_part_def)

lemma update_job_evolves:
  assumes "\<And>r. g r \<Longrightarrow> \<not> settled r"
  shows "job_evolves {} db (snd (update_job i g f db))"
  using assms by (auto simp: job_evolves_def update_job_frame update_job_get)

lemma update_job_wf: "ledger_wf db \<Longrightarrow> ledger_wf (snd (update_job i g f db))"
  by (auto simp: ledger_wf_def update_job_frame update_job_get split: if_splits)

lemma active_not_settled: "active_status r \<Longrightarrow> \<not> settled r" "jr_status r = ''running'' \<Longrightarrow> \<not> settled r"
  by (auto simp: active_status_def settled_def)

text \<open>A new job: a fresh row and a fresh attempt.\<close>

lemma new_job_evolves:
  assumes "insert_job now kind db = Inr (i, db1)" "insert_attempt i db1 = Inr db2" "ledger_wf db"
  shows "job_evolves {} db db2" "ledger_wf db2" "task_part db2 = task_part db" "i = jd_next_job db"
proof -
  have below: "om_get (jd_jobs db) k = Some x \<Longrightarrow> k \<le> jd_next_job db"
    "om_get (jd_attempts db) k = Some y \<Longrightarrow> k \<le> jd_next_job db" for k x y
    using assms(3) by (auto simp: ledger_wf_def intro: less_imp_le)
  then show "ledger_wf db2"
    using assms(1,2) by (auto simp: insert_job_def insert_attempt_def ledger_wf_def split: if_splits)
  show "job_evolves {} db db2" "task_part db2 = task_part db" "i = jd_next_job db"
    using assms(1,2) by (auto simp: insert_job_def insert_attempt_def job_evolves_def task_part_def split: if_splits)
qed

section \<open>What the operations do to jobs\<close>

lemma sync_frame:
  "job_evolves {} db (sync_terminal_job now t db)" "ledger_wf db \<Longrightarrow> ledger_wf (sync_terminal_job now t db)"
  "task_part (sync_terminal_job now t db) = task_part db"
  using update_job_evolves [OF active_not_settled(1)] update_job_wf
  by (auto simp: sync_terminal_job_def Let_def update_job_frame)

lemma cancel_row_frame:
  "job_evolves {} db (snd (cancel_job_row now i db))" "ledger_wf db \<Longrightarrow> ledger_wf (snd (cancel_job_row now i db))"
  "task_part (snd (cancel_job_row now i db)) = task_part db"
  using update_job_evolves [OF active_not_settled(1)] update_job_wf
  by (auto simp: cancel_job_row_def update_job_frame)

definition quiet :: "job_db \<Rightarrow> job_db \<Rightarrow> bool" where
  "quiet db db' \<longleftrightarrow> job_evolves {} db db' \<and> (ledger_wf db \<longrightarrow> ledger_wf db')"

lemma quietI [intro]: "job_part db' = job_part db \<Longrightarrow> quiet db db'"
  unfolding quiet_def using job_evolves_refl ledger_wf_part by blast

lemma quiet_trans [trans]: "quiet a b \<Longrightarrow> quiet b c \<Longrightarrow> quiet a c"
  using job_evolves_trans [of "{}" a b "{}" c] by (simp add: quiet_def)

lemma quiet_sync: "quiet db db' \<Longrightarrow> quiet db (sync_terminal_job now t db')"
  using sync_frame(1,2) by (blast intro: quiet_trans quiet_def [THEN iffD2])

section \<open>What the transitions do to a task\<close>

abbreviation calls :: "stored_task \<Rightarrow> nat" where
  "calls t \<equiv> us_model_invocations (dt_usage (st_detail t))"

abbreviation tokens :: "stored_task \<Rightarrow> nat" where
  "tokens t \<equiv> us_generated_token_reservations (dt_usage (st_detail t))"

abbreviation task_mode :: "stored_task \<Rightarrow> provider_mode" where
  "task_mode t \<equiv> ivp_mode (dt_provider (st_detail t))"

abbreviation task_id :: "stored_task \<Rightarrow> string" where
  "task_id t \<equiv> su_investigation_id (summary_of t)"

text \<open>A change that neither begins an invocation nor grants an approval.\<close>

definition keeps :: "stored_task \<Rightarrow> stored_task \<Rightarrow> bool" where
  "keeps t t' \<longleftrightarrow>
     task_id t' = task_id t \<and> task_mode t' = task_mode t \<and> calls t' = calls t \<and> tokens t' = tokens t \<and>
     (st_approved t' \<longrightarrow> st_approved t \<and> st_pending t' = st_pending t)"

lemma keeps_core: "keeps t u \<Longrightarrow> core t' = core u \<Longrightarrow> keeps t t'"
  by (simp add: keeps_def core_def)

lemmas task_simps = with_summary_def with_usage_def end_task_def clear_unmeasured_usage_def ready_task_def

lemma end_task_keeps: "keeps t u \<Longrightarrow> keeps t (end_task st err u)"
  by (simp add: keeps_def task_simps Let_def)

lemma with_summary_keeps:
  "keeps t u \<Longrightarrow> (\<And>s. su_investigation_id (f s) = su_investigation_id s) \<Longrightarrow> keeps t (with_summary f u)"
  by (simp add: keeps_def task_simps)

text \<open>A helper that announces an event on a task derived from the loaded one.\<close>

lemma announce_ok:
  assumes "bump_event env now u kind step tool msg db = Inr (t', db')" "keeps t u"
  shows "keeps t t'" "quiet db db'" "task_part db' = task_part db"
  using bump_event_ok [OF assms(1)] keeps_core [OF assms(2)] by auto

lemma stop_ok:
  assumes "stop env now t reason db = Inr (t', db')"
  shows "keeps t t'" "quiet db db'" "task_part db' = task_part db"
proof -
  define t1 where "t1 = (if st_phase t = PhInvocation then clear_unmeasured_usage t else t)"
  define cancelled where "cancelled = (su_cancel_requested (summary_of t1) \<or> reason \<in> {SrCancelled, SrConsentDeclined})"
  define t2 where "t2 = (if cancelled then with_summary (\<lambda>s. s\<lparr>su_cancel_requested := True\<rparr>) t1 else t1)"
  have "keeps t t1" by (simp add: t1_def keeps_def task_simps)
  then have k: "keeps t t2" by (simp add: t2_def with_summary_keeps)
  have ne: "\<not> (reason = SrOutcomeUnknown \<and> st_phase t \<noteq> PhInvocation)" using assms by (auto simp: stop_def split: if_splits)
  from assms obtain st err kind msg db1 where
    b: "bump_event env now (end_task st err t2) kind None None msg db = Inr (t', db1)"
    and db': "db' = sync_terminal_job now t' db1"
    unfolding stop_def Let_def if_not_P [OF ne] t1_def [symmetric] cancelled_def [symmetric] t2_def [symmetric]
    by (auto simp: rbind_eq_Inr split del: if_split)
  note a = announce_ok [OF b end_task_keeps [OF k]]
  show "keeps t t'" "quiet db db'" "task_part db' = task_part db"
    using a quiet_sync [of db db1] by (simp_all add: db' sync_frame(3))
qed

lemma insert_refs_frame:
  "job_part (fold (insert_ref i v) rs db) = job_part db" "task_part (fold (insert_ref i v) rs db) = task_part db"
  by (induction rs arbitrary: db) (auto simp: insert_ref_def Let_def job_part_def task_part_def)

lemma admit_input_ok:
  assumes "admit_input env now t l u first db = Inr (t', db')"
  shows "keeps t t'" "quiet db db'" "task_part db' = task_part db"
proof -
  from assms obtain fp inputs kind tool msg where c: "usage_continues (dt_usage (st_detail t)) u l"
    and b: "bump_event env now (ready_task l fp u t) kind None tool msg
       (fold (insert_ref (task_id t) (il_revision l)) (il_receipt_references l) (db\<lparr>jd_inputs := inputs\<rparr>)) = Inr (t', db')"
    by (auto simp: admit_input_def Let_def rbind_eq_Inr)
  have "keeps t (ready_task l fp u t)" using c by (simp add: keeps_def task_simps usage_continues_def)
  note a = announce_ok [OF b this]
  have "quiet db (fold (insert_ref (task_id t) (il_revision l)) (il_receipt_references l) (db\<lparr>jd_inputs := inputs\<rparr>))"
    by (rule quietI) (simp only: insert_refs_frame, simp add: job_part_def)
  with a show "keeps t t'" "quiet db db'" "task_part db' = task_part db"
    by (auto intro: quiet_trans simp: insert_refs_frame) (simp_all add: task_part_def)
qed

lemma store_result_frame:
  "store_result env t r res db = Inr db' \<Longrightarrow> job_part db' = job_part db \<and> task_part db' = task_part db"
  by (auto simp: store_result_def Let_def rbind_eq_Inr job_part_def task_part_def split: option.splits)

lemma action_admitted_ok:
  assumes "adv_action_admitted env now t r tool result db = Inr (t', db')"
  shows "keeps t t'" "quiet db db'" "task_part db' = task_part db"
proof -
  from assms obtain pending where p: "st_pending t = Some pending"
    by (auto simp: adv_action_admitted_def Let_def rbind_eq_Inr split: option.splits)
  define done_task where "done_task u' = (with_usage (\<lambda>_. u') (if result = None then t\<lparr>st_phase := PhAction\<rparr>
        else with_summary (\<lambda>s. s\<lparr>su_status := StCompleted, su_has_result := True\<rparr>) (t\<lparr>st_phase := PhTerminal\<rparr>)))
        \<lparr>st_pending := None, st_approved := False, st_action_tool := tool\<rparr>" for u'
  from assms obtain rin rout db1 responses t3 db2 db3 kind msg msg2 where
    res: "(case result of None \<Rightarrow> Inr db | Some res \<Rightarrow> store_result env t r res db) = Inr db1"
    and b: "bump_event env now (done_task ((dt_usage (st_detail t))\<lparr>us_reported_input_tokens := rin,
        us_reported_output_tokens := rout, us_active_milliseconds := rm_active_milliseconds r\<rparr>))
        EvModelCompleted (Some (rm_step_id r)) tool msg (db1\<lparr>jd_responses := responses\<rparr>) = Inr (t3, db2)"
    and e: "event env now t3 kind (Some (rm_step_id r)) tool msg2 db2 = Inr (t', db3)"
    and db': "db' = (if result = None then db3 else sync_terminal_job now t' db3)"
    unfolding adv_action_admitted_def p option.case Let_def done_task_def [symmetric]
    by (auto simp: rbind_eq_Inr split del: if_split)
  have f1: "job_part db1 = job_part db" "task_part db1 = task_part db"
    using res store_result_frame by (auto split: option.splits)
  have "keeps t (done_task u')" if "us_model_invocations u' = calls t" "us_generated_token_reservations u' = tokens t" for u'
    using that by (simp add: done_task_def keeps_def task_simps)
  note a = announce_ok [OF b this] and ev = event_ok [OF e]
  have "quiet db (db1\<lparr>jd_responses := responses\<rparr>)" by (rule quietI) (use f1 in \<open>simp add: job_part_def\<close>)
  also have "quiet (db1\<lparr>jd_responses := responses\<rparr>) db2" using a(2) by simp
  also have "quiet db2 db3" using ev(2) by (rule quietI)
  finally have q: "quiet db db3" .
  show "keeps t t'" using a(1) ev(1) keeps_core by simp
  show "quiet db db'" using q quiet_sync [of db db3] by (simp add: db')
  have "task_part db3 = task_part db" using ev(3) a(3) f1(2) by (simp add: task_part_def)
  then show "task_part db' = task_part db" by (simp add: db' sync_frame(3))
qed

lemma simple_arms_ok:
  "adv_await_consent env now t step db = Inr (t', db') \<Longrightarrow> keeps t t' \<and> quiet db db' \<and> task_part db' = task_part db"
  "adv_begin_tool env now t tool db = Inr (t', db') \<Longrightarrow> keeps t t' \<and> quiet db db' \<and> task_part db' = task_part db"
  "adv_charge_evidence env now t n db = Inr (t', db') \<Longrightarrow> keeps t t' \<and> quiet db db' \<and> task_part db' = task_part db"
  "adv_stop env now t reason ms db = Inr (t', db') \<Longrightarrow> keeps t t' \<and> quiet db db' \<and> task_part db' = task_part db"
proof -
  assume a: "adv_await_consent env now t step db = Inr (t', db')"
  then obtain kind s tool msg where "bump_event env now (with_summary (\<lambda>s. s\<lparr>su_status := StAwaitingConsent\<rparr>)
      (t\<lparr>st_phase := PhConsent, st_pending := Some step, st_approved := False\<rparr>)) kind s tool msg db = Inr (t', db')"
    by (auto simp: adv_await_consent_def Let_def rbind_eq_Inr)
  from announce_ok [OF this, of t] show "keeps t t' \<and> quiet db db' \<and> task_part db' = task_part db"
    by (simp add: keeps_def task_simps)
next
  assume a: "adv_begin_tool env now t tool db = Inr (t', db')"
  then obtain kind s tl msg x y where "bump_event env now (with_usage
      (\<lambda>_. (dt_usage (st_detail t))\<lparr>us_tool_actions := x, us_evidence_requests := y\<rparr>) (t\<lparr>st_phase := PhTool\<rparr>)) kind s tl msg db = Inr (t', db')"
    by (auto simp: adv_begin_tool_def Let_def rbind_eq_Inr)
  from announce_ok [OF this, of t] show "keeps t t' \<and> quiet db db' \<and> task_part db' = task_part db"
    by (simp add: keeps_def task_simps)
next
  assume a: "adv_charge_evidence env now t n db = Inr (t', db')"
  then obtain kind s tl msg x where "bump_event env now (with_usage
      (\<lambda>_. (dt_usage (st_detail t))\<lparr>us_captured_validation_bytes := x\<rparr>) t) kind s tl msg db = Inr (t', db')"
    by (auto simp: adv_charge_evidence_def Let_def rbind_eq_Inr)
  from announce_ok [OF this, of t] show "keeps t t' \<and> quiet db db' \<and> task_part db' = task_part db"
    by (simp add: keeps_def task_simps)
next
  assume a: "adv_stop env now t reason ms db = Inr (t', db')"
  then have s: "stop env now (with_usage (\<lambda>u. u\<lparr>us_active_milliseconds := ms\<rparr>) t) reason db = Inr (t', db')"
    by (auto simp: adv_stop_def rbind_eq_Inr)
  from stop_ok [OF this] show "keeps t t' \<and> quiet db db' \<and> task_part db' = task_part db"
    by (simp add: keeps_def task_simps)
qed

text \<open>The one arm that begins an invocation.\<close>

definition begins :: "stored_task \<Rightarrow> pending_step \<Rightarrow> stored_task \<Rightarrow> bool" where
  "begins t step t' \<longleftrightarrow>
     task_id t' = task_id t \<and> task_mode t' = task_mode t \<and> calls t' = calls t + 1 \<and>
     tokens t' = tokens t + ps_generated_tokens step \<and> \<not> st_approved t' \<and>
     (task_mode t = ModeCloud \<longrightarrow> st_approved t \<and> st_pending t = Some step)"

lemma begin_ok:
  assumes "adv_begin_invocation env now t step db = Inr (t', db')"
  shows "begins t step t'" "quiet db db'" "jd_tasks db' = jd_tasks db"
    "om_get (jd_invocations db) (task_id t, ps_step_id step) = None"
    "jd_invocations db' = om_put (task_id t, ps_step_id step) (Intact step) (jd_invocations db)"
proof -
  let ?i = "om_put (task_id t, ps_step_id step) (Intact step) (jd_invocations db)"
  let ?u = "(dt_usage (st_detail t))\<lparr>us_model_invocations := calls t + 1,
        us_generated_token_reservations := tokens t + ps_generated_tokens step\<rparr>"
  have mode: "task_mode t = ModeCloud \<longrightarrow> st_approved t \<and> st_pending t = Some step"
    using assms by (auto simp: adv_begin_invocation_def Let_def rbind_eq_Inr split: provider_mode.splits)
  from assms obtain kind s tl msg where fresh: "om_get (jd_invocations db) (task_id t, ps_step_id step) = None"
    and b: "bump_event env now (with_summary (\<lambda>s. s\<lparr>su_status := StRunning\<rparr>) (with_usage (\<lambda>_. ?u)
          (t\<lparr>st_pending := Some step, st_approved := False, st_phase := PhInvocation\<rparr>))) kind s tl msg
          (db\<lparr>jd_invocations := ?i\<rparr>) = Inr (t', db')"
    by (auto simp: adv_begin_invocation_def Let_def rbind_eq_Inr insert_body_ok)
  note a = bump_event_ok [OF b]
  show "begins t step t'" using a(1) mode by (simp add: begins_def core_def task_simps)
  show "quiet db db'" using a(2) by (intro quietI) (simp add: job_part_def)
  show "jd_tasks db' = jd_tasks db" "jd_invocations db' = ?i" using a(3) by (simp_all add: task_part_def)
  show "om_get (jd_invocations db) (task_id t, ps_step_id step) = None" by (rule fresh)
qed

lemma other_arm_ok:
  assumes "transition_arm env now t tr db = Inr (t', db')" "\<And>step. tr \<noteq> TrBeginInvocation step"
  shows "keeps t t'" "quiet db db'" "task_part db' = task_part db"
  using assms admit_input_ok [of env now t] action_admitted_ok [of env now t] simple_arms_ok [of env now t]
  by (auto simp: transition_arm_def adv_input_prepared_def adv_input_admitted_def rbind_eq_Inr split: inv_transition.splits)

lemma request_cancel_ok:
  assumes "request_cancel env now t db = Inr (t', db')"
  shows "keeps t t'" "quiet db db'" "task_part db' = task_part db"
proof -
  define u where "u = (if st_phase (with_summary (\<lambda>s. s\<lparr>su_cancel_requested := True\<rparr>) t) = PhQueued
      then with_summary (\<lambda>s. s\<lparr>su_status := StCancelled\<rparr>)
        ((with_summary (\<lambda>s. s\<lparr>su_cancel_requested := True\<rparr>) t)\<lparr>st_phase := PhTerminal\<rparr>)
      else with_summary (\<lambda>s. s\<lparr>su_cancel_requested := True\<rparr>) t)"
  have "keeps t u" by (simp add: u_def keeps_def task_simps)
  from assms obtain db1 kind s tl msg where b: "bump_event env now u kind s tl msg db = Inr (t', db1)"
    and db': "db' = snd (cancel_job_row now (su_job_id (summary_of t')) db1)"
    unfolding request_cancel_def Let_def u_def [symmetric] by (auto simp: rbind_eq_Inr)
  note a = announce_ok [OF b \<open>keeps t u\<close>]
  have "quiet db1 db'" using cancel_row_frame(1,2) by (auto simp: quiet_def db')
  with a show "keeps t t'" "quiet db db'" "task_part db' = task_part db"
    by (auto intro: quiet_trans simp: db' cancel_row_frame(3))
qed

section \<open>Runs of the state spine\<close>

text \<open>
  The label of a step tells what the properties speak of: which job was claimed, which step of which
  investigation was approved, and which step was begun on which kind of provider.
\<close>

datatype spine_op =
    OpClaim int
  | OpApprove string string string
  | OpBegin string provider_mode pending_step
  | OpOther

inductive spine_step :: "store_env \<Rightarrow> exec_namespace \<Rightarrow> job_db \<Rightarrow> spine_op \<Rightarrow> job_db \<Rightarrow> bool" for env ns where
  s_enqueue: "enqueue ns kind now db = Inr (j, db') \<Longrightarrow> spine_step env ns db OpOther db'"
| s_cancel: "cancel env ns i now db = Inr (j, db') \<Longrightarrow> spine_step env ns db OpOther db'"
| s_clear: "clear_finished ns db = Inr (n, db') \<Longrightarrow> spine_step env ns db OpOther db'"
| s_claim: "claim_execution env ns p rv owner now db = Inr (j, e, db') \<Longrightarrow> spine_step env ns db (OpClaim (je_id e)) db'"
| s_recover: "recover_reserved ns p rv now db = Inr (j', db') \<Longrightarrow> spine_step env ns db OpOther db'"
| s_update: "update_execution ns e u now db = Inr (x, db') \<Longrightarrow> spine_step env ns db OpOther db'"
| s_start: "start_investigation env ns rq pv suffixes now db = Inr (st, db') \<Longrightarrow> spine_step env ns db OpOther db'"
| s_begin: "advance_investigation env ns e expected (TrBeginInvocation step) now db = Inr (d, db') \<Longrightarrow>
    spine_step env ns db (OpBegin (su_investigation_id (dt_summary d)) (ivp_mode (dt_provider d)) step) db'"
| s_advance: "advance_investigation env ns e expected tr now db = Inr (d, db') \<Longrightarrow> (\<And>step. tr \<noteq> TrBeginInvocation step) \<Longrightarrow>
    spine_step env ns db OpOther db'"
| s_approve: "consent_decision env ns i expected sid h True now db = Inr (d, db') \<Longrightarrow> spine_step env ns db (OpApprove i sid h) db'"
| s_decline: "consent_decision env ns i expected sid h False now db = Inr (d, db') \<Longrightarrow> spine_step env ns db OpOther db'"
| s_cancel_inv: "cancel_investigation env ns i now db = Inr (d, db') \<Longrightarrow> spine_step env ns db OpOther db'"
| s_recover_inv: "recover_investigation env ns c rv now db = Inr (d', db') \<Longrightarrow> spine_step env ns db OpOther db'"

inductive spine_run :: "store_env \<Rightarrow> exec_namespace \<Rightarrow> job_db \<Rightarrow> spine_op list \<Rightarrow> job_db \<Rightarrow> bool" for env ns db where
  run_nil: "spine_run env ns db [] db"
| run_snoc: "spine_run env ns db ops db1 \<Longrightarrow> spine_step env ns db1 op db2 \<Longrightarrow> spine_run env ns db (ops @ [op]) db2"

section \<open>What each operation does\<close>

lemma find_in: "find P xs = Some x \<Longrightarrow> x \<in> set xs \<and> P x"
  by (metis find_Some_iff nth_mem)

lemma load_task_ok:
  assumes "load_task env db i = Inr t"
  obtains r where "r \<in> set (jd_tasks db)" "tr_id r = i" "tr_record r = Intact t"
    "tr_revision r = int (su_revision (summary_of t))" "task_id t = i"
proof -
  from assms obtain r where row: "task_row_of db i = Some r" by (auto simp: load_task_def split: if_splits option.splits)
  then have "r \<in> set (jd_tasks db)" "tr_id r = i" by (auto simp: task_row_of_def dest: find_in)
  moreover have "tr_record r = Intact t" "tr_revision r = int (su_revision (summary_of t))" "task_id t = i"
    using assms row by (auto simp: load_task_def rbind_eq_Inr cell_value_def split: if_splits cell.splits)
  ultimately show thesis by (rule that)
qed

lemma validated_usage:
  "validate_stored_task env t = Inr () \<Longrightarrow> usage_within (dt_usage (st_detail t)) inv_limits_default"
  by (auto simp: validate_stored_task_def Let_def rbind_eq_Inr header_wellformed_def validate_usage_def)

text \<open>A committed change of one task: the loaded one, the saved one, and the saved rows.\<close>

definition replaces :: "store_env \<Rightarrow> job_db \<Rightarrow> stored_task \<Rightarrow> stored_task \<Rightarrow> job_db \<Rightarrow> bool" where
  "replaces env db t t' db' \<longleftrightarrow>
     load_task env db (task_id t) = Inr t \<and> usage_within (dt_usage (st_detail t')) inv_limits_default \<and>
     (\<exists>live. jd_tasks db' = map (\<lambda>r. if tr_id r = task_id t \<and> tr_revision r = int (su_revision (summary_of t))
        then r\<lparr>tr_revision := int (su_revision (summary_of t')), tr_live := live, tr_record := Intact t'\<rparr>
        else r) (jd_tasks db))"

lemma save_replaces:
  assumes "load_task env db i = Inr t" "save_task env t' (su_revision (summary_of t)) b db1 = Inr db2"
    "jd_tasks db1 = jd_tasks db" "task_id t' = task_id t"
  shows "replaces env db t t' db2"
proof -
  have "task_id t = i" using assms(1) by (rule load_task_ok)
  with assms save_task_ok(3,4) [OF assms(2)] show ?thesis
    unfolding replaces_def by (auto intro: validated_usage)
qed

lemma task_part_tasks: "task_part db' = task_part db \<Longrightarrow> jd_tasks db' = jd_tasks db \<and> jd_invocations db' = jd_invocations db"
  by (simp add: task_part_def)

lemma save_quiet: "save_task env t e b db = Inr db' \<Longrightarrow> quiet db db'"
  using save_task_ok(1) by blast

text \<open>An operation that changes at most one task, without beginning or approving anything.\<close>

definition plain_effect :: "store_env \<Rightarrow> job_db \<Rightarrow> job_db \<Rightarrow> bool" where
  "plain_effect env db db' \<longleftrightarrow>
     jd_invocations db' = jd_invocations db \<and>
     (jd_tasks db' = jd_tasks db \<or> (\<exists>t t'. keeps t t' \<and> replaces env db t t' db'))"

lemma plain_same: "task_part db' = task_part db \<Longrightarrow> plain_effect env db db'"
  by (simp add: plain_effect_def task_part_def)

lemma plain_save:
  assumes "load_task env db i = Inr t" "keeps t t'" "quiet db db1" "task_part db1 = task_part db"
    "save_task env t' (su_revision (summary_of t)) b db1 = Inr db2"
  shows "quiet db db2 \<and> plain_effect env db db2"
proof -
  have "replaces env db t t' db2"
    using save_replaces [OF assms(1,5)] assms(2,4) by (simp add: keeps_def task_part_def)
  moreover have "jd_invocations db2 = jd_invocations db"
    using save_task_ok(2) [OF assms(5)] assms(4) by (simp add: task_part_def)
  moreover have "quiet db db2" using assms(3) save_quiet [OF assms(5)] by (rule quiet_trans)
  ultimately show ?thesis using assms(2) by (auto simp: plain_effect_def)
qed

lemma advance_ok:
  assumes "advance_investigation env ns e expected tr now db = Inr (d, db')"
  obtains t t' db1 where "load_task env db (task_id t) = Inr t" "transition_arm env now t tr db = Inr (t', db1)"
    "save_task env t' (su_revision (summary_of t)) (st_phase t' = PhTerminal) db1 = Inr db'" "d = st_detail t'"
proof -
  from assms obtain i t t' db1 where l: "load_task env db i = Inr t" and
    "transition_arm env now t tr db = Inr (t', db1)" "su_revision (summary_of t) = expected"
    "save_task env t' expected (st_phase t' = PhTerminal) db1 = Inr db'" "d = st_detail t'"
    by (auto simp: advance_investigation_def rbind_eq_Inr split: option.splits)
  moreover have "task_id t = i" using l by (rule load_task_ok)
  ultimately show thesis using that [of t t' db1] by simp
qed

lemma advance_plain:
  assumes "advance_investigation env ns e expected tr now db = Inr (d, db')" "\<And>step. tr \<noteq> TrBeginInvocation step"
  shows "quiet db db' \<and> plain_effect env db db'"
proof -
  from assms(1) obtain t t' db1 where l: "load_task env db (task_id t) = Inr t"
    and a: "transition_arm env now t tr db = Inr (t', db1)"
    and s: "save_task env t' (su_revision (summary_of t)) (st_phase t' = PhTerminal) db1 = Inr db'"
    by (rule advance_ok)
  show ?thesis by (rule plain_save [OF l other_arm_ok [OF a assms(2)] s])
qed

lemma advance_begin:
  assumes "advance_investigation env ns e expected (TrBeginInvocation step) now db = Inr (d, db')"
  obtains t t' where "replaces env db t t' db'" "begins t step t'" "quiet db db'" "d = st_detail t'"
    "om_get (jd_invocations db) (task_id t, ps_step_id step) = None"
    "jd_invocations db' = om_put (task_id t, ps_step_id step) (Intact step) (jd_invocations db)"
proof -
  from assms obtain t t' db1 where l: "load_task env db (task_id t) = Inr t"
    and a: "adv_begin_invocation env now t step db = Inr (t', db1)"
    and s: "save_task env t' (su_revision (summary_of t)) (st_phase t' = PhTerminal) db1 = Inr db'" and d: "d = st_detail t'"
    by (rule advance_ok) (simp add: transition_arm_def)
  note b = begin_ok [OF a]
  have "replaces env db t t' db'" using save_replaces [OF l s b(3)] b(1) by (simp add: begins_def)
  moreover have "quiet db db'" using b(2) save_quiet [OF s] by (rule quiet_trans)
  moreover have "jd_invocations db' = om_put (task_id t, ps_step_id step) (Intact step) (jd_invocations db)"
    using b(5) save_task_ok(2) [OF s] by simp
  ultimately show thesis using that b(1,4) d by blast
qed

lemma consent_ok:
  assumes "consent_decision env ns i expected sid h ap now db = Inr (d, db')"
  obtains t t' where "replaces env db t t' db'" "quiet db db'" "jd_invocations db' = jd_invocations db" "task_id t = i"
    "if ap then task_id t' = task_id t \<and> task_mode t' = task_mode t \<and> calls t' = calls t \<and> tokens t' = tokens t \<and>
        (\<exists>p. st_pending t' = Some p \<and> ps_step_id p = sid \<and> ps_payload_hash p = h)
     else keeps t t'"
proof -
  from assms obtain t t' db1 where l: "load_task env db i = Inr t" and ex: "su_revision (summary_of t) = expected"
    and p: "case st_pending t of None \<Rightarrow> False | Some p \<Rightarrow> ps_step_id p = sid \<and> ps_payload_hash p = h"
    and r: "(if ap then bump_event env now (t\<lparr>st_approved := True\<rparr>) EvConsentApproved (Some sid) None
          ''Exact step approved; authorization will be consumed at invocation start.'' db
        else stop env now (with_summary (\<lambda>s. s\<lparr>su_cancel_requested := True\<rparr>) t) SrConsentDeclined db) = Inr (t', db1)"
    and s: "save_task env t' expected (st_phase t' = PhTerminal) db1 = Inr db'"
    by (auto simp: consent_decision_def rbind_eq_Inr split del: if_split)
  have i: "task_id t = i" using l by (rule load_task_ok)
  have eff: "quiet db db1 \<and> task_part db1 = task_part db \<and> task_id t' = task_id t \<and>
      (if ap then task_id t' = task_id t \<and> task_mode t' = task_mode t \<and> calls t' = calls t \<and> tokens t' = tokens t \<and>
        (\<exists>p. st_pending t' = Some p \<and> ps_step_id p = sid \<and> ps_payload_hash p = h) else keeps t t')"
  proof (cases ap)
    case True
    with r have b: "bump_event env now (t\<lparr>st_approved := True\<rparr>) EvConsentApproved (Some sid) None
          ''Exact step approved; authorization will be consumed at invocation start.'' db = Inr (t', db1)" by simp
    from bump_event_ok [OF b] p True show ?thesis
      by (auto simp: core_def split: option.splits)
  next
    case False
    with r have st: "stop env now (with_summary (\<lambda>s. s\<lparr>su_cancel_requested := True\<rparr>) t) SrConsentDeclined db = Inr (t', db1)"
      by simp
    from stop_ok [OF st] False show ?thesis
      by (auto simp: keeps_def task_simps)
  qed
  have "replaces env db t t' db'" using save_replaces [OF l s [folded ex]] eff by (simp add: task_part_def)
  moreover have "quiet db db'" using eff save_quiet [OF s] by (blast intro: quiet_trans)
  moreover have "jd_invocations db' = jd_invocations db" using save_task_ok(2) [OF s] eff by (simp add: task_part_def)
  ultimately show thesis using that i eff by blast
qed

lemma cancel_inv_plain:
  assumes "cancel_investigation env ns i now db = Inr (d, db')"
  shows "quiet db db' \<and> plain_effect env db db'"
proof -
  from assms obtain t where l: "load_task env db i = Inr t"
    and c: "(\<exists>t' db1. request_cancel env now t db = Inr (t', db1) \<and>
        save_task env t' (su_revision (summary_of t)) True db1 = Inr db') \<or> db' = db"
    by (auto simp: cancel_investigation_def rbind_eq_Inr split: if_splits)
  from c show ?thesis
  proof
    assume "\<exists>t' db1. request_cancel env now t db = Inr (t', db1) \<and> save_task env t' (su_revision (summary_of t)) True db1 = Inr db'"
    then obtain t' db1 where r: "request_cancel env now t db = Inr (t', db1)"
      and s: "save_task env t' (su_revision (summary_of t)) True db1 = Inr db'" by blast
    show ?thesis by (rule plain_save [OF l request_cancel_ok [OF r] s])
  qed (auto intro: plain_same)
qed

lemma cancel_for_job_plain:
  assumes "cancel_for_job env ns i now db = Inr db'"
  shows "quiet db db' \<and> plain_effect env db db'"
proof -
  from assms consider "db' = db"
    | k t t' db1 where "load_task env db k = Inr t" "request_cancel env now t db = Inr (t', db1)"
        "save_task env t' (su_revision (summary_of t)) True db1 = Inr db'"
    by (auto simp: cancel_for_job_def rbind_eq_Inr split: option.splits if_splits)
  then show ?thesis
  proof cases
    case (2 k t t' db1)
    show ?thesis by (rule plain_save [OF 2(1) request_cancel_ok [OF 2(2)] 2(3)])
  qed (auto intro: plain_same)
qed

lemma recover_inv_plain:
  assumes "recover_investigation env ns c rv now db = Inr (d', db')"
  shows "quiet db db' \<and> plain_effect env db db'"
proof -
  from assms consider "db' = db"
    | t u st err kind msg t' db1 where "load_task env db (rc_id c) = Inr t" "keeps t u"
        "bump_event env now (end_task st err u) kind None None msg db = Inr (t', db1)"
        "save_task env t' (su_revision (summary_of t)) True (sync_terminal_job now t' db1) = Inr db'"
  proof -
    from assms obtain t where l: "load_task env db (rc_id c) = Inr t"
      by (auto simp: recover_investigation_def rbind_eq_Inr)
    define u where "u = (if st_phase t = PhInvocation then clear_unmeasured_usage t else t)"
    have "keeps t u" by (simp add: u_def keeps_def task_simps)
    show thesis
    proof (cases "st_phase t = PhTerminal \<or> su_revision (summary_of t) \<noteq> rc_revision c \<or> st_execution t \<noteq> rc_identity c")
      case True
      with assms l have "db' = db" by (auto simp: recover_investigation_def rbind_eq_Inr)
      then show thesis by (rule that(1))
    next
      case False
      then have f: "st_phase t \<noteq> PhTerminal" "su_revision (summary_of t) = rc_revision c" "st_execution t = rc_identity c"
        by auto
      from assms l f have "\<exists>st err kind msg t' db1.
          bump_event env now (end_task st err u) kind None None msg db = Inr (t', db1) \<and>
          save_task env t' (rc_revision c) True (sync_terminal_job now t' db1) = Inr db'"
        unfolding recover_investigation_def Let_def
        by (simp add: rbind_eq_Inr u_def split del: if_split) (elim exE conjE, intro exI conjI, assumption+)
      then obtain st err kind msg t' db1 where
        "bump_event env now (end_task st err u) kind None None msg db = Inr (t', db1)"
        "save_task env t' (su_revision (summary_of t)) True (sync_terminal_job now t' db1) = Inr db'"
        using f(2) by auto
      with l \<open>keeps t u\<close> show thesis by (rule that(2))
    qed
  qed
  then show ?thesis
  proof cases
    case (2 t u st err kind msg t' db1)
    note a = announce_ok [OF 2(3) end_task_keeps [OF 2(2)]]
    show ?thesis
      by (rule plain_save [OF 2(1) a(1) quiet_sync [OF a(2)] _ 2(4)]) (simp add: sync_frame(3) a(3))
  qed (auto intro: plain_same)
qed

end
