(* ===== verification/Job_Props.thy ===== *)
theory Job_Props
  imports Job_Effects "HOL-Library.Code_Target_Numeral"
begin

text \<open>
  Properties of the job ledger and of the investigation store over every sequence of their
  operations: the handle of a claim is fenced by its generation and owner, a settled job stays
  settled until it is claimed again, and a provider is invoked at most once per step, within the
  limits, and in the cloud only after that very step was approved.
\<close>

section \<open>The remaining operations\<close>

definition identity_part :: "job_db \<Rightarrow> bool \<times> string" where
  "identity_part db = (jd_exec_schema db, jd_namespace db)"

lemma exec_validate_part: "identity_part db' = identity_part db \<Longrightarrow> exec_validate db' ns = exec_validate db ns"
  by (simp add: identity_part_def exec_validate_def read_namespace_def)

lemma helper_identity:
  "event env now t kind s tool msg db = Inr (t', db') \<Longrightarrow> identity_part db' = identity_part db"
  "bump_event env now t kind s tool msg db = Inr (t', db') \<Longrightarrow> identity_part db' = identity_part db"
  "save_task env t e b db = Inr db' \<Longrightarrow> identity_part db' = identity_part db"
  "identity_part (snd (update_job i g f db)) = identity_part db"
  by (auto simp: event_def bump_event_def save_task_def update_job_def Let_def rbind_eq_Inr identity_part_def
      split: if_splits option.splits)

lemma attach_plain:
  assumes "attach_execution env ns i kind g owner now db = Inr db'"
  shows "plain_effect env db db'" "job_part db' = job_part db" "identity_part db' = identity_part db"
proof -
  define attached where "attached t = with_summary (\<lambda>s. s\<lparr>su_status := StPreparing\<rparr>)
      (t\<lparr>st_execution := Some \<lparr>sx_namespace = ns_value ns, sx_job_id = i, sx_generation = g, sx_owner = owner\<rparr>,
         st_phase := PhPreparing\<rparr>)" for t
  have k: "keeps t (attached t)" for t by (simp add: attached_def keeps_def task_simps)
  from assms consider "db' = db"
    | k t t' db1 msg where "load_task env db k = Inr t"
        "bump_event env now (attached t) EvPreparationStarted None None msg db = Inr (t', db1)"
        "save_task env t' (su_revision (summary_of t)) False db1 = Inr db'"
    unfolding attach_execution_def Let_def attached_def [symmetric]
    by (auto simp: rbind_eq_Inr split: option.splits if_splits)
  then have "plain_effect env db db' \<and> job_part db' = job_part db \<and> identity_part db' = identity_part db"
  proof cases
    case (2 k t t' db1 msg)
    note a = announce_ok [OF 2(2) k]
    have "job_part db' = job_part db" "identity_part db' = identity_part db"
      using save_task_ok(1) [OF 2(3)] bump_event_ok(2) [OF 2(2)] helper_identity(2) [OF 2(2)] helper_identity(3) [OF 2(3)]
      by simp_all
    with plain_save [OF 2(1) a 2(3)] show ?thesis by blast
  qed (auto intro: plain_same)
  then show "plain_effect env db db'" "job_part db' = job_part db" "identity_part db' = identity_part db" by blast+
qed

lemma clear_effect:
  assumes "clear_finished ns db = Inr (n, db')"
  shows "job_evolves {} db db'" "ledger_wf db \<Longrightarrow> ledger_wf db'" "task_part db' = task_part db"
  using assms by (auto simp: clear_finished_def Let_def rbind_eq_Inr job_evolves_def ledger_wf_def task_part_def split: if_splits)

text \<open>A claim moves one attempt to the next generation and its row to \<^verbatim>\<open>running\<close>.\<close>

lemma claim_effect:
  assumes "claim_execution env ns p rv owner now db = Inr (j, e, db')"
  obtains a r where "om_get (jd_attempts db) (je_id e) = Some a" "je_generation e = ar_generation a + 1"
    "om_get (jd_attempts db') = (om_get (jd_attempts db))(je_id e \<mapsto> \<lparr>ar_generation = je_generation e, ar_owner = Some (je_owner e)\<rparr>)"
    "om_get (jd_jobs db) (je_id e) \<noteq> None" "jr_status r = ''running''"
    "om_get (jd_jobs db') = (om_get (jd_jobs db))(je_id e \<mapsto> r)"
    "jd_next_job db' = jd_next_job db" "plain_effect env db db'" "read_job db' (je_id e) = Inr j"
    "exec_validate db' ns = Inr ()" "validate_handle ns e = Inr ()"
proof -
  define claimed where "claimed x = x\<lparr>jr_status := ''running'', jr_stage := None, jr_progress := None, jr_error := None,
      jr_updated_at := now\<rparr>" for x :: job_row
  define i where "i = jb_id (cp_job p)"
  from assms obtain g db1 db2 guard kind where
    v: "rv_verify rv = Inr ()" "exec_validate db ns = Inr ()"
    and b: "fst (bump_attempt i (cp_attempt p) \<lparr>ar_generation = g, ar_owner = Some owner\<rparr> db) = 1"
      "db1 = snd (bump_attempt i (cp_attempt p) \<lparr>ar_generation = g, ar_owner = Some owner\<rparr> db)"
    and g: "g = ar_generation (cp_attempt p) + 1"
    and u: "fst (update_job i guard claimed db1) = 1" "db2 = snd (update_job i guard claimed db1)"
    and at: "attach_execution env ns i kind g owner now db2 = Inr db'"
    and rd: "read_job db' i = Inr j"
    and e: "e = \<lparr>je_namespace = ns, je_id = i, je_generation = g, je_owner = owner, je_reservation = rv\<rparr>"
    unfolding claim_execution_def Let_def i_def [symmetric] claimed_def [symmetric]
    by (auto simp: rbind_eq_Inr check_reservation_def next_generation_def split: if_splits)
  from b obtain a where a: "om_get (jd_attempts db) i = Some a" "g = ar_generation a + 1"
    and db1: "db1 = db\<lparr>jd_attempts := om_put i \<lparr>ar_generation = g, ar_owner = Some owner\<rparr> (jd_attempts db)\<rparr>"
    by (auto simp: bump_attempt_def g split: option.splits if_splits)
  from u db1 obtain r0 where r0: "om_get (jd_jobs db) i = Some r0"
    and db2: "db2 = db1\<lparr>jd_jobs := om_put i (claimed r0) (jd_jobs db1)\<rparr>"
    by (auto simp: update_job_def split: option.splits if_splits)
  note f = attach_plain [OF at]
  have same: "jd_tasks db2 = jd_tasks db" "jd_invocations db2 = jd_invocations db" "jd_inv_namespace db2 = jd_inv_namespace db" by (simp_all add: db1 db2)
  have "load_task env db2 k = load_task env db k" for k
    by (simp add: load_task_def task_row_of_def same split: option.splits)
  with f(1) have "plain_effect env db db'" by (simp add: plain_effect_def replaces_def same)
  moreover have "exec_validate db' ns = Inr ()"
    using v(2) exec_validate_part [OF f(3)] exec_validate_part [of db2 db] by (simp add: identity_part_def db1 db2)
  moreover have "validate_handle ns e = Inr ()" by (simp add: validate_handle_def rbind_eq_Inr execution_verify_def e v(1))
  moreover have "jr_status (claimed r0) = ''running''" by (simp add: claimed_def)
  ultimately show thesis using job_part_of [OF f(2)] a r0 rd
    by (intro that [of a "claimed r0"]) (auto simp: e db1 db2)
qed

lemma claim_evolves:
  assumes "claim_execution env ns p rv owner now db = Inr (j, e, db')"
  shows "job_evolves {je_id e} db db'" "ledger_wf db \<Longrightarrow> ledger_wf db'" "plain_effect env db db'"
proof -
  from assms obtain a r where c: "om_get (jd_attempts db) (je_id e) = Some a" "je_generation e = ar_generation a + 1"
    "om_get (jd_attempts db') = (om_get (jd_attempts db))(je_id e \<mapsto> \<lparr>ar_generation = je_generation e, ar_owner = Some (je_owner e)\<rparr>)"
    "om_get (jd_jobs db) (je_id e) \<noteq> None" "om_get (jd_jobs db') = (om_get (jd_jobs db))(je_id e \<mapsto> r)"
    "jd_next_job db' = jd_next_job db" "plain_effect env db db'"
    by (rule claim_effect)
  show "job_evolves {je_id e} db db'" unfolding job_evolves_def using c(1,2,4) by (auto simp: c(3,5,6))
  show "ledger_wf db \<Longrightarrow> ledger_wf db'" using c(1,4) by (auto simp: ledger_wf_def c(3,5,6))
  show "plain_effect env db db'" by (rule c(7))
qed

lemma guarded_update:
  assumes "one_row (update_job i g f db) = Inr db'" "\<And>r. g r \<Longrightarrow> \<not> settled r"
  shows "quiet db db'" "task_part db' = task_part db"
  using assms(1) update_job_evolves [OF assms(2)] update_job_wf by (auto simp: quiet_def update_job_frame)

lemma job_ops_quiet:
  "recover_reserved ns p rv now db = Inr (j', db') \<Longrightarrow> quiet db db' \<and> task_part db' = task_part db"
  "update_execution ns e u now db = Inr (x, db') \<Longrightarrow> quiet db db' \<and> task_part db' = task_part db"
  using guarded_update [OF _ active_not_settled(2)]
  by (auto simp: recover_reserved_def update_execution_def Let_def rbind_eq_Inr simp del: small_steps_ok split: if_splits)

lemma cancel_plain:
  assumes "cancel env ns i now db = Inr (j, db')"
  shows "quiet db db' \<and> plain_effect env db db'"
proof -
  from assms obtain db1 where c: "cancel_for_job env ns i now db1 = Inr db'" and db1: "db1 = snd (cancel_job_row now i db)"
    by (auto simp: cancel_def rbind_eq_Inr)
  have q: "quiet db db1" and tp: "task_part db1 = task_part db"
    using cancel_row_frame by (auto simp: quiet_def db1)
  have "jd_inv_namespace db1 = jd_inv_namespace db"
    by (auto simp: db1 cancel_job_row_def update_job_def split: option.splits)
  then have "load_task env db1 k = load_task env db k" for k
    using tp by (simp add: load_task_def task_row_of_def task_part_def split: option.splits)
  with cancel_for_job_plain [OF c] q tp show ?thesis
    by (auto simp: plain_effect_def replaces_def task_part_def intro: quiet_trans)
qed

text \<open>A new investigation: one more row, nothing begun, nothing approved.\<close>

definition creates :: "job_db \<Rightarrow> job_db \<Rightarrow> bool" where
  "creates db db' \<longleftrightarrow>
     jd_invocations db' = jd_invocations db \<and>
     (\<exists>r t. jd_tasks db' = jd_tasks db @ [r] \<and> tr_record r = Intact t \<and> tr_id r = task_id t \<and>
        tr_id r \<notin> tr_id ` set (jd_tasks db) \<and> calls t = 0 \<and> tokens t = 0 \<and> \<not> st_approved t \<and>
        usage_within (dt_usage (st_detail t)) inv_limits_default)"

lemma start_effect:
  assumes "start_investigation env ns rq pv sfx now db = Inr (st, db')" "ledger_wf db"
  shows "job_evolves {} db db' \<and> ledger_wf db' \<and> (task_part db' = task_part db \<or> creates db db')"
proof -
  from assms(1) consider "db' = db"
    | p intent where "create_task env ns rq intent p sfx now db = Inr (st, db')"
    by (auto simp: start_investigation_def rbind_eq_Inr split: option.splits if_splits)
  then show ?thesis
  proof cases
    case 1
    then show ?thesis using job_evolves_refl assms(2) by simp
  next
    case (2 p intent)
    define mk where "mk = (\<lambda>c i q sp. new_task (ns_value ns) rq intent c (''investigation:'' @ snd sfx) i q sp p now)"
    from 2 obtain db1 db2 db3 db4 db5 i c q sp kind t' msg where
      a: "add_conversation rq c now db = Inr db1"
      and n: "insert_job now kind db1 = Inr (i, db2)" "insert_attempt i db2 = Inr db3"
      and t: "insert_task env (mk c i q sp) db3 = Inr db4"
      and e: "event env now (mk c i q sp) EvCreated None None msg db4 = Inr (t', db5)"
      and s: "save_task env t' 0 True db5 = Inr db'"
      unfolding create_task_def Let_def mk_def by (auto simp: rbind_eq_Inr)
    define t where "t = mk c i q sp"
    have ct: "calls t = 0" "tokens t = 0" "\<not> st_approved t" "su_revision (summary_of t) = 0"
      by (simp_all add: t_def mk_def new_task_def usage_zero_def)
    have p1: "job_part db1 = job_part db" "task_part db1 = task_part db"
      using a by (auto simp: add_conversation_def job_part_def task_part_def rbind_eq_Inr split: if_splits)
    have wf1: "ledger_wf db1" using ledger_wf_part [OF p1(1)] assms(2) by simp
    note nj = new_job_evolves [OF n wf1]
    obtain r where db4: "jd_tasks db4 = jd_tasks db3 @ [r]" "job_part db4 = job_part db3" "jd_invocations db4 = jd_invocations db3"
      and r: "tr_id r = task_id t" "tr_record r = Intact t" "tr_revision r = 0" "\<forall>x\<in>set (jd_tasks db3). tr_id x \<noteq> task_id t"
      using t [folded t_def] ct(4) by (auto simp: insert_task_def Let_def rbind_eq_Inr job_part_def list_ex_iff split: if_splits)
    note ev = event_ok [OF e [folded t_def]] and sv = save_task_ok [OF s]
    have "job_part db' = job_part db3" using sv(1) ev(2) db4(2) by simp
    moreover have "job_evolves {} db db3" using job_evolves_trans [OF job_evolves_refl [OF p1(1)] nj(1)] by simp
    ultimately have "job_evolves {} db db'" "ledger_wf db'"
      using job_evolves_then ledger_wf_part nj(2) by blast+
    moreover have "creates db db'"
    proof -
      have tp: "jd_tasks db3 = jd_tasks db" "jd_invocations db' = jd_invocations db"
        using nj(3) p1(2) db4(3) ev(3) sv(2) by (simp_all add: task_part_def)
      have id': "task_id t' = task_id t" using ev(1) by (simp add: core_def)
      have old: "map (\<lambda>x. if tr_id x = task_id t' \<and> tr_revision x = int 0 then f x else x) (jd_tasks db) = jd_tasks db" for f
        using r(4) tp(1) id' by (intro map_idI) auto
      have "jd_tasks db5 = jd_tasks db @ [r]" using ev(3) db4(1) tp(1) by (simp add: task_part_def)
      then have "jd_tasks db' = jd_tasks db @ [r\<lparr>tr_revision := int (su_revision (summary_of t')), tr_live := st_phase t' \<noteq> PhTerminal,
          tr_record := Intact t'\<rparr>]" (is "_ = _ @ [?r]") using sv(3) r(1,3) id' old by simp
      then show ?thesis unfolding creates_def using tp r ct ev(1) id' validated_usage [OF sv(4)]
        by (intro conjI exI [of _ ?r] exI [of _ t']) (auto simp: core_def)
    qed
    ultimately show ?thesis by blast
  qed
qed

section \<open>One step\<close>

definition approves :: "stored_task \<Rightarrow> string \<Rightarrow> string \<Rightarrow> stored_task \<Rightarrow> bool" where
  "approves t sid h t' \<longleftrightarrow>
     task_id t' = task_id t \<and> task_mode t' = task_mode t \<and> calls t' = calls t \<and> tokens t' = tokens t \<and>
     (\<exists>p. st_pending t' = Some p \<and> ps_step_id p = sid \<and> ps_payload_hash p = h)"

definition task_step :: "store_env \<Rightarrow> job_db \<Rightarrow> spine_op \<Rightarrow> job_db \<Rightarrow> bool" where
  "task_step env db op db' \<longleftrightarrow>
     (case op of
        OpApprove i sid h \<Rightarrow>
          \<exists>t t'. replaces env db t t' db' \<and> task_id t = i \<and> approves t sid h t' \<and> jd_invocations db' = jd_invocations db
      | OpBegin i m step \<Rightarrow>
          \<exists>t t'. replaces env db t t' db' \<and> task_id t = i \<and> task_mode t = m \<and> begins t step t' \<and>
            om_get (jd_invocations db) (i, ps_step_id step) = None \<and>
            jd_invocations db' = om_put (i, ps_step_id step) (Intact step) (jd_invocations db)
      | _ \<Rightarrow> plain_effect env db db' \<or> creates db db')"

definition claims_of :: "spine_op list \<Rightarrow> int set" where
  "claims_of ops = {i. OpClaim i \<in> set ops}"

lemma step_effect:
  assumes "spine_step env ns db op db'" "ledger_wf db"
  shows "job_evolves (claims_of [op]) db db' \<and> ledger_wf db' \<and> task_step env db op db'"
proof -
  have other: ?thesis if "op = OpOther" "quiet db db' \<and> plain_effect env db db'"
    using that assms(2) by (simp add: quiet_def claims_of_def task_step_def)
  from assms(1) show ?thesis
  proof cases
    case (s_enqueue kind now j)
    then obtain i db1 where "insert_job now kind db = Inr (i, db1)" "insert_attempt i db1 = Inr db'"
      by (auto simp: enqueue_def rbind_eq_Inr)
    from new_job_evolves [OF this assms(2)] show ?thesis
      by (simp add: s_enqueue(1) claims_of_def task_step_def plain_same)
  next
    case (s_cancel i now j)
    then show ?thesis using other cancel_plain by simp
  next
    case (s_clear n)
    then show ?thesis using other clear_effect [OF s_clear(2)] plain_same by (simp add: quiet_def)
  next
    case (s_claim p rv owner now j e)
    from claim_evolves [OF s_claim(2)] assms(2) show ?thesis by (simp add: s_claim(1) claims_of_def task_step_def)
  next
    case (s_recover p rv now j')
    then show ?thesis using other job_ops_quiet(1) plain_same by simp
  next
    case (s_update e u now x)
    then show ?thesis using other job_ops_quiet(2) plain_same by simp
  next
    case (s_start rq pv suffixes now st)
    from start_effect [OF s_start(2) assms(2)] show ?thesis
      by (auto simp: s_start(1) claims_of_def task_step_def plain_same)
  next
    case (s_begin e expected step now d)
    from s_begin(2) obtain t t' where "replaces env db t t' db'" "begins t step t'" "quiet db db'" "d = st_detail t'"
      "om_get (jd_invocations db) (task_id t, ps_step_id step) = None"
      "jd_invocations db' = om_put (task_id t, ps_step_id step) (Intact step) (jd_invocations db)" by (rule advance_begin)
    then show ?thesis using assms(2) by (auto simp: s_begin(1) quiet_def claims_of_def task_step_def begins_def)
  next
    case (s_advance e expected tr now d)
    then show ?thesis using other advance_plain by blast
  next
    case (s_approve i expected sid h now d)
    from s_approve(2) obtain t t' where "replaces env db t t' db'" "quiet db db'" "jd_invocations db' = jd_invocations db"
      "task_id t = i" "approves t sid h t'" by (rule consent_ok) (simp add: approves_def)
    then show ?thesis using assms(2) by (auto simp: s_approve(1) quiet_def claims_of_def task_step_def)
  next
    case (s_decline i expected sid h now d)
    from s_decline(2) obtain t t' where "replaces env db t t' db'" "quiet db db'" "jd_invocations db' = jd_invocations db"
      "keeps t t'" by (rule consent_ok) simp
    then show ?thesis using other s_decline(1) by (auto simp: plain_effect_def)
  next
    case (s_cancel_inv i now d)
    then show ?thesis using other cancel_inv_plain by simp
  next
    case (s_recover_inv c rv now d')
    then show ?thesis using other recover_inv_plain by simp
  qed
qed

lemma run_effect:
  assumes "spine_run env ns db ops db'" "ledger_wf db"
  shows "job_evolves (claims_of ops) db db' \<and> ledger_wf db'"
  using assms
proof (induction rule: spine_run.induct)
  case run_nil
  then show ?case using job_evolves_refl by (simp add: claims_of_def)
next
  case (run_snoc ops db1 op db2)
  then have "job_evolves (claims_of ops) db db1" "job_evolves (claims_of [op]) db1 db2" "ledger_wf db2"
    using step_effect by blast+
  moreover have "claims_of (ops @ [op]) = claims_of ops \<union> claims_of [op]" by (auto simp: claims_of_def)
  ultimately show ?case using job_evolves_trans by simp
qed

section \<open>Fencing of executions\<close>

lemma checked_job_owner:
  assumes "checked_job db e = Inr j"
  shows "om_get (jd_jobs db) (je_id e) \<noteq> None"
    "om_get (jd_attempts db) (je_id e) = Some \<lparr>ar_generation = je_generation e, ar_owner = Some (je_owner e)\<rparr>"
  using assms
  by (auto simp: checked_job_def read_state_def job_row_of_def row_attempt_def Let_def rbind_eq_Inr split: option.splits if_splits)

lemma accepted_owner:
  assumes "check_execution ns e db = Inr c \<or> update_execution ns e u now db = Inr x"
  shows "om_get (jd_attempts db) (je_id e) = Some \<lparr>ar_generation = je_generation e, ar_owner = Some (je_owner e)\<rparr>"
proof -
  from assms obtain j where "checked_job db e = Inr j"
    by (auto simp: check_execution_def update_execution_def rbind_eq_Inr)
  then show ?thesis by (rule checked_job_owner(2))
qed

lemma claim_runs:
  assumes "claim_execution env ns p rv owner now db = Inr (j, e, db')"
  shows "check_execution ns e db' = Inr CheckRunning"
proof -
  from assms obtain a r where c:
    "om_get (jd_attempts db') = (om_get (jd_attempts db))(je_id e \<mapsto> \<lparr>ar_generation = je_generation e, ar_owner = Some (je_owner e)\<rparr>)"
    "jr_status r = ''running''" "om_get (jd_jobs db') = (om_get (jd_jobs db))(je_id e \<mapsto> r)"
    "read_job db' (je_id e) = Inr j" "exec_validate db' ns = Inr ()" "validate_handle ns e = Inr ()"
    by (rule claim_effect)
  from c(4) have "\<exists>jj. checked_job db' e = Inr jj \<and> jb_row jj = r"
    by (auto simp: read_job_def read_state_def c(1,3) job_row_of_def checked_job_def rbind_eq_Inr row_attempt_def Let_def
        of_store_def missing_def je_require_def rbind_def split: if_splits)
  with c(2,5,6) show ?thesis
    by (auto simp: check_execution_def rbind_def of_store_def Let_def)
qed

text \<open>
  C39: a claimed execution is fenced. The handle a claim returns is accepted as running at once.
  Whatever operations follow, a handle of that job is accepted for a check or an update only with a
  generation at least as high, and, unless the job was claimed again, only with exactly the generation
  and the owner token of this claim; and a row that is done, failed, cancelled or interrupted stays as
  it is, or is cleared, unless its job is claimed again.
\<close>

theorem claimed_execution_is_fenced:
  assumes "ledger_wf db" and claim: "claim_execution env ns p rv owner now db = Inr (j, e, db1)"
    and run: "spine_run env ns db1 ops db2"
  shows "check_execution ns e db1 = Inr CheckRunning \<and>
    (\<forall>e' c u now' x. je_id e' = je_id e \<longrightarrow>
      check_execution ns e' db2 = Inr c \<or> update_execution ns e' u now' db2 = Inr x \<longrightarrow>
      je_generation e \<le> je_generation e' \<and>
      (OpClaim (je_id e) \<notin> set ops \<longrightarrow> je_generation e' = je_generation e \<and> je_owner e' = je_owner e)) \<and>
    (\<forall>i r. om_get (jd_jobs db1) i = Some r \<longrightarrow> jr_status r \<in> {''done'', ''failed'', ''cancelled'', ''interrupted''} \<longrightarrow>
      OpClaim i \<notin> set ops \<longrightarrow> om_get (jd_jobs db2) i \<in> {None, Some r})"
proof -
  have wf1: "ledger_wf db1" using claim_evolves(2) [OF claim] assms(1) by blast
  have ev: "job_evolves (claims_of ops) db1 db2" using run_effect [OF run wf1] by blast
  have run1: "check_execution ns e db1 = Inr CheckRunning" using claim by (rule claim_runs)
  from claim have att: "om_get (jd_attempts db1) (je_id e) = Some \<lparr>ar_generation = je_generation e, ar_owner = Some (je_owner e)\<rparr>"
    by (rule claim_effect) simp
  then have lt: "je_id e < jd_next_job db1" using wf1 by (simp add: ledger_wf_def)
  have fence: "je_generation e \<le> je_generation e' \<and>
      (OpClaim (je_id e) \<notin> set ops \<longrightarrow> je_generation e' = je_generation e \<and> je_owner e' = je_owner e)"
    if "je_id e' = je_id e" "check_execution ns e' db2 = Inr c \<or> update_execution ns e' u now' db2 = Inr x" for e' c u now' x
  proof -
    have "om_get (jd_attempts db2) (je_id e) = Some \<lparr>ar_generation = je_generation e', ar_owner = Some (je_owner e')\<rparr>"
      using that accepted_owner by metis
    with ev lt att show ?thesis unfolding job_evolves_def claims_of_def by fastforce
  qed
  have "om_get (jd_jobs db2) i \<in> {None, Some r}"
    if h: "om_get (jd_jobs db1) i = Some r" "settled r" "OpClaim i \<notin> set ops" for i r
  proof -
    have "i < jd_next_job db1" using h(1) wf1 by (simp add: ledger_wf_def)
    with ev h show ?thesis unfolding job_evolves_def claims_of_def by blast
  qed
  with run1 fence show ?thesis unfolding settled_def by blast
qed

section \<open>Provider invocations\<close>

definition begun_steps :: "string \<Rightarrow> spine_op list \<Rightarrow> pending_step list" where
  "begun_steps i ops = concat (map (\<lambda>op. case op of OpBegin k m s \<Rightarrow> if k = i then [s] else [] | _ \<Rightarrow> []) ops)"

lemma begun_snoc [simp]:
  "begun_steps i (ops @ [op]) = begun_steps i ops @ (case op of OpBegin k m s \<Rightarrow> if k = i then [s] else [] | _ \<Rightarrow> [])"
  by (simp add: begun_steps_def)

definition reserved_tokens :: "string \<Rightarrow> spine_op list \<Rightarrow> nat" where
  "reserved_tokens i ops = sum_list (map ps_generated_tokens (begun_steps i ops))"

definition authorised :: "spine_op list \<Rightarrow> spine_op \<Rightarrow> bool" where
  "authorised past op =
     (case op of OpBegin i ModeCloud s \<Rightarrow> OpApprove i (ps_step_id s) (ps_payload_hash s) \<in> set past | _ \<Rightarrow> True)"

text \<open>Every operation is authorised by the ones before it.\<close>

fun all_authorised :: "spine_op list \<Rightarrow> spine_op list \<Rightarrow> bool" where
  "all_authorised past [] = True"
| "all_authorised past (op # ops) = (authorised past op \<and> all_authorised (past @ [op]) ops)"

lemma all_authorised_snoc:
  "all_authorised past (ops @ [op]) \<longleftrightarrow> all_authorised past ops \<and> authorised (past @ ops) op"
  by (induction ops arbitrary: past) auto

text \<open>What a stored task remembers of the operations so far.\<close>

definition task_inv :: "spine_op list \<Rightarrow> stored_task \<Rightarrow> bool" where
  "task_inv ops t \<longleftrightarrow>
     calls t = length (begun_steps (task_id t) ops) \<and> tokens t = reserved_tokens (task_id t) ops \<and>
     usage_within (dt_usage (st_detail t)) inv_limits_default \<and>
     (st_approved t \<longrightarrow> (\<exists>p. st_pending t = Some p \<and> OpApprove (task_id t) (ps_step_id p) (ps_payload_hash p) \<in> set ops))"

definition rows_inv :: "spine_op list \<Rightarrow> job_db \<Rightarrow> bool" where
  "rows_inv ops db \<longleftrightarrow>
     distinct (map tr_id (jd_tasks db)) \<and>
     (\<forall>r \<in> set (jd_tasks db). \<exists>t. tr_record r = Intact t \<and> task_id t = tr_id r \<and> task_inv ops t)"

definition calls_inv :: "spine_op list \<Rightarrow> job_db \<Rightarrow> bool" where
  "calls_inv ops db \<longleftrightarrow>
     rows_inv ops db \<and>
     (\<forall>i. i \<notin> tr_id ` set (jd_tasks db) \<longrightarrow> begun_steps i ops = []) \<and>
     (\<forall>i. \<forall>s \<in> set (begun_steps i ops). om_get (jd_invocations db) (i, ps_step_id s) \<noteq> None) \<and>
     (\<forall>i. distinct (map ps_step_id (begun_steps i ops))) \<and> all_authorised [] ops"

lemma replaces_rows:
  assumes rep: "replaces env db t t' db'" and inv: "rows_inv ops db" and id: "task_id t' = task_id t"
    and new: "task_inv ops t \<Longrightarrow> task_inv ops' t'"
    and others: "\<And>u. task_id u \<noteq> task_id t \<Longrightarrow> task_inv ops u \<Longrightarrow> task_inv ops' u"
  shows "rows_inv ops' db' \<and> tr_id ` set (jd_tasks db') = tr_id ` set (jd_tasks db) \<and> task_inv ops t"
proof -
  from rep obtain live where l: "load_task env db (task_id t) = Inr t"
    and tasks: "jd_tasks db' = map (\<lambda>r. if tr_id r = task_id t \<and> tr_revision r = int (su_revision (summary_of t))
        then r\<lparr>tr_revision := int (su_revision (summary_of t')), tr_live := live, tr_record := Intact t'\<rparr>
        else r) (jd_tasks db)" by (auto simp: replaces_def)
  from l obtain r0 where r0: "r0 \<in> set (jd_tasks db)" "tr_id r0 = task_id t" "tr_record r0 = Intact t"
    "tr_revision r0 = int (su_revision (summary_of t))" by (rule load_task_ok)
  have ids: "map tr_id (jd_tasks db') = map tr_id (jd_tasks db)" by (simp add: tasks)
  have uniq: "r = r0" if "r \<in> set (jd_tasks db)" "tr_id r = task_id t" for r
    using inv that r0(1,2) by (auto simp: rows_inv_def distinct_map inj_on_def)
  have old: "task_inv ops t" using inv r0(1,3) by (auto simp: rows_inv_def)
  have "\<exists>u. tr_record r = Intact u \<and> task_id u = tr_id r \<and> task_inv ops' u" if r: "r \<in> set (jd_tasks db')" for r
  proof -
    from r obtain x where x: "x \<in> set (jd_tasks db)" and rx: "r = (if tr_id x = task_id t \<and> tr_revision x = int (su_revision (summary_of t))
        then x\<lparr>tr_revision := int (su_revision (summary_of t')), tr_live := live, tr_record := Intact t'\<rparr> else x)"
      by (auto simp: tasks)
    show ?thesis
    proof (cases "tr_id x = task_id t")
      case True
      with uniq [OF x] r0 rx id new [OF old] show ?thesis by simp
    next
      case False
      from inv x obtain u where u: "tr_record x = Intact u" "task_id u = tr_id x" "task_inv ops u" by (auto simp: rows_inv_def)
      with False others [of u] rx show ?thesis by simp
    qed
  qed
  moreover have "distinct (map tr_id (jd_tasks db'))" using inv by (simp add: ids rows_inv_def)
  moreover have "tr_id ` set (jd_tasks db') = tr_id ` set (jd_tasks db)" using ids by (metis set_map)
  ultimately show ?thesis using old by (auto simp: rows_inv_def)
qed

lemma task_inv_other: "task_inv ops t \<Longrightarrow> (\<And>m s. op \<noteq> OpBegin (task_id t) m s) \<Longrightarrow> task_inv (ops @ [op]) t"
  by (auto simp: task_inv_def reserved_tokens_def split: spine_op.splits)

lemma step_rows:
  assumes "task_step env db op db'" "rows_inv ops db"
    and absent: "\<And>i. i \<notin> tr_id ` set (jd_tasks db) \<Longrightarrow> begun_steps i ops = []"
  shows "rows_inv (ops @ [op]) db' \<and> tr_id ` set (jd_tasks db) \<subseteq> tr_id ` set (jd_tasks db')"
proof -
  have same: "rows_inv (ops @ [op]) db'" if "jd_tasks db' = jd_tasks db" "\<And>i m s. op \<noteq> OpBegin i m s"
    using assms(2) that task_inv_other by (fastforce simp: rows_inv_def)
  have replaced: "rows_inv (ops @ [op]) db' \<and> tr_id ` set (jd_tasks db') = tr_id ` set (jd_tasks db) \<and> task_inv ops t"
    if "replaces env db t t' db'" "task_id t' = task_id t" "task_inv ops t \<Longrightarrow> task_inv (ops @ [op]) t'"
      "\<And>i m s. op = OpBegin i m s \<Longrightarrow> i = task_id t" for t t'
    using that by (intro replaces_rows [OF that(1) assms(2) that(2,3)]) (auto intro: task_inv_other)
  have plain: ?thesis if "plain_effect env db db' \<or> creates db db'" "\<And>i m s. op \<noteq> OpBegin i m s"
  proof -
    from that(1) consider "jd_tasks db' = jd_tasks db" | t t' where "keeps t t'" "replaces env db t t' db'" | "creates db db'"
      by (auto simp: plain_effect_def)
    then show ?thesis
    proof cases
      case 1
      then show ?thesis using same that(2) by simp
    next
      case (2 t t')
      have "task_inv (ops @ [op]) t'" if "task_inv ops t"
        using task_inv_other [OF that, of op] \<open>\<And>i m s. op \<noteq> OpBegin i m s\<close> 2
        by (auto simp: task_inv_def keeps_def replaces_def)
      then show ?thesis using replaced [OF 2(2)] 2(1) that(2) by (auto simp: keeps_def)
    next
      case 3
      then obtain r t where c: "jd_tasks db' = jd_tasks db @ [r]" "tr_record r = Intact t" "tr_id r = task_id t"
        "tr_id r \<notin> tr_id ` set (jd_tasks db)" "calls t = 0" "tokens t = 0" "\<not> st_approved t"
        "usage_within (dt_usage (st_detail t)) inv_limits_default" by (auto simp: creates_def)
      then have "task_inv ops t" using absent [of "task_id t"] by (simp add: task_inv_def reserved_tokens_def)
      then have "task_inv (ops @ [op]) t" using that(2) by (rule task_inv_other)
      then show ?thesis using assms(2) c that(2) task_inv_other by (fastforce simp: rows_inv_def)
    qed
  qed
  show ?thesis
  proof (cases op)
    case (OpApprove i sid h)
    then obtain t t' where r: "replaces env db t t' db'" "task_id t = i" "approves t sid h t'"
      using assms(1) by (auto simp: task_step_def)
    have "task_inv (ops @ [op]) t'" if "task_inv ops t"
      using task_inv_other [OF that, of op] r OpApprove by (auto simp: task_inv_def approves_def replaces_def)
    then show ?thesis using replaced [OF r(1)] r(3) OpApprove by (auto simp: approves_def)
  next
    case (OpBegin i m s)
    then obtain t t' where r: "replaces env db t t' db'" "task_id t = i" "begins t s t'"
      using assms(1) by (auto simp: task_step_def)
    have "task_inv (ops @ [op]) t'" if "task_inv ops t"
      using that r OpBegin by (auto simp: task_inv_def begins_def replaces_def reserved_tokens_def)
    then show ?thesis using replaced [OF r(1)] r(2,3) OpBegin by (auto simp: begins_def)
  qed (use assms(1) plain in \<open>auto simp: task_step_def\<close>)
qed

lemma step_calls:
  assumes step: "task_step env db op db'" and inv: "calls_inv ops db"
  shows "calls_inv (ops @ [op]) db'"
proof -
  from inv have i: "rows_inv ops db" "\<And>i. i \<notin> tr_id ` set (jd_tasks db) \<Longrightarrow> begun_steps i ops = []"
    "\<And>i s. s \<in> set (begun_steps i ops) \<Longrightarrow> om_get (jd_invocations db) (i, ps_step_id s) \<noteq> None"
    "\<And>i. distinct (map ps_step_id (begun_steps i ops))" "all_authorised [] ops" by (auto simp: calls_inv_def)
  note rows = step_rows [OF step i(1,2)]
  have absent: "begun_steps i ops = []" if "i \<notin> tr_id ` set (jd_tasks db')" for i
    using i(2) [of i] rows that by blast
  show ?thesis
  proof (cases "\<exists>i m s. op = OpBegin i m s")
    case False
    then have "begun_steps i (ops @ [op]) = begun_steps i ops" for i by (auto split: spine_op.splits)
    moreover have "authorised ops op" using False by (auto simp: authorised_def split: spine_op.splits)
    moreover have "jd_invocations db' = jd_invocations db"
      using step False by (auto simp: task_step_def plain_effect_def creates_def split: spine_op.splits)
    ultimately show ?thesis using rows absent i(3-5) by (auto simp: calls_inv_def all_authorised_snoc simp del: begun_snoc)
  next
    case True
    then obtain i m s where op: "op = OpBegin i m s" by blast
    from step obtain t t' where b: "replaces env db t t' db'" "task_id t = i" "task_mode t = m" "begins t s t'"
      "om_get (jd_invocations db) (i, ps_step_id s) = None"
      "jd_invocations db' = om_put (i, ps_step_id s) (Intact s) (jd_invocations db)" by (auto simp: op task_step_def)
    from b(1) obtain r0 where r0: "r0 \<in> set (jd_tasks db)" "tr_id r0 = i" "tr_record r0 = Intact t"
      using load_task_ok [of env db i t] b(2) by (auto simp: replaces_def)
    then have "task_inv ops t" using i(1) by (auto simp: rows_inv_def)
    then have "authorised ops op" using b(2,3,4) by (auto simp: authorised_def op task_inv_def begins_def split: provider_mode.splits)
    moreover have "ps_step_id s \<notin> ps_step_id ` set (begun_steps i ops)" using i(3) b(5) by (metis imageE)
    moreover have "i \<in> tr_id ` set (jd_tasks db')" using rows r0 by blast
    ultimately show ?thesis using rows absent i(3-5)
      by (auto simp: calls_inv_def all_authorised_snoc op b(6))
  qed
qed

lemma run_calls:
  assumes "spine_run env ns db ops db'" "ledger_wf db" "jd_tasks db = []"
  shows "calls_inv ops db'"
  using assms
proof (induction rule: spine_run.induct)
  case run_nil
  then show ?case by (simp add: calls_inv_def rows_inv_def begun_steps_def)
next
  case (run_snoc ops db1 op db2)
  then have "task_step env db1 op db2" using run_effect step_effect by blast
  with run_snoc show ?case using step_calls by blast
qed

text \<open>
  C40: from a store without investigations, whatever operations are performed: every invocation of a
  cloud provider is preceded by an approval of that investigation, that step and that payload hash; no
  step of an investigation is begun twice; and an investigation never begins more than 8 invocations
  nor reserves more than 16384 generated tokens.
\<close>

theorem provider_calls_are_authorised:
  assumes "ledger_wf db" "jd_tasks db = []" "spine_run env ns db ops db'"
  shows "all_authorised [] ops \<and>
    (\<forall>i. distinct (map ps_step_id (begun_steps i ops)) \<and> length (begun_steps i ops) \<le> 8 \<and> reserved_tokens i ops \<le> 16384)"
proof -
  have inv: "calls_inv ops db'" using assms run_calls by blast
  have "length (begun_steps i ops) \<le> 8 \<and> reserved_tokens i ops \<le> 16384" for i
  proof (cases "i \<in> tr_id ` set (jd_tasks db')")
    case True
    then obtain t where "task_inv ops t" "task_id t = i" using inv by (auto simp: calls_inv_def rows_inv_def)
    then show ?thesis by (auto simp: task_inv_def usage_within_def inv_limits_default_def)
  next
    case False
    then have "begun_steps i ops = []" using inv by (auto simp: calls_inv_def)
    then show ?thesis by (simp add: reserved_tokens_def)
  qed
  with inv show ?thesis by (auto simp: calls_inv_def)
qed

section \<open>A run of a cloud investigation\<close>

text \<open>
  A store with no jobs, and the operations of an investigation with a cloud provider up to its first
  invocation: it is started, its job is claimed, its input is prepared, the step awaits consent, is
  approved and is begun. The codec of the example writes empty texts and its digest is constant.
\<close>

definition demo_token :: string where "demo_token = replicate 32 (CHR ''a'')"

definition demo_hash :: string where "demo_hash = replicate 64 (CHR ''b'')"

definition demo_ns :: exec_namespace where "demo_ns = \<lparr>ns_value = demo_token, ns_store_path = ''/s''\<rparr>"

definition demo_store :: store_env where
  "demo_store =
     \<lparr>se_hash = (\<lambda>_. demo_hash), se_pats = [],
      se_codec = \<lparr>cdc_ledger = (\<lambda>_. []), cdc_findings = (\<lambda>_. []), cdc_result = (\<lambda>_. [])\<rparr>,
      se_request = (\<lambda>_. []), se_specialist = (\<lambda>_. []), se_task = (\<lambda>_. []), se_summary = (\<lambda>_. []),
      se_event = (\<lambda>_. []), se_step = (\<lambda>_. []), se_response = (\<lambda>_. [])\<rparr>"

definition demo_jobs :: job_db where
  "demo_jobs =
     \<lparr>jd_exec_schema = True, jd_namespace = demo_token, jd_inv_schema = True, jd_inv_namespace = demo_token,
      jd_jobs = [], jd_attempts = [], jd_next_job = 1, jd_next_ordinal = 1, jd_conversations = [], jd_tasks = [],
      jd_events = [], jd_inputs = [], jd_invocations = [], jd_responses = [], jd_results = [], jd_refs = []\<rparr>"

definition demo_start_request :: start_request where
  "demo_start_request =
     \<lparr>rq_schema_version = 1, rq_request_nonce = ''n1'', rq_specialist_id = DomainAnalyst, rq_question = ''q'',
      rq_scope = ScopeAll, rq_provider_mode = ModeCloud, rq_limit_profile = ''investigation-v1'',
      rq_expected_graph_revision = None, rq_conversation_id = None, rq_parent_id = None\<rparr>"

definition demo_cloud_provider :: inv_provider where
  "demo_cloud_provider =
     \<lparr>ivp_mode = ModeCloud, ivp_provider_id = ''p'', ivp_model = ''m'', ivp_endpoint = ''e'', ivp_deployment = None,
      ivp_protocol_version = None, ivp_available = True, ivp_unavailable_reason = None\<rparr>"

definition demo_reservation :: execution_reservation where
  "demo_reservation = \<lparr>rv_target = \<lparr>lt_namespace = demo_ns, lt_id = 1, lt_existing = False\<rparr>, rv_verify = Inr ()\<rparr>"

definition demo_manifest :: inv_ledger where
  "demo_manifest =
     \<lparr>il_schema_version = 1, il_graph_snapshot_id = ''context-v1:'' @ demo_hash,
      il_scope_snapshot_id = ''context-v1:'' @ demo_hash, il_revision = 1, il_selected_facts = [],
      il_receipt_references = [], il_citations = [], il_queries = [], il_supplied_history_hash = None,
      il_supplied_history_bytes = 0\<rparr>"

definition demo_step :: pending_step where
  "demo_step = \<lparr>ps_step_id = ''s1'', ps_payload_hash = demo_hash, ps_input_ledger_hash = demo_hash, ps_input_bytes = 1,
     ps_generated_tokens = 2048\<rparr>"

definition passed :: "('e, 'a) result \<Rightarrow> 'a option" where
  "passed r = (case r of Inl _ \<Rightarrow> None | Inr x \<Rightarrow> Some x)"

lemma passed_Some [simp]: "passed r = Some x \<longleftrightarrow> r = Inr x"
  by (simp add: passed_def split: sum.splits)

definition demo_advance :: "job_execution \<Rightarrow> nat \<Rightarrow> inv_transition \<Rightarrow> job_db \<Rightarrow> (store_error, inv_detail \<times> job_db) result" where
  "demo_advance e n tr db = advance_investigation demo_store demo_ns e n tr ''t'' db"

definition demo_session :: "(int \<times> string \<times> provider_mode) option" where
  "demo_session =
     Option.bind (passed (start_investigation demo_store demo_ns demo_start_request (Some demo_cloud_provider) (''c'', ''1'') ''t'' demo_jobs)) (\<lambda>(_, db1).
     Option.bind (passed (claim_plan_for demo_ns 1 StartQueued db1)) (\<lambda>p.
     Option.bind (passed (claim_execution demo_store demo_ns p demo_reservation demo_token ''t'' db1)) (\<lambda>(_, e, db2).
     Option.bind (passed (demo_advance e 1 (TrInputPrepared demo_manifest usage_zero) db2)) (\<lambda>(_, db3).
     Option.bind (passed (demo_advance e 2 (TrAwaitConsent demo_step) db3)) (\<lambda>(_, db4).
     Option.bind (passed (consent_decision demo_store demo_ns ''investigation:1'' 3 ''s1'' demo_hash True ''t'' db4)) (\<lambda>(_, db5).
     Option.bind (passed (demo_advance e 4 (TrBeginInvocation demo_step) db5)) (\<lambda>(d, _).
     Some (je_id e, su_investigation_id (dt_summary d), ivp_mode (dt_provider d)))))))))"

lemma demo_session_ok: "demo_session = Some (1, ''investigation:1'', ModeCloud)"
  by code_simp

definition demo_tail :: "spine_op list" where
  "demo_tail = [OpOther, OpOther, OpApprove ''investigation:1'' ''s1'' demo_hash, OpBegin ''investigation:1'' ModeCloud demo_step]"

lemma demo_run:
  obtains db1 p j e db2 db3 where "spine_run demo_store demo_ns demo_jobs [OpOther] db1"
    "claim_execution demo_store demo_ns p demo_reservation demo_token ''t'' db1 = Inr (j, e, db2)" "je_id e = 1"
    "spine_run demo_store demo_ns db2 demo_tail db3"
    "spine_run demo_store demo_ns demo_jobs (OpOther # OpClaim 1 # demo_tail) db3"
proof -
  from demo_session_ok obtain st db1 p j e db2 d3 db3 d4 db4 d5 db5 d6 db6 where
    s: "start_investigation demo_store demo_ns demo_start_request (Some demo_cloud_provider) (''c'', ''1'') ''t'' demo_jobs = Inr (st, db1)"
    and c: "claim_execution demo_store demo_ns p demo_reservation demo_token ''t'' db1 = Inr (j, e, db2)" and e: "je_id e = 1"
    and a3: "advance_investigation demo_store demo_ns e 1 (TrInputPrepared demo_manifest usage_zero) ''t'' db2 = Inr (d3, db3)"
    and a4: "advance_investigation demo_store demo_ns e 2 (TrAwaitConsent demo_step) ''t'' db3 = Inr (d4, db4)"
    and a5: "consent_decision demo_store demo_ns ''investigation:1'' 3 ''s1'' demo_hash True ''t'' db4 = Inr (d5, db5)"
    and a6: "advance_investigation demo_store demo_ns e 4 (TrBeginInvocation demo_step) ''t'' db5 = Inr (d6, db6)"
    and d: "su_investigation_id (dt_summary d6) = ''investigation:1''" "ivp_mode (dt_provider d6) = ModeCloud"
    unfolding demo_session_def demo_advance_def by (auto simp: bind_eq_Some_conv)
  have steps: "spine_run demo_store demo_ns x (ops @ demo_tail) db6" if r: "spine_run demo_store demo_ns x ops db2" for x ops
    using run_snoc [OF run_snoc [OF run_snoc [OF run_snoc [OF r s_advance [OF a3]] s_advance [OF a4]] s_approve [OF a5]] s_begin [OF a6]]
    by (simp add: demo_tail_def d)
  have r1: "spine_run demo_store demo_ns demo_jobs [OpOther] db1"
    using run_snoc [OF run_nil s_start [OF s]] by simp
  from run_snoc [OF r1 s_claim [OF c]] have "spine_run demo_store demo_ns demo_jobs [OpOther, OpClaim 1] db2" by (simp add: e)
  from steps [OF this] steps [OF run_nil] show thesis by (intro that [OF r1 c e]) simp_all
qed

lemma demo_jobs_wf: "ledger_wf demo_jobs" "jd_tasks demo_jobs = []"
  by (simp_all add: ledger_wf_def demo_jobs_def)

theorem claimed_execution_is_fenced_witness:
  "\<exists>db p j e db1 db2. ledger_wf db \<and> claim_execution demo_store demo_ns p demo_reservation demo_token ''t'' db = Inr (j, e, db1) \<and>
     spine_run demo_store demo_ns db1 demo_tail db2 \<and> check_execution demo_ns e db1 = Inr CheckRunning"
proof -
  obtain db p j e db1 db2 where r: "spine_run demo_store demo_ns demo_jobs [OpOther] db"
    "claim_execution demo_store demo_ns p demo_reservation demo_token ''t'' db = Inr (j, e, db1)"
    "spine_run demo_store demo_ns db1 demo_tail db2" by (rule demo_run)
  have "ledger_wf db" using run_effect [OF r(1) demo_jobs_wf(1)] by blast
  with claimed_execution_is_fenced [OF this r(2,3)] r show ?thesis by blast
qed

theorem provider_calls_are_authorised_witness:
  "\<exists>db'. spine_run demo_store demo_ns demo_jobs (OpOther # OpClaim 1 # demo_tail) db' \<and>
     all_authorised [] (OpOther # OpClaim 1 # demo_tail) \<and>
     begun_steps ''investigation:1'' (OpOther # OpClaim 1 # demo_tail) = [demo_step]"
proof -
  obtain db' where r: "spine_run demo_store demo_ns demo_jobs (OpOther # OpClaim 1 # demo_tail) db'" by (rule demo_run)
  have "begun_steps ''investigation:1'' (OpOther # OpClaim 1 # demo_tail) = [demo_step]"
    by (simp add: begun_steps_def demo_tail_def)
  with r provider_calls_are_authorised [OF demo_jobs_wf r] show ?thesis by blast
qed

end
