(* ===== verification/Investigation_Reads.thy ===== *)
theory Investigation_Reads
  imports Investigation_Store
begin

text \<open>
  The paged reads of investigation history (\<^verbatim>\<open>src-tauri/src/jobs/investigations/reads.rs\<close>): the
  history of a conversation, the events of a task, and the receipts that admitted ledgers refer to,
  with the loop that reconciles the reference index against every stored ledger. The text of a cursor
  and of a page, and the decoder of a cursor, are the parameter \<open>reads_env\<close>.
\<close>

record history_cursor =
  hc_version :: nat
  hc_namespace :: string
  hc_conversation :: "string option"
  hc_high :: int
  hc_before :: int

record inv_page =
  ipg_items :: "inv_summary list"
  ipg_next_cursor :: "string option"

record inv_event_page =
  iep_investigation_id :: string
  iep_items :: "inv_event list"
  iep_next_sequence :: nat
  iep_has_more :: bool

record receipt_use =
  ru_investigation_id :: string
  ru_source_id :: string
  ru_repo_key :: string
  ru_receipt_id :: string

record reads_env =
  re_cursor :: "history_cursor \<Rightarrow> string"
  re_decode :: "string \<Rightarrow> (investigation_error, history_cursor) result"
  re_page :: "inv_page \<Rightarrow> string"
  re_event_page :: "inv_event_page \<Rightarrow> string"

definition PAGE_ITEMS :: nat where "PAGE_ITEMS = 50"
definition PAGE_BYTES :: nat where "PAGE_BYTES = 256 * 1024"

section \<open>History\<close>

definition history_high :: "job_db \<Rightarrow> int" where
  "history_high db = (case jd_tasks db of [] \<Rightarrow> 0 | r # rs \<Rightarrow> foldr (\<lambda>x. max (tr_ordinal x)) rs (tr_ordinal r))"

definition first_selection :: "exec_namespace \<Rightarrow> string option \<Rightarrow> job_db \<Rightarrow> (store_error, history_cursor) result" where
  "first_selection ns conversation db =
     (let high = history_high db in
      if high + 1 > i64_max then Inl SeCapacity
      else Inr \<lparr>hc_version = 1, hc_namespace = ns_value ns, hc_conversation = conversation, hc_high = high,
                hc_before = high + 1\<rparr>)"

definition cursor_selection ::
  "reads_env \<Rightarrow> exec_namespace \<Rightarrow> string option \<Rightarrow> string \<Rightarrow> (store_error, history_cursor) result" where
  "cursor_selection rd ns conversation cursor =
     rbind (se_require SeInvalid (length cursor \<le> 512)) (\<lambda>_.
     rbind (of_inv (re_decode rd cursor)) (\<lambda>c.
     rbind (se_require SeInvalid
       (hc_version c = 1 \<and> hc_namespace c = ns_value ns \<and> hc_conversation c = conversation \<and> hc_high c \<ge> 0 \<and>
        hc_before c > 0 \<and> hc_before c \<le> hc_high c)) (\<lambda>_.
     Inr c)))"

definition history_selection ::
  "reads_env \<Rightarrow> exec_namespace \<Rightarrow> string option \<Rightarrow> string option \<Rightarrow> job_db \<Rightarrow> (store_error, history_cursor) result" where
  "history_selection rd ns conversation cursor db =
     (case cursor of
        Some c \<Rightarrow> cursor_selection rd ns conversation c
      | None \<Rightarrow> first_selection ns conversation db)"

text \<open>\<^verbatim>\<open>WHERE ordinal<=high AND ordinal<before AND (conversation IS NULL OR ...) ORDER BY ordinal DESC\<close>.\<close>

definition history_rows :: "string option \<Rightarrow> int \<Rightarrow> int \<Rightarrow> job_db \<Rightarrow> task_row list" where
  "history_rows conversation high before db =
     rev (sort_key tr_ordinal
       (filter (\<lambda>r. tr_ordinal r \<le> high \<and> tr_ordinal r < before \<and>
          (conversation = None \<or> conversation = Some (tr_conversation_id r))) (jd_tasks db)))"

record history_fill =
  hf_items :: "inv_summary list"
  hf_remaining :: nat
  hf_before :: int
  hf_more :: bool

fun fill_history :: "store_env \<Rightarrow> job_db \<Rightarrow> task_row list \<Rightarrow> history_fill \<Rightarrow> (store_error, history_fill) result" where
  "fill_history env db [] st = Inr st"
| "fill_history env db (r # rs) st =
     rbind (se_require SeInvalid (length (tr_id r) \<le> 128 \<and> tr_ordinal r > 0)) (\<lambda>_.
     rbind (load_task env db (tr_id r)) (\<lambda>t.
     rbind (encode (se_summary env (summary_of t)) 4096) (\<lambda>bytes.
     (let size = length bytes + 1 in
      if length (hf_items st) = PAGE_ITEMS \<or> size > hf_remaining st then Inr (st\<lparr>hf_more := True\<rparr>)
      else fill_history env db rs
             (st\<lparr>hf_items := hf_items st @ [summary_of t], hf_remaining := hf_remaining st - size,
                 hf_before := tr_ordinal r\<rparr>)))))"

definition investigation_history ::
  "store_env \<Rightarrow> reads_env \<Rightarrow> exec_namespace \<Rightarrow> string option \<Rightarrow> string option \<Rightarrow> job_db \<Rightarrow> (store_error, inv_page) result" where
  "investigation_history env rd ns conversation cursor db =
     rbind (se_require SeInvalid (option_ok id_valid conversation)) (\<lambda>_.
     rbind (store_validate db ns) (\<lambda>_.
     rbind (history_selection rd ns conversation cursor db) (\<lambda>sel.
     rbind (fill_history env db (take (PAGE_ITEMS + 1) (history_rows conversation (hc_high sel) (hc_before sel) db))
        \<lparr>hf_items = [], hf_remaining = PAGE_BYTES - 4096, hf_before = hc_before sel, hf_more = False\<rparr>) (\<lambda>st.
     rbind (if hf_more st
            then rbind (encode (re_cursor rd (sel\<lparr>hc_before := hf_before st\<rparr>)) 512) (\<lambda>c. Inr (Some c))
            else Inr None) (\<lambda>nxt.
     (let pg = \<lparr>ipg_items = hf_items st, ipg_next_cursor = nxt\<rparr> in
      rbind (encode (re_page rd pg) PAGE_BYTES) (\<lambda>_. Inr pg)))))))"

section \<open>Events\<close>

definition event_ok_for :: "store_env \<Rightarrow> stored_task \<Rightarrow> string \<Rightarrow> nat \<Rightarrow> nat \<Rightarrow> inv_event \<Rightarrow> bool" where
  "event_ok_for env t i sequence next_sequence e \<longleftrightarrow>
     evt_investigation_id e = i \<and> evt_sequence e = sequence \<and> int (evt_sequence e) \<le> i64_max \<and>
     evt_sequence e = next_sequence + 1 \<and> evt_sequence e \<le> su_last_event_sequence (summary_of t) \<and>
     evt_revision e \<le> su_revision (summary_of t) \<and> length (evt_summary e) \<le> 1024 \<and>
     redacted_history_text (se_pats env) (evt_summary e) 1024 = Inr (evt_summary e) \<and>
     option_ok id_valid (evt_step_id e) \<and> length (evt_created_at e) \<le> 32"

fun fill_events ::
  "store_env \<Rightarrow> job_db \<Rightarrow> stored_task \<Rightarrow> string \<Rightarrow> nat list \<Rightarrow> inv_event list \<Rightarrow> nat \<Rightarrow> nat
     \<Rightarrow> (store_error, inv_event list \<times> nat \<times> bool) result" where
  "fill_events env db t i [] items remaining next_sequence = Inr (items, next_sequence, False)"
| "fill_events env db t i (sq # sqs) items remaining next_sequence =
     rbind (read_body (jd_events db) (i, sq)) (\<lambda>body.
     case body of
       None \<Rightarrow> Inl SeInvalid
     | Some e \<Rightarrow>
         rbind (se_require SeInvalid (event_ok_for env t i sq next_sequence e)) (\<lambda>_.
         rbind (encode (se_event env e) (16 * 1024)) (\<lambda>bytes.
         (let size = length bytes + 1 in
          if length items = PAGE_ITEMS \<or> size > remaining then Inr (items, next_sequence, True)
          else fill_events env db t i sqs (items @ [e]) (remaining - size) (evt_sequence e)))))"

definition event_sequences :: "job_db \<Rightarrow> string \<Rightarrow> nat \<Rightarrow> nat list" where
  "event_sequences db i after = filter (\<lambda>s. after < s) (map (snd \<circ> fst) (filter (\<lambda>p. fst (fst p) = i) (jd_events db)))"

definition investigation_events ::
  "store_env \<Rightarrow> reads_env \<Rightarrow> exec_namespace \<Rightarrow> string \<Rightarrow> nat \<Rightarrow> job_db \<Rightarrow> (store_error, inv_event_page) result" where
  "investigation_events env rd ns i after db =
     rbind (se_require SeInvalid (after \<le> MAX_EVENTS)) (\<lambda>_.
     rbind (store_validate db ns) (\<lambda>_.
     rbind (load_task env db i) (\<lambda>t.
     rbind (signed after) (\<lambda>_.
     rbind (fill_events env db t i (take (PAGE_ITEMS + 1) (event_sequences db i after)) [] (PAGE_BYTES - 4096) after)
       (\<lambda>(items, next_sequence, more).
     rbind (se_require SeInvalid (more \<or> \<not> next_sequence < su_last_event_sequence (summary_of t))) (\<lambda>_.
     (let pg = \<lparr>iep_investigation_id = i, iep_items = items, iep_next_sequence = next_sequence, iep_has_more = more\<rparr> in
      rbind (encode (re_event_page rd pg) PAGE_BYTES) (\<lambda>_. Inr pg))))))))"

section \<open>Receipts in use\<close>

type_synonym ref_key = "string \<times> string \<times> string \<times> string"

definition expect_ref :: "string \<Rightarrow> nat \<Rightarrow> receipt_reference \<Rightarrow> (ref_key, nat) omap \<Rightarrow> (store_error, (ref_key, nat) omap) result" where
  "expect_ref i revision r expected =
     (let k = (i, rr_source_id r, rr_repo_key r, rr_receipt_id r);
          expected' = (if om_get expected k = None then om_put k revision expected else expected) in
      if length expected' > 8192 then Inl SeCapacity else Inr expected')"

definition input_revisions :: "job_db \<Rightarrow> string \<Rightarrow> nat list" where
  "input_revisions db i = take 10 (map (snd \<circ> fst) (filter (\<lambda>p. fst (fst p) = i) (jd_inputs db)))"

definition revision_ok :: "stored_task \<Rightarrow> inv_ledger option \<Rightarrow> nat \<Rightarrow> inv_ledger \<Rightarrow> bool" where
  "revision_ok t current revision l \<longleftrightarrow>
     il_revision l = revision \<and> int (il_revision l) \<le> i64_max \<and>
     Some (il_graph_snapshot_id l) = su_graph_snapshot_id (summary_of t) \<and>
     Some (il_scope_snapshot_id l) = dt_scope_snapshot_id (st_detail t) \<and>
     (case current of
        None \<Rightarrow> False | Some latest \<Rightarrow> set (il_receipt_references l) \<subseteq> set (il_receipt_references latest))"

definition check_revision ::
  "store_env \<Rightarrow> job_db \<Rightarrow> stored_task \<Rightarrow> inv_ledger option \<Rightarrow> string \<Rightarrow> nat \<Rightarrow> nat \<times> (ref_key, nat) omap
     \<Rightarrow> (store_error, nat \<times> (ref_key, nat) omap) result" where
  "check_revision env db t current i revision st =
     rbind (read_body (jd_inputs db) (i, revision)) (\<lambda>body.
     case body of
       None \<Rightarrow> Inl SeInvalid
     | Some l \<Rightarrow>
         rbind (of_inv (ledger_validate (cdc_ledger (se_codec env)) l)) (\<lambda>_.
         rbind (encode (cdc_ledger (se_codec env) l) MAX_MANIFEST_BYTES) (\<lambda>_.
         rbind (se_require SeInvalid (revision_ok t current revision l)) (\<lambda>_.
         rbind (try_fold (expect_ref i revision) (il_receipt_references l) (snd st)) (\<lambda>expected.
         Inr (fst st + 1, expected))))))"

definition check_task_refs ::
  "store_env \<Rightarrow> job_db \<Rightarrow> string \<Rightarrow> nat \<times> (ref_key, nat) omap \<Rightarrow> (store_error, nat \<times> (ref_key, nat) omap) result" where
  "check_task_refs env db i st =
     rbind (se_require SeInvalid (length i \<le> 128)) (\<lambda>_.
     rbind (load_task env db i) (\<lambda>t.
     rbind (load_ledger env db t) (\<lambda>current.
     (let revisions = input_revisions db i in
      rbind (case st_ledger_revision t of
               None \<Rightarrow> Inr None | Some v \<Rightarrow> rbind (signed v) (\<lambda>_. Inr (Some v))) (\<lambda>latest.
      rbind (se_require SeInvalid
        (length revisions \<le> 9 \<and> (if revisions = [] then None else Some (last revisions)) = latest)) (\<lambda>_.
      try_fold (check_revision env db t current i) revisions st))))))"

fun take_refs ::
  "string \<Rightarrow> (ref_key \<times> nat) list \<Rightarrow> (ref_key, nat) omap \<Rightarrow> (store_error, receipt_use list \<times> (ref_key, nat) omap) result" where
  "take_refs source [] expected = Inr ([], expected)"
| "take_refs source (((i, s, repo, receipt), revision) # rows) expected =
     rbind (se_require SeInvalid
       (length i \<le> 128 \<and> length s \<le> 256 \<and> length repo \<le> 256 \<and> length receipt \<le> 256)) (\<lambda>_.
     rbind (se_require SeInvalid (om_get expected (i, s, repo, receipt) = Some revision)) (\<lambda>_.
     rbind (take_refs source rows (om_del (i, s, repo, receipt) expected)) (\<lambda>(uses, rest).
     Inr (if s = source
          then \<lparr>ru_investigation_id = i, ru_source_id = s, ru_repo_key = repo, ru_receipt_id = receipt\<rparr> # uses
          else uses, rest))))"

definition investigation_receipt_references ::
  "store_env \<Rightarrow> exec_namespace \<Rightarrow> string \<Rightarrow> job_db \<Rightarrow> (store_error, receipt_use list) result" where
  "investigation_receipt_references env ns source db =
     rbind (se_require SeInvalid (id_valid source)) (\<lambda>_.
     rbind (store_validate db ns) (\<lambda>_.
     rbind (se_require SeCapacity (length (jd_tasks db) \<le> 128 \<and> length (jd_inputs db) \<le> 1152 \<and> length (jd_refs db) \<le> 8192)) (\<lambda>_.
     rbind (try_fold (check_task_refs env db) (sort (map tr_id (jd_tasks db))) (0, [])) (\<lambda>(checked, expected).
     rbind (se_require SeInvalid (checked = length (jd_inputs db) \<and> length expected = length (jd_refs db))) (\<lambda>_.
     rbind (take_refs source (jd_refs db) expected) (\<lambda>(uses, rest).
     rbind (se_require SeInvalid (rest = [])) (\<lambda>_.
     Inr uses)))))))"

end
