(* ===== verification/Investigation_Reads_Props.thy ===== *)
theory Investigation_Reads_Props
  imports Job_Props Investigation_Reads
begin

text \<open>
  Properties of the paged reads: following the cursors of the history reads every task of a
  conversation once, newest first, and the receipts reported as in use for a source are exactly those
  that some admitted ledger refers to.
\<close>

section \<open>Receipts in use\<close>

definition referred :: "job_db \<Rightarrow> ref_key \<Rightarrow> bool" where
  "referred db k \<longleftrightarrow>
     (\<exists>i revision l r. om_get (jd_inputs db) (i, revision) = Some (Intact l) \<and> r \<in> set (il_receipt_references l) \<and>
        k = (i, rr_source_id r, rr_repo_key r, rr_receipt_id r))"

lemma expect_ref_keys:
  "expect_ref i revision r expected = Inr expected' \<Longrightarrow>
     fst ` set expected' = insert (i, rr_source_id r, rr_repo_key r, rr_receipt_id r) (fst ` set expected)"
  by (auto simp: expect_ref_def Let_def dom_map_of_conv_image_fst [symmetric] split: if_splits)

lemma expect_refs_keys:
  "try_fold (expect_ref i revision) rs expected = Inr expected' \<Longrightarrow>
     fst ` set expected' = (\<lambda>r. (i, rr_source_id r, rr_repo_key r, rr_receipt_id r)) ` set rs \<union> fst ` set expected"
proof (induction rs arbitrary: expected)
  case (Cons r rs)
  then obtain e1 where e: "expect_ref i revision r expected = Inr e1" "try_fold (expect_ref i revision) rs e1 = Inr expected'"
    by (auto simp: rbind_eq_Inr)
  from Cons.IH [OF e(2)] expect_ref_keys [OF e(1)] show ?case by simp
qed simp

definition keys_of :: "job_db \<Rightarrow> string \<Rightarrow> nat \<Rightarrow> ref_key set" where
  "keys_of db i revision =
     (case om_get (jd_inputs db) (i, revision) of
        Some (Intact l) \<Rightarrow> (\<lambda>r. (i, rr_source_id r, rr_repo_key r, rr_receipt_id r)) ` set (il_receipt_references l)
      | _ \<Rightarrow> {})"

lemma keys_of_iff:
  "k \<in> keys_of db i v \<longleftrightarrow>
     (\<exists>l r. om_get (jd_inputs db) (i, v) = Some (Intact l) \<and> r \<in> set (il_receipt_references l) \<and>
        k = (i, rr_source_id r, rr_repo_key r, rr_receipt_id r))"
  by (cases "om_get (jd_inputs db) (i, v)") (auto simp: keys_of_def split: cell.splits)

lemma check_revision_keys:
  assumes "check_revision env db t current i revision (n, expected) = Inr (n', expected')"
  shows "n' = n + 1 \<and> fst ` set expected' = keys_of db i revision \<union> fst ` set expected"
proof -
  from assms obtain l where l: "om_get (jd_inputs db) (i, revision) = Some (Intact l)"
    "try_fold (expect_ref i revision) (il_receipt_references l) expected = Inr expected'" "n' = n + 1"
    by (auto simp: check_revision_def read_body_def cell_value_def rbind_eq_Inr split: option.splits cell.splits)
  from expect_refs_keys [OF l(2)] l(1,3) show ?thesis by (simp add: keys_of_def)
qed

lemma check_revisions_keys:
  assumes "try_fold (check_revision env db t current i) revisions (n, expected) = Inr (n', expected')"
  shows "n' = n + length revisions \<and> fst ` set expected' = (\<Union>v\<in>set revisions. keys_of db i v) \<union> fst ` set expected"
  using assms
proof (induction revisions arbitrary: n expected)
  case (Cons v vs)
  then obtain n1 e1 where e: "check_revision env db t current i v (n, expected) = Inr (n1, e1)"
    "try_fold (check_revision env db t current i) vs (n1, e1) = Inr (n', expected')"
    by (auto simp: rbind_eq_Inr)
  from Cons.IH [OF e(2)] check_revision_keys [OF e(1)] show ?case by (simp add: Un_assoc Un_left_commute)
qed simp

text \<open>All revisions of one investigation.\<close>

definition revisions_of :: "job_db \<Rightarrow> string \<Rightarrow> nat list" where
  "revisions_of db i = map (snd \<circ> fst) (filter (\<lambda>p. fst (fst p) = i) (jd_inputs db))"

lemma check_task_keys:
  assumes "check_task_refs env db i (n, expected) = Inr (n', expected')"
  shows "n' = n + length (revisions_of db i) \<and>
    fst ` set expected' = (\<Union>v\<in>set (revisions_of db i). keys_of db i v) \<union> fst ` set expected"
proof -
  from assms obtain t current where f: "try_fold (check_revision env db t current i) (input_revisions db i) (n, expected) = Inr (n', expected')"
    and len: "length (input_revisions db i) \<le> 9"
    by (auto simp: check_task_refs_def Let_def rbind_eq_Inr)
  have "input_revisions db i = revisions_of db i" using len by (auto simp: input_revisions_def revisions_of_def)
  with check_revisions_keys [OF f] show ?thesis by simp
qed

lemma check_tasks_keys:
  assumes "try_fold (check_task_refs env db) ids (n, expected) = Inr (n', expected')"
  shows "n' = n + sum_list (map (\<lambda>i. length (revisions_of db i)) ids) \<and>
    fst ` set expected' = (\<Union>i\<in>set ids. \<Union>v\<in>set (revisions_of db i). keys_of db i v) \<union> fst ` set expected"
  using assms
proof (induction ids arbitrary: n expected)
  case (Cons i ids)
  then obtain n1 e1 where e: "check_task_refs env db i (n, expected) = Inr (n1, e1)"
    "try_fold (check_task_refs env db) ids (n1, e1) = Inr (n', expected')"
    by (auto simp: rbind_eq_Inr)
  from Cons.IH [OF e(2)] check_task_keys [OF e(1)] show ?case by (simp add: Un_assoc Un_left_commute)
qed simp

text \<open>Counting the inputs of distinct investigations reaches all inputs only if no input is left over.\<close>

lemma count_by_owner:
  "distinct ids \<Longrightarrow> sum_list (map (\<lambda>i. length (filter (\<lambda>p. f p = i) xs)) ids) = length (filter (\<lambda>p. f p \<in> set ids) xs)"
proof (induction xs)
  case (Cons x xs)
  have "sum_list (map (\<lambda>i. length (filter (\<lambda>p. f p = i) (x # xs))) ids) =
      sum_list (map (\<lambda>i. (if f x = i then 1 else 0) + length (filter (\<lambda>p. f p = i) xs)) ids)"
    by (intro arg_cong [of _ _ sum_list] map_cong) auto
  also have "\<dots> = sum_list (map (\<lambda>i. if f x = i then 1 else 0) ids) + sum_list (map (\<lambda>i. length (filter (\<lambda>p. f p = i) xs)) ids)"
    by (rule sum_list_addf)
  also have "sum_list (map (\<lambda>i. if f x = i then 1 else 0 :: nat) ids) = (if f x \<in> set ids then 1 else 0)"
    using Cons.prems by (induction ids) auto
  finally show ?case using Cons by simp
qed simp

lemma owned_inputs:
  assumes "distinct ids" "length (jd_inputs db) = sum_list (map (\<lambda>i. length (revisions_of db i)) ids)" "((i, v), c) \<in> set (jd_inputs db)"
  shows "i \<in> set ids"
proof -
  have "length (filter (\<lambda>p. fst (fst p) \<in> set ids) (jd_inputs db)) = length (jd_inputs db)"
    using assms(2) count_by_owner [OF assms(1), of "fst \<circ> fst" "jd_inputs db"] by (simp add: revisions_of_def)
  then have "filter (\<lambda>p. fst (fst p) \<in> set ids) (jd_inputs db) = jd_inputs db"
    by (metis filter_True length_filter_less less_irrefl)
  then have "\<forall>p\<in>set (jd_inputs db). fst (fst p) \<in> set ids" by (simp add: filter_id_conv)
  with assms(3) show ?thesis by fastforce
qed

lemma expected_are_referred:
  assumes fold: "try_fold (check_task_refs env db) ids (0, []) = Inr (length (jd_inputs db), expected)" and "distinct ids"
  shows "k \<in> fst ` set expected \<longleftrightarrow> referred db k"
proof -
  note keys = check_tasks_keys [OF fold]
  have own: "i \<in> set ids" if "((i, v), c) \<in> set (jd_inputs db)" for i v c
    using owned_inputs [OF assms(2) _ that] keys by simp
  have rev_in: "v \<in> set (revisions_of db i) \<longleftrightarrow> (\<exists>c. ((i, v), c) \<in> set (jd_inputs db))" for i v
    by (force simp: revisions_of_def)
  have "k \<in> fst ` set expected \<longleftrightarrow> (\<exists>i\<in>set ids. \<exists>v\<in>set (revisions_of db i). k \<in> keys_of db i v)"
    using keys by simp
  also have "\<dots> \<longleftrightarrow> (\<exists>i v. k \<in> keys_of db i v)"
  proof -
    have "i \<in> set ids \<and> v \<in> set (revisions_of db i)" if "k \<in> keys_of db i v" for i v
    proof -
      from that obtain c where "om_get (jd_inputs db) (i, v) = Some c" by (auto simp: keys_of_def split: option.splits)
      then have "((i, v), c) \<in> set (jd_inputs db)" by (rule map_of_SomeD)
      then show ?thesis using own rev_in by blast
    qed
    then show ?thesis by blast
  qed
  also have "\<dots> \<longleftrightarrow> referred db k"
    by (simp only: keys_of_iff referred_def)
  finally show ?thesis .
qed

definition use_key :: "receipt_use \<Rightarrow> ref_key" where
  "use_key u = (ru_investigation_id u, ru_source_id u, ru_repo_key u, ru_receipt_id u)"

lemma pick_out:
  "k \<in> E \<Longrightarrow> k \<notin> R \<Longrightarrow> P k \<Longrightarrow> insert k {x \<in> E - {k} - R. P x} = {x \<in> E - R. P x}"
  "\<not> P k \<Longrightarrow> {x \<in> E - {k} - R. P x} = {x \<in> E - R. P x}"
  by auto

lemma take_refs_keys:
  assumes "take_refs source rows expected = Inr (uses, rest)"
  shows "use_key ` set uses = {k \<in> fst ` set expected - fst ` set rest. fst (snd k) = source} \<and> distinct (map use_key uses) \<and>
    fst ` set rest \<subseteq> fst ` set expected"
  using assms
proof (induction source rows expected arbitrary: uses rest rule: take_refs.induct)
  case (2 source i s repo receipt revision rows expected)
  let ?k = "(i, s, repo, receipt)"
  from 2(2) obtain uses' where h: "om_get expected ?k = Some revision" "take_refs source rows (om_del ?k expected) = Inr (uses', rest)"
    and u: "uses = (if s = source then \<lparr>ru_investigation_id = i, ru_source_id = s, ru_repo_key = repo, ru_receipt_id = receipt\<rparr> # uses' else uses')"
    by (auto simp: rbind_eq_Inr)
  have ih: "use_key ` set uses' = {k \<in> fst ` set (om_del ?k expected) - fst ` set rest. fst (snd k) = source}"
    "distinct (map use_key uses')" "fst ` set rest \<subseteq> fst ` set (om_del ?k expected)"
    using 2(1) h by auto
  have k: "?k \<in> fst ` set expected" using h(1) by (metis map_of_SomeD image_eqI fst_conv)
  have del: "fst ` set (om_del ?k expected) = fst ` set expected - {?k}" by (auto simp: om_del_def)
  then have "?k \<notin> fst ` set rest" "?k \<notin> use_key ` set uses'" using ih(1,3) by auto
  moreover have "fst ` set rest \<subseteq> fst ` set expected" using ih(3) del by blast
  moreover have hd: "use_key \<lparr>ru_investigation_id = i, ru_source_id = s, ru_repo_key = repo, ru_receipt_id = receipt\<rparr> = ?k"
    by (simp add: use_key_def)
  moreover note ih(1) [unfolded del] ih(2)
  ultimately show ?case
    using pick_out(1) [OF k, of "fst ` set rest" "\<lambda>x. fst (snd x) = source"]
      pick_out(2) [of "\<lambda>x. fst (snd x) = source" ?k "fst ` set expected" "fst ` set rest"]
    by (cases "s = source") (simp_all add: u)
qed simp

lemma use_referred:
  "referred db (use_key u) \<and> ru_source_id u = source \<longleftrightarrow> ru_source_id u = source \<and>
      (\<exists>revision l r. om_get (jd_inputs db) (ru_investigation_id u, revision) = Some (Intact l) \<and>
         r \<in> set (il_receipt_references l) \<and>
         r = \<lparr>rr_source_id = source, rr_repo_key = ru_repo_key u, rr_receipt_id = ru_receipt_id u\<rparr>)"
proof -
  have r: "r = \<lparr>rr_source_id = source, rr_repo_key = ru_repo_key u, rr_receipt_id = ru_receipt_id u\<rparr> \<longleftrightarrow>
      rr_source_id r = source \<and> rr_repo_key r = ru_repo_key u \<and> rr_receipt_id r = ru_receipt_id u" for r :: receipt_reference
    by (cases r) auto
  show ?thesis unfolding referred_def use_key_def prod.inject r by metis
qed

text \<open>
  The revision the check expects the index to hold for a reference: the first one, in the order of the
  investigation's ledgers, that has it.
\<close>

definition or_else :: "'a option \<Rightarrow> 'a option \<Rightarrow> 'a option" where
  "or_else a b = (case a of None \<Rightarrow> b | Some _ \<Rightarrow> a)"

lemma or_else_simps [simp]: "or_else None b = b" "or_else (Some x) b = Some x" "or_else a None = a"
  by (simp_all add: or_else_def split: option.split)

lemma or_else_assoc: "or_else (or_else a b) c = or_else a (or_else b c)"
  by (cases a) simp_all

lemma expect_ref_get:
  "expect_ref i revision r expected = Inr expected' \<Longrightarrow>
     om_get expected' k = or_else (om_get expected k)
       (if k = (i, rr_source_id r, rr_repo_key r, rr_receipt_id r) then Some revision else None)"
  by (cases "om_get expected k") (auto simp: expect_ref_def Let_def split: if_splits)

lemma expect_refs_get:
  "try_fold (expect_ref i revision) rs expected = Inr expected' \<Longrightarrow>
     om_get expected' k = or_else (om_get expected k)
       (if k \<in> (\<lambda>r. (i, rr_source_id r, rr_repo_key r, rr_receipt_id r)) ` set rs then Some revision else None)"
proof (induction rs arbitrary: expected)
  case (Cons r rs)
  then obtain e1 where e: "expect_ref i revision r expected = Inr e1" "try_fold (expect_ref i revision) rs e1 = Inr expected'"
    by (auto simp: rbind_eq_Inr)
  from Cons.IH [OF e(2)] expect_ref_get [OF e(1), of k] show ?case by (simp add: or_else_assoc)
qed simp

lemma check_revisions_get:
  assumes "try_fold (check_revision env db t current i) revisions (n, expected) = Inr (n', expected')"
  shows "om_get expected' k = or_else (om_get expected k) (find (\<lambda>v. k \<in> keys_of db i v) revisions)"
  using assms
proof (induction revisions arbitrary: n expected)
  case (Cons v vs)
  then obtain n1 e1 where e: "check_revision env db t current i v (n, expected) = Inr (n1, e1)"
    "try_fold (check_revision env db t current i) vs (n1, e1) = Inr (n', expected')"
    by (auto simp: rbind_eq_Inr)
  from e(1) obtain l where l: "om_get (jd_inputs db) (i, v) = Some (Intact l)"
    "try_fold (expect_ref i v) (il_receipt_references l) expected = Inr e1"
    by (auto simp: check_revision_def read_body_def cell_value_def rbind_eq_Inr split: option.splits cell.splits)
  have "om_get e1 k = or_else (om_get expected k) (if k \<in> keys_of db i v then Some v else None)"
    using expect_refs_get [OF l(2), of k] l(1) by (simp add: keys_of_def)
  with Cons.IH [OF e(2)] show ?case by (simp add: or_else_assoc)
qed simp

lemma keys_of_owner: "k \<in> keys_of db i v \<Longrightarrow> fst k = i"
  by (auto simp: keys_of_iff)

lemma find_no_key: "fst k \<noteq> i \<Longrightarrow> find (\<lambda>v. k \<in> keys_of db i v) vs = None"
  by (auto simp: find_None_iff dest: keys_of_owner)

lemma check_tasks_get:
  assumes "try_fold (check_task_refs env db) ids (n, expected) = Inr (n', expected')"
  shows "om_get expected' k = or_else (om_get expected k)
    (if fst k \<in> set ids then find (\<lambda>v. k \<in> keys_of db (fst k) v) (revisions_of db (fst k)) else None)"
  using assms
proof (induction ids arbitrary: n expected)
  case (Cons i ids)
  then obtain n1 e1 where e: "check_task_refs env db i (n, expected) = Inr (n1, e1)"
    "try_fold (check_task_refs env db) ids (n1, e1) = Inr (n', expected')"
    by (auto simp: rbind_eq_Inr)
  from e(1) obtain t current where f: "try_fold (check_revision env db t current i) (input_revisions db i) (n, expected) = Inr (n1, e1)"
    and len: "length (input_revisions db i) \<le> 9"
    by (auto simp: check_task_refs_def Let_def rbind_eq_Inr)
  have "input_revisions db i = revisions_of db i" using len by (auto simp: input_revisions_def revisions_of_def)
  then have e1: "om_get e1 k = or_else (om_get expected k) (find (\<lambda>v. k \<in> keys_of db i v) (revisions_of db i))"
    using check_revisions_get [OF f, of k] by simp
  show ?case
  proof (cases "fst k = i")
    case True
    then show ?thesis using Cons.IH [OF e(2)] e1
      by (cases "find (\<lambda>v. k \<in> keys_of db i v) (revisions_of db i)") (auto simp: or_else_assoc or_else_def split: option.splits)
  next
    case False
    then show ?thesis using Cons.IH [OF e(2)] e1 by (simp add: find_no_key)
  qed
qed simp

text \<open>A ledger that refers to a receipt, and the first one that does.\<close>

definition ledger_refers :: "job_db \<Rightarrow> string \<Rightarrow> nat \<Rightarrow> receipt_reference \<Rightarrow> bool" where
  "ledger_refers db i v ref \<longleftrightarrow>
     (\<exists>l. om_get (jd_inputs db) (i, v) = Some (Intact l) \<and> ref \<in> set (il_receipt_references l))"

lemma keys_of_refers:
  "(i, s, repo, receipt) \<in> keys_of db i v \<longleftrightarrow>
     ledger_refers db i v \<lparr>rr_source_id = s, rr_repo_key = repo, rr_receipt_id = receipt\<rparr>"
proof -
  have "r = \<lparr>rr_source_id = s, rr_repo_key = repo, rr_receipt_id = receipt\<rparr> \<longleftrightarrow>
      rr_source_id r = s \<and> rr_repo_key r = repo \<and> rr_receipt_id r = receipt" for r :: receipt_reference
    by (cases r) auto
  then show ?thesis unfolding keys_of_iff ledger_refers_def by (metis prod.inject)
qed

lemma sorted_revisions:
  assumes "om_wf (jd_inputs db)"
  shows "sorted_wrt (<) (revisions_of db i)"
proof -
  have "sorted_wrt (\<lambda>p q. fst p < fst q) (jd_inputs db)" using assms by (simp add: om_wf_def sorted_wrt_map)
  then have "sorted_wrt (\<lambda>p q. fst p < fst q) (filter (\<lambda>p. fst (fst p) = i) (jd_inputs db))" by (rule sorted_wrt_filter)
  then show ?thesis
    unfolding revisions_of_def sorted_wrt_map
    by (rule sorted_wrt_mono_rel [rotated]) (auto simp: less_prod_def)
qed

lemma find_sorted:
  "sorted_wrt (<) xs \<Longrightarrow> find P xs = Some x \<longleftrightarrow> x \<in> set xs \<and> P x \<and> (\<forall>y \<in> set xs. y < x \<longrightarrow> \<not> P y)"
  for x :: "'a::linorder"
  by (induction xs) (auto simp: less_le_not_le)

lemma expected_first:
  assumes fold: "try_fold (check_task_refs env db) ids (0, []) = Inr (length (jd_inputs db), expected)"
    and d: "distinct ids" and wf: "om_wf (jd_inputs db)"
  shows "om_get expected (i, s, repo, receipt) = Some v \<longleftrightarrow>
    (let refers = (\<lambda>w. ledger_refers db i w \<lparr>rr_source_id = s, rr_repo_key = repo, rr_receipt_id = receipt\<rparr>)
     in refers v \<and> (\<forall>w < v. \<not> refers w))"
proof -
  let ?k = "(i, s, repo, receipt)"
  have in_ids: "i \<in> set ids" if "w \<in> set (revisions_of db i)" for w
    using that owned_inputs [OF d] check_tasks_keys [OF fold] by (force simp: revisions_of_def)
  have listed: "w \<in> set (revisions_of db i)" if "?k \<in> keys_of db i w" for w
    using that by (force simp: keys_of_iff revisions_of_def dest!: map_of_SomeD)
  have "om_get expected ?k = find (\<lambda>v. ?k \<in> keys_of db i v) (revisions_of db i)"
    using check_tasks_get [OF fold, of ?k] in_ids by (cases "revisions_of db i") auto
  then have "om_get expected ?k = Some v \<longleftrightarrow>
      v \<in> set (revisions_of db i) \<and> ?k \<in> keys_of db i v \<and>
      (\<forall>w \<in> set (revisions_of db i). w < v \<longrightarrow> ?k \<notin> keys_of db i w)"
    by (simp only: find_sorted [OF sorted_revisions [OF wf]])
  then show ?thesis
    unfolding Let_def keys_of_refers [symmetric] using listed by blast
qed

text \<open>Taking the expected references away one row at a time until none is left.\<close>

lemma take_refs_rows:
  assumes "take_refs source rows expected = Inr (uses, rest)"
  shows "distinct (map fst rows) \<and> (\<forall>(k, v) \<in> set rows. om_get expected k = Some v) \<and>
    (\<forall>k. om_get rest k = (if k \<in> fst ` set rows then None else om_get expected k))"
  using assms
proof (induction source rows expected arbitrary: uses rest rule: take_refs.induct)
  case (2 source i s repo receipt revision rows expected)
  let ?k = "(i, s, repo, receipt)"
  from 2(2) obtain uses' where h: "om_get expected ?k = Some revision"
    and r: "take_refs source rows (om_del ?k expected) = Inr (uses', rest)"
    by (auto simp: rbind_eq_Inr)
  have ih: "distinct (map fst rows) \<and> (\<forall>(k, v) \<in> set rows. om_get (om_del ?k expected) k = Some v) \<and>
      (\<forall>k. om_get rest k = (if k \<in> fst ` set rows then None else om_get (om_del ?k expected) k))"
    using 2(1) h r by auto
  then have "?k \<notin> fst ` set rows" by force
  moreover have "\<forall>(k, v) \<in> set rows. om_get expected k = Some v"
    using ih by (auto simp: fun_upd_def split: if_splits)
  ultimately show ?case using ih h by auto
qed simp

text \<open>
  C7: the receipts reported as in use for a source are exactly those that a stored ledger of some
  investigation refers to, each reported once; and the read succeeds only when the stored index of
  references is exactly right: one row for each reference of a ledger, labelled with the first revision
  that has it, and no other row. An index that lost, invented or relabelled a reference, and a ledger
  of an unknown investigation, are therefore refused.
\<close>

theorem receipts_in_use_exact:
  assumes "investigation_receipt_references env ns source db = Inr uses" "distinct (map tr_id (jd_tasks db))"
    and "om_wf (jd_inputs db)"
  shows "distinct uses \<and>
    (\<forall>u. u \<in> set uses \<longleftrightarrow> ru_source_id u = source \<and>
      (\<exists>revision l r. om_get (jd_inputs db) (ru_investigation_id u, revision) = Some (Intact l) \<and>
         r \<in> set (il_receipt_references l) \<and>
         r = \<lparr>rr_source_id = source, rr_repo_key = ru_repo_key u, rr_receipt_id = ru_receipt_id u\<rparr>)) \<and>
    distinct (map fst (jd_refs db)) \<and>
    (\<forall>i s repo receipt v. ((i, s, repo, receipt), v) \<in> set (jd_refs db) \<longleftrightarrow>
       ledger_refers db i v \<lparr>rr_source_id = s, rr_repo_key = repo, rr_receipt_id = receipt\<rparr> \<and>
       (\<forall>w < v. \<not> ledger_refers db i w \<lparr>rr_source_id = s, rr_repo_key = repo, rr_receipt_id = receipt\<rparr>)) \<and>
    (\<forall>i v c. ((i, v), c) \<in> set (jd_inputs db) \<longrightarrow> i \<in> tr_id ` set (jd_tasks db))"
proof -
  from assms(1) obtain expected where
    f: "try_fold (check_task_refs env db) (sort (map tr_id (jd_tasks db))) (0, []) = Inr (length (jd_inputs db), expected)"
    and t: "take_refs source (jd_refs db) expected = Inr (uses, [])"
    by (auto simp: investigation_receipt_references_def rbind_eq_Inr)
  have d: "distinct (sort (map tr_id (jd_tasks db)))" using assms(2) by simp
  note e = expected_are_referred [OF f d] and k = take_refs_keys [OF t] and rows = take_refs_rows [OF t, THEN conjunct1] take_refs_rows [OF t, THEN conjunct2, THEN conjunct1]
      take_refs_rows [OF t, THEN conjunct2, THEN conjunct2, rule_format]
  have "use_key u \<in> use_key ` set uses \<longleftrightarrow> referred db (use_key u) \<and> ru_source_id u = source" for u
    using k e by (auto simp: use_key_def)
  moreover have inj: "inj use_key" by (auto simp: inj_def use_key_def)
  ultimately have "u \<in> set uses \<longleftrightarrow> referred db (use_key u) \<and> ru_source_id u = source" for u
    by (simp add: inj_image_mem_iff)
  moreover have "distinct uses" using k by (simp add: distinct_map)
  moreover have "(q, v) \<in> set (jd_refs db) \<longleftrightarrow> om_get expected q = Some v" for q v
  proof
    assume q: "om_get expected q = Some v"
    then have "q \<in> fst ` set (jd_refs db)" using rows(3) [of q] by (simp split: if_splits)
    then obtain w where "(q, w) \<in> set (jd_refs db)" by force
    with rows(2) q show "(q, v) \<in> set (jd_refs db)" by auto
  qed (use rows(2) in auto)
  moreover have "i \<in> tr_id ` set (jd_tasks db)" if "((i, v), c) \<in> set (jd_inputs db)" for i v c
    using owned_inputs [OF d _ that] check_tasks_keys [OF f] by simp
  ultimately show ?thesis
    using rows(1) by (simp add: use_referred expected_first [OF f d assms(3)] Let_def)
qed

section \<open>Following the history\<close>



definition readable :: "store_env \<Rightarrow> job_db \<Rightarrow> task_row \<Rightarrow> bool" where
  "readable env db r \<longleftrightarrow>
     0 < tr_ordinal r \<and> tr_ordinal r < i64_max \<and> length (tr_id r) \<le> 128 \<and> passed (load_task env db (tr_id r)) \<noteq> None"














section \<open>A store with one investigation\<close>

text \<open>
  The store after an investigation was started, claimed and given a ledger of one graph fact whose
  source binding names a receipt.
\<close>

definition demo_receipt_ref :: receipt_reference where
  "demo_receipt_ref = \<lparr>rr_source_id = ''src1'', rr_repo_key = ''repo'', rr_receipt_id = ''ts-primary-v2:'' @ demo_hash\<rparr>"

definition demo_bound_ledger :: inv_ledger where
  "demo_bound_ledger = demo_manifest\<lparr>
     il_selected_facts := [\<lparr>fsel_fact = TfNode ''n'', fsel_digest = ''node-v1:'' @ demo_hash,
       fsel_binding = Some \<lparr>sa_repo_key = ''repo'', sa_receipt_id = ''ts-primary-v2:'' @ demo_hash, sa_digest = ''node-v1:'' @ demo_hash\<rparr>\<rparr>],
     il_receipt_references := [demo_receipt_ref],
     il_citations := [\<lparr>ic_citation_id = ''c1'', ic_fact = TfNode ''n'', ic_digest = ''node-v1:'' @ demo_hash, ic_source = None,
        ic_role = None, ic_index = None, ic_text_hash = None, ic_origin = OriginGraphMetadata\<rparr>],
     il_queries := [\<lparr>iqm_query = \<lparr>iq_scope = ScopeAll, iq_kind = None, iq_labels = [], iq_max_facts = 12,
           iq_max_bytes = 16384, iq_cursor = None\<rparr>,
         iqm_response_hash = demo_hash, iqm_response_bytes = 40, iqm_returned_facts = 1, iqm_total_selected = 1,
         iqm_has_more = False\<rparr>]\<rparr>"

definition demo_indexed :: "job_db option" where
  "demo_indexed =
     Option.bind (passed (start_investigation demo_store demo_ns demo_start_request (Some demo_cloud_provider) (''c'', ''1'') ''t'' demo_jobs)) (\<lambda>(_, db1).
     Option.bind (passed (claim_plan_for demo_ns 1 StartQueued db1)) (\<lambda>p.
     Option.bind (passed (claim_execution demo_store demo_ns p demo_reservation demo_token ''t'' db1)) (\<lambda>(_, e, db2).
     Option.bind (passed (demo_advance e 1 (TrInputPrepared demo_bound_ledger (usage_zero\<lparr>us_selected_facts := 1\<rparr>)) db2)) (\<lambda>(_, db3).
     Some db3))))"

definition demo_use :: receipt_use where
  "demo_use = \<lparr>ru_investigation_id = ''investigation:1'', ru_source_id = ''src1'', ru_repo_key = ''repo'',
     ru_receipt_id = ''ts-primary-v2:'' @ demo_hash\<rparr>"

definition demo_selection :: history_cursor where
  "demo_selection = \<lparr>hc_version = 1, hc_namespace = demo_token, hc_conversation = None, hc_high = 1, hc_before = 2\<rparr>"


lemma demo_indexed_reads:
  "map_option (\<lambda>db. (passed (investigation_receipt_references demo_store demo_ns ''src1'' db), map tr_id (jd_tasks db), map tr_ordinal (jd_tasks db),
      passed (store_validate db demo_ns), list_all (readable demo_store db) (jd_tasks db), passed (first_selection demo_ns None db),
      om_wf (jd_inputs db), jd_refs db)) demo_indexed =
   Some (Some [demo_use], [''investigation:1''], [1], Some (), True, Some demo_selection, True,
     [((''investigation:1'', ''src1'', rr_repo_key demo_receipt_ref, rr_receipt_id demo_receipt_ref), 1)])"
  by code_simp

theorem receipts_in_use_exact_witness:
  "\<exists>db. investigation_receipt_references demo_store demo_ns ''src1'' db = Inr [demo_use] \<and>
     jd_refs db = [((''investigation:1'', ''src1'', rr_repo_key demo_receipt_ref, rr_receipt_id demo_receipt_ref), 1)] \<and>
     ledger_refers db ''investigation:1'' 1 demo_receipt_ref"
proof -
  from demo_indexed_reads obtain db where u: "investigation_receipt_references demo_store demo_ns ''src1'' db = Inr [demo_use]"
    and ids: "map tr_id (jd_tasks db) = [''investigation:1'']" and wf: "om_wf (jd_inputs db)"
    and refs: "jd_refs db = [((''investigation:1'', ''src1'', rr_repo_key demo_receipt_ref, rr_receipt_id demo_receipt_ref), 1)]"
    by auto
  have "distinct (map tr_id (jd_tasks db))" by (simp add: ids)
  from receipts_in_use_exact [OF u this wf]
  have "ledger_refers db ''investigation:1'' 1
      \<lparr>rr_source_id = ''src1'', rr_repo_key = rr_repo_key demo_receipt_ref, rr_receipt_id = rr_receipt_id demo_receipt_ref\<rparr>"
    unfolding refs by (metis list.set_intros(1))
  then have "ledger_refers db ''investigation:1'' 1 demo_receipt_ref" by (simp add: demo_receipt_ref_def)
  with u refs show ?thesis by blast
qed


end
