(* ===== verification/Citation_Assignment.thy ===== *)
theory Citation_Assignment
  imports Prov
begin

unbundle bit_operations_syntax

text \<open>
  The search of \<^verbatim>\<open>citation_assignment\<close> in \<^verbatim>\<open>crates/agents/src/staging.rs\<close>. A proposal keeps the
  references it cites, not the ids they were cited by; the search finds an injective way to give each
  reference one of the supplied evidence items it equals, so that both sides of the link are cited.
  Sets of evidence items are \<^verbatim>\<open>u16\<close> masks. The search keeps the masks it has already tried in \<open>seen\<close>;
  the second half of the theory shows that this pruning loses no assignment.
\<close>

type_synonym u16 = "16 word"

text \<open>\<^verbatim>\<open>1u16 << index\<close>.\<close>

definition bit_at :: "nat \<Rightarrow> u16" where
  "bit_at index = push_bit index 1"

text \<open>\<^verbatim>\<open>u16::trailing_zeros\<close>, 16 for zero.\<close>

definition trailing_zeros :: "u16 \<Rightarrow> nat" where
  "trailing_zeros w = (case find (bit w) [0 ..< 16] of Some i \<Rightarrow> i | None \<Rightarrow> 16)"

text \<open>The fold that both kinds of mask are built by.\<close>

definition mask_where :: "('a \<Rightarrow> bool) \<Rightarrow> 'a list \<Rightarrow> u16" where
  "mask_where P xs = fold (\<lambda>(index, x) m. m OR (if P x then bit_at index else 0)) (List.enumerate 0 xs) 0"

definition membership_mask :: "(string \<times> evidence_ref) list \<Rightarrow> string list \<Rightarrow> u16" where
  "membership_mask evidence ids = mask_where (\<lambda>(i, _). i \<in> set ids) evidence"

definition reference_mask :: "(string \<times> evidence_ref) list \<Rightarrow> evidence_ref \<Rightarrow> u16" where
  "reference_mask evidence reference = mask_where (\<lambda>(_, supplied). supplied = reference) evidence"

definition both_sides :: "u16 \<Rightarrow> u16 \<Rightarrow> u16 \<Rightarrow> bool" where
  "both_sides source target used \<longleftrightarrow> used AND source \<noteq> 0 \<and> used AND target \<noteq> 0"

lemma find_bit_upt: "find (bit w) [0 ..< n] = Some i \<Longrightarrow> bit w i \<and> i < n"
  by (auto simp: find_Some_iff)

lemma bit16_bound: "bit (w :: u16) i \<Longrightarrow> i < 16"
  using bit_imp_le_length [of w i] by simp

lemma trailing_zeros_bit:
  assumes "w \<noteq> 0"
  shows "bit w (trailing_zeros w)"
proof -
  obtain n where "bit w n" using assms by (metis bit_eqI bit_0_eq bot_apply bot_bool_def)
  moreover from this have "n < 16" by (rule bit16_bound)
  ultimately have "find (bit w) [0 ..< 16] \<noteq> None" by (auto simp: find_None_iff)
  then show ?thesis by (auto simp: trailing_zeros_def dest: find_bit_upt)
qed

lemma bit_at_iff: "bit (bit_at n) i \<longleftrightarrow> i = n \<and> n < 16"
  by (auto simp: bit_at_def bit_exp_iff)

lemma bit_clear [simp]:
  "bit (w AND NOT (bit_at n)) i \<longleftrightarrow> bit w i \<and> i \<noteq> n"
  by (auto simp: bit_at_iff bit_and_iff bit_not_iff dest: bit16_bound)

lemma bit_set16 [simp]: "n < 16 \<Longrightarrow> bit (w OR bit_at n) i \<longleftrightarrow> bit w i \<or> i = n"
  by (auto simp: bit_at_iff bit_or_iff)

definition bits_of :: "u16 \<Rightarrow> nat set" where
  "bits_of w = {i. bit w i}"

lemma bits_of_finite [simp]: "finite (bits_of w)"
  by (rule finite_subset [of _ "{..<16}"]) (auto simp: bits_of_def dest: bit16_bound)

lemma bits_of_clear: "bits_of (w AND NOT (bit_at n)) = bits_of w - {n}"
  by (auto simp: bits_of_def)

lemma bits_of_set: "n < 16 \<Longrightarrow> bits_of (w OR bit_at n) = insert n (bits_of w)"
  by (auto simp: bits_of_def)

lemma bits_of_0 [simp]: "bits_of 0 = {}"
  by (simp add: bits_of_def)

text \<open>
  The recursion. \<open>selected\<close> is the list of items chosen for the references so far; a failed call pops
  everything it pushed, so the list is passed by value and returned on success. The loop over the
  candidates of the current reference is \<open>assign_loop\<close>.
\<close>

function (sequential) assign :: "u16 list \<Rightarrow> u16 \<Rightarrow> u16 \<Rightarrow> u16 \<Rightarrow> u16 list \<Rightarrow> nat list \<Rightarrow> nat list option \<times> u16 list"
  and assign_loop ::
    "u16 list \<Rightarrow> u16 \<Rightarrow> u16 \<Rightarrow> u16 \<Rightarrow> u16 list \<Rightarrow> nat list \<Rightarrow> u16 \<Rightarrow> nat list option \<times> u16 list" where
  "assign masks used source target seen selected =
     (case drop (length selected) masks of
        [] \<Rightarrow> (if both_sides source target used then Some selected else None, seen)
      | mk # _ \<Rightarrow>
          if used \<in> set seen then (None, seen)
          else assign_loop masks used source target (used # seen) selected (mk AND NOT used))"
| "assign_loop masks used source target seen selected remaining =
     (if remaining = 0 then (None, seen)
      else (let index = trailing_zeros remaining; b = bit_at index in
            case assign masks (used OR b) source target seen (selected @ [index]) of
              (Some found, seen') \<Rightarrow> (Some found, seen')
            | (None, seen') \<Rightarrow> assign_loop masks used source target seen' selected (remaining AND NOT b)))"
  by pat_completeness auto
termination
proof (relation "measures
    [\<lambda>c. case c of
       Inl (masks, used, source, target, seen, selected) \<Rightarrow>
         if length selected < length masks then 2 * (length masks - length selected) + 2 else 0
     | Inr (masks, used, source, target, seen, selected, remaining) \<Rightarrow> 2 * (length masks - length selected) + 1,
     \<lambda>c. case c of
       Inl _ \<Rightarrow> 0
     | Inr (masks, used, source, target, seen, selected, remaining) \<Rightarrow> card (bits_of remaining)]", goal_cases)
  case 1
  show ?case by simp
next
  case (2 masks used source target seen selected mk rest)
  then have "length selected < length masks" by (metis drop_all list.distinct(1) not_le)
  then show ?case by simp
next
  case (3 masks used source target seen selected remaining index b)
  then show ?case by auto
next
  case (4 masks used source target seen selected remaining index b)
  then have "index \<in> bits_of remaining" using trailing_zeros_bit by (simp add: bits_of_def)
  then have "card (bits_of (remaining AND NOT b)) < card (bits_of remaining)"
    unfolding 4(3) by (simp only: bits_of_clear card_Diff1_less [OF bits_of_finite])
  then show ?case by simp
qed

declare assign.simps [simp del] assign_loop.simps [simp del]

definition citation_assignment ::
  "(string \<times> evidence_ref) list \<Rightarrow> string list \<Rightarrow> string list \<Rightarrow> evidence_ref list \<Rightarrow> string list option" where
  "citation_assignment evidence source_ids target_ids citations =
     (if length evidence > 12 \<or> citations = [] \<or> length citations > length evidence then None
      else (let source_mask = membership_mask evidence source_ids;
                target_mask = membership_mask evidence target_ids;
                masks = map (reference_mask evidence) citations
            in map_option (map (\<lambda>index. fst (evidence ! index)))
                 (fst (assign masks 0 source_mask target_mask [] []))))"

section \<open>The search loses nothing\<close>

text \<open>\<open>path source target ms used is\<close>: \<open>is\<close> chooses a fresh item for every mask of \<open>ms\<close> and ends on both sides.\<close>

fun path :: "u16 \<Rightarrow> u16 \<Rightarrow> u16 list \<Rightarrow> u16 \<Rightarrow> nat list \<Rightarrow> bool" where
  "path source target [] used is \<longleftrightarrow> is = [] \<and> both_sides source target used"
| "path source target (m # ms) used [] \<longleftrightarrow> False"
| "path source target (m # ms) used (i # is) \<longleftrightarrow>
     bit m i \<and> \<not> bit used i \<and> path source target ms (used OR bit_at i) is"

text \<open>A tried mask is a dead end at its own depth, the number of items it uses.\<close>

definition dead :: "u16 list \<Rightarrow> u16 \<Rightarrow> u16 \<Rightarrow> u16 \<Rightarrow> bool" where
  "dead masks source target u \<longleftrightarrow> (\<forall>is. \<not> path source target (drop (card (bits_of u)) masks) u is)"

definition dead_from :: "nat \<Rightarrow> u16 list \<Rightarrow> u16 \<Rightarrow> u16 \<Rightarrow> u16 list \<Rightarrow> bool" where
  "dead_from d masks source target seen \<longleftrightarrow>
     (\<forall>u \<in> set seen. d \<le> card (bits_of u) \<longrightarrow> dead masks source target u)"

definition adds_from :: "nat \<Rightarrow> u16 list \<Rightarrow> u16 list \<Rightarrow> bool" where
  "adds_from d seen seen' \<longleftrightarrow> (\<forall>u \<in> set seen' - set seen. d \<le> card (bits_of u))"

lemma adds_from_trans: "adds_from d a b \<Longrightarrow> adds_from d b c \<Longrightarrow> adds_from d a c"
  unfolding adds_from_def by blast

lemma adds_from_mono: "adds_from d' a b \<Longrightarrow> d \<le> d' \<Longrightarrow> adds_from d a b"
  unfolding adds_from_def by (meson order_trans)

definition assign_spec ::
  "u16 list \<Rightarrow> u16 \<Rightarrow> u16 \<Rightarrow> u16 list \<Rightarrow> nat \<Rightarrow> (nat list \<Rightarrow> bool) \<Rightarrow> nat list \<Rightarrow> nat list option \<times> u16 list \<Rightarrow> bool" where
  "assign_spec masks source target seen d ok selected out \<longleftrightarrow>
     (case out of
        (Some found, _) \<Rightarrow> \<exists>is. found = selected @ is \<and> ok is
      | (None, seen') \<Rightarrow> dead_from d masks source target seen' \<and> adds_from d seen seen' \<and> (\<forall>is. \<not> ok is))"

lemma path_step:
  "path source target (drop (length selected) masks) used is \<longleftrightarrow>
     (\<exists>i js. is = i # js \<and> bit (masks ! length selected AND NOT used) i \<and>
        path source target (drop (Suc (length selected)) masks) (used OR bit_at i) js)"
  if "length selected < length masks"
  by (cases "is") (auto simp: Cons_nth_drop_Suc [OF that, symmetric] bit_and_iff bit_not_iff dest: bit16_bound)

lemma assign_correct:
  "card (bits_of used) = length selected \<Longrightarrow> dead_from (length selected) masks source target seen \<Longrightarrow>
     assign_spec masks source target seen (length selected)
       (path source target (drop (length selected) masks) used) selected
       (assign masks used source target seen selected)"
  "card (bits_of used) = length selected \<Longrightarrow> dead_from (Suc (length selected)) masks source target seen \<Longrightarrow>
     (\<forall>i. bit remaining i \<longrightarrow> \<not> bit used i) \<Longrightarrow>
     assign_spec masks source target seen (Suc (length selected))
       (\<lambda>is. \<exists>i js. is = i # js \<and> bit remaining i \<and>
          path source target (drop (Suc (length selected)) masks) (used OR bit_at i) js) selected
       (assign_loop masks used source target seen selected remaining)"
proof (induction masks used source target seen selected and masks used source target seen selected remaining
    rule: assign_assign_loop.induct)
  case (1 masks used source target seen selected)
  show ?case
  proof (cases "drop (length selected) masks")
    case Nil
    then show ?thesis using 1 by (simp add: assign.simps assign_spec_def adds_from_def)
  next
    case (Cons m rest)
    then have len: "length selected < length masks" by (metis drop_all list.distinct(1) not_le)
    have m: "m = masks ! length selected" using Cons len by (metis Cons_nth_drop_Suc list.inject)
    show ?thesis
    proof (cases "used \<in> set seen")
      case True
      then have "dead masks source target used" using 1(2,3) by (simp add: dead_from_def)
      then show ?thesis using True Cons 1(2,3)
        by (simp add: assign.simps assign_spec_def dead_def adds_from_def)
    next
      case False
      have seen: "dead_from (Suc (length selected)) masks source target (used # seen)"
        using 1(2,3) by (auto simp: dead_from_def)
      define out where "out = assign_loop masks used source target (used # seen) selected (m AND NOT used)"
      have spec: "assign_spec masks source target (used # seen) (Suc (length selected))
          (path source target (drop (length selected) masks) used) selected out"
        using 1(1) [OF Cons False 1(2) seen] unfolding out_def path_step [OF len] m
        by (simp add: bit_and_iff bit_not_iff)
      have "assign masks used source target seen selected = out"
        using False Cons by (simp add: assign.simps out_def)
      moreover have "dead_from (length selected) masks source target seen'"
        if "dead_from (Suc (length selected)) masks source target seen'"
           "adds_from (Suc (length selected)) (used # seen) seen'"
           "\<forall>is. \<not> path source target (drop (length selected) masks) used is" for seen'
        unfolding dead_from_def
      proof (intro ballI impI)
        fix u assume u: "u \<in> set seen'" "length selected \<le> card (bits_of u)"
        consider "u = used" | "u \<in> set seen" | "u \<notin> set (used # seen)" by auto
        then show "dead masks source target u"
        proof cases
          case 1 then show ?thesis using that(3) \<open>card (bits_of used) = length selected\<close> by (simp add: dead_def)
        next
          case 2 then show ?thesis using \<open>dead_from (length selected) masks source target seen\<close> u by (simp add: dead_from_def)
        next
          case 3 then show ?thesis using that(1,2) u by (simp add: dead_from_def adds_from_def)
        qed
      qed
      moreover have "adds_from (length selected) seen seen'"
        if "adds_from (Suc (length selected)) (used # seen) seen'" for seen'
        unfolding adds_from_def
      proof
        fix u assume "u \<in> set seen' - set seen"
        then have "u = used \<or> Suc (length selected) \<le> card (bits_of u)" using that by (auto simp: adds_from_def)
        then show "length selected \<le> card (bits_of u)" using 1(2) by auto
      qed
      ultimately show ?thesis using spec by (auto simp: assign_spec_def split: prod.splits option.splits)
    qed
  qed
next
  case (2 masks used source target seen selected remaining)
  show ?case
  proof (cases "remaining = 0")
    case True
    then show ?thesis using 2 by (simp add: assign_loop.simps assign_spec_def adds_from_def)
  next
    case False
    define i where "i = trailing_zeros remaining"
    have i: "bit remaining i" "i < 16" using trailing_zeros_bit [OF False] bit16_bound i_def by blast+
    have fresh: "\<not> bit used i" using 2(5) i by blast
    have card: "card (bits_of (used OR bit_at i)) = length (selected @ [i])"
    proof -
      have "i \<notin> bits_of used" using fresh by (simp add: bits_of_def)
      then show ?thesis using 2(3) by (simp add: bits_of_set [OF i(2)])
    qed
    obtain r seen1 where a: "assign masks (used OR bit_at i) source target seen (selected @ [i]) = (r, seen1)"
      by fastforce
    have A: "assign_spec masks source target seen (Suc (length selected))
        (path source target (drop (Suc (length selected)) masks) (used OR bit_at i)) (selected @ [i]) (r, seen1)"
      using 2(1) [OF False i_def refl card] 2(4) a by (simp add: i_def)
    show ?thesis
    proof (cases r)
      case (Some found)
      then show ?thesis using A a i False
        by (simp add: assign_loop.simps Let_def i_def [symmetric] assign_spec_def) blast
    next
      case None
      define out where "out = assign_loop masks used source target seen1 selected (remaining AND NOT (bit_at i))"
      have "assign_spec masks source target seen1 (Suc (length selected))
          (\<lambda>is. \<exists>i' js. is = i' # js \<and> bit (remaining AND NOT (bit_at i)) i' \<and>
             path source target (drop (Suc (length selected)) masks) (used OR bit_at i') js) selected out"
        unfolding out_def using 2(2) [OF False i_def refl a [symmetric] None] A None 2(3,5)
        by (simp add: assign_spec_def)
      moreover have "assign_loop masks used source target seen selected remaining = out"
        using False a None by (simp add: assign_loop.simps Let_def i_def [symmetric] out_def)
      ultimately show ?thesis using A None
        by (auto simp: assign_spec_def split: prod.splits option.splits intro: adds_from_trans)
    qed
  qed
qed

section \<open>What the search decides\<close>

text \<open>
  The specification: distinct evidence items, one for every citation and equal to it, with an item of
  the source side and an item of the target side among them.
\<close>

definition assigns ::
  "(string \<times> evidence_ref) list \<Rightarrow> string list \<Rightarrow> string list \<Rightarrow> evidence_ref list \<Rightarrow> nat list \<Rightarrow> bool" where
  "assigns evidence source_ids target_ids citations ix \<longleftrightarrow>
     distinct ix \<and> list_all2 (\<lambda>i c. i < length evidence \<and> snd (evidence ! i) = c) ix citations \<and>
     (\<exists>i \<in> set ix. fst (evidence ! i) \<in> set source_ids) \<and> (\<exists>i \<in> set ix. fst (evidence ! i) \<in> set target_ids)"

lemma bit_fold_mask:
  "bit (fold (\<lambda>(index, x) m. m OR (if P x then bit_at index else 0)) (List.enumerate n xs) w) i \<longleftrightarrow>
     bit w i \<or> (n \<le> i \<and> i < n + length xs \<and> i < 16 \<and> P (xs ! (i - n)))"
proof (induction xs arbitrary: n w)
  case (Cons x xs)
  have "i = n \<or> i < n \<or> (\<exists>k. i = n + Suc k)" by (metis less_imp_Suc_add linorder_neqE_nat add_Suc_right)
  then show ?case
    by (auto simp: Cons.IH bit_or_iff bit_at_iff)
qed auto

lemma bit_mask_where: "length xs \<le> 16 \<Longrightarrow> bit (mask_where P xs) i \<longleftrightarrow> i < length xs \<and> P (xs ! i)"
  by (auto simp: mask_where_def bit_fold_mask)

lemma and_nonzero_bits: "(a :: u16) AND b \<noteq> 0 \<longleftrightarrow> (\<exists>i. bit a i \<and> bit b i)"
  by (auto simp: bit_eq_iff bit_and_iff dest: bit16_bound)

lemma path_chooses:
  "path source target ms used is \<longleftrightarrow>
     distinct is \<and> list_all2 (\<lambda>i m. bit m i \<and> \<not> bit used i) is ms \<and>
     (\<exists>i. (bit used i \<or> i \<in> set is) \<and> bit source i) \<and> (\<exists>i. (bit used i \<or> i \<in> set is) \<and> bit target i)"
proof (induction source target ms used "is" rule: path.induct)
  case (1 source target used "is")
  then show ?case by (auto simp: both_sides_def and_nonzero_bits)
next
  case (2 source target m ms used)
  then show ?case by simp
next
  case (3 source target m ms used i "is")
  show ?case
  proof (cases "bit m i \<and> \<not> bit used i")
    case False
    then show ?thesis by auto
  next
    case True
    then have [simp]: "bit (used OR bit_at i) j \<longleftrightarrow> bit used j \<or> j = i" for j
      by (intro bit_set16 bit16_bound) blast
    have "list_all2 (\<lambda>j m. bit m j \<and> \<not> bit (used OR bit_at i) j) is ms \<longleftrightarrow>
        i \<notin> set is \<and> list_all2 (\<lambda>j m. bit m j \<and> \<not> bit used j) is ms"
      by (auto simp: list_all2_conv_all_nth in_set_conv_nth)
    then show ?thesis using True by (auto simp: 3)
  qed
qed

lemma path_assigns:
  assumes "length evidence \<le> 12"
  shows "path (membership_mask evidence source_ids) (membership_mask evidence target_ids)
           (map (reference_mask evidence) citations) 0 ix \<longleftrightarrow>
         assigns evidence source_ids target_ids citations ix"
proof -
  have le: "length evidence \<le> 16" using assms by simp
  have bound: "i < length evidence"
    if "list_all2 (\<lambda>i c. i < length evidence \<and> snd (evidence ! i) = c) ix citations" "i \<in> set ix" for i
    using that by (auto simp: list_all2_conv_all_nth in_set_conv_nth)
  show ?thesis
    unfolding path_chooses assigns_def membership_mask_def reference_mask_def
    using bound by (simp add: bit_mask_where [OF le] list.rel_map case_prod_beta) blast
qed

lemma assigns_length: "assigns evidence source_ids target_ids citations ix \<Longrightarrow>
    citations \<noteq> [] \<and> length citations \<le> length evidence"
proof -
  assume a: "assigns evidence source_ids target_ids citations ix"
  then have "set ix \<subseteq> {..<length evidence}" by (auto simp: assigns_def list_all2_conv_all_nth in_set_conv_nth)
  then have "card (set ix) \<le> length evidence" using card_mono [of "{..<length evidence}" "set ix"] by simp
  then show ?thesis using a by (auto simp: assigns_def distinct_card dest: list_all2_lengthD)
qed

lemma citation_assignment_decides:
  "case citation_assignment evidence source_ids target_ids citations of
     None \<Rightarrow> 12 < length evidence \<or> \<not> (\<exists>ix. assigns evidence source_ids target_ids citations ix)
   | Some ids \<Rightarrow> length evidence \<le> 12 \<and>
       (\<exists>ix. assigns evidence source_ids target_ids citations ix \<and> ids = map (\<lambda>i. fst (evidence ! i)) ix)"
proof (cases "length evidence > 12 \<or> citations = [] \<or> length citations > length evidence")
  case True
  then show ?thesis using assigns_length by (fastforce simp: citation_assignment_def)
next
  case False
  then have le: "length evidence \<le> 12" by simp
  define out where "out = assign (map (reference_mask evidence) citations) 0 (membership_mask evidence source_ids)
    (membership_mask evidence target_ids) [] []"
  have "assign_spec (map (reference_mask evidence) citations) (membership_mask evidence source_ids)
      (membership_mask evidence target_ids) [] 0 (assigns evidence source_ids target_ids citations) [] out"
    using assign_correct(1) [of 0 "[]" "map (reference_mask evidence) citations" "membership_mask evidence source_ids"
      "membership_mask evidence target_ids" "[]"]
    by (simp add: out_def dead_from_def path_assigns [OF le, abs_def] fun_eq_iff [symmetric])
  moreover have "citation_assignment evidence source_ids target_ids citations =
      map_option (map (\<lambda>i. fst (evidence ! i))) (fst out)"
    using False by (simp add: citation_assignment_def out_def)
  ultimately show ?thesis using le by (auto simp: assign_spec_def split: option.splits prod.splits)
qed

end
