(* ===== verification/Staging.thy ===== *)
theory Staging
  imports Decision_Log Investigation Citation_Assignment
begin

text \<open>
  The immutable proposal staging store (\<^verbatim>\<open>crates/agents/src/staging.rs\<close>, \<^verbatim>\<open>staging/strict.rs\<close>):
  the two versions of an immutable record, how each is built from the host's own task and checked
  again when read, the table with its review columns, and the operations stage, review, get, list and
  the receipt inventory. serde and serde\_json are third-party code: the JSON texts, their parsers and
  the typed decoders are the fields of \<open>staging_env\<close>. SQLite's clock is the argument \<open>now\<close> and the row
  id an \<^verbatim>\<open>AUTOINCREMENT\<close> insert takes is the argument \<open>sq\<close>. An operation that fails leaves the table as
  it was, since its transaction is rolled back.
\<close>

section \<open>Records\<close>

definition STAGING_SCHEMA_VERSION :: nat where "STAGING_SCHEMA_VERSION = 1"
definition PREPARED_STAGING_SCHEMA_VERSION :: nat where "PREPARED_STAGING_SCHEMA_VERSION = 2"
definition HISTORY_CURSOR_VERSION :: nat where "HISTORY_CURSOR_VERSION = 1"
definition MAX_STAGED_REFERENCE_SCAN :: nat where "MAX_STAGED_REFERENCE_SCAN = 4096"
definition MAX_STAGED_PAGE_ITEMS :: nat where "MAX_STAGED_PAGE_ITEMS = 50"

datatype evidence_binding = BindingUnverified | BindingPerItem

datatype context_status = AwaitingReconciliation

record stage_content =
  st_schema_version :: nat
  st_proposal :: agent_proposal
  st_job_id :: int
  st_graph_snapshot_id :: string
  st_basis :: task_basis_manifest
  st_evidence_binding :: evidence_binding
  st_context_status :: context_status

record stage_content_v2 = stage_content +
  st_source_basis :: task_source_basis
  st_selected_facts_fingerprint :: string

datatype immutable_content = V1 stage_content | V2 stage_content_v2

record staged_proposal =
  sg_schema_version :: nat
  sg_proposal_id :: string
  sg_proposal :: agent_proposal
  sg_job_id :: int
  sg_graph_snapshot_id :: string
  sg_basis :: task_basis_manifest
  sg_evidence_binding :: evidence_binding
  sg_context_status :: context_status
  sg_review_revision :: nat
  sg_review_decision :: "proposal_decision option"
  sg_review_note :: "string option"
  sg_created_at :: string
  sg_reviewed_at :: "string option"
  sg_source_basis :: "task_source_basis option"

text \<open>The check of \<^verbatim>\<open>TryFrom<StagedProposalWire>\<close>, which every decoded staged proposal passes.\<close>

definition wire_version_ok :: "staged_proposal \<Rightarrow> bool" where
  "wire_version_ok w \<longleftrightarrow>
     (sg_schema_version w = 1 \<and> sg_evidence_binding w = BindingUnverified \<and> sg_source_basis w = None) \<or>
     (sg_schema_version w = 2 \<and> sg_evidence_binding w = BindingPerItem \<and> sg_source_basis w \<noteq> None)"

record staged_receipt_reference =
  sref_proposal_id :: string
  sref_evidence_id :: string
  sref_receipt_id :: string

text \<open>The derived \<^verbatim>\<open>Ord\<close>, field by field.\<close>

definition reference_rank :: "staged_receipt_reference \<Rightarrow> string \<times> string \<times> string" where
  "reference_rank r = (sref_proposal_id r, sref_evidence_id r, sref_receipt_id r)"

record staged_proposal_page =
  pg_items :: "staged_proposal list"
  pg_next_cursor :: "string option"

datatype staging_error =
    StInvalidTask agent_error
  | AnnotationReplaysTaskText
  | TaskSummariesTooLarge
  | StInvalidMetadata string
  | StInvalidRecord
  | UnknownProposal string
  | StaleReviewRevision nat nat
  | RecordTooLarge nat
  | InvalidLimit
  | StInvalidCursor
  | ReferenceInventoryLimit
  | StStorage
  | StJson

record history_keyset =
  hk_version :: nat
  hk_ceiling :: int
  hk_before :: int

record staging_env =
  sv_hash :: "string \<Rightarrow> string"
  sv_ts :: "json \<Rightarrow> string"
  sv_basis_text :: "task_source_basis \<Rightarrow> string"
  sv_prepared_text :: "task_basis_manifest \<times> task_source_basis \<Rightarrow> string"
  sv_facts_text :: "task_fact_selection list \<Rightarrow> string"
  sv_v1_text :: "stage_content \<Rightarrow> string"
  sv_v1_parse :: "string \<Rightarrow> stage_content option"
  sv_v2_text :: "stage_content_v2 \<Rightarrow> string"
  sv_version :: "string \<Rightarrow> nat option"
  sv_tree :: "string \<Rightarrow> json option"
  sv_value :: "string \<Rightarrow> json option"
  sv_v2_from_value :: "json \<Rightarrow> stage_content_v2 option"
  sv_v2_to_value :: "stage_content_v2 \<Rightarrow> json"
  sv_staged_text :: "staged_proposal \<Rightarrow> string"
  sv_keyset_text :: "history_keyset \<Rightarrow> string"
  sv_keyset_parse :: "string \<Rightarrow> history_keyset option"

definition of_agent :: "(agent_error, 'a) result \<Rightarrow> (staging_error, 'a) result" where
  "of_agent r = (case r of Inl e \<Rightarrow> Inl (StInvalidTask e) | Inr a \<Rightarrow> Inr a)"

definition st_require :: "staging_error \<Rightarrow> bool \<Rightarrow> (staging_error, unit) result" where
  "st_require e ok = (if ok then Inr () else Inl e)"

definition check_size :: "nat \<Rightarrow> (staging_error, unit) result" where
  "check_size bytes = (if bytes > MAX_STAGED_RECORD_BYTES then Inl (RecordTooLarge bytes) else Inr ())"

section \<open>Checks on the task and the answer\<close>

definition ascii_hexdigit :: "char \<Rightarrow> bool" where
  "ascii_hexdigit c \<longleftrightarrow> hex_byte c \<or> (CHR ''A'' \<le> c \<and> c \<le> CHR ''F'')"

definition hex_hash :: "string \<Rightarrow> bool" where
  "hex_hash v \<longleftrightarrow> length v = 64 \<and> list_all ascii_hexdigit v"

definition validate_metadata :: "int \<Rightarrow> string \<Rightarrow> (staging_error, unit) result" where
  "validate_metadata job_id snapshot =
     (if job_id \<le> 0 then Inl (StInvalidMetadata ''job_id must be positive'')
      else if trim snapshot = [] \<or> length snapshot > 1024
      then Inl (StInvalidMetadata ''snapshot identity must contain 1..=1024 bytes'')
      else Inr ())"

definition validate_membership :: "string list \<Rightarrow> string list \<Rightarrow> (staging_error, unit) result" where
  "validate_membership ids available =
     (if ids = [] \<or> \<not> is_ok (unique_nonempty ids) \<or> list_ex (\<lambda>i. i \<notin> set available) ids
      then Inl StInvalidRecord else Inr ())"

text \<open>The supplied texts, evidence first, against the normalised annotation.\<close>

definition supplied_texts :: "agent_task \<Rightarrow> string list" where
  "supplied_texts t = map ae_text (at_evidence t) @ map ca_summary (at_candidates t)"

definition EXCERPT_SCALARS :: nat where "EXCERPT_SCALARS = 48"

definition excerpt_repeats :: "string list \<Rightarrow> string list \<Rightarrow> bool" where
  "excerpt_repeats annotation supplied =
     (if supplied = [] then False
      else if length supplied < EXCERPT_SCALARS then supplied \<in> set (windows (length supplied) annotation)
      else list_ex (\<lambda>part. part \<in> set (windows EXCERPT_SCALARS annotation)) (windows EXCERPT_SCALARS supplied))"

definition reject_annotation_replay :: "agent_task \<Rightarrow> string \<Rightarrow> (staging_error, unit) result" where
  "reject_annotation_replay t annotation =
     (if list_ex (\<lambda>s. excerpt_repeats (normalize_chars annotation) (normalize_chars s)) (supplied_texts t)
      then Inl AnnotationReplaysTaskText else Inr ())"

definition match_citations :: "agent_task \<Rightarrow> agent_proposal \<Rightarrow> string list option" where
  "match_citations t p =
     Option.bind (find (\<lambda>c. ca_node_id c = pp_target_id p) (at_candidates t)) (\<lambda>target.
       citation_assignment (map (\<lambda>e. (ae_id e, ae_source e)) (at_evidence t)) (at_source_evidence_ids t)
         (ca_evidence_ids target) (p_evidence (pp_provenance p)))"

section \<open>The immutable record, version 1\<close>

definition evidence_item_ok :: "evidence_basis \<Rightarrow> bool" where
  "evidence_item_ok e \<longleftrightarrow>
     trim (ev_repo (eb_source e)) \<noteq> [] \<and> trim (ev_path (eb_source e)) \<noteq> [] \<and>
     trim (ev_commit_sha (eb_source e)) \<noteq> [] \<and> ev_byte_start (eb_source e) < ev_byte_end (eb_source e) \<and>
     hex_hash (eb_text_hash e) \<and> eb_text_bytes e \<le> bl_max_span_bytes broker_limits_default"

definition content_head_ok :: "staging_env \<Rightarrow> stage_content \<Rightarrow> bool" where
  "content_head_ok env c \<longleftrightarrow>
     (let b = st_basis c; p = st_proposal c; l = broker_limits_default in
      st_schema_version c = STAGING_SCHEMA_VERSION \<and> st_evidence_binding c = BindingUnverified \<and>
      tm_schema_version b = STAGING_SCHEMA_VERSION \<and>
      is_ok (validate_metadata (st_job_id c) (st_graph_snapshot_id c)) \<and>
      is_ok (validate_staged_proposal (sv_hash env) (sv_ts env) p) \<and>
      tm_gap_id b = pp_gap_id p \<and> tm_source_id b = pp_source_id p \<and> tm_edge_label b = pp_edge_label p \<and>
      trim (tm_action_id b) \<noteq> [] \<and> trim (tm_gap_id b) \<noteq> [] \<and> trim (tm_source_id b) \<noteq> [] \<and>
      tm_existing_confidence b \<in> {Gap, InferredWeak} \<and> tm_edge_label b \<in> set (bl_allowed_edge_labels l) \<and>
      tm_evidence b \<noteq> [] \<and> length (tm_evidence b) \<le> bl_max_evidence_spans l \<and>
      tm_candidates b \<noteq> [] \<and> length (tm_candidates b) \<le> bl_max_candidates l \<and> hex_hash (pp_basis_hash p))"

definition content_validate :: "staging_env \<Rightarrow> stage_content \<Rightarrow> (staging_error, unit) result" where
  "content_validate env c =
     (let b = st_basis c; p = st_proposal c in
      rbind (st_require StInvalidRecord (content_head_ok env c)) (\<lambda>_.
      case unique_nonempty (map eb_id (tm_evidence b)) of
        Inl _ \<Rightarrow> Inl StInvalidRecord
      | Inr evidence_ids \<Rightarrow>
          rbind (st_require StInvalidRecord (is_ok (unique_nonempty (map cb_node_id (tm_candidates b))))) (\<lambda>_.
          rbind (validate_membership (tm_source_evidence_ids b) evidence_ids) (\<lambda>_.
          rbind (st_require StInvalidRecord (list_all evidence_item_ok (tm_evidence b))) (\<lambda>_.
          rbind (st_require StInvalidRecord
                   (sum_list (map eb_text_bytes (tm_evidence b)) \<le> bl_max_total_evidence_bytes broker_limits_default)) (\<lambda>_.
          rbind (try_fold (\<lambda>item _. rbind (st_require StInvalidRecord
                     (trim (cb_label item) \<noteq> [] \<and> hex_hash (cb_summary_hash item))) (\<lambda>_.
                   validate_membership (cb_evidence_ids item) evidence_ids)) (tm_candidates b) ()) (\<lambda>_.
          case find (\<lambda>item. cb_node_id item = pp_target_id p) (tm_candidates b) of
            None \<Rightarrow> Inl StInvalidRecord
          | Some target \<Rightarrow>
              (case citation_assignment (map (\<lambda>item. (eb_id item, eb_source item)) (tm_evidence b))
                      (tm_source_evidence_ids b) (cb_evidence_ids target) (p_evidence (pp_provenance p)) of
                 None \<Rightarrow> Inl StInvalidRecord
               | Some _ \<Rightarrow> Inr ()))))))))"

definition v1_identity :: "staging_env \<Rightarrow> stage_content \<Rightarrow> string" where
  "v1_identity env c = ''proposal-stage-v1:'' @ content_hash (sv_hash env) (sv_v1_text env c)"

definition raw_of :: "agent_proposal \<Rightarrow> string list \<Rightarrow> raw_proposal" where
  "raw_of p citations =
     \<lparr>rw_target_id = pp_target_id p, rw_annotation = pp_annotation p, rw_citations = citations\<rparr>"

definition content_build ::
  "staging_env \<Rightarrow> agent_task \<Rightarrow> agent_proposal \<Rightarrow> int \<Rightarrow> string \<Rightarrow> (staging_error, stage_content) result" where
  "content_build env t p job_id snapshot =
     rbind (validate_metadata job_id snapshot) (\<lambda>_.
     rbind (check_size (length (pp_annotation p))) (\<lambda>_.
     rbind (st_require TaskSummariesTooLarge
              (sum_list (map (\<lambda>c. length (ca_summary c)) (at_candidates t)) \<le> MAX_STAGED_RECORD_BYTES)) (\<lambda>_.
     rbind (of_agent (validate_task broker_limits_default t)) (\<lambda>_.
     rbind (reject_annotation_replay t (pp_annotation p)) (\<lambda>_.
     case match_citations t p of
       None \<Rightarrow> Inl (StInvalidTask (Integrity ''proposal citations do not match the host task''))
     | Some citations \<Rightarrow>
         rbind (of_agent (validate_response (sv_hash env) (sv_ts env) t (raw_of p citations))) (\<lambda>validated.
         rbind (st_require
                  (StInvalidTask (Integrity ''proposal does not match the original host task and broker contract''))
                  (validated = p)) (\<lambda>_.
         (let c = \<lparr>st_schema_version = STAGING_SCHEMA_VERSION, st_proposal = p, st_job_id = job_id,
                   st_graph_snapshot_id = snapshot,
                   st_basis = task_manifest (sv_hash env) t STAGING_SCHEMA_VERSION,
                   st_evidence_binding = BindingUnverified, st_context_status = AwaitingReconciliation\<rparr>
          in rbind (content_validate env c) (\<lambda>_. Inr c)))))))))"

section \<open>The immutable record, version 2\<close>

definition selected_fingerprint :: "staging_env \<Rightarrow> task_source_basis \<Rightarrow> string" where
  "selected_fingerprint env sb =
     domain_hash (sv_hash env) (''cartograph:task-selected-facts:v2'' @ [CHR 0x00])
       (sv_facts_text env (tsb_selected_facts sb))"

definition content_base :: "stage_content_v2 \<Rightarrow> stage_content" where
  "content_base c =
     \<lparr>st_schema_version = st_schema_version c, st_proposal = st_proposal c, st_job_id = st_job_id c,
      st_graph_snapshot_id = st_graph_snapshot_id c, st_basis = st_basis c,
      st_evidence_binding = st_evidence_binding c, st_context_status = st_context_status c\<rparr>"

definition content_v2_validate :: "staging_env \<Rightarrow> stage_content_v2 \<Rightarrow> (staging_error, unit) result" where
  "content_v2_validate env c =
     (if st_schema_version c \<noteq> 2 \<or> tm_schema_version (st_basis c) \<noteq> 2 \<or>
         st_evidence_binding c \<noteq> BindingPerItem \<or>
         tsb_graph_snapshot_id (st_source_basis c) \<noteq> st_graph_snapshot_id c
      then Inl StInvalidRecord
      else rbind (content_validate env
                   ((content_base c)\<lparr>st_schema_version := 1, st_basis := (st_basis c)\<lparr>tm_schema_version := 1\<rparr>,
                                     st_evidence_binding := BindingUnverified\<rparr>)) (\<lambda>_.
           case prepared_basis_hash (sv_hash env) (sv_basis_text env) (sv_prepared_text env) (st_basis c)
                  (st_source_basis c) of
             Inl _ \<Rightarrow> Inl StInvalidRecord
           | Inr expected \<Rightarrow>
               if expected \<noteq> pp_basis_hash (st_proposal c) \<or>
                  st_selected_facts_fingerprint c \<noteq> selected_fingerprint env (st_source_basis c)
               then Inl StInvalidRecord else Inr ()))"

definition v2_identity :: "staging_env \<Rightarrow> stage_content_v2 \<Rightarrow> string" where
  "v2_identity env c =
     ''proposal-stage-v2:'' @
     domain_hash (sv_hash env) (''cartograph:proposal-stage:v2'' @ [CHR 0x00]) (sv_v2_text env c)"

definition content_v2_build ::
  "staging_env \<Rightarrow> prepared_agent_task \<Rightarrow> agent_proposal \<Rightarrow> int \<Rightarrow> string
     \<Rightarrow> (staging_error, stage_content_v2) result" where
  "content_v2_build env t p job_id snapshot =
     rbind (validate_metadata job_id snapshot) (\<lambda>_.
     rbind (check_size (length (pp_annotation p))) (\<lambda>_.
     rbind (of_agent (validate_task broker_limits_default (pt_task t))) (\<lambda>_.
     rbind (reject_annotation_replay (pt_task t) (pp_annotation p)) (\<lambda>_.
     case match_citations (pt_task t) p of
       None \<Rightarrow> Inl StInvalidRecord
     | Some citations \<Rightarrow>
         rbind (of_agent (prepared_task_basis_hash (sv_hash env) (sv_basis_text env) (sv_prepared_text env) t)) (\<lambda>basis.
         rbind (of_agent (validate_response_with_basis (sv_hash env) (sv_ts env) (pt_task t)
                  (raw_of p citations) basis)) (\<lambda>validated.
         rbind (st_require StInvalidRecord (validated = p)) (\<lambda>_.
         (let c = \<lparr>st_schema_version = PREPARED_STAGING_SCHEMA_VERSION, st_proposal = p, st_job_id = job_id,
                   st_graph_snapshot_id = snapshot, st_basis = task_manifest (sv_hash env) (pt_task t) 2,
                   st_evidence_binding = BindingPerItem, st_context_status = AwaitingReconciliation,
                   st_source_basis = pt_source_basis t,
                   st_selected_facts_fingerprint = selected_fingerprint env (pt_source_basis t)\<rparr>
          in rbind (content_v2_validate env c) (\<lambda>_. Inr c)))))))))"

section \<open>Strict traversal of a stored version 2 text\<close>

definition array_limit_of :: "string \<Rightarrow> nat" where
  "array_limit_of key =
     (if key \<in> {''evidence'', ''citations'', ''source_evidence_ids'', ''evidence_ids''} then 12
      else if key = ''candidates'' then 8
      else if key = ''omissions'' then 64
      else 65)"

fun strict_value :: "nat \<Rightarrow> nat \<Rightarrow> json \<Rightarrow> nat \<Rightarrow> nat option"
  and strict_seq :: "nat \<Rightarrow> nat \<Rightarrow> json list \<Rightarrow> nat \<Rightarrow> nat \<Rightarrow> nat option"
  and strict_map :: "nat \<Rightarrow> (string \<times> json) list \<Rightarrow> string list \<Rightarrow> nat \<Rightarrow> nat option" where
  "strict_value d limit v remaining =
     (if d > 16 \<or> remaining = 0 then None
      else (case v of
              JStr s \<Rightarrow> if length s > MAX_STAGED_RECORD_BYTES then None else Some (remaining - 1)
            | JArr vs \<Rightarrow> strict_seq (d + 1) limit vs 0 (remaining - 1)
            | JObj kvs \<Rightarrow> strict_map (d + 1) kvs [] (remaining - 1)
            | _ \<Rightarrow> Some (remaining - 1)))"
| "strict_seq d limit [] count remaining = Some remaining"
| "strict_seq d limit (v # vs) count remaining =
     (case strict_value d 65 v remaining of
        None \<Rightarrow> None
      | Some r \<Rightarrow> if count + 1 > limit then None else strict_seq d limit vs (count + 1) r)"
| "strict_map d [] keys remaining = Some remaining"
| "strict_map d ((k, v) # kvs) keys remaining =
     (if length k > 64 \<or> length keys = 32 \<or> k \<in> set keys then None
      else (case strict_value d (array_limit_of k) v remaining of
              None \<Rightarrow> None
            | Some r \<Rightarrow> strict_map d kvs (k # keys) r))"

definition strict_preflight :: "staging_env \<Rightarrow> string \<Rightarrow> (staging_error, unit) result" where
  "strict_preflight env body =
     (case sv_tree env body of
        None \<Rightarrow> Inl StInvalidRecord
      | Some v \<Rightarrow> (case strict_value 0 65 v 4096 of None \<Rightarrow> Inl StInvalidRecord | Some _ \<Rightarrow> Inr ()))"

section \<open>Either version\<close>

definition immutable_json :: "staging_env \<Rightarrow> immutable_content \<Rightarrow> string" where
  "immutable_json env c = (case c of V1 a \<Rightarrow> sv_v1_text env a | V2 b \<Rightarrow> sv_v2_text env b)"

definition immutable_identity :: "staging_env \<Rightarrow> immutable_content \<Rightarrow> string" where
  "immutable_identity env c = (case c of V1 a \<Rightarrow> v1_identity env a | V2 b \<Rightarrow> v2_identity env b)"

definition immutable_base :: "immutable_content \<Rightarrow> stage_content" where
  "immutable_base c = (case c of V1 a \<Rightarrow> a | V2 b \<Rightarrow> content_base b)"

definition immutable_decode :: "staging_env \<Rightarrow> string \<Rightarrow> (staging_error, immutable_content) result" where
  "immutable_decode env body =
     rbind (check_size (length body)) (\<lambda>_.
       case sv_version env body of
         None \<Rightarrow> Inl StInvalidRecord
       | Some version \<Rightarrow>
           if version = 1
           then (case sv_v1_parse env body of
                   None \<Rightarrow> Inl StInvalidRecord
                 | Some c \<Rightarrow> rbind (content_validate env c) (\<lambda>_. Inr (V1 c)))
           else if version = 2
           then rbind (strict_preflight env body) (\<lambda>_.
                  case sv_value env body of
                    None \<Rightarrow> Inl StInvalidRecord
                  | Some value \<Rightarrow>
                      (case sv_v2_from_value env value of
                         None \<Rightarrow> Inl StInvalidRecord
                       | Some c \<Rightarrow>
                           rbind (st_require StInvalidRecord (json_eq (sv_v2_to_value env c) value)) (\<lambda>_.
                           rbind (content_v2_validate env c) (\<lambda>_. Inr (V2 c)))))
           else Inl StInvalidRecord)"

definition immutable_content_of :: "staged_proposal \<Rightarrow> stage_content" where
  "immutable_content_of s =
     \<lparr>st_schema_version = sg_schema_version s, st_proposal = sg_proposal s, st_job_id = sg_job_id s,
      st_graph_snapshot_id = sg_graph_snapshot_id s, st_basis = sg_basis s,
      st_evidence_binding = sg_evidence_binding s, st_context_status = sg_context_status s\<rparr>"

definition versioned_content :: "staging_env \<Rightarrow> staged_proposal \<Rightarrow> (staging_error, immutable_content) result" where
  "versioned_content env s =
     (if sg_schema_version s = 1 \<and> sg_source_basis s = None then Inr (V1 (immutable_content_of s))
      else (case sg_source_basis s of
              Some sb \<Rightarrow>
                if sg_schema_version s = 2
                then Inr (V2 \<lparr>st_schema_version = 2, st_proposal = sg_proposal s, st_job_id = sg_job_id s,
                              st_graph_snapshot_id = sg_graph_snapshot_id s, st_basis = sg_basis s,
                              st_evidence_binding = sg_evidence_binding s, st_context_status = sg_context_status s,
                              st_source_basis = sb, st_selected_facts_fingerprint = selected_fingerprint env sb\<rparr>)
                else Inl StInvalidRecord
            | None \<Rightarrow> Inl StInvalidRecord))"

definition check_record_size :: "staging_env \<Rightarrow> staged_proposal \<Rightarrow> (staging_error, unit) result" where
  "check_record_size env s = check_size (length (sv_staged_text env s))"

definition check_review_headroom :: "staging_env \<Rightarrow> staged_proposal \<Rightarrow> (staging_error, unit) result" where
  "check_review_headroom env s =
     check_record_size env
       (s\<lparr>sg_review_revision := 2 ^ 63 - 1, sg_review_decision := Some Rejected, sg_review_note := None,
          sg_reviewed_at := Some ''9999-12-31T23:59:59Z''\<rparr>)"

section \<open>The table\<close>

record stored_row =
  sw_sequence :: int
  sw_proposal_id :: string
  sw_immutable_json :: string
  sw_review_revision :: int
  sw_review_decision :: "string option"
  sw_review_note :: "string option"
  sw_created_at :: string
  sw_reviewed_at :: "string option"

text \<open>
  The rows in ascending \<^verbatim>\<open>sequence\<close> and the largest sequence ever given out
  (\<^verbatim>\<open>sqlite_sequence\<close>). The trigger refuses updates of the other four columns; no statement of the
  program issues one.
\<close>

record proposal_store =
  ps_rows :: "stored_row list"
  ps_counter :: int

definition open_store :: "proposal_store option \<Rightarrow> proposal_store" where
  "open_store existing = (case existing of Some db \<Rightarrow> db | None \<Rightarrow> \<lparr>ps_rows = [], ps_counter = 0\<rparr>)"

text \<open>The \<^verbatim>\<open>CHECK\<close> constraints of the table.\<close>

definition stored_checks :: "stored_row \<Rightarrow> bool" where
  "stored_checks r \<longleftrightarrow>
     length (sw_immutable_json r) \<le> 131072 \<and> sw_review_revision r \<ge> 0 \<and>
     (case sw_review_decision r of None \<Rightarrow> True | Some d \<Rightarrow> d \<in> {''accepted'', ''rejected''}) \<and>
     ((sw_review_revision r = 0 \<and> sw_review_decision r = None \<and> sw_review_note r = None \<and> sw_reviewed_at r = None) \<or>
      (sw_review_revision r > 0 \<and> sw_review_decision r \<noteq> None \<and> sw_reviewed_at r \<noteq> None))"

definition bounded_cell :: "nat \<Rightarrow> string \<Rightarrow> bool" where
  "bounded_cell maximum v \<longleftrightarrow> length v \<le> maximum \<and> is_utf8 v"

definition bounded_null :: "nat \<Rightarrow> string option \<Rightarrow> bool" where
  "bounded_null maximum v = (case v of None \<Rightarrow> True | Some x \<Rightarrow> bounded_cell maximum x)"

definition read_stored_row :: "stored_row \<Rightarrow> (staging_error, stored_row) result" where
  "read_stored_row r =
     (if bounded_cell 256 (sw_proposal_id r) \<and>
         bounded_cell MAX_STAGED_RECORD_BYTES (sw_immutable_json r) \<and> bounded_null 8 (sw_review_decision r) \<and>
         bounded_null MAX_STAGED_RECORD_BYTES (sw_review_note r) \<and> bounded_cell 64 (sw_created_at r) \<and>
         bounded_null 64 (sw_reviewed_at r)
      then Inr r else Inl StStorage)"

text \<open>The decision column as the enumeration, and the staged proposal of a row.\<close>

definition row_decision :: "stored_row \<Rightarrow> (staging_error, proposal_decision option) result" where
  "row_decision row =
     (case sw_review_decision row of
        None \<Rightarrow> Inr None
      | Some d \<Rightarrow> (case decision_parse d of Inl _ \<Rightarrow> Inl StInvalidRecord | Inr x \<Rightarrow> Inr (Some x)))"

definition review_columns_ok :: "stored_row \<Rightarrow> proposal_decision option \<Rightarrow> bool" where
  "review_columns_ok row decision \<longleftrightarrow>
     \<not> ((sw_review_revision row = 0 \<and>
          (decision \<noteq> None \<or> sw_review_note row \<noteq> None \<or> sw_reviewed_at row \<noteq> None)) \<or>
        (sw_review_revision row > 0 \<and> (decision = None \<or> sw_reviewed_at row = None)))"

definition staged_of :: "stored_row \<Rightarrow> immutable_content \<Rightarrow> proposal_decision option \<Rightarrow> staged_proposal" where
  "staged_of row content decision =
     (let c = immutable_base content in
      \<lparr>sg_schema_version = st_schema_version c, sg_proposal_id = sw_proposal_id row,
       sg_proposal = st_proposal c, sg_job_id = st_job_id c, sg_graph_snapshot_id = st_graph_snapshot_id c,
       sg_basis = st_basis c, sg_evidence_binding = st_evidence_binding c, sg_context_status = st_context_status c,
       sg_review_revision = nat (sw_review_revision row), sg_review_decision = decision,
       sg_review_note = sw_review_note row, sg_created_at = sw_created_at row, sg_reviewed_at = sw_reviewed_at row,
       sg_source_basis = (case content of V1 _ \<Rightarrow> None | V2 b \<Rightarrow> Some (st_source_basis b))\<rparr>)"

definition decode_row :: "staging_env \<Rightarrow> stored_row \<Rightarrow> (staging_error, staged_proposal) result" where
  "decode_row env row =
     rbind (check_size (length (sw_immutable_json row))) (\<lambda>_.
     rbind (immutable_decode env (sw_immutable_json row)) (\<lambda>content.
     if immutable_identity env content \<noteq> sw_proposal_id row \<or> sw_review_revision row < 0 then Inl StInvalidRecord
     else rbind (row_decision row) (\<lambda>decision.
          if \<not> review_columns_ok row decision then Inl StInvalidRecord
          else (let staged = staged_of row content decision
                in rbind (check_record_size env staged) (\<lambda>_. Inr staged)))))"

definition get_on :: "staging_env \<Rightarrow> proposal_store \<Rightarrow> string \<Rightarrow> (staging_error, staged_proposal option) result" where
  "get_on env db proposal_id =
     (case find (\<lambda>r. sw_proposal_id r = proposal_id) (ps_rows db) of
        None \<Rightarrow> Inr None
      | Some r \<Rightarrow> rbind (read_stored_row r) (\<lambda>row. rbind (decode_row env row) (\<lambda>s. Inr (Some s))))"

text \<open>
  \<^verbatim>\<open>INSERT ... ON CONFLICT(proposal_id) DO NOTHING\<close>: the number of inserted rows and the table. A
  sequence at or below the counter is what SQLite cannot give; it refuses the insert.
\<close>

definition insert_row ::
  "string \<Rightarrow> int \<Rightarrow> string \<Rightarrow> string \<Rightarrow> proposal_store \<Rightarrow> (staging_error, nat \<times> proposal_store) result" where
  "insert_row now sq proposal_id body db =
     (let row = \<lparr>sw_sequence = sq, sw_proposal_id = proposal_id, sw_immutable_json = body, sw_review_revision = 0,
                 sw_review_decision = None, sw_review_note = None, sw_created_at = now, sw_reviewed_at = None\<rparr>
      in if sq \<le> ps_counter db \<or> sq \<ge> 2 ^ 63 \<or> \<not> stored_checks row then Inl StStorage
         else if list_ex (\<lambda>r. sw_proposal_id r = proposal_id) (ps_rows db) then Inr (0, db)
         else Inr (1, db\<lparr>ps_rows := ps_rows db @ [row], ps_counter := sq\<rparr>))"

section \<open>Operations\<close>

text \<open>Commit on success, roll back on failure.\<close>

definition in_transaction ::
  "(proposal_store \<Rightarrow> (staging_error, 'a \<times> proposal_store) result) \<Rightarrow> proposal_store
     \<Rightarrow> (staging_error, 'a) result \<times> proposal_store" where
  "in_transaction body db = (case body db of Inl e \<Rightarrow> (Inl e, db) | Inr (a, db') \<Rightarrow> (Inr a, db'))"

definition get_required ::
  "staging_error \<Rightarrow> staging_env \<Rightarrow> proposal_store \<Rightarrow> string \<Rightarrow> (staging_error, staged_proposal) result" where
  "get_required e env db proposal_id =
     rbind (get_on env db proposal_id) (\<lambda>found. case found of None \<Rightarrow> Inl e | Some s \<Rightarrow> Inr s)"

definition persist_body ::
  "staging_env \<Rightarrow> string \<Rightarrow> int \<Rightarrow> immutable_content \<Rightarrow> proposal_store
     \<Rightarrow> (staging_error, staged_proposal \<times> proposal_store) result" where
  "persist_body env now sq content db =
     rbind (insert_row now sq (immutable_identity env content) (immutable_json env content) db) (\<lambda>(inserted, db').
     if inserted > 1 then Inl StInvalidRecord
     else rbind (get_required StInvalidRecord env db' (immutable_identity env content)) (\<lambda>row.
          rbind (versioned_content env row) (\<lambda>stored.
          rbind (st_require StInvalidRecord (stored = content)) (\<lambda>_.
          rbind (check_record_size env row) (\<lambda>_.
          rbind (check_review_headroom env row) (\<lambda>_. Inr (row, db')))))))"

definition persist ::
  "staging_env \<Rightarrow> string \<Rightarrow> int \<Rightarrow> immutable_content \<Rightarrow> proposal_store
     \<Rightarrow> (staging_error, staged_proposal) result \<times> proposal_store" where
  "persist env now sq content db =
     (case check_size (length (immutable_json env content)) of
        Inl e \<Rightarrow> (Inl e, db)
      | Inr _ \<Rightarrow> in_transaction (persist_body env now sq content) db)"

definition stage ::
  "staging_env \<Rightarrow> string \<Rightarrow> int \<Rightarrow> agent_task \<Rightarrow> agent_proposal \<Rightarrow> int \<Rightarrow> string \<Rightarrow> proposal_store
     \<Rightarrow> (staging_error, staged_proposal) result \<times> proposal_store" where
  "stage env now sq t p job_id snapshot db =
     (case content_build env t p job_id snapshot of
        Inl e \<Rightarrow> (Inl e, db)
      | Inr c \<Rightarrow> persist env now sq (V1 c) db)"

definition stage_prepared ::
  "staging_env \<Rightarrow> string \<Rightarrow> int \<Rightarrow> prepared_agent_task \<Rightarrow> agent_proposal \<Rightarrow> int \<Rightarrow> string \<Rightarrow> proposal_store
     \<Rightarrow> (staging_error, staged_proposal) result \<times> proposal_store" where
  "stage_prepared env now sq t p job_id snapshot db =
     (case content_v2_build env t p job_id snapshot of
        Inl e \<Rightarrow> (Inl e, db)
      | Inr c \<Rightarrow> persist env now sq (V2 c) db)"

text \<open>\<^verbatim>\<open>UPDATE ... WHERE proposal_id = ?4 AND review_revision = ?5\<close>: the number of changed rows and the table.\<close>

definition review_row :: "string \<Rightarrow> int \<Rightarrow> proposal_decision \<Rightarrow> string option \<Rightarrow> stored_row \<Rightarrow> stored_row" where
  "review_row now next_revision decision remark r =
     r\<lparr>sw_review_revision := next_revision, sw_review_decision := Some (decision_as_str decision),
       sw_review_note := remark, sw_reviewed_at := Some now\<rparr>"

definition update_review ::
  "string \<Rightarrow> string \<Rightarrow> int \<Rightarrow> int \<Rightarrow> proposal_decision \<Rightarrow> string option \<Rightarrow> proposal_store
     \<Rightarrow> (staging_error, nat \<times> proposal_store) result" where
  "update_review now proposal_id expected next_revision decision remark db =
     (let hit = (\<lambda>r. sw_proposal_id r = proposal_id \<and> sw_review_revision r = expected);
          rows = map (\<lambda>r. if hit r then review_row now next_revision decision remark r else r) (ps_rows db)
      in if \<not> list_all stored_checks (map (review_row now next_revision decision remark) (filter hit (ps_rows db))) then Inl StStorage
         else Inr (length (filter hit (ps_rows db)), db\<lparr>ps_rows := rows\<rparr>))"

definition review_body ::
  "staging_env \<Rightarrow> string \<Rightarrow> string \<Rightarrow> nat \<Rightarrow> proposal_decision \<Rightarrow> string option \<Rightarrow> proposal_store
     \<Rightarrow> (staging_error, staged_proposal \<times> proposal_store) result" where
  "review_body env now proposal_id expected decision remark db =
     rbind (get_required (UnknownProposal proposal_id) env db proposal_id) (\<lambda>current.
     if sg_review_revision current \<noteq> expected
     then Inl (StaleReviewRevision expected (sg_review_revision current))
     else if expected + 1 \<ge> 2 ^ 63 then Inl (StInvalidMetadata ''review revision exhausted'')
     else rbind (update_review now proposal_id (int expected) (int expected + 1) decision remark db) (\<lambda>(changed, db').
          if changed \<noteq> 1 then Inl StInvalidRecord
          else rbind (get_required StInvalidRecord env db' proposal_id) (\<lambda>reviewed.
               rbind (check_record_size env reviewed) (\<lambda>_. Inr (reviewed, db')))))"

definition review ::
  "staging_env \<Rightarrow> string \<Rightarrow> string \<Rightarrow> nat \<Rightarrow> proposal_decision \<Rightarrow> string option \<Rightarrow> proposal_store
     \<Rightarrow> (staging_error, staged_proposal) result \<times> proposal_store" where
  "review env now proposal_id expected decision remark db =
     (case (case remark of None \<Rightarrow> Inr () | Some n \<Rightarrow> check_size (length n)) of
        Inl e \<Rightarrow> (Inl e, db)
      | Inr _ \<Rightarrow> in_transaction (review_body env now proposal_id expected decision remark) db)"

section \<open>Reading the history\<close>

definition parse_cursor :: "staging_env \<Rightarrow> string \<Rightarrow> (staging_error, history_keyset) result" where
  "parse_cursor env v =
     (if length v > 256 then Inl StInvalidCursor
      else (case sv_keyset_parse env v of
              None \<Rightarrow> Inl StInvalidCursor
            | Some k \<Rightarrow>
                if hk_version k \<noteq> HISTORY_CURSOR_VERSION \<or> hk_ceiling k \<le> 0 \<or> hk_before k \<le> 0 \<or>
                   hk_before k > hk_ceiling k
                then Inl StInvalidCursor else Inr k))"

text \<open>\<^verbatim>\<open>COALESCE(MAX(sequence), 0)\<close>.\<close>

definition max_sequence :: "proposal_store \<Rightarrow> int" where
  "max_sequence db = (case ps_rows db of [] \<Rightarrow> 0 | r # rs \<Rightarrow> fold (\<lambda>x m. max m (sw_sequence x)) rs (sw_sequence r))"

definition page_rows :: "int \<Rightarrow> int option \<Rightarrow> nat \<Rightarrow> proposal_store \<Rightarrow> stored_row list" where
  "page_rows ceiling before limit db =
     take limit (rev (filter (\<lambda>r. sw_sequence r \<le> ceiling \<and>
       (case before of None \<Rightarrow> True | Some b \<Rightarrow> sw_sequence r < b)) (ps_rows db)))"

fun page_loop ::
  "staging_env \<Rightarrow> nat \<Rightarrow> stored_row list \<Rightarrow> staged_proposal list \<Rightarrow> int option
     \<Rightarrow> (staging_error, staged_proposal list \<times> int option \<times> bool) result" where
  "page_loop env limit [] items last_sequence = Inr (items, last_sequence, False)"
| "page_loop env limit (r # rs) items last_sequence =
     rbind (read_stored_row r) (\<lambda>row.
       if length items = limit then Inr (items, last_sequence, True)
       else rbind (decode_row env row) (\<lambda>s. page_loop env limit rs (items @ [s]) (Some (sw_sequence row))))"

definition list_staged ::
  "staging_env \<Rightarrow> nat \<Rightarrow> string option \<Rightarrow> proposal_store \<Rightarrow> (staging_error, staged_proposal_page) result" where
  "list_staged env limit cursor db =
     (if limit = 0 \<or> limit > MAX_STAGED_PAGE_ITEMS then Inl InvalidLimit
      else rbind (case cursor of None \<Rightarrow> Inr None | Some v \<Rightarrow> rbind (parse_cursor env v) (\<lambda>k. Inr (Some k))) (\<lambda>key.
        (let ceiling = (case key of Some k \<Rightarrow> hk_ceiling k | None \<Rightarrow> max_sequence db) in
         rbind (page_loop env limit (page_rows ceiling (map_option hk_before key) (limit + 1) db) [] None)
           (\<lambda>(items, last_sequence, more).
              if more
              then (case last_sequence of
                      None \<Rightarrow> Inl StInvalidRecord
                    | Some l \<Rightarrow> Inr \<lparr>pg_items = items, pg_next_cursor = Some (sv_keyset_text env
                        \<lparr>hk_version = HISTORY_CURSOR_VERSION, hk_ceiling = ceiling, hk_before = l\<rparr>)\<rparr>)
              else Inr \<lparr>pg_items = items, pg_next_cursor = None\<rparr>))))"

fun row_references ::
  "string \<Rightarrow> string \<Rightarrow> task_evidence_origin list \<Rightarrow> staged_receipt_reference list
     \<Rightarrow> (staging_error, staged_receipt_reference list) result" where
  "row_references source_id proposal_id [] acc = Inr acc"
| "row_references source_id proposal_id (item # items) acc =
     (case eo_origin item of
        CapturedPrimarySource co \<Rightarrow>
          if co_source_id co = source_id
          then if length acc = MAX_STAGED_REFERENCE_SCAN then Inl ReferenceInventoryLimit
               else row_references source_id proposal_id items
                      (acc @ [\<lparr>sref_proposal_id = proposal_id, sref_evidence_id = eo_evidence_id item,
                               sref_receipt_id = co_receipt_id co\<rparr>])
          else row_references source_id proposal_id items acc
      | WorkingTreeUnverified \<Rightarrow> row_references source_id proposal_id items acc)"

definition scan_row ::
  "staging_env \<Rightarrow> string \<Rightarrow> stored_row \<Rightarrow> staged_receipt_reference list
     \<Rightarrow> (staging_error, staged_receipt_reference list) result" where
  "scan_row env source_id r acc =
     rbind (read_stored_row r) (\<lambda>row.
     rbind (decode_row env row) (\<lambda>s.
       (case sg_source_basis s of
          None \<Rightarrow> Inr acc
        | Some basis \<Rightarrow> row_references source_id (sg_proposal_id s) (tsb_evidence basis) acc)))"

definition captured_receipt_references ::
  "staging_env \<Rightarrow> string \<Rightarrow> proposal_store \<Rightarrow> (staging_error, staged_receipt_reference list) result" where
  "captured_receipt_references env source_id db =
     (if \<not> text_ok source_id 256 then Inl (StInvalidMetadata ''source identity'')
      else if length (take 4097 (ps_rows db)) > MAX_STAGED_REFERENCE_SCAN then Inl ReferenceInventoryLimit
      else rbind (try_fold (scan_row env source_id) (take 4097 (ps_rows db)) []) (\<lambda>found.
             Inr (sort_key reference_rank found)))"

end
