(* ===== verification/Staging_Props.thy ===== *)
theory Staging_Props
  imports Staging Agent_Props
begin

text \<open>
  What the staging store guarantees: a staged record never changes and reviews are compare-and-set
  over any run of operations, staging is idempotent and reads back, and the immutable record is
  exactly a result the broker could have produced for the host's own task.
\<close>

section \<open>Reading rows\<close>

lemma st_require_iff [simp]: "st_require e ok = Inr u \<longleftrightarrow> ok"
  by (simp add: st_require_def)

lemma check_size_iff [simp]:
  "check_size n = Inr u \<longleftrightarrow> n \<le> MAX_STAGED_RECORD_BYTES"
  "check_size n = Inl e \<longleftrightarrow> n > MAX_STAGED_RECORD_BYTES \<and> e = RecordTooLarge n"
  by (auto simp: check_size_def)

lemma read_stored_row_id: "read_stored_row r = Inr row \<Longrightarrow> row = r"
  by (simp add: read_stored_row_def split: if_splits)

text \<open>The stored text is what the content serialises to up to decoding, its id and review columns agree.\<close>

definition row_shows :: "staging_env \<Rightarrow> stored_row \<Rightarrow> immutable_content \<Rightarrow> proposal_decision option \<Rightarrow> bool" where
  "row_shows env row content decision \<longleftrightarrow>
     immutable_decode env (sw_immutable_json row) = Inr content \<and>
     length (sw_immutable_json row) \<le> MAX_STAGED_RECORD_BYTES \<and>
     immutable_identity env content = sw_proposal_id row \<and> sw_review_revision row \<ge> 0 \<and>
     row_decision row = Inr decision \<and> review_columns_ok row decision \<and>
     length (sv_staged_text env (staged_of row content decision)) \<le> MAX_STAGED_RECORD_BYTES"

lemma decode_row_iff:
  "decode_row env row = Inr s \<longleftrightarrow> (\<exists>content decision. row_shows env row content decision \<and> s = staged_of row content decision)"
  by (auto simp: decode_row_def row_shows_def rbind_eq_Inr check_record_size_def Let_def split: if_splits)

lemma get_on_iff:
  "get_on env db i = Inr (Some s) \<longleftrightarrow>
     (\<exists>r content decision. find (\<lambda>r. sw_proposal_id r = i) (ps_rows db) = Some r \<and> read_stored_row r = Inr r \<and>
        row_shows env r content decision \<and> s = staged_of r content decision)"
  by (auto simp: get_on_def rbind_eq_Inr decode_row_iff dest: read_stored_row_id split: option.splits)

lemma get_required_iff: "get_required e env db i = Inr s \<longleftrightarrow> get_on env db i = Inr (Some s)"
  by (auto simp: get_required_def rbind_eq_Inr split: option.splits)

lemma in_transaction_iff:
  "in_transaction body db = (Inr a, db') \<longleftrightarrow> body db = Inr (a, db')"
  "in_transaction body db = (Inl e, db') \<longleftrightarrow> body db = Inl e \<and> db' = db"
  by (auto simp: in_transaction_def split: sum.splits)

section \<open>Staging\<close>

definition fresh_row :: "string \<Rightarrow> int \<Rightarrow> string \<Rightarrow> string \<Rightarrow> stored_row" where
  "fresh_row now sq i body =
     \<lparr>sw_sequence = sq, sw_proposal_id = i, sw_immutable_json = body, sw_review_revision = 0,
      sw_review_decision = None, sw_review_note = None, sw_created_at = now, sw_reviewed_at = None\<rparr>"

definition staged_table :: "staging_env \<Rightarrow> string \<Rightarrow> int \<Rightarrow> immutable_content \<Rightarrow> proposal_store \<Rightarrow> proposal_store" where
  "staged_table env now sq content db =
     (if list_ex (\<lambda>r. sw_proposal_id r = immutable_identity env content) (ps_rows db) then db
      else db\<lparr>ps_rows := ps_rows db @ [fresh_row now sq (immutable_identity env content) (immutable_json env content)],
              ps_counter := sq\<rparr>)"

lemma fresh_stored_checks: "stored_checks (fresh_row now sq i body) \<longleftrightarrow> length body \<le> MAX_STAGED_RECORD_BYTES"
  by (simp add: stored_checks_def fresh_row_def MAX_STAGED_RECORD_BYTES_def)

lemma persist_iff:
  "persist env now sq content db = (Inr s, db') \<longleftrightarrow>
     length (immutable_json env content) \<le> MAX_STAGED_RECORD_BYTES \<and> ps_counter db < sq \<and> sq < 2 ^ 63 \<and>
     db' = staged_table env now sq content db \<and> get_on env db' (immutable_identity env content) = Inr (Some s) \<and>
     versioned_content env s = Inr content \<and>
     check_record_size env s = Inr () \<and> check_review_headroom env s = Inr ()"
  by (auto simp: persist_def in_transaction_iff persist_body_def insert_row_def Let_def
      fresh_row_def [symmetric] fresh_stored_checks rbind_eq_Inr get_required_iff staged_table_def
      not_le not_less split: sum.splits if_splits)

lemma persist_keeps_on_error: "persist env now sq content db = (Inl e, db') \<Longrightarrow> db' = db"
  by (auto simp: persist_def in_transaction_iff split: sum.splits)

text \<open>Ids are unique, sequences are positive, strictly increase and stay at or below the counter, and rows pass
  their checks.\<close>

definition store_wf :: "proposal_store \<Rightarrow> bool" where
  "store_wf db \<longleftrightarrow>
     distinct (map sw_proposal_id (ps_rows db)) \<and> sorted_wrt (<) (map sw_sequence (ps_rows db)) \<and>
     0 \<le> ps_counter db \<and> list_all (\<lambda>r. 0 < sw_sequence r \<and> sw_sequence r \<le> ps_counter db \<and> stored_checks r) (ps_rows db)"

lemma store_wf_open: "store_wf (open_store None)"
  by (simp add: store_wf_def open_store_def)

lemma store_wf_staged:
  assumes "store_wf db" "ps_counter db < sq" "length (immutable_json env content) \<le> MAX_STAGED_RECORD_BYTES"
  shows "store_wf (staged_table env now sq content db)"
  using assms
  by (auto simp: store_wf_def staged_table_def sorted_wrt_append list_all_iff list_ex_iff fresh_stored_checks)
    (auto simp: fresh_row_def)

section \<open>Reviewing\<close>

definition hits :: "string \<Rightarrow> nat \<Rightarrow> stored_row \<Rightarrow> bool" where
  "hits i e r \<longleftrightarrow> sw_proposal_id r = i \<and> sw_review_revision r = int e"

definition reviewed_table ::
  "string \<Rightarrow> string \<Rightarrow> nat \<Rightarrow> proposal_decision \<Rightarrow> string option \<Rightarrow> proposal_store \<Rightarrow> proposal_store" where
  "reviewed_table now i e d n db =
     db\<lparr>ps_rows := map (\<lambda>r. if hits i e r then review_row now (int e + 1) d n r else r) (ps_rows db)\<rparr>"

lemma review_stored_checks: "stored_checks r \<Longrightarrow> stored_checks (review_row now (int e + 1) d n r)"
  by (cases d) (auto simp: stored_checks_def review_row_def decision_as_str_def)

lemma review_iff:
  "review env now i e d n db = (Inr s', db') \<longleftrightarrow>
     (case n of None \<Rightarrow> True | Some x \<Rightarrow> length x \<le> MAX_STAGED_RECORD_BYTES) \<and>
     (\<exists>s. get_on env db i = Inr (Some s) \<and> sg_review_revision s = e) \<and> e + 1 < 2 ^ 63 \<and>
     list_all stored_checks (map (review_row now (int e + 1) d n) (filter (hits i e) (ps_rows db))) \<and>
     length (filter (hits i e) (ps_rows db)) = 1 \<and> db' = reviewed_table now i e d n db \<and>
     get_on env db' i = Inr (Some s') \<and> check_record_size env s' = Inr ()"
proof -
  have h: "(\<lambda>r. sw_proposal_id r = i \<and> sw_review_revision r = int e) = hits i e"
    by (simp add: fun_eq_iff hits_def)
  have u: "update_review now i (int e) (int e + 1) d n db = Inr (k, db'') \<longleftrightarrow>
      list_all stored_checks (map (review_row now (int e + 1) d n) (filter (hits i e) (ps_rows db))) \<and>
      k = length (filter (hits i e) (ps_rows db)) \<and> db'' = reviewed_table now i e d n db" for k db''
    unfolding update_review_def h reviewed_table_def Let_def by (auto simp: hits_def)
  have b: "review_body env now i e d n db = Inr (s', db') \<longleftrightarrow>
     (\<exists>s. get_on env db i = Inr (Some s) \<and> sg_review_revision s = e) \<and> e + 1 < 2 ^ 63 \<and>
     list_all stored_checks (map (review_row now (int e + 1) d n) (filter (hits i e) (ps_rows db))) \<and>
     length (filter (hits i e) (ps_rows db)) = 1 \<and> db' = reviewed_table now i e d n db \<and>
     get_on env db' i = Inr (Some s') \<and> check_record_size env s' = Inr ()"
    by (auto simp: review_body_def rbind_eq_Inr get_required_iff u not_le split: if_splits)
  have "review env now i e d n db = (Inr s', db') \<longleftrightarrow>
      (case n of None \<Rightarrow> True | Some x \<Rightarrow> length x \<le> MAX_STAGED_RECORD_BYTES) \<and>
      review_body env now i e d n db = Inr (s', db')"
    by (cases n) (auto simp: review_def in_transaction_iff check_size_def split: sum.splits)
  then show ?thesis unfolding b .
qed

lemma review_keeps_on_error: "review env now i e d n db = (Inl x, db') \<Longrightarrow> db' = db"
  by (auto simp: review_def in_transaction_iff split: sum.splits)

lemma store_wf_reviewed: "store_wf db \<Longrightarrow> store_wf (reviewed_table now i e d n db)"
proof -
  assume wf: "store_wf db"
  have 1: "map sw_proposal_id (ps_rows (reviewed_table now i e d n db)) = map sw_proposal_id (ps_rows db)"
    "map sw_sequence (ps_rows (reviewed_table now i e d n db)) = map sw_sequence (ps_rows db)"
    by (simp_all add: reviewed_table_def review_row_def)
  show ?thesis
    using wf unfolding store_wf_def 1
    by (auto simp: reviewed_table_def list_all_iff review_stored_checks) (simp_all add: review_row_def)
qed

section \<open>Runs\<close>

datatype staging_op =
    OpStage string int agent_task agent_proposal int string
  | OpPrepared string int prepared_agent_task agent_proposal int string
  | OpReview string string nat proposal_decision "string option"

fun staging_step :: "staging_env \<Rightarrow> staging_op \<Rightarrow> proposal_store \<Rightarrow> (staging_error, staged_proposal) result \<times> proposal_store" where
  "staging_step env (OpStage now sq t p job snap) db = stage env now sq t p job snap db"
| "staging_step env (OpPrepared now sq t p job snap) db = stage_prepared env now sq t p job snap db"
| "staging_step env (OpReview now i e d n) db = review env now i e d n db"

definition staging_run :: "staging_env \<Rightarrow> staging_op list \<Rightarrow> proposal_store \<Rightarrow> proposal_store" where
  "staging_run env ops db = fold (\<lambda>op db. snd (staging_step env op db)) ops db"

text \<open>The revisions expected by the reviews of one id that a run lets through, in order.\<close>

fun accepted_reviews :: "staging_env \<Rightarrow> string \<Rightarrow> staging_op list \<Rightarrow> proposal_store \<Rightarrow> nat list" where
  "accepted_reviews env i [] db = []"
| "accepted_reviews env i (op # ops) db =
     (case op of
        OpReview now j e d n \<Rightarrow> if j = i \<and> is_ok (fst (staging_step env op db)) then [e] else []
      | _ \<Rightarrow> []) @ accepted_reviews env i ops (snd (staging_step env op db))"

definition same_record :: "stored_row \<Rightarrow> stored_row \<Rightarrow> bool" where
  "same_record a b \<longleftrightarrow>
     sw_sequence a = sw_sequence b \<and> sw_proposal_id a = sw_proposal_id b \<and>
     sw_immutable_json a = sw_immutable_json b \<and> sw_created_at a = sw_created_at b"

lemma stage_cases:
  assumes "op = OpStage now sq t p job snap \<or> op = OpPrepared now sq u p job snap"
  shows "snd (staging_step env op db) = db \<or>
    (\<exists>content. snd (staging_step env op db) = staged_table env now sq content db \<and> ps_counter db < sq \<and>
       length (immutable_json env content) \<le> MAX_STAGED_RECORD_BYTES)"
proof -
  have p: "snd (persist env now sq content db) = db \<or>
      (snd (persist env now sq content db) = staged_table env now sq content db \<and> ps_counter db < sq \<and>
       length (immutable_json env content) \<le> MAX_STAGED_RECORD_BYTES)" for content
    using persist_iff [of env now sq content db] persist_keeps_on_error [of env now sq content db]
    by (cases "persist env now sq content db") (metis snd_conv sum.exhaust)
  have "snd (staging_step env op db) = db \<or>
      (\<exists>content. staging_step env op db = persist env now sq content db)"
    using assms by (auto simp: stage_def stage_prepared_def split: sum.splits)
  then show ?thesis using p by metis
qed

lemma staged_keeps_row:
  assumes "store_wf db" "r \<in> set (ps_rows db)"
  shows "ps_counter db < sq \<Longrightarrow> length (immutable_json env content) \<le> MAX_STAGED_RECORD_BYTES \<Longrightarrow>
    store_wf (staged_table env now sq content db) \<and> r \<in> set (ps_rows (staged_table env now sq content db))"
  using assms store_wf_staged by (auto simp: staged_table_def)

lemma step_row:
  assumes wf: "store_wf db" and r: "r \<in> set (ps_rows db)"
  shows "store_wf (snd (staging_step env op db)) \<and>
    (\<exists>r' \<in> set (ps_rows (snd (staging_step env op db))). same_record r r' \<and>
       (case op of
          OpReview now j e d n \<Rightarrow>
            if j = sw_proposal_id r \<and> is_ok (fst (staging_step env op db))
            then sw_review_revision r = int e \<and> r' = review_row now (int e + 1) d n r else r' = r
        | _ \<Rightarrow> r' = r))"
proof (cases op)
  case (OpReview now j e d n)
  show ?thesis
  proof (cases "review env now j e d n db")
    case (Pair out db')
    show ?thesis
    proof (cases out)
      case (Inl x)
      then show ?thesis using OpReview Pair review_keeps_on_error [of env now j e d n db] wf r
        by (auto simp: is_ok_def same_record_def)
    next
      case (Inr s')
      from review_iff [of env now j e d n db s' db'] Inr Pair
      have one: "length (filter (hits j e) (ps_rows db)) = 1" and db': "db' = reviewed_table now j e d n db" by auto
      have hit: "hits j e r" if "sw_proposal_id r = j"
      proof -
        obtain x where x: "x \<in> set (ps_rows db)" "hits j e x"
          using one by (metis filter_False length_0_conv zero_neq_one)
        then have "x = r" using that wf r by (auto simp: store_wf_def hits_def distinct_map dest: inj_onD)
        then show ?thesis using x by simp
      qed
      define r' where "r' = (if hits j e r then review_row now (int e + 1) d n r else r)"
      have "r' \<in> set (ps_rows db')" using r by (auto simp: db' reviewed_table_def r'_def)
      moreover have "same_record r r'" by (simp add: r'_def same_record_def review_row_def)
      moreover have "if j = sw_proposal_id r then sw_review_revision r = int e \<and> r' = review_row now (int e + 1) d n r
          else r' = r" using hit by (auto simp: r'_def hits_def)
      ultimately show ?thesis using OpReview Pair Inr store_wf_reviewed [OF wf]
        by (auto simp: is_ok_def db')
    qed
  qed
next
  case (OpStage now sq t p job snap)
  have "store_wf (snd (staging_step env op db)) \<and> r \<in> set (ps_rows (snd (staging_step env op db)))"
    using stage_cases [of op now sq t p job snap _ env db] OpStage staged_keeps_row [OF wf r] wf r by metis
  then show ?thesis using OpStage by (simp add: same_record_def Bex_def)
next
  case (OpPrepared now sq t p job snap)
  have "store_wf (snd (staging_step env op db)) \<and> r \<in> set (ps_rows (snd (staging_step env op db)))"
    using stage_cases [of op now sq _ p job snap t env db] OpPrepared staged_keeps_row [OF wf r] wf r by metis
  then show ?thesis using OpPrepared by (simp add: same_record_def Bex_def)
qed

lemma run_row:
  assumes "store_wf db" "r \<in> set (ps_rows db)"
  shows "store_wf (staging_run env ops db) \<and>
    (let es = accepted_reviews env (sw_proposal_id r) ops db; k = nat (sw_review_revision r) in
     es = [k ..< k + length es] \<and>
     (\<exists>r' \<in> set (ps_rows (staging_run env ops db)). same_record r r' \<and>
        sw_review_revision r' = sw_review_revision r + int (length es) \<and> (es = [] \<longrightarrow> r' = r)))"
  using assms
proof (induction ops arbitrary: db r)
  case Nil
  then show ?case by (auto simp: staging_run_def same_record_def)
next
  case (Cons op ops)
  define db1 where "db1 = snd (staging_step env op db)"
  from step_row [OF Cons.prems, of env op] obtain r1 where wf1: "store_wf db1" and r1: "r1 \<in> set (ps_rows db1)"
    and same1: "same_record r r1"
    and upd: "case op of
          OpReview now j e d n \<Rightarrow>
            if j = sw_proposal_id r \<and> is_ok (fst (staging_step env op db))
            then sw_review_revision r = int e \<and> r1 = review_row now (int e + 1) d n r else r1 = r
        | _ \<Rightarrow> r1 = r"
    unfolding db1_def by blast
  define es where "es = accepted_reviews env (sw_proposal_id r) ops db1"
  have i1: "sw_proposal_id r1 = sw_proposal_id r" using same1 by (simp add: same_record_def)
  from Cons.IH [OF wf1 r1] obtain r2 where es: "es = [nat (sw_review_revision r1) ..< nat (sw_review_revision r1) + length es]"
    and wf2: "store_wf (staging_run env ops db1)" and r2: "r2 \<in> set (ps_rows (staging_run env ops db1))"
    and same2: "same_record r1 r2" and rev2: "sw_review_revision r2 = sw_review_revision r1 + int (length es)"
    and none2: "es = [] \<longrightarrow> r2 = r1"
    unfolding Let_def i1 es_def [symmetric] by blast
  have run: "staging_run env (op # ops) db = staging_run env ops db1" by (simp add: staging_run_def db1_def)
  have same: "same_record r r2" using same1 same2 by (simp add: same_record_def)
  show ?case
  proof (cases "\<exists>now e d n. op = OpReview now (sw_proposal_id r) e d n \<and> is_ok (fst (staging_step env op db))")
    case True
    then obtain now e d n where op: "op = OpReview now (sw_proposal_id r) e d n"
      and ok: "is_ok (fst (staging_step env op db))" by blast
    have e: "sw_review_revision r = int e" "sw_review_revision r1 = int e + 1"
      using upd op ok by (auto simp: review_row_def)
    have acc: "accepted_reviews env (sw_proposal_id r) (op # ops) db = e # es"
      using op ok by (simp add: es_def db1_def)
    have "nat (sw_review_revision r1) = Suc e" using e by simp
    then have "e # es = [e ..< e + length (e # es)]" using es upt_conv_Cons [of e "e + length (e # es)"] by simp
    moreover have "sw_review_revision r2 = sw_review_revision r + int (length (e # es))" using rev2 e by simp
    ultimately show ?thesis using wf2 r2 same unfolding run acc Let_def e(1) by auto
  next
    case False
    then have "r1 = r" using upd by (auto split: staging_op.splits if_splits)
    moreover have "accepted_reviews env (sw_proposal_id r) (op # ops) db = es"
      using False by (auto simp: es_def db1_def split: staging_op.splits)
    ultimately show ?thesis using es wf2 r2 same rev2 none2 unfolding run Let_def by auto
  qed
qed

text \<open>
  C35: immutability and compare-and-set review. Over any run of staging and review operations, successful
  or not, a row that is stored keeps its sequence, id, immutable text and creation time, and the table stays
  well formed (unique ids, increasing sequences). The reviews of that row that the run lets through are exactly
  those expecting the revisions one after the other, starting at the row's own: of two reviewers with the same
  expected revision at most one succeeds, and a row no review got through to is unchanged.
\<close>

theorem staged_rows_are_immutable:
  assumes "store_wf db" "r \<in> set (ps_rows db)"
  shows "let db' = staging_run env ops db; es = accepted_reviews env (sw_proposal_id r) ops db;
             k = nat (sw_review_revision r)
         in store_wf db' \<and> es = [k ..< k + length es] \<and>
            (\<exists>r' \<in> set (ps_rows db'). same_record r r' \<and>
               sw_review_revision r' = sw_review_revision r + int (length es) \<and> (es = [] \<longrightarrow> r' = r))"
  using run_row [OF assms] unfolding Let_def by blast

section \<open>Reading back\<close>

lemma content_validate_version: "content_validate env c = Inr u \<Longrightarrow>
    st_schema_version c = 1 \<and> st_evidence_binding c = BindingUnverified"
  by (auto simp: content_validate_def Let_def rbind_eq_Inr content_head_ok_def STAGING_SCHEMA_VERSION_def)

lemma content_v2_validate_version: "content_v2_validate env c = Inr u \<Longrightarrow>
    st_schema_version c = 2 \<and> st_evidence_binding c = BindingPerItem \<and>
    st_selected_facts_fingerprint c = selected_fingerprint env (st_source_basis c)"
  by (auto simp: content_v2_validate_def rbind_eq_Inr split: if_splits sum.splits)

lemma immutable_decode_valid:
  assumes "immutable_decode env body = Inr content"
  shows "case content of V1 c \<Rightarrow> content_validate env c = Inr () | V2 c \<Rightarrow> content_v2_validate env c = Inr ()"
  using assms by (auto simp: immutable_decode_def rbind_eq_Inr split: option.splits if_splits)

lemma versioned_of_decoded:
  assumes "immutable_decode env body = Inr content"
  shows "versioned_content env (staged_of r content d) = Inr content" "wire_version_ok (staged_of r content d)"
  using immutable_decode_valid [OF assms] content_validate_version content_v2_validate_version
  by (auto simp: versioned_content_def staged_of_def immutable_base_def immutable_content_of_def content_base_def
      wire_version_ok_def Let_def split: immutable_content.splits)

lemma get_on_sized: "get_on env db i = Inr (Some s) \<Longrightarrow> check_record_size env s = Inr ()"
  by (auto simp: get_on_iff row_shows_def check_record_size_def)

lemma get_on_id: "get_on env db i = Inr (Some s) \<Longrightarrow> sg_proposal_id s = i"
  by (auto simp: get_on_iff staged_of_def Let_def find_Some_iff)

lemma restage:
  assumes "get_on env db (immutable_identity env content) = Inr (Some s)" "versioned_content env s = Inr content"
    "check_review_headroom env s = Inr ()" "length (immutable_json env content) \<le> MAX_STAGED_RECORD_BYTES"
    "ps_counter db < sq" "sq < 2 ^ 63"
  shows "persist env now sq content db = (Inr s, db)"
proof -
  have "staged_table env now sq content db = db"
    using assms(1) by (auto simp: staged_table_def get_on_iff find_Some_iff list_ex_iff)
  then show ?thesis using assms get_on_sized [OF assms(1)] by (simp add: persist_iff)
qed

lemma find_map_comp: "find P (map f xs) = map_option f (find (P \<circ> f) xs)"
  by (induction xs) auto

lemma find_map_same: "(\<And>x. P (f x) = P x) \<Longrightarrow> find P (map f xs) = map_option f (find P xs)"
  by (simp add: find_map_comp comp_def)

lemma find_append: "find P (xs @ ys) = (case find P xs of None \<Rightarrow> find P ys | Some x \<Rightarrow> Some x)"
  by (induction xs) auto

text \<open>What a successful review shows: the record it reviewed, with the new review columns.\<close>

lemma review_shows:
  assumes rv: "review env now i e d n db = (Inr s', db')" and g: "get_on env db i = Inr (Some s)"
  shows "s' = s\<lparr>sg_review_revision := sg_review_revision s + 1, sg_review_decision := Some d, sg_review_note := n,
    sg_reviewed_at := Some now\<rparr>" "get_on env db' i = Inr (Some s')" "sg_review_revision s = e"
proof -
  from rv [unfolded review_iff] g have e: "sg_review_revision s = e" and db': "db' = reviewed_table now i e d n db"
    and g': "get_on env db' i = Inr (Some s')" by auto
  show "get_on env db' i = Inr (Some s')" "sg_review_revision s = e" by (fact g') (fact e)
  from g obtain r c dec where r: "find (\<lambda>r. sw_proposal_id r = i) (ps_rows db) = Some r"
    and sh: "row_shows env r c dec" and s: "s = staged_of r c dec" by (auto simp: get_on_iff)
  have id: "sw_proposal_id r = i" using r by (auto simp: find_Some_iff)
  have rev_r: "sw_review_revision r = int e" using e s sh by (auto simp: staged_of_def Let_def row_shows_def)
  have "find (\<lambda>r. sw_proposal_id r = i) (ps_rows db') = Some (review_row now (int e + 1) d n r)"
    unfolding db' reviewed_table_def
    by (simp add: find_map_same r review_row_def hits_def id rev_r)
  with g' obtain c' dec' where sh': "row_shows env (review_row now (int e + 1) d n r) c' dec'"
    and s': "s' = staged_of (review_row now (int e + 1) d n r) c' dec'" by (auto simp: get_on_iff)
  have "c' = c" using sh sh' by (simp add: row_shows_def review_row_def)
  moreover have "dec' = Some d" using sh'
    by (cases d) (auto simp: row_shows_def row_decision_def review_row_def decision_as_str_def decision_parse_def)
  ultimately show "s' = s\<lparr>sg_review_revision := sg_review_revision s + 1, sg_review_decision := Some d,
      sg_review_note := n, sg_reviewed_at := Some now\<rparr>"
    using s s' rev_r by (simp add: staged_of_def Let_def review_row_def nat_add_distrib)
qed

lemma reviewed_fields:
  "versioned_content env (s\<lparr>sg_review_revision := k, sg_review_decision := d, sg_review_note := n, sg_reviewed_at := a\<rparr>) =
     versioned_content env s"
  "check_review_headroom env (s\<lparr>sg_review_revision := k, sg_review_decision := d, sg_review_note := n, sg_reviewed_at := a\<rparr>) =
     check_review_headroom env s"
  by (simp_all add: versioned_content_def immutable_content_of_def check_review_headroom_def split: option.split)

lemma get_on_staged_other:
  "i \<noteq> immutable_identity env content \<Longrightarrow> get_on env (staged_table env now sq content db) i = get_on env db i"
  by (simp add: get_on_def staged_table_def find_append fresh_row_def split: option.splits)

lemma versioned_V1:
  "versioned_content env s = Inr (V1 c) \<Longrightarrow> sg_proposal s = st_proposal c \<and> sg_job_id s = st_job_id c \<and>
     sg_graph_snapshot_id s = st_graph_snapshot_id c \<and> sg_basis s = st_basis c \<and>
     sg_evidence_binding s = st_evidence_binding c \<and> sg_source_basis s = None"
  by (auto simp: versioned_content_def immutable_content_of_def split: if_splits option.splits)

lemma content_build_eq:
  "content_build env t p job snap = Inr c \<Longrightarrow>
     c = \<lparr>st_schema_version = 1, st_proposal = p, st_job_id = job, st_graph_snapshot_id = snap,
          st_basis = task_manifest (sv_hash env) t 1, st_evidence_binding = BindingUnverified,
          st_context_status = AwaitingReconciliation\<rparr>"
  by (auto simp: content_build_def rbind_eq_Inr Let_def STAGING_SCHEMA_VERSION_def split: option.splits)

text \<open>
  C6: staging reads back and is idempotent. A successful stage returns a record with exactly the proposal, job,
  snapshot and task manifest it was given; the record is what a lookup by its id then finds and no other id's
  lookup changes. Staging the same result again returns the same record and leaves the table alone, and after a
  successful review it returns the reviewed record: the old one with the next revision and the new decision.
\<close>

theorem stage_reads_back:
  assumes st: "stage env now sq t p job snap db = (Inr s, db')"
  shows "sg_proposal s = p \<and> sg_job_id s = job \<and> sg_graph_snapshot_id s = snap \<and>
      sg_basis s = task_manifest (sv_hash env) t 1 \<and> sg_evidence_binding s = BindingUnverified \<and> wire_version_ok s \<and>
      get_on env db' (sg_proposal_id s) = Inr (Some s) \<and>
      (\<forall>i. i \<noteq> sg_proposal_id s \<longrightarrow> get_on env db' i = get_on env db i) \<and>
      (\<forall>now' sq'. ps_counter db' < sq' \<and> sq' < 2 ^ 63 \<longrightarrow>
         stage env now' sq' t p job snap db' = (Inr s, db')) \<and>
      (\<forall>now' e d n s2 db2. review env now' (sg_proposal_id s) e d n db' = (Inr s2, db2) \<longrightarrow>
         s2 = s\<lparr>sg_review_revision := sg_review_revision s + 1, sg_review_decision := Some d, sg_review_note := n,
                sg_reviewed_at := Some now'\<rparr> \<and>
         (\<forall>now3 sq3. ps_counter db2 < sq3 \<and> sq3 < 2 ^ 63 \<longrightarrow>
            stage env now3 sq3 t p job snap db2 = (Inr s2, db2)))"
proof -
  obtain c where c: "content_build env t p job snap = Inr c" and pe: "persist env now sq (V1 c) db = (Inr s, db')"
    using st by (auto simp: stage_def split: sum.splits)
  from pe [unfolded persist_iff] have g: "get_on env db' (immutable_identity env (V1 c)) = Inr (Some s)"
    and v: "versioned_content env s = Inr (V1 c)" and h: "check_review_headroom env s = Inr ()"
    and len: "length (immutable_json env (V1 c)) \<le> MAX_STAGED_RECORD_BYTES"
    and db': "db' = staged_table env now sq (V1 c) db" by auto
  have id: "immutable_identity env (V1 c) = sg_proposal_id s" using get_on_id [OF g] by simp
  have wire: "wire_version_ok s" using g by (auto simp: get_on_iff row_shows_def versioned_of_decoded)
  have fields: "sg_proposal s = p \<and> sg_job_id s = job \<and> sg_graph_snapshot_id s = snap \<and>
      sg_basis s = task_manifest (sv_hash env) t 1 \<and> sg_evidence_binding s = BindingUnverified"
    using versioned_V1 [OF v] content_build_eq [OF c] by simp
  have again: "stage env now' sq' t p job snap db' = (Inr s, db')" if "ps_counter db' < sq'" "sq' < 2 ^ 63" for now' sq'
    using restage [OF g v h len that] by (simp add: stage_def c)
  have rev1: "s2 = s\<lparr>sg_review_revision := sg_review_revision s + 1, sg_review_decision := Some d, sg_review_note := n,
      sg_reviewed_at := Some now'\<rparr>"
    and rev2: "ps_counter db2 < sq3 \<and> sq3 < 2 ^ 63 \<Longrightarrow> stage env now3 sq3 t p job snap db2 = (Inr s2, db2)"
    if rv: "review env now' (sg_proposal_id s) e d n db' = (Inr s2, db2)" for now' e d n s2 db2 now3 sq3
  proof -
    note rs = review_shows [OF rv, folded id, OF g]
    show s2: "s2 = s\<lparr>sg_review_revision := sg_review_revision s + 1, sg_review_decision := Some d, sg_review_note := n,
        sg_reviewed_at := Some now'\<rparr>" by (fact rs(1))
    have "versioned_content env s2 = Inr (V1 c)" using v unfolding s2 by (simp only: reviewed_fields)
    moreover have "check_review_headroom env s2 = Inr ()" using h unfolding s2 by (simp only: reviewed_fields)
    ultimately show "ps_counter db2 < sq3 \<and> sq3 < 2 ^ 63 \<Longrightarrow> stage env now3 sq3 t p job snap db2 = (Inr s2, db2)"
      using restage [OF rs(2) _ _ len] by (simp add: stage_def c)
  qed
  have others: "get_on env db' i = get_on env db i" if "i \<noteq> sg_proposal_id s" for i
    unfolding db' by (rule get_on_staged_other) (use that id in simp)
  show ?thesis using fields wire g [unfolded id] others again rev1 rev2 by blast
qed

end
