(* ===== verification/Staging_Build_Props.thy ===== *)
theory Staging_Build_Props
  imports Staging_Props "HOL-Library.Code_Target_Numeral"
begin

text \<open>
  Which results may be staged. The broker's own validation, run again on the citations the search of
  \<open>Citation_Assignment\<close> recovers, accepts exactly the results the broker could have returned for the
  task, so building the immutable record succeeds exactly on those, within the bounds it checks itself.
\<close>

section \<open>The broker's validation, by evidence index\<close>

lemma unique_nonempty_intro:
  assumes "distinct vs" "\<forall>v \<in> set vs. trim v \<noteq> []"
  shows "unique_nonempty vs = Inr (fold insort_insert vs [])" "set (fold insort_insert vs []) = set vs"
proof -
  have "length (fold insort_insert vs []) = card (set vs)"
    using distinct_card [OF insort_fold(2) [of "[]" vs]] by (simp add: insort_fold(1))
  then have "length (fold insort_insert vs []) = length vs" using assms(1) by (simp add: distinct_card)
  then show "unique_nonempty vs = Inr (fold insort_insert vs [])"
    using assms(2) by (simp add: unique_nonempty_def list_ex_iff)
  show "set (fold insort_insert vs []) = set vs" by (simp add: insort_fold(1))
qed

lemma is_ok_unique: "is_ok (unique_nonempty vs) \<longleftrightarrow> distinct vs \<and> (\<forall>v \<in> set vs. trim v \<noteq> [])"
proof
  assume "is_ok (unique_nonempty vs)"
  then obtain u where "unique_nonempty vs = Inr u" by (cases "unique_nonempty vs") (auto simp: is_ok_def)
  then show "distinct vs \<and> (\<forall>v \<in> set vs. trim v \<noteq> [])" using unique_nonempty_ok by blast
next
  assume "distinct vs \<and> (\<forall>v \<in> set vs. trim v \<noteq> [])"
  then show "is_ok (unique_nonempty vs)" using unique_nonempty_intro(1) by (simp add: is_ok_def)
qed

lemma om_get_index:
  assumes "distinct (map f xs)" "x \<in> set xs"
  shows "om_get (fold (\<lambda>x. om_put (f x) x) xs []) (f x) = Some x"
proof -
  have "om_get (fold (\<lambda>x. om_put (f x) x) xs []) (f x) \<noteq> None"
    unfolding om_get_index_None using assms(2) by blast
  then obtain y where y: "om_get (fold (\<lambda>x. om_put (f x) x) xs []) (f x) = Some y" by blast
  then have "y = x" using om_get_index_mem [OF y] assms by (auto simp: distinct_map dest: inj_onD)
  with y show ?thesis by simp
qed

definition result_for ::
  "(string \<Rightarrow> string) \<Rightarrow> (json \<Rightarrow> string) \<Rightarrow> agent_task \<Rightarrow> raw_proposal \<Rightarrow> string \<Rightarrow> evidence_ref list \<Rightarrow> agent_proposal" where
  "result_for H ts t raw basis cited =
     \<lparr>pp_gap_id = at_gap_id t, pp_source_id = at_source_id t, pp_target_id = rw_target_id raw,
      pp_edge_label = at_edge_label t, pp_annotation = rw_annotation raw, pp_basis_hash = basis,
      pp_provenance = \<lparr>p_tier = Agentic, p_confidence = InferredWeak, p_evidence = cited,
        p_extractor = AGENT_EXTRACTOR_ID,
        p_hash = H (canonical_fact ts (at_gap_id t) (at_source_id t) (rw_target_id raw) (at_edge_label t) basis)\<rparr>\<rparr>"

lemma result_for_citations: "result_for H ts t (raw_of p cs) = result_for H ts t (raw_of p [])"
  by (simp add: result_for_def raw_of_def fun_eq_iff)

lemma validate_task_ids:
  assumes "validate_task lim t = Inr ()"
  shows "\<forall>e \<in> set (at_evidence t). trim (ae_id e) \<noteq> []" "\<forall>c \<in> set (at_candidates t). trim (ca_node_id c) \<noteq> []"
proof -
  obtain ei ci where "unique_nonempty (map ae_id (at_evidence t)) = Inr ei"
    "unique_nonempty (map ca_node_id (at_candidates t)) = Inr ci"
    using assms by (auto simp: validate_task_def rbind_eq_Inr split: if_splits)
  from unique_nonempty_ok(4) [OF this(1)] unique_nonempty_ok(4) [OF this(2)]
  show "\<forall>e \<in> set (at_evidence t). trim (ae_id e) \<noteq> []" "\<forall>c \<in> set (at_candidates t). trim (ca_node_id c) \<noteq> []"
    by auto
qed

lemma validate_response_index:
  assumes vt: "validate_task lim t = Inr ()" and ix: "set ix \<subseteq> {..<length (at_evidence t)}" "distinct ix"
    and c: "c \<in> set (at_candidates t)"
    and src: "\<exists>i \<in> set ix. ae_id (at_evidence t ! i) \<in> set (at_source_evidence_ids t)"
    and tgt: "\<exists>i \<in> set ix. ae_id (at_evidence t ! i) \<in> set (ca_evidence_ids c)"
    and raw: "rw_target_id raw = ca_node_id c" "rw_citations raw = map (\<lambda>i. ae_id (at_evidence t ! i)) ix"
  shows "validate_response_with_basis H ts t raw basis =
    Inr (result_for H ts t raw basis (map (\<lambda>i. ae_source (at_evidence t ! i)) ix))"
proof -
  have d: "distinct (map ae_id (at_evidence t))" "distinct (map ca_node_id (at_candidates t))"
    using validate_task_within [OF vt] by (simp_all add: task_within_def)
  define cs where "cs = map (\<lambda>i. ae_id (at_evidence t ! i)) ix"
  define look where "look = om_get (fold (\<lambda>e. om_put (ae_id e) e) (at_evidence t) [])"
  have nth: "look (ae_id (at_evidence t ! i)) = Some (at_evidence t ! i)" if "i \<in> set ix" for i
    unfolding look_def using that ix by (intro om_get_index [OF d(1)]) auto
  have "inj_on (\<lambda>i. ae_id (at_evidence t ! i)) {..<length (at_evidence t)}"
    using d(1) by (auto simp: inj_on_def distinct_conv_nth)
  then have dist: "distinct cs" unfolding cs_def distinct_map using ix by (meson inj_on_subset)
  have blank: "\<forall>v \<in> set cs. trim v \<noteq> []" using validate_task_ids(1) [OF vt] ix by (auto simp: cs_def)
  note u = unique_nonempty_intro [OF dist blank]
  have cand: "om_get (fold (\<lambda>c. om_put (ca_node_id c) c) (at_candidates t) []) (ca_node_id c) = Some c"
    by (rule om_get_index [OF d(2) c])
  have found: "List.map_filter look cs = map (\<lambda>i. at_evidence t ! i) ix"
  proof -
    have "\<forall>i \<in> set ix. look (ae_id (at_evidence t ! i)) = Some (at_evidence t ! i)" using nth by blast
    then show ?thesis unfolding cs_def by (induction ix) (simp_all add: map_filter_def)
  qed
  have len: "length (fold insort_insert cs []) = length cs" by (rule unique_nonempty_ok(3) [OF u(1)])
  have g1: "\<not> list_ex (\<lambda>i. look i = None) (fold insort_insert cs [])"
    using nth by (auto simp: list_ex_iff u(2)) (auto simp: cs_def)
  have g2: "list_ex (\<lambda>i. i \<in> set (fold insort_insert cs [])) (at_source_evidence_ids t)"
    "list_ex (\<lambda>i. i \<in> set (fold insort_insert cs [])) (ca_evidence_ids c)"
    using src tgt unfolding u(2) by (auto simp: list_ex_iff cs_def)
  show ?thesis
    unfolding validate_response_with_basis_def Let_def raw cs_def [symmetric] cand look_def [symmetric] u(1)
    using g1 g2 len
    by (simp add: found result_for_def raw prov_new_def ceiling_defs content_hash_def map_map comp_def)
qed

section \<open>Recovered citations\<close>

lemma list_in_image:
  assumes "set ys \<subseteq> f ` A"
  obtains xs where "ys = map f xs" "set xs \<subseteq> A"
proof -
  have "\<exists>xs. ys = map f xs \<and> set xs \<subseteq> A" using assms
  proof (induction ys)
    case (Cons y ys)
    then obtain xs x where "ys = map f xs" "set xs \<subseteq> A" "x \<in> A" "y = f x" by auto
    then show ?case by (intro exI [of _ "x # xs"]) simp
  qed simp
  then show ?thesis using that by blast
qed

lemma find_unique:
  assumes "distinct (map f xs)" "x \<in> set xs"
  shows "find (\<lambda>y. f y = f x) xs = Some x"
proof -
  have "find (\<lambda>y. f y = f x) xs \<noteq> None" using assms(2) by (auto simp: find_None_iff)
  then obtain y where y: "find (\<lambda>y. f y = f x) xs = Some y" by blast
  then have "y \<in> set xs" "f y = f x" by (auto simp: find_Some_iff)
  then show ?thesis using y assms by (auto simp: distinct_map dest: inj_onD)
qed

lemma nth_pairs:
  "i < length ev \<Longrightarrow> fst (map (\<lambda>e. (ae_id e, ae_source e)) ev ! i) = ae_id (ev ! i)"
  "i < length ev \<Longrightarrow> snd (map (\<lambda>e. (ae_id e, ae_source e)) ev ! i) = ae_source (ev ! i)"
  by simp_all

text \<open>The evidence a valid answer cites, by index.\<close>

lemma response_indices:
  assumes vt: "validate_task lim t = Inr ()" and vr: "validate_response_with_basis H ts t raw basis = Inr p"
  obtains c ix where "c \<in> set (at_candidates t)" "ca_node_id c = pp_target_id p"
    "p = result_for H ts t (raw_of p cs) basis (p_evidence (pp_provenance p))"
    "assigns (map (\<lambda>e. (ae_id e, ae_source e)) (at_evidence t)) (at_source_evidence_ids t) (ca_evidence_ids c)
       (p_evidence (pp_provenance p)) ix"
proof -
  note r = validate_response_ok [OF vr]
  define ev where "ev = at_evidence t"
  have d: "distinct (map ae_id ev)"
    using validate_task_within [OF vt] by (simp add: task_within_def ev_def)
  have "ae_id ` set ev = (\<lambda>i. ae_id (ev ! i)) ` {..<length ev}" by (auto simp: set_conv_nth)
  then obtain ix where ix: "rw_citations raw = map (\<lambda>i. ae_id (ev ! i)) ix" "set ix \<subseteq> {..<length ev}"
    using r(8) list_in_image unfolding ev_def [symmetric] by metis
  have dist: "distinct ix" using r(7) ix(1) by (simp add: distinct_map)
  have look: "om_get (fold (\<lambda>e. om_put (ae_id e) e) ev []) (ae_id (ev ! i)) = Some (ev ! i)" if "i < length ev" for i
    using that by (intro om_get_index [OF d]) simp
  have "\<forall>i \<in> set ix. om_get (fold (\<lambda>e. om_put (ae_id e) e) ev []) (ae_id (ev ! i)) = Some (ev ! i)"
    using ix(2) look by blast
  then have "List.map_filter (om_get (fold (\<lambda>e. om_put (ae_id e) e) ev [])) (map (\<lambda>i. ae_id (ev ! i)) ix) = map ((!) ev) ix"
    by (induction ix) (simp_all add: map_filter_def)
  then have prov: "pp_provenance p = \<lparr>p_tier = Agentic, p_confidence = InferredWeak,
       p_evidence = map (\<lambda>i. ae_source (ev ! i)) ix, p_extractor = AGENT_EXTRACTOR_ID,
       p_hash = H (canonical_fact ts (pp_gap_id p) (pp_source_id p) (pp_target_id p) (pp_edge_label p) (pp_basis_hash p))\<rparr>"
    using r(9) by (simp add: ix(1) ev_def [symmetric] comp_def)
  obtain c where c: "c \<in> set (at_candidates t)" "ca_node_id c = pp_target_id p"
    "set (rw_citations raw) \<inter> set (ca_evidence_ids c) \<noteq> {}" using r(5) by blast
  have p: "p = result_for H ts t (raw_of p cs) basis (p_evidence (pp_provenance p))"
    using r(1-4) prov by (cases p) (simp add: result_for_def raw_of_def)
  have "assigns (map (\<lambda>e. (ae_id e, ae_source e)) ev) (at_source_evidence_ids t) (ca_evidence_ids c)
       (p_evidence (pp_provenance p)) ix"
    using dist ix r(6) c(3) by (auto simp: assigns_def prov list.rel_map list_all2_same subset_iff)
  then show ?thesis using that c(1,2) p unfolding ev_def by blast
qed

text \<open>Whatever citations the answer had, the search recovers citations the broker accepts for the same result.\<close>

lemma match_citations_recovers:
  assumes vt: "validate_task lim t = Inr ()" and len: "length (at_evidence t) \<le> 12"
    and vr: "validate_response_with_basis H ts t raw basis = Inr p"
  obtains cs where "match_citations t p = Some cs"
    "validate_response_with_basis H ts t (raw_of p cs) basis = Inr p"
proof -
  define pairs where "pairs = map (\<lambda>e. (ae_id e, ae_source e)) (at_evidence t)"
  obtain c ix where c: "c \<in> set (at_candidates t)" "ca_node_id c = pp_target_id p"
    and p: "p = result_for H ts t (raw_of p []) basis (p_evidence (pp_provenance p))"
    and a: "assigns pairs (at_source_evidence_ids t) (ca_evidence_ids c) (p_evidence (pp_provenance p)) ix"
    unfolding pairs_def by (rule response_indices [OF vt vr])
  have find: "find (\<lambda>x. ca_node_id x = pp_target_id p) (at_candidates t) = Some c"
    using find_unique [of ca_node_id "at_candidates t" c] validate_task_within [OF vt] c
    by (simp add: task_within_def)
  have plen: "length pairs \<le> 12" using len by (simp add: pairs_def)
  have "citation_assignment pairs (at_source_evidence_ids t) (ca_evidence_ids c) (p_evidence (pp_provenance p)) \<noteq> None"
    using citation_assignment_decides [of pairs "at_source_evidence_ids t" "ca_evidence_ids c" "p_evidence (pp_provenance p)"]
      a plen by (auto split: option.splits)
  then obtain cs where cs: "citation_assignment pairs (at_source_evidence_ids t) (ca_evidence_ids c)
      (p_evidence (pp_provenance p)) = Some cs" by blast
  then obtain jx where j: "assigns pairs (at_source_evidence_ids t) (ca_evidence_ids c) (p_evidence (pp_provenance p)) jx"
    and ids: "cs = map (\<lambda>i. fst (pairs ! i)) jx"
    using citation_assignment_decides [of pairs "at_source_evidence_ids t" "ca_evidence_ids c" "p_evidence (pp_provenance p)"]
    by auto
  have bound: "set jx \<subseteq> {..<length (at_evidence t)}"
    using j by (auto simp: assigns_def pairs_def list_all2_conv_all_nth in_set_conv_nth)
  have refs: "p_evidence (pp_provenance p) = map (\<lambda>i. ae_source (at_evidence t ! i)) jx"
    using j by (auto simp: assigns_def pairs_def list_all2_conv_all_nth intro!: nth_equalityI)
  have fst: "fst (pairs ! i) = ae_id (at_evidence t ! i)" if "i \<in> set jx" for i
    using that bound by (auto simp: pairs_def)
  have ids': "cs = map (\<lambda>i. ae_id (at_evidence t ! i)) jx" unfolding ids using fst by simp
  have "validate_response_with_basis H ts t (raw_of p cs) basis =
      Inr (result_for H ts t (raw_of p cs) basis (map (\<lambda>i. ae_source (at_evidence t ! i)) jx))"
    using j fst by (intro validate_response_index [OF vt bound _ c(1)])
      (auto simp: assigns_def raw_of_def c(2) ids')
  moreover have "match_citations t p = Some cs" by (simp add: match_citations_def find pairs_def [symmetric] cs)
  ultimately show ?thesis using that p unfolding refs [symmetric] result_for_citations [of _ _ _ p cs] by simp
qed

section \<open>The checks on the built record\<close>

lemma try_fold_all: "try_fold (\<lambda>x _. f x) xs () = Inr () \<longleftrightarrow> (\<forall>x \<in> set xs. f x = Inr ())"
  by (induction xs) (auto simp: rbind_eq_Inr)

lemma validate_membership_iff:
  "validate_membership ids available = Inr () \<longleftrightarrow>
     ids \<noteq> [] \<and> distinct ids \<and> (\<forall>i \<in> set ids. trim i \<noteq> [] \<and> i \<in> set available)"
  by (auto simp: validate_membership_def is_ok_unique list_ex_iff)

lemma validate_metadata_iff:
  "validate_metadata job snap = Inr () \<longleftrightarrow> job > 0 \<and> trim snap \<noteq> [] \<and> length snap \<le> 1024"
  by (auto simp: validate_metadata_def)

lemma validate_task_identities:
  assumes "validate_task lim t = Inr ()"
  shows "trim (at_action_id t) \<noteq> []" "trim (at_gap_id t) \<noteq> []" "trim (at_source_id t) \<noteq> []"
  using assms by (auto simp: validate_task_def split: if_splits)

lemma agentic_overwrites: "may_overwrite Agentic x \<longleftrightarrow> x \<in> {Gap, InferredWeak}"
  by (cases x) (simp_all add: may_overwrite_def)

text \<open>
  What the record asks for beyond the broker's own checks: complete references, labels, memberships without
  repetition, and digests of the expected form.
\<close>

definition host_metadata_ok :: "staging_env \<Rightarrow> agent_task \<Rightarrow> bool" where
  "host_metadata_ok env t \<longleftrightarrow>
     (\<forall>e \<in> set (at_evidence t). trim (ev_repo (ae_source e)) \<noteq> [] \<and> trim (ev_path (ae_source e)) \<noteq> [] \<and>
        trim (ev_commit_sha (ae_source e)) \<noteq> [] \<and> ev_byte_start (ae_source e) < ev_byte_end (ae_source e) \<and>
        hex_hash (content_hash (sv_hash env) (ae_text e))) \<and>
     (\<forall>c \<in> set (at_candidates t). trim (ca_label c) \<noteq> [] \<and> distinct (ca_evidence_ids c) \<and>
        hex_hash (content_hash (sv_hash env) (ca_summary c))) \<and>
     distinct (at_source_evidence_ids t) \<and> hex_hash (basis_hash (sv_hash env) (sv_ts env) t)"

definition built_content :: "staging_env \<Rightarrow> agent_task \<Rightarrow> agent_proposal \<Rightarrow> int \<Rightarrow> string \<Rightarrow> stage_content" where
  "built_content env t p job snap =
     \<lparr>st_schema_version = 1, st_proposal = p, st_job_id = job, st_graph_snapshot_id = snap,
      st_basis = task_manifest (sv_hash env) t 1, st_evidence_binding = BindingUnverified,
      st_context_status = AwaitingReconciliation\<rparr>"

lemma built_head:
  assumes vt: "validate_task broker_limits_default t = Inr ()"
    and vr: "validate_response (sv_hash env) (sv_ts env) t raw = Inr p"
    and md: "validate_metadata job snap = Inr ()"
  shows "content_head_ok env (built_content env t p job snap) \<longleftrightarrow> hex_hash (basis_hash (sv_hash env) (sv_ts env) t)"
proof -
  note r = validate_response_ok [OF vr [unfolded validate_response_def]]
  note w = validate_task_within [OF vt, unfolded task_within_def]
  have "p_evidence (pp_provenance p) \<noteq> []"
    using r(6) cited_sources(1) [OF r(8)] by (auto simp: r(9))
  then have "validate_staged_proposal (sv_hash env) (sv_ts env) p = Inr ()"
    using r(9) by (intro staged_ok [of p "p_evidence (pp_provenance p)"]) simp_all
  moreover have "at_existing_confidence t \<in> {Gap, InferredWeak}" using w by (simp add: agentic_overwrites)
  moreover have "at_evidence t \<noteq> []" "at_candidates t \<noteq> []" using w by auto
  ultimately show ?thesis
    using w md r(1-4) validate_task_identities [OF vt]
    by (simp add: content_head_ok_def built_content_def task_manifest_def STAGING_SCHEMA_VERSION_def is_ok_def)
qed

lemma built_cited:
  assumes "match_citations t p = Some cs"
  obtains target where
    "find (\<lambda>x. cb_node_id x = pp_target_id p) (tm_candidates (task_manifest H t 1)) = Some target"
    "citation_assignment (map (\<lambda>item. (eb_id item, eb_source item)) (tm_evidence (task_manifest H t 1)))
       (tm_source_evidence_ids (task_manifest H t 1)) (cb_evidence_ids target) (p_evidence (pp_provenance p)) = Some cs"
proof -
  define mk where "mk = (\<lambda>x :: agent_candidate. \<lparr>cb_node_id = ca_node_id x, cb_label = ca_label x,
     cb_summary_hash = content_hash H (ca_summary x), cb_summary_bytes = length (ca_summary x),
     cb_evidence_ids = ca_evidence_ids x\<rparr>)"
  obtain target where tg: "find (\<lambda>x. ca_node_id x = pp_target_id p) (at_candidates t) = Some target"
    and ca: "citation_assignment (map (\<lambda>e. (ae_id e, ae_source e)) (at_evidence t)) (at_source_evidence_ids t)
       (ca_evidence_ids target) (p_evidence (pp_provenance p)) = Some cs"
    using assms by (auto simp: match_citations_def bind_eq_Some_conv)
  have cands: "tm_candidates (task_manifest H t 1) = map mk (at_candidates t)"
    by (simp add: task_manifest_def mk_def)
  have "find (\<lambda>x. cb_node_id x = pp_target_id p) (tm_candidates (task_manifest H t 1)) = Some (mk target)"
    using tg unfolding cands find_map_comp by (simp add: mk_def comp_def)
  moreover have "cb_evidence_ids (mk target) = ca_evidence_ids target" by (simp add: mk_def)
  ultimately show ?thesis using ca that [of "mk target"] by (simp add: task_manifest_def comp_def)
qed

lemma built_content_valid:
  assumes vt: "validate_task broker_limits_default t = Inr ()"
    and vr: "validate_response (sv_hash env) (sv_ts env) t raw = Inr p"
    and md: "validate_metadata job snap = Inr ()" and mc: "match_citations t p = Some cs"
  shows "content_validate env (built_content env t p job snap) = Inr () \<longleftrightarrow> host_metadata_ok env t"
proof -
  note w = validate_task_within [OF vt, unfolded task_within_def]
  define b where "b = task_manifest (sv_hash env) t 1"
  have cb: "st_basis (built_content env t p job snap) = b" "st_proposal (built_content env t p job snap) = p"
    by (simp_all add: built_content_def b_def)
  obtain target where tg: "find (\<lambda>x. cb_node_id x = pp_target_id p) (tm_candidates b) = Some target"
    and ca: "citation_assignment (map (\<lambda>item. (eb_id item, eb_source item)) (tm_evidence b))
       (tm_source_evidence_ids b) (cb_evidence_ids target) (p_evidence (pp_provenance p)) = Some cs"
    unfolding b_def by (rule built_cited [OF mc])
  define eids where "eids = fold insort_insert (map eb_id (tm_evidence b)) []"
  have ids: "map eb_id (tm_evidence b) = map ae_id (at_evidence t)"
    "map cb_node_id (tm_candidates b) = map ca_node_id (at_candidates t)"
    by (simp_all add: b_def task_manifest_def comp_def)
  have ue: "unique_nonempty (map eb_id (tm_evidence b)) = Inr eids" "set eids = ae_id ` set (at_evidence t)"
    unfolding eids_def using unique_nonempty_intro [of "map eb_id (tm_evidence b)"] w validate_task_ids(1) [OF vt]
    unfolding ids by auto
  have uc: "is_ok (unique_nonempty (map cb_node_id (tm_candidates b)))"
    using w validate_task_ids(2) [OF vt] unfolding ids is_ok_unique by auto
  have bytes: "sum_list (map eb_text_bytes (tm_evidence b)) \<le> bl_max_total_evidence_bytes broker_limits_default"
    using w by (simp add: b_def task_manifest_def comp_def)
  have member: "validate_membership xs eids = Inr () \<longleftrightarrow> distinct xs"
    if "xs = at_source_evidence_ids t \<or> xs \<in> ca_evidence_ids ` set (at_candidates t)" for xs
    using that w validate_task_ids(1) [OF vt] unfolding validate_membership_iff ue(2) by blast
  have items: "list_all evidence_item_ok (tm_evidence b) \<longleftrightarrow>
      (\<forall>e \<in> set (at_evidence t). trim (ev_repo (ae_source e)) \<noteq> [] \<and> trim (ev_path (ae_source e)) \<noteq> [] \<and>
        trim (ev_commit_sha (ae_source e)) \<noteq> [] \<and> ev_byte_start (ae_source e) < ev_byte_end (ae_source e) \<and>
        hex_hash (content_hash (sv_hash env) (ae_text e)))"
    using w by (auto simp: b_def task_manifest_def evidence_item_ok_def list_all_iff)
  have cands: "try_fold (\<lambda>item _. rbind (st_require StInvalidRecord
        (trim (cb_label item) \<noteq> [] \<and> hex_hash (cb_summary_hash item))) (\<lambda>_.
        validate_membership (cb_evidence_ids item) eids)) (tm_candidates b) () = Inr () \<longleftrightarrow>
      (\<forall>c \<in> set (at_candidates t). trim (ca_label c) \<noteq> [] \<and> distinct (ca_evidence_ids c) \<and>
        hex_hash (content_hash (sv_hash env) (ca_summary c)))"
    unfolding try_fold_all using member by (auto simp: b_def task_manifest_def rbind_eq_Inr)
  show ?thesis
    unfolding content_validate_def Let_def cb ue(1) sum.case rbind_eq_Inr tg ca option.case host_metadata_ok_def
    using member [of "tm_source_evidence_ids b"]
    by (auto simp: built_head [OF vt vr md] uc bytes items cands b_def [symmetric])
      (simp_all add: b_def task_manifest_def)
qed

text \<open>
  C26: what may be staged. Building the immutable record of a result succeeds exactly when the job id and
  snapshot identity are well formed, the annotation and summaries are within their bounds, the host's task is
  valid, the annotation replays none of the task's text, the broker accepts some answer to this task with exactly
  this result, and the task's references, labels, memberships and digests are complete; the record is then the
  result with the fingerprints of the task. In particular no genuine result is refused because its citation ids
  were not kept: the search always recovers citations that validate to the same result.
\<close>

theorem stage_accepts_broker_results:
  "content_build env t p job snap = Inr c \<longleftrightarrow>
     validate_metadata job snap = Inr () \<and> length (pp_annotation p) \<le> MAX_STAGED_RECORD_BYTES \<and>
     sum_list (map (\<lambda>c. length (ca_summary c)) (at_candidates t)) \<le> MAX_STAGED_RECORD_BYTES \<and>
     validate_task broker_limits_default t = Inr () \<and> reject_annotation_replay t (pp_annotation p) = Inr () \<and>
     (\<exists>raw. validate_response (sv_hash env) (sv_ts env) t raw = Inr p) \<and>
     host_metadata_ok env t \<and> c = built_content env t p job snap"
    (is "_ \<longleftrightarrow> ?R")
proof
  assume b: "content_build env t p job snap = Inr c"
  then obtain cs where cs: "match_citations t p = Some cs"
    by (auto simp: content_build_def rbind_eq_Inr split: option.splits)
  have c: "c = built_content env t p job snap" using content_build_eq [OF b] by (simp add: built_content_def)
  have rest: "validate_metadata job snap = Inr ()" "length (pp_annotation p) \<le> MAX_STAGED_RECORD_BYTES"
     "sum_list (map (\<lambda>c. length (ca_summary c)) (at_candidates t)) \<le> MAX_STAGED_RECORD_BYTES"
     "validate_task broker_limits_default t = Inr ()" "reject_annotation_replay t (pp_annotation p) = Inr ()"
     "validate_response (sv_hash env) (sv_ts env) t (raw_of p cs) = Inr p"
     "content_validate env c = Inr ()"
    using b cs by (auto simp: content_build_def rbind_eq_Inr of_agent_def Let_def split: sum.splits)
  then show ?R using built_content_valid [OF rest(4,6,1) cs] c by blast
next
  assume r: ?R
  then obtain raw where vr: "validate_response (sv_hash env) (sv_ts env) t raw = Inr p"
    and vt: "validate_task broker_limits_default t = Inr ()" and md: "validate_metadata job snap = Inr ()" by blast
  have "length (at_evidence t) \<le> 12"
    using validate_task_within [OF vt] by (simp add: task_within_def broker_limits_default_def)
  then obtain cs where cs: "match_citations t p = Some cs"
    and v: "validate_response (sv_hash env) (sv_ts env) t (raw_of p cs) = Inr p"
    using match_citations_recovers [OF vt _ vr [unfolded validate_response_def]] unfolding validate_response_def by blast
  have "content_validate env (built_content env t p job snap) = Inr ()"
    using built_content_valid [OF vt vr md cs] r by blast
  then show "content_build env t p job snap = Inr c"
    using r cs v by (simp add: content_build_def of_agent_def st_require_def check_size_def built_content_def
        STAGING_SCHEMA_VERSION_def)
qed

section \<open>A concrete run\<close>

definition zero_hash :: "string \<Rightarrow> string" where
  "zero_hash x = replicate 64 (CHR ''0'')"

definition demo_broker_result :: agent_proposal where
  "demo_broker_result =
     demo_proposal\<lparr>pp_basis_hash := zero_hash [], pp_provenance := (pp_provenance demo_proposal)\<lparr>p_hash := zero_hash []\<rparr>\<rparr>"

definition demo_content :: stage_content where
  "demo_content =
     \<lparr>st_schema_version = 1, st_proposal = demo_broker_result, st_job_id = 7, st_graph_snapshot_id = ''snap'',
      st_basis = task_manifest zero_hash demo_task 1, st_evidence_binding = BindingUnverified,
      st_context_status = AwaitingReconciliation\<rparr>"

definition demo_senv :: staging_env where
  "demo_senv =
     \<lparr>sv_hash = zero_hash, sv_ts = (\<lambda>_. []), sv_basis_text = (\<lambda>_. []), sv_prepared_text = (\<lambda>_. []),
      sv_facts_text = (\<lambda>_. []), sv_v1_text = (\<lambda>_. ''v1''),
      sv_v1_parse = (\<lambda>x. if x = ''v1'' then Some demo_content else None), sv_v2_text = (\<lambda>_. ''v2''),
      sv_version = (\<lambda>x. Some 1), sv_tree = (\<lambda>_. None), sv_value = (\<lambda>_. None), sv_v2_from_value = (\<lambda>_. None),
      sv_v2_to_value = (\<lambda>_. JNull), sv_staged_text = (\<lambda>_. []), sv_keyset_text = (\<lambda>_. ''k''),
      sv_keyset_parse = (\<lambda>_. Some \<lparr>hk_version = 1, hk_ceiling = 1, hk_before = 1\<rparr>)\<rparr>"

definition demo_stage :: "(staging_error, staged_proposal) result \<times> proposal_store" where
  "demo_stage = stage demo_senv ''2025'' 1 demo_task demo_broker_result 7 ''snap'' (open_store None)"

definition demo_row :: stored_row where
  "demo_row = fresh_row ''2025'' 1 (''proposal-stage-v1:'' @ zero_hash []) ''v1''"

lemma demo_decode: "immutable_decode demo_senv ''v1'' = Inr (V1 demo_content)"
  by code_simp

lemma demo_cells: "is_utf8 (''proposal-stage-v1:'' @ zero_hash [])" "is_utf8 ''v1''"
  "is_utf8 ''2025''" "is_utf8 ''2026''" "is_utf8 ''2028''" "is_utf8 ''why''" "is_utf8 ''accepted''" "is_utf8 ''rejected''"
  "length (zero_hash []) = 64"
  by code_simp+

lemma demo_sv: "sv_staged_text demo_senv x = []"
  "immutable_identity demo_senv (V1 c) = ''proposal-stage-v1:'' @ zero_hash []"
  by (simp_all add: demo_senv_def immutable_identity_def v1_identity_def content_hash_def zero_hash_def)

lemma demo_decode_row:
  "decode_row demo_senv r = Inr (staged_of r (V1 demo_content) d)"
  if "sw_immutable_json r = ''v1''" "sw_proposal_id r = ''proposal-stage-v1:'' @ zero_hash []" "sw_review_revision r \<ge> 0"
    "row_decision r = Inr d" "review_columns_ok r d"
  using that by (simp add: decode_row_def demo_decode demo_sv check_record_size_def check_size_def
      MAX_STAGED_RECORD_BYTES_def Let_def)

lemma demo_build: "content_build demo_senv demo_task demo_broker_result 7 ''snap'' = Inr demo_content"
  by code_simp

lemma demo_stage_runs:
  "is_ok (fst demo_stage) \<and> snd demo_stage = \<lparr>ps_rows = [demo_row], ps_counter = 1\<rparr>"
proof -
  define db where "db = \<lparr>ps_rows = [demo_row], ps_counter = 1\<rparr>"
  define s where "s = staged_of demo_row (V1 demo_content) None"
  have g: "get_on demo_senv db (''proposal-stage-v1:'' @ zero_hash []) = Inr (Some s)"
    by (simp add: db_def get_on_def demo_row_def fresh_row_def read_stored_row_def bounded_cell_def bounded_null_def
        demo_cells demo_cells(1) [simplified] demo_decode_row row_decision_def review_columns_ok_def
        MAX_STAGED_RECORD_BYTES_def s_def)
  have tbl: "staged_table demo_senv ''2025'' 1 (V1 demo_content) (open_store None) = db"
    by (simp add: staged_table_def open_store_def db_def demo_row_def demo_sv) (simp add: immutable_json_def demo_senv_def)
  have "persist demo_senv ''2025'' 1 (V1 demo_content) (open_store None) = (Inr s, db)"
    unfolding persist_iff tbl demo_sv g
    using versioned_of_decoded(1) [OF demo_decode]
    by (simp add: s_def check_record_size_def check_review_headroom_def demo_sv open_store_def)
      (simp add: immutable_json_def demo_senv_def MAX_STAGED_RECORD_BYTES_def)
  then show ?thesis by (simp add: demo_stage_def stage_def demo_build db_def is_ok_def)
qed

lemma demo_stage_wf: "store_wf (snd demo_stage)"
  by (simp add: demo_stage_runs store_wf_def demo_row_def fresh_stored_checks MAX_STAGED_RECORD_BYTES_def)
    (simp add: fresh_row_def)

theorem stage_reads_back_witness:
  "\<exists>s. fst demo_stage = Inr s \<and> sg_proposal s = demo_broker_result \<and> sg_job_id s = 7 \<and>
     get_on demo_senv (snd demo_stage) (sg_proposal_id s) = Inr (Some s)"
proof -
  obtain s where "fst demo_stage = Inr s" using demo_stage_runs by (cases "fst demo_stage") (auto simp: is_ok_def)
  then have "stage demo_senv ''2025'' 1 demo_task demo_broker_result 7 ''snap'' (open_store None) = (Inr s, snd demo_stage)"
    by (simp add: demo_stage_def prod_eq_iff)
  from stage_reads_back [OF this] \<open>fst demo_stage = Inr s\<close> show ?thesis by blast
qed

definition demo_reviews :: "staging_op list" where
  "demo_reviews =
     [OpReview ''2026'' (sw_proposal_id demo_row) 0 Accepted None,
      OpReview ''2027'' (sw_proposal_id demo_row) 0 Rejected None,
      OpReview ''2028'' (sw_proposal_id demo_row) 1 Rejected (Some ''why'')]"

lemma demo_reviews_accepted:
  "accepted_reviews demo_senv (sw_proposal_id demo_row) demo_reviews (snd demo_stage) = [0, 1]"
  by (simp add: demo_reviews_def demo_stage_runs demo_row_def fresh_row_def review_def in_transaction_def
      review_body_def get_required_def get_on_def read_stored_row_def bounded_cell_def bounded_null_def demo_cells demo_cells(1) [simplified]
      demo_decode_row row_decision_def review_columns_ok_def staged_of_def update_review_def review_row_def Let_def
      stored_checks_def decision_as_str_def decision_parse_def MAX_STAGED_RECORD_BYTES_def check_record_size_def
      check_size_def is_ok_def demo_sv)

theorem staged_rows_are_immutable_witness:
  "accepted_reviews demo_senv (sw_proposal_id demo_row) demo_reviews (snd demo_stage) = [0, 1] \<and>
   (\<exists>r' \<in> set (ps_rows (staging_run demo_senv demo_reviews (snd demo_stage))).
      same_record demo_row r' \<and> sw_review_revision r' = 2)"
proof -
  have wf: "store_wf (snd demo_stage)" by (rule demo_stage_wf)
  have r: "demo_row \<in> set (ps_rows (snd demo_stage))" by (simp add: demo_stage_runs)
  have k: "sw_review_revision demo_row = 0" by (simp add: demo_row_def fresh_row_def)
  show ?thesis
    using staged_rows_are_immutable [OF wf r, of demo_senv demo_reviews]
    unfolding Let_def demo_reviews_accepted k by simp
qed

end
