(* ===== verification/Staging_History_Props.thy ===== *)
theory Staging_History_Props
  imports Staging_Build_Props
begin

text \<open>
  Reading the staged history while it grows: every row a run leaves behind can be read, the rows a
  cursor ranges over do not change under later operations, and following the cursors reads every
  proposal that was staged when the traversal began. The receipt inventory is exact.
\<close>

section \<open>Rows stay readable\<close>

definition row_readable :: "staging_env \<Rightarrow> stored_row \<Rightarrow> bool" where
  "row_readable env r \<longleftrightarrow> read_stored_row r = Inr r \<and> is_ok (decode_row env r)"

definition store_readable :: "staging_env \<Rightarrow> proposal_store \<Rightarrow> bool" where
  "store_readable env db \<longleftrightarrow> list_all (row_readable env) (ps_rows db)"

lemma get_on_readable:
  "get_on env db i = Inr (Some s) \<Longrightarrow> find (\<lambda>r. sw_proposal_id r = i) (ps_rows db) = Some r \<Longrightarrow> row_readable env r"
  by (auto simp: get_on_def rbind_eq_Inr row_readable_def is_ok_def dest: read_stored_row_id)

lemma find_id:
  "store_wf db \<Longrightarrow> r \<in> set (ps_rows db) \<Longrightarrow> find (\<lambda>x. sw_proposal_id x = sw_proposal_id r) (ps_rows db) = Some r"
  by (rule find_unique) (simp_all add: store_wf_def)

lemma get_on_readable_row:
  assumes "get_on env db (sw_proposal_id r) = Inr (Some s)" "store_wf db" "r \<in> set (ps_rows db)"
  shows "row_readable env r"
  using get_on_readable [OF assms(1) find_id [OF assms(2,3)]] .

lemma persist_readable:
  assumes wf: "store_wf db" and rd: "store_readable env db" and p: "persist env now sq content db = (Inr s, db')"
  shows "store_readable env db'"
proof -
  note q = p [unfolded persist_iff]
  have wf': "store_wf db'" using store_wf_staged [OF wf] q by blast
  show ?thesis
    unfolding store_readable_def list_all_iff
  proof
    fix r assume r: "r \<in> set (ps_rows db')"
    show "row_readable env r"
    proof (cases "r \<in> set (ps_rows db)")
      case True then show ?thesis using rd by (simp add: store_readable_def list_all_iff)
    next
      case False
      then have "sw_proposal_id r = immutable_identity env content"
        using r q by (auto simp: staged_table_def fresh_row_def split: if_splits)
      then have "get_on env db' (sw_proposal_id r) = Inr (Some s)" using q by metis
      then show ?thesis by (rule get_on_readable_row [OF _ wf' r])
    qed
  qed
qed

lemma review_readable:
  assumes wf: "store_wf db" and rd: "store_readable env db" and p: "review env now i e d n db = (Inr s, db')"
  shows "store_readable env db'"
proof -
  note q = p [unfolded review_iff]
  have wf': "store_wf db'" using store_wf_reviewed [OF wf] q by blast
  show ?thesis
    unfolding store_readable_def list_all_iff
  proof
    fix r assume r: "r \<in> set (ps_rows db')"
    show "row_readable env r"
    proof (cases "sw_proposal_id r = i")
      case True
      then have "get_on env db' (sw_proposal_id r) = Inr (Some s)" using q by metis
      then show ?thesis by (rule get_on_readable_row [OF _ wf' r])
    next
      case False
      then have "r \<in> set (ps_rows db)" using r q
        by (auto simp: reviewed_table_def hits_def review_row_def split: if_splits)
      then show ?thesis using rd by (simp add: store_readable_def list_all_iff)
    qed
  qed
qed

text \<open>What the keys of the rows become: later rows come last, above the old counter.\<close>

definition row_keys :: "proposal_store \<Rightarrow> (int \<times> string) list" where
  "row_keys db = map (\<lambda>r. (sw_sequence r, sw_proposal_id r)) (ps_rows db)"

definition extends_keys :: "proposal_store \<Rightarrow> proposal_store \<Rightarrow> bool" where
  "extends_keys db db' \<longleftrightarrow> ps_counter db \<le> ps_counter db' \<and>
     (\<exists>new. row_keys db' = row_keys db @ new \<and> (\<forall>k \<in> set new. ps_counter db < fst k))"

lemma extends_keys_refl: "extends_keys db db"
  by (auto simp: extends_keys_def)

lemma extends_keys_trans: "extends_keys a b \<Longrightarrow> extends_keys b c \<Longrightarrow> extends_keys a c"
proof -
  assume "extends_keys a b" "extends_keys b c"
  then obtain n1 n2 where n: "row_keys b = row_keys a @ n1" "row_keys c = row_keys b @ n2"
    "\<forall>k \<in> set n1. ps_counter a < fst k" "\<forall>k \<in> set n2. ps_counter b < fst k"
    and le: "ps_counter a \<le> ps_counter b" "ps_counter b \<le> ps_counter c" by (auto simp: extends_keys_def)
  have "\<forall>k \<in> set (n1 @ n2). ps_counter a < fst k" using n(3,4) le(1) by fastforce
  then show "extends_keys a c" using n le by (auto simp: extends_keys_def)
qed

lemma step_keeps:
  assumes wf: "store_wf db" and rd: "store_readable env db"
  shows "let db' = snd (staging_step env op db) in store_wf db' \<and> store_readable env db' \<and> extends_keys db db'"
proof -
  have p: "let db' = snd (persist env now sq content db) in store_wf db' \<and> store_readable env db' \<and> extends_keys db db'"
    for now sq content
  proof (cases "persist env now sq content db")
    case (Pair out db')
    show ?thesis
    proof (cases out)
      case (Inl x)
      then show ?thesis using Pair persist_keeps_on_error [of env now sq content db x db'] wf rd extends_keys_refl by auto
    next
      case (Inr s)
      note q = Pair [unfolded Inr, unfolded persist_iff]
      have "extends_keys db db'"
        using q by (auto simp: extends_keys_def row_keys_def staged_table_def fresh_row_def)
      then show ?thesis using Pair Inr q store_wf_staged [OF wf] persist_readable [OF wf rd] by auto
    qed
  qed
  have r: "let db' = snd (review env now i e d n db) in store_wf db' \<and> store_readable env db' \<and> extends_keys db db'"
    for now i e d n
  proof (cases "review env now i e d n db")
    case (Pair out db')
    show ?thesis
    proof (cases out)
      case (Inl x)
      then show ?thesis using Pair review_keeps_on_error [of env now i e d n db x db'] wf rd extends_keys_refl by auto
    next
      case (Inr s)
      note q = Pair [unfolded Inr, unfolded review_iff]
      have "row_keys (reviewed_table now i e d n db) = row_keys db" "ps_counter (reviewed_table now i e d n db) = ps_counter db"
        by (simp_all add: row_keys_def reviewed_table_def review_row_def)
      then have "extends_keys db db'" using q by (simp add: extends_keys_def)
      then show ?thesis using Pair Inr q store_wf_reviewed [OF wf] review_readable [OF wf rd] by auto
    qed
  qed
  show ?thesis
    using p r wf rd extends_keys_refl by (cases op) (auto simp: stage_def stage_prepared_def Let_def split: sum.splits)
qed

lemma run_keeps:
  assumes "store_wf db" "store_readable env db"
  shows "store_wf (staging_run env ops db)" "store_readable env (staging_run env ops db)"
    "extends_keys db (staging_run env ops db)"
proof -
  have "store_wf (staging_run env ops db) \<and> store_readable env (staging_run env ops db) \<and>
      extends_keys db (staging_run env ops db)" using assms
  proof (induction ops arbitrary: db)
    case Nil then show ?case by (simp add: staging_run_def extends_keys_refl)
  next
    case (Cons op ops)
    define db1 where "db1 = snd (staging_step env op db)"
    have 1: "store_wf db1" "store_readable env db1" "extends_keys db db1"
      using step_keeps [OF Cons.prems, of op] by (simp_all add: db1_def Let_def)
    have "staging_run env (op # ops) db = staging_run env ops db1" by (simp add: staging_run_def db1_def)
    then show ?case using Cons.IH [OF 1(1,2)] extends_keys_trans [OF 1(3)] by simp
  qed
  then show "store_wf (staging_run env ops db)" "store_readable env (staging_run env ops db)"
    "extends_keys db (staging_run env ops db)" by simp_all
qed

section \<open>Pages\<close>

lemma decode_row_id: "decode_row env r = Inr s \<Longrightarrow> sg_proposal_id s = sw_proposal_id r"
  by (auto simp: decode_row_iff staged_of_def Let_def)

lemma page_loop_reads:
  assumes "list_all (row_readable env) rows" "length items \<le> limit"
  shows "\<exists>ss. page_loop env limit rows items l =
      Inr (items @ ss, (case rev (take (limit - length items) rows) of [] \<Rightarrow> l | r # _ \<Rightarrow> Some (sw_sequence r)),
           limit - length items < length rows) \<and>
    map sg_proposal_id ss = map sw_proposal_id (take (limit - length items) rows)"
  using assms
proof (induction rows arbitrary: items l)
  case (Cons r rows)
  obtain s where s: "read_stored_row r = Inr r" "decode_row env r = Inr s"
    using Cons.prems(1) by (cases "decode_row env r") (auto simp: row_readable_def is_ok_def)
  show ?case
  proof (cases "length items = limit")
    case True
    then show ?thesis using s by auto
  next
    case False
    then have lt: "length (items @ [s]) \<le> limit" using Cons.prems(2) by simp
    define m where "m = limit - length (items @ [s])"
    have m: "limit - length items = Suc m" using False Cons.prems(2) by (simp add: m_def)
    from Cons.IH [OF _ lt, of "Some (sw_sequence r)", folded m_def] Cons.prems(1)
    obtain ss where ss: "page_loop env limit rows (items @ [s]) (Some (sw_sequence r)) =
        Inr ((items @ [s]) @ ss, (case rev (take m rows) of [] \<Rightarrow> Some (sw_sequence r) | r # _ \<Rightarrow> Some (sw_sequence r)),
          m < length rows)"
      "map sg_proposal_id ss = map sw_proposal_id (take m rows)" by auto
    have "page_loop env limit (r # rows) items l = Inr (items @ (s # ss),
        (case rev (take (Suc m) (r # rows)) of [] \<Rightarrow> l | r # _ \<Rightarrow> Some (sw_sequence r)), Suc m < length (r # rows))"
      using False s ss(1) by (auto split: list.splits)
    moreover have "map sg_proposal_id (s # ss) = map sw_proposal_id (take (Suc m) (r # rows))"
      using ss(2) decode_row_id [OF s(2)] by simp
    ultimately show ?thesis unfolding m by blast
  qed
qed simp

definition within :: "int \<Rightarrow> int option \<Rightarrow> int \<times> string \<Rightarrow> bool" where
  "within ceiling before k \<longleftrightarrow> fst k \<le> ceiling \<and> (case before of None \<Rightarrow> True | Some b \<Rightarrow> fst k < b)"

definition remaining_keys :: "int \<Rightarrow> int option \<Rightarrow> proposal_store \<Rightarrow> (int \<times> string) list" where
  "remaining_keys ceiling before db = rev (filter (within ceiling before) (row_keys db))"

lemma page_rows_keys:
  "map (\<lambda>r. (sw_sequence r, sw_proposal_id r)) (page_rows ceiling before n db) = take n (remaining_keys ceiling before db)"
  by (cases before) (simp_all add: page_rows_def remaining_keys_def row_keys_def take_map rev_map filter_map comp_def within_def)

definition keyset :: "int \<Rightarrow> int \<Rightarrow> history_keyset" where
  "keyset ceiling before = \<lparr>hk_version = 1, hk_ceiling = ceiling, hk_before = before\<rparr>"

lemma list_staged_page:
  assumes rd: "store_readable env db" and lim: "0 < limit" "limit \<le> MAX_STAGED_PAGE_ITEMS"
    and key: "(cursor = None \<and> key = None) \<or> (\<exists>v k. cursor = Some v \<and> parse_cursor env v = Inr k \<and> key = Some k)"
  defines "ceiling \<equiv> (case key of Some k \<Rightarrow> hk_ceiling k | None \<Rightarrow> max_sequence db)"
  defines "ks \<equiv> remaining_keys ceiling (map_option hk_before key) db"
  shows "\<exists>pg. list_staged env limit cursor db = Inr pg \<and> map sg_proposal_id (pg_items pg) = map snd (take limit ks) \<and>
    pg_next_cursor pg = (if limit < length ks then Some (sv_keyset_text env (keyset ceiling (fst (ks ! (limit - 1))))) else None)"
proof -
  define rows where "rows = page_rows ceiling (map_option hk_before key) (Suc limit) db"
  have keys: "map (\<lambda>r. (sw_sequence r, sw_proposal_id r)) rows = take (Suc limit) ks"
    unfolding rows_def ks_def by (rule page_rows_keys)
  have "set rows \<subseteq> set (ps_rows db)"
    using set_take_subset by (fastforce simp: rows_def page_rows_def)
  then have "list_all (row_readable env) rows" using rd by (auto simp: store_readable_def list_all_iff)
  from page_loop_reads [OF this, of "[]" limit None] obtain ss where
    ss: "page_loop env limit rows [] None = Inr (ss, (case rev (take limit rows) of [] \<Rightarrow> None | r # _ \<Rightarrow> Some (sw_sequence r)),
        limit < length rows)" "map sg_proposal_id ss = map sw_proposal_id (take limit rows)" by auto
  have len: "limit < length rows \<longleftrightarrow> limit < length ks"
    using arg_cong [OF keys, of length] by auto
  have ids: "map sw_proposal_id (take limit rows) = map snd (take limit ks)"
    using arg_cong [OF keys, of "\<lambda>xs. map snd (take limit xs)"] by (simp add: take_map comp_def)
  have seq: "(case rev (take limit rows) of [] \<Rightarrow> None | r # _ \<Rightarrow> Some (sw_sequence r)) = Some (fst (ks ! (limit - 1)))"
    if "limit < length rows"
  proof -
    have ne: "take limit rows \<noteq> []" using that lim by auto
    then have rv: "rev (take limit rows) = last (take limit rows) # rev (butlast (take limit rows))"
      by (metis append_butlast_last_id rev_eq_Cons_iff rev_rev_ident)
    have "last (take limit rows) = rows ! (limit - 1)"
      using that lim ne by (simp add: last_conv_nth min_def)
    moreover have "sw_sequence (rows ! (limit - 1)) = fst (ks ! (limit - 1))"
      using arg_cong [OF keys, of "\<lambda>xs. fst (xs ! (limit - 1))"] that len lim by simp
    ultimately show ?thesis unfolding rv list.case by simp
  qed
  have c: "(case cursor of None \<Rightarrow> Inr None | Some v \<Rightarrow> rbind (parse_cursor env v) (\<lambda>k. Inr (Some k))) = Inr key"
    using key by auto
  have "list_staged env limit cursor db = Inr \<lparr>pg_items = ss, pg_next_cursor =
      (if limit < length ks then Some (sv_keyset_text env (keyset ceiling (fst (ks ! (limit - 1))))) else None)\<rparr>"
    using lim ss(1) seq len unfolding list_staged_def c
    by (simp add: Let_def ceiling_def [symmetric] rows_def [symmetric] keyset_def HISTORY_CURSOR_VERSION_def)
  then show ?thesis using ss(2) ids by simp
qed

section \<open>Following the cursors\<close>

text \<open>
  A reader that asks for a page, lets the operations of the next entry of \<open>opss\<close> happen, and goes on with
  the cursor it was given: the ids it read, or \<open>None\<close> if the entries ran out first.
\<close>

fun follow_staged ::
  "staging_env \<Rightarrow> nat \<Rightarrow> staging_op list list \<Rightarrow> proposal_store \<Rightarrow> string option \<Rightarrow> (staging_error, string list) result option" where
  "follow_staged env limit [] db cursor = None"
| "follow_staged env limit (ops # opss) db cursor =
     (case list_staged env limit cursor db of
        Inl e \<Rightarrow> Some (Inl e)
      | Inr pg \<Rightarrow>
          (case pg_next_cursor pg of
             None \<Rightarrow> Some (Inr (map sg_proposal_id (pg_items pg)))
           | Some c \<Rightarrow>
               map_option (\<lambda>rest. rbind rest (\<lambda>ids. Inr (map sg_proposal_id (pg_items pg) @ ids)))
                 (follow_staged env limit opss (staging_run env ops db) (Some c))))"

text \<open>The codec reads its own cursors at the given sequences.\<close>

definition cursors_read_back :: "staging_env \<Rightarrow> int \<Rightarrow> int list \<Rightarrow> bool" where
  "cursors_read_back env ceiling = list_all (\<lambda>b.
     sv_keyset_parse env (sv_keyset_text env (keyset ceiling b)) = Some (keyset ceiling b) \<and>
     length (sv_keyset_text env (keyset ceiling b)) \<le> 256)"

lemma drop_descending:
  fixes xs :: "(int \<times> string) list"
  assumes "sorted_wrt (\<lambda>a b. fst b < fst a) xs" "0 < n" "n \<le> length xs"
  shows "drop n xs = filter (\<lambda>k. fst k < fst (xs ! (n - 1))) xs"
proof -
  have "xs = take n xs @ drop n xs" by simp
  moreover have "filter (\<lambda>k. fst k < fst (xs ! (n - 1))) (take n xs) = []"
  proof -
    have "\<not> fst k < fst (xs ! (n - 1))" if k: "k \<in> set (take n xs)" for k
    proof -
      obtain j where j: "j < n" "k = xs ! j" using k assms(3) by (auto simp: in_set_conv_nth)
      then have "j = n - 1 \<or> j < n - 1" by auto
      moreover have "n - 1 < length xs" using assms(2,3) by simp
      ultimately show ?thesis using j sorted_wrt_nth_less [OF assms(1), of j "n - 1"] by auto
    qed
    then show ?thesis by (simp add: filter_empty_conv)
  qed
  moreover have "filter (\<lambda>k. fst k < fst (xs ! (n - 1))) (drop n xs) = drop n xs"
  proof (rule filter_True, rule ballI)
    fix k assume "k \<in> set (drop n xs)"
    then obtain j where "j < length xs - n" "k = xs ! (n + j)" by (auto simp: in_set_conv_nth)
    then show "fst k < fst (xs ! (n - 1))" using assms sorted_wrt_nth_less [OF assms(1), of "n - 1" "n + j"] by auto
  qed
  ultimately show ?thesis by (metis append_Nil filter_append)
qed

lemma remaining_descending: "store_wf db \<Longrightarrow> sorted_wrt (\<lambda>a b. fst b < fst a) (remaining_keys ceiling before db)"
  by (auto simp: store_wf_def remaining_keys_def row_keys_def sorted_wrt_rev sorted_wrt_map comp_def
      intro!: sorted_wrt_filter)

lemma remaining_extends:
  assumes "extends_keys db db'" "ceiling \<le> ps_counter db"
  shows "remaining_keys ceiling before db' = remaining_keys ceiling before db"
proof -
  obtain new where new: "row_keys db' = row_keys db @ new" "\<forall>k \<in> set new. ps_counter db < fst k"
    using assms(1) by (auto simp: extends_keys_def)
  then have "filter (within ceiling before) new = []" using assms(2) by (force simp: filter_empty_conv within_def)
  then show ?thesis by (simp add: remaining_keys_def new(1))
qed

lemma remaining_next:
  assumes "store_wf db" "0 < n" "n \<le> length (remaining_keys ceiling before db)"
  shows "remaining_keys ceiling (Some (fst (remaining_keys ceiling before db ! (n - 1)))) db =
    drop n (remaining_keys ceiling before db)"
proof -
  define ks where "ks = remaining_keys ceiling before db"
  define l where "l = fst (ks ! (n - 1))"
  have "ks ! (n - 1) \<in> set ks" using assms(2,3) unfolding ks_def [symmetric] by simp
  then have "within ceiling before (ks ! (n - 1))" by (auto simp: ks_def remaining_keys_def)
  then have "within ceiling (Some l) k \<longleftrightarrow> within ceiling before k \<and> fst k < l" for k
    by (auto simp: within_def l_def split: option.splits)
  then have "filter (within ceiling (Some l)) (row_keys db) =
      filter (\<lambda>k. fst k < l) (filter (within ceiling before) (row_keys db))"
    by (simp add: filter_filter cong: filter_cong)
  then have "remaining_keys ceiling (Some l) db = filter (\<lambda>k. fst k < l) ks"
    by (simp add: remaining_keys_def ks_def rev_filter)
  also have "\<dots> = drop n ks"
    unfolding l_def using drop_descending [OF remaining_descending [OF assms(1)]] assms(2,3) by (simp add: ks_def)
  finally show ?thesis by (simp add: l_def ks_def)
qed

lemma keyset_accepted:
  assumes "cursors_read_back env ceiling bs" "b \<in> set bs" "0 < b" "b \<le> ceiling"
  shows "parse_cursor env (sv_keyset_text env (keyset ceiling b)) = Inr (keyset ceiling b)"
  using assms by (auto simp: parse_cursor_def cursors_read_back_def list_all_iff keyset_def HISTORY_CURSOR_VERSION_def)

lemma follow_reads:
  assumes "store_wf db" "store_readable env db" "0 < limit" "limit \<le> MAX_STAGED_PAGE_ITEMS"
    and "ceiling \<le> ps_counter db" "cursors_read_back env ceiling (map fst (remaining_keys ceiling before db))"
    and "case before of
        None \<Rightarrow> cursor = None \<and> ceiling = max_sequence db
      | Some b \<Rightarrow> (\<exists>v. cursor = Some v \<and> parse_cursor env v = Inr (keyset ceiling b))"
    and "length (remaining_keys ceiling before db) < length opss"
  shows "follow_staged env limit opss db cursor = Some (Inr (map snd (remaining_keys ceiling before db)))"
  using assms
proof (induction opss arbitrary: db cursor before)
  case (Cons ops opss)
  define ks where "ks = remaining_keys ceiling before db"
  define key where "key = map_option (keyset ceiling) before"
  have key: "(cursor = None \<and> key = None) \<or> (\<exists>v k. cursor = Some v \<and> parse_cursor env v = Inr k \<and> key = Some k)"
    using Cons.prems(7) by (auto simp: key_def split: option.splits)
  have ceil: "(case key of Some k \<Rightarrow> hk_ceiling k | None \<Rightarrow> max_sequence db) = ceiling" "map_option hk_before key = before"
    using Cons.prems(7) by (auto simp: key_def keyset_def option.map_comp comp_def split: option.splits)
  from list_staged_page [OF Cons.prems(2-4) key, unfolded ceil, folded ks_def] obtain pg where
    pg: "list_staged env limit cursor db = Inr pg" "map sg_proposal_id (pg_items pg) = map snd (take limit ks)"
    "pg_next_cursor pg = (if limit < length ks then Some (sv_keyset_text env (keyset ceiling (fst (ks ! (limit - 1))))) else None)"
    by blast
  show ?case
  proof (cases "limit < length ks")
    case False
    then show ?thesis using pg by (simp add: ks_def [symmetric])
  next
    case True
    define b where "b = fst (ks ! (limit - 1))"
    define db' where "db' = staging_run env ops db"
    have "limit - 1 < length ks" using True by simp
    then have mem: "ks ! (limit - 1) \<in> set ks" by simp
    then have "ks ! (limit - 1) \<in> set (row_keys db)" "b \<le> ceiling"
      by (auto simp: ks_def remaining_keys_def within_def b_def)
    then have b: "0 < b" "b \<le> ceiling" "b \<in> set (map fst ks)" using Cons.prems(1) mem
      by (auto simp: row_keys_def store_wf_def list_all_iff b_def)
    note run = run_keeps [OF Cons.prems(1,2), of ops, folded db'_def]
    have rem: "remaining_keys ceiling (Some b) db' = drop limit ks"
      unfolding remaining_extends [OF run(3) Cons.prems(5)] b_def ks_def
      using True Cons.prems(1,3) by (intro remaining_next) (simp_all add: ks_def)
    have "set (drop limit ks) \<subseteq> set ks" by (rule set_drop_subset)
    then have codec: "cursors_read_back env ceiling (map fst (remaining_keys ceiling (Some b) db'))"
      using Cons.prems(6) unfolding rem ks_def [symmetric] cursors_read_back_def list_all_iff by auto
    have parse: "parse_cursor env (sv_keyset_text env (keyset ceiling b)) = Inr (keyset ceiling b)"
      using keyset_accepted [OF Cons.prems(6) [folded ks_def] b(3,1,2)] .
    have le: "ceiling \<le> ps_counter db'" using run(3) Cons.prems(5) by (simp add: extends_keys_def)
    have len: "length (remaining_keys ceiling (Some b) db') < length opss"
      using Cons.prems(3,8) True unfolding rem by (simp add: ks_def)
    have "follow_staged env limit opss db' (Some (sv_keyset_text env (keyset ceiling b))) = Some (Inr (map snd (drop limit ks)))"
      using Cons.IH [OF run(1,2) Cons.prems(3,4) le codec _ len] parse unfolding rem by simp
    moreover have "pg_next_cursor pg = Some (sv_keyset_text env (keyset ceiling b))"
      using pg(3) True by (simp add: b_def)
    ultimately show ?thesis using pg(1,2)
      by (simp add: db'_def [symmetric] ks_def [symmetric] flip: map_append)
  qed
qed simp

lemma max_sequence_bounds:
  assumes "store_wf db"
  shows "max_sequence db \<le> ps_counter db" "r \<in> set (ps_rows db) \<Longrightarrow> sw_sequence r \<le> max_sequence db"
proof -
  have up: "x \<le> fold (\<lambda>r m. max m (sw_sequence r)) rs x" for rs :: "stored_row list" and x
    by (induction rs arbitrary: x) (auto intro: order_trans [OF max.cobounded1])
  have mem: "r \<in> set rs \<Longrightarrow> sw_sequence r \<le> fold (\<lambda>r m. max m (sw_sequence r)) rs x" for rs :: "stored_row list" and r x
  proof (induction rs arbitrary: x)
    case (Cons a rs)
    have "sw_sequence a \<le> fold (\<lambda>r m. max m (sw_sequence r)) rs (max x (sw_sequence a))"
      using order_trans [OF max.cobounded2 [of "sw_sequence a" x] up] .
    then show ?case using Cons by auto
  qed simp
  have bound: "x \<le> c \<Longrightarrow> \<forall>r \<in> set rs. sw_sequence r \<le> c \<Longrightarrow> fold (\<lambda>r m. max m (sw_sequence r)) rs x \<le> c"
    for rs :: "stored_row list" and x c by (induction rs arbitrary: x) auto
  show "max_sequence db \<le> ps_counter db"
    using assms bound by (auto simp: max_sequence_def store_wf_def list_all_iff split: list.split)
  show "r \<in> set (ps_rows db) \<Longrightarrow> sw_sequence r \<le> max_sequence db"
    using up mem by (auto simp: max_sequence_def split: list.split)
qed

text \<open>
  C20: reading the history while it grows. From a well-formed, readable store (the empty one is, and every
  operation keeps it so), following the cursors with a valid page size ends after at most one page per row and
  one more, and has read the id of every proposal that was staged when the traversal began, each exactly once and
  newest first, whatever is staged or reviewed between the pages.
\<close>

theorem following_cursors_reads_staged:
  assumes "store_wf db" "store_readable env db" "0 < limit" "limit \<le> MAX_STAGED_PAGE_ITEMS"
    and "cursors_read_back env (max_sequence db) (map sw_sequence (ps_rows db))"
    and "length (ps_rows db) < length opss"
  shows "follow_staged env limit opss db None = Some (Inr (map sw_proposal_id (rev (ps_rows db))))"
proof -
  have all: "remaining_keys (max_sequence db) None db = rev (row_keys db)"
    using max_sequence_bounds(2) [OF assms(1)]
    by (auto simp: remaining_keys_def row_keys_def within_def intro!: filter_True)
  have codec: "cursors_read_back env (max_sequence db) (map fst (remaining_keys (max_sequence db) None db))"
    using assms(5) unfolding all by (simp add: cursors_read_back_def list_all_iff row_keys_def)
  have "follow_staged env limit opss db None = Some (Inr (map snd (remaining_keys (max_sequence db) None db)))"
    using follow_reads [OF assms(1-4) max_sequence_bounds(1) [OF assms(1)] codec] assms(6) unfolding all
    by (simp add: row_keys_def)
  then show ?thesis unfolding all by (simp add: row_keys_def rev_map comp_def)
qed

theorem following_cursors_reads_staged_witness:
  "follow_staged demo_senv 1 [demo_reviews, []] (snd demo_stage) None = Some (Inr [sw_proposal_id demo_row])"
proof -
  have wf: "store_wf (snd demo_stage)" by (rule demo_stage_wf)
  have rd: "store_readable demo_senv (snd demo_stage)"
    by (simp add: store_readable_def demo_stage_runs row_readable_def demo_row_def fresh_row_def read_stored_row_def
        bounded_cell_def bounded_null_def demo_cells demo_cells(1) [simplified] demo_decode_row row_decision_def
        review_columns_ok_def MAX_STAGED_RECORD_BYTES_def is_ok_def)
  have "cursors_read_back demo_senv (max_sequence (snd demo_stage)) (map sw_sequence (ps_rows (snd demo_stage)))"
    by (simp add: cursors_read_back_def demo_stage_runs max_sequence_def demo_row_def fresh_row_def keyset_def demo_senv_def)
  from following_cursors_reads_staged [OF wf rd _ _ this, of 1 "[demo_reviews, []]"] show ?thesis
    by (simp add: demo_stage_runs MAX_STAGED_PAGE_ITEMS_def)
qed

section \<open>The receipt inventory\<close>

definition captured_reference :: "string \<Rightarrow> string \<Rightarrow> task_evidence_origin \<Rightarrow> staged_receipt_reference option" where
  "captured_reference source_id proposal_id item =
     (case eo_origin item of
        WorkingTreeUnverified \<Rightarrow> None
      | CapturedPrimarySource co \<Rightarrow>
          if co_source_id co = source_id
          then Some \<lparr>sref_proposal_id = proposal_id, sref_evidence_id = eo_evidence_id item, sref_receipt_id = co_receipt_id co\<rparr>
          else None)"

definition staged_references :: "string \<Rightarrow> staged_proposal \<Rightarrow> staged_receipt_reference list" where
  "staged_references source_id s =
     (case sg_source_basis s of
        None \<Rightarrow> []
      | Some basis \<Rightarrow> List.map_filter (captured_reference source_id (sg_proposal_id s)) (tsb_evidence basis))"

lemma row_references_eq:
  "length acc \<le> MAX_STAGED_REFERENCE_SCAN \<Longrightarrow>
     row_references source_id i items acc =
       (let new = List.map_filter (captured_reference source_id i) items in
        if length acc + length new > MAX_STAGED_REFERENCE_SCAN then Inl ReferenceInventoryLimit else Inr (acc @ new))"
  by (induction items arbitrary: acc)
    (auto simp: captured_reference_def map_filter_simps Let_def split: task_evidence_kind.splits)

lemma scan_rows_eq:
  "list_all (row_readable env) rows \<Longrightarrow> length acc \<le> MAX_STAGED_REFERENCE_SCAN \<Longrightarrow>
     try_fold (scan_row env source_id) rows acc =
       (let new = concat (map (staged_references source_id \<circ> projr \<circ> decode_row env) rows) in
        if length acc + length new > MAX_STAGED_REFERENCE_SCAN then Inl ReferenceInventoryLimit else Inr (acc @ new))"
proof (induction rows arbitrary: acc)
  case (Cons r rows)
  obtain s where s: "read_stored_row r = Inr r" "decode_row env r = Inr s"
    using Cons.prems(1) by (cases "decode_row env r") (auto simp: row_readable_def is_ok_def)
  have "scan_row env source_id r acc =
      (if length acc + length (staged_references source_id s) > MAX_STAGED_REFERENCE_SCAN then Inl ReferenceInventoryLimit
       else Inr (acc @ staged_references source_id s))"
    using Cons.prems(2) s
    by (simp add: scan_row_def staged_references_def row_references_eq Let_def split: option.split)
  then show ?case using Cons s by (simp add: Let_def)
qed simp

text \<open>
  The inventory of a readable store is complete or refused: with a valid source id it lists, sorted, one entry for
  every captured evidence item of that source in every stored proposal, unless there are more than 4096 rows or
  entries, which is an error and never a shortened list.
\<close>

theorem receipt_inventory_exact:
  assumes "store_readable env db" "text_ok source_id 256"
  shows "captured_receipt_references env source_id db =
    (let found = concat (map (staged_references source_id \<circ> projr \<circ> decode_row env) (ps_rows db)) in
     if length (ps_rows db) > MAX_STAGED_REFERENCE_SCAN \<or> length found > MAX_STAGED_REFERENCE_SCAN
     then Inl ReferenceInventoryLimit else Inr (sort_key reference_rank found))"
  using assms scan_rows_eq [of env "ps_rows db" "[]" source_id]
  by (auto simp: captured_receipt_references_def store_readable_def MAX_STAGED_REFERENCE_SCAN_def Let_def min_def)

end
