(* ===== verification/Rule_Evidence.thy ===== *)
theory Rule_Evidence
  imports Prov
begin

text \<open>
  Source-rule evidence (\<^verbatim>\<open>crates/core-graph/src/rules.rs\<close> and \<^verbatim>\<open>rules/definitions.rs\<close>): the payload
  of a guarded exit, the traversal of all its source references, the reader and its bounds, and the
  validation of local definitions: an arena of expression nodes that must be a tree, and the links
  between definitions that must be acyclic, short and reachable from a condition. Explicit stacks of the
  source stay explicit. The typed decoder of serde is the parameter \<open>dec\<close>, and the JSON texts whose
  length is bounded are the parameters \<open>vtext\<close> and \<open>rtext\<close>.
\<close>

section \<open>Records\<close>

definition RULE_EVIDENCE_SCHEMA_VERSION :: nat where "RULE_EVIDENCE_SCHEMA_VERSION = 2"
definition MAX_LOCAL_DEFINITIONS :: nat where "MAX_LOCAL_DEFINITIONS = 16"
definition MAX_DEFINITION_NODES :: nat where "MAX_DEFINITION_NODES = 64"
definition MAX_INITIALIZER_DEPENDENCIES :: nat where "MAX_INITIALIZER_DEPENDENCIES = 128"
definition MAX_DEFINITION_EXPRESSION_DEPTH :: nat where "MAX_DEFINITION_EXPRESSION_DEPTH = 8"
definition MAX_DEFINITION_CHAIN_DEPTH :: nat where "MAX_DEFINITION_CHAIN_DEPTH = 4"
definition MAX_RULE_PAYLOAD_BYTES :: nat where "MAX_RULE_PAYLOAD_BYTES = 64 * 1024"
definition MAX_TEXT_BYTES :: nat where "MAX_TEXT_BYTES = 8 * 1024"
definition RULE_MAX_ID_BYTES :: nat where "RULE_MAX_ID_BYTES = 4096"
definition MAX_USES :: nat where "MAX_USES = 256"

datatype rule_kind = GuardedExit
datatype branch_polarity = TruthyBranch | FalsyBranch
datatype expression_capture = CompleteSyntax | CaptureRedacted | CaptureUnsupported
datatype literal_kind = LkBoolean | LkString | LkNumber | LkNull
datatype known_literal = KnownBoolean bool | KnownString string | KnownNumber json_num | KnownNull

datatype redaction_reason =
    PrivateKey | ProviderToken | BearerToken | AwsAccessKey | CredentialValue | TokenShaped
  | UnsupportedDecoding | UnsupportedSyntax | RemovedComment

datatype literal_evidence = LitKnown known_literal | LitWithheld literal_kind "redaction_reason list"

record source_expression =
  sx_source :: evidence_ref
  sx_syntax_kind :: string
  sx_display :: string
  sx_capture :: expression_capture
  sx_literal :: "literal_evidence option"

record branch_condition =
  bc_branch_source :: evidence_ref
  bc_expression :: source_expression
  bc_polarity :: branch_polarity

datatype local_exit = ExitReturn "source_expression option" | ExitThrow source_expression
datatype dependency_role = DepCondition | DepExitValue | DepControlFlow
datatype dependency_resolution = ResBinding string evidence_ref | ResTarget string | ResUnresolved string

record rule_dependency =
  rd_role :: dependency_role
  rd_source :: evidence_ref
  rd_resolution :: dependency_resolution

datatype interpretation_status = NotEstablished

record rule_interpretation =
  ri_execution_predicate :: interpretation_status
  ri_consumer_effect :: interpretation_status
  ri_gap_ids :: "string list"

record source_redaction =
  red_source :: evidence_ref
  red_reason :: redaction_reason

datatype unary_operator = UoNot | UoPlus | UoMinus | UoBitwiseNot | UoTypeof | UoVoid

datatype binary_operator =
    BoLooseEqual | BoLooseNotEqual | BoStrictEqual | BoStrictNotEqual | BoLessThan | BoLessThanOrEqual
  | BoGreaterThan | BoGreaterThanOrEqual | BoAdd | BoSubtract | BoMultiply | BoDivide | BoRemainder | BoExponent
  | BoLeftShift | BoRightShift | BoUnsignedRightShift | BoBitwiseAnd | BoBitwiseOr | BoBitwiseXor | BoIn
  | BoInstanceof

datatype logical_operator = LoAnd | LoOr | LoNullish

datatype definition_kind =
    DkLiteral
  | DkIdentifier nat
  | DkPropertyName
  | DkMember nat nat bool bool nat
  | DkParenthesized nat
  | DkUnary unary_operator nat
  | DkBinary binary_operator nat nat
  | DkLogical logical_operator nat nat
  | DkUnsupported string

record definition_node =
  dn_expression :: source_expression
  dn_kind :: definition_kind

record definition_expression =
  dx_root :: nat
  dx_nodes :: "definition_node list"

record definition_dependency =
  dd_source :: evidence_ref
  dd_resolution :: dependency_resolution

record local_definition =
  ld_binding_id :: string
  ld_declaration :: evidence_ref
  ld_uses :: "evidence_ref list"
  ld_initializer :: source_expression
  ld_expression :: definition_expression
  ld_dependencies :: "definition_dependency list"

record guarded_exit =
  ge_schema_version :: nat
  ge_kind :: rule_kind
  ge_owner_id :: string
  ge_exit_source :: evidence_ref
  ge_source_order :: nat
  ge_conditions :: "branch_condition list"
  ge_effect :: local_exit
  ge_dependencies :: "rule_dependency list"
  ge_interpretation :: rule_interpretation
  ge_redactions :: "source_redaction list"
  ge_local_definitions :: "local_definition list option"

datatype rule_error =
    MalformedPayload
  | UnsupportedVersion nat
  | InvalidSourceSpan string
  | EmptyIdentity string
  | MissingWithholdingReason
  | InconsistentCapture
  | RuleLimit string
  | InvalidDefinition string

definition rule_require :: "rule_error \<Rightarrow> bool \<Rightarrow> (rule_error, unit) result" where
  "rule_require e ok = (if ok then Inr () else Inl e)"

text \<open>A loop that only checks: \<^verbatim>\<open>for x in xs { check(x)?; }\<close>.\<close>

definition check_all :: "('a \<Rightarrow> (rule_error, unit) result) \<Rightarrow> 'a list \<Rightarrow> (rule_error, unit) result" where
  "check_all f xs = try_fold (\<lambda>x _. f x) xs ()"

section \<open>Visiting every source reference\<close>

text \<open>
  The visitor is any function on references with a state of its own; the traversal threads that state
  through the references in structural order.
\<close>

type_synonym 's visitor = "evidence_ref \<Rightarrow> 's \<Rightarrow> evidence_ref \<times> 's"

fun visit_each :: "('a \<Rightarrow> 's \<Rightarrow> 'a \<times> 's) \<Rightarrow> 'a list \<Rightarrow> 's \<Rightarrow> 'a list \<times> 's" where
  "visit_each f [] s = ([], s)"
| "visit_each f (x # xs) s =
     (let (x', s1) = f x s; (xs', s2) = visit_each f xs s1 in (x' # xs', s2))"

definition visit_expression :: "'s visitor \<Rightarrow> source_expression \<Rightarrow> 's \<Rightarrow> source_expression \<times> 's" where
  "visit_expression v x s = (let (r, s1) = v (sx_source x) s in (x\<lparr>sx_source := r\<rparr>, s1))"

definition visit_resolution :: "'s visitor \<Rightarrow> dependency_resolution \<Rightarrow> 's \<Rightarrow> dependency_resolution \<times> 's" where
  "visit_resolution v d s =
     (case d of ResBinding i decl \<Rightarrow> (let (r, s1) = v decl s in (ResBinding i r, s1)) | _ \<Rightarrow> (d, s))"

definition visit_condition :: "'s visitor \<Rightarrow> branch_condition \<Rightarrow> 's \<Rightarrow> branch_condition \<times> 's" where
  "visit_condition v c s =
     (let (b, s1) = v (bc_branch_source c) s; (x, s2) = visit_expression v (bc_expression c) s1
      in (c\<lparr>bc_branch_source := b, bc_expression := x\<rparr>, s2))"

definition visit_effect :: "'s visitor \<Rightarrow> local_exit \<Rightarrow> 's \<Rightarrow> local_exit \<times> 's" where
  "visit_effect v e s =
     (case e of
        ExitReturn None \<Rightarrow> (ExitReturn None, s)
      | ExitReturn (Some x) \<Rightarrow> (let (x', s1) = visit_expression v x s in (ExitReturn (Some x'), s1))
      | ExitThrow x \<Rightarrow> (let (x', s1) = visit_expression v x s in (ExitThrow x', s1)))"

definition visit_dependency :: "'s visitor \<Rightarrow> rule_dependency \<Rightarrow> 's \<Rightarrow> rule_dependency \<times> 's" where
  "visit_dependency v d s =
     (let (r, s1) = v (rd_source d) s; (q, s2) = visit_resolution v (rd_resolution d) s1
      in (d\<lparr>rd_source := r, rd_resolution := q\<rparr>, s2))"

definition visit_input :: "'s visitor \<Rightarrow> definition_dependency \<Rightarrow> 's \<Rightarrow> definition_dependency \<times> 's" where
  "visit_input v d s =
     (let (r, s1) = v (dd_source d) s; (q, s2) = visit_resolution v (dd_resolution d) s1
      in (d\<lparr>dd_source := r, dd_resolution := q\<rparr>, s2))"

definition visit_node :: "'s visitor \<Rightarrow> definition_node \<Rightarrow> 's \<Rightarrow> definition_node \<times> 's" where
  "visit_node v n s = (let (x, s1) = visit_expression v (dn_expression n) s in (n\<lparr>dn_expression := x\<rparr>, s1))"

definition visit_definition :: "'s visitor \<Rightarrow> local_definition \<Rightarrow> 's \<Rightarrow> local_definition \<times> 's" where
  "visit_definition v d s =
     (let (decl, s1) = v (ld_declaration d) s;
          (uses, s2) = visit_each v (ld_uses d) s1;
          (ini, s3) = visit_expression v (ld_initializer d) s2;
          (nodes, s4) = visit_each (visit_node v) (dx_nodes (ld_expression d)) s3;
          (deps, s5) = visit_each (visit_input v) (ld_dependencies d) s4
      in (d\<lparr>ld_declaration := decl, ld_uses := uses, ld_initializer := ini,
            ld_expression := (ld_expression d)\<lparr>dx_nodes := nodes\<rparr>, ld_dependencies := deps\<rparr>, s5))"

definition visit_redaction :: "'s visitor \<Rightarrow> source_redaction \<Rightarrow> 's \<Rightarrow> source_redaction \<times> 's" where
  "visit_redaction v r s = (let (x, s1) = v (red_source r) s in (r\<lparr>red_source := x\<rparr>, s1))"

definition visit_sources_mut :: "'s visitor \<Rightarrow> guarded_exit \<Rightarrow> 's \<Rightarrow> guarded_exit \<times> 's" where
  "visit_sources_mut v g s =
     (let (ex, s1) = v (ge_exit_source g) s;
          (conds, s2) = visit_each (visit_condition v) (ge_conditions g) s1;
          (eff, s3) = visit_effect v (ge_effect g) s2;
          (deps, s4) = visit_each (visit_dependency v) (ge_dependencies g) s3;
          (defs, s5) = (case ge_local_definitions g of
                          None \<Rightarrow> (None, s4)
                        | Some ds \<Rightarrow> (let (ds', s5) = visit_each (visit_definition v) ds s4 in (Some ds', s5)));
          (reds, s6) = visit_each (visit_redaction v) (ge_redactions g) s5
      in (g\<lparr>ge_exit_source := ex, ge_conditions := conds, ge_effect := eff, ge_dependencies := deps,
            ge_local_definitions := defs, ge_redactions := reds\<rparr>, s6))"

section \<open>Basic checks\<close>

definition rule_identity :: "string \<Rightarrow> string \<Rightarrow> (rule_error, unit) result" where
  "rule_identity v fld = rule_require (EmptyIdentity fld) (v \<noteq> [])"

definition rule_span :: "evidence_ref \<Rightarrow> string \<Rightarrow> (rule_error, unit) result" where
  "rule_span src fld = rule_require (InvalidSourceSpan fld) (ev_byte_start src < ev_byte_end src)"

definition rule_expression :: "source_expression \<Rightarrow> (rule_error, unit) result" where
  "rule_expression x =
     rbind (rule_span (sx_source x) ''expression.source'') (\<lambda>_.
       (case sx_literal x of
          Some (LitWithheld _ reasons) \<Rightarrow>
            if reasons = [] then Inl MissingWithholdingReason
            else if sx_capture x = CompleteSyntax then Inl InconsistentCapture
            else Inr ()
        | _ \<Rightarrow> Inr ()))"

definition effect_value :: "local_exit \<Rightarrow> source_expression option" where
  "effect_value e = (case e of ExitReturn x \<Rightarrow> x | ExitThrow x \<Rightarrow> Some x)"

definition basic_resolution :: "dependency_resolution \<Rightarrow> (rule_error, unit) result" where
  "basic_resolution d =
     (case d of
        ResBinding i decl \<Rightarrow> rbind (rule_identity i ''binding_id'') (\<lambda>_. rule_span decl ''binding.declaration'')
      | ResTarget i \<Rightarrow> rule_identity i ''target.node_id''
      | ResUnresolved i \<Rightarrow> rule_identity i ''dependency.gap_id'')"

section \<open>Reading a payload\<close>

definition invalid :: "string \<Rightarrow> rule_error" where
  "invalid fld = InvalidDefinition fld"

text \<open>Serialising into a \<^verbatim>\<open>ByteBudget\<close> fails exactly when the text is longer than the budget.\<close>

definition serialized_bound :: "string \<Rightarrow> (rule_error, unit) result" where
  "serialized_bound bytes = rule_require (RuleLimit ''payload_bytes'') (length bytes \<le> MAX_RULE_PAYLOAD_BYTES)"

definition source_fields :: "string list" where
  "source_fields = [''repo'', ''path'', ''byte_start'', ''byte_end'', ''commit_sha'']"

definition source_wire_ok :: "(string \<times> json) list \<Rightarrow> bool" where
  "source_wire_ok kvs \<longleftrightarrow>
     (map_of kvs ''byte_start'' \<noteq> None \<or> map_of kvs ''byte_end'' \<noteq> None \<longrightarrow>
      length kvs = 5 \<and> list_all (\<lambda>k. map_of kvs k \<noteq> None) source_fields)"

text \<open>The values one value adds to the stack, or the error it is refused with.\<close>

definition wire_children :: "json \<Rightarrow> nat \<Rightarrow> nat \<Rightarrow> (rule_error, json list) result" where
  "wire_children v visited waiting =
     (case v of
        JStr s \<Rightarrow> if length s > MAX_TEXT_BYTES then Inl (RuleLimit ''wire_text'') else Inr []
      | JArr vs \<Rightarrow>
          if length vs > 1024 \<or> visited + waiting + length vs > 16384 then Inl (RuleLimit ''wire_shape'') else Inr vs
      | JObj kvs \<Rightarrow>
          if length kvs > 64 \<or> list_ex (\<lambda>(k, _). length k > 128) kvs then Inl (RuleLimit ''wire_shape'')
          else if \<not> source_wire_ok kvs then Inl (invalid ''source_wire'')
          else Inr (map snd kvs)
      | _ \<Rightarrow> Inr [])"

text \<open>The stack has its top first; values pushed together are popped last one first.\<close>

function wire_loop :: "(json \<times> nat) list \<Rightarrow> nat \<Rightarrow> (rule_error, unit) result" where
  "wire_loop pending visited =
     (case pending of
        [] \<Rightarrow> Inr ()
      | (v, depth) # rest \<Rightarrow>
          if depth > 32 \<or> visited + 1 > 16384 then Inl (RuleLimit ''wire_shape'')
          else (case wire_children v (visited + 1) (length rest) of
                  Inl e \<Rightarrow> Inl e
                | Inr vs \<Rightarrow> wire_loop (rev (map (\<lambda>x. (x, depth + 1)) vs) @ rest) (visited + 1)))"
  by pat_completeness auto
termination
  by (relation "measure (\<lambda>(pending, visited). 16384 - visited)") auto

declare wire_loop.simps [simp del]

definition array_length :: "json option \<Rightarrow> nat" where
  "array_length v = (case Option.bind v as_array of None \<Rightarrow> 0 | Some xs \<Rightarrow> length xs)"

definition definition_preflight :: "(json \<Rightarrow> string) \<Rightarrow> json \<Rightarrow> (rule_error, unit) result" where
  "definition_preflight vtext v =
     rbind (wire_loop [(v, 0)] 0) (\<lambda>_.
       case Option.bind (jget v ''local_definitions'') as_array of
         None \<Rightarrow> Inl (invalid ''local_definitions'')
       | Some definitions \<Rightarrow>
           if length definitions > MAX_LOCAL_DEFINITIONS then Inl (RuleLimit ''definitions'')
           else if sum_list (map (\<lambda>d. array_length (Option.bind (jget d ''expression'') (\<lambda>x. jget x ''nodes''))) definitions)
                     > MAX_DEFINITION_NODES \<or>
                   sum_list (map (\<lambda>d. array_length (jget d ''dependencies'')) definitions) > MAX_INITIALIZER_DEPENDENCIES \<or>
                   sum_list (map (\<lambda>d. array_length (jget d ''uses'')) definitions) > MAX_USES
           then Inl (RuleLimit ''definition_collections'')
           else serialized_bound (vtext v))"

definition collection_bounds :: "guarded_exit \<Rightarrow> (rule_error, unit) result" where
  "collection_bounds g =
     (case ge_local_definitions g of
        None \<Rightarrow> Inl (invalid ''local_definitions'')
      | Some definitions \<Rightarrow>
          if length definitions > MAX_LOCAL_DEFINITIONS \<or> length (ge_conditions g) > 32 \<or>
             length (ge_dependencies g) > 128 \<or> length (ge_redactions g) > 1024 \<or>
             length (ri_gap_ids (ge_interpretation g)) > 128
          then Inl (RuleLimit ''rule_collections'')
          else if sum_list (map (\<lambda>d. length (dx_nodes (ld_expression d))) definitions) > MAX_DEFINITION_NODES \<or>
                  sum_list (map (\<lambda>d. length (ld_dependencies d)) definitions) > MAX_INITIALIZER_DEPENDENCIES \<or>
                  sum_list (map (\<lambda>d. length (ld_uses d)) definitions) > MAX_USES
          then Inl (RuleLimit ''definition_collections'')
          else Inr ())"

section \<open>Checks of a version 2 payload\<close>

text \<open>
  A control character in the bytes of UTF-8 text: below U+0020, U+007F, or U+0080 to U+009F, whose bytes
  are 0xC2 and one of 0x80 to 0x9F.
\<close>

fun has_control :: "string \<Rightarrow> bool" where
  "has_control [] = False"
| "has_control (c # cs) =
     (of_char c < (32 :: nat) \<or> c = CHR 0x7F \<or>
      (c = CHR 0xC2 \<and> (case cs of [] \<Rightarrow> False | d # _ \<Rightarrow> (0x80 :: nat) \<le> of_char d \<and> of_char d \<le> (0x9F :: nat))) \<or>
      has_control cs)"

definition rule_bounded_id :: "string \<Rightarrow> (rule_error, unit) result" where
  "rule_bounded_id v = rule_require (invalid ''identity'') (v \<noteq> [] \<and> length v \<le> RULE_MAX_ID_BYTES \<and> \<not> has_control v)"

definition same_source :: "evidence_ref \<Rightarrow> evidence_ref \<Rightarrow> bool" where
  "same_source a b \<longleftrightarrow> ev_repo a = ev_repo b \<and> ev_path a = ev_path b \<and> ev_commit_sha a = ev_commit_sha b"

definition span_contains :: "evidence_ref \<Rightarrow> evidence_ref \<Rightarrow> bool" where
  "span_contains parent child \<longleftrightarrow>
     same_source parent child \<and> ev_byte_start parent \<le> ev_byte_start child \<and> ev_byte_end child \<le> ev_byte_end parent"

definition checked_source :: "evidence_ref \<Rightarrow> evidence_ref \<Rightarrow> (rule_error, unit) result" where
  "checked_source reference primary =
     rbind (rule_span reference ''definition.source'') (\<lambda>_.
     rbind (check_all rule_bounded_id [ev_repo reference, ev_path reference, ev_commit_sha reference]) (\<lambda>_.
       rule_require (invalid ''source_identity'') (same_source reference primary)))"

definition checked_expression :: "source_expression \<Rightarrow> evidence_ref \<Rightarrow> (rule_error, unit) result" where
  "checked_expression x primary =
     rbind (rule_expression x) (\<lambda>_.
     rbind (checked_source (sx_source x) primary) (\<lambda>_.
     rbind (rule_require (RuleLimit ''expression_text'')
              (sx_syntax_kind x \<noteq> [] \<and> length (sx_syntax_kind x) \<le> 64 \<and> length (sx_display x) \<le> MAX_TEXT_BYTES)) (\<lambda>_.
       (case sx_literal x of
          Some (LitKnown (KnownString t)) \<Rightarrow> rule_require (RuleLimit ''literal_text'') (length t \<le> MAX_TEXT_BYTES)
        | Some (LitWithheld _ reasons) \<Rightarrow> rule_require (RuleLimit ''literal_reasons'') (length reasons \<le> 16)
        | _ \<Rightarrow> Inr ()))))"

definition checked_resolution ::
  "dependency_resolution \<Rightarrow> evidence_ref \<Rightarrow> string list \<Rightarrow> (rule_error, unit) result" where
  "checked_resolution d primary gaps =
     (case d of
        ResBinding i decl \<Rightarrow> rbind (rule_bounded_id i) (\<lambda>_. checked_source decl primary)
      | ResTarget i \<Rightarrow> rule_bounded_id i
      | ResUnresolved i \<Rightarrow> rbind (rule_bounded_id i) (\<lambda>_. rule_require (invalid ''gap_reference'') (i \<in> set gaps)))"

section \<open>The expression arena of one definition\<close>

text \<open>The derived \<^verbatim>\<open>PartialEq\<close> of an expression, with serde\_json's equality on numbers.\<close>

definition literal_eq :: "literal_evidence \<Rightarrow> literal_evidence \<Rightarrow> bool" where
  "literal_eq a b =
     (case (a, b) of (LitKnown (KnownNumber m), LitKnown (KnownNumber n)) \<Rightarrow> num_eq m n | _ \<Rightarrow> a = b)"

definition expression_eq :: "source_expression \<Rightarrow> source_expression \<Rightarrow> bool" where
  "expression_eq a b \<longleftrightarrow>
     sx_source a = sx_source b \<and> sx_syntax_kind a = sx_syntax_kind b \<and> sx_display a = sx_display b \<and>
     sx_capture a = sx_capture b \<and>
     (case (sx_literal a, sx_literal b) of
        (Some x, Some y) \<Rightarrow> literal_eq x y | (None, None) \<Rightarrow> True | _ \<Rightarrow> False)"

definition syntax_ok :: "definition_kind \<Rightarrow> string \<Rightarrow> bool" where
  "syntax_ok k syn =
     (case k of
        DkLiteral \<Rightarrow> syn \<in> {''true'', ''false'', ''null'', ''string'', ''number''}
      | DkIdentifier _ \<Rightarrow> syn \<in> {''identifier'', ''shorthand_property_identifier'', ''this''}
      | DkPropertyName \<Rightarrow> syn \<in> {''property_identifier'', ''identifier''}
      | DkMember _ _ computed _ _ \<Rightarrow> syn = (if computed then ''subscript_expression'' else ''member_expression'')
      | DkParenthesized _ \<Rightarrow> syn = ''parenthesized_expression''
      | DkUnary _ _ \<Rightarrow> syn = ''unary_expression''
      | DkBinary _ _ _ \<Rightarrow> syn = ''binary_expression''
      | DkLogical _ _ _ \<Rightarrow> syn = ''binary_expression''
      | DkUnsupported _ \<Rightarrow> True)"

definition literal_coherent :: "source_expression \<Rightarrow> bool" where
  "literal_coherent x =
     (let syn = sx_syntax_kind x in
      case sx_literal x of
        Some (LitKnown l) \<Rightarrow>
          (case l of
             KnownBoolean b \<Rightarrow> syn = (if b then ''true'' else ''false'')
           | KnownString _ \<Rightarrow> syn = ''string''
           | KnownNumber _ \<Rightarrow> syn = ''number''
           | KnownNull \<Rightarrow> syn = ''null'')
      | Some (LitWithheld k _) \<Rightarrow>
          (case k of
             LkBoolean \<Rightarrow> syn = ''true'' \<or> syn = ''false''
           | LkString \<Rightarrow> syn = ''string''
           | LkNumber \<Rightarrow> syn = ''number''
           | LkNull \<Rightarrow> syn = ''null'')
      | None \<Rightarrow> False)"

definition is_unresolved :: "dependency_resolution \<Rightarrow> bool" where
  "is_unresolved d = (case d of ResUnresolved _ \<Rightarrow> True | _ \<Rightarrow> False)"

text \<open>One prerequisite, used for the first time, at the node that cites it.\<close>

definition take_dependency ::
  "definition_dependency list \<Rightarrow> evidence_ref \<Rightarrow> nat list \<Rightarrow> nat \<Rightarrow> (rule_error, definition_dependency \<times> nat list) result" where
  "take_dependency deps src used index =
     (if index \<in> set used then Inl (invalid ''reused_dependency'')
      else if index \<ge> length deps then Inl (invalid ''dependency_index'')
      else if dd_source (deps ! index) \<noteq> src then Inl (invalid ''dependency_occurrence'')
      else Inr (deps ! index, index # used))"

definition node_parts ::
  "definition_dependency list \<Rightarrow> string list \<Rightarrow> definition_node list \<Rightarrow> definition_node \<Rightarrow> nat list
     \<Rightarrow> (rule_error, nat list \<times> nat list) result" where
  "node_parts deps gaps nodes node used =
     (let src = sx_source (dn_expression node) in
      case dn_kind node of
        DkLiteral \<Rightarrow> if literal_coherent (dn_expression node) then Inr ([], used) else Inl (invalid ''literal_node'')
      | DkIdentifier i \<Rightarrow>
          rbind (take_dependency deps src used i) (\<lambda>(dep, used').
            if sx_syntax_kind (dn_expression node) = ''this'' \<and> \<not> is_unresolved (dd_resolution dep)
            then Inl (invalid ''runtime_input'') else Inr ([], used'))
      | DkPropertyName \<Rightarrow> Inr ([], used)
      | DkMember object property computed _ i \<Rightarrow>
          rbind (take_dependency deps src used i) (\<lambda>(dep, used').
            if \<not> is_unresolved (dd_resolution dep) then Inl (invalid ''member_value'')
            else if property \<ge> length nodes then Inl (invalid ''property_index'')
            else if computed = (dn_kind (nodes ! property) = DkPropertyName) then Inl (invalid ''property_kind'')
            else Inr ([object, property], used'))
      | DkParenthesized x \<Rightarrow> Inr ([x], used)
      | DkUnary _ x \<Rightarrow> Inr ([x], used)
      | DkBinary _ l r \<Rightarrow> Inr ([l, r], used)
      | DkLogical _ l r \<Rightarrow> Inr ([l, r], used)
      | DkUnsupported g \<Rightarrow>
          rbind (rule_bounded_id g) (\<lambda>_. if g \<in> set gaps then Inr ([], used) else Inl (invalid ''unsupported_gap'')))"

text \<open>Children lie inside their parent and one after the other.\<close>

fun child_spans ::
  "definition_node list \<Rightarrow> evidence_ref \<Rightarrow> u64 option \<Rightarrow> nat list \<Rightarrow> (rule_error, unit) result" where
  "child_spans nodes parent previous_end [] = Inr ()"
| "child_spans nodes parent previous_end (c # cs) =
     (if c \<ge> length nodes then Inl (invalid ''arena_index'')
      else (let src = sx_source (dn_expression (nodes ! c)) in
            if \<not> span_contains parent src \<or>
               (case previous_end of None \<Rightarrow> False | Some e \<Rightarrow> e > ev_byte_start src)
            then Inl (invalid ''child_span'')
            else child_spans nodes parent (Some (ev_byte_end src)) cs))"

text \<open>Entering a node: its children and the prerequisites used so far.\<close>

definition enter_node ::
  "local_definition \<Rightarrow> evidence_ref \<Rightarrow> string list \<Rightarrow> nat \<Rightarrow> nat list \<Rightarrow> (rule_error, nat list \<times> nat list) result" where
  "enter_node d primary gaps index used =
     (let nodes = dx_nodes (ld_expression d); node = nodes ! index in
      rbind (checked_expression (dn_expression node) primary) (\<lambda>_.
      rbind (rule_require (invalid ''expression_kind'') (syntax_ok (dn_kind node) (sx_syntax_kind (dn_expression node)))) (\<lambda>_.
      rbind (node_parts (ld_dependencies d) gaps nodes node used) (\<lambda>(children, used').
      rbind (child_spans nodes (sx_source (dn_expression node)) None children) (\<lambda>_. Inr (children, used'))))))"

text \<open>The depth-first walk with its explicit stack, top first. A node is left after its children.\<close>

function arena_loop ::
  "local_definition \<Rightarrow> evidence_ref \<Rightarrow> string list \<Rightarrow> (nat \<times> nat \<times> bool) list \<Rightarrow> nat list \<Rightarrow> nat list \<Rightarrow> nat list
     \<Rightarrow> (rule_error, nat list \<times> nat list) result" where
  "arena_loop d primary gaps pending active visited used =
     (case pending of
        [] \<Rightarrow> Inr (visited, used)
      | (index, depth, leaving) # rest \<Rightarrow>
          if leaving then arena_loop d primary gaps rest (removeAll index active) visited used
          else if depth > MAX_DEFINITION_EXPRESSION_DEPTH then Inl (RuleLimit ''expression_depth'')
          else if index \<in> set active \<or> index \<in> set visited then Inl (invalid ''arena_cycle_or_reuse'')
          else if index \<ge> length (dx_nodes (ld_expression d)) then Inl (invalid ''arena_index'')
          else (case enter_node d primary gaps index used of
                  Inl e \<Rightarrow> Inl e
                | Inr (children, used') \<Rightarrow>
                    arena_loop d primary gaps
                      (map (\<lambda>c. (c, depth + 1, False)) children @ (index, depth, True) # rest)
                      (index # active) (index # visited) used'))"
  by pat_completeness auto
termination
  by (relation "measures
      [\<lambda>(d, primary, gaps, pending, active, visited, used). card ({..<length (dx_nodes (ld_expression d))} - set visited),
       \<lambda>(d, primary, gaps, pending, active, visited, used). length pending]")
    (auto simp: not_le card_gt_0_iff intro!: diff_less)

declare arena_loop.simps [simp del]

definition arena :: "local_definition \<Rightarrow> evidence_ref \<Rightarrow> string list \<Rightarrow> (rule_error, unit) result" where
  "arena d primary gaps =
     (let root = dx_root (ld_expression d); nodes = dx_nodes (ld_expression d) in
      if root \<ge> length nodes \<or> \<not> expression_eq (dn_expression (nodes ! root)) (ld_initializer d)
      then Inl (invalid ''initializer_root'')
      else rbind (arena_loop d primary gaps [(root, 1, False)] [] [] []) (\<lambda>(visited, used).
             if length visited \<noteq> length nodes then Inl (invalid ''unreachable_expression'')
             else if length used \<noteq> length (ld_dependencies d) then Inl (invalid ''unused_dependency'')
             else Inr ()))"

section \<open>Links between definitions\<close>

record link_state =
  lk_uses :: "(u64 \<times> u64) list list"
  lk_edges :: "nat list list"
  lk_seeds :: "nat list"

definition usage_key :: "evidence_ref \<Rightarrow> u64 \<times> u64" where
  "usage_key r = (ev_byte_start r, ev_byte_end r)"

text \<open>
  A prerequisite that names a definition by binding id must name its declaration; when it is one of the
  definition's admitted uses it links the parent definition, or a condition, to it.
\<close>

definition observe ::
  "local_definition list \<Rightarrow> (string, nat) omap \<Rightarrow> evidence_ref \<Rightarrow> dependency_resolution \<Rightarrow> nat option \<Rightarrow> link_state
     \<Rightarrow> (rule_error, link_state) result" where
  "observe definitions indices src res parent st =
     (case res of
        ResBinding i decl \<Rightarrow>
          (case om_get indices i of
             None \<Rightarrow> Inr st
           | Some ix \<Rightarrow>
               if decl \<noteq> ld_declaration (definitions ! ix) then Inl (invalid ''binding_declaration'')
               else if src \<notin> set (ld_uses (definitions ! ix)) then Inr st
               else (let st' = st\<lparr>lk_uses := (lk_uses st)[ix := usage_key src # lk_uses st ! ix]\<rparr> in
                     Inr (case parent of
                            Some p \<Rightarrow> st'\<lparr>lk_edges := (lk_edges st)[p := insort_insert ix (lk_edges st ! p)]\<rparr>
                          | None \<Rightarrow> st'\<lparr>lk_seeds := insort_insert ix (lk_seeds st)\<rparr>)))
      | _ \<Rightarrow> Inr st)"

definition observe_conditions ::
  "guarded_exit \<Rightarrow> local_definition list \<Rightarrow> (string, nat) omap \<Rightarrow> link_state \<Rightarrow> (rule_error, link_state) result" where
  "observe_conditions g definitions indices st =
     try_fold (\<lambda>dep st. if rd_role dep = DepCondition
                 then observe definitions indices (rd_source dep) (rd_resolution dep) None st else Inr st)
       (ge_dependencies g) st"

definition observe_inputs ::
  "local_definition list \<Rightarrow> (string, nat) omap \<Rightarrow> link_state \<Rightarrow> (rule_error, link_state) result" where
  "observe_inputs definitions indices st =
     try_fold (\<lambda>(index, d) st.
         try_fold (\<lambda>dep st. observe definitions indices (dd_source dep) (dd_resolution dep) (Some index) st)
           (ld_dependencies d) st)
       (List.enumerate 0 definitions) st"

text \<open>The definitions a definition's initializer uses; an index is always one of the list.\<close>

definition edges_of :: "nat list list \<Rightarrow> nat \<Rightarrow> nat list" where
  "edges_of edges index = (if index < length edges then edges ! index else [])"

lemma edges_of_length: "length (edges_of edges index) \<le> sum_list (map length edges)"
  by (auto simp: edges_of_def intro: member_le_sum_list)

text \<open>The walk along chains of definitions, each stack entry with the path that led to it.\<close>

function chain_loop ::
  "nat list list \<Rightarrow> (nat \<times> nat list) list \<Rightarrow> nat list \<Rightarrow> (rule_error, nat list) result" where
  "chain_loop edges pending seen =
     (case pending of
        [] \<Rightarrow> Inr seen
      | (index, path) # rest \<Rightarrow>
          if index \<in> set path then Inl (invalid ''definition_cycle'')
          else if length (path @ [index]) > MAX_DEFINITION_CHAIN_DEPTH then Inl (RuleLimit ''definition_chain'')
          else chain_loop edges (rev (map (\<lambda>child. (child, path @ [index])) (edges_of edges index)) @ rest)
                 (List.insert index seen))"
  by pat_completeness auto
termination
proof (relation "measure (\<lambda>(edges, pending, seen).
    sum_list (map (\<lambda>(i, path). Suc (sum_list (map length edges)) ^ (5 - length path)) pending))", goal_cases)
  case (2 edges pending seen p rest index path)
  define m where "m = sum_list (map length edges)"
  define w where "w = Suc m ^ (4 - length path)"
  have le: "length path \<le> 3" using 2 by (simp add: MAX_DEFINITION_CHAIN_DEPTH_def)
  have k: "Suc m ^ (5 - length path) = Suc m * w"
  proof -
    have "5 - length path = Suc (4 - length path)" using le by simp
    then show ?thesis by (simp only: w_def power_Suc)
  qed
  have "sum_list (map (\<lambda>(i, path). Suc m ^ (5 - length path)) (rev (map (\<lambda>child. (child, path @ [index])) (edges_of edges index)))) =
      length (edges_of edges index) * w"
    by (simp add: rev_map [symmetric] comp_def sum_list_replicate w_def map_replicate_const)
  also have "\<dots> \<le> m * w" using edges_of_length by (simp add: m_def)
  also have "\<dots> < Suc m * w" by (simp add: w_def)
  finally show ?case using 2 k by (auto simp: m_def [symmetric])
qed simp

declare chain_loop.simps [simp del]

definition links ::
  "guarded_exit \<Rightarrow> local_definition list \<Rightarrow> (string, nat) omap \<Rightarrow> (rule_error, unit) result" where
  "links g definitions indices =
     (let n = length definitions;
          st0 = \<lparr>lk_uses = replicate n [], lk_edges = replicate n [], lk_seeds = []\<rparr> in
      rbind (observe_conditions g definitions indices st0) (\<lambda>st1.
      rbind (observe_inputs definitions indices st1) (\<lambda>st.
      rbind (check_all (\<lambda>(index, d). rule_require (invalid ''unjustified_use'')
                (set (lk_uses st ! index) = set (map usage_key (ld_uses d)))) (List.enumerate 0 definitions)) (\<lambda>_.
      rbind (chain_loop (lk_edges st) (rev (map (\<lambda>index. (index, [])) (lk_seeds st))) []) (\<lambda>seen.
        rule_require (invalid ''unreachable_definition'') (length seen = n))))))"

section \<open>Validation\<close>

text \<open>The uses of a definition, after its declaration and in strict order.\<close>

definition check_usage ::
  "local_definition \<Rightarrow> evidence_ref \<Rightarrow> evidence_ref \<Rightarrow> (u64 \<times> u64) option \<Rightarrow> (rule_error, (u64 \<times> u64) option) result" where
  "check_usage d primary usage previous =
     rbind (checked_source usage primary) (\<lambda>_.
       if (case previous of None \<Rightarrow> False | Some prior \<Rightarrow> prior \<ge> usage_key usage) \<or>
          ev_byte_end (ld_declaration d) > ev_byte_start usage
       then Inl (invalid ''definition_uses'') else Inr (Some (usage_key usage)))"

definition check_input ::
  "local_definition \<Rightarrow> evidence_ref \<Rightarrow> string list \<Rightarrow> definition_dependency \<Rightarrow> (rule_error, unit) result" where
  "check_input d primary gaps dep =
     rbind (checked_source (dd_source dep) primary) (\<lambda>_.
     rbind (rule_require (invalid ''dependency_span'') (span_contains (sx_source (ld_initializer d)) (dd_source dep))) (\<lambda>_.
       checked_resolution (dd_resolution dep) primary gaps))"

definition check_definition ::
  "evidence_ref \<Rightarrow> string list \<Rightarrow> nat \<times> local_definition \<Rightarrow> (string, nat) omap \<times> (u64 \<times> u64) list
     \<Rightarrow> (rule_error, (string, nat) omap \<times> (u64 \<times> u64) list) result" where
  "check_definition primary gaps item st =
     (case item of (index, d) \<Rightarrow> case st of (indices, declarations) \<Rightarrow>
        rbind (rule_bounded_id (ld_binding_id d)) (\<lambda>_.
        rbind (rule_require (invalid ''duplicate_definition'')
                 (om_get indices (ld_binding_id d) = None \<and> usage_key (ld_declaration d) \<notin> set declarations)) (\<lambda>_.
        rbind (checked_source (ld_declaration d) primary) (\<lambda>_.
        rbind (checked_expression (ld_initializer d) primary) (\<lambda>_.
        rbind (rule_require (invalid ''initializer_span'')
                 (span_contains (ld_declaration d) (sx_source (ld_initializer d)))) (\<lambda>_.
        rbind (rule_require (invalid ''definition_uses'') (ld_uses d \<noteq> [])) (\<lambda>_.
        rbind (try_fold (check_usage d primary) (ld_uses d) None) (\<lambda>_.
        rbind (check_all (check_input d primary gaps) (ld_dependencies d)) (\<lambda>_.
        rbind (arena d primary gaps) (\<lambda>_.
          Inr (om_put (ld_binding_id d) index indices, usage_key (ld_declaration d) # declarations)))))))))))"

definition check_gap :: "string \<Rightarrow> string list \<Rightarrow> (rule_error, string list) result" where
  "check_gap gap gaps =
     rbind (rule_bounded_id gap) (\<lambda>_. if gap \<in> set gaps then Inl (invalid ''duplicate_gap'') else Inr (gap # gaps))"

definition check_condition :: "evidence_ref \<Rightarrow> branch_condition \<Rightarrow> (rule_error, unit) result" where
  "check_condition primary c =
     rbind (checked_source (bc_branch_source c) primary) (\<lambda>_.
     rbind (checked_expression (bc_expression c) primary) (\<lambda>_.
       rule_require (invalid ''condition_span'') (span_contains (bc_branch_source c) (sx_source (bc_expression c)))))"

definition validate_definitions :: "(guarded_exit \<Rightarrow> string) \<Rightarrow> guarded_exit \<Rightarrow> (rule_error, unit) result" where
  "validate_definitions rtext g =
     (let primary = ge_exit_source g in
      rbind (collection_bounds g) (\<lambda>_.
      rbind (rule_bounded_id (ge_owner_id g)) (\<lambda>_.
      rbind (checked_source primary primary) (\<lambda>_.
      rbind (try_fold check_gap (ri_gap_ids (ge_interpretation g)) []) (\<lambda>gaps.
      rbind (check_all (check_condition primary) (ge_conditions g)) (\<lambda>_.
      rbind (case effect_value (ge_effect g) of None \<Rightarrow> Inr () | Some x \<Rightarrow> checked_expression x primary) (\<lambda>_.
      rbind (check_all (\<lambda>dep. rbind (checked_source (rd_source dep) primary) (\<lambda>_.
               checked_resolution (rd_resolution dep) primary gaps)) (ge_dependencies g)) (\<lambda>_.
      rbind (check_all (\<lambda>r. checked_source (red_source r) primary) (ge_redactions g)) (\<lambda>_.
      (case ge_local_definitions g of
         None \<Rightarrow> Inl (invalid ''local_definitions'')
       | Some definitions \<Rightarrow>
           rbind (try_fold (check_definition primary gaps) (List.enumerate 0 definitions) ([], [])) (\<lambda>(indices, _).
           rbind (links g definitions indices) (\<lambda>_. serialized_bound (rtext g)))))))))))))"

definition rule_validate :: "(guarded_exit \<Rightarrow> string) \<Rightarrow> guarded_exit \<Rightarrow> (rule_error, unit) result" where
  "rule_validate rtext g =
     rbind (if ge_schema_version g = 1
            then (if ge_local_definitions g = None then Inr () else Inl MalformedPayload)
            else if ge_schema_version g = 2 then collection_bounds g
            else Inl (UnsupportedVersion (ge_schema_version g))) (\<lambda>_.
     rbind (rule_identity (ge_owner_id g) ''owner_id'') (\<lambda>_.
     rbind (rule_span (ge_exit_source g) ''exit_source'') (\<lambda>_.
     rbind (check_all (\<lambda>c. rbind (rule_span (bc_branch_source c) ''branch_source'') (\<lambda>_.
              rule_expression (bc_expression c))) (ge_conditions g)) (\<lambda>_.
     rbind (case effect_value (ge_effect g) of None \<Rightarrow> Inr () | Some x \<Rightarrow> rule_expression x) (\<lambda>_.
     rbind (check_all (\<lambda>dep. rbind (rule_span (rd_source dep) ''dependency.source'') (\<lambda>_.
              basic_resolution (rd_resolution dep))) (ge_dependencies g)) (\<lambda>_.
     rbind (check_all (\<lambda>gap. rule_identity gap ''interpretation.gap_id'') (ri_gap_ids (ge_interpretation g))) (\<lambda>_.
     rbind (check_all (\<lambda>r. rule_span (red_source r) ''redaction.source'') (ge_redactions g)) (\<lambda>_.
       if ge_schema_version g = 2 then validate_definitions rtext g else Inr ()))))))))"

definition schema_version_of :: "json \<Rightarrow> nat option" where
  "schema_version_of v =
     (case jget v ''schema_version'' of
        Some (JNum (PosInt w)) \<Rightarrow> if unat w < 2 ^ 32 then Some (unat w) else None
      | _ \<Rightarrow> None)"

definition rule_from_value ::
  "(json \<Rightarrow> string) \<Rightarrow> (guarded_exit \<Rightarrow> string) \<Rightarrow> (json \<Rightarrow> guarded_exit option) \<Rightarrow> json \<Rightarrow> (rule_error, guarded_exit) result" where
  "rule_from_value vtext rtext dec v =
     (case schema_version_of v of
        None \<Rightarrow> Inl MalformedPayload
      | Some version \<Rightarrow>
          rbind (if version = 1 then (if jget v ''local_definitions'' \<noteq> None then Inl MalformedPayload else Inr ())
                 else if version = 2 then definition_preflight vtext v
                 else Inl (UnsupportedVersion version)) (\<lambda>_.
            case dec v of
              None \<Rightarrow> Inl MalformedPayload
            | Some g \<Rightarrow> rbind (rule_validate rtext g) (\<lambda>_. Inr g)))"

end
