(* ===== verification/Rule_Props.thy ===== *)
theory Rule_Props
  imports Rule_Evidence "HOL-Library.Multiset"
begin

text \<open>
  What a payload that validates is: the arena of every definition is a tree over its nodes with one use
  of every prerequisite, chains of definitions are acyclic and short and start at a condition, a payload
  that is read is bounded as a whole, and the traversal of source references misses none.
\<close>

lemma rule_require_iff [simp]: "rule_require e ok = Inr u \<longleftrightarrow> ok"
  by (simp add: rule_require_def)

lemma check_all_iff: "check_all f xs = Inr u \<longleftrightarrow> (\<forall>x \<in> set xs. f x = Inr ())"
  by (induction xs) (auto simp: check_all_def rbind_eq_Inr)

section \<open>The arena is a tree\<close>

definition node_children :: "definition_kind \<Rightarrow> nat list" where
  "node_children k =
     (case k of
        DkMember o' p _ _ _ \<Rightarrow> [o', p]
      | DkParenthesized x \<Rightarrow> [x]
      | DkUnary _ x \<Rightarrow> [x]
      | DkBinary _ l r \<Rightarrow> [l, r]
      | DkLogical _ l r \<Rightarrow> [l, r]
      | _ \<Rightarrow> [])"

definition node_inputs :: "definition_kind \<Rightarrow> nat list" where
  "node_inputs k = (case k of DkIdentifier i \<Rightarrow> [i] | DkMember _ _ _ _ i \<Rightarrow> [i] | _ \<Rightarrow> [])"

definition kids :: "local_definition \<Rightarrow> nat \<Rightarrow> nat list" where
  "kids d i = node_children (dn_kind (dx_nodes (ld_expression d) ! i))"

definition inputs :: "local_definition \<Rightarrow> nat \<Rightarrow> nat list" where
  "inputs d i = node_inputs (dn_kind (dx_nodes (ld_expression d) ! i))"

definition node_source :: "local_definition \<Rightarrow> nat \<Rightarrow> evidence_ref" where
  "node_source d i = sx_source (dn_expression (dx_nodes (ld_expression d) ! i))"

inductive at_depth :: "local_definition \<Rightarrow> nat \<Rightarrow> nat \<Rightarrow> bool" for d where
  root: "at_depth d 1 (dx_root (ld_expression d))"
| child: "at_depth d k i \<Longrightarrow> c \<in> set (kids d i) \<Longrightarrow> at_depth d (k + 1) c"

text \<open>What one node satisfies: its children in range, inside it and in order, its inputs at its own span.\<close>

definition node_ok :: "local_definition \<Rightarrow> nat \<Rightarrow> bool" where
  "node_ok d i \<longleftrightarrow>
     (\<forall>c \<in> set (kids d i). c < length (dx_nodes (ld_expression d)) \<and> span_contains (node_source d i) (node_source d c)) \<and>
     successively (\<lambda>a b. ev_byte_end (node_source d a) \<le> ev_byte_start (node_source d b)) (kids d i) \<and>
     (\<forall>k \<in> set (inputs d i). k < length (ld_dependencies d) \<and> dd_source (ld_dependencies d ! k) = node_source d i)"

lemma node_parts_ok:
  assumes "node_parts deps gaps nodes node used = Inr (children, used')"
  shows "children = node_children (dn_kind node)" "used' = node_inputs (dn_kind node) @ used"
    "\<forall>k \<in> set (node_inputs (dn_kind node)). k < length deps \<and> k \<notin> set used \<and>
       dd_source (deps ! k) = sx_source (dn_expression node)"
proof -
  have take: "take_dependency deps src used i = Inr (dep, u) \<longleftrightarrow>
      i \<notin> set used \<and> i < length deps \<and> dd_source (deps ! i) = src \<and> dep = deps ! i \<and> u = i # used" for src i dep u
    by (auto simp: take_dependency_def)
  show "children = node_children (dn_kind node)" "used' = node_inputs (dn_kind node) @ used"
    "\<forall>k \<in> set (node_inputs (dn_kind node)). k < length deps \<and> k \<notin> set used \<and>
       dd_source (deps ! k) = sx_source (dn_expression node)"
    using assms unfolding node_parts_def Let_def node_children_def node_inputs_def
    by (cases "dn_kind node"; force simp: rbind_eq_Inr take split: if_split_asm)+
qed

lemma child_spans_ok:
  "child_spans nodes parent prev cs = Inr u \<Longrightarrow>
     (\<forall>c \<in> set cs. c < length nodes \<and> span_contains parent (sx_source (dn_expression (nodes ! c)))) \<and>
     successively (\<lambda>a b. ev_byte_end (sx_source (dn_expression (nodes ! a))) \<le>
       ev_byte_start (sx_source (dn_expression (nodes ! b)))) cs \<and>
     (case cs of [] \<Rightarrow> True | c # _ \<Rightarrow>
       (case prev of None \<Rightarrow> True | Some e \<Rightarrow> e \<le> ev_byte_start (sx_source (dn_expression (nodes ! c)))))"
proof (induction cs arbitrary: prev)
  case (Cons c cs)
  define src where "src = (\<lambda>i. sx_source (dn_expression (nodes ! i)))"
  from Cons.prems have c: "c < length nodes" "span_contains parent (src c)"
    "case prev of None \<Rightarrow> True | Some e \<Rightarrow> e \<le> ev_byte_start (src c)"
    and rest: "child_spans nodes parent (Some (ev_byte_end (src c))) cs = Inr u"
    by (auto simp: Let_def src_def not_less split: if_splits option.splits)
  from Cons.IH [OF rest] c show ?case
    by (cases cs) (auto simp: src_def successively_Cons split: option.splits)
qed simp

lemma enter_node_ok:
  assumes "enter_node d primary gaps i used = Inr (children, used')"
  shows "children = kids d i" "used' = inputs d i @ used" "\<forall>k \<in> set (inputs d i). k \<notin> set used" "node_ok d i"
proof -
  define nodes where "nodes = dx_nodes (ld_expression d)"
  from assms obtain parts: "node_parts (ld_dependencies d) gaps nodes (nodes ! i) used = Inr (children, used')"
    and spans: "child_spans nodes (sx_source (dn_expression (nodes ! i))) None children = Inr ()"
    by (auto simp: enter_node_def Let_def rbind_eq_Inr nodes_def)
  note p = node_parts_ok [OF parts]
  show "children = kids d i" "used' = inputs d i @ used" "\<forall>k \<in> set (inputs d i). k \<notin> set used"
    using p by (simp_all add: kids_def inputs_def nodes_def)
  show "node_ok d i"
    using child_spans_ok [OF spans] p by (simp add: node_ok_def kids_def inputs_def node_source_def nodes_def)
qed

text \<open>
  The invariant of the walk. The nodes visited and those on the stack are, counted with multiplicity, the root
  and the children of the visited nodes.
\<close>

definition entering :: "(nat \<times> nat \<times> bool) list \<Rightarrow> nat list" where
  "entering pending = map fst (filter (\<lambda>(_, _, leaving). \<not> leaving) pending)"

definition arena_inv :: "local_definition \<Rightarrow> (nat \<times> nat \<times> bool) list \<Rightarrow> nat list \<Rightarrow> nat list \<Rightarrow> bool" where
  "arena_inv d pending visited used \<longleftrightarrow>
     distinct visited \<and> set visited \<subseteq> {..<length (dx_nodes (ld_expression d))} \<and>
     mset visited + mset (entering pending) =
       add_mset (dx_root (ld_expression d)) (mset (concat (map (kids d) visited))) \<and>
     mset used = mset (concat (map (inputs d) visited)) \<and> distinct used \<and>
     (\<forall>i \<in> set visited. node_ok d i \<and> (\<exists>k \<le> 8. at_depth d k i)) \<and>
     (\<forall>(i, k, leaving) \<in> set pending. at_depth d k i)"

lemma entering_simps [simp]:
  "entering [] = []"
  "entering ((i, k, True) # rest) = entering rest"
  "entering ((i, k, False) # rest) = i # entering rest"
  "entering (map (\<lambda>c. (c, k, False)) cs @ rest) = cs @ entering rest"
  by (simp_all add: entering_def comp_def filter_map)

lemma distinct_inputs: "distinct (inputs d i)"
  by (simp add: inputs_def node_inputs_def split: definition_kind.split)

lemma arena_inv_enter:
  assumes inv: "arena_inv d ((i, k, False) # rest) visited used"
    and fresh: "i \<notin> set visited" "i < length (dx_nodes (ld_expression d))" "k \<le> 8"
    and e: "enter_node d primary gaps i used = Inr (children, used')"
  shows "arena_inv d (map (\<lambda>c. (c, k + 1, False)) children @ (i, k, True) # rest) (i # visited) used'"
proof -
  note n = enter_node_ok [OF e]
  have d: "at_depth d k i" using inv by (auto simp: arena_inv_def)
  have "\<forall>c \<in> set (kids d i). at_depth d (k + 1) c" using at_depth.child [OF d] by blast
  moreover have "distinct (inputs d i @ used)" using inv n(3) distinct_inputs by (auto simp: arena_inv_def)
  moreover have "mset visited + mset (i # entering rest) =
      add_mset (dx_root (ld_expression d)) (mset (concat (map (kids d) visited)))"
    using inv by (simp add: arena_inv_def)
  ultimately show ?thesis using inv fresh n d by (auto simp: arena_inv_def ac_simps)
qed

lemma arena_loop_eqs:
  "arena_loop d primary gaps [] active visited used = Inr (visited, used)"
  "arena_loop d primary gaps ((i, k, True) # rest) active visited used =
     arena_loop d primary gaps rest (removeAll i active) visited used"
  "arena_loop d primary gaps ((i, k, False) # rest) active visited used =
     (if k > 8 then Inl (RuleLimit ''expression_depth'')
      else if i \<in> set active \<or> i \<in> set visited then Inl (invalid ''arena_cycle_or_reuse'')
      else if i \<ge> length (dx_nodes (ld_expression d)) then Inl (invalid ''arena_index'')
      else (case enter_node d primary gaps i used of
              Inl e \<Rightarrow> Inl e
            | Inr (children, used') \<Rightarrow>
                arena_loop d primary gaps (map (\<lambda>c. (c, k + 1, False)) children @ (i, k, True) # rest)
                  (i # active) (i # visited) used'))"
  by (subst arena_loop.simps, simp add: MAX_DEFINITION_EXPRESSION_DEPTH_def)+

lemma arena_loop_inv:
  "arena_loop d primary gaps pending active visited used = Inr (visited', used') \<Longrightarrow>
     arena_inv d pending visited used \<Longrightarrow> arena_inv d [] visited' used'"
proof (induction d primary gaps pending active visited used arbitrary: visited' used' rule: arena_loop.induct)
  case (1 d primary gaps pending active visited used)
  show ?case
  proof (cases pending)
    case Nil
    then show ?thesis using "1.prems" by (simp add: arena_loop_eqs)
  next
    case (Cons x rest)
    obtain i k leaving where x: "x = (i, k, leaving)" by (cases x) auto
    show ?thesis
    proof (cases leaving)
      case True
      have inv: "arena_inv d rest visited used" using "1.prems"(2) Cons x True by (auto simp: arena_inv_def)
      show ?thesis
        using "1.IH"(1) [OF Cons x [symmetric] refl True _ inv] "1.prems"(1) Cons x True by (simp add: arena_loop_eqs)
    next
      case False
      then have x': "x = (i, k, False)" using x by simp
      note run = "1.prems"(1) [unfolded Cons x' arena_loop_eqs]
      from run have k: "k \<le> 8" and a: "i \<notin> set active" "i \<notin> set visited"
        and b: "i < length (dx_nodes (ld_expression d))" by (auto split: if_splits)
      obtain children used1 where e: "enter_node d primary gaps i used = Inr (children, used1)"
        using run k a b by (cases "enter_node d primary gaps i used") auto
      have inv: "arena_inv d (map (\<lambda>c. (c, k + 1, False)) children @ (i, k, True) # rest) (i # visited) used1"
        using "1.prems"(2) Cons x False by (intro arena_inv_enter [OF _ a(2) b k e]) simp
      have "arena_loop d primary gaps (map (\<lambda>c. (c, k + 1, False)) children @ (i, k, True) # rest) (i # active)
          (i # visited) used1 = Inr (visited', used')"
        using run k a b e by simp
      then show ?thesis
        using "1.IH"(2) [OF Cons x [symmetric] refl False _ _ _ e refl _ inv] k a b
        by (simp add: MAX_DEFINITION_EXPRESSION_DEPTH_def)
    qed
  qed
qed

lemma distinct_full:
  assumes "distinct xs" "set xs \<subseteq> {..<n}" "length xs = n"
  shows "mset xs = mset [0 ..< n]"
proof -
  have "set xs = {..<n}" using assms by (intro card_subset_eq) (simp_all add: distinct_card)
  then have "set xs = set [0 ..< n]" by (simp only: set_upt lessThan_atLeast0)
  then show ?thesis using set_eq_iff_mset_eq_distinct [of xs "[0 ..< n]"] assms(1) distinct_upt by blast
qed

lemma mset_concat_map_cong: "mset xs = mset ys \<Longrightarrow> mset (concat (map f xs)) = mset (concat (map f ys))"
proof -
  assume eq: "mset xs = mset ys"
  have m: "mset (concat (map f zs)) = \<Sum>\<^sub># (image_mset (mset \<circ> f) (mset zs))" for zs :: "'a list" and f :: "'a \<Rightarrow> 'b list"
    by (induction zs) simp_all
  show "mset (concat (map f xs)) = mset (concat (map f ys))" unfolding m eq ..
qed

lemma arena_tree:
  assumes "arena d primary gaps = Inr ()"
  shows "mset (dx_root (ld_expression d) # concat (map (kids d) [0 ..< length (dx_nodes (ld_expression d))])) =
      mset [0 ..< length (dx_nodes (ld_expression d))]"
    "mset (concat (map (inputs d) [0 ..< length (dx_nodes (ld_expression d))])) = mset [0 ..< length (ld_dependencies d)]"
    "\<forall>i < length (dx_nodes (ld_expression d)). node_ok d i \<and> (\<exists>k \<le> 8. at_depth d k i)"
    "expression_eq (dn_expression (dx_nodes (ld_expression d) ! dx_root (ld_expression d))) (ld_initializer d)"
proof -
  define n where "n = length (dx_nodes (ld_expression d))"
  obtain visited used where
    run: "arena_loop d primary gaps [(dx_root (ld_expression d), 1, False)] [] [] [] = Inr (visited, used)"
    and len: "length visited = n" "length used = length (ld_dependencies d)"
    using assms by (auto simp: arena_def Let_def rbind_eq_Inr n_def split: if_splits)
  show "expression_eq (dn_expression (dx_nodes (ld_expression d) ! dx_root (ld_expression d))) (ld_initializer d)"
    using assms by (auto simp: arena_def Let_def split: if_splits)
  have "arena_inv d [(dx_root (ld_expression d), 1, False)] [] []"
    using at_depth.root by (simp add: arena_inv_def)
  from arena_loop_inv [OF run this] have inv: "arena_inv d [] visited used" .
  then have v: "mset visited = mset [0 ..< n]"
    using len by (intro distinct_full) (auto simp: arena_inv_def n_def)
  have all: "set visited = {..<n}" using mset_eq_setD [OF v] by (simp only: set_upt lessThan_atLeast0)
  note kv = mset_concat_map_cong [OF v, of "kids d"] and iv = mset_concat_map_cong [OF v, of "inputs d"]
  show "mset (dx_root (ld_expression d) # concat (map (kids d) [0 ..< length (dx_nodes (ld_expression d))])) =
      mset [0 ..< length (dx_nodes (ld_expression d))]"
    using inv v kv unfolding n_def [symmetric] by (simp add: arena_inv_def del: mset_upt)
  show nodes: "\<forall>i < length (dx_nodes (ld_expression d)). node_ok d i \<and> (\<exists>k \<le> 8. at_depth d k i)"
    using inv all by (auto simp: arena_inv_def n_def)
  have "set used \<subseteq> {..<length (ld_dependencies d)}"
  proof
    fix k assume "k \<in> set used"
    then have "k \<in> set (concat (map (inputs d) visited))" using inv unfolding arena_inv_def by (metis set_mset_mset)
    then show "k \<in> {..<length (ld_dependencies d)}" using inv by (auto simp: arena_inv_def node_ok_def)
  qed
  then have "mset used = mset [0 ..< length (ld_dependencies d)]"
    using inv len by (intro distinct_full) (auto simp: arena_inv_def)
  then show "mset (concat (map (inputs d) [0 ..< length (dx_nodes (ld_expression d))])) = mset [0 ..< length (ld_dependencies d)]"
    using inv iv unfolding n_def [symmetric] by (simp add: arena_inv_def del: mset_upt)
qed

section \<open>Chains of definitions\<close>

text \<open>A chain of links: it starts at a seed and follows the edges.\<close>

fun follows :: "nat list list \<Rightarrow> nat list \<Rightarrow> bool" where
  "follows edges [] = True"
| "follows edges [i] = True"
| "follows edges (i # j # js) \<longleftrightarrow> j \<in> set (edges_of edges i) \<and> follows edges (j # js)"

lemma chain_loop_eqs:
  "chain_loop edges [] seen = Inr seen"
  "chain_loop edges ((i, path) # rest) seen =
     (if i \<in> set path then Inl (invalid ''definition_cycle'')
      else if length (path @ [i]) > 4 then Inl (RuleLimit ''definition_chain'')
      else chain_loop edges (rev (map (\<lambda>c. (c, path @ [i])) (edges_of edges i)) @ rest) (List.insert i seen))"
  by (subst chain_loop.simps, simp add: MAX_DEFINITION_CHAIN_DEPTH_def)+

text \<open>What acceptance means for the stack: every continuation of every entry is short and repeats nothing.\<close>

lemma chain_loop_bounds:
  "chain_loop edges pending seen = Inr seen' \<Longrightarrow> (i, path) \<in> set pending \<Longrightarrow> distinct path \<Longrightarrow>
     follows edges (i # js) \<Longrightarrow> length (path @ i # js) \<le> 4 \<and> distinct (path @ i # js)"
proof (induction edges pending seen arbitrary: i path js seen' rule: chain_loop.induct)
  case (1 edges pending seen)
  obtain i0 p0 rest where pend: "pending = (i0, p0) # rest" using "1.prems"(2) by (cases pending) auto
  from "1.prems"(1) [unfolded pend chain_loop_eqs]
  have ok: "i0 \<notin> set p0" "length (p0 @ [i0]) \<le> 4"
    and run: "chain_loop edges (rev (map (\<lambda>c. (c, p0 @ [i0])) (edges_of edges i0)) @ rest) (List.insert i0 seen) = Inr seen'"
    by (auto split: if_splits)
  have IH: "length (path' @ i' # js') \<le> 4 \<and> distinct (path' @ i' # js')"
    if "(i', path') \<in> set (rev (map (\<lambda>c. (c, p0 @ [i0])) (edges_of edges i0)) @ rest)" "distinct path'" "follows edges (i' # js')"
    for i' path' js'
    using "1.IH" [OF pend refl ok(1) _ run that] ok(2) by (simp add: MAX_DEFINITION_CHAIN_DEPTH_def)
  show ?case
  proof (cases "(i, path) \<in> set rest")
    case True
    then show ?thesis using IH [of i path js] "1.prems"(3,4) by auto
  next
    case False
    then have eq: "i = i0" "path = p0" using "1.prems"(2) pend by auto
    show ?thesis
    proof (cases js)
      case Nil
      then show ?thesis using ok "1.prems"(3) by (simp add: eq)
    next
      case (Cons j js')
      then have "(j, p0 @ [i0]) \<in> set (rev (map (\<lambda>c. (c, p0 @ [i0])) (edges_of edges i0)) @ rest)" "follows edges (j # js')"
        using "1.prems"(4) by (auto simp: eq)
      from IH [OF this(1) _ this(2)] show ?thesis using ok(1) "1.prems"(3) by (simp add: eq Cons)
    qed
  qed
qed

text \<open>Everything seen is the end of a chain from the stack.\<close>

lemma chain_loop_seen:
  "chain_loop edges pending seen = Inr seen' \<Longrightarrow> distinct seen \<Longrightarrow>
     distinct seen' \<and> (\<forall>j \<in> set seen'. j \<in> set seen \<or>
       (\<exists>i path js. (i, path) \<in> set pending \<and> follows edges (i # js) \<and> last (i # js) = j))"
proof (induction edges pending seen arbitrary: seen' rule: chain_loop.induct)
  case (1 edges pending seen)
  show ?case
  proof (cases pending)
    case Nil
    then show ?thesis using "1.prems" by (simp add: chain_loop_eqs)
  next
    case (Cons x rest)
    obtain i0 p0 where x: "x = (i0, p0)" by (cases x)
    from "1.prems"(1) [unfolded Cons x chain_loop_eqs]
    have ok: "i0 \<notin> set p0" "length (p0 @ [i0]) \<le> 4"
      and run: "chain_loop edges (rev (map (\<lambda>c. (c, p0 @ [i0])) (edges_of edges i0)) @ rest) (List.insert i0 seen) = Inr seen'"
      by (auto split: if_splits)
    have IH: "distinct seen'" "\<forall>j \<in> set seen'. j = i0 \<or> j \<in> set seen \<or>
        (\<exists>i path js. (i, path) \<in> set (rev (map (\<lambda>c. (c, p0 @ [i0])) (edges_of edges i0)) @ rest) \<and>
           follows edges (i # js) \<and> last (i # js) = j)"
      using "1.IH" [OF Cons x [symmetric] ok(1) _ run] ok(2) "1.prems"(2)
      by (auto simp: MAX_DEFINITION_CHAIN_DEPTH_def)
    have "j \<in> set seen \<or> (\<exists>i path js. (i, path) \<in> set pending \<and> follows edges (i # js) \<and> last (i # js) = j)"
      if "j \<in> set seen'" for j
    proof -
      consider "j = i0" | "j \<in> set seen" | i path js where
        "(i, path) \<in> set (rev (map (\<lambda>c. (c, p0 @ [i0])) (edges_of edges i0)) @ rest)" "follows edges (i # js)" "last (i # js) = j"
        using IH(2) \<open>j \<in> set seen'\<close> by blast
      then show ?thesis
      proof cases
        case 1
        then have "(i0, p0) \<in> set pending \<and> follows edges (i0 # []) \<and> last (i0 # []) = j" by (simp add: Cons x)
        then show ?thesis by blast
      next
        case 3
        show ?thesis
        proof (cases "(i, path) \<in> set rest")
          case True
          then have "(i, path) \<in> set pending \<and> follows edges (i # js) \<and> last (i # js) = j" using 3 by (simp add: Cons)
          then show ?thesis by blast
        next
          case False
          then have "(i0, p0) \<in> set pending \<and> follows edges (i0 # i # js) \<and> last (i0 # i # js) = j"
            using 3 by (auto simp: Cons x)
          then show ?thesis by blast
        qed
      qed blast
    qed
    then show ?thesis using IH(1) by blast
  qed
qed

section \<open>The links of a rule\<close>

lemma try_fold_map: "try_fold f (map h xs) s = try_fold (\<lambda>x. f (h x)) xs s"
proof (induction xs arbitrary: s)
  case (Cons x xs)
  then show ?case by (cases "f (h x) s") simp_all
qed simp

lemma try_fold_filter: "try_fold f (filter P xs) s = try_fold (\<lambda>x s. if P x then f x s else Inr s) xs s"
proof (induction xs arbitrary: s)
  case (Cons x xs)
  then show ?case by (cases "f x s") simp_all
qed simp

lemma try_fold_concat: "try_fold f (concat (map h xs)) s = try_fold (\<lambda>x. try_fold f (h x)) xs s"
proof (induction xs arbitrary: s)
  case (Cons x xs)
  then show ?case by (cases "try_fold f (h x) s") (simp_all add: try_fold_append)
qed simp

type_synonym observation = "evidence_ref \<times> dependency_resolution \<times> nat option"

definition observations :: "guarded_exit \<Rightarrow> local_definition list \<Rightarrow> observation list" where
  "observations g defs =
     map (\<lambda>dep. (rd_source dep, rd_resolution dep, None)) (filter (\<lambda>dep. rd_role dep = DepCondition) (ge_dependencies g)) @
     concat (map (\<lambda>(index, d). map (\<lambda>dep. (dd_source dep, dd_resolution dep, Some index)) (ld_dependencies d))
       (List.enumerate 0 defs))"

lemma observe_all:
  "rbind (observe_conditions g defs indices st) (observe_inputs defs indices) =
     try_fold (\<lambda>(src, res, parent). observe defs indices src res parent) (observations g defs) st"
  unfolding observations_def try_fold_append observe_conditions_def observe_inputs_def try_fold_map try_fold_filter
    try_fold_concat
  by (simp add: case_prod_unfold try_fold_map [abs_def] fun_eq_iff [symmetric] cong: if_cong)

text \<open>The definitions a prerequisite links to.\<close>

definition link_targets ::
  "local_definition list \<Rightarrow> (string, nat) omap \<Rightarrow> evidence_ref \<Rightarrow> dependency_resolution \<Rightarrow> nat set" where
  "link_targets defs indices src res =
     {ix. \<exists>i decl. res = ResBinding i decl \<and> om_get indices i = Some ix \<and> src \<in> set (ld_uses (defs ! ix))}"

lemma observe_effect:
  assumes "observe defs indices src res parent st = Inr st'" "\<forall>i j. om_get indices i = Some j \<longrightarrow> j < length defs"
    and "length (lk_edges st) = length defs" "\<forall>p. parent = Some p \<longrightarrow> p < length defs"
  shows "length (lk_edges st') = length defs"
    "set (lk_seeds st') = set (lk_seeds st) \<union> (if parent = None then link_targets defs indices src res else {})"
    "p < length defs \<Longrightarrow> set (lk_edges st' ! p) =
       set (lk_edges st ! p) \<union> (if parent = Some p then link_targets defs indices src res else {})"
proof -
  have out: "(st' = st \<and> link_targets defs indices src res = {}) \<or>
      (\<exists>ix. link_targets defs indices src res = {ix} \<and>
        (case parent of
           Some p \<Rightarrow> lk_edges st' = (lk_edges st)[p := insort_insert ix (lk_edges st ! p)] \<and> lk_seeds st' = lk_seeds st
         | None \<Rightarrow> lk_edges st' = lk_edges st \<and> lk_seeds st' = insort_insert ix (lk_seeds st)))"
  proof (cases "\<exists>ix. ix \<in> link_targets defs indices src res")
    case False
    then have "link_targets defs indices src res = {}" by blast
    moreover have "st' = st"
      using assms(1) False
      by (auto simp: observe_def link_targets_def Let_def split: dependency_resolution.splits option.splits if_splits)
    ultimately show ?thesis by blast
  next
    case True
    then obtain i decl ix where r: "res = ResBinding i decl" "om_get indices i = Some ix" "src \<in> set (ld_uses (defs ! ix))"
      by (auto simp: link_targets_def)
    then have "link_targets defs indices src res = {ix}" by (auto simp: link_targets_def)
    moreover have "case parent of
           Some p \<Rightarrow> lk_edges st' = (lk_edges st)[p := insort_insert ix (lk_edges st ! p)] \<and> lk_seeds st' = lk_seeds st
         | None \<Rightarrow> lk_edges st' = lk_edges st \<and> lk_seeds st' = insort_insert ix (lk_seeds st)"
      using assms(1) r by (auto simp: observe_def Let_def split: option.splits if_splits)
    ultimately show ?thesis by blast
  qed
  show "length (lk_edges st') = length defs" using out assms(3) by (auto split: option.splits)
  show "set (lk_seeds st') = set (lk_seeds st) \<union> (if parent = None then link_targets defs indices src res else {})"
    using out by (auto simp: set_insort_insert split: option.splits)
  show "set (lk_edges st' ! p) =
       set (lk_edges st ! p) \<union> (if parent = Some p then link_targets defs indices src res else {})" if "p < length defs"
    using out
  proof (elim disjE conjE exE)
    assume "st' = st" "link_targets defs indices src res = {}"
    then show ?thesis by simp
  next
    fix ix assume l: "link_targets defs indices src res = {ix}"
      and c: "case parent of
           Some p \<Rightarrow> lk_edges st' = (lk_edges st)[p := insort_insert ix (lk_edges st ! p)] \<and> lk_seeds st' = lk_seeds st
         | None \<Rightarrow> lk_edges st' = lk_edges st \<and> lk_seeds st' = insort_insert ix (lk_seeds st)"
    show ?thesis
    proof (cases parent)
      case None
      then show ?thesis using c by simp
    next
      case (Some q)
      then have e: "lk_edges st' = (lk_edges st)[q := insort_insert ix (lk_edges st ! q)]" using c by simp
      show ?thesis
      proof (cases "q = p")
        case True
        then have "lk_edges st' ! p = insort_insert ix (lk_edges st ! p)" using e that assms(3) by simp
        then show ?thesis using True Some l by (simp add: set_insort_insert)
      next
        case False
        then show ?thesis using e Some by simp
      qed
    qed
  qed
qed

lemma observe_fold:
  assumes "try_fold (\<lambda>(src, res, parent). observe defs indices src res parent) obs st = Inr st'"
    and "\<forall>i j. om_get indices i = Some j \<longrightarrow> j < length defs" "length (lk_edges st) = length defs"
    and "\<forall>(src, res, parent) \<in> set obs. \<forall>p. parent = Some p \<longrightarrow> p < length defs"
  shows "length (lk_edges st') = length defs \<and>
    set (lk_seeds st') = set (lk_seeds st) \<union> (\<Union>(src, res, parent) \<in> set obs. if parent = None then link_targets defs indices src res else {}) \<and>
    (\<forall>p < length defs. set (lk_edges st' ! p) =
       set (lk_edges st ! p) \<union> (\<Union>(src, res, parent) \<in> set obs. if parent = Some p then link_targets defs indices src res else {}))"
  using assms
proof (induction obs arbitrary: st)
  case (Cons ob obs)
  obtain src res parent where ob: "ob = (src, res, parent)" by (cases ob) auto
  from Cons.prems(1) obtain st1 where o: "observe defs indices src res parent st = Inr st1"
    and rest: "try_fold (\<lambda>(src, res, parent). observe defs indices src res parent) obs st1 = Inr st'"
    by (auto simp: ob rbind_eq_Inr)
  have par: "\<forall>p. parent = Some p \<longrightarrow> p < length defs" using Cons.prems(4) by (auto simp: ob)
  note e = observe_effect [OF o Cons.prems(2,3) par]
  have "\<forall>(src, res, parent) \<in> set obs. \<forall>p. parent = Some p \<longrightarrow> p < length defs" using Cons.prems(4) by auto
  from Cons.IH [OF rest Cons.prems(2) e(1) this] e(2,3) show ?case by (simp add: ob Un_assoc)
qed simp

text \<open>A prerequisite that is an admitted use of a definition, by a condition or by another definition.\<close>

definition names_use :: "local_definition list \<Rightarrow> evidence_ref \<Rightarrow> dependency_resolution \<Rightarrow> nat \<Rightarrow> bool" where
  "names_use defs src res j \<longleftrightarrow>
     j < length defs \<and> src \<in> set (ld_uses (defs ! j)) \<and> (\<exists>decl. res = ResBinding (ld_binding_id (defs ! j)) decl)"

definition condition_uses :: "guarded_exit \<Rightarrow> local_definition list \<Rightarrow> nat \<Rightarrow> bool" where
  "condition_uses g defs j \<longleftrightarrow>
     (\<exists>dep \<in> set (ge_dependencies g). rd_role dep = DepCondition \<and> names_use defs (rd_source dep) (rd_resolution dep) j)"

definition definition_uses :: "local_definition list \<Rightarrow> nat \<Rightarrow> nat \<Rightarrow> bool" where
  "definition_uses defs p j \<longleftrightarrow>
     p < length defs \<and> (\<exists>dep \<in> set (ld_dependencies (defs ! p)). names_use defs (dd_source dep) (dd_resolution dep) j)"

definition definition_chain :: "guarded_exit \<Rightarrow> local_definition list \<Rightarrow> nat list \<Rightarrow> bool" where
  "definition_chain g defs js \<longleftrightarrow>
     js \<noteq> [] \<and> condition_uses g defs (hd js) \<and> successively (definition_uses defs) js"

definition indexes :: "local_definition list \<Rightarrow> (string, nat) omap \<Rightarrow> bool" where
  "indexes defs indices \<longleftrightarrow>
     (\<forall>i j. om_get indices i = Some j \<longleftrightarrow> j < length defs \<and> ld_binding_id (defs ! j) = i)"

lemma link_targets_names:
  "indexes defs indices \<Longrightarrow> link_targets defs indices src res = {j. names_use defs src res j}"
  by (auto simp: link_targets_def names_use_def indexes_def)

lemma follows_successively: "follows edges js \<longleftrightarrow> successively (\<lambda>p j. j \<in> set (edges_of edges p)) js"
  by (induction edges js rule: follows.induct) auto

lemma in_enumerate: "(p, d) \<in> set (List.enumerate 0 defs) \<longleftrightarrow> p < length defs \<and> d = defs ! p"
  by (auto simp: in_set_enumerate_eq)

lemma links_chains:
  assumes ix: "indexes defs indices" and ok: "links g defs indices = Inr ()"
  shows "\<forall>js. definition_chain g defs js \<longrightarrow> length js \<le> 4 \<and> distinct js"
    "\<forall>j < length defs. \<exists>js. definition_chain g defs js \<and> last js = j"
proof -
  define st0 :: link_state where
    "st0 = \<lparr>lk_uses = replicate (length defs) [], lk_edges = replicate (length defs) [], lk_seeds = []\<rparr>"
  obtain st seen where obs: "rbind (observe_conditions g defs indices st0) (observe_inputs defs indices) = Inr st"
    and run0: "chain_loop (lk_edges st) (rev (map (\<lambda>index. (index, [])) (lk_seeds st))) [] = Inr seen"
    and len: "length seen = length defs"
    using ok by (auto simp: links_def Let_def st0_def rbind_eq_Inr)
  define pending where "pending = rev (map (\<lambda>index. (index, [] :: nat list)) (lk_seeds st))"
  have run: "chain_loop (lk_edges st) pending [] = Inr seen" using run0 by (simp add: pending_def)
  have valid: "\<forall>i j. om_get indices i = Some j \<longrightarrow> j < length defs" using ix by (auto simp: indexes_def)
  have par: "\<forall>(src, res, parent) \<in> set (observations g defs). \<forall>p. parent = Some p \<longrightarrow> p < length defs"
    by (auto simp: observations_def in_enumerate)
  note f = observe_fold [OF obs [unfolded observe_all] valid _ par]
  have el: "length (lk_edges st) = length defs" using f by (simp add: st0_def)
  have seeds: "set (lk_seeds st) = {j. condition_uses g defs j}"
    using f by (auto simp: st0_def link_targets_names [OF ix] observations_def condition_uses_def split: if_splits)
  have edges: "set (edges_of (lk_edges st) p) = {j. definition_uses defs p j}" for p
  proof (cases "p < length defs")
    case True
    have "set (lk_edges st ! p) = (\<Union>(src, res, parent) \<in> set (observations g defs).
        if parent = Some p then {j. names_use defs src res j} else {})"
      using f True unfolding link_targets_names [OF ix] by (simp add: st0_def)
    also have "\<dots> = {j. definition_uses defs p j}"
      using True unfolding observations_def definition_uses_def
      by (auto simp: in_enumerate image_iff split: if_splits intro!: bexI [of _ "(p, defs ! p)"]; blast)
    finally show ?thesis using True el by (simp add: edges_of_def)
  next
    case False
    then show ?thesis using el by (auto simp: edges_of_def definition_uses_def)
  qed
  have chain: "definition_chain g defs (j # js) \<longleftrightarrow>
      (j, []) \<in> set pending \<and> follows (lk_edges st) (j # js)" for j js
    unfolding follows_successively edges definition_chain_def using seeds by (auto simp: pending_def)
  show "\<forall>js. definition_chain g defs js \<longrightarrow> length js \<le> 4 \<and> distinct js"
  proof (intro allI impI)
    fix js assume c: "definition_chain g defs js"
    then obtain j js' where js: "js = j # js'" by (cases js) (auto simp: definition_chain_def)
    show "length js \<le> 4 \<and> distinct js"
      using chain_loop_bounds [OF run _ _ _, of j "[]" js'] c [unfolded js] chain [of j js'] unfolding js
      by (auto simp: pending_def)
  qed
  have reach: "distinct seen" "\<forall>j \<in> set seen. \<exists>js. definition_chain g defs js \<and> last js = j"
  proof -
    have s: "distinct seen \<and> (\<forall>j \<in> set seen. \<exists>i path js. (i, path) \<in> set pending \<and>
        follows (lk_edges st) (i # js) \<and> last (i # js) = j)"
      using chain_loop_seen [OF run] by simp
    show "distinct seen" using s by blast
    show "\<forall>j \<in> set seen. \<exists>js. definition_chain g defs js \<and> last js = j"
    proof
      fix j assume "j \<in> set seen"
      then obtain i path js where "(i, path) \<in> set pending"
        "follows (lk_edges st) (i # js)" "last (i # js) = j" using s by blast
      then have "definition_chain g defs (i # js) \<and> last (i # js) = j" unfolding chain by (auto simp: pending_def)
      then show "\<exists>js. definition_chain g defs js \<and> last js = j" by blast
    qed
  qed
  have "set seen \<subseteq> {..<length defs}"
  proof
    fix j assume "j \<in> set seen"
    then obtain js where js: "definition_chain g defs js" "last js = j" using reach(2) by blast
    show "j \<in> {..<length defs}"
    proof (cases js rule: rev_cases)
      case Nil then show ?thesis using js by (simp add: definition_chain_def)
    next
      case (snoc ys y)
      then show ?thesis using js
        by (cases ys rule: rev_cases)
          (auto simp: definition_chain_def condition_uses_def definition_uses_def names_use_def successively_append_iff)
    qed
  qed
  then have "set seen = {..<length defs}" using reach(1) len by (intro card_subset_eq) (simp_all add: distinct_card)
  then show "\<forall>j < length defs. \<exists>js. definition_chain g defs js \<and> last js = j" using reach(2) by blast
qed

section \<open>A rule that validates\<close>

lemma check_definition_ok:
  assumes "check_definition primary gaps (index, d) (indices, decls) = Inr (indices', decls')"
  shows "om_get indices (ld_binding_id d) = None" "arena d primary gaps = Inr ()"
    "indices' = om_put (ld_binding_id d) index indices"
  using assms by (auto simp: check_definition_def rbind_eq_Inr)

lemma indexes_snoc:
  assumes "indexes pre indices" "om_get indices (ld_binding_id d) = None"
  shows "indexes (pre @ [d]) (om_put (ld_binding_id d) (length pre) indices)"
proof -
  have fresh: "\<forall>j < length pre. ld_binding_id (pre ! j) \<noteq> ld_binding_id d"
    using assms by (metis indexes_def option.distinct(1))
  show ?thesis using assms fresh by (auto simp: indexes_def nth_append less_Suc_eq)
qed

lemma check_definitions_ok:
  assumes "try_fold (check_definition primary gaps) (List.enumerate (length pre) defs) (indices, decls) = Inr (indices', decls')"
    and "indexes pre indices"
  shows "indexes (pre @ defs) indices' \<and> (\<forall>d \<in> set defs. arena d primary gaps = Inr ())"
  using assms
proof (induction defs arbitrary: pre indices decls)
  case (Cons d defs)
  from Cons.prems(1) obtain i1 d1 where
    c: "check_definition primary gaps (length pre, d) (indices, decls) = Inr (i1, d1)" and
    rest: "try_fold (check_definition primary gaps) (List.enumerate (length (pre @ [d])) defs) (i1, d1) = Inr (indices', decls')"
    by (auto simp: rbind_eq_Inr)
  note k = check_definition_ok [OF c]
  have "indexes (pre @ [d]) i1" unfolding k(3) using Cons.prems(2) k(1) by (rule indexes_snoc)
  from Cons.IH [OF rest this] k(2) show ?case by simp
qed simp

lemma validate_ok:
  assumes "rule_validate rtext g = Inr ()" "ge_schema_version g = 2"
  obtains defs indices gaps where "ge_local_definitions g = Some defs" "indexes defs indices"
    "links g defs indices = Inr ()" "\<forall>d \<in> set defs. arena d (ge_exit_source g) gaps = Inr ()"
    "collection_bounds g = Inr ()" "serialized_bound (rtext g) = Inr ()"
proof -
  have v: "validate_definitions rtext g = Inr ()" and b: "collection_bounds g = Inr ()"
    using assms by (auto simp: rule_validate_def rbind_eq_Inr)
  then obtain gaps defs indices decls where d: "ge_local_definitions g = Some defs"
    and f: "try_fold (check_definition (ge_exit_source g) gaps) (List.enumerate 0 defs) ([], []) = Inr (indices, decls)"
    and l: "links g defs indices = Inr ()" and t: "serialized_bound (rtext g) = Inr ()"
    by (auto simp: validate_definitions_def rbind_eq_Inr Let_def split: option.splits)
  have "indexes defs indices \<and> (\<forall>d \<in> set defs. arena d (ge_exit_source g) gaps = Inr ())"
    using check_definitions_ok [of "ge_exit_source g" gaps "[]" defs "[]" "[]"] f by (simp add: indexes_def)
  then show ?thesis using that d l t b by blast
qed

end
