(* ===== verification/Rule_Payload_Props.thy ===== *)
theory Rule_Payload_Props
  imports Rule_Props
begin

text \<open>
  Payloads as a whole: the traversal of source references reaches each of them once, in structural order,
  and changes nothing else, a payload that is read is bounded in size, depth and text, and the theorems on
  what validation guarantees of local definitions.
\<close>

section \<open>The traversal of source references\<close>

text \<open>
  The contract of one visiting function: the visitor runs over the references of the part in order, and
  writing the old references back into the result restores the part, so nothing else was changed.
\<close>

definition put_back :: "evidence_ref list visitor" where
  "put_back r rs = (hd rs, tl rs)"

lemma visit_each_append:
  "visit_each f (xs @ ys) s = (let (xs', s1) = visit_each f xs s; (ys', s2) = visit_each f ys s1 in (xs' @ ys', s2))"
  by (induction xs arbitrary: s) (auto simp: split: prod.splits)

lemma put_back_each: "length xs = length rs \<Longrightarrow> visit_each put_back xs (rs @ rest) = (rs, rest)"
  by (induction xs rs rule: list_induct2) (simp_all add: put_back_def)

lemma visit_each_length: "visit_each f xs s = (xs', s') \<Longrightarrow> length xs' = length xs"
  by (induction xs arbitrary: xs' s) (auto split: prod.splits)

locale source_traversal =
  fixes visit :: "'s visitor \<Rightarrow> 'a \<Rightarrow> 's \<Rightarrow> 'a \<times> 's"
    and rewrite :: "evidence_ref list visitor \<Rightarrow> 'a \<Rightarrow> evidence_ref list \<Rightarrow> 'a \<times> evidence_ref list"
    and sources :: "'a \<Rightarrow> evidence_ref list"
  assumes visits: "visit v x s = (x', s') \<Longrightarrow> visit_each v (sources x) s = (sources x', s')"
    and restores: "visit v x s = (x', s') \<Longrightarrow> rewrite put_back x' (sources x @ rest) = (x, rest)"
begin

lemma each_visits:
  "visit_each (visit v) xs s = (xs', s') \<Longrightarrow>
     visit_each v (concat (map sources xs)) s = (concat (map sources xs'), s')"
  by (induction xs arbitrary: xs' s) (auto simp: visit_each_append split: prod.splits dest: visits)

lemma each_restores:
  "visit_each (visit v) xs s = (xs', s') \<Longrightarrow>
     visit_each (rewrite put_back) xs' (concat (map sources xs) @ rest) = (xs, rest)"
  by (induction xs arbitrary: xs' s) (auto simp: restores split: prod.splits)

end

definition resolution_sources :: "dependency_resolution \<Rightarrow> evidence_ref list" where
  "resolution_sources d = (case d of ResBinding _ decl \<Rightarrow> [decl] | _ \<Rightarrow> [])"

definition condition_sources :: "branch_condition \<Rightarrow> evidence_ref list" where
  "condition_sources c = [bc_branch_source c, sx_source (bc_expression c)]"

definition effect_sources :: "local_exit \<Rightarrow> evidence_ref list" where
  "effect_sources e = (case effect_value e of None \<Rightarrow> [] | Some x \<Rightarrow> [sx_source x])"

definition dependency_sources :: "rule_dependency \<Rightarrow> evidence_ref list" where
  "dependency_sources d = rd_source d # resolution_sources (rd_resolution d)"

definition input_sources :: "definition_dependency \<Rightarrow> evidence_ref list" where
  "input_sources d = dd_source d # resolution_sources (dd_resolution d)"

definition definition_sources :: "local_definition \<Rightarrow> evidence_ref list" where
  "definition_sources d =
     ld_declaration d # ld_uses d @ [sx_source (ld_initializer d)] @
     map (\<lambda>n. sx_source (dn_expression n)) (dx_nodes (ld_expression d)) @
     concat (map input_sources (ld_dependencies d))"

definition rule_sources :: "guarded_exit \<Rightarrow> evidence_ref list" where
  "rule_sources g =
     ge_exit_source g # concat (map condition_sources (ge_conditions g)) @ effect_sources (ge_effect g) @
     concat (map dependency_sources (ge_dependencies g)) @
     (case ge_local_definitions g of None \<Rightarrow> [] | Some ds \<Rightarrow> concat (map definition_sources ds)) @
     map red_source (ge_redactions g)"

interpretation ref_visit: source_traversal "\<lambda>v. v" "\<lambda>v. v" "\<lambda>r. [r]"
  by unfold_locales (auto simp: put_back_def)

interpretation expression_visit: source_traversal visit_expression visit_expression "\<lambda>x. [sx_source x]"
  by unfold_locales (auto simp: visit_expression_def put_back_def split: prod.splits)

interpretation resolution_visit: source_traversal visit_resolution visit_resolution resolution_sources
  by unfold_locales
    (auto simp: visit_resolution_def resolution_sources_def put_back_def split: prod.splits dependency_resolution.splits)

interpretation condition_visit: source_traversal visit_condition visit_condition condition_sources
  by unfold_locales
    (auto simp: visit_condition_def visit_expression_def condition_sources_def put_back_def split: prod.splits)

interpretation effect_visit: source_traversal visit_effect visit_effect effect_sources
  by unfold_locales
    (auto simp: visit_effect_def visit_expression_def effect_sources_def effect_value_def put_back_def
      split: prod.splits local_exit.splits option.splits)

interpretation dependency_visit: source_traversal visit_dependency visit_dependency dependency_sources
  by unfold_locales
    (auto simp: visit_dependency_def dependency_sources_def put_back_def resolution_visit.restores
      split: prod.splits dest: resolution_visit.visits)

interpretation input_visit: source_traversal visit_input visit_input input_sources
  by unfold_locales
    (auto simp: visit_input_def input_sources_def put_back_def resolution_visit.restores
      split: prod.splits dest: resolution_visit.visits)

interpretation node_visit: source_traversal visit_node visit_node "\<lambda>n. [sx_source (dn_expression n)]"
  by unfold_locales (auto simp: visit_node_def visit_expression_def put_back_def split: prod.splits)

interpretation redaction_visit: source_traversal visit_redaction visit_redaction "\<lambda>r. [red_source r]"
  by unfold_locales (auto simp: visit_redaction_def put_back_def split: prod.splits)

interpretation definition_visit: source_traversal visit_definition visit_definition definition_sources
proof
  fix v :: "'s visitor" and d s d' s' and rest :: "evidence_ref list"
  assume run: "visit_definition v d s = (d', s')"
  then obtain decl s1 uses s2 ini s3 nodes s4 deps where
    p: "v (ld_declaration d) s = (decl, s1)" "visit_each v (ld_uses d) s1 = (uses, s2)"
      "visit_expression v (ld_initializer d) s2 = (ini, s3)"
      "visit_each (visit_node v) (dx_nodes (ld_expression d)) s3 = (nodes, s4)"
      "visit_each (visit_input v) (ld_dependencies d) s4 = (deps, s')"
    and d': "d' = d\<lparr>ld_declaration := decl, ld_uses := uses, ld_initializer := ini,
            ld_expression := (ld_expression d)\<lparr>dx_nodes := nodes\<rparr>, ld_dependencies := deps\<rparr>"
    by (auto simp: visit_definition_def Let_def split: prod.splits)
  show "visit_each v (definition_sources d) s = (definition_sources d', s')"
    using p ref_visit.each_visits [OF p(2), unfolded concat_map_singleton map_ident] expression_visit.visits [OF p(3)] node_visit.each_visits [OF p(4)]
      input_visit.each_visits [OF p(5)]
    by (simp add: definition_sources_def d' visit_each_append concat_map_singleton Let_def split: prod.splits)
  show "visit_definition put_back d' (definition_sources d @ rest) = (d, rest)"
    using put_back_each [of uses "ld_uses d"] visit_each_length [OF p(2)] expression_visit.restores [OF p(3)]
      node_visit.each_restores [OF p(4)] input_visit.each_restores [OF p(5)]
    by (simp add: visit_definition_def definition_sources_def d' put_back_def concat_map_singleton Let_def)
qed

interpretation rule_visit: source_traversal visit_sources_mut visit_sources_mut rule_sources
proof
  fix v :: "'s visitor" and g s g' s' and rest :: "evidence_ref list"
  assume run: "visit_sources_mut v g s = (g', s')"
  then obtain ex s1 conds s2 eff s3 deps s4 defs s5 reds where
    p: "v (ge_exit_source g) s = (ex, s1)" "visit_each (visit_condition v) (ge_conditions g) s1 = (conds, s2)"
      "visit_effect v (ge_effect g) s2 = (eff, s3)"
      "visit_each (visit_dependency v) (ge_dependencies g) s3 = (deps, s4)"
      "(case ge_local_definitions g of None \<Rightarrow> (None, s4)
        | Some ds \<Rightarrow> (let (ds', s5) = visit_each (visit_definition v) ds s4 in (Some ds', s5))) = (defs, s5)"
      "visit_each (visit_redaction v) (ge_redactions g) s5 = (reds, s')"
    and g': "g' = g\<lparr>ge_exit_source := ex, ge_conditions := conds, ge_effect := eff, ge_dependencies := deps,
            ge_local_definitions := defs, ge_redactions := reds\<rparr>"
    unfolding visit_sources_mut_def Let_def by (auto split: prod.splits)
  note vs = condition_visit.each_visits [OF p(2)] effect_visit.visits [OF p(3)] dependency_visit.each_visits [OF p(4)]
    redaction_visit.each_visits [OF p(6), unfolded concat_map_singleton]
  note rs = condition_visit.each_restores [OF p(2)] effect_visit.restores [OF p(3)]
    dependency_visit.each_restores [OF p(4)] redaction_visit.each_restores [OF p(6), unfolded concat_map_singleton]
  show "visit_each v (rule_sources g) s = (rule_sources g', s')"
  proof (cases "ge_local_definitions g")
    case None
    then show ?thesis using p vs by (simp add: rule_sources_def g' visit_each_append split: prod.splits)
  next
    case (Some ds)
    then obtain ds' where dv: "visit_each (visit_definition v) ds s4 = (ds', s5)" "defs = Some ds'"
      using p(5) by (auto split: prod.splits)
    with Some show ?thesis using p vs definition_visit.each_visits [OF dv(1)]
      by (simp add: rule_sources_def g' visit_each_append split: prod.splits)
  qed
  show "visit_sources_mut put_back g' (rule_sources g @ rest) = (g, rest)"
  proof (cases "ge_local_definitions g")
    case None
    then show ?thesis using p rs by (simp add: visit_sources_mut_def rule_sources_def g' put_back_def)
  next
    case (Some ds)
    then obtain ds' where dv: "visit_each (visit_definition v) ds s4 = (ds', s5)" "defs = Some ds'"
      using p(5) by (auto split: prod.splits)
    with Some show ?thesis using p rs definition_visit.each_restores [OF dv(1)]
      by (simp add: visit_sources_mut_def rule_sources_def g' put_back_def)
  qed
qed

text \<open>The visitor meets every source reference of a rule once, in structural order, and only they change.\<close>

theorem visit_sources_mut_exact:
  assumes "visit_sources_mut v g s = (g', s')"
  shows "visit_each v (rule_sources g) s = (rule_sources g', s') \<and>
    visit_sources_mut put_back g' (rule_sources g) = (g, [])"
  using rule_visit.visits [OF assms] rule_visit.restores [OF assms, of "[]"] by simp

section \<open>The size of a payload\<close>

text \<open>Values, nesting and longest text of a JSON value.\<close>

fun json_values :: "json \<Rightarrow> nat" where
  "json_values (JArr vs) = 1 + sum_list (map json_values vs)"
| "json_values (JObj kvs) = 1 + sum_list (map (\<lambda>(k, v). json_values v) kvs)"
| "json_values _ = 1"

fun json_fits :: "nat \<Rightarrow> json \<Rightarrow> bool" where
  "json_fits d (JArr vs) \<longleftrightarrow> d \<le> 32 \<and> length vs \<le> 1024 \<and> (\<forall>v \<in> set vs. json_fits (d + 1) v)"
| "json_fits d (JObj kvs) \<longleftrightarrow>
     d \<le> 32 \<and> length kvs \<le> 64 \<and> (\<forall>(k, v) \<in> set kvs. length k \<le> 128 \<and> json_fits (d + 1) v)"
| "json_fits d (JStr s) \<longleftrightarrow> d \<le> 32 \<and> length s \<le> MAX_TEXT_BYTES"
| "json_fits d _ \<longleftrightarrow> d \<le> 32"

lemma wire_children_values:
  "wire_children v n w = Inr vs \<Longrightarrow> json_values v = 1 + sum_list (map json_values vs)"
  by (cases v) (auto simp: wire_children_def comp_def case_prod_unfold split: if_splits)

lemma wire_children_fit:
  "wire_children v n w = Inr vs \<Longrightarrow> d \<le> 32 \<Longrightarrow> \<forall>x \<in> set vs. json_fits (d + 1) x \<Longrightarrow> json_fits d v"
  by (cases v) (fastforce simp: wire_children_def list_ex_iff split: if_splits)+

lemma wire_loop_bounds:
  "wire_loop pending visited = Inr u \<Longrightarrow> visited \<le> 16384 \<Longrightarrow>
     visited + sum_list (map (\<lambda>(v, d). json_values v) pending) \<le> 16384 \<and> (\<forall>(v, d) \<in> set pending. json_fits d v)"
proof (induction pending visited rule: wire_loop.induct)
  case (1 pending visited)
  show ?case
  proof (cases pending)
    case Nil
    then show ?thesis using 1(3) by simp
  next
    case (Cons x rest)
    obtain v d where x: "x = (v, d)" by (cases x)
    from 1(2) obtain vs where g: "\<not> (d > 32 \<or> visited + 1 > 16384)" and c: "wire_children v (visited + 1) (length rest) = Inr vs"
      and run: "wire_loop (rev (map (\<lambda>x. (x, d + 1)) vs) @ rest) (visited + 1) = Inr u"
      by (subst (asm) wire_loop.simps) (auto simp: Cons x split: if_splits sum.splits)
    have "visited + 1 \<le> 16384" using g by simp
    note ih = 1(1) [OF Cons x [symmetric] g c run this]
    have "json_fits d v" using ih g by (intro wire_children_fit [OF c]) auto
    moreover have "sum_list (map json_values (rev vs)) = sum_list (map json_values vs)" by (metis rev_map sum_list_rev)
    then have "sum_list (map (\<lambda>(v, d). json_values v) (rev (map (\<lambda>x. (x, d + 1)) vs))) + 1 = json_values v"
      using wire_children_values [OF c] by (simp add: rev_map comp_def)
    ultimately show ?thesis using ih by (simp add: Cons x)
  qed
qed

text \<open>A version 2 payload that is read was bounded before the typed decoder saw it, and validated after.\<close>

theorem rule_from_value_bounded:
  assumes "rule_from_value vtext rtext dec v = Inr g" "schema_version_of v = Some 2"
  shows "json_values v \<le> 16384 \<and> json_fits 0 v \<and> length (vtext v) \<le> MAX_RULE_PAYLOAD_BYTES \<and>
    dec v = Some g \<and> rule_validate rtext g = Inr ()"
proof -
  have p: "definition_preflight vtext v = Inr ()" "dec v = Some g" "rule_validate rtext g = Inr ()"
    using assms by (auto simp: rule_from_value_def rbind_eq_Inr split: option.splits)
  then have "wire_loop [(v, 0)] 0 = Inr ()" "serialized_bound (vtext v) = Inr ()"
    by (auto simp: definition_preflight_def rbind_eq_Inr split: option.splits if_splits)
  then show ?thesis using p wire_loop_bounds [of "[(v, 0)]" 0] by (simp add: serialized_bound_def)
qed

section \<open>What validation guarantees\<close>

text \<open>
  C5: in a validated version 2 rule the expression of every local definition is a tree: the root and
  the children of all nodes together are all nodes, once each, no deeper than eight, every child lies inside its parent
  and after its left sibling, and the identifiers and members use every prerequisite exactly once, at the
  span of the node.
\<close>

theorem validated_definitions_are_trees:
  assumes "rule_validate rtext g = Inr ()" "ge_schema_version g = 2"
  shows "\<exists>defs. ge_local_definitions g = Some defs \<and> (\<forall>d \<in> set defs.
    mset (dx_root (ld_expression d) # concat (map (kids d) [0 ..< length (dx_nodes (ld_expression d))])) =
      mset [0 ..< length (dx_nodes (ld_expression d))] \<and>
    mset (concat (map (inputs d) [0 ..< length (dx_nodes (ld_expression d))])) = mset [0 ..< length (ld_dependencies d)] \<and>
    (\<forall>i < length (dx_nodes (ld_expression d)). node_ok d i \<and> (\<exists>k \<le> 8. at_depth d k i)))"
proof (rule validate_ok [OF assms])
  fix defs indices gaps
  assume "ge_local_definitions g = Some defs" and a: "\<forall>d \<in> set defs. arena d (ge_exit_source g) gaps = Inr ()"
  then show ?thesis using arena_tree by blast
qed

definition wit_ref :: "u64 \<Rightarrow> u64 \<Rightarrow> evidence_ref" where
  "wit_ref a b = \<lparr>ev_repo = ''r'', ev_path = ''p'', ev_byte_start = a, ev_byte_end = b, ev_commit_sha = ''c''\<rparr>"

definition wit_expr :: "u64 \<Rightarrow> u64 \<Rightarrow> string \<Rightarrow> string \<Rightarrow> source_expression" where
  "wit_expr a b k t = \<lparr>sx_source = wit_ref a b, sx_syntax_kind = k, sx_display = t, sx_capture = CompleteSyntax, sx_literal = None\<rparr>"

definition wit_def :: local_definition where
  "wit_def = \<lparr>ld_binding_id = ''b0'', ld_declaration = wit_ref 10 30, ld_uses = [wit_ref 50 52],
     ld_initializer = wit_expr 20 25 ''unary_expression'' ''!flag'',
     ld_expression = \<lparr>dx_root = 0, dx_nodes =
       [\<lparr>dn_expression = wit_expr 20 25 ''unary_expression'' ''!flag'', dn_kind = DkUnary UoNot 1\<rparr>,
        \<lparr>dn_expression = wit_expr 21 25 ''identifier'' ''flag'', dn_kind = DkIdentifier 0\<rparr>]\<rparr>,
     ld_dependencies = [\<lparr>dd_source = wit_ref 21 25, dd_resolution = ResTarget ''n1''\<rparr>]\<rparr>"

definition wit_rule :: guarded_exit where
  "wit_rule = \<lparr>ge_schema_version = 2, ge_kind = GuardedExit, ge_owner_id = ''owner'', ge_exit_source = wit_ref 0 100,
     ge_source_order = 0,
     ge_conditions = [\<lparr>bc_branch_source = wit_ref 45 60, bc_expression = wit_expr 50 52 ''identifier'' ''ok'', bc_polarity = TruthyBranch\<rparr>],
     ge_effect = ExitReturn None,
     ge_dependencies = [\<lparr>rd_role = DepCondition, rd_source = wit_ref 50 52, rd_resolution = ResBinding ''b0'' (wit_ref 10 30)\<rparr>],
     ge_interpretation = \<lparr>ri_execution_predicate = NotEstablished, ri_consumer_effect = NotEstablished, ri_gap_ids = []\<rparr>,
     ge_redactions = [], ge_local_definitions = Some [wit_def]\<rparr>"

lemma wit_ref_ok: "a < b \<Longrightarrow> checked_source (wit_ref a b) (wit_ref 0 100) = Inr ()"
  by (simp add: checked_source_def rule_span_def check_all_def rule_bounded_id_def wit_ref_def same_source_def
      rule_require_def RULE_MAX_ID_BYTES_def)

lemma wit_expr_ok:
  "a < b \<Longrightarrow> k \<noteq> [] \<Longrightarrow> length k \<le> 64 \<Longrightarrow> length t \<le> 64 \<Longrightarrow> checked_expression (wit_expr a b k t) (wit_ref 0 100) = Inr ()"
  using wit_ref_ok [of a b]
  by (simp add: checked_expression_def rule_expression_def rule_span_def wit_expr_def rule_require_def MAX_TEXT_BYTES_def wit_ref_def)

lemma wit_spans:
  "span_contains (wit_ref a b) (wit_ref c d) \<longleftrightarrow> a \<le> c \<and> d \<le> b" "ev_byte_start (wit_ref a b) = a"
  "ev_byte_end (wit_ref a b) = b" "sx_source (wit_expr a b k t) = wit_ref a b" "sx_syntax_kind (wit_expr a b k t) = k"
  "sx_literal (wit_expr a b k t) = None" "expression_eq (wit_expr a b k t) (wit_expr a b k t)"
  "usage_key (wit_ref a b) = (a, b)" "wit_ref a b = wit_ref c d \<longleftrightarrow> a = c \<and> b = d"
  by (auto simp: span_contains_def same_source_def wit_ref_def wit_expr_def expression_eq_def usage_key_def)

lemma wit_enter:
  "enter_node wit_def (wit_ref 0 100) [] 0 [] = Inr ([1], [])"
  "enter_node wit_def (wit_ref 0 100) [] 1 [] = Inr ([], [0])"
  by (simp_all add: enter_node_def wit_def_def wit_expr_ok syntax_ok_def node_parts_def take_dependency_def
      rule_require_def wit_spans)

lemma wit_arena: "arena wit_def (wit_ref 0 100) [] = Inr ()"
proof -
  have "dx_root (ld_expression wit_def) = 0" "length (dx_nodes (ld_expression wit_def)) = 2"
    "length (ld_dependencies wit_def) = 1"
    "expression_eq (dn_expression (dx_nodes (ld_expression wit_def) ! 0)) (ld_initializer wit_def)"
    by (simp_all add: wit_def_def wit_spans)
  then show ?thesis
    by (simp add: arena_def arena_loop.simps [of wit_def] wit_enter [simplified] MAX_DEFINITION_EXPRESSION_DEPTH_def)
qed

lemma wit_check:
  "check_definition (wit_ref 0 100) [] (0, wit_def) ([], []) = Inr ([(''b0'', 0)], [(10, 30)])"
proof -
  have "try_fold (check_usage wit_def (wit_ref 0 100)) (ld_uses wit_def) None = Inr (Some (50, 52))"
    by (simp add: check_usage_def wit_def_def wit_ref_ok wit_spans)
  moreover have "check_all (check_input wit_def (wit_ref 0 100) []) (ld_dependencies wit_def) = Inr ()"
    by (simp add: check_all_def check_input_def wit_def_def wit_ref_ok wit_spans checked_resolution_def rule_bounded_id_def
        rule_require_def RULE_MAX_ID_BYTES_def)
  moreover have "checked_source (ld_declaration wit_def) (wit_ref 0 100) = Inr ()"
    "checked_expression (ld_initializer wit_def) (wit_ref 0 100) = Inr ()" "rule_bounded_id (ld_binding_id wit_def) = Inr ()"
    "span_contains (ld_declaration wit_def) (sx_source (ld_initializer wit_def))" "ld_uses wit_def \<noteq> []"
    "ld_binding_id wit_def = ''b0''" "usage_key (ld_declaration wit_def) = (10, 30)"
    by (simp_all add: wit_def_def wit_ref_ok wit_expr_ok wit_spans rule_bounded_id_def rule_require_def RULE_MAX_ID_BYTES_def)
  ultimately show ?thesis
    by (simp add: check_definition_def rule_require_def wit_arena)
qed

lemma wit_links: "links wit_rule [wit_def] [(''b0'', 0)] = Inr ()"
proof -
  have "observe_conditions wit_rule [wit_def] [(''b0'', 0)] \<lparr>lk_uses = [[]], lk_edges = [[]], lk_seeds = []\<rparr> =
      Inr \<lparr>lk_uses = [[(50, 52)]], lk_edges = [[]], lk_seeds = [0]\<rparr>"
    by (simp add: observe_conditions_def wit_rule_def observe_def wit_def_def wit_spans insort_insert_key_def)
  moreover have "observe_inputs [wit_def] [(''b0'', 0)] st = Inr st" for st
    by (simp add: observe_inputs_def observe_def wit_def_def)
  moreover have "usage_key ` set (ld_uses wit_def) = {(50, 52)}" by (simp add: wit_def_def wit_spans)
  ultimately show ?thesis
    by (simp add: links_def check_all_def chain_loop.simps rule_require_def edges_of_def MAX_DEFINITION_CHAIN_DEPTH_def)
qed

lemma wit_bounds: "collection_bounds wit_rule = Inr ()"
  by (simp add: collection_bounds_def wit_rule_def wit_def_def MAX_LOCAL_DEFINITIONS_def MAX_DEFINITION_NODES_def
      MAX_INITIALIZER_DEPENDENCIES_def MAX_USES_def)

lemma check_all_Nil: "check_all f [] = Inr ()"
  by (simp add: check_all_def)

lemma wit_rule_valid: "rule_validate (\<lambda>_. []) wit_rule = Inr ()"
proof -
  have parts: "ge_exit_source wit_rule = wit_ref 0 100" "ge_local_definitions wit_rule = Some [wit_def]"
    "ri_gap_ids (ge_interpretation wit_rule) = []" "effect_value (ge_effect wit_rule) = None" "ge_redactions wit_rule = []"
    "ge_owner_id wit_rule = ''owner''" "ge_schema_version wit_rule = 2"
    by (simp_all add: wit_rule_def effect_value_def)
  have conds: "check_all (check_condition (wit_ref 0 100)) (ge_conditions wit_rule) = Inr ()"
    by (simp add: check_all_def check_condition_def wit_rule_def wit_ref_ok wit_expr_ok wit_spans rule_require_def)
  have deps: "check_all (\<lambda>dep. rbind (checked_source (rd_source dep) (wit_ref 0 100)) (\<lambda>_.
      checked_resolution (rd_resolution dep) (wit_ref 0 100) [])) (ge_dependencies wit_rule) = Inr ()"
    by (simp add: check_all_def wit_rule_def wit_ref_ok checked_resolution_def rule_bounded_id_def rule_require_def RULE_MAX_ID_BYTES_def)
  have "rule_bounded_id ''owner'' = Inr ()" by (simp add: rule_bounded_id_def rule_require_def RULE_MAX_ID_BYTES_def)
  then have v: "validate_definitions (\<lambda>_. []) wit_rule = Inr ()"
    by (simp add: validate_definitions_def Let_def parts wit_bounds conds deps wit_ref_ok wit_check wit_links
        serialized_bound_def rule_require_def MAX_RULE_PAYLOAD_BYTES_def check_all_Nil)
  have c1: "check_all (\<lambda>c. rbind (rule_span (bc_branch_source c) ''branch_source'') (\<lambda>_.
              rule_expression (bc_expression c))) (ge_conditions wit_rule) = Inr ()"
    by (simp add: check_all_def wit_rule_def rule_span_def rule_expression_def rule_require_def wit_spans)
  have c2: "check_all (\<lambda>dep. rbind (rule_span (rd_source dep) ''dependency.source'') (\<lambda>_.
              basic_resolution (rd_resolution dep))) (ge_dependencies wit_rule) = Inr ()"
    by (simp add: check_all_def wit_rule_def rule_span_def basic_resolution_def rule_identity_def rule_require_def wit_spans)
  have "rule_span (wit_ref 0 100) ''exit_source'' = Inr ()" "rule_identity ''owner'' ''owner_id'' = Inr ()"
    by (simp_all add: rule_span_def rule_identity_def rule_require_def wit_spans)
  then show ?thesis by (simp add: rule_validate_def parts wit_bounds v c1 c2 check_all_Nil)
qed

theorem validated_definitions_are_trees_witness:
  "rule_validate (\<lambda>_. []) wit_rule = Inr () \<and> node_ok wit_def 0 \<and> node_ok wit_def 1 \<and>
    mset (0 # kids wit_def 0 @ kids wit_def 1) = mset [0, 1]"
proof -
  have "ge_schema_version wit_rule = 2" "ge_local_definitions wit_rule = Some [wit_def]"
    "length (dx_nodes (ld_expression wit_def)) = Suc (Suc 0)" "dx_root (ld_expression wit_def) = 0"
    by (simp_all add: wit_rule_def wit_def_def)
  then show ?thesis using validated_definitions_are_trees [OF wit_rule_valid] wit_rule_valid
    by (simp add: less_Suc_eq add_ac del: mset_upt)
qed

text \<open>
  C14: in a validated version 2 rule every chain of local definitions that starts at a condition and goes
  from a definition to one its initializer uses has at most four definitions and none of them twice, and
  every local definition is at the end of such a chain.
\<close>

theorem validated_chains_short_and_complete:
  assumes "rule_validate rtext g = Inr ()" "ge_schema_version g = 2" "ge_local_definitions g = Some defs"
  shows "(\<forall>js. definition_chain g defs js \<longrightarrow> length js \<le> MAX_DEFINITION_CHAIN_DEPTH \<and> distinct js) \<and>
    (\<forall>j < length defs. \<exists>js. definition_chain g defs js \<and> last js = j)"
proof (rule validate_ok [OF assms(1,2)])
  fix defs' indices
  assume "ge_local_definitions g = Some defs'" "indexes defs' indices" "links g defs' indices = Inr ()"
  then show ?thesis using links_chains [of defs indices g] assms(3) by (simp add: MAX_DEFINITION_CHAIN_DEPTH_def)
qed

theorem validated_chains_short_and_complete_witness:
  "definition_chain wit_rule [wit_def] [0] \<and> \<not> definition_chain wit_rule [wit_def] [0, 0]"
proof -
  have "ge_schema_version wit_rule = 2" and d: "ge_local_definitions wit_rule = Some [wit_def]"
    by (simp_all add: wit_rule_def)
  note t = validated_chains_short_and_complete [OF wit_rule_valid this]
  have "\<exists>js. definition_chain wit_rule [wit_def] js \<and> last js = 0" using t by simp
  moreover have "definition_chain wit_rule [wit_def] [0]"
    by (simp add: definition_chain_def condition_uses_def names_use_def wit_rule_def wit_def_def)
  moreover have "\<not> definition_chain wit_rule [wit_def] [0, 0]" using t by (metis distinct_length_2_or_more)
  ultimately show ?thesis by simp
qed

end
