(* ===== verification/Bounded_Snapshot.thy ===== *)
theory Bounded_Snapshot
  imports Source_Binding
begin

text \<open>
  The bounded snapshot reader (\<^verbatim>\<open>crates/core-graph/src/bounded.rs\<close>) and the bounded selection read of
  \<^verbatim>\<open>source.rs\<close>: limits, the checks of schema and raw fields that come before any row body, the JSON
  budget that the streaming decoder spends, and the canonical byte count. What serde\_json's streaming
  parser presents for a text is the parameter \<open>stream\<close>: the value as far as it can be parsed and whether
  nothing follows it; \<open>ins\<close> is the insertion of its object type.
\<close>

section \<open>Limits\<close>

record snapshot_read_limits =
  lim_bytes :: nat
  lim_rows :: nat
  lim_depth :: nat
  lim_values :: nat

definition LIM_MAX_BYTES :: nat where "LIM_MAX_BYTES = 32 * 1024 * 1024"
definition LIM_MAX_ROWS :: nat where "LIM_MAX_ROWS = 50000"
definition LIM_MAX_DEPTH :: nat where "LIM_MAX_DEPTH = 32"
definition LIM_MAX_VALUES :: nat where "LIM_MAX_VALUES = 1000000"

definition limits_validate :: "snapshot_read_limits \<Rightarrow> (graph_error, unit) result" where
  "limits_validate l =
     (if lim_bytes l = 0 \<or> lim_bytes l > LIM_MAX_BYTES \<or> lim_rows l > LIM_MAX_ROWS \<or> lim_depth l = 0 \<or>
         lim_depth l > LIM_MAX_DEPTH \<or> lim_values l = 0 \<or> lim_values l > LIM_MAX_VALUES
      then Inl (SnapshotBounds InvalidLimits) else Inr ())"

definition limits_default :: snapshot_read_limits where
  "limits_default = \<lparr>lim_bytes = LIM_MAX_BYTES, lim_rows = LIM_MAX_ROWS, lim_depth = LIM_MAX_DEPTH, lim_values = LIM_MAX_VALUES\<rparr>"

section \<open>Checks before any row body\<close>

text \<open>
  What the catalogue holds of one table: the rows of \<^verbatim>\<open>sqlite_schema\<close> with its name, each with its type and
  the byte length of its text, and the rows of \<^verbatim>\<open>PRAGMA table_xinfo\<close>.
\<close>

record xinfo_row =
  xi_name :: string
  xi_type :: string
  xi_not_null :: int
  xi_primary_key :: int
  xi_hidden :: int

record table_catalogue =
  tc_objects :: "(string \<times> nat option) list"
  tc_columns :: "xinfo_row list"

definition node_columns :: "(string \<times> int \<times> int) list" where
  "node_columns = [(''id'', 1, 1), (''label'', 1, 0), (''props'', 1, 0)]"

definition edge_columns :: "(string \<times> int \<times> int) list" where
  "edge_columns = [(''src'', 1, 1), (''dst'', 1, 2), (''label'', 1, 3), (''props'', 1, 0)]"

fun columns_match :: "(string \<times> int \<times> int) list \<Rightarrow> xinfo_row list \<Rightarrow> bool" where
  "columns_match [] rows \<longleftrightarrow> rows = []"
| "columns_match ((name, not_null, primary_key) # expected) [] \<longleftrightarrow> False"
| "columns_match ((name, not_null, primary_key) # expected) (row # rows) \<longleftrightarrow>
     xi_name row = name \<and> xi_type row = ''TEXT'' \<and> xi_not_null row = not_null \<and> xi_primary_key row = primary_key \<and>
     xi_hidden row = 0 \<and> columns_match expected rows"

definition table_matches :: "(string \<times> int \<times> int) list \<Rightarrow> table_catalogue \<Rightarrow> bool" where
  "table_matches expected t \<longleftrightarrow>
     length (tc_objects t) = 1 \<and>
     list_all (\<lambda>(ty, sql). ty = ''table'' \<and> (case sql of None \<Rightarrow> False | Some n \<Rightarrow> n \<le> 4096)) (tc_objects t) \<and>
     columns_match expected (tc_columns t)"

definition preflight_schema :: "table_catalogue \<Rightarrow> table_catalogue \<Rightarrow> (graph_error, unit) result" where
  "preflight_schema nodes edges =
     (if table_matches node_columns nodes \<and> table_matches edge_columns edges then Inr ()
      else Inl (SnapshotBounds InvalidSchema))"

text \<open>A stored field: valid text, text whose bytes are not UTF-8, or a value of another SQL type.\<close>

datatype sql_cell = CText string | CBadText nat | COther

definition spend_cell :: "sql_cell \<Rightarrow> nat \<Rightarrow> (graph_error, nat) result" where
  "spend_cell c remaining =
     (case c of
        COther \<Rightarrow> Inl (SnapshotBounds InvalidRow)
      | CText s \<Rightarrow> if length s > remaining then Inl (SnapshotBounds RawByteLimit) else Inr (remaining - length s)
      | CBadText n \<Rightarrow> if n > remaining then Inl (SnapshotBounds RawByteLimit) else Inr (remaining - n))"

definition preflight_rows ::
  "snapshot_read_limits \<Rightarrow> sql_cell list list \<Rightarrow> sql_cell list list \<Rightarrow> (graph_error, nat \<times> nat) result" where
  "preflight_rows limits nodes edges =
     (if length nodes + length edges > lim_rows limits then Inl (SnapshotBounds RowLimit)
      else rbind (try_fold (try_fold spend_cell) nodes (lim_bytes limits)) (\<lambda>remaining.
           rbind (try_fold (try_fold spend_cell) edges remaining) (\<lambda>_. Inr (length nodes, length edges))))"

definition field :: "sql_cell list \<Rightarrow> nat \<Rightarrow> (graph_error, string) result" where
  "field row index =
     (if index < length row
      then (case row ! index of CText s \<Rightarrow> Inr s | _ \<Rightarrow> Inl (SnapshotBounds InvalidRow))
      else Inl (SnapshotBounds InvalidRow))"

section \<open>The JSON budget\<close>

definition enter :: "snapshot_read_limits \<Rightarrow> nat \<Rightarrow> nat \<Rightarrow> (snapshot_bounds_error, nat) result" where
  "enter limits depth remaining =
     (if depth > lim_depth limits then Inl JsonDepthLimit
      else if remaining = 0 then Inl JsonValueLimit
      else Inr (remaining - 1))"

text \<open>
  A text as the streaming parser presents it: \<open>RawBad\<close> where a value starts but cannot be parsed; the flag
  of an array or object says whether it is closed properly after the listed members.
\<close>

datatype raw_json =
    RawBad | RawNull | RawBool bool | RawNum json_num | RawStr string
  | RawArr "raw_json list" bool | RawObj "(string \<times> raw_json) list" bool

type_synonym json_insert = "string \<Rightarrow> json \<Rightarrow> (string \<times> json) list \<Rightarrow> (string \<times> json) list"

text \<open>The seed: an error is the failure noted in the budget, or none for a syntax error.\<close>

fun parse_value ::
  "json_insert \<Rightarrow> snapshot_read_limits \<Rightarrow> nat \<Rightarrow> raw_json \<Rightarrow> nat \<Rightarrow> (snapshot_bounds_error option, json \<times> nat) result"
  and parse_elements ::
  "json_insert \<Rightarrow> snapshot_read_limits \<Rightarrow> nat \<Rightarrow> raw_json list \<Rightarrow> nat \<Rightarrow> (snapshot_bounds_error option, json list \<times> nat) result"
  and parse_entries ::
  "json_insert \<Rightarrow> snapshot_read_limits \<Rightarrow> nat \<Rightarrow> (string \<times> raw_json) list \<Rightarrow> (string \<times> json) list \<Rightarrow> nat
     \<Rightarrow> (snapshot_bounds_error option, (string \<times> json) list \<times> nat) result" where
  "parse_value ins limits depth r remaining =
     (case enter limits depth remaining of
        Inl e \<Rightarrow> Inl (Some e)
      | Inr left \<Rightarrow>
          (case r of
             RawBad \<Rightarrow> Inl None
           | RawNull \<Rightarrow> Inr (JNull, left)
           | RawBool b \<Rightarrow> Inr (JBool b, left)
           | RawNum n \<Rightarrow> Inr (JNum n, left)
           | RawStr s \<Rightarrow> Inr (JStr s, left)
           | RawArr rs closed \<Rightarrow>
               (case parse_elements ins limits (depth + 1) rs left of
                  Inl e \<Rightarrow> Inl e
                | Inr (vs, left') \<Rightarrow> if closed then Inr (JArr vs, left') else Inl None)
           | RawObj kvs closed \<Rightarrow>
               (case parse_entries ins limits (depth + 1) kvs [] left of
                  Inl e \<Rightarrow> Inl e
                | Inr (m, left') \<Rightarrow> if closed then Inr (JObj m, left') else Inl None)))"
| "parse_elements ins limits depth [] remaining = Inr ([], remaining)"
| "parse_elements ins limits depth (r # rs) remaining =
     (case parse_value ins limits depth r remaining of
        Inl e \<Rightarrow> Inl e
      | Inr (v, left) \<Rightarrow>
          (case parse_elements ins limits depth rs left of
             Inl e \<Rightarrow> Inl e
           | Inr (vs, left') \<Rightarrow> Inr (v # vs, left')))"
| "parse_entries ins limits depth [] m remaining = Inr (m, remaining)"
| "parse_entries ins limits depth ((k, r) # kvs) m remaining =
     (case parse_value ins limits depth r remaining of
        Inl e \<Rightarrow> Inl e
      | Inr (v, left) \<Rightarrow> parse_entries ins limits depth kvs (ins k v m) left)"

declare parse_value.simps [simp del]

definition parse_properties ::
  "json_insert \<Rightarrow> (string \<Rightarrow> raw_json \<times> bool) \<Rightarrow> snapshot_read_limits \<Rightarrow> string \<Rightarrow> nat \<Rightarrow> (graph_error, json \<times> nat) result" where
  "parse_properties ins stream limits input remaining =
     (case stream input of (r, ended) \<Rightarrow>
        (case parse_value ins limits 4 r remaining of
           Inl failure \<Rightarrow> Inl (SnapshotBounds (case failure of None \<Rightarrow> InvalidJson | Some e \<Rightarrow> e))
         | Inr (v, left) \<Rightarrow> if ended then Inr (v, left) else Inl (SnapshotBounds InvalidJson)))"

definition enter_all :: "snapshot_read_limits \<Rightarrow> nat list \<Rightarrow> nat \<Rightarrow> (graph_error, nat) result" where
  "enter_all limits depths remaining =
     try_fold (\<lambda>d r. case enter limits d r of Inl e \<Rightarrow> Inl (SnapshotBounds e) | Inr r' \<Rightarrow> Inr r') depths remaining"

definition read_node_row ::
  "json_insert \<Rightarrow> (string \<Rightarrow> raw_json \<times> bool) \<Rightarrow> snapshot_read_limits \<Rightarrow> sql_cell list \<Rightarrow> nat \<Rightarrow> (graph_error, node \<times> nat) result" where
  "read_node_row ins stream limits row remaining =
     rbind (enter_all limits [3, 4, 4] remaining) (\<lambda>left.
     rbind (field row 0) (\<lambda>i. rbind (field row 1) (\<lambda>label. rbind (field row 2) (\<lambda>input.
     rbind (parse_properties ins stream limits input left) (\<lambda>(props, left').
       Inr (\<lparr>n_id = i, n_label = label, n_props = props\<rparr>, left'))))))"

definition read_edge_row ::
  "json_insert \<Rightarrow> (string \<Rightarrow> raw_json \<times> bool) \<Rightarrow> snapshot_read_limits \<Rightarrow> sql_cell list \<Rightarrow> nat \<Rightarrow> (graph_error, edge \<times> nat) result" where
  "read_edge_row ins stream limits row remaining =
     rbind (enter_all limits [3, 4, 4, 4] remaining) (\<lambda>left.
     rbind (field row 0) (\<lambda>src. rbind (field row 1) (\<lambda>dst. rbind (field row 2) (\<lambda>label. rbind (field row 3) (\<lambda>input.
     rbind (parse_properties ins stream limits input left) (\<lambda>(props, left').
       Inr (\<lparr>e_src = src, e_dst = dst, e_label = label, e_props = props\<rparr>, left')))))))"

fun read_rows :: "('r \<Rightarrow> nat \<Rightarrow> (graph_error, 'a \<times> nat) result) \<Rightarrow> 'r list \<Rightarrow> nat \<Rightarrow> (graph_error, 'a list \<times> nat) result" where
  "read_rows f [] remaining = Inr ([], remaining)"
| "read_rows f (row # rows) remaining =
     rbind (f row remaining) (\<lambda>(x, left). rbind (read_rows f rows left) (\<lambda>(xs, left'). Inr (x # xs, left')))"

section \<open>The canonical text\<close>

definition canonical_node :: "node \<Rightarrow> json" where
  "canonical_node n = JObj [(''id'', JStr (n_id n)), (''label'', JStr (n_label n)), (''props'', canonicalize (n_props n))]"

definition canonical_edge :: "edge \<Rightarrow> json" where
  "canonical_edge e =
     JObj [(''dst'', JStr (e_dst e)), (''label'', JStr (e_label e)), (''props'', canonicalize (e_props e)), (''src'', JStr (e_src e))]"

definition canonical_graph :: "snapshot \<Rightarrow> json" where
  "canonical_graph g = JArr [JArr (map canonical_node (fst g)), JArr (map canonical_edge (snd g))]"

text \<open>Writing into a \<^verbatim>\<open>ByteCounter\<close> fails exactly when the text is longer than what it holds.\<close>

definition count_bytes :: "(json \<Rightarrow> string) \<Rightarrow> snapshot_read_limits \<Rightarrow> snapshot \<Rightarrow> (graph_error, unit) result" where
  "count_bytes ts limits g =
     (if length (ts (canonical_graph g)) > lim_bytes limits then Inl (SnapshotBounds CanonicalByteLimit) else Inr ())"

section \<open>The reads\<close>

text \<open>What a connection offers the reader: the catalogue, and the rows in the order of the queries.\<close>

record snapshot_source =
  ss_node_table :: table_catalogue
  ss_edge_table :: table_catalogue
  ss_node_rows :: "sql_cell list list"
  ss_edge_rows :: "sql_cell list list"

definition read_snapshot_rows_bounded ::
  "json_insert \<Rightarrow> (string \<Rightarrow> raw_json \<times> bool) \<Rightarrow> (json \<Rightarrow> string) \<Rightarrow> snapshot_read_limits \<Rightarrow> snapshot_source
     \<Rightarrow> (graph_error, snapshot) result" where
  "read_snapshot_rows_bounded ins stream ts limits s =
     rbind (preflight_schema (ss_node_table s) (ss_edge_table s)) (\<lambda>_.
     rbind (preflight_rows limits (ss_node_rows s) (ss_edge_rows s)) (\<lambda>_.
     rbind (enter_all limits [1, 2, 2] (lim_values limits)) (\<lambda>budget.
     rbind (read_rows (read_node_row ins stream limits) (ss_node_rows s) budget) (\<lambda>(nodes, budget1).
     rbind (read_rows (read_edge_row ins stream limits) (ss_edge_rows s) budget1) (\<lambda>(edges, _).
     rbind (count_bytes ts limits (nodes, edges)) (\<lambda>_. Inr (nodes, edges)))))))"

definition read_snapshot_bounded ::
  "json_insert \<Rightarrow> (string \<Rightarrow> raw_json \<times> bool) \<Rightarrow> (json \<Rightarrow> string) \<Rightarrow> snapshot_read_limits \<Rightarrow> snapshot_source
     \<Rightarrow> (graph_error, snapshot) result" where
  "read_snapshot_bounded ins stream ts limits s =
     rbind (limits_validate limits) (\<lambda>_. read_snapshot_rows_bounded ins stream ts limits s)"

text \<open>The rows of the graph tables, whose columns hold text only, in key order.\<close>

definition stored_source :: "table_catalogue \<Rightarrow> table_catalogue \<Rightarrow> graph_db \<Rightarrow> snapshot_source" where
  "stored_source nodes edges db =
     \<lparr>ss_node_table = nodes, ss_edge_table = edges,
      ss_node_rows = map (\<lambda>(i, label, props). [CText i, CText label, CText props]) (db_nodes db),
      ss_edge_rows = map (\<lambda>((src, dst, label), props). [CText src, CText dst, CText label, CText props]) (db_edges db)\<rparr>"

text \<open>
  The catalogue rows of the association schema: byte lengths of name, type and text, \<open>None\<close> for a
  field that is not text.
\<close>

type_synonym owned_object = "nat option \<times> nat option \<times> nat option"

definition within :: "nat option \<Rightarrow> nat \<Rightarrow> bool" where
  "within n limit = (case n of None \<Rightarrow> False | Some k \<Rightarrow> k \<le> limit)"

definition preflight_selection_schema :: "nat \<Rightarrow> owned_object list \<Rightarrow> (graph_error, unit) result" where
  "preflight_selection_schema expected objects =
     (if length objects \<noteq> expected \<or> objects = [] \<or>
         \<not> list_all (\<lambda>(name, ty, sql). within name 256 \<and> within ty 16 \<and> within sql 4096) objects
      then Inl (SnapshotBounds InvalidSchema) else Inr ())"

definition read_source_selection_snapshot_bounded ::
  "(string \<Rightarrow> string) \<Rightarrow> json_insert \<Rightarrow> (string \<Rightarrow> raw_json \<times> bool) \<Rightarrow> (json \<Rightarrow> string) \<Rightarrow> snapshot_read_limits
     \<Rightarrow> nat \<Rightarrow> owned_object list \<Rightarrow> table_catalogue \<Rightarrow> table_catalogue \<Rightarrow> fact_key list \<Rightarrow> graph_db
     \<Rightarrow> (graph_error, snapshot \<times> (fact_key \<times> fact_source_state) list) result" where
  "read_source_selection_snapshot_bounded H ins stream ts limits expected objects nodes edges keys db =
     rbind (limits_validate limits) (\<lambda>_.
       if length keys > MAX_SOURCE_SELECTION_KEYS
       then Inl (SourceBindingError ''too many source selection keys'')
       else rbind (try_map fact_key_validate keys) (\<lambda>_.
            rbind (preflight_selection_schema expected objects) (\<lambda>_.
            rbind (check_schema db) (\<lambda>_.
            rbind (read_snapshot_rows_bounded ins stream ts limits (stored_source nodes edges db)) (\<lambda>graph.
              Inr (graph, map (\<lambda>k. (k, selection_state (snapshot_digest H ts graph k) (load_selection_binding k db)))
                (sort (remdups keys))))))))"

end
