(* ===== verification/Bounded_Snapshot_Props.thy ===== *)
theory Bounded_Snapshot_Props
  imports Bounded_Snapshot Graph_Store_Props
begin

text \<open>
  What the bounded reader returns: exactly the plain snapshot, exactly when everything the limits speak of
  is within them.
\<close>

section \<open>Reading one property text\<close>

text \<open>The plain reading of the same text, the values it holds, and whether they stay within a depth.\<close>

fun raw_value :: "json_insert \<Rightarrow> raw_json \<Rightarrow> json option"
  and raw_elements :: "json_insert \<Rightarrow> raw_json list \<Rightarrow> json list option"
  and raw_entries :: "json_insert \<Rightarrow> (string \<times> raw_json) list \<Rightarrow> (string \<times> json) list \<Rightarrow> (string \<times> json) list option" where
  "raw_value ins RawBad = None"
| "raw_value ins RawNull = Some JNull"
| "raw_value ins (RawBool b) = Some (JBool b)"
| "raw_value ins (RawNum n) = Some (JNum n)"
| "raw_value ins (RawStr s) = Some (JStr s)"
| "raw_value ins (RawArr rs closed) = Option.bind (raw_elements ins rs) (\<lambda>vs. if closed then Some (JArr vs) else None)"
| "raw_value ins (RawObj kvs closed) = Option.bind (raw_entries ins kvs []) (\<lambda>m. if closed then Some (JObj m) else None)"
| "raw_elements ins [] = Some []"
| "raw_elements ins (r # rs) = Option.bind (raw_value ins r) (\<lambda>v. Option.bind (raw_elements ins rs) (\<lambda>vs. Some (v # vs)))"
| "raw_entries ins [] m = Some m"
| "raw_entries ins ((k, r) # kvs) m = Option.bind (raw_value ins r) (\<lambda>v. raw_entries ins kvs (ins k v m))"

fun raw_count :: "raw_json \<Rightarrow> nat" where
  "raw_count (RawArr rs c) = 1 + sum_list (map raw_count rs)"
| "raw_count (RawObj kvs c) = 1 + sum_list (map (\<lambda>(k, r). raw_count r) kvs)"
| "raw_count r = 1"

fun raw_within :: "nat \<Rightarrow> nat \<Rightarrow> raw_json \<Rightarrow> bool" where
  "raw_within limit d (RawArr rs c) \<longleftrightarrow> d \<le> limit \<and> (\<forall>r \<in> set rs. raw_within limit (d + 1) r)"
| "raw_within limit d (RawObj kvs c) \<longleftrightarrow> d \<le> limit \<and> (\<forall>(k, r) \<in> set kvs. raw_within limit (d + 1) r)"
| "raw_within limit d r \<longleftrightarrow> d \<le> limit"

definition plain_read :: "json_insert \<Rightarrow> (string \<Rightarrow> raw_json \<times> bool) \<Rightarrow> string \<Rightarrow> json option" where
  "plain_read ins stream text = (case stream text of (r, ended) \<Rightarrow> if ended then raw_value ins r else None)"

lemma enter_iff: "enter limits d n = Inr m \<longleftrightarrow> d \<le> lim_depth limits \<and> n = Suc m"
  by (auto simp: enter_def)

lemma raw_count_pos [simp]: "0 < raw_count r"
  by (cases r) auto

lemma closed_case:
  "(case X of Inl e \<Rightarrow> Inl e | Inr (x, l) \<Rightarrow> if c then Inr (f x, l) else Inl None) = Inr (v, m) \<longleftrightarrow>
     c \<and> (\<exists>x. X = Inr (x, m) \<and> v = f x)"
  by (auto split: sum.splits)

lemma parse_iff:
  "parse_value ins limits d r n = Inr (v, m) \<longleftrightarrow>
     raw_value ins r = Some v \<and> raw_within (lim_depth limits) d r \<and> n = raw_count r + m"
  "parse_elements ins limits d rs n = Inr (vs, m) \<longleftrightarrow>
     raw_elements ins rs = Some vs \<and> (\<forall>r \<in> set rs. raw_within (lim_depth limits) d r) \<and>
     n = sum_list (map raw_count rs) + m"
  "parse_entries ins limits d kvs acc n = Inr (obj, m) \<longleftrightarrow>
     raw_entries ins kvs acc = Some obj \<and> (\<forall>(k, r) \<in> set kvs. raw_within (lim_depth limits) d r) \<and>
     n = sum_list (map (\<lambda>(k, r). raw_count r) kvs) + m"
proof (induction ins limits d r n and ins limits d rs n and ins limits d kvs acc n
    arbitrary: v m and vs m and obj m rule: parse_value_parse_elements_parse_entries.induct)
  case (1 ins limits d r n)
  show ?case
  proof (cases "enter limits d n")
    case (Inl e)
    then have "\<not> raw_within (lim_depth limits) d r \<or> n < raw_count r"
      by (cases r) (auto simp: enter_def split: if_splits)
    then show ?thesis using Inl by (auto simp: parse_value.simps [of ins limits d r n])
  next
    case (Inr left)
    then have n: "d \<le> lim_depth limits" "n = Suc left" by (simp_all add: enter_iff)
    have step: "parse_value ins limits d r n = (case r of
             RawBad \<Rightarrow> Inl None
           | RawNull \<Rightarrow> Inr (JNull, left)
           | RawBool b \<Rightarrow> Inr (JBool b, left)
           | RawNum k \<Rightarrow> Inr (JNum k, left)
           | RawStr s \<Rightarrow> Inr (JStr s, left)
           | RawArr rs closed \<Rightarrow>
               (case parse_elements ins limits (d + 1) rs left of
                  Inl e \<Rightarrow> Inl e
                | Inr (vs, left') \<Rightarrow> if closed then Inr (JArr vs, left') else Inl None)
           | RawObj kvs closed \<Rightarrow>
               (case parse_entries ins limits (d + 1) kvs [] left of
                  Inl e \<Rightarrow> Inl e
                | Inr (m, left') \<Rightarrow> if closed then Inr (JObj m, left') else Inl None))"
      unfolding parse_value.simps [of ins limits d r n] Inr by simp
    show ?thesis
    proof (cases r)
      case (RawArr rs c)
      have IH: "parse_elements ins limits (d + 1) rs left = Inr (vs, m) \<longleftrightarrow> raw_elements ins rs = Some vs \<and>
          (\<forall>r \<in> set rs. raw_within (lim_depth limits) (d + 1) r) \<and> left = sum_list (map raw_count rs) + m" for vs m
        using 1(1) [OF Inr RawArr] .
      show ?thesis unfolding step unfolding RawArr raw_json.case closed_case IH by (auto simp: n bind_eq_Some_conv)
    next
      case (RawObj kvs c)
      have IH: "parse_entries ins limits (d + 1) kvs [] left = Inr (obj, m) \<longleftrightarrow> raw_entries ins kvs [] = Some obj \<and>
          (\<forall>(k, r) \<in> set kvs. raw_within (lim_depth limits) (d + 1) r) \<and>
          left = sum_list (map (\<lambda>(k, r). raw_count r) kvs) + m" for obj m
        using 1(2) [OF Inr RawObj] .
      show ?thesis unfolding step unfolding RawObj raw_json.case closed_case IH by (auto simp: n bind_eq_Some_conv)
    qed (unfold step, auto simp: n)
  qed
next
  case (3 ins limits d r rs n)
  show ?case
  proof
    assume "parse_elements ins limits d (r # rs) n = Inr (vs, m)"
    then obtain v l vs' where p: "parse_value ins limits d r n = Inr (v, l)"
      and q: "parse_elements ins limits d rs l = Inr (vs', m)" and "vs = v # vs'" by (auto split: sum.splits)
    then show "raw_elements ins (r # rs) = Some vs \<and> (\<forall>r \<in> set (r # rs). raw_within (lim_depth limits) d r) \<and>
        n = sum_list (map raw_count (r # rs)) + m"
      using p [unfolded 3(1)] q [unfolded 3(2) [OF p refl]] by simp
  next
    assume R: "raw_elements ins (r # rs) = Some vs \<and> (\<forall>r \<in> set (r # rs). raw_within (lim_depth limits) d r) \<and>
        n = sum_list (map raw_count (r # rs)) + m"
    then obtain v vs' where v: "raw_value ins r = Some v" "raw_elements ins rs = Some vs'" "vs = v # vs'"
      by (auto simp: bind_eq_Some_conv)
    have p: "parse_value ins limits d r n = Inr (v, sum_list (map raw_count rs) + m)" using 3(1) R v by simp
    show "parse_elements ins limits d (r # rs) n = Inr (vs, m)" using p 3(2) [OF p refl, of vs' m] R v by simp
  qed
next
  case (5 ins limits d k r kvs acc n)
  show ?case
  proof
    assume "parse_entries ins limits d ((k, r) # kvs) acc n = Inr (obj, m)"
    then obtain v l where p: "parse_value ins limits d r n = Inr (v, l)"
      and q: "parse_entries ins limits d kvs (ins k v acc) l = Inr (obj, m)" by (auto split: sum.splits)
    then show "raw_entries ins ((k, r) # kvs) acc = Some obj \<and> (\<forall>(k, r) \<in> set ((k, r) # kvs). raw_within (lim_depth limits) d r) \<and>
        n = sum_list (map (\<lambda>(k, r). raw_count r) ((k, r) # kvs)) + m"
      using p [unfolded 5(1)] q [unfolded 5(2) [OF p refl]] by simp
  next
    assume R: "raw_entries ins ((k, r) # kvs) acc = Some obj \<and> (\<forall>(k, r) \<in> set ((k, r) # kvs). raw_within (lim_depth limits) d r) \<and>
        n = sum_list (map (\<lambda>(k, r). raw_count r) ((k, r) # kvs)) + m"
    then obtain v where v: "raw_value ins r = Some v" "raw_entries ins kvs (ins k v acc) = Some obj"
      by (auto simp: bind_eq_Some_conv)
    have p: "parse_value ins limits d r n = Inr (v, sum_list (map (\<lambda>(k, r). raw_count r) kvs) + m)" using 5(1) R v by simp
    show "parse_entries ins limits d ((k, r) # kvs) acc n = Inr (obj, m)" using p 5(2) [OF p refl, of obj m] R v by simp
  qed
qed auto

section \<open>Reading the rows\<close>

definition props_count :: "(string \<Rightarrow> raw_json \<times> bool) \<Rightarrow> string \<Rightarrow> nat" where
  "props_count stream text = raw_count (fst (stream text))"

definition props_within :: "(string \<Rightarrow> raw_json \<times> bool) \<Rightarrow> snapshot_read_limits \<Rightarrow> string \<Rightarrow> bool" where
  "props_within stream limits text = raw_within (lim_depth limits) 4 (fst (stream text))"

lemma parse_properties_iff:
  "parse_properties ins stream limits text n = Inr (v, m) \<longleftrightarrow>
     plain_read ins stream text = Some v \<and> props_within stream limits text \<and> n = props_count stream text + m"
proof -
  have "parse_properties ins stream limits text n = Inr (v, m) \<longleftrightarrow>
      snd (stream text) \<and> parse_value ins limits 4 (fst (stream text)) n = Inr (v, m)"
    by (cases "stream text") (auto simp: parse_properties_def split: sum.splits if_splits)
  then show ?thesis
    by (auto simp: parse_iff plain_read_def props_count_def props_within_def split: prod.splits)
qed

lemma enter_all_iff:
  "enter_all limits ds n = Inr m \<longleftrightarrow> (\<forall>d \<in> set ds. d \<le> lim_depth limits) \<and> n = length ds + m"
proof (induction ds arbitrary: n)
  case (Cons d ds)
  show ?case using Cons by (cases "enter limits d n") (auto simp: enter_all_def enter_iff, auto simp: enter_def split: if_splits)
qed (auto simp: enter_all_def)

lemma props_within_depth: "props_within stream limits text \<Longrightarrow> 4 \<le> lim_depth limits"
  by (cases "fst (stream text)") (auto simp: props_within_def)

lemma read_node_row_iff:
  "read_node_row ins stream limits [CText i, CText l, CText p] n = Inr (x, m) \<longleftrightarrow>
     (node_of_row (plain_read ins stream) (i, l, p) = Inr x \<and> props_within stream limits p) \<and> n = 3 + props_count stream p + m"
proof -
  have "read_node_row ins stream limits [CText i, CText l, CText p] n = Inr (x, m) \<longleftrightarrow>
      (\<exists>k v. enter_all limits [3, 4, 4] n = Inr k \<and> parse_properties ins stream limits p k = Inr (v, m) \<and>
        x = \<lparr>n_id = i, n_label = l, n_props = v\<rparr>)"
    by (auto simp: read_node_row_def field_def rbind_eq_Inr)
  then show ?thesis using props_within_depth [of stream limits p]
    by (cases x) (auto simp: enter_all_iff parse_properties_iff node_of_row_Inr)
qed

lemma read_edge_row_iff:
  "read_edge_row ins stream limits [CText s, CText d, CText l, CText p] n = Inr (x, m) \<longleftrightarrow>
     (edge_of_row (plain_read ins stream) ((s, d, l), p) = Inr x \<and> props_within stream limits p) \<and> n = 4 + props_count stream p + m"
proof -
  have "read_edge_row ins stream limits [CText s, CText d, CText l, CText p] n = Inr (x, m) \<longleftrightarrow>
      (\<exists>k v. enter_all limits [3, 4, 4, 4] n = Inr k \<and> parse_properties ins stream limits p k = Inr (v, m) \<and>
        x = \<lparr>e_src = s, e_dst = d, e_label = l, e_props = v\<rparr>)"
    by (auto simp: read_edge_row_def field_def rbind_eq_Inr)
  then show ?thesis using props_within_depth [of stream limits p]
    by (cases x) (auto simp: enter_all_iff parse_properties_iff edge_of_row_Inr e_key_def)
qed

lemma read_rows_iff:
  assumes "\<And>row x n m. row \<in> set rows \<Longrightarrow> f (cells row) n = Inr (x, m) \<longleftrightarrow> P row x \<and> n = c row + m"
  shows "read_rows f (map cells rows) n = Inr (xs, m) \<longleftrightarrow> list_all2 P rows xs \<and> n = sum_list (map c rows) + m"
  using assms
proof (induction rows arbitrary: n xs)
  case (Cons row rows)
  have "read_rows f (map cells (row # rows)) n = Inr (xs, m) \<longleftrightarrow>
      (\<exists>x l ys. f (cells row) n = Inr (x, l) \<and> read_rows f (map cells rows) l = Inr (ys, m) \<and> xs = x # ys)"
    by (auto simp: rbind_eq_Inr)
  also have "\<dots> \<longleftrightarrow> (\<exists>x l ys. (P row x \<and> n = c row + l) \<and> (list_all2 P rows ys \<and> l = sum_list (map c rows) + m) \<and> xs = x # ys)"
    using Cons.IH Cons.prems by simp
  also have "\<dots> \<longleftrightarrow> list_all2 P (row # rows) xs \<and> n = sum_list (map c (row # rows)) + m"
    by (auto simp: list_all2_Cons1)
  finally show ?case .
qed auto

lemma spend_text_iff:
  "try_fold spend_cell (map CText ss) n = Inr m \<longleftrightarrow> n = sum_list (map length ss) + m"
proof (induction ss arbitrary: n)
  case (Cons t ss)
  show ?case
  proof (cases "length t \<le> n")
    case True
    then have "try_fold spend_cell (map CText (t # ss)) n = try_fold spend_cell (map CText ss) (n - length t)"
      by (simp add: spend_cell_def)
    then have "try_fold spend_cell (map CText (t # ss)) n = Inr m \<longleftrightarrow> n - length t = sum_list (map length ss) + m"
      by (simp only: Cons.IH)
    then show ?thesis using True by auto
  next
    case False
    then show ?thesis by (simp add: spend_cell_def)
  qed
qed simp

lemma spend_rows_iff:
  assumes "\<And>row. cells row = map CText (texts row)"
  shows "try_fold (try_fold spend_cell) (map cells rows) n = Inr m \<longleftrightarrow>
     n = sum_list (map (\<lambda>row. sum_list (map length (texts row))) rows) + m"
  by (induction rows arbitrary: n) (auto simp: rbind_eq_Inr assms spend_text_iff)

section \<open>The bounded snapshot\<close>

text \<open>What the limits are compared with: stored bytes, JSON values with their envelopes, and depth.\<close>

definition node_texts :: "string \<times> string \<times> string \<Rightarrow> string list" where
  "node_texts row = (case row of (i, l, p) \<Rightarrow> [i, l, p])"

definition edge_texts :: "edge_key \<times> string \<Rightarrow> string list" where
  "edge_texts row = (case row of ((s, d, l), p) \<Rightarrow> [s, d, l, p])"

definition stored_bytes :: "graph_db \<Rightarrow> nat" where
  "stored_bytes db =
     sum_list (map (\<lambda>row. sum_list (map length (node_texts row))) (db_nodes db)) +
     sum_list (map (\<lambda>row. sum_list (map length (edge_texts row))) (db_edges db))"

definition graph_values :: "(string \<Rightarrow> raw_json \<times> bool) \<Rightarrow> graph_db \<Rightarrow> nat" where
  "graph_values stream db =
     3 + sum_list (map (\<lambda>row. 3 + props_count stream (last (node_texts row))) (db_nodes db)) +
     sum_list (map (\<lambda>row. 4 + props_count stream (last (edge_texts row))) (db_edges db))"

definition depth_within :: "(string \<Rightarrow> raw_json \<times> bool) \<Rightarrow> snapshot_read_limits \<Rightarrow> graph_db \<Rightarrow> bool" where
  "depth_within stream limits db \<longleftrightarrow> 2 \<le> lim_depth limits \<and>
     (\<forall>row \<in> set (db_nodes db). props_within stream limits (last (node_texts row))) \<and>
     (\<forall>row \<in> set (db_edges db). props_within stream limits (last (edge_texts row)))"

lemma budget_spent:
  "(\<exists>n. (D \<and> a = c + n) \<and> (\<exists>k. ((P \<and> Q) \<and> n = A + k) \<and> (\<exists>m. (R \<and> S) \<and> k = B + m))) \<longleftrightarrow>
     (P \<and> R) \<and> c + A + B \<le> (a :: nat) \<and> D \<and> Q \<and> S"
proof -
  have "(\<exists>n. a = c + n \<and> (\<exists>k. n = A + k \<and> (\<exists>m. k = B + m))) \<longleftrightarrow> c + A + B \<le> a" by presburger
  then show ?thesis by blast
qed

lemma rows_bounded_iff:
  "read_snapshot_rows_bounded ins stream ts limits (stored_source nt et db) = Inr g \<longleftrightarrow>
     preflight_schema nt et = Inr () \<and> read_snapshot (plain_read ins stream) db = Inr g \<and>
     length (db_nodes db) + length (db_edges db) \<le> lim_rows limits \<and> stored_bytes db \<le> lim_bytes limits \<and>
     graph_values stream db \<le> lim_values limits \<and> depth_within stream limits db \<and>
     length (ts (canonical_graph g)) \<le> lim_bytes limits"
proof -
  define nc where "nc = (\<lambda>(i :: string, l :: string, p :: string). [CText i, CText l, CText p])"
  define ec where "ec = (\<lambda>((s :: string, d :: string, l :: string), p :: string). [CText s, CText d, CText l, CText p])"
  obtain ns es where g: "g = (ns, es)" by (cases g)
  have rows: "ss_node_rows (stored_source nt et db) = map nc (db_nodes db)"
    "ss_edge_rows (stored_source nt et db) = map ec (db_edges db)"
    by (simp_all add: stored_source_def nc_def ec_def)
  have nt: "nc row = map CText (node_texts row)" and et: "ec row' = map CText (edge_texts row')" for row row'
    by (auto simp: nc_def ec_def node_texts_def edge_texts_def split: prod.splits)
  have b: "stored_bytes db \<le> lim_bytes limits \<longleftrightarrow> (\<exists>k. lim_bytes limits = stored_bytes db + k)"
    by (rule le_iff_add)
  have pre: "(\<exists>r. preflight_rows limits (map nc (db_nodes db)) (map ec (db_edges db)) = Inr r) \<longleftrightarrow>
      length (db_nodes db) + length (db_edges db) \<le> lim_rows limits \<and> stored_bytes db \<le> lim_bytes limits"
    unfolding b
    by (auto simp: preflight_rows_def rbind_eq_Inr spend_rows_iff [OF nt] spend_rows_iff [OF et] stored_bytes_def add.assoc
        split: if_splits)
  have nodes: "read_rows (read_node_row ins stream limits) (map nc (db_nodes db)) n = Inr (xs, m) \<longleftrightarrow>
      list_all2 (\<lambda>row x. node_of_row (plain_read ins stream) row = Inr x \<and> props_within stream limits (last (node_texts row))) (db_nodes db) xs \<and>
      n = sum_list (map (\<lambda>row. 3 + props_count stream (last (node_texts row))) (db_nodes db)) + m" for n xs m
    by (rule read_rows_iff) (auto simp: nc_def node_texts_def read_node_row_iff split: prod.splits)
  have edges: "read_rows (read_edge_row ins stream limits) (map ec (db_edges db)) n = Inr (xs, m) \<longleftrightarrow>
      list_all2 (\<lambda>row x. edge_of_row (plain_read ins stream) row = Inr x \<and> props_within stream limits (last (edge_texts row))) (db_edges db) xs \<and>
      n = sum_list (map (\<lambda>row. 4 + props_count stream (last (edge_texts row))) (db_edges db)) + m" for n xs m
    by (rule read_rows_iff) (auto simp: ec_def edge_texts_def read_edge_row_iff split: prod.splits)
  have split_all2: "list_all2 (\<lambda>row x. f row = Inr x \<and> Q row) rows xs \<longleftrightarrow> try_map f rows = Inr xs \<and> (\<forall>row \<in> set rows. Q row)"
    for f :: "'r \<Rightarrow> (graph_error, 'x) result" and Q rows xs
    unfolding try_map_Inr_iff by (auto simp: list_all2_conv_all_nth all_set_conv_all_nth)
  have snap: "read_snapshot (plain_read ins stream) db = Inr (ns, es) \<longleftrightarrow>
      try_map (node_of_row (plain_read ins stream)) (db_nodes db) = Inr ns \<and>
      try_map (edge_of_row (plain_read ins stream)) (db_edges db) = Inr es"
    by (auto simp: read_snapshot_def read_snapshot_filtered_def read_nodes_def read_edges_def label_selection_def rbind_eq_Inr
        case_prod_unfold)
  have cat: "ss_node_table (stored_source nt et db) = nt" "ss_edge_table (stored_source nt et db) = et"
    by (simp_all add: stored_source_def)
  have rest: "(\<exists>n. enter_all limits [1, 2, 2] (lim_values limits) = Inr n \<and>
      (\<exists>k. read_rows (read_node_row ins stream limits) (map nc (db_nodes db)) n = Inr (ns, k) \<and>
        (\<exists>m. read_rows (read_edge_row ins stream limits) (map ec (db_edges db)) k = Inr (es, m)))) \<longleftrightarrow>
      read_snapshot (plain_read ins stream) db = Inr (ns, es) \<and> graph_values stream db \<le> lim_values limits \<and>
      depth_within stream limits db"
    unfolding nodes edges split_all2 snap enter_all_iff depth_within_def graph_values_def budget_spent by auto
  have "read_snapshot_rows_bounded ins stream ts limits (stored_source nt et db) = Inr (ns, es) \<longleftrightarrow>
      preflight_schema nt et = Inr () \<and>
      (\<exists>r. preflight_rows limits (map nc (db_nodes db)) (map ec (db_edges db)) = Inr r) \<and>
      (\<exists>n. enter_all limits [1, 2, 2] (lim_values limits) = Inr n \<and>
        (\<exists>k. read_rows (read_node_row ins stream limits) (map nc (db_nodes db)) n = Inr (ns, k) \<and>
          (\<exists>m. read_rows (read_edge_row ins stream limits) (map ec (db_edges db)) k = Inr (es, m)))) \<and>
      length (ts (canonical_graph (ns, es))) \<le> lim_bytes limits"
    unfolding read_snapshot_rows_bounded_def rows cat
    by (simp add: rbind_eq_Inr count_bytes_def case_prod_unfold)
  then show ?thesis unfolding g pre rest by blast
qed

text \<open>
  C31: the bounded reader of a stored graph succeeds with a snapshot exactly when the limits are valid, the
  tables are the expected ones, the plain read of the same tables returns that snapshot, and rows, stored
  bytes, JSON values (duplicate keys counted), JSON depth and canonical bytes are all within the limits.
\<close>

theorem bounded_read_exact:
  "read_snapshot_bounded ins stream ts limits (stored_source nt et db) = Inr g \<longleftrightarrow>
     limits_validate limits = Inr () \<and> preflight_schema nt et = Inr () \<and>
     read_snapshot (plain_read ins stream) db = Inr g \<and>
     length (db_nodes db) + length (db_edges db) \<le> lim_rows limits \<and> stored_bytes db \<le> lim_bytes limits \<and>
     graph_values stream db \<le> lim_values limits \<and> depth_within stream limits db \<and>
     length (ts (canonical_graph g)) \<le> lim_bytes limits"
  unfolding read_snapshot_bounded_def rbind_eq_Inr rows_bounded_iff by auto

text \<open>The default limits are admitted, and narrowing any limit keeps them so unless it becomes zero.\<close>

lemma limits_default_valid: "limits_validate limits_default = Inr ()"
  by (simp add: limits_validate_def limits_default_def LIM_MAX_BYTES_def LIM_MAX_ROWS_def LIM_MAX_DEPTH_def LIM_MAX_VALUES_def)

text \<open>A bounded selection of facts that succeeds is the unbounded one.\<close>

theorem bounded_selection_agrees:
  "read_source_selection_snapshot_bounded H ins stream ts limits expected objects nt et keys db = Inr r \<Longrightarrow>
     read_source_selection_snapshot H ts (plain_read ins stream) keys db = Inr r"
  by (auto simp: read_source_selection_snapshot_bounded_def read_source_selection_snapshot_def rbind_eq_Inr rows_bounded_iff
      split: if_splits)

end
