(* ===== verification/Parallel_Merge.thy ===== *)
theory Parallel_Merge
  imports Cart_Prelude
begin

text \<open>
  Parallel extraction with an in-order merge (\<^verbatim>\<open>crates/source-walk/src/parallel.rs\<close>): the worker count,
  and \<^verbatim>\<open>map_ordered\<close> as a step relation over its threads. One step is one critical section of the mutex or
  one operation outside it (running \<open>work\<close>, \<open>merge\<close> or a notification); a wait on a condition variable
  releases the mutex and ends with a notification or spuriously. \<open>work\<close> and \<open>merge\<close> are arguments, as they
  are in the source; a panic is a value.
\<close>

section \<open>How many workers\<close>

definition MAX_WORKERS :: nat where "MAX_WORKERS = 64"
definition UNKNOWN_MEMORY_AUTO_CAP :: nat where "UNKNOWN_MEMORY_AUTO_CAP = 4"

datatype parallelism_setting = AutoWorkers | FixedWorkers nat

definition clamp_workers :: "nat \<Rightarrow> nat" where
  "clamp_workers w = max 1 (min MAX_WORKERS w)"

definition resolve_auto :: "nat \<Rightarrow> u64 option \<Rightarrow> nat" where
  "resolve_auto performance_cores physical_memory =
     (let cores = max 1 (performance_cores - 1);
          memory_cap = max 1 (case physical_memory of None \<Rightarrow> UNKNOWN_MEMORY_AUTO_CAP | Some bytes \<Rightarrow> unat (bytes div 2 ^ 31))
      in min (min cores memory_cap) MAX_WORKERS)"

definition setting_workers :: "nat \<Rightarrow> parallelism_setting \<Rightarrow> nat" where
  "setting_workers auto p = (case p of AutoWorkers \<Rightarrow> auto | FixedWorkers w \<Rightarrow> clamp_workers w)"

text \<open>The process-wide cell: zero is \<^verbatim>\<open>Auto\<close>.\<close>

definition set_parallelism :: "parallelism_setting \<Rightarrow> nat" where
  "set_parallelism p = (case p of AutoWorkers \<Rightarrow> 0 | FixedWorkers w \<Rightarrow> clamp_workers w)"

definition parallelism :: "nat \<Rightarrow> parallelism_setting" where
  "parallelism configured = (if configured = 0 then AutoWorkers else FixedWorkers configured)"

definition workers_now :: "nat \<Rightarrow> nat \<Rightarrow> nat option \<Rightarrow> nat" where
  "workers_now auto configured pinned = (case pinned of Some w \<Rightarrow> w | None \<Rightarrow> setting_workers auto (parallelism configured))"

text \<open>Running a body with a pinned count: the previous pin is restored after it.\<close>

definition with_workers :: "nat \<Rightarrow> (nat option \<Rightarrow> 'r) \<Rightarrow> nat option \<Rightarrow> 'r \<times> nat option" where
  "with_workers w body pinned = (body (Some (clamp_workers w)), pinned)"

section \<open>The serial loop\<close>

datatype ('e, 't, 'p) outcome = Done "('e, 't) result" | Panic 'p
datatype ('e, 'p) ending = Returned "('e, unit) result" | Unwound 'p

fun serial_loop ::
  "('i \<Rightarrow> ('e, 't, 'p) outcome) \<Rightarrow> ('i \<Rightarrow> 't \<Rightarrow> 's \<Rightarrow> ('e, 'p) ending \<times> 's) \<Rightarrow> 'i list \<Rightarrow> 's \<Rightarrow> ('e, 'p) ending \<times> 's" where
  "serial_loop work merge [] s = (Returned (Inr ()), s)"
| "serial_loop work merge (item # items) s =
     (case work item of
        Panic p \<Rightarrow> (Unwound p, s)
      | Done (Inl e) \<Rightarrow> (Returned (Inl e), s)
      | Done (Inr v) \<Rightarrow>
          (case merge item v s of
             (Returned (Inr _), s') \<Rightarrow> serial_loop work merge items s'
           | (r, s') \<Rightarrow> (r, s')))"

section \<open>Threads\<close>

datatype worker = Claiming | WaitClaim | Working nat | Notifying | Exited

datatype ('o, 'r) main_thread =
    Looking nat | WaitReady nat | Taken nat 'o | Merging nat 'o | Raising 'r | Ending 'r | Stopped 'r | Ended 'r

record ('o, 'r, 's) par_state =
  ps_next :: nat
  ps_merged :: nat
  ps_stop :: bool
  ps_ready :: "(nat, 'o) omap"
  ps_workers :: "worker list"
  ps_main :: "('o, 'r) main_thread"
  ps_acc :: 's

definition set_worker :: "nat \<Rightarrow> worker \<Rightarrow> ('o, 'r, 's) par_state \<Rightarrow> ('o, 'r, 's) par_state" where
  "set_worker w x st = st\<lparr>ps_workers := (ps_workers st)[w := x]\<rparr>"

text \<open>\<^verbatim>\<open>claimable.notify_all\<close> and \<^verbatim>\<open>finished.notify_all\<close>.\<close>

definition woken :: "worker \<Rightarrow> worker" where
  "woken x = (if x = WaitClaim then Claiming else x)"

definition notify_claimable :: "('o, 'r, 's) par_state \<Rightarrow> ('o, 'r, 's) par_state" where
  "notify_claimable st = st\<lparr>ps_workers := map woken (ps_workers st)\<rparr>"

definition notify_finished :: "('o, 'r, 's) par_state \<Rightarrow> ('o, 'r, 's) par_state" where
  "notify_finished st = (case ps_main st of WaitReady i \<Rightarrow> st\<lparr>ps_main := Looking i\<rparr> | _ \<Rightarrow> st)"

definition after_merge :: "nat \<Rightarrow> nat \<Rightarrow> ('e, 'p) ending \<Rightarrow> ('o, ('e, 'p) ending) main_thread" where
  "after_merge n i r =
     (case r of
        Returned (Inr _) \<Rightarrow> if Suc i < n then Looking (Suc i) else Ending (Returned (Inr ()))
      | _ \<Rightarrow> Ending r)"

inductive par_step ::
  "'i list \<Rightarrow> ('i \<Rightarrow> ('e, 't, 'p) outcome) \<Rightarrow> ('i \<Rightarrow> 't \<Rightarrow> 's \<Rightarrow> ('e, 'p) ending \<times> 's) \<Rightarrow> nat
     \<Rightarrow> (('e, 't, 'p) outcome, ('e, 'p) ending, 's) par_state \<Rightarrow> (('e, 't, 'p) outcome, ('e, 'p) ending, 's) par_state \<Rightarrow> bool"
  for items work merge window where
  claim_exit: "w < length (ps_workers st) \<Longrightarrow> ps_workers st ! w = Claiming \<Longrightarrow>
     ps_stop st \<or> ps_next st \<ge> length items \<Longrightarrow> par_step items work merge window st (set_worker w Exited st)"
| claim: "w < length (ps_workers st) \<Longrightarrow> ps_workers st ! w = Claiming \<Longrightarrow> \<not> ps_stop st \<Longrightarrow> ps_next st < length items \<Longrightarrow>
     ps_next st < ps_merged st + window \<Longrightarrow>
     par_step items work merge window st (set_worker w (Working (ps_next st)) (st\<lparr>ps_next := Suc (ps_next st)\<rparr>))"
| claim_wait: "w < length (ps_workers st) \<Longrightarrow> ps_workers st ! w = Claiming \<Longrightarrow> \<not> ps_stop st \<Longrightarrow> ps_next st < length items \<Longrightarrow>
     \<not> ps_next st < ps_merged st + window \<Longrightarrow> par_step items work merge window st (set_worker w WaitClaim st)"
| finish: "w < length (ps_workers st) \<Longrightarrow> ps_workers st ! w = Working i \<Longrightarrow>
     par_step items work merge window st
       (set_worker w Notifying (st\<lparr>ps_ready := om_put i (work (items ! i)) (ps_ready st)\<rparr>))"
| announce: "w < length (ps_workers st) \<Longrightarrow> ps_workers st ! w = Notifying \<Longrightarrow>
     par_step items work merge window st (set_worker w Claiming (notify_finished st))"
| take: "ps_main st = Looking i \<Longrightarrow> om_get (ps_ready st) i = Some r \<Longrightarrow>
     par_step items work merge window st
       (st\<lparr>ps_ready := om_del i (ps_ready st), ps_merged := Suc i, ps_main := Taken i r\<rparr>)"
| wait: "ps_main st = Looking i \<Longrightarrow> om_get (ps_ready st) i = None \<Longrightarrow>
     par_step items work merge window st (st\<lparr>ps_main := WaitReady i\<rparr>)"
| taken: "ps_main st = Taken i r \<Longrightarrow>
     par_step items work merge window st (notify_claimable (st\<lparr>ps_main := Merging i r\<rparr>))"
| merge_value: "ps_main st = Merging i (Done (Inr v)) \<Longrightarrow> merge (items ! i) v (ps_acc st) = (r, acc) \<Longrightarrow>
     par_step items work merge window st (st\<lparr>ps_acc := acc, ps_main := after_merge (length items) i r\<rparr>)"
| merge_error: "ps_main st = Merging i (Done (Inl e)) \<Longrightarrow>
     par_step items work merge window st (st\<lparr>ps_main := Ending (Returned (Inl e))\<rparr>)"
| merge_panic: "ps_main st = Merging i (Panic p) \<Longrightarrow>
     par_step items work merge window st (st\<lparr>ps_stop := True, ps_main := Raising (Unwound p)\<rparr>)"
| raise: "ps_main st = Raising r \<Longrightarrow>
     par_step items work merge window st (notify_claimable (st\<lparr>ps_main := Ending r\<rparr>))"
| stop: "ps_main st = Ending r \<Longrightarrow>
     par_step items work merge window st (st\<lparr>ps_stop := True, ps_main := Stopped r\<rparr>)"
| stop_notify: "ps_main st = Stopped r \<Longrightarrow>
     par_step items work merge window st (notify_claimable (st\<lparr>ps_main := Ended r\<rparr>))"

text \<open>A wait may also end without a notification.\<close>

inductive spurious_wake :: "('o, 'r, 's) par_state \<Rightarrow> ('o, 'r, 's) par_state \<Rightarrow> bool" where
  wake_worker: "w < length (ps_workers st) \<Longrightarrow> ps_workers st ! w = WaitClaim \<Longrightarrow> spurious_wake st (set_worker w Claiming st)"
| wake_main: "ps_main st = WaitReady i \<Longrightarrow> spurious_wake st (st\<lparr>ps_main := Looking i\<rparr>)"

definition par_init :: "nat \<Rightarrow> 's \<Rightarrow> ('o, 'r, 's) par_state" where
  "par_init workers s =
     \<lparr>ps_next = 0, ps_merged = 0, ps_stop = False, ps_ready = [], ps_workers = replicate workers Claiming,
      ps_main = Looking 0, ps_acc = s\<rparr>"

inductive par_reachable ::
  "'i list \<Rightarrow> ('i \<Rightarrow> ('e, 't, 'p) outcome) \<Rightarrow> ('i \<Rightarrow> 't \<Rightarrow> 's \<Rightarrow> ('e, 'p) ending \<times> 's) \<Rightarrow> nat \<Rightarrow> 's
     \<Rightarrow> (('e, 't, 'p) outcome, ('e, 'p) ending, 's) par_state \<Rightarrow> bool"
  for items work merge workers s where
  start: "par_reachable items work merge workers s (par_init workers s)"
| step: "par_reachable items work merge workers s st \<Longrightarrow> par_step items work merge (workers * 4) st st' \<Longrightarrow>
     par_reachable items work merge workers s st'"
| spurious: "par_reachable items work merge workers s st \<Longrightarrow> spurious_wake st st' \<Longrightarrow>
     par_reachable items work merge workers s st'"

text \<open>The scope returns when the calling thread is done and every worker has exited.\<close>

definition par_final :: "('o, 'r, 's) par_state \<Rightarrow> 'r \<Rightarrow> 's \<Rightarrow> bool" where
  "par_final st r s \<longleftrightarrow> ps_main st = Ended r \<and> list_all (\<lambda>w. w = Exited) (ps_workers st) \<and> ps_acc st = s"

inductive map_ordered ::
  "nat \<Rightarrow> 'i list \<Rightarrow> ('i \<Rightarrow> ('e, 't, 'p) outcome) \<Rightarrow> ('i \<Rightarrow> 't \<Rightarrow> 's \<Rightarrow> ('e, 'p) ending \<times> 's) \<Rightarrow> 's
     \<Rightarrow> ('e, 'p) ending \<Rightarrow> 's \<Rightarrow> bool" for workers items work merge s where
  serially: "min workers (length items) \<le> 1 \<Longrightarrow> serial_loop work merge items s = (r, s') \<Longrightarrow>
     map_ordered workers items work merge s r s'"
| in_parallel: "\<not> min workers (length items) \<le> 1 \<Longrightarrow>
     par_reachable items work merge (min workers (length items)) s st \<Longrightarrow> par_final st r s' \<Longrightarrow>
     map_ordered workers items work merge s r s'"

end
