(* ===== verification/Parallel_Merge_Props.thy ===== *)
theory Parallel_Merge_Props
  imports Parallel_Merge
begin

text \<open>
  The parallel map is the serial loop: whatever the schedule, a run that ends has the serial result, no
  reachable state is stuck before the end, runs are finite up to spurious wake-ups, and the results held at
  once never exceed the window.
\<close>

section \<open>The worker count\<close>

lemma resolve_auto_range: "1 \<le> resolve_auto c m \<and> resolve_auto c m \<le> MAX_WORKERS"
  by (auto simp: resolve_auto_def Let_def MAX_WORKERS_def)

lemma configured_round_trip: "setting_workers auto (parallelism (set_parallelism p)) = setting_workers auto p"
  by (cases p) (auto simp: setting_workers_def parallelism_def set_parallelism_def clamp_workers_def MAX_WORKERS_def)

section \<open>Invariants\<close>

type_synonym ('e, 't, 'p, 's) pstate = "(('e, 't, 'p) outcome, ('e, 'p) ending, 's) par_state"

text \<open>Claimed and unmerged indices are being worked on or ready, each once, within the window.\<close>

definition counters_ok :: "nat \<Rightarrow> nat \<Rightarrow> ('o, 'r, 's) par_state \<Rightarrow> bool" where
  "counters_ok n window st \<longleftrightarrow>
     ps_next st \<le> n \<and> ps_merged st \<le> ps_next st \<and> ps_next st \<le> ps_merged st + window"

definition ready_ok :: "(nat \<Rightarrow> 'o) \<Rightarrow> ('o, 'r, 's) par_state \<Rightarrow> bool" where
  "ready_ok f st \<longleftrightarrow>
     (\<forall>i r. om_get (ps_ready st) i = Some r \<longrightarrow> ps_merged st \<le> i \<and> i < ps_next st \<and> r = f i)"

definition works_on :: "('o, 'r, 's) par_state \<Rightarrow> nat \<Rightarrow> nat \<Rightarrow> bool" where
  "works_on st w i \<longleftrightarrow> w < length (ps_workers st) \<and> ps_workers st ! w = Working i"

definition working_ok :: "('o, 'r, 's) par_state \<Rightarrow> bool" where
  "working_ok st \<longleftrightarrow>
     (\<forall>w i. works_on st w i \<longrightarrow> ps_merged st \<le> i \<and> i < ps_next st \<and> om_get (ps_ready st) i = None \<and>
        (\<forall>w'. works_on st w' i \<longrightarrow> w' = w))"

definition covered_ok :: "('o, 'r, 's) par_state \<Rightarrow> bool" where
  "covered_ok st \<longleftrightarrow>
     (\<forall>i. ps_merged st \<le> i \<longrightarrow> i < ps_next st \<longrightarrow> om_get (ps_ready st) i = None \<longrightarrow> (\<exists>w. works_on st w i))"

definition claims_ok :: "'i list \<Rightarrow> ('i \<Rightarrow> ('e, 't, 'p) outcome) \<Rightarrow> nat \<Rightarrow> ('e, 't, 'p, 's) pstate \<Rightarrow> bool" where
  "claims_ok items work window st \<longleftrightarrow>
     counters_ok (length items) window st \<and> ready_ok (\<lambda>i. work (items ! i)) st \<and> working_ok st \<and> covered_ok st"

text \<open>What is left for the calling thread is what is left of the serial loop.\<close>

definition main_ok ::
  "'i list \<Rightarrow> ('i \<Rightarrow> ('e, 't, 'p) outcome) \<Rightarrow> ('i \<Rightarrow> 't \<Rightarrow> 's \<Rightarrow> ('e, 'p) ending \<times> 's) \<Rightarrow> 's \<Rightarrow> ('e, 't, 'p, 's) pstate \<Rightarrow> bool" where
  "main_ok items work merge s0 st \<longleftrightarrow>
     (let left = (\<lambda>i. i < length items \<and> serial_loop work merge items s0 = serial_loop work merge (drop i items) (ps_acc st));
          over = (\<lambda>r. serial_loop work merge items s0 = (r, ps_acc st)) in
      case ps_main st of
        Looking i \<Rightarrow> ps_merged st = i \<and> left i
      | WaitReady i \<Rightarrow> ps_merged st = i \<and> left i
      | Taken i r \<Rightarrow> ps_merged st = Suc i \<and> left i \<and> r = work (items ! i)
      | Merging i r \<Rightarrow> ps_merged st = Suc i \<and> left i \<and> r = work (items ! i)
      | Raising r \<Rightarrow> over r
      | Ending r \<Rightarrow> over r
      | Stopped r \<Rightarrow> over r \<and> ps_stop st
      | Ended r \<Rightarrow> over r \<and> ps_stop st)"

definition over :: "('o, 'r) main_thread \<Rightarrow> bool" where
  "over m = (case m of Raising r \<Rightarrow> True | Ending r \<Rightarrow> True | Stopped r \<Rightarrow> True | Ended r \<Rightarrow> True | _ \<Rightarrow> False)"

definition notifying :: "('o, 'r) main_thread \<Rightarrow> bool" where
  "notifying m = (case m of Taken i r \<Rightarrow> True | Raising r \<Rightarrow> True | Stopped r \<Rightarrow> True | _ \<Rightarrow> False)"

text \<open>Nobody sleeps through what it waits for.\<close>

definition waits_ok :: "'i list \<Rightarrow> nat \<Rightarrow> ('e, 't, 'p, 's) pstate \<Rightarrow> bool" where
  "waits_ok items window st \<longleftrightarrow>
     (ps_stop st \<longrightarrow> over (ps_main st)) \<and>
     (\<forall>w < length (ps_workers st). ps_workers st ! w = Exited \<longrightarrow> ps_stop st \<or> length items \<le> ps_next st) \<and>
     (\<forall>w < length (ps_workers st). ps_workers st ! w = WaitClaim \<longrightarrow>
        (\<not> ps_stop st \<and> ps_next st < length items \<and> ps_merged st + window \<le> ps_next st) \<or> notifying (ps_main st)) \<and>
     (\<forall>i. ps_main st = WaitReady i \<longrightarrow>
        om_get (ps_ready st) i = None \<or> (\<exists>w < length (ps_workers st). ps_workers st ! w = Notifying))"

lemma works_on_set_worker:
  "works_on (set_worker w x st) w' i \<longleftrightarrow> w' < length (ps_workers st) \<and> (if w' = w then x = Working i else works_on st w' i)"
  by (auto simp: works_on_def set_worker_def nth_list_update)

lemma works_on_upd [simp]:
  "works_on (st\<lparr>ps_next := a\<rparr>) = works_on st" "works_on (st\<lparr>ps_merged := a\<rparr>) = works_on st"
  "works_on (st\<lparr>ps_stop := b\<rparr>) = works_on st" "works_on (st\<lparr>ps_ready := r\<rparr>) = works_on st"
  "works_on (st\<lparr>ps_main := m\<rparr>) = works_on st" "works_on (st\<lparr>ps_acc := c\<rparr>) = works_on st"
  "works_on (notify_claimable st) = works_on st" "works_on (notify_finished st) = works_on st"
  by (auto simp: works_on_def fun_eq_iff notify_claimable_def notify_finished_def woken_def split: main_thread.splits if_splits)

lemma sel_ops [simp]:
  "ps_next (set_worker w x st) = ps_next st" "ps_merged (set_worker w x st) = ps_merged st"
  "ps_stop (set_worker w x st) = ps_stop st" "ps_ready (set_worker w x st) = ps_ready st"
  "ps_main (set_worker w x st) = ps_main st" "ps_acc (set_worker w x st) = ps_acc st"
  "ps_next (notify_claimable st) = ps_next st" "ps_merged (notify_claimable st) = ps_merged st"
  "ps_stop (notify_claimable st) = ps_stop st" "ps_ready (notify_claimable st) = ps_ready st"
  "ps_main (notify_claimable st) = ps_main st" "ps_acc (notify_claimable st) = ps_acc st"
  "ps_next (notify_finished st) = ps_next st" "ps_merged (notify_finished st) = ps_merged st"
  "ps_stop (notify_finished st) = ps_stop st" "ps_ready (notify_finished st) = ps_ready st"
  "ps_workers (notify_finished st) = ps_workers st" "ps_acc (notify_finished st) = ps_acc st"
  by (auto simp: set_worker_def notify_claimable_def notify_finished_def split: main_thread.splits)

lemma claims_frame:
  assumes "claims_ok items work window st" "ps_next st' = ps_next st" "ps_merged st' = ps_merged st" "ps_ready st' = ps_ready st"
    "works_on st' = works_on st"
  shows "claims_ok items work window st'"
  using assms by (simp add: claims_ok_def counters_ok_def ready_ok_def working_ok_def covered_ok_def)

lemma works_on_replace:
  assumes "w < length (ps_workers st)" "\<forall>i. ps_workers st ! w \<noteq> Working i" "\<forall>i. x \<noteq> Working i"
  shows "works_on (set_worker w x st) = works_on st"
  using assms by (auto simp: fun_eq_iff works_on_set_worker) (auto simp: works_on_def)

lemma claims_claim:
  assumes c: "claims_ok items work window st" and w: "w < length (ps_workers st)" "ps_workers st ! w = Claiming"
    and g: "ps_next st < length items" "ps_next st < ps_merged st + window"
  shows "claims_ok items work window (set_worker w (Working (ps_next st)) (st\<lparr>ps_next := Suc (ps_next st)\<rparr>))" (is "claims_ok _ _ _ ?st")
proof -
  have on: "works_on ?st w' i \<longleftrightarrow> (if w' = w then i = ps_next st else works_on st w' i)" for w' i
    using w by (auto simp: works_on_set_worker) (auto simp: works_on_def)
  have old: "works_on st w' i \<Longrightarrow> i < ps_next st \<and> w' \<noteq> w" for w' i
    using c w(2) by (auto simp: claims_ok_def working_ok_def) (auto simp: works_on_def)
  have "om_get (ps_ready st) (ps_next st) = None"
    using c by (cases "om_get (ps_ready st) (ps_next st)") (auto simp: claims_ok_def ready_ok_def)
  moreover have "ps_merged st \<le> ps_next st" using c by (simp add: claims_ok_def counters_ok_def)
  ultimately have "working_ok ?st"
    using c old by (auto simp: claims_ok_def working_ok_def on less_Suc_eq split: if_splits)
  moreover have "covered_ok ?st"
    using c old by (fastforce simp: claims_ok_def covered_ok_def on less_Suc_eq)
  ultimately show ?thesis using c g by (auto simp: claims_ok_def counters_ok_def ready_ok_def less_Suc_eq)
qed

lemma claims_finish:
  assumes c: "claims_ok items work window st" and w: "w < length (ps_workers st)" "ps_workers st ! w = Working i"
  shows "claims_ok items work window (set_worker w Notifying (st\<lparr>ps_ready := om_put i (work (items ! i)) (ps_ready st)\<rparr>))"
    (is "claims_ok _ _ _ ?st")
proof -
  have me: "works_on st w i" using w by (simp add: works_on_def)
  have on: "works_on ?st w' k \<longleftrightarrow> w' \<noteq> w \<and> works_on st w' k" for w' k
    by (auto simp: works_on_set_worker) (auto simp: works_on_def)
  have i: "ps_merged st \<le> i" "i < ps_next st" "works_on st w' i \<Longrightarrow> w' = w" for w'
    using c me by (auto simp: claims_ok_def working_ok_def)
  have "works_on st w k \<longleftrightarrow> k = i" for k using w by (auto simp: works_on_def)
  then have "covered_ok ?st" using c by (auto simp: claims_ok_def covered_ok_def on) metis
  moreover have "working_ok ?st" using c i(3) by (auto simp: claims_ok_def working_ok_def on)
  ultimately show ?thesis using c i(1,2) by (auto simp: claims_ok_def counters_ok_def ready_ok_def)
qed

lemma claims_take:
  assumes c: "claims_ok items work window st" and r: "om_get (ps_ready st) i = Some r" "ps_merged st = i"
  shows "claims_ok items work window (st\<lparr>ps_ready := om_del i (ps_ready st), ps_merged := Suc i, ps_main := m\<rparr>)"
proof -
  have lt: "ps_merged st < ps_next st" using c r by (auto simp: claims_ok_def ready_ok_def)
  have ne: "k \<noteq> ps_merged st" if "works_on st w k" for w k
    using that c r by (auto simp: claims_ok_def working_ok_def)
  show ?thesis using c r lt
    by (auto simp: claims_ok_def counters_ok_def ready_ok_def working_ok_def covered_ok_def Suc_le_eq
        order.strict_iff_order [where 'a = nat] dest: ne)
qed

lemma claims_step:
  assumes "par_step items work merge window st st'" "claims_ok items work window st" "main_ok items work merge s0 st"
  shows "claims_ok items work window st'"
  using assms(1)
proof cases
  case (claim w)
  then show ?thesis using claims_claim [OF assms(2)] by simp
next
  case (finish w i)
  then show ?thesis using claims_finish [OF assms(2)] by simp
next
  case (take i r)
  moreover have "ps_merged st = i" using assms(3) take by (simp add: main_ok_def)
  ultimately show ?thesis using claims_take [OF assms(2)] by simp
qed (auto intro!: claims_frame [OF assms(2)] simp: works_on_replace)

lemma serial_drop:
  "i < length items \<Longrightarrow> serial_loop work merge (drop i items) s =
     (case work (items ! i) of
        Panic p \<Rightarrow> (Unwound p, s)
      | Done (Inl e) \<Rightarrow> (Returned (Inl e), s)
      | Done (Inr v) \<Rightarrow>
          (case merge (items ! i) v s of
             (Returned (Inr _), s') \<Rightarrow> serial_loop work merge (drop (Suc i) items) s'
           | (r, s') \<Rightarrow> (r, s')))"
  by (simp only: Cons_nth_drop_Suc [symmetric] serial_loop.simps)

lemma main_step:
  assumes "par_step items work merge window st st'" "claims_ok items work window st" "main_ok items work merge s0 st"
  shows "main_ok items work merge s0 st'"
  using assms(1)
proof cases
  case (announce w)
  then show ?thesis using assms(3)
    by (auto simp: main_ok_def notify_finished_def split: main_thread.splits)
next
  case (take i r)
  then show ?thesis using assms(2,3) by (auto simp: main_ok_def claims_ok_def ready_ok_def)
next
  case (merge_value i v r acc)
  then have i: "i < length items" "work (items ! i) = Done (Inr v)"
    and eq: "serial_loop work merge items s0 = serial_loop work merge (drop i items) (ps_acc st)"
    and "ps_merged st = Suc i"
    using assms(3) by (auto simp: main_ok_def)
  then show ?thesis using merge_value serial_drop [OF i(1), of work merge "ps_acc st"]
    by (auto simp: main_ok_def after_merge_def not_less split: ending.splits sum.splits)
next
  case (merge_error i e)
  then have i: "i < length items" "work (items ! i) = Done (Inl e)"
    and "serial_loop work merge items s0 = serial_loop work merge (drop i items) (ps_acc st)"
    using assms(3) by (auto simp: main_ok_def)
  then show ?thesis using merge_error serial_drop [OF i(1), of work merge "ps_acc st"] by (simp add: main_ok_def)
next
  case (merge_panic i p)
  then have i: "i < length items" "work (items ! i) = Panic p"
    and "serial_loop work merge items s0 = serial_loop work merge (drop i items) (ps_acc st)"
    using assms(3) by (auto simp: main_ok_def)
  then show ?thesis using merge_panic serial_drop [OF i(1), of work merge "ps_acc st"] by (simp add: main_ok_def)
qed (use assms(3) in \<open>auto simp: main_ok_def split: main_thread.splits\<close>)

lemma phase_simps [simp]:
  "over (Looking i) = False" "over (WaitReady i) = False" "over (Taken i o') = False" "over (Merging i o') = False"
  "over (Raising r)" "over (Ending r)" "over (Stopped r)" "over (Ended r)"
  "notifying (Looking i) = False" "notifying (WaitReady i) = False" "notifying (Taken i o')"
  "notifying (Merging i o') = False" "notifying (Raising r)" "notifying (Ending r) = False" "notifying (Stopped r)"
  "notifying (Ended r) = False"
  by (simp_all add: over_def notifying_def)

lemma no_waiter: "w < length (ps_workers st) \<Longrightarrow> ps_workers (notify_claimable st) ! w \<noteq> WaitClaim"
  "w < length (ps_workers st) \<Longrightarrow> ps_workers (notify_claimable st) ! w = Exited \<longleftrightarrow> ps_workers st ! w = Exited"
  "length (ps_workers (notify_claimable st)) = length (ps_workers st)"
  by (auto simp: notify_claimable_def woken_def)

lemma set_worker_nth:
  "w' < length (ps_workers st) \<Longrightarrow> ps_workers (set_worker w x st) ! w' = (if w' = w then x else ps_workers st ! w')"
  "length (ps_workers (set_worker w x st)) = length (ps_workers st)"
  by (auto simp: set_worker_def nth_list_update)

lemma waits_step:
  assumes "par_step items work merge window st st'" "main_ok items work merge s0 st" "waits_ok items window st"
  shows "waits_ok items window st'"
  using assms(1)
proof cases
  case (claim w)
  then show ?thesis using assms(3) by (auto simp: waits_ok_def set_worker_nth split: if_splits) force
next
  case (claim_exit w)
  then show ?thesis using assms(3) by (auto simp: waits_ok_def set_worker_nth split: if_splits) force
next
  case (claim_wait w)
  then show ?thesis using assms(3) by (auto simp: waits_ok_def set_worker_nth split: if_splits) force
next
  case (finish w i)
  then show ?thesis using assms(3) by (auto simp: waits_ok_def set_worker_nth split: if_splits)
next
  case (announce w)
  then show ?thesis using assms(3)
    by (cases "ps_main st") (auto simp: waits_ok_def set_worker_nth notify_finished_def split: if_splits)
next
  case (merge_value i v r acc)
  then show ?thesis using assms(3)
    by (auto simp: waits_ok_def after_merge_def split: ending.splits sum.splits)
next
  case (take i r)
  then show ?thesis using assms(3) by (auto simp: waits_ok_def)
next
  case (wait i)
  then show ?thesis using assms(3) by (auto simp: waits_ok_def)
qed (use assms(3) in \<open>auto simp: waits_ok_def no_waiter\<close>)

definition par_inv ::
  "'i list \<Rightarrow> ('i \<Rightarrow> ('e, 't, 'p) outcome) \<Rightarrow> ('i \<Rightarrow> 't \<Rightarrow> 's \<Rightarrow> ('e, 'p) ending \<times> 's) \<Rightarrow> nat \<Rightarrow> 's \<Rightarrow> ('e, 't, 'p, 's) pstate \<Rightarrow> bool" where
  "par_inv items work merge workers s0 st \<longleftrightarrow>
     claims_ok items work (workers * 4) st \<and> main_ok items work merge s0 st \<and> waits_ok items (workers * 4) st \<and>
     length (ps_workers st) = workers"

lemma par_inv_init:
  assumes "items \<noteq> []"
  shows "par_inv items work merge workers s (par_init workers s)"
  using assms
  by (auto simp: par_inv_def claims_ok_def counters_ok_def ready_ok_def working_ok_def covered_ok_def works_on_def main_ok_def
      waits_ok_def par_init_def)

lemma step_workers: "par_step items work merge window st st' \<Longrightarrow> length (ps_workers st') = length (ps_workers st)"
  by (erule par_step.cases) (simp_all add: set_worker_nth no_waiter)

lemma par_inv_spurious:
  assumes "spurious_wake st st'" "par_inv items work merge workers s st"
  shows "par_inv items work merge workers s st'"
  using assms(1)
proof cases
  case (wake_worker w)
  have "claims_ok items work (workers * 4) st'"
    by (rule claims_frame [where st = st]) (use assms(2) wake_worker in \<open>simp_all add: par_inv_def works_on_replace\<close>)
  moreover have "main_ok items work merge s st'" using assms(2) wake_worker
    by (auto simp: par_inv_def main_ok_def split: main_thread.splits)
  moreover have "waits_ok items (workers * 4) st'" using assms(2) wake_worker
    by (auto simp: par_inv_def waits_ok_def set_worker_nth split: if_splits) force
  ultimately show ?thesis using assms(2) wake_worker by (simp add: par_inv_def set_worker_nth)
next
  case (wake_main i)
  have "claims_ok items work (workers * 4) st'"
    by (rule claims_frame [where st = st]) (use assms(2) wake_main in \<open>simp_all add: par_inv_def\<close>)
  then show ?thesis using assms(2) wake_main by (auto simp: par_inv_def waits_ok_def main_ok_def)
qed

lemma par_reachable_inv:
  assumes "par_reachable items work merge workers s st" "items \<noteq> []"
  shows "par_inv items work merge workers s st"
  using assms
proof induction
  case start
  then show ?case by (rule par_inv_init)
next
  case (step st st')
  then have "par_inv items work merge workers s st" by blast
  then show ?case
    using step(2) claims_step [OF step(2), of s] main_step [OF step(2), of s] waits_step [OF step(2), of s] step_workers [OF step(2)]
    by (auto simp: par_inv_def)
next
  case (spurious st st')
  show ?case using par_inv_spurious [OF spurious(2)] spurious(3,4) by simp
qed

section \<open>No state is stuck\<close>

lemma worker_can_move:
  assumes "w < length (ps_workers st)" "ps_workers st ! w \<noteq> Exited" "ps_workers st ! w \<noteq> WaitClaim"
  shows "\<exists>st'. par_step items work merge window st st'"
proof (cases "ps_workers st ! w")
  case Claiming
  then show ?thesis using assms(1) par_step.claim_exit par_step.claim par_step.claim_wait by (metis leI)
next
  case (Working i)
  then show ?thesis using assms(1) par_step.finish by metis
next
  case Notifying
  then show ?thesis using assms(1) par_step.announce by metis
qed (use assms in simp_all)

lemma par_progress:
  assumes inv: "par_inv items work merge workers s st" and n: "0 < workers" and stuck: "\<And>st'. \<not> par_step items work merge (workers * 4) st st'"
  obtains r where "par_final st r (ps_acc st)"
proof (cases "ps_main st")
  case (Looking i)
  then show ?thesis using stuck par_step.take par_step.wait by (metis option.exhaust)
next
  case (WaitReady i)
  have i: "i < length items" "ps_merged st = i" "\<not> ps_stop st" "i \<le> ps_next st"
    using inv WaitReady by (auto simp: par_inv_def main_ok_def waits_ok_def claims_ok_def counters_ok_def)
  have quiet: "\<forall>w < length (ps_workers st). ps_workers st ! w = Exited \<or> ps_workers st ! w = WaitClaim"
    using worker_can_move stuck by blast
  then have no: "om_get (ps_ready st) i = None" using inv WaitReady by (auto simp: par_inv_def waits_ok_def)
  have "\<not> i < ps_next st"
  proof
    assume "i < ps_next st"
    then obtain w where "works_on st w i" using inv i no by (auto simp: par_inv_def claims_ok_def covered_ok_def)
    then show False using quiet by (auto simp: works_on_def)
  qed
  then have "ps_next st = ps_merged st" using i by simp
  moreover have "0 < length (ps_workers st)" using inv n by (simp add: par_inv_def)
  ultimately show ?thesis using quiet inv i n WaitReady by (auto simp: par_inv_def waits_ok_def)
next
  case (Taken i r)
  then show ?thesis using stuck par_step.taken by metis
next
  case (Merging i r)
  show ?thesis
  proof (cases r)
    case (Done x)
    show ?thesis
    proof (cases x)
      case (Inl e)
      from par_step.merge_error [OF Merging [unfolded Done Inl]] stuck show ?thesis by blast
    next
      case (Inr v)
      obtain e acc where "merge (items ! i) v (ps_acc st) = (e, acc)" by (cases "merge (items ! i) v (ps_acc st)")
      from par_step.merge_value [of st i v merge items e acc, OF Merging [unfolded Done Inr] this] stuck show ?thesis by blast
    qed
  next
    case (Panic p)
    then show ?thesis using Merging stuck par_step.merge_panic by metis
  qed
next
  case (Raising r)
  then show ?thesis using stuck par_step.raise by metis
next
  case (Ending r)
  then show ?thesis using stuck par_step.stop by metis
next
  case (Stopped r)
  then show ?thesis using stuck par_step.stop_notify by metis
next
  case (Ended r)
  have "\<forall>w < length (ps_workers st). ps_workers st ! w = Exited \<or> ps_workers st ! w = WaitClaim"
    using worker_can_move stuck by blast
  moreover have "\<forall>w < length (ps_workers st). ps_workers st ! w \<noteq> WaitClaim"
    using inv Ended by (auto simp: par_inv_def waits_ok_def main_ok_def)
  ultimately show ?thesis using that Ended by (auto simp: par_final_def list_all_length)
qed

section \<open>Runs end\<close>

definition main_rank :: "nat \<Rightarrow> ('o, 'r) main_thread \<Rightarrow> nat" where
  "main_rank n m =
     (case m of
        Looking i \<Rightarrow> 3 * (n - i) + 5 | WaitReady i \<Rightarrow> 3 * (n - i) + 5 | Taken i r \<Rightarrow> 3 * (n - i) + 4
      | Merging i r \<Rightarrow> 3 * (n - i) + 3 | Raising r \<Rightarrow> 3 | Ending r \<Rightarrow> 2 | Stopped r \<Rightarrow> 1 | Ended r \<Rightarrow> 0)"

definition busy_rank :: "worker \<Rightarrow> nat" where
  "busy_rank x = (case x of Working i \<Rightarrow> 2 | Notifying \<Rightarrow> 1 | _ \<Rightarrow> 0)"

definition idle_rank :: "worker \<Rightarrow> nat" where
  "idle_rank x = (if x = Claiming then 1 else 0)"

definition looking_rank :: "('o, 'r) main_thread \<Rightarrow> nat" where
  "looking_rank m = (case m of Looking i \<Rightarrow> 1 | _ \<Rightarrow> 0)"

definition par_order :: "nat \<Rightarrow> (('o, 'r, 's) par_state \<times> ('o, 'r, 's) par_state) set" where
  "par_order n = measures
     [\<lambda>st. main_rank n (ps_main st),
      \<lambda>st. 3 * (n - ps_next st) + sum_list (map busy_rank (ps_workers st)),
      \<lambda>st. sum_list (map idle_rank (ps_workers st)) + looking_rank (ps_main st)]"

lemma rank_update:
  assumes "w < length xs"
  shows "sum_list (map f (xs[w := x])) + f (xs ! w) = sum_list (map f xs) + (f x :: nat)"
  using assms
proof (induction xs arbitrary: w)
  case (Cons y ys)
  then show ?case by (cases w) auto
qed simp

lemma rank_woken: "sum_list (map busy_rank (map woken xs)) = sum_list (map busy_rank xs)"
  by (induction xs) (auto simp: busy_rank_def woken_def)

lemma step_decreases:
  assumes "par_step items work merge window st st'" "main_ok items work merge s st"
  shows "(st', st) \<in> par_order (length items)"
  using assms(1)
proof cases
  case (claim_exit w)
  then show ?thesis using rank_update [of w "ps_workers st" busy_rank Exited] rank_update [of w "ps_workers st" idle_rank Exited]
    by (simp add: par_order_def set_worker_def busy_rank_def idle_rank_def)
next
  case (claim w)
  then have "3 * (length items - ps_next st) = 3 + 3 * (length items - Suc (ps_next st))" by linarith
  then show ?thesis using claim rank_update [of w "ps_workers st" busy_rank "Working (ps_next st)"]
    by (simp add: par_order_def set_worker_def busy_rank_def)
next
  case (claim_wait w)
  then show ?thesis using rank_update [of w "ps_workers st" busy_rank WaitClaim] rank_update [of w "ps_workers st" idle_rank WaitClaim]
    by (simp add: par_order_def set_worker_def busy_rank_def idle_rank_def)
next
  case (finish w i)
  then show ?thesis using rank_update [of w "ps_workers st" busy_rank Notifying]
    by (simp add: par_order_def set_worker_def busy_rank_def)
next
  case (announce w)
  have "main_rank n (ps_main (notify_finished st)) = main_rank n (ps_main st)" for n
    by (simp add: notify_finished_def main_rank_def split: main_thread.splits)
  then show ?thesis using announce rank_update [of w "ps_workers st" busy_rank Claiming]
    by (simp add: par_order_def set_worker_def busy_rank_def)
next
  case (merge_value i v r acc)
  then have "i < length items" using assms(2) by (simp add: main_ok_def)
  then show ?thesis using merge_value
    by (auto simp: par_order_def after_merge_def main_rank_def split: ending.splits sum.splits)
next
  case (merge_error i e)
  then have "i < length items" using assms(2) by (simp add: main_ok_def)
  then show ?thesis using merge_error by (simp add: par_order_def main_rank_def)
next
  case (merge_panic i p)
  then have "i < length items" using assms(2) by (simp add: main_ok_def)
  then show ?thesis using merge_panic by (simp add: par_order_def main_rank_def)
qed (simp_all add: par_order_def main_rank_def looking_rank_def)

lemma par_ends:
  assumes "par_reachable items work merge workers s st" "items \<noteq> []" "0 < workers"
  shows "\<exists>st' r. par_reachable items work merge workers s st' \<and> par_final st' r (ps_acc st')"
proof -
  have "wf (par_order (length items))" by (simp add: par_order_def)
  then show ?thesis using assms(1)
  proof (induction st)
    case (less st)
    have inv: "par_inv items work merge workers s st" using less(2) assms(2) by (rule par_reachable_inv)
    show ?case
    proof (cases "\<exists>st'. par_step items work merge (workers * 4) st st'")
      case True
      then obtain st' where st': "par_step items work merge (workers * 4) st st'" by blast
      then have "(st', st) \<in> par_order (length items)" using inv step_decreases by (auto simp: par_inv_def)
      then show ?thesis using less(1) par_reachable.step [OF less(2) st'] by blast
    next
      case False
      then obtain r where "par_final st r (ps_acc st)" using par_progress [OF inv assms(3)] by blast
      then show ?thesis using less(2) by blast
    qed
  qed
qed

text \<open>
  C2: for any number of workers and any schedule, with spurious wake-ups and panics, \<open>map_ordered\<close> ends
  exactly as the serial loop over the items does, with the same result and the same merged state.
\<close>

theorem map_ordered_is_serial:
  "map_ordered workers items work merge s r s' \<longleftrightarrow> serial_loop work merge items s = (r, s')"
proof (cases "min workers (length items) \<le> 1")
  case True
  then show ?thesis by (auto simp: map_ordered.simps)
next
  case False
  then have items: "items \<noteq> []" and w: "0 < min workers (length items)" by auto
  have sound: "serial_loop work merge items s = (r, s')" 
    if "par_reachable items work merge (min workers (length items)) s st" "par_final st r s'" for st r s'
    using par_reachable_inv [OF that(1) items] that(2) by (auto simp: par_inv_def main_ok_def par_final_def)
  show ?thesis
  proof
    assume "map_ordered workers items work merge s r s'"
    then show "serial_loop work merge items s = (r, s')" using sound False by (auto elim: map_ordered.cases)
  next
    assume eq: "serial_loop work merge items s = (r, s')"
    obtain st r' where st: "par_reachable items work merge (min workers (length items)) s st" "par_final st r' (ps_acc st)"
      using par_ends [OF par_reachable.start [of items work merge _ s] items w] by blast
    then have "r' = r" "ps_acc st = s'" using sound [OF st] eq by simp_all
    then show "map_ordered workers items work merge s r s'" using map_ordered.in_parallel [OF False st(1)] st(2) by simp
  qed
qed

text \<open>
  C32: while it runs, at most four results per worker are held and no worker runs further than that ahead of
  the merge; a state that is not the end has a next step, and no schedule goes on forever without spurious
  wake-ups.
\<close>

theorem map_ordered_bounded_and_live:
  assumes "par_reachable items work merge workers s st" "items \<noteq> []" "0 < workers"
  shows "card (dom (om_get (ps_ready st))) \<le> 4 * workers \<and> ps_next st \<le> ps_merged st + 4 * workers \<and>
    ((\<exists>st'. par_step items work merge (workers * 4) st st') \<or> (\<exists>r. par_final st r (ps_acc st))) \<and>
    (\<nexists>f. f 0 = st \<and> (\<forall>k. par_step items work merge (workers * 4) (f k) (f (Suc k))))"
proof (intro conjI)
  have inv: "par_inv items work merge workers s st" using assms(1,2) by (rule par_reachable_inv)
  show ahead: "ps_next st \<le> ps_merged st + 4 * workers" using inv by (simp add: par_inv_def claims_ok_def counters_ok_def mult.commute)
  have "dom (om_get (ps_ready st)) \<subseteq> {ps_merged st ..< ps_next st}"
    using inv by (auto simp: par_inv_def claims_ok_def ready_ok_def)
  from card_mono [OF _ this] show "card (dom (om_get (ps_ready st))) \<le> 4 * workers" using ahead by simp
  show "(\<exists>st'. par_step items work merge (workers * 4) st st') \<or> (\<exists>r. par_final st r (ps_acc st))"
    using par_progress [OF inv assms(3)] by blast
  show "\<nexists>f. f 0 = st \<and> (\<forall>k. par_step items work merge (workers * 4) (f k) (f (Suc k)))"
  proof
    assume "\<exists>f. f 0 = st \<and> (\<forall>k. par_step items work merge (workers * 4) (f k) (f (Suc k)))"
    then obtain f where f: "f 0 = st" "\<And>k. par_step items work merge (workers * 4) (f k) (f (Suc k))" by blast
    have reach: "par_reachable items work merge workers s (f k)" for k
    proof (induction k)
      case 0
      then show ?case using f(1) assms(1) by simp
    next
      case (Suc k)
      show ?case using par_reachable.step [OF Suc f(2)] .
    qed
    have "(f (Suc k), f k) \<in> par_order (length items)" for k
      using step_decreases [OF f(2)] par_reachable_inv [OF reach [of k] assms(2)] by (auto simp: par_inv_def)
    moreover have "wf (par_order (length items))" by (simp add: par_order_def)
    ultimately show False by (auto simp: wf_iff_no_infinite_down_chain)
  qed
qed

text \<open>Two workers on three items, the second of which fails.\<close>

definition demo_items :: "string list" where "demo_items = [''a'', ''b'', ''c'']"

definition demo_work :: "string \<Rightarrow> (string, nat, unit) outcome" where
  "demo_work item = (if item = ''b'' then Done (Inl ''unreadable'') else Done (Inr (length item)))"

definition demo_merge :: "string \<Rightarrow> nat \<Rightarrow> string list \<Rightarrow> (string, unit) ending \<times> string list" where
  "demo_merge item v acc = (Returned (Inr ()), acc @ [item])"

theorem map_ordered_bounded_and_live_witness:
  "card (dom (om_get (ps_ready (par_init 2 [] :: (string, nat, unit, string list) pstate)))) \<le> 8 \<and>
   (\<exists>st'. par_step demo_items demo_work demo_merge 8 (par_init 2 []) st')"
proof -
  have "par_reachable demo_items demo_work demo_merge 2 [] (par_init 2 [])" by (rule par_reachable.start)
  from map_ordered_bounded_and_live [OF this] have
    "card (dom (om_get (ps_ready (par_init 2 [] :: (string, nat, unit, string list) pstate)))) \<le> 8 \<and>
     ((\<exists>st'. par_step demo_items demo_work demo_merge 8 (par_init 2 []) st') \<or>
      (\<exists>r. par_final (par_init 2 [] :: (string, nat, unit, string list) pstate) r []))"
    by (simp add: demo_items_def par_init_def)
  then show ?thesis by (auto simp: par_final_def par_init_def)
qed


end
