(* ===== verification/Plugin_Host.thy ===== *)
theory Plugin_Host
  imports Graph_Store Source_Walk Json_Map
begin

text \<open>
  The plugin host (\<^verbatim>\<open>crates/adapters-plugin-host/src\<close>): bounds and the classification of failed calls,
  pinning and filling of provenance in \<^verbatim>\<open>lib.rs\<close>, the conformance gate of \<^verbatim>\<open>gate.rs\<close>, routing of claimed
  files in \<^verbatim>\<open>route.rs\<close> and discovery of artifacts in \<^verbatim>\<open>discovery.rs\<close>. Wasmtime is a parameter: \<open>compile\<close>
  compiles the bytes of a component and \<open>guest\<close> is what the \<open>k\<close>-th call of a component under given bounds
  does, which may differ from call to call. \<open>ps\<close> is the JSON parser with its error text, \<open>ts\<close> prints a
  value, \<open>se\<close> prints a host error.
\<close>

section \<open>Calls\<close>

record plugin_source =
  si_repo :: string
  si_commit :: string

record plugin_extraction =
  px_nodes :: "node list"
  px_edges :: "edge list"

record plugin_limits =
  pl_max_fuel :: u64
  pl_max_memory_bytes :: nat
  pl_max_table_elements :: nat
  pl_deadline_millis :: nat

definition plugin_limits_default :: plugin_limits where
  "plugin_limits_default =
     \<lparr>pl_max_fuel = 10000000000, pl_max_memory_bytes = 64 * 1024 * 1024, pl_max_table_elements = 10000,
      pl_deadline_millis = 5000\<rparr>"

datatype host_error =
    InvalidComponent string
  | Instantiation string
  | FuelExhausted u64
  | MemoryLimitExceeded nat
  | TableLimitExceeded nat
  | DeadlineExceeded nat
  | GuestError string
  | MalformedFact string
  | TrapError string

text \<open>The errors a call of wasmtime may end with, as far as the host tells them apart.\<close>

datatype wasm_error = MemoryCap | TableCap | OutOfFuel | Interrupt | OtherTrap string | OtherFailure string

definition EPOCH_TICK_MILLIS :: nat where "EPOCH_TICK_MILLIS = 20"

text \<open>The epoch deadline in ticks; the cast of the quotient to 64 bits truncates.\<close>

definition epoch_ticks :: "plugin_limits \<Rightarrow> u64" where
  "epoch_ticks l = of_nat (max 1 (pl_deadline_millis l div EPOCH_TICK_MILLIS))"

text \<open>The limiter callbacks: the marker error when a growth would pass the cap.\<close>

definition memory_growing :: "plugin_limits \<Rightarrow> nat \<Rightarrow> (wasm_error, bool) result" where
  "memory_growing l desired = (if desired > pl_max_memory_bytes l then Inl MemoryCap else Inr True)"

definition table_growing :: "plugin_limits \<Rightarrow> nat \<Rightarrow> (wasm_error, bool) result" where
  "table_growing l desired = (if desired > pl_max_table_elements l then Inl TableCap else Inr True)"

record wit_fact_node =
  wn_id :: string
  wn_label :: string
  wn_props_json :: string

record wit_fact_edge =
  we_src :: string
  we_dst :: string
  we_label :: string
  we_props_json :: string

datatype guest_call =
    GuestInstantiation string
  | GuestReturned "wit_fact_node list" "wit_fact_edge list"
  | GuestFailed string
  | GuestAborted wasm_error u64

definition classify_call_error :: "wasm_error \<Rightarrow> plugin_limits \<Rightarrow> u64 \<Rightarrow> host_error" where
  "classify_call_error err l remaining_fuel =
     (case err of
        MemoryCap \<Rightarrow> MemoryLimitExceeded (pl_max_memory_bytes l)
      | TableCap \<Rightarrow> TableLimitExceeded (pl_max_table_elements l)
      | OutOfFuel \<Rightarrow> FuelExhausted (pl_max_fuel l)
      | Interrupt \<Rightarrow> DeadlineExceeded (pl_deadline_millis l)
      | OtherTrap t \<Rightarrow> TrapError t
      | OtherFailure t \<Rightarrow> if remaining_fuel = 0 then FuelExhausted (pl_max_fuel l) else TrapError t)"

definition convert_node :: "(string \<Rightarrow> (string, json) result) \<Rightarrow> wit_fact_node \<Rightarrow> (host_error, node) result" where
  "convert_node ps n =
     (case ps (wn_props_json n) of
        Inl e \<Rightarrow> Inl (MalformedFact (''node '' @ wn_id n @ '': '' @ e))
      | Inr v \<Rightarrow> Inr \<lparr>n_id = wn_id n, n_label = wn_label n, n_props = v\<rparr>)"

definition convert_edge :: "(string \<Rightarrow> (string, json) result) \<Rightarrow> wit_fact_edge \<Rightarrow> (host_error, edge) result" where
  "convert_edge ps e =
     (case ps (we_props_json e) of
        Inl err \<Rightarrow> Inl (MalformedFact (''edge '' @ we_src e @ ''->'' @ we_dst e @ '': '' @ err))
      | Inr v \<Rightarrow> Inr \<lparr>e_src = we_src e, e_dst = we_dst e, e_label = we_label e, e_props = v\<rparr>)"

definition convert_extraction ::
  "(string \<Rightarrow> (string, json) result) \<Rightarrow> wit_fact_node list \<Rightarrow> wit_fact_edge list \<Rightarrow> (host_error, plugin_extraction) result" where
  "convert_extraction ps ns es =
     rbind (try_map (convert_node ps) ns) (\<lambda>nodes.
     rbind (try_map (convert_edge ps) es) (\<lambda>edges. Inr \<lparr>px_nodes = nodes, px_edges = edges\<rparr>))"

section \<open>Pinning and provenance\<close>

definition pinned_id :: "string \<Rightarrow> string \<Rightarrow> string" where
  "pinned_id plugin_id artifact_hash = plugin_id @ ''@'' @ take 12 artifact_hash"

definition pin_props :: "string \<Rightarrow> string \<Rightarrow> json \<Rightarrow> json" where
  "pin_props pid artifact_hash v =
     (let v1 = (case jget v ''prov'' of
                  None \<Rightarrow> v
                | Some prov \<Rightarrow> jput ''prov'' (jput ''extractor_id'' (JStr pid) prov) v)
      in jput ''plugin_artifact_hash'' (JStr artifact_hash) v1)"

definition pin_extraction :: "string \<Rightarrow> string \<Rightarrow> plugin_extraction \<Rightarrow> plugin_extraction" where
  "pin_extraction plugin_id artifact_hash x =
     (let pin = pin_props (pinned_id plugin_id artifact_hash) artifact_hash in
      \<lparr>px_nodes = map (\<lambda>n. n\<lparr>n_props := pin (n_props n)\<rparr>) (px_nodes x),
       px_edges = map (\<lambda>e. e\<lparr>e_props := pin (e_props e)\<rparr>) (px_edges x)\<rparr>)"

definition filled_prov ::
  "(string \<Rightarrow> string) \<Rightarrow> string \<Rightarrow> string \<Rightarrow> string \<Rightarrow> plugin_source \<Rightarrow> string \<Rightarrow> json" where
  "filled_prov H pid source path i fact_bytes =
     (case prov_new H Deterministic Confirmed
        [\<lparr>ev_repo = si_repo i, ev_path = path, ev_byte_start = 0, ev_byte_end = of_nat (length source), ev_commit_sha = si_commit i\<rparr>]
        pid fact_bytes of
        Inr p \<Rightarrow> prov_to_value p
      | Inl _ \<Rightarrow> JNull)"

definition needs_prov :: "json \<Rightarrow> bool" where
  "needs_prov v = (case jget v ''prov'' of None \<Rightarrow> True | Some p \<Rightarrow> \<not> is_object p)"

definition node_fact_bytes :: "(json \<Rightarrow> string) \<Rightarrow> node \<Rightarrow> string" where
  "node_fact_bytes ts n = n_id n @ '':'' @ n_label n @ '':'' @ ts (n_props n)"

definition edge_fact_bytes :: "(json \<Rightarrow> string) \<Rightarrow> edge \<Rightarrow> string" where
  "edge_fact_bytes ts e = e_src e @ '':'' @ e_dst e @ '':'' @ e_label e @ '':'' @ ts (e_props e)"

definition fill_missing_provenance ::
  "(string \<Rightarrow> string) \<Rightarrow> (json \<Rightarrow> string) \<Rightarrow> string \<Rightarrow> string \<Rightarrow> string \<Rightarrow> string \<Rightarrow> plugin_source \<Rightarrow> plugin_extraction \<Rightarrow> plugin_extraction" where
  "fill_missing_provenance H ts plugin_id artifact_hash source path i x =
     (let filled = filled_prov H (pinned_id plugin_id artifact_hash) source path i in
      \<lparr>px_nodes = map (\<lambda>n. if needs_prov (n_props n)
                            then n\<lparr>n_props := jput ''prov'' (filled (node_fact_bytes ts n)) (n_props n)\<rparr> else n) (px_nodes x),
       px_edges = map (\<lambda>e. if needs_prov (e_props e)
                            then e\<lparr>e_props := jput ''prov'' (filled (edge_fact_bytes ts e)) (e_props e)\<rparr> else e) (px_edges x)\<rparr>)"

record 'c loaded_plugin =
  lp_component :: 'c
  lp_plugin_id :: string
  lp_artifact_hash :: string

definition load :: "(string \<Rightarrow> string) \<Rightarrow> (string \<Rightarrow> (string, 'c) result) \<Rightarrow> string \<Rightarrow> string \<Rightarrow> (host_error, 'c loaded_plugin) result" where
  "load H compile wasm_bytes plugin_id =
     (case compile wasm_bytes of
        Inl e \<Rightarrow> Inl (InvalidComponent e)
      | Inr c \<Rightarrow> Inr \<lparr>lp_component = c, lp_plugin_id = plugin_id, lp_artifact_hash = content_hash H wasm_bytes\<rparr>)"

type_synonym 'c guest = "'c \<Rightarrow> nat \<Rightarrow> plugin_limits \<Rightarrow> u64 \<Rightarrow> string \<Rightarrow> string \<Rightarrow> plugin_source \<Rightarrow> guest_call"

record host_env =
  he_hash :: "string \<Rightarrow> string"
  he_text :: "json \<Rightarrow> string"
  he_parse :: "string \<Rightarrow> (string, json) result"
  he_error :: "host_error \<Rightarrow> string"

definition call_extract ::
  "host_env \<Rightarrow> 'c guest \<Rightarrow> 'c loaded_plugin \<Rightarrow> nat \<Rightarrow> string \<Rightarrow> string \<Rightarrow> plugin_source \<Rightarrow> plugin_limits
     \<Rightarrow> (host_error, plugin_extraction) result" where
  "call_extract env guest p k source path i l =
     (case guest (lp_component p) k l (epoch_ticks l) source path i of
        GuestInstantiation e \<Rightarrow> Inl (Instantiation e)
      | GuestReturned ns es \<Rightarrow>
          rbind (convert_extraction (he_parse env) ns es) (\<lambda>x.
            Inr (fill_missing_provenance (he_hash env) (he_text env) (lp_plugin_id p) (lp_artifact_hash p) source path i
              (pin_extraction (lp_plugin_id p) (lp_artifact_hash p) x)))
      | GuestFailed message \<Rightarrow> Inl (GuestError message)
      | GuestAborted err fuel \<Rightarrow> Inl (classify_call_error err l fuel))"

section \<open>The conformance gate\<close>

record golden_case =
  gc_path :: string
  gc_source :: string
  gc_nodes :: "node list"
  gc_edges :: "edge list"

record golden_corpus =
  gp_extensions :: "string list"
  gp_cases :: "golden_case list"

record gate_check =
  gk_name :: string
  gk_passed :: bool
  gk_detail :: string

record gate_report =
  gr_passed :: bool
  gr_checks :: "gate_check list"

definition canonical :: "(json \<Rightarrow> string) \<Rightarrow> plugin_extraction \<Rightarrow> string list" where
  "canonical ts x =
     sort (map (\<lambda>n. ''node:'' @ n_id n @ '':'' @ n_label n @ '':'' @ ts (n_props n)) (px_nodes x) @
           map (\<lambda>e. ''edge:'' @ e_src e @ '':'' @ e_dst e @ '':'' @ e_label e @ '':'' @ ts (e_props e)) (px_edges x))"

definition expected_canonical :: "host_env \<Rightarrow> golden_case \<Rightarrow> string \<Rightarrow> string \<Rightarrow> plugin_source \<Rightarrow> string list" where
  "expected_canonical env c plugin_id artifact_hash i =
     canonical (he_text env)
       (fill_missing_provenance (he_hash env) (he_text env) plugin_id artifact_hash (gc_source c) (gc_path c) i
         (pin_extraction plugin_id artifact_hash \<lparr>px_nodes = gc_nodes c, px_edges = gc_edges c\<rparr>))"

definition check :: "string \<Rightarrow> bool \<Rightarrow> string \<Rightarrow> gate_check" where
  "check name passed detail = \<lparr>gk_name = name, gk_passed = passed, gk_detail = detail\<rparr>"

text \<open>The first run of one case: its checks, and the extraction when it matched.\<close>

definition gate_case ::
  "host_env \<Rightarrow> 'c guest \<Rightarrow> 'c loaded_plugin \<Rightarrow> string \<Rightarrow> plugin_source \<Rightarrow> plugin_limits \<Rightarrow> nat \<Rightarrow> golden_case
     \<Rightarrow> gate_check list \<times> plugin_extraction option" where
  "gate_case env guest p plugin_id i l k c =
     (case call_extract env guest p k (gc_source c) (gc_path c) i l of
        Inl e \<Rightarrow> ([check (''contract:'' @ gc_path c) False (he_error env e)], None)
      | Inr x \<Rightarrow>
          (let got = canonical (he_text env) x;
               want = expected_canonical env c plugin_id (lp_artifact_hash p) i;
               matched = (got = want) in
           ([check (''contract:'' @ gc_path c) True ''extract-source honored the SPI within bounds'',
             check (''golden:'' @ gc_path c) matched
               (if matched then ''facts match the golden expectation exactly''
                else ''expected '' @ show_nat (length want) @ '' fact(s), got '' @ show_nat (length got))],
            if matched then Some x else None)))"

fun gate_first ::
  "host_env \<Rightarrow> 'c guest \<Rightarrow> 'c loaded_plugin \<Rightarrow> string \<Rightarrow> plugin_source \<Rightarrow> plugin_limits \<Rightarrow> nat \<Rightarrow> golden_case list
     \<Rightarrow> gate_check list \<times> plugin_extraction option list" where
  "gate_first env guest p plugin_id i l k [] = ([], [])"
| "gate_first env guest p plugin_id i l k (c # cs) =
     (let (checks, first) = gate_case env guest p plugin_id i l k c;
          (more, firsts) = gate_first env guest p plugin_id i l (Suc k) cs
      in (checks @ more, first # firsts))"

text \<open>The second run, case by case until one differs.\<close>

fun gate_second ::
  "host_env \<Rightarrow> 'c guest \<Rightarrow> 'c loaded_plugin \<Rightarrow> plugin_source \<Rightarrow> plugin_limits \<Rightarrow> nat \<Rightarrow> (golden_case \<times> plugin_extraction option) list
     \<Rightarrow> bool \<times> string" where
  "gate_second env guest p i l k [] = (True, ''second run identical'')"
| "gate_second env guest p i l k ((c, first) # cs) =
     (case first of
        None \<Rightarrow> (False, ''skipped: a first-run case already failed'')
      | Some x \<Rightarrow>
          (case call_extract env guest p k (gc_source c) (gc_path c) i l of
             Inr y \<Rightarrow>
               if canonical (he_text env) y = canonical (he_text env) x then gate_second env guest p i l (Suc k) cs
               else (False, ''case '' @ gc_path c @ '' differed across runs'')
           | Inl e \<Rightarrow> (False, ''case '' @ gc_path c @ '' failed on rerun: '' @ he_error env e)))"

definition run_gate ::
  "host_env \<Rightarrow> (string \<Rightarrow> (string, 'c) result) \<Rightarrow> 'c guest \<Rightarrow> string \<Rightarrow> string \<Rightarrow> golden_corpus \<Rightarrow> plugin_limits \<Rightarrow> plugin_source \<Rightarrow> gate_report" where
  "run_gate env compile guest plugin_id wasm_bytes corpus l i =
     (case load (he_hash env) compile wasm_bytes plugin_id of
        Inl e \<Rightarrow> \<lparr>gr_passed = False, gr_checks = [check ''spi-compiles'' False (he_error env e)]\<rparr>
      | Inr p \<Rightarrow>
          (let cases = gp_cases corpus;
               opening = [check ''spi-compiles'' True ''component compiles'',
                          check ''corpus-nonempty'' (cases \<noteq> []) (show_nat (length cases) @ '' golden case(s)'')] in
           if cases = [] then \<lparr>gr_passed = False, gr_checks = opening\<rparr>
           else (let (firsts, runs) = gate_first env guest p plugin_id i l 0 cases;
                     (deterministic, detail) = gate_second env guest p i l (length cases) (zip cases runs);
                     checks = opening @ firsts @ [check ''determinism-double-run'' deterministic detail]
                 in \<lparr>gr_passed = list_all gk_passed checks, gr_checks = checks\<rparr>)))"

section \<open>Routing\<close>

definition PLUGIN_SKIP_DIRS :: "string list" where
  "PLUGIN_SKIP_DIRS = [''node_modules'', ''.git'', ''target'', ''dist'', ''build'', ''.venv'', ''.cartograph'']"

datatype route_error = RouteIo io_error | RouteHost string host_error | RoutePanic

text \<open>\<^verbatim>\<open>Path::file_stem\<close> and \<^verbatim>\<open>Path::extension\<close> of a file name: split at the last dot, unless it is first.\<close>

definition split_extension :: "string \<Rightarrow> string \<times> string option" where
  "split_extension name =
     (let after = takeWhile (\<lambda>c. c \<noteq> CHR ''.'') (rev name); before = drop (Suc (length after)) (rev name) in
      if length after < length name \<and> before \<noteq> [] then (rev before, Some (rev after)) else (name, None))"

definition claims :: "string list \<Rightarrow> walked_file \<Rightarrow> bool" where
  "claims extensions f =
     (case snd (split_extension (last (wk_path f))) of
        None \<Rightarrow> False
      | Some x \<Rightarrow> to_string_lossy x \<in> set extensions)"

definition claimed_files ::
  "gitignore_builder \<Rightarrow> fs_tree \<Rightarrow> string list \<Rightarrow> (walk_error, string list) result" where
  "claimed_files GB root extensions =
     rbind (files GB root (\<lambda>name. name \<in> set PLUGIN_SKIP_DIRS) Honor) (\<lambda>found.
       Inr (map wk_rel (filter (claims extensions) found)))"

text \<open>\<^verbatim>\<open>std::fs::read(root.join(rel))\<close>.\<close>

definition read_bytes :: "fs_tree \<Rightarrow> string \<Rightarrow> (io_error, string) result" where
  "read_bytes root rel =
     (case fs_at root (split_on (CHR ''/'') rel) of
        Some (FFile bytes) \<Rightarrow> Inr bytes
      | Some (FFileErr e) \<Rightarrow> Inl e
      | Some (FDir _) \<Rightarrow> Inl ''Is a directory''
      | _ \<Rightarrow> Inl ''No such file or directory'')"

fun extract_files ::
  "host_env \<Rightarrow> 'c guest \<Rightarrow> 'c loaded_plugin \<Rightarrow> fs_tree \<Rightarrow> plugin_source \<Rightarrow> plugin_limits \<Rightarrow> nat \<Rightarrow> string list \<Rightarrow> plugin_extraction
     \<Rightarrow> (route_error, plugin_extraction) result" where
  "extract_files env guest p root i l k [] merged = Inr merged"
| "extract_files env guest p root i l k (rel # rels) merged =
     (case read_bytes root rel of
        Inl e \<Rightarrow> Inl (RouteIo e)
      | Inr source \<Rightarrow>
          (case call_extract env guest p k source rel i l of
             Inl e \<Rightarrow> Inl (RouteHost rel e)
           | Inr x \<Rightarrow> extract_files env guest p root i l (Suc k) rels
               \<lparr>px_nodes = px_nodes merged @ px_nodes x, px_edges = px_edges merged @ px_edges x\<rparr>))"

definition extract_claimed ::
  "gitignore_builder \<Rightarrow> host_env \<Rightarrow> 'c guest \<Rightarrow> 'c loaded_plugin \<Rightarrow> fs_tree \<Rightarrow> string list \<Rightarrow> plugin_source \<Rightarrow> plugin_limits \<Rightarrow> nat
     \<Rightarrow> (route_error, plugin_extraction) result" where
  "extract_claimed GB env guest p root extensions i l k =
     (case claimed_files GB root extensions of
        Inl (WalkIo e) \<Rightarrow> Inl (RouteIo e)
      | Inl WalkPanic \<Rightarrow> Inl RoutePanic
      | Inr rels \<Rightarrow> extract_files env guest p root i l k rels \<lparr>px_nodes = [], px_edges = []\<rparr>)"

section \<open>Discovery\<close>

datatype plugin_scope = ScopeProject | ScopeUser

text \<open>A path is the list of its components, which is how paths are compared.\<close>

type_synonym fs_path = "string list"

record discovered_plugin =
  dp_id :: string
  dp_path :: fs_path
  dp_content_hash :: string
  dp_scope :: plugin_scope
  dp_project_root :: "fs_path option"
  dp_shadowed_user_copy :: bool

definition PROJECT_ADAPTER_DIR :: fs_path where "PROJECT_ADAPTER_DIR = [''.cartograph'', ''adapters'']"

text \<open>One directory: nothing when it cannot be listed; entries that cannot be read are passed over.\<close>

type_synonym dir_listing = "fs_path \<Rightarrow> (string \<times> (io_error, string) result) list option"

definition scan_entry :: "(string \<Rightarrow> string) \<Rightarrow> fs_path \<Rightarrow> plugin_scope \<Rightarrow> string \<times> (io_error, string) result \<Rightarrow> discovered_plugin option" where
  "scan_entry H dir scope entry =
     (case entry of (name, content) \<Rightarrow>
        (case split_extension name of (stem, ext) \<Rightarrow>
           if ext \<noteq> Some ''wasm'' then None
           else (case content of
                   Inl _ \<Rightarrow> None
                 | Inr bytes \<Rightarrow>
                     Some \<lparr>dp_id = stem, dp_path = dir @ [name], dp_content_hash = content_hash H bytes, dp_scope = scope,
                           dp_project_root = None, dp_shadowed_user_copy = False\<rparr>)))"

definition scan :: "(string \<Rightarrow> string) \<Rightarrow> dir_listing \<Rightarrow> fs_path \<Rightarrow> plugin_scope \<Rightarrow> discovered_plugin list" where
  "scan H ls dir scope =
     (case ls dir of None \<Rightarrow> [] | Some entries \<Rightarrow> List.map_filter (scan_entry H dir scope) entries)"

definition add_user :: "discovered_plugin \<Rightarrow> (string, discovered_plugin) omap \<Rightarrow> (string, discovered_plugin) omap" where
  "add_user p by_id = om_put (dp_id p) p by_id"

definition add_project ::
  "fs_path \<Rightarrow> discovered_plugin \<Rightarrow> (string, discovered_plugin) omap \<Rightarrow> (string, discovered_plugin) omap" where
  "add_project root p by_id =
     (let shadowed = (case om_get by_id (dp_id p) of None \<Rightarrow> False | Some q \<Rightarrow> dp_scope q = ScopeUser) in
      if (case om_get by_id (dp_id p) of None \<Rightarrow> False | Some q \<Rightarrow> dp_scope q = ScopeProject) then by_id
      else om_put (dp_id p) (p\<lparr>dp_project_root := Some root, dp_shadowed_user_copy := shadowed\<rparr>) by_id)"

definition discover :: "(string \<Rightarrow> string) \<Rightarrow> dir_listing \<Rightarrow> fs_path list \<Rightarrow> fs_path \<Rightarrow> discovered_plugin list" where
  "discover H ls project_roots user_dir =
     (let users = fold add_user (scan H ls user_dir ScopeUser) [];
          all = fold (\<lambda>root by_id. fold (add_project root) (scan H ls (root @ PROJECT_ADAPTER_DIR) ScopeProject) by_id)
                  (sort project_roots) users
      in map snd all)"

end
