(* ===== verification/Plugin_Host_Props.thy ===== *)
theory Plugin_Host_Props
  imports Plugin_Host "HOL-Library.Multiset"
begin

text \<open>
  What the plugin host guarantees: every fact with object properties leaves it pinned to the artifact and
  with provenance, the gate passes exactly for plugins that reproduce their golden corpus twice, a routed
  pass is all of its files or nothing, and discovery picks one artifact per id by a fixed precedence.
\<close>

section \<open>Pinning\<close>

lemma jget_object: "jget v k \<noteq> None \<Longrightarrow> is_object v"
  by (cases v) (auto simp: jget_def is_object_def)

text \<open>
  The properties \<open>v\<close> of a fact as it leaves the host, of a fact the guest emitted with properties \<open>raw\<close>.
\<close>

definition attributed :: "string \<Rightarrow> string \<Rightarrow> evidence_ref \<Rightarrow> json \<Rightarrow> json \<Rightarrow> bool" where
  "attributed plugin_id artifact_hash whole raw v \<longleftrightarrow>
     (if is_object raw then
        is_object v \<and> jget v ''plugin_artifact_hash'' = Some (JStr artifact_hash) \<and>
        (\<forall>k. k \<noteq> ''prov'' \<and> k \<noteq> ''plugin_artifact_hash'' \<longrightarrow> jget v k = jget raw k) \<and>
        (if needs_prov raw
         then \<exists>p. jget v ''prov'' = Some (prov_to_value p) \<and> p_tier p = Deterministic \<and> p_confidence p = Confirmed \<and>
                  p_evidence p = [whole] \<and> p_extractor p = pinned_id plugin_id artifact_hash
         else \<exists>prov g. jget v ''prov'' = Some prov \<and> jget raw ''prov'' = Some g \<and> is_object prov \<and>
                jget prov ''extractor_id'' = Some (JStr (pinned_id plugin_id artifact_hash)) \<and>
                (\<forall>k. k \<noteq> ''extractor_id'' \<longrightarrow> jget prov k = jget g k))
      else v = raw)"

lemma pin_props_get:
  assumes "is_object v"
  shows "jget (pin_props pid h v) ''plugin_artifact_hash'' = Some (JStr h)"
    "jget (pin_props pid h v) ''prov'' = map_option (jput ''extractor_id'' (JStr pid)) (jget v ''prov'')"
    "k \<noteq> ''prov'' \<Longrightarrow> k \<noteq> ''plugin_artifact_hash'' \<Longrightarrow> jget (pin_props pid h v) k = jget v k"
    "is_object (pin_props pid h v)"
  using assms by (auto simp: pin_props_def Let_def split: option.splits)

lemma pin_props_other: "\<not> is_object v \<Longrightarrow> pin_props pid h v = v"
  using jget_object [of v "''prov''"] by (auto simp: pin_props_def Let_def split: option.splits)

lemma needs_prov_pinned: "is_object v \<Longrightarrow> needs_prov (pin_props pid h v) = needs_prov v"
  by (cases "jget v ''prov''") (simp_all add: needs_prov_def pin_props_get)

definition whole_file :: "string \<Rightarrow> string \<Rightarrow> plugin_source \<Rightarrow> evidence_ref" where
  "whole_file source path i =
     \<lparr>ev_repo = si_repo i, ev_path = path, ev_byte_start = 0, ev_byte_end = of_nat (length source), ev_commit_sha = si_commit i\<rparr>"

lemma filled_prov_eq: "filled_prov H pid source path i b = prov_to_value (t0_prov H Confirmed [whole_file source path i] pid b)"
  by (simp add: filled_prov_def whole_file_def)

lemma attributed_pinned:
  fixes pid h raw
  defines "q \<equiv> pin_props (pinned_id pid h) h raw"
  shows "attributed pid h (whole_file source path i) raw
    (if needs_prov q then jput ''prov'' (filled_prov H (pinned_id pid h) source path i b) q else q)"
proof (cases "is_object raw")
  case True
  note g = pin_props_get [OF True, where pid = "pinned_id pid h" and h = h, folded q_def]
  show ?thesis
  proof (cases "needs_prov raw")
    case np: True
    then have q: "needs_prov q" using needs_prov_pinned [OF True, of "pinned_id pid h" h, folded q_def] by simp
    define v where "v = jput ''prov'' (filled_prov H (pinned_id pid h) source path i b) q"
    have v: "jget v k = (if k = ''prov'' then Some (filled_prov H (pinned_id pid h) source path i b) else jget q k)" "is_object v" for k
      using g(4) by (simp_all add: v_def)
    have "\<exists>p. jget v ''prov'' = Some (prov_to_value p) \<and> p_tier p = Deterministic \<and> p_confidence p = Confirmed \<and>
        p_evidence p = [whole_file source path i] \<and> p_extractor p = pinned_id pid h"
      by (rule exI [of _ "t0_prov H Confirmed [whole_file source path i] (pinned_id pid h) b"])
        (simp add: v filled_prov_eq t0_prov_def)
    then show ?thesis using True np q g by (simp add: attributed_def v_def [symmetric] v)
  next
    case False
    then obtain gp where gp: "jget raw ''prov'' = Some gp" "is_object gp" by (auto simp: needs_prov_def split: option.splits)
    then show ?thesis using True False g needs_prov_pinned [OF True, of "pinned_id pid h" h, folded q_def]
      by (auto simp: attributed_def)
  qed
next
  case False
  then show ?thesis by (simp add: attributed_def q_def pin_props_other)
qed

lemma attributed_cases:
  "needs_prov (pin_props (pinned_id pid h) h raw) \<Longrightarrow> attributed pid h (whole_file source path i) raw
     (jput ''prov'' (filled_prov H (pinned_id pid h) source path i b) (pin_props (pinned_id pid h) h raw))"
  "\<not> needs_prov (pin_props (pinned_id pid h) h raw) \<Longrightarrow> attributed pid h (whole_file source path i) raw
     (pin_props (pinned_id pid h) h raw)"
  using attributed_pinned [of pid h source path i raw H b] by simp_all

text \<open>
  Every fact of a call is a fact of the guest, in order, and carries the host's attribution.
\<close>

theorem call_extract_attributes:
  assumes "call_extract env guest p k source path i l = Inr x"
  obtains ns es where "guest (lp_component p) k l (epoch_ticks l) source path i = GuestReturned ns es"
    "list_all2 (\<lambda>w n. n_id n = wn_id w \<and> n_label n = wn_label w \<and> (\<exists>raw. he_parse env (wn_props_json w) = Inr raw \<and>
       attributed (lp_plugin_id p) (lp_artifact_hash p) (whole_file source path i) raw (n_props n))) ns (px_nodes x)"
    "list_all2 (\<lambda>w e. e_src e = we_src w \<and> e_dst e = we_dst w \<and> e_label e = we_label w \<and>
       (\<exists>raw. he_parse env (we_props_json w) = Inr raw \<and>
       attributed (lp_plugin_id p) (lp_artifact_hash p) (whole_file source path i) raw (e_props e))) es (px_edges x)"
proof -
  obtain ns es c where g: "guest (lp_component p) k l (epoch_ticks l) source path i = GuestReturned ns es"
    and c: "convert_extraction (he_parse env) ns es = Inr c"
    and x: "x = fill_missing_provenance (he_hash env) (he_text env) (lp_plugin_id p) (lp_artifact_hash p) source path i
      (pin_extraction (lp_plugin_id p) (lp_artifact_hash p) c)"
    using assms by (auto simp: call_extract_def rbind_eq_Inr split: guest_call.splits)
  have n: "list_all2 (\<lambda>w n. convert_node (he_parse env) w = Inr n) ns (px_nodes c)"
    and e: "list_all2 (\<lambda>w e. convert_edge (he_parse env) w = Inr e) es (px_edges c)"
    using c by (auto simp: convert_extraction_def rbind_eq_Inr try_map_Inr_iff)
  have if_node: "(if b then n\<lparr>n_props := a\<rparr> else n) = n\<lparr>n_props := if b then a else n_props n\<rparr>" for b a and n :: node by simp
  have if_edge: "(if b then e\<lparr>e_props := a\<rparr> else e) = e\<lparr>e_props := if b then a else e_props e\<rparr>" for b a and e :: edge by simp
  show ?thesis
  proof (rule that [OF g])
    show "list_all2 (\<lambda>w n. n_id n = wn_id w \<and> n_label n = wn_label w \<and> (\<exists>raw. he_parse env (wn_props_json w) = Inr raw \<and>
       attributed (lp_plugin_id p) (lp_artifact_hash p) (whole_file source path i) raw (n_props n))) ns (px_nodes x)"
      unfolding x fill_missing_provenance_def pin_extraction_def Let_def if_node
      by (simp add: list_all2_map2 comp_def, rule list_all2_mono [OF n])
        (auto simp: convert_node_def attributed_cases split: sum.splits)
    show "list_all2 (\<lambda>w e. e_src e = we_src w \<and> e_dst e = we_dst w \<and> e_label e = we_label w \<and>
       (\<exists>raw. he_parse env (we_props_json w) = Inr raw \<and>
       attributed (lp_plugin_id p) (lp_artifact_hash p) (whole_file source path i) raw (e_props e))) es (px_edges x)"
      unfolding x fill_missing_provenance_def pin_extraction_def Let_def if_edge
      by (simp add: list_all2_map2 comp_def, rule list_all2_mono [OF e])
        (auto simp: convert_edge_def attributed_cases split: sum.splits)
  qed
qed

text \<open>
  A fact whose properties are not an object leaves the host as the guest wrote it: it carries neither the
  artifact hash nor provenance, although every call is meant to attribute all its facts.
\<close>

theorem plain_props_leave_unattributed:
  fixes env :: host_env and p :: "'c loaded_plugin"
  assumes "he_parse env ''null'' = Inr JNull"
  shows "\<exists>(guest :: 'c guest) x n. call_extract env guest p k source path i l = Inr x \<and> px_nodes x = [n] \<and>
    jget (n_props n) ''plugin_artifact_hash'' = None \<and> jget (n_props n) ''prov'' = None"
proof (intro exI conjI)
  let ?guest = "(\<lambda>c k l t s pt i. GuestReturned [\<lparr>wn_id = ''n'', wn_label = ''Function'', wn_props_json = ''null''\<rparr>] []) :: 'c guest"
  let ?n = "\<lparr>n_id = ''n'', n_label = ''Function'', n_props = JNull\<rparr>"
  show "call_extract env ?guest p k source path i l = Inr \<lparr>px_nodes = [?n], px_edges = []\<rparr>"
    using assms by (simp add: call_extract_def convert_extraction_def convert_node_def fill_missing_provenance_def
        pin_extraction_def pin_props_def needs_prov_def jput_def Let_def)
  show "px_nodes \<lparr>px_nodes = [?n], px_edges = []\<rparr> = [?n]" by simp
qed simp_all

section \<open>The gate\<close>











lemma check_passed [simp]: "gk_passed (check name passed detail) = passed"
  by (simp add: check_def)





text \<open>The joined texts of different facts can coincide; the gate then takes one for the other.\<close>

lemma canonical_collision:
  "canonical ts \<lparr>px_nodes = [\<lparr>n_id = ''a'', n_label = ''b:c'', n_props = v\<rparr>], px_edges = []\<rparr> =
   canonical ts \<lparr>px_nodes = [\<lparr>n_id = ''a:b'', n_label = ''c'', n_props = v\<rparr>], px_edges = []\<rparr>"
  by (simp add: canonical_def)

section \<open>Routing\<close>

text \<open>A routed pass that succeeds is the concatenation of one call per claimed file, in walk order.\<close>

lemma extract_files_ok:
  "extract_files env guest p root i l k rels m = Inr x \<Longrightarrow>
     \<exists>xs. list_all2 (\<lambda>(j, rel) y. \<exists>source. read_bytes root rel = Inr source \<and>
            call_extract env guest p j source rel i l = Inr y) (List.enumerate k rels) xs \<and>
          px_nodes x = px_nodes m @ concat (map px_nodes xs) \<and> px_edges x = px_edges m @ concat (map px_edges xs)"
proof (induction rels arbitrary: k m)
  case (Cons rel rels)
  from Cons.prems obtain source y where r: "read_bytes root rel = Inr source" "call_extract env guest p k source rel i l = Inr y"
    and rest: "extract_files env guest p root i l (Suc k) rels
      \<lparr>px_nodes = px_nodes m @ px_nodes y, px_edges = px_edges m @ px_edges y\<rparr> = Inr x"
    by (auto split: sum.splits)
  from Cons.IH [OF rest] obtain xs where "list_all2 (\<lambda>(j, rel) y. \<exists>source. read_bytes root rel = Inr source \<and>
            call_extract env guest p j source rel i l = Inr y) (List.enumerate (Suc k) rels) xs"
    "px_nodes x = px_nodes m @ px_nodes y @ concat (map px_nodes xs)" "px_edges x = px_edges m @ px_edges y @ concat (map px_edges xs)"
    by auto
  then show ?case using r by (intro exI [of _ "y # xs"]) auto
qed simp

theorem routed_pass_is_whole:
  assumes "extract_claimed GB env guest p root extensions i l k = Inr x"
  shows "\<exists>rels xs. claimed_files GB root extensions = Inr rels \<and>
    list_all2 (\<lambda>(j, rel) y. \<exists>source. read_bytes root rel = Inr source \<and>
      call_extract env guest p j source rel i l = Inr y) (List.enumerate k rels) xs \<and>
    px_nodes x = concat (map px_nodes xs) \<and> px_edges x = concat (map px_edges xs)"
proof -
  obtain rels where "claimed_files GB root extensions = Inr rels"
    "extract_files env guest p root i l k rels \<lparr>px_nodes = [], px_edges = []\<rparr> = Inr x"
    using assms by (auto simp: extract_claimed_def split: sum.splits walk_error.splits)
  then show ?thesis using extract_files_ok by fastforce
qed

section \<open>Discovery\<close>

lemma om_get_add_users: "om_get (fold add_user ps m) k = (case find (\<lambda>p. dp_id p = k) (rev ps) of None \<Rightarrow> om_get m k | Some p \<Rightarrow> Some p)"
proof (induction ps arbitrary: m)
  case (Cons p ps)
  have f: "find P (xs @ [y]) = (case find P xs of None \<Rightarrow> if P y then Some y else None | Some x \<Rightarrow> Some x)" for P :: "discovered_plugin \<Rightarrow> bool" and xs y
    by (induction xs) auto
  show ?case using Cons [of "add_user p m"] by (auto simp: f add_user_def split: option.splits)
qed simp

lemma fold_nested:
  "fold (\<lambda>r. fold (f r) (g r)) rs m = fold (\<lambda>(r, p). f r p) (concat (map (\<lambda>r. map (Pair r) (g r)) rs)) m"
  by (induction rs arbitrary: m) (simp_all add: fold_map comp_def)

definition as_winner :: "fs_path \<times> discovered_plugin \<Rightarrow> bool \<Rightarrow> discovered_plugin" where
  "as_winner rp shadowed = (snd rp)\<lparr>dp_project_root := Some (fst rp), dp_shadowed_user_copy := shadowed\<rparr>"

lemma om_get_add_projects:
  assumes "\<forall>(r, p) \<in> set ps. dp_scope p = ScopeProject"
  shows "om_get (fold (\<lambda>(r, p). add_project r p) ps m) k =
    (case find (\<lambda>(r, p). dp_id p = k) ps of
       None \<Rightarrow> om_get m k
     | Some rp \<Rightarrow> (case om_get m k of
           None \<Rightarrow> Some (as_winner rp False)
         | Some q \<Rightarrow> if dp_scope q = ScopeProject then Some q else Some (as_winner rp True)))"
  using assms
proof (induction ps arbitrary: m)
  case (Cons rp ps)
  obtain r p where rp: "rp = (r, p)" by (cases rp)
  have p: "dp_scope p = ScopeProject" using Cons.prems by (simp add: rp)
  have ih: "om_get (fold (\<lambda>(r, p). add_project r p) ps (add_project r p m)) k =
    (case find (\<lambda>(r, p). dp_id p = k) ps of
       None \<Rightarrow> om_get (add_project r p m) k
     | Some rp \<Rightarrow> (case om_get (add_project r p m) k of
           None \<Rightarrow> Some (as_winner rp False)
         | Some q \<Rightarrow> if dp_scope q = ScopeProject then Some q else Some (as_winner rp True)))"
    using Cons by simp
  have other: "dp_scope q \<noteq> ScopeProject \<longleftrightarrow> dp_scope q = ScopeUser" for q :: discovered_plugin by (cases "dp_scope q") auto
  show ?case
  proof (cases "dp_id p = k")
    case True
    then have "om_get (add_project r p m) k = (case om_get m k of
        None \<Rightarrow> Some (as_winner (r, p) False)
      | Some q \<Rightarrow> if dp_scope q = ScopeProject then Some q else Some (as_winner (r, p) True))"
      using other by (auto simp: add_project_def as_winner_def split: option.splits)
    then show ?thesis using ih True p by (auto simp: rp as_winner_def split: option.splits if_splits)
  next
    case False
    then have "om_get (add_project r p m) k = om_get m k" by (simp add: add_project_def Let_def)
    then show ?thesis using ih False by (simp add: rp split: option.split)
  qed
qed simp

lemma found_in: "find P xs = Some x \<Longrightarrow> x \<in> set xs \<and> P x"
  by (induction xs) (auto split: if_splits)

lemma scan_entry_scope: "scan_entry H dir scope e = Some p \<Longrightarrow> dp_scope p = scope"
  by (auto simp: scan_entry_def split: prod.splits if_splits sum.splits)

lemma scan_scope: "p \<in> set (scan H ls dir scope) \<Longrightarrow> dp_scope p = scope"
  by (auto simp: scan_def List.map_filter_def split: option.splits dest: scan_entry_scope)

text \<open>
  For every adapter id, discovery lists at most one artifact: the first one under the sorted project
  roots, marked with its root and with whether a user copy was shadowed, or else the user's; ids are sorted.
\<close>

definition project_artifacts :: "(string \<Rightarrow> string) \<Rightarrow> dir_listing \<Rightarrow> fs_path list \<Rightarrow> (fs_path \<times> discovered_plugin) list" where
  "project_artifacts H ls roots =
     concat (map (\<lambda>root. map (Pair root) (scan H ls (root @ PROJECT_ADAPTER_DIR) ScopeProject)) (sort roots))"

definition entry_ids :: "(string, discovered_plugin) omap \<Rightarrow> bool" where
  "entry_ids m \<longleftrightarrow> om_wf m \<and> (\<forall>(k, p) \<in> set m. dp_id p = k)"

lemma set_om_put: "set (om_put k v m) \<subseteq> insert (k, v) (set m)"
  by (induction m) auto

lemma entry_ids_put: "entry_ids m \<Longrightarrow> dp_id p = k \<Longrightarrow> entry_ids (om_put k p m)"
  using set_om_put [of k p m] by (auto simp: entry_ids_def)

lemma entry_ids_users: "entry_ids m \<Longrightarrow> entry_ids (fold add_user ps m)"
  by (induction ps arbitrary: m) (simp_all add: add_user_def [abs_def] entry_ids_put)

lemma entry_ids_projects: "entry_ids m \<Longrightarrow> entry_ids (fold (\<lambda>(r, p). add_project r p) rps m)"
proof (induction rps arbitrary: m)
  case (Cons rp rps)
  have "entry_ids (add_project (fst rp) (snd rp) m)" using Cons.prems by (simp add: add_project_def Let_def entry_ids_put)
  then show ?case using Cons.IH by (simp add: case_prod_unfold)
qed simp

theorem discover_precedence:
  "sorted_wrt (<) (map dp_id (discover H ls roots user_dir)) \<and>
   find (\<lambda>p. dp_id p = k) (discover H ls roots user_dir) =
     (case find (\<lambda>(r, p). dp_id p = k) (project_artifacts H ls roots) of
        Some rp \<Rightarrow> Some (as_winner rp (k \<in> dp_id ` set (scan H ls user_dir ScopeUser)))
      | None \<Rightarrow> find (\<lambda>p. dp_id p = k) (rev (scan H ls user_dir ScopeUser)))"
proof -
  define users where "users = fold add_user (scan H ls user_dir ScopeUser) []"
  define all where "all = fold (\<lambda>(r, p). add_project r p) (project_artifacts H ls roots) users"
  have d: "discover H ls roots user_dir = map snd all"
    by (simp add: discover_def Let_def users_def all_def project_artifacts_def fold_nested [where f = add_project])
  have ids: "entry_ids all" unfolding all_def users_def by (intro entry_ids_projects entry_ids_users) (simp add: entry_ids_def)
  have u: "om_get users k = find (\<lambda>p. dp_id p = k) (rev (scan H ls user_dir ScopeUser))"
    by (simp add: users_def om_get_add_users split: option.split)
  have us: "om_get users k = Some q \<Longrightarrow> dp_scope q = ScopeUser \<and> k \<in> dp_id ` set (scan H ls user_dir ScopeUser)" for q
  proof -
    assume "om_get users k = Some q"
    then have "q \<in> set (rev (scan H ls user_dir ScopeUser))" "dp_id q = k" unfolding u by (auto dest: found_in)
    then show ?thesis using scan_scope by auto
  qed
  have un: "om_get users k = None \<Longrightarrow> k \<notin> dp_id ` set (scan H ls user_dir ScopeUser)"
    unfolding u by (auto simp: find_None_iff)
  have pr: "\<forall>(r, p) \<in> set (project_artifacts H ls roots). dp_scope p = ScopeProject"
    by (auto simp: project_artifacts_def dest: scan_scope)
  have keyed: "find (\<lambda>p. dp_id p = k) (map snd m) = om_get m k" if "\<forall>(k, p) \<in> set m. dp_id p = k" for m :: "(string, discovered_plugin) omap"
    using that by (induction m) auto
  have eq: "map dp_id (map snd all) = map fst all" using ids by (auto simp: entry_ids_def)
  have "sorted_wrt (<) (map dp_id (map snd all))" unfolding eq using ids by (simp add: entry_ids_def om_wf_def)
  moreover have "find (\<lambda>p. dp_id p = k) (map snd all) = om_get all k" using ids by (intro keyed) (simp add: entry_ids_def)
  moreover have "om_get all k = (case find (\<lambda>(r, p). dp_id p = k) (project_artifacts H ls roots) of
        Some rp \<Rightarrow> Some (as_winner rp (k \<in> dp_id ` set (scan H ls user_dir ScopeUser)))
      | None \<Rightarrow> find (\<lambda>p. dp_id p = k) (rev (scan H ls user_dir ScopeUser)))"
    unfolding all_def om_get_add_projects [OF pr] u [symmetric]
    using us un by (auto split: option.split)
  ultimately show ?thesis unfolding d by simp
qed

end
