(* ===== verification/Observed_Parse.thy ===== *)
theory Observed_Parse
  imports Graph_Store Json_Map
begin

text \<open>
  The readers of the dynamic tier (\<^verbatim>\<open>crates/dynamic/src/lib.rs\<close>): OTLP traces in JSON Lines, the state or
  plan of \<^verbatim>\<open>terraform show -json\<close>, and Pulumi stack exports and previews. \<open>ps\<close> is the JSON parser with its
  error text and \<open>af\<close> is serde\_json's reading of a number as the bits of a float.
\<close>

section \<open>Fields and scalars\<close>

fun find_map :: "('a \<Rightarrow> 'b option) \<Rightarrow> 'a list \<Rightarrow> 'b option" where
  "find_map f [] = None"
| "find_map f (x # xs) = (case f x of None \<Rightarrow> find_map f xs | Some y \<Rightarrow> Some y)"

definition array_field :: "json \<Rightarrow> string list \<Rightarrow> json list" where
  "array_field v names =
     (case find_map (\<lambda>n. Option.bind (jget v n) as_array) names of None \<Rightarrow> [] | Some xs \<Rightarrow> xs)"

definition string_field :: "json \<Rightarrow> string list \<Rightarrow> string" where
  "string_field v names =
     (case find_map (\<lambda>n. Option.bind (jget v n) as_str) names of None \<Rightarrow> [] | Some s \<Rightarrow> s)"

text \<open>64-bit signed integers in two's complement: reading a number, a decimal text, and writing one.\<close>

definition as_i64 :: "json \<Rightarrow> u64 option" where
  "as_i64 v =
     (case v of
        JNum (PosInt n) \<Rightarrow> if unat n < 2 ^ 63 then Some n else None
      | JNum (NegInt n) \<Rightarrow> Some n
      | _ \<Rightarrow> None)"

definition i64_value :: "u64 \<Rightarrow> json" where
  "i64_value w = (if sint w < 0 then JNum (NegInt w) else JNum (PosInt w))"

definition digits_value :: "string \<Rightarrow> nat option" where
  "digits_value s =
     (if s \<noteq> [] \<and> list_all (\<lambda>c. CHR ''0'' \<le> c \<and> c \<le> CHR ''9'') s
      then Some (fold (\<lambda>c n. 10 * n + (of_char c - 48)) s 0) else None)"

definition parse_i64 :: "string \<Rightarrow> u64 option" where
  "parse_i64 s =
     (case s of
        CHR ''-'' # ds \<Rightarrow>
          (case digits_value ds of
             None \<Rightarrow> None
           | Some n \<Rightarrow> if n \<le> 2 ^ 63 then Some (- of_nat n) else None)
      | _ \<Rightarrow>
          (case digits_value (case s of CHR ''+'' # ds \<Rightarrow> ds | _ \<Rightarrow> s) of
             None \<Rightarrow> None
           | Some n \<Rightarrow> if n < 2 ^ 63 then Some (of_nat n) else None))"

text \<open>\<^verbatim>\<open>Number::from_f64\<close>: a float is a JSON number only when it is finite.\<close>

definition from_f64 :: "u64 \<Rightarrow> json_num option" where
  "from_f64 bits = (if (unat bits div 2 ^ 52) mod 2 ^ 11 = 2 ^ 11 - 1 then None else Some (Float bits))"

definition int_any :: "json \<Rightarrow> u64 option" where
  "int_any v = (case as_i64 v of Some n \<Rightarrow> Some n | None \<Rightarrow> Option.bind (as_str v) parse_i64)"

definition any_value :: "(json \<Rightarrow> u64 option) \<Rightarrow> json \<Rightarrow> json option" where
  "any_value af v =
     (case find_map (\<lambda>n. Option.bind (jget v n) as_str) [''stringValue'', ''string_value''] of
        Some s \<Rightarrow> Some (JStr s)
      | None \<Rightarrow>
     (case find_map (\<lambda>n. Option.bind (jget v n) int_any) [''intValue'', ''int_value''] of
        Some n \<Rightarrow> Some (i64_value n)
      | None \<Rightarrow>
     (case find_map (\<lambda>n. Option.bind (jget v n) af) [''doubleValue'', ''double_value''] of
        Some b \<Rightarrow> map_option JNum (from_f64 b)
      | None \<Rightarrow>
        map_option JBool
          (find_map (\<lambda>n. Option.bind (jget v n) as_bool) [''boolValue'', ''bool_value'']))))"

definition attribute_pair :: "(json \<Rightarrow> u64 option) \<Rightarrow> json \<Rightarrow> (string \<times> json) option" where
  "attribute_pair af a =
     Option.bind (Option.bind (jget a ''key'') as_str) (\<lambda>k.
     Option.bind (Option.bind (jget a ''value'') (any_value af)) (\<lambda>v. Some (k, v)))"

definition attributes :: "(json \<Rightarrow> u64 option) \<Rightarrow> json \<Rightarrow> (string, json) omap" where
  "attributes af v =
     fold (\<lambda>(k, w). om_put k w) (List.map_filter (attribute_pair af) (array_field v [''attributes''])) []"

section \<open>Traces\<close>

record observed_span =
  os_trace_id :: string
  os_span_id :: string
  os_name :: string
  os_attributes :: "(string, json) omap"
  os_resource_attributes :: "(string, json) omap"
  os_start :: nat
  os_end :: nat

datatype trace_error = TeJson nat string | TeShape

text \<open>\<^verbatim>\<open>str::split_inclusive('\n')\<close>: lines with their terminators, none for the empty text.\<close>

fun split_inclusive :: "string \<Rightarrow> string list" where
  "split_inclusive [] = []"
| "split_inclusive (c # s) =
     (if c = CHR 0x0A then [c] # split_inclusive s
      else case split_inclusive s of [] \<Rightarrow> [[c]] | l # ls \<Rightarrow> (c # l) # ls)"

definition find_or_0 :: "string \<Rightarrow> string \<Rightarrow> nat" where
  "find_or_0 pat s = (case find_str pat s of None \<Rightarrow> 0 | Some i \<Rightarrow> i)"

definition otlp_span ::
  "(json \<Rightarrow> u64 option) \<Rightarrow> string \<Rightarrow> nat \<Rightarrow> (string, json) omap \<Rightarrow> json \<Rightarrow> observed_span option" where
  "otlp_span af line offset resource_attributes sp =
     (let span_id = string_field sp [''spanId'', ''span_id''] in
      if span_id = [] then None
      else Some
        \<lparr>os_trace_id = string_field sp [''traceId'', ''trace_id''], os_span_id = span_id,
         os_name = string_field sp [''name''], os_attributes = attributes af sp,
         os_resource_attributes = resource_attributes,
         os_start = offset + find_or_0 span_id line,
         os_end = offset + find_or_0 span_id line + length span_id\<rparr>)"

definition otlp_resource :: "(json \<Rightarrow> u64 option) \<Rightarrow> string \<Rightarrow> nat \<Rightarrow> json \<Rightarrow> observed_span list" where
  "otlp_resource af line offset resource_span =
     (let rattrs = (case jget resource_span ''resource'' of None \<Rightarrow> [] | Some r \<Rightarrow> attributes af r) in
      concat (map (\<lambda>scope_span.
          List.map_filter (otlp_span af line offset rattrs) (array_field scope_span [''spans'']))
        (array_field resource_span [''scopeSpans'', ''scope_spans''])))"

fun otlp_lines ::
  "(string \<Rightarrow> (string, json) result) \<Rightarrow> (json \<Rightarrow> u64 option) \<Rightarrow> nat \<Rightarrow> nat \<Rightarrow> string list
     \<Rightarrow> observed_span list \<times> bool \<Rightarrow> (trace_error, observed_span list \<times> bool) result" where
  "otlp_lines ps af line_index offset [] st = Inr st"
| "otlp_lines ps af line_index offset (l # ls) (spans, saw) =
     (if trim l = [] then otlp_lines ps af (line_index + 1) (offset + length l) ls (spans, saw)
      else case ps (trim l) of
        Inl e \<Rightarrow> Inl (TeJson (line_index + 1) e)
      | Inr document \<Rightarrow>
          (let resources = array_field document [''resourceSpans'', ''resource_spans''] in
           otlp_lines ps af (line_index + 1) (offset + length l) ls
             (spans @ concat (map (otlp_resource af l offset) resources), saw \<or> resources \<noteq> [])))"

definition parse_otlp_jsonl ::
  "(string \<Rightarrow> (string, json) result) \<Rightarrow> (json \<Rightarrow> u64 option) \<Rightarrow> string \<Rightarrow> (trace_error, observed_span list) result" where
  "parse_otlp_jsonl ps af raw =
     rbind (otlp_lines ps af 0 0 (split_inclusive raw) ([], False)) (\<lambda>(spans, saw).
     if saw then Inr spans else Inl TeShape)"

section \<open>Terraform state\<close>

definition REDACTED :: string where "REDACTED = ''[redacted]''"

record observed_resource =
  or_address :: string
  or_rtype :: string
  or_values :: "(string, json) omap"
  or_redacted :: "string set"

record observed_state =
  st_resources :: "observed_resource list"
  st_modules :: "(string, nat) omap"

datatype state_error = SeJson string | SeShape string

fun is_scalar :: "json \<Rightarrow> bool" where
  "is_scalar JNull = False"
| "is_scalar (JObj _) = False"
| "is_scalar (JArr _) = False"
| "is_scalar _ = True"

definition marked_sensitive :: "json \<Rightarrow> string \<Rightarrow> bool" where
  "marked_sensitive res key \<longleftrightarrow>
     Option.bind (Option.bind (jget res ''sensitive_values'') (\<lambda>s. jget s key)) as_bool = Some True"

definition observe_value ::
  "json \<Rightarrow> string \<times> json \<Rightarrow> (string, json) omap \<times> string set \<Rightarrow> (string, json) omap \<times> string set" where
  "observe_value res kv acc =
     (case (kv, acc) of ((key, v), (values, redacted)) \<Rightarrow>
        if \<not> is_scalar v then acc
        else if marked_sensitive res key then (om_put key (JStr REDACTED) values, insert key redacted)
        else (om_put key v values, redacted))"

definition observe_resource :: "json \<Rightarrow> observed_resource option" where
  "observe_resource res =
     (case (Option.bind (jget res ''address'') as_str, Option.bind (jget res ''type'') as_str) of
        (Some address, Some rtype) \<Rightarrow>
          (let entries = (case jget res ''values'' of Some (JObj o') \<Rightarrow> o' | _ \<Rightarrow> []);
               (values, redacted) = fold (observe_value res) entries ([], {})
           in Some \<lparr>or_address = address, or_rtype = rtype, or_values = values, or_redacted = redacted\<rparr>)
      | _ \<Rightarrow> None)"

lemma array_field_size [termination_simp]:
  "c \<in> set (array_field m [k]) \<Longrightarrow> size c < size m"
proof (cases m)
  case (JObj o')
  assume "c \<in> set (array_field m [k])"
  with JObj obtain xs where xs: "map_of o' k = Some (JArr xs)" "c \<in> set xs"
    by (cases "map_of o' k"; cases "the (map_of o' k)") (auto simp: array_field_def as_array_def)
  have "size c \<le> size_list size xs" using xs(2) by (simp add: size_list_estimation')
  moreover have "size_prod (\<lambda>_. 0) size (k, JArr xs) \<le> size_list (size_prod (\<lambda>_. 0) size) o'"
    using map_of_SomeD [OF xs(1)] by (rule size_list_estimation') simp
  ultimately show ?thesis by (simp add: JObj)
qed (auto simp: array_field_def)

fun walk_module :: "json \<Rightarrow> observed_state \<Rightarrow> observed_state" where
  "walk_module m out =
     (let resources = array_field m [''resources''];
          out1 = (case Option.bind (jget m ''address'') as_str of
                    None \<Rightarrow> out
                  | Some addr \<Rightarrow> out\<lparr>st_modules := om_put addr (length resources) (st_modules out)\<rparr>);
          out2 = out1\<lparr>st_resources := st_resources out1 @ List.map_filter observe_resource resources\<rparr>
      in fold walk_module (array_field m [''child_modules'']) out2)"

declare walk_module.simps [simp del]

definition parse_state :: "(string \<Rightarrow> (string, json) result) \<Rightarrow> string \<Rightarrow> (state_error, observed_state) result" where
  "parse_state ps text' =
     (case ps text' of
        Inl e \<Rightarrow> Inl (SeJson e)
      | Inr doc \<Rightarrow>
          (case Option.bind (case jget doc ''values'' of Some v \<Rightarrow> Some v | None \<Rightarrow> jget doc ''planned_values'')
                  (\<lambda>v. jget v ''root_module'') of
             None \<Rightarrow> Inl (SeShape ''expected `terraform show -json` output (values.root_module or planned_values.root_module)'')
           | Some root \<Rightarrow> Inr (walk_module root \<lparr>st_resources = [], st_modules = []\<rparr>)))"

section \<open>Pulumi deployments\<close>

record pulumi_resource =
  pr_urn :: string
  pr_type_token :: string
  pr_logical_name :: string
  pr_inputs :: json
  pr_outputs :: json
  pr_parent :: "string option"
  pr_dependencies :: "string list"
  pr_start :: nat
  pr_end :: nat

datatype pulumi_error = PeJson string | PeShape

definition SIGNATURE_KEY :: string where "SIGNATURE_KEY = ''4dabf18193072939515e22adb298388d''"
definition SECRET_SIGNATURE :: string where "SECRET_SIGNATURE = ''1b47061264138c4ac30d75fd1eb44270''"

definition secret_wrapper :: "(string \<times> json) list \<Rightarrow> bool" where
  "secret_wrapper o' \<longleftrightarrow>
     Option.bind (map_of o' SIGNATURE_KEY) as_str = Some SECRET_SIGNATURE \<or>
     map_of o' ''ciphertext'' \<noteq> None \<or> map_of o' ''secure'' \<noteq> None"

fun redact_pulumi_value :: "json \<Rightarrow> json" where
  "redact_pulumi_value (JObj o') =
     (if secret_wrapper o' then JStr REDACTED
      else JObj (map (\<lambda>(k, v). (k, redact_pulumi_value v)) o'))"
| "redact_pulumi_value (JArr vs) = JArr (map redact_pulumi_value vs)"
| "redact_pulumi_value v = v"

text \<open>\<^verbatim>\<open>urn.rsplit("::").next()\<close>: what follows the rightmost separator, the whole text without one.\<close>

fun after_last :: "string \<Rightarrow> string \<Rightarrow> string option" where
  "after_last pat [] = None"
| "after_last pat (c # s) =
     (case after_last pat s of
        Some r \<Rightarrow> Some r
      | None \<Rightarrow> if starts_with pat (c # s) then Some (drop (length pat) (c # s)) else None)"

definition logical_name_of :: "string \<Rightarrow> string" where
  "logical_name_of urn = (case after_last ''::'' urn of None \<Rightarrow> urn | Some r \<Rightarrow> r)"

definition str_or :: "json \<Rightarrow> json option \<Rightarrow> string \<Rightarrow> string option" where
  "str_or v fallback field =
     (case Option.bind (jget v field) as_str of
        Some s \<Rightarrow> Some s
      | None \<Rightarrow> Option.bind (Option.bind fallback (\<lambda>f. jget f field)) as_str)"

definition redacted_field :: "json \<Rightarrow> string \<Rightarrow> json" where
  "redacted_field v field = (case jget v field of None \<Rightarrow> JObj [] | Some w \<Rightarrow> redact_pulumi_value w)"

definition read_pulumi_resource :: "json \<Rightarrow> json option \<Rightarrow> string \<Rightarrow> pulumi_resource option" where
  "read_pulumi_resource v fallback raw =
     (if Option.bind (jget v ''delete'') as_bool = Some True \<or>
         (case str_or v fallback ''op'' of None \<Rightarrow> False | Some operation \<Rightarrow> starts_with ''delete'' operation) then None
      else Option.bind (str_or v fallback ''urn'') (\<lambda>urn.
           Option.bind (str_or v fallback ''type'') (\<lambda>type_token.
      if type_token = ''pulumi:pulumi:Stack'' \<or> starts_with ''pulumi:providers:'' type_token then None
      else Some
        \<lparr>pr_urn = urn, pr_type_token = type_token, pr_logical_name = logical_name_of urn,
         pr_inputs = redacted_field v ''inputs'', pr_outputs = redacted_field v ''outputs'',
         pr_parent = Option.bind (str_or v fallback ''parent'') (\<lambda>p. if p = [] then None else Some p),
         pr_dependencies = List.map_filter as_str (array_field v [''dependencies'']),
         pr_start = find_or_0 urn raw, pr_end = find_or_0 urn raw + length urn\<rparr>)))"

definition put_pulumi :: "pulumi_resource option \<Rightarrow> (string, pulumi_resource) omap \<Rightarrow> (string, pulumi_resource) omap" where
  "put_pulumi r m = (case r of None \<Rightarrow> m | Some p \<Rightarrow> om_put (pr_urn p) p m)"

definition preview_event ::
  "json \<Rightarrow> string \<Rightarrow> string \<Rightarrow> (string, pulumi_resource) omap \<times> bool \<Rightarrow> (string, pulumi_resource) omap \<times> bool" where
  "preview_event v raw event_name acc =
     (case Option.bind (jget v event_name) (\<lambda>e. jget e ''metadata'') of
        None \<Rightarrow> acc
      | Some metadata \<Rightarrow>
          (let state = (case jget metadata ''new'' of None \<Rightarrow> metadata | Some n \<Rightarrow> n)
           in (put_pulumi (read_pulumi_resource state (Some metadata) raw) (fst acc), True)))"

definition collect_document ::
  "json \<Rightarrow> string \<Rightarrow> (string, pulumi_resource) omap \<Rightarrow> (string, pulumi_resource) omap \<times> bool" where
  "collect_document v raw resources =
     (let deployment = (case jget v ''deployment'' of None \<Rightarrow> v | Some d \<Rightarrow> d);
          acc = (case Option.bind (jget deployment ''resources'') as_array of
                   None \<Rightarrow> (resources, False)
                 | Some vs \<Rightarrow> (fold (\<lambda>r. put_pulumi (read_pulumi_resource r None raw)) vs resources, True))
      in fold (preview_event v raw) [''resourcePreEvent'', ''resOutputsEvent''] acc)"

fun collect_pulumi_resources ::
  "json \<Rightarrow> string \<Rightarrow> (string, pulumi_resource) omap \<Rightarrow> (string, pulumi_resource) omap \<times> bool" where
  "collect_pulumi_resources (JArr vs) raw resources =
     fold (\<lambda>v (rs, supported).
             (let (rs', s) = collect_pulumi_resources v raw rs in (rs', s \<or> supported))) vs (resources, False)"
| "collect_pulumi_resources v raw resources = collect_document v raw resources"

definition pulumi_documents :: "(string \<Rightarrow> (string, json) result) \<Rightarrow> string \<Rightarrow> (pulumi_error, json list) result" where
  "pulumi_documents ps raw =
     (case ps raw of
        Inr document \<Rightarrow> Inr [document]
      | Inl e \<Rightarrow>
          (case try_map ps (filter (\<lambda>l. trim l \<noteq> []) (str_lines raw)) of
             Inl _ \<Rightarrow> Inl (PeJson e)
           | Inr documents \<Rightarrow> if documents = [] then Inl (PeJson e) else Inr documents))"

definition parse_pulumi_json ::
  "(string \<Rightarrow> (string, json) result) \<Rightarrow> string \<Rightarrow> (pulumi_error, pulumi_resource list) result" where
  "parse_pulumi_json ps raw =
     rbind (pulumi_documents ps raw) (\<lambda>documents.
     (let (resources, supported) =
            fold (\<lambda>d (rs, supported).
                    (let (rs', s) = collect_pulumi_resources d raw rs in (rs', s \<or> supported))) documents ([], False)
      in if supported then Inr (map snd resources) else Inl PeShape))"

end
