(* ===== verification/Dynamic_Tier.thy ===== *)
theory Dynamic_Tier
  imports Observed_Parse
begin

text \<open>
  What observations do to a statically extracted graph (\<^verbatim>\<open>crates/dynamic/src/lib.rs\<close>): Terraform and
  Pulumi attributes land beside the facts of a resource, observed identities back channels, and traces
  fill channel Gaps and endpoints. \<open>H\<close> is the hash of the provenance. The \<^verbatim>\<open>expect\<close> of
  \<open>enrich_resources\<close> on properties that are no object is the error \<open>PropsNotObject\<close>; at the other two
  such calls the node was selected by one of its properties, so they are an object.
\<close>

section \<open>Observed provenance\<close>

definition STATE_EXTRACTOR_ID :: string where "STATE_EXTRACTOR_ID = ''t1.terraform-state''"
definition PULUMI_EXTRACTOR_ID :: string where "PULUMI_EXTRACTOR_ID = ''t1.pulumi-deployment''"
definition OTEL_EXTRACTOR_ID :: string where "OTEL_EXTRACTOR_ID = ''t1.otel-trace''"

text \<open>The common body of the three constructors: one reference into the artifact, at the tier's ceiling.\<close>

definition dynamic_prov :: "(string \<Rightarrow> string) \<Rightarrow> string \<Rightarrow> string \<Rightarrow> nat \<times> nat \<Rightarrow> string \<Rightarrow> json" where
  "dynamic_prov H extractor_id path span fact_bytes =
     (case prov_new H Dynamic Confirmed
        [\<lparr>ev_repo = [], ev_path = path, ev_byte_start = of_nat (fst span), ev_byte_end = of_nat (snd span),
          ev_commit_sha = []\<rparr>] extractor_id fact_bytes of
        Inl _ \<Rightarrow> JNull
      | Inr p \<Rightarrow> prov_to_value p)"

definition observed_prov :: "(string \<Rightarrow> string) \<Rightarrow> string \<Rightarrow> nat \<times> nat \<Rightarrow> string \<Rightarrow> json" where
  "observed_prov H state_path span fact_bytes = dynamic_prov H STATE_EXTRACTOR_ID state_path span fact_bytes"

definition pulumi_prov :: "(string \<Rightarrow> string) \<Rightarrow> string \<Rightarrow> nat \<times> nat \<Rightarrow> string \<Rightarrow> json" where
  "pulumi_prov H path span fact_bytes = dynamic_prov H PULUMI_EXTRACTOR_ID path span fact_bytes"

definition trace_prov :: "(string \<Rightarrow> string) \<Rightarrow> string \<Rightarrow> observed_span \<Rightarrow> string \<Rightarrow> json" where
  "trace_prov H trace_path span fact_bytes =
     dynamic_prov H OTEL_EXTRACTOR_ID trace_path (os_start span, os_end span) fact_bytes"

definition address_span :: "string \<Rightarrow> string \<Rightarrow> nat \<times> nat" where
  "address_span raw address =
     (let needle = CHR 0x22 # address @ [CHR 0x22] in
      case find_str needle raw of Some i \<Rightarrow> (i, i + length needle) | None \<Rightarrow> (0, length raw))"

section \<open>Terraform resources\<close>

datatype dyn_panic = PropsNotObject

record enrichment =
  en_resources_enriched :: nat
  en_placeholders_resolved :: nat

definition by_address :: "observed_state \<Rightarrow> (string, observed_resource) omap" where
  "by_address state = fold (\<lambda>r. om_put (or_address r) r) (st_resources state) []"

definition observation_of :: "observed_state \<Rightarrow> string \<Rightarrow> json \<Rightarrow> json option" where
  "observation_of state address props =
     (case om_get (by_address state) address of
        Some obs \<Rightarrow> Some (JObj (or_values obs))
      | None \<Rightarrow>
          (case (jget props ''placeholder'', om_get (st_modules state) address) of
             (Some _, Some count) \<Rightarrow> Some (JObj [(''module_resources'', JNum (PosInt (of_nat count)))])
           | _ \<Rightarrow> None))"

definition resolve_placeholder :: "observed_state \<Rightarrow> string \<Rightarrow> json \<Rightarrow> json \<Rightarrow> json" where
  "resolve_placeholder state address observation props =
     (let p1 = jput ''prov'' observation (jdel ''placeholder'' props);
          p2 = fold jdel [''boundary'', ''reason'', ''attempted_tiers''] p1;
          rtype = (case om_get (by_address state) address of None \<Rightarrow> ''module'' | Some o' \<Rightarrow> or_rtype o')
      in jput ''resolved_by'' (JStr STATE_EXTRACTOR_ID)
           (jput ''logical_id'' (JStr address) (jput ''type'' (JStr rtype) p2)))"

definition enrich_resource ::
  "(string \<Rightarrow> string) \<Rightarrow> string \<Rightarrow> observed_state \<Rightarrow> string \<Rightarrow> string \<Rightarrow> node \<Rightarrow> enrichment
     \<Rightarrow> (dyn_panic, node \<times> enrichment) result" where
  "enrich_resource H repo state state_path state_raw n out =
     (if n_label n \<noteq> ''Resource'' then Inr (n, out)
      else case strip_prefix (''res:'' @ repo @ ''@'') (n_id n) of
        None \<Rightarrow> Inr (n, out)
      | Some address \<Rightarrow>
     (case observation_of state address (n_props n) of
        None \<Rightarrow> Inr (n, out)
      | Some observed \<Rightarrow>
          if \<not> is_object (n_props n) then Inl PropsNotObject
          else
            (let observation = observed_prov H state_path (address_span state_raw address) (''Observed '' @ address);
                 props = jput ''observed_prov'' observation (jput ''observed'' observed (n_props n));
                 held = jget props ''placeholder'' \<noteq> None;
                 props' = (if held then resolve_placeholder state address observation props else props)
             in Inr (n\<lparr>n_props := props'\<rparr>,
                     \<lparr>en_resources_enriched = en_resources_enriched out + 1,
                      en_placeholders_resolved = en_placeholders_resolved out + (if held then 1 else 0)\<rparr>))))"

fun enrich_resources_from ::
  "(string \<Rightarrow> string) \<Rightarrow> string \<Rightarrow> observed_state \<Rightarrow> string \<Rightarrow> string \<Rightarrow> node list \<Rightarrow> enrichment
     \<Rightarrow> (dyn_panic, node list \<times> enrichment) result" where
  "enrich_resources_from H repo state state_path state_raw [] out = Inr ([], out)"
| "enrich_resources_from H repo state state_path state_raw (n # ns) out =
     rbind (enrich_resource H repo state state_path state_raw n out) (\<lambda>(n', out1).
     rbind (enrich_resources_from H repo state state_path state_raw ns out1) (\<lambda>(ns', out2).
     Inr (n' # ns', out2)))"

definition enrich_resources ::
  "(string \<Rightarrow> string) \<Rightarrow> node list \<Rightarrow> string \<Rightarrow> observed_state \<Rightarrow> string \<Rightarrow> string
     \<Rightarrow> (dyn_panic, node list \<times> enrichment) result" where
  "enrich_resources H nodes repo state state_path state_raw =
     enrich_resources_from H repo state state_path state_raw nodes
       \<lparr>en_resources_enriched = 0, en_placeholders_resolved = 0\<rparr>"

section \<open>Pulumi resources\<close>

record pulumi_enrichment =
  pe_resources_enriched :: nat
  pe_ambiguous_matches :: nat

definition pulumi_groups :: "pulumi_resource list \<Rightarrow> (string \<times> string, pulumi_resource list) omap" where
  "pulumi_groups rs = fold (\<lambda>r. push_bucket (pr_type_token r, pr_logical_name r) r) rs []"

definition pulumi_observed :: "pulumi_resource \<Rightarrow> json" where
  "pulumi_observed r =
     JObj [(''urn'', JStr (pr_urn r)), (''type'', JStr (pr_type_token r)), (''inputs'', pr_inputs r),
           (''outputs'', pr_outputs r),
           (''parent'', case pr_parent r of None \<Rightarrow> JNull | Some p \<Rightarrow> JStr p),
           (''dependencies'', JArr (map JStr (pr_dependencies r)))]"

definition enrich_pulumi_node ::
  "(string \<Rightarrow> string) \<Rightarrow> (string \<times> string, pulumi_resource list) omap \<Rightarrow> string \<Rightarrow> node \<Rightarrow> pulumi_enrichment
     \<Rightarrow> node \<times> pulumi_enrichment" where
  "enrich_pulumi_node H observed path n out =
     (if n_label n \<noteq> ''Resource'' \<or> as_str (jidx (n_props n) ''source'') \<noteq> Some ''pulumi'' then (n, out)
      else case (as_str (jidx (n_props n) ''pulumi_type''), as_str (jidx (n_props n) ''logical_id'')) of
        (Some type_token, Some logical_name) \<Rightarrow>
          (case om_get observed (type_token, logical_name) of
             None \<Rightarrow> (n, out)
           | Some [r] \<Rightarrow>
               (n\<lparr>n_props := jput ''observed_prov'' (pulumi_prov H path (pr_start r, pr_end r) (''Observed Pulumi '' @ pr_urn r))
                               (jput ''observed'' (pulumi_observed r) (n_props n))\<rparr>,
                out\<lparr>pe_resources_enriched := pe_resources_enriched out + 1\<rparr>)
           | Some _ \<Rightarrow> (n, out\<lparr>pe_ambiguous_matches := pe_ambiguous_matches out + 1\<rparr>))
      | _ \<Rightarrow> (n, out))"

fun enrich_pulumi_from ::
  "(string \<Rightarrow> string) \<Rightarrow> (string \<times> string, pulumi_resource list) omap \<Rightarrow> string \<Rightarrow> node list \<Rightarrow> pulumi_enrichment
     \<Rightarrow> node list \<times> pulumi_enrichment" where
  "enrich_pulumi_from H observed path [] out = ([], out)"
| "enrich_pulumi_from H observed path (n # ns) out =
     (let (n', out1) = enrich_pulumi_node H observed path n out;
          (ns', out2) = enrich_pulumi_from H observed path ns out1
      in (n' # ns', out2))"

definition enrich_pulumi_resources ::
  "(string \<Rightarrow> string) \<Rightarrow> node list \<Rightarrow> pulumi_resource list \<Rightarrow> string \<Rightarrow> node list \<times> pulumi_enrichment" where
  "enrich_pulumi_resources H nodes deployment path =
     enrich_pulumi_from H (pulumi_groups deployment) path nodes
       \<lparr>pe_resources_enriched = 0, pe_ambiguous_matches = 0\<rparr>"

section \<open>Backed channels\<close>

definition CHANNEL_BACKINGS :: "(string \<times> string \<times> string) list" where
  "CHANNEL_BACKINGS =
     [(''aws_sqs_queue'', ''sqs-queue'', ''url''), (''aws_sns_topic'', ''sns-topic'', ''arn'')]"

definition backing_identity :: "json \<Rightarrow> string \<Rightarrow> string option" where
  "backing_identity props attr =
     Option.bind (jget props ''observed'') (\<lambda>observed.
       Option.bind
         (case jget observed attr of
            Some v \<Rightarrow> Some v
          | None \<Rightarrow>
         (case Option.bind (jget observed ''outputs'') (\<lambda>o'. jget o' attr) of
            Some v \<Rightarrow> Some v
          | None \<Rightarrow> Option.bind (jget observed ''inputs'') (\<lambda>i. jget i attr))) as_str)"

definition backing_edge :: "(string \<Rightarrow> string) \<Rightarrow> node \<Rightarrow> edge option" where
  "backing_edge H n =
     (if n_label n \<noteq> ''Resource'' then None
      else Option.bind (Option.bind (jget (n_props n) ''type'') as_str) (\<lambda>rtype.
           Option.bind (find (\<lambda>(t, _, _). t = rtype) CHANNEL_BACKINGS) (\<lambda>(_, kind, attr).
           Option.bind (backing_identity (n_props n) attr) (\<lambda>identity.
      if identity = REDACTED then None
      else Option.bind (Option.bind (jget (n_props n) ''observed_prov'') prov_from_value) (\<lambda>prov.
        (let chan_id = ''chan:'' @ kind @ '':'' @ identity;
             fact_bytes = ''BACKS '' @ n_id n @ '' -> '' @ chan_id
         in case prov_new H Dynamic Confirmed (p_evidence prov) (p_extractor prov) fact_bytes of
              Inl _ \<Rightarrow> None
            | Inr edge_prov \<Rightarrow> Some
                \<lparr>e_src = n_id n, e_dst = chan_id, e_label = ''BACKS'',
                 e_props = JObj [(''identity_attr'', JStr attr), (''prov'', prov_to_value edge_prov)]\<rparr>))))))"

definition backing_candidates :: "(string \<Rightarrow> string) \<Rightarrow> node list \<Rightarrow> edge list" where
  "backing_candidates H nodes = List.map_filter (backing_edge H) nodes"

end
