(* ===== verification/Trace_Apply.thy ===== *)
theory Trace_Apply
  imports Dynamic_Tier
begin

text \<open>
  Applying an observed trace to an extraction (\<^verbatim>\<open>crates/dynamic/src/lib.rs\<close>, from \<^verbatim>\<open>attr_str\<close> to
  \<^verbatim>\<open>apply_trace\<close>): HTTP spans enrich the endpoint they name, messaging spans replace a channel Gap when
  exactly one observed identity fits it.
\<close>

section \<open>Reading spans\<close>

record trace_enrichment =
  te_channel_gaps_resolved :: nat
  te_endpoints_enriched :: nat
  te_channel_gaps_unresolved :: nat

definition attr_str :: "observed_span \<Rightarrow> string list \<Rightarrow> string option" where
  "attr_str span keys =
     find_map (\<lambda>key.
       Option.bind (case om_get (os_attributes span) key of
                      Some v \<Rightarrow> Some v
                    | None \<Rightarrow> om_get (os_resource_attributes span) key) as_str) keys"

definition to_lower :: "string \<Rightarrow> string" where
  "to_lower s = map (\<lambda>c. if CHR ''A'' \<le> c \<and> c \<le> CHR ''Z'' then char_of ((of_char c :: nat) + 32) else c) s"

definition to_upper :: "string \<Rightarrow> string" where
  "to_upper s = map (\<lambda>c. if CHR ''a'' \<le> c \<and> c \<le> CHR ''z'' then char_of ((of_char c :: nat) - 32) else c) s"

definition channel_kind :: "string \<Rightarrow> string option" where
  "channel_kind system =
     (let s = to_lower system in
      if s = ''aws_sqs'' \<or> s = ''sqs'' then Some ''sqs-queue''
      else if s = ''aws_sns'' \<or> s = ''sns'' then Some ''sns-topic''
      else if s = ''aws_eventbridge'' \<or> s = ''eventbridge'' then Some ''eventbridge-bus''
      else if s = ''kafka'' then Some ''kafka-topic''
      else if s = ''inproc'' \<or> s = ''in-process'' then Some ''inproc-event''
      else None)"

definition observed_channel :: "observed_span \<Rightarrow> (string \<times> string) option" where
  "observed_channel span =
     Option.bind (attr_str span [''messaging.system'']) (\<lambda>system.
     Option.bind (channel_kind system) (\<lambda>kind.
     Option.bind (attr_str span [''messaging.destination.name'', ''messaging.destination_name'', ''messaging.destination''])
       (\<lambda>identity. if identity = [] then None else Some (kind, identity))))"

fun strip_dot_slash :: "string \<Rightarrow> string" where
  "strip_dot_slash (a # b # s) = (if a = CHR ''.'' \<and> b = CHR ''/'' then strip_dot_slash s else a # b # s)"
| "strip_dot_slash s = s"

definition normalized_path :: "string \<Rightarrow> string" where
  "normalized_path path = strip_dot_slash (map (\<lambda>c. if c = CHR 0x5C then CHR ''/'' else c) path)"

definition ends_with :: "string \<Rightarrow> string \<Rightarrow> bool" where
  "ends_with suf s = starts_with (rev suf) (rev s)"

definition paths_match :: "string \<Rightarrow> string \<Rightarrow> bool" where
  "paths_match observed source =
     (let o' = normalized_path observed; s = normalized_path source in o' = s \<or> ends_with (CHR ''/'' # s) o')"

definition gap_source_path :: "node \<Rightarrow> string option" where
  "gap_source_path n =
     Option.bind (jget (n_props n) ''prov'') (\<lambda>p.
     Option.bind (jget p ''evidence'') (\<lambda>e.
     Option.bind (as_array e) (\<lambda>xs.
     case xs of [] \<Rightarrow> None | x # _ \<Rightarrow> Option.bind (jget x ''path'') as_str)))"

definition http_path :: "string \<Rightarrow> string" where
  "http_path v =
     (let without_query = takeWhile (\<lambda>c. c \<noteq> CHR ''?'' \<and> c \<noteq> CHR ''#'') v in
      case find_str ''://'' without_query of
        None \<Rightarrow> without_query
      | Some scheme \<Rightarrow>
          (let after_host = drop (scheme + 3) without_query in
           case find_str ''/'' after_host of None \<Rightarrow> ''/'' | Some slash \<Rightarrow> drop slash after_host))"

section \<open>Endpoints\<close>

definition endpoint_matches :: "string \<Rightarrow> string \<Rightarrow> node \<Rightarrow> bool" where
  "endpoint_matches method path n \<longleftrightarrow>
     n_label n = ''Endpoint'' \<and>
     Option.bind (jget (n_props n) ''method'') as_str = Some (to_upper method) \<and>
     Option.bind (jget (n_props n) ''path'') as_str = Some path"

definition matching_indices :: "(node \<Rightarrow> bool) \<Rightarrow> node list \<Rightarrow> nat list" where
  "matching_indices P nodes = filter (\<lambda>i. P (nodes ! i)) [0..<length nodes]"

definition otel_observed :: "node \<Rightarrow> bool" where
  "otel_observed n \<longleftrightarrow>
     Option.bind (Option.bind (jget (n_props n) ''observed_prov'') (\<lambda>p. jget p ''extractor_id'')) as_str
       = Some OTEL_EXTRACTOR_ID"

definition observe_endpoint :: "(string \<Rightarrow> string) \<Rightarrow> string \<Rightarrow> observed_span \<Rightarrow> node \<Rightarrow> node" where
  "observe_endpoint H trace_path span n =
     (let http = filter (\<lambda>(key, _). starts_with ''http.'' key \<or> starts_with ''url.'' key) (os_attributes span);
          fact_bytes = ''Observed HTTP endpoint '' @ n_id n;
          observed = JObj [(''trace_id'', JStr (os_trace_id span)), (''span_id'', JStr (os_span_id span)),
                           (''span_name'', JStr (os_name span)), (''http'', JObj http)]
      in n\<lparr>n_props := jput ''observed_prov'' (trace_prov H trace_path span fact_bytes)
                        (jput ''observed'' observed (n_props n))\<rparr>)"

definition enrich_span :: "(string \<Rightarrow> string) \<Rightarrow> string \<Rightarrow> observed_span \<Rightarrow> node list \<times> nat \<Rightarrow> node list \<times> nat" where
  "enrich_span H trace_path span st =
     (case st of (nodes, enriched) \<Rightarrow>
     (case attr_str span [''http.request.method'', ''http.method''] of
        None \<Rightarrow> st
      | Some method \<Rightarrow>
     (case attr_str span [''http.route'', ''url.path'', ''http.target'', ''http.url''] of
        None \<Rightarrow> st
      | Some path \<Rightarrow>
     (case matching_indices (endpoint_matches method (http_path path)) nodes of
        [i] \<Rightarrow> if otel_observed (nodes ! i) then st
               else (nodes[i := observe_endpoint H trace_path span (nodes ! i)], enriched + 1)
      | _ \<Rightarrow> st))))"

definition enrich_http_endpoints ::
  "(string \<Rightarrow> string) \<Rightarrow> node list \<Rightarrow> observed_span list \<Rightarrow> string \<Rightarrow> node list \<times> nat" where
  "enrich_http_endpoints H nodes trace trace_path = fold (enrich_span H trace_path) trace (nodes, 0)"

section \<open>Channel Gaps\<close>

type_synonym gap_fact = "string \<times> string \<times> string"

definition gap_fact_of :: "node \<Rightarrow> gap_fact option" where
  "gap_fact_of n =
     (if n_label n \<noteq> ''Gap'' then None
      else Option.bind (Option.bind (jget (n_props n) ''kind'') as_str) (\<lambda>kind.
           Option.bind (gap_source_path n) (\<lambda>path. Some (n_id n, kind, path))))"

definition gaps_per_kind :: "gap_fact list \<Rightarrow> (string, nat) omap" where
  "gaps_per_kind gaps =
     fold (\<lambda>(_, kind, _) m. om_put kind (case om_get m kind of None \<Rightarrow> 1 | Some c \<Rightarrow> c + 1) m) gaps []"

definition LOCATION_KEYS :: "string list" where
  "LOCATION_KEYS = [''code.file.path'', ''code.filepath'', ''code.file.name'']"

definition gap_candidates :: "observed_span list \<Rightarrow> gap_fact list \<Rightarrow> gap_fact \<Rightarrow> observed_span list" where
  "gap_candidates trace gaps g =
     (case g of (_, gap_kind, source_path) \<Rightarrow>
       (let same_kind = filter (\<lambda>s. map_option fst (observed_channel s) = Some gap_kind) trace;
            located = filter (\<lambda>s. case attr_str s LOCATION_KEYS of None \<Rightarrow> False | Some p \<Rightarrow> paths_match p source_path) same_kind;
            has_locations = list_ex (\<lambda>s. attr_str s LOCATION_KEYS \<noteq> None) same_kind
        in if has_locations then located
           else if om_get (gaps_per_kind gaps) gap_kind = Some 1 then same_kind
           else []))"

definition identity_of :: "observed_span \<Rightarrow> string option" where
  "identity_of s = map_option snd (observed_channel s)"

definition identities :: "observed_span list \<Rightarrow> (string, unit) omap" where
  "identities candidates = fold (\<lambda>i. om_put i ()) (List.map_filter identity_of candidates) []"

fun update_first :: "('a \<Rightarrow> bool) \<Rightarrow> ('a \<Rightarrow> 'a) \<Rightarrow> 'a list \<Rightarrow> 'a list" where
  "update_first P f [] = []"
| "update_first P f (x # xs) = (if P x then f x # xs else x # update_first P f xs)"

definition attempted :: "bool \<Rightarrow> node \<Rightarrow> node" where
  "attempted none n =
     n\<lparr>n_props :=
         jput ''t1_reason''
           (JStr (if none then ''no trace observation uniquely matched this source gap''
                  else ''multiple observed channel identities matched this source gap''))
           (jput ''attempted_tiers'' (JArr [JStr ''T0'', JStr ''T1'']) (n_props n))\<rparr>"

definition channel_id_of :: "string \<Rightarrow> string \<Rightarrow> string" where
  "channel_id_of kind identity = ''chan:'' @ kind @ '':'' @ identity"

definition observed_channel_node ::
  "(string \<Rightarrow> string) \<Rightarrow> string \<Rightarrow> string \<Rightarrow> string \<Rightarrow> observed_span \<Rightarrow> node" where
  "observed_channel_node H trace_path gap_kind identity span =
     (let channel_id = channel_id_of gap_kind identity in
      \<lparr>n_id = channel_id, n_label = ''Channel'',
       n_props = JObj
         [(''kind'', JStr gap_kind), (''identity'', JStr identity),
          (''observed'', JObj [(''trace_id'', JStr (os_trace_id span)), (''span_id'', JStr (os_span_id span)),
                               (''span_name'', JStr (os_name span))]),
          (''prov'', trace_prov H trace_path span (''Observed Channel '' @ channel_id))]\<rparr>)"

definition redirect_edge ::
  "(string \<Rightarrow> string) \<Rightarrow> string \<Rightarrow> string \<Rightarrow> string \<Rightarrow> observed_span \<Rightarrow> edge \<Rightarrow> edge" where
  "redirect_edge H trace_path gap_id channel_id span e =
     (if e_dst e \<noteq> gap_id then e
      else e\<lparr>e_dst := channel_id,
             e_props := JObj
               [(''resolver'', JStr OTEL_EXTRACTOR_ID),
                (''prov'', trace_prov H trace_path span (e_label e @ '' '' @ e_src e @ '' -> '' @ channel_id))]\<rparr>)"

record trace_state =
  ts_nodes :: "node list"
  ts_edges :: "edge list"
  ts_resolved_ids :: "string set"
  ts_new_channels :: "(string, node) omap"
  ts_resolved :: nat
  ts_unresolved :: nat

text \<open>
  One Gap. The source walks the candidates again for the span of the single identity; \<open>find\<close> is that walk
  and never misses (\<^verbatim>\<open>expect("identity came from a candidate")\<close>).
\<close>

definition resolve_gap ::
  "(string \<Rightarrow> string) \<Rightarrow> observed_span list \<Rightarrow> string \<Rightarrow> gap_fact list \<Rightarrow> gap_fact \<Rightarrow> trace_state \<Rightarrow> trace_state" where
  "resolve_gap H trace trace_path gaps g st =
     (case g of (gap_id, gap_kind, source_path) \<Rightarrow>
       (let candidates = gap_candidates trace gaps g in
        case identities candidates of
          [(identity, _)] \<Rightarrow>
            (case find (\<lambda>s. identity_of s = Some identity) candidates of
               None \<Rightarrow> st
             | Some span \<Rightarrow>
                 (let channel_id = channel_id_of gap_kind identity in
                  st\<lparr>ts_new_channels :=
                       (if \<not> list_ex (\<lambda>n. n_id n = channel_id) (ts_nodes st) \<and> om_get (ts_new_channels st) channel_id = None
                        then om_put channel_id (observed_channel_node H trace_path gap_kind identity span) (ts_new_channels st)
                        else ts_new_channels st),
                     ts_edges := map (redirect_edge H trace_path gap_id channel_id span) (ts_edges st),
                     ts_resolved_ids := insert gap_id (ts_resolved_ids st),
                     ts_resolved := ts_resolved st + 1\<rparr>))
        | _ \<Rightarrow>
            st\<lparr>ts_nodes := update_first (\<lambda>n. n_id n = gap_id) (attempted (candidates = [])) (ts_nodes st),
               ts_unresolved := ts_unresolved st + 1\<rparr>))"

definition apply_trace ::
  "(string \<Rightarrow> string) \<Rightarrow> node list \<Rightarrow> edge list \<Rightarrow> observed_span list \<Rightarrow> string
     \<Rightarrow> node list \<times> edge list \<times> trace_enrichment" where
  "apply_trace H nodes edges trace trace_path =
     (let (nodes1, enriched) = enrich_http_endpoints H nodes trace trace_path;
          gaps = List.map_filter gap_fact_of nodes1;
          st = fold (resolve_gap H trace trace_path gaps) gaps
                 \<lparr>ts_nodes = nodes1, ts_edges = edges, ts_resolved_ids = {}, ts_new_channels = [],
                  ts_resolved = 0, ts_unresolved = 0\<rparr>
      in (filter (\<lambda>n. n_id n \<notin> ts_resolved_ids st) (ts_nodes st) @ map snd (ts_new_channels st),
          ts_edges st,
          \<lparr>te_channel_gaps_resolved = ts_resolved st, te_endpoints_enriched = enriched,
           te_channel_gaps_unresolved = ts_unresolved st\<rparr>))"

end
