(* ===== verification/Observed_Props.thy ===== *)
theory Observed_Props
  imports Observed_Parse
begin

text \<open>
  What the readers of the dynamic tier hand on: of a Terraform state exactly the scalar attributes, the
  sensitive ones replaced; of a Pulumi deployment no secret wrapper at any depth; of a trace spans whose
  evidence is inside the file.
\<close>

section \<open>Terraform\<close>

lemma fold_observe_value:
  assumes "distinct (map fst es)" "fst ` set es \<inter> dom (om_get vals) = {}"
  shows "om_get (fst (fold (observe_value res) es (vals, red))) k =
     (case map_of es k of
        None \<Rightarrow> om_get vals k
      | Some v \<Rightarrow> if is_scalar v then Some (if marked_sensitive res k then JStr REDACTED else v) else None) \<and>
   snd (fold (observe_value res) es (vals, red)) =
     red \<union> {k. \<exists>v. map_of es k = Some v \<and> is_scalar v \<and> marked_sensitive res k}"
  using assms
proof (induction es arbitrary: vals red)
  case (Cons e es)
  obtain key v where e: "e = (key, v)" by (cases e)
  obtain vals' red' where s: "observe_value res e (vals, red) = (vals', red')" by fastforce
  have none: "map_of es key = None" "om_get vals key = None"
    using Cons.prems by (auto simp: e map_of_eq_None_iff dom_def)
  have vals': "om_get vals' j = (if j = key \<and> is_scalar v
       then Some (if marked_sensitive res key then JStr REDACTED else v) else om_get vals j)" for j
    using s by (auto simp: e observe_value_def split: if_splits)
  have red': "red' = red \<union> (if is_scalar v \<and> marked_sensitive res key then {key} else {})"
    using s by (auto simp: e observe_value_def split: if_splits)
  have "fst ` set es \<inter> dom (om_get vals') = {}"
    using Cons.prems by (auto simp: e dom_def vals' split: if_splits)
  note ih = Cons.IH [OF _ this, of red']
  have d: "distinct (map fst es)" using Cons.prems(1) by simp
  have "{k. \<exists>v'. map_of (e # es) k = Some v' \<and> is_scalar v' \<and> marked_sensitive res k} =
    (if is_scalar v \<and> marked_sensitive res key then {key} else {}) \<union>
    {k. \<exists>v. map_of es k = Some v \<and> is_scalar v \<and> marked_sensitive res k}"
    using none by (auto simp: e)
  with ih [OF d] s none show ?case by (auto simp: e vals' red' split: option.splits)
qed auto

lemma observe_resource_exact:
  assumes "json_wf res" "observe_resource res = Some r"
  shows "om_get (or_values r) k =
      (case Option.bind (jget res ''values'') (\<lambda>v. jget v k) of
         None \<Rightarrow> None
       | Some v \<Rightarrow> if is_scalar v then Some (if marked_sensitive res k then JStr REDACTED else v) else None)"
    and "k \<in> or_redacted r \<longleftrightarrow>
      (\<exists>v. Option.bind (jget res ''values'') (\<lambda>v. jget v k) = Some v \<and> is_scalar v \<and> marked_sensitive res k)"
proof -
  define es where "es = (case jget res ''values'' of Some (JObj o') \<Rightarrow> o' | _ \<Rightarrow> [])"
  have wf: "json_wf v" if "jget res ''values'' = Some v" for v
    using that assms(1) by (cases res) (auto simp: list_all_iff dest!: map_of_SomeD)
  have es: "distinct (map fst es)" "map_of es k = Option.bind (jget res ''values'') (\<lambda>v. jget v k)" for k
    using wf by (auto simp: es_def jget_def split: option.splits json.splits)
  have r: "or_values r = fst (fold (observe_value res) es ([], {}))"
    "or_redacted r = snd (fold (observe_value res) es ([], {}))"
    using assms(2) by (auto simp: observe_resource_def es_def Let_def split: option.splits prod.splits)
  note f = fold_observe_value [OF es(1), of "[]" res "{}" k, simplified]
  show "om_get (or_values r) k =
      (case Option.bind (jget res ''values'') (\<lambda>v. jget v k) of
         None \<Rightarrow> None
       | Some v \<Rightarrow> if is_scalar v then Some (if marked_sensitive res k then JStr REDACTED else v) else None)"
    using f by (simp add: r es split: option.splits)
  show "k \<in> or_redacted r \<longleftrightarrow>
      (\<exists>v. Option.bind (jget res ''values'') (\<lambda>v. jget v k) = Some v \<and> is_scalar v \<and> marked_sensitive res k)"
    using f by (simp add: r es)
qed

text \<open>The modules of a document in the order they are visited, a module before its children.\<close>

fun modules_of :: "json \<Rightarrow> json list" where
  "modules_of m = m # concat (map modules_of (array_field m [''child_modules'']))"

declare modules_of.simps [simp del]

lemma walk_module_resources:
  "st_resources (walk_module m out) =
     st_resources out @ List.map_filter observe_resource (concat (map (\<lambda>c. array_field c [''resources'']) (modules_of m)))"
proof (induction m out rule: walk_module.induct)
  case (1 m out)
  define out2 where "out2 = (let resources = array_field m [''resources''];
          out1 = (case Option.bind (jget m ''address'') as_str of
                    None \<Rightarrow> out
                  | Some addr \<Rightarrow> out\<lparr>st_modules := om_put addr (length resources) (st_modules out)\<rparr>)
      in out1\<lparr>st_resources := st_resources out1 @ List.map_filter observe_resource resources\<rparr>)"
  have w: "walk_module m out = fold walk_module (array_field m [''child_modules'']) out2"
    by (subst walk_module.simps) (simp add: out2_def Let_def)
  have o2: "st_resources out2 = st_resources out @ List.map_filter observe_resource (array_field m [''resources''])"
    by (simp add: out2_def Let_def split: option.split)
  have ih: "st_resources (walk_module c o') = st_resources o' @
      List.map_filter observe_resource (concat (map (\<lambda>c. array_field c [''resources'']) (modules_of c)))"
    if "c \<in> set (array_field m [''child_modules''])" for c o'
    using 1 that by (simp add: Let_def)
  have "st_resources (fold walk_module cs o') = st_resources o' @
      List.map_filter observe_resource
        (concat (map (\<lambda>c. array_field c [''resources'']) (concat (map modules_of cs))))"
    if "set cs \<subseteq> set (array_field m [''child_modules''])" for cs o'
    using that by (induction cs arbitrary: o') (simp_all add: ih List.map_filter_def)
  then show ?case
    by (simp add: w o2 modules_of.simps [of m] List.map_filter_def)
qed

text \<open>
  The observed resources of a state are the resources of its modules in document order, each with exactly
  its scalar attributes: a sensitive attribute is present under its key with the redaction mark in place of
  its value and is listed as redacted, every other scalar is the document's value, and nested values
  are left out. Nothing else is stored of a resource, so no sensitive value is.
\<close>

theorem parse_state_exact:
  assumes "ps text' = Inr doc" "json_wf doc" "parse_state ps text' = Inr st"
  shows "\<exists>root. (\<exists>v. jget doc ''values'' = Some v \<and> jget v ''root_module'' = Some root \<or>
                     jget doc ''values'' = None \<and> jget doc ''planned_values'' = Some v \<and> jget v ''root_module'' = Some root) \<and>
     st_resources st = List.map_filter observe_resource
       (concat (map (\<lambda>m. array_field m [''resources'']) (modules_of root))) \<and>
     (\<forall>res r k. res \<in> set (concat (map (\<lambda>m. array_field m [''resources'']) (modules_of root))) \<longrightarrow>
        observe_resource res = Some r \<longrightarrow>
        om_get (or_values r) k =
          (case Option.bind (jget res ''values'') (\<lambda>v. jget v k) of
             None \<Rightarrow> None
           | Some v \<Rightarrow> if is_scalar v then Some (if marked_sensitive res k then JStr REDACTED else v) else None) \<and>
        (k \<in> or_redacted r \<longleftrightarrow> om_get (or_values r) k \<noteq> None \<and> marked_sensitive res k))"
proof -
  have sub: "json_wf v \<Longrightarrow> jget v k = Some w \<Longrightarrow> json_wf w" for v w k
    by (cases v) (auto simp: list_all_iff dest!: map_of_SomeD)
  have arr: "json_wf m \<Longrightarrow> c \<in> set (array_field m [k]) \<Longrightarrow> json_wf c" for m c k
  proof -
    assume m: "json_wf m" and c: "c \<in> set (array_field m [k])"
    then obtain w xs where "jget m k = Some w" "as_array w = Some xs" "c \<in> set xs"
      by (auto simp: array_field_def bind_eq_Some_conv split: option.splits)
    moreover from this have "json_wf w" using sub [OF m] by blast
    ultimately show "json_wf c" by (cases w) (auto simp: as_array_def list_all_iff)
  qed
  have mods: "json_wf c" if "json_wf m" "c \<in> set (modules_of m)" for m c
    using that
  proof (induction m rule: modules_of.induct)
    case (1 m)
    then show ?case using arr by (subst (asm) modules_of.simps) auto
  qed
  obtain root where root: "st = walk_module root \<lparr>st_resources = [], st_modules = []\<rparr>"
    "Option.bind (case jget doc ''values'' of Some v \<Rightarrow> Some v | None \<Rightarrow> jget doc ''planned_values'')
                  (\<lambda>v. jget v ''root_module'') = Some root"
    using assms(1,3) by (auto simp: parse_state_def split: option.splits)
  then obtain v where v: "jget v ''root_module'' = Some root"
    "jget doc ''values'' = Some v \<or> jget doc ''values'' = None \<and> jget doc ''planned_values'' = Some v"
    by (auto simp: bind_eq_Some_conv split: option.splits)
  have wf: "json_wf root" using v sub assms(2) by blast
  have "\<exists>v. jget doc ''values'' = Some v \<and> jget v ''root_module'' = Some root \<or>
                     jget doc ''values'' = None \<and> jget doc ''planned_values'' = Some v \<and> jget v ''root_module'' = Some root"
    using v by blast
  moreover have "st_resources st = List.map_filter observe_resource
       (concat (map (\<lambda>m. array_field m [''resources'']) (modules_of root)))"
    by (simp add: root(1) walk_module_resources)
  moreover have "om_get (or_values r) k =
          (case Option.bind (jget res ''values'') (\<lambda>v. jget v k) of
             None \<Rightarrow> None
           | Some v \<Rightarrow> if is_scalar v then Some (if marked_sensitive res k then JStr REDACTED else v) else None) \<and>
        (k \<in> or_redacted r \<longleftrightarrow> om_get (or_values r) k \<noteq> None \<and> marked_sensitive res k)"
    if res: "res \<in> set (concat (map (\<lambda>m. array_field m [''resources'']) (modules_of root)))"
      and r: "observe_resource res = Some r" for res r k
  proof -
    have "json_wf res" using res mods [OF wf] arr by auto
    note ex = observe_resource_exact [OF this r, of k]
    show ?thesis unfolding ex by (auto split: option.splits)
  qed
  ultimately show ?thesis by blast
qed

section \<open>Pulumi\<close>

text \<open>A secret wrapper anywhere inside a value.\<close>

fun has_secret :: "json \<Rightarrow> bool" where
  "has_secret (JObj o') = (secret_wrapper o' \<or> list_ex (\<lambda>(k, v). has_secret v) o')"
| "has_secret (JArr vs) = list_ex has_secret vs"
| "has_secret v = False"

lemma map_of_map_snd: "map_of (map (\<lambda>(k, v). (k, f v)) m) k = map_option f (map_of m k)"
  by (induction m) auto

lemma redact_str: "as_str (redact_pulumi_value v) = Some s \<Longrightarrow> s \<noteq> REDACTED \<Longrightarrow> as_str v = Some s"
  by (cases v) (auto split: if_splits simp: as_str_def)

lemma secret_wrapper_redacted:
  "secret_wrapper (map (\<lambda>(k, v). (k, redact_pulumi_value v)) o') \<Longrightarrow> secret_wrapper o'"
  using redact_str [of _ SECRET_SIGNATURE]
  by (auto simp: secret_wrapper_def map_of_map_snd bind_eq_Some_conv)
    (auto simp: REDACTED_def SECRET_SIGNATURE_def)

lemma redact_no_secret: "\<not> has_secret (redact_pulumi_value v)"
proof (induction v rule: redact_pulumi_value.induct)
  case (1 o')
  then show ?case
    using secret_wrapper_redacted [of o'] by (auto simp: list_ex_iff)
next
  case (2 vs)
  then show ?case by (auto simp: list_ex_iff)
qed auto

lemma redact_unchanged: "\<not> has_secret v \<Longrightarrow> redact_pulumi_value v = v"
proof (induction v rule: redact_pulumi_value.induct)
  case (1 o')
  then show ?case by (auto simp: list_ex_iff intro!: map_idI)
next
  case (2 vs)
  then show ?case by (auto simp: list_ex_iff intro!: map_idI)
qed auto

text \<open>
  Redaction removes every secret wrapper at every depth, leaves a value without one as it is, and is
  idempotent.
\<close>

theorem redaction_complete:
  "\<not> has_secret (redact_pulumi_value v) \<and>
   (redact_pulumi_value v = v \<longleftrightarrow> \<not> has_secret v) \<and>
   redact_pulumi_value (redact_pulumi_value v) = redact_pulumi_value v"
  using redact_no_secret redact_unchanged by metis

lemma find_str_cut: "find_str pat s = Some i \<Longrightarrow> take (length pat) (drop i s) = pat"
  by (induction s arbitrary: i) (auto simp: starts_with_def split: if_splits)

definition pulumi_clean :: "string \<Rightarrow> pulumi_resource \<Rightarrow> bool" where
  "pulumi_clean raw r \<longleftrightarrow>
     \<not> has_secret (pr_inputs r) \<and> \<not> has_secret (pr_outputs r) \<and>
     pr_type_token r \<noteq> ''pulumi:pulumi:Stack'' \<and> \<not> starts_with ''pulumi:providers:'' (pr_type_token r) \<and>
     (find_str (pr_urn r) raw = None \<or> take (pr_end r - pr_start r) (drop (pr_start r) raw) = pr_urn r)"

definition pulumi_inv :: "string \<Rightarrow> (string, pulumi_resource) omap \<Rightarrow> bool" where
  "pulumi_inv raw m \<longleftrightarrow> om_wf m \<and> (\<forall>(urn, r) \<in> set m. pr_urn r = urn \<and> pulumi_clean raw r)"

lemma redacted_field_clean: "\<not> has_secret (redacted_field v f)"
  by (auto simp: redacted_field_def redact_no_secret secret_wrapper_def split: option.split)

lemma read_pulumi_clean: "read_pulumi_resource v fb raw = Some r \<Longrightarrow> pulumi_clean raw r"
  by (auto simp: read_pulumi_resource_def pulumi_clean_def bind_eq_Some_conv redacted_field_clean find_or_0_def
      find_str_cut split: if_splits option.splits)

lemma set_om_put_sub: "set (om_put k v m) \<subseteq> insert (k, v) (set m)"
  by (induction m) auto

lemma put_pulumi_inv: "pulumi_inv raw m \<Longrightarrow> pulumi_inv raw (put_pulumi (read_pulumi_resource v fb raw) m)"
  using set_om_put_sub read_pulumi_clean [of v fb raw]
  by (fastforce simp: pulumi_inv_def put_pulumi_def split: option.split)

lemma fold_inv: "P s \<Longrightarrow> (\<And>x s. x \<in> set xs \<Longrightarrow> P s \<Longrightarrow> P (f x s)) \<Longrightarrow> P (fold f xs s)"
  by (induction xs arbitrary: s) auto

lemma collect_document_inv: "pulumi_inv raw m \<Longrightarrow> pulumi_inv raw (fst (collect_document v raw m))"
proof -
  assume m: "pulumi_inv raw m"
  have "pulumi_inv raw (fold (\<lambda>r. put_pulumi (read_pulumi_resource r None raw)) vs m)" for vs
    by (rule fold_inv) (use m put_pulumi_inv in auto)
  then show ?thesis
    using m put_pulumi_inv
    by (auto simp: collect_document_def preview_event_def Let_def split: option.split)
qed

lemma collect_inv: "pulumi_inv raw m \<Longrightarrow> pulumi_inv raw (fst (collect_pulumi_resources v raw m))"
proof (induction v raw m rule: collect_pulumi_resources.induct)
  case (1 vs raw m)
  have "pulumi_inv raw (fst (fold (\<lambda>v (rs, supported).
             (let (rs', s) = collect_pulumi_resources v raw rs in (rs', s \<or> supported))) vs (m, False)))"
    by (rule fold_inv [where P = "\<lambda>st. pulumi_inv raw (fst st)"])
      (use 1 in \<open>auto simp: Let_def split: prod.splits\<close>, metis fst_conv)
  then show ?case by simp
qed (simp_all add: collect_document_inv)

text \<open>
  What is read of a Pulumi document: resources in strictly increasing order of their URN, none of them a
  stack or a provider, no secret wrapper left in inputs or outputs, and evidence that covers the URN's
  own text wherever it occurs in the artifact.
\<close>

theorem parse_pulumi_clean:
  assumes "parse_pulumi_json ps raw = Inr rs"
  shows "sorted_wrt (<) (map pr_urn rs) \<and> list_all (pulumi_clean raw) rs"
proof -
  obtain ds where ds: "pulumi_documents ps raw = Inr ds"
    using assms by (cases "pulumi_documents ps raw") (auto simp: parse_pulumi_json_def)
  define m where "m = fst (fold (\<lambda>d (rs, supported).
        (let (rs', s) = collect_pulumi_resources d raw rs in (rs', s \<or> supported))) ds ([], False))"
  have rs: "rs = map snd m"
    using assms ds by (auto simp: parse_pulumi_json_def m_def split: prod.splits if_splits)
  have "pulumi_inv raw m" unfolding m_def
    by (rule fold_inv [where P = "\<lambda>st. pulumi_inv raw (fst st)"])
      (use collect_inv in \<open>auto simp: pulumi_inv_def [of raw "[]"] split: prod.splits\<close>, metis fst_conv)
  then have inv: "om_wf m" "\<forall>(urn, r) \<in> set m. pr_urn r = urn \<and> pulumi_clean raw r" by (auto simp: pulumi_inv_def)
  then have e: "map pr_urn rs = map fst m" by (auto simp: rs)
  have "sorted_wrt (<) (map pr_urn rs)" unfolding e using inv(1) by (simp add: om_wf_def)
  moreover have "list_all (pulumi_clean raw) rs" using inv(2) by (auto simp: rs list_all_iff)
  ultimately show ?thesis by simp
qed

section \<open>Traces\<close>

lemma concat_split_inclusive: "concat (split_inclusive s) = s"
proof (induction s)
  case (Cons c s)
  then show ?case by (cases "split_inclusive s") auto
qed simp

definition span_located :: "string \<Rightarrow> observed_span \<Rightarrow> bool" where
  "span_located raw sp \<longleftrightarrow>
     os_span_id sp \<noteq> [] \<and> os_end sp = os_start sp + length (os_span_id sp) \<and>
     (\<exists>pre line post. raw = pre @ line @ post \<and> line \<in> set (split_inclusive raw) \<and>
        (if find_str (os_span_id sp) line = None then os_start sp = length pre
         else length pre \<le> os_start sp \<and> os_end sp \<le> length pre + length line \<and>
              take (length (os_span_id sp)) (drop (os_start sp) raw) = os_span_id sp))"

lemma find_str_bound: "find_str pat s = Some i \<Longrightarrow> i + length pat \<le> length s"
proof (induction s arbitrary: i)
  case (Cons c s)
  then show ?case
    by (auto simp: starts_with_def split: if_splits) (metis length_Cons length_take min.cobounded1)
qed (auto split: if_splits)

lemma otlp_span_located:
  assumes "otlp_span af line (length pre) rattrs v = Some sp" "raw = pre @ line @ post" "line \<in> set (split_inclusive raw)"
  shows "span_located raw sp"
proof -
  have sp: "os_span_id sp \<noteq> []" "os_start sp = length pre + find_or_0 (os_span_id sp) line"
    "os_end sp = os_start sp + length (os_span_id sp)"
    using assms(1) by (auto simp: otlp_span_def Let_def split: if_splits)
  have "take (length (os_span_id sp)) (drop (os_start sp) raw) = os_span_id sp \<and> os_end sp \<le> length pre + length line"
    if "find_str (os_span_id sp) line = Some i" for i
    using find_str_cut [OF that] find_str_bound [OF that] that
    by (simp add: sp find_or_0_def assms(2))
  then show ?thesis
    using sp assms(2,3) unfolding span_located_def
    by (intro conjI exI [of _ pre] exI [of _ line] exI [of _ post]) (auto simp: find_or_0_def)
qed

lemma otlp_lines_located:
  assumes "otlp_lines ps af k (length pre) ls (spans, saw) = Inr (spans', saw')"
    and "raw = pre @ concat ls" "set ls \<subseteq> set (split_inclusive raw)" "list_all (span_located raw) spans"
  shows "list_all (span_located raw) spans'"
  using assms
proof (induction ls arbitrary: k pre spans saw)
  case (Cons l ls)
  have pre: "raw = (pre @ l) @ concat ls" "set ls \<subseteq> set (split_inclusive raw)" using Cons.prems by auto
  show ?case
  proof (cases "trim l = []")
    case True
    then show ?thesis using Cons.IH [of "k + 1" "pre @ l" spans saw] Cons.prems pre by simp
  next
    case False
    then obtain doc where doc: "ps (trim l) = Inr doc" using Cons.prems(1) by (auto split: sum.splits)
    define new where "new = concat (map (otlp_resource af l (length pre)) (array_field doc [''resourceSpans'', ''resource_spans'']))"
    have "\<forall>sp \<in> set new. \<exists>rattrs v. otlp_span af l (length pre) rattrs v = Some sp"
      by (auto simp: new_def otlp_resource_def Let_def List.map_filter_def)
    then have "list_all (span_located raw) new"
      using otlp_span_located [of af l pre _ _ _ raw "concat ls"] Cons.prems(2,3) by (fastforce simp: list_all_iff)
    then show ?thesis
      using Cons.IH [of "k + 1" "pre @ l" "spans @ new"] Cons.prems False pre doc
      by (simp add: Let_def new_def)
  qed
qed simp

text \<open>
  Every span read from a trace has an id and evidence inside the file: the bytes of its evidence are its id,
  within the line that carries the span, unless that line spells the id differently (an escape), in which
  case the evidence starts at the line.
\<close>

theorem trace_evidence_located:
  assumes "parse_otlp_jsonl ps af raw = Inr spans"
  shows "list_all (span_located raw) spans"
proof -
  obtain saw where "otlp_lines ps af 0 0 (split_inclusive raw) ([], False) = Inr (spans, saw)"
    using assms by (cases "otlp_lines ps af 0 0 (split_inclusive raw) ([], False)")
      (auto simp: parse_otlp_jsonl_def split: if_splits)
  then show ?thesis
    using otlp_lines_located [of ps af 0 "[]" "split_inclusive raw" "[]" False spans saw raw]
    by (simp add: concat_split_inclusive)
qed

end
