(* ===== verification/Dynamic_Props.thy ===== *)
theory Dynamic_Props
  imports Dynamic_Tier Observed_Props
begin

text \<open>
  What the Terraform and Pulumi passes do to a node, exactly, and which channels an observation backs.
\<close>

section \<open>Passes over nodes\<close>

text \<open>
  The contract the passes share: a node is kept in place under its id and label. A client may then rely
  on ids staying distinct and on edges staying between nodes.
\<close>

locale node_pass =
  fixes keeps :: "node \<Rightarrow> node \<Rightarrow> bool"
  assumes keeps_id: "keeps n n' \<Longrightarrow> n_id n' = n_id n"
    and keeps_label: "keeps n n' \<Longrightarrow> n_label n' = n_label n"
begin

lemma kept_maps: "list_all2 keeps xs ys \<Longrightarrow> map n_id ys = map n_id xs \<and> map n_label ys = map n_label xs"
  by (induction rule: list_all2_induct) (auto dest: keeps_id keeps_label)

lemma kept_rev: "list_all2 keeps xs ys \<Longrightarrow> y \<in> set ys \<Longrightarrow> \<exists>x \<in> set xs. keeps x y"
  by (induction rule: list_all2_induct) auto

lemma kept_fwd: "list_all2 keeps xs ys \<Longrightarrow> x \<in> set xs \<Longrightarrow> \<exists>y \<in> set ys. keeps x y"
  by (induction rule: list_all2_induct) auto

lemma kept_ids: "list_all2 keeps xs ys \<Longrightarrow> n_id ` set ys = n_id ` set xs"
  using kept_maps by (metis set_map)

end

section \<open>Terraform\<close>

text \<open>The resource of the last entry of an address, as the map keeps it.\<close>

lemma find_snoc: "find P (xs @ [x]) = (case find P xs of None \<Rightarrow> if P x then Some x else None | Some y \<Rightarrow> Some y)"
  by (induction xs) auto

lemma om_get_by_address:
  "om_get (by_address state) a = find (\<lambda>r. or_address r = a) (rev (st_resources state))"
proof -
  have "om_get (fold (\<lambda>r. om_put (or_address r) r) rs m) a =
      (case find (\<lambda>r. or_address r = a) (rev rs) of None \<Rightarrow> om_get m a | Some r \<Rightarrow> Some r)" for rs :: "observed_resource list" and m
  proof (induction rs arbitrary: m)
    case (Cons r rs)
    then show ?case by (simp add: find_snoc split: option.split)
  qed simp
  then show ?thesis by (simp add: by_address_def split: option.split)
qed

text \<open>The observation a node receives: none unless it is a resource of the repository the state knows.\<close>

definition node_observation :: "string \<Rightarrow> observed_state \<Rightarrow> node \<Rightarrow> (string \<times> json) option" where
  "node_observation repo state n =
     (if n_label n \<noteq> ''Resource'' then None
      else Option.bind (strip_prefix (''res:'' @ repo @ ''@'') (n_id n)) (\<lambda>address.
             map_option (Pair address) (observation_of state address (n_props n))))"

definition state_prov :: "(string \<Rightarrow> string) \<Rightarrow> string \<Rightarrow> string \<Rightarrow> string \<Rightarrow> json" where
  "state_prov H path raw address = observed_prov H path (address_span raw address) (''Observed '' @ address)"

definition resource_kept ::
  "(string \<Rightarrow> string) \<Rightarrow> string \<Rightarrow> observed_state \<Rightarrow> string \<Rightarrow> string \<Rightarrow> node \<Rightarrow> node \<Rightarrow> bool" where
  "resource_kept H repo state path raw n n' \<longleftrightarrow>
     n_id n' = n_id n \<and> n_label n' = n_label n \<and>
     (case node_observation repo state n of
        None \<Rightarrow> n' = n
      | Some (address, observed) \<Rightarrow>
          \<forall>k. jget (n_props n') k =
            (if k = ''observed'' then Some observed
             else if k = ''observed_prov'' then Some (state_prov H path raw address)
             else if jget (n_props n) ''placeholder'' = None then jget (n_props n) k
             else if k \<in> {''placeholder'', ''boundary'', ''reason'', ''attempted_tiers''} then None
             else if k = ''prov'' then Some (state_prov H path raw address)
             else if k = ''type'' then
               Some (JStr (case find (\<lambda>r. or_address r = address) (rev (st_resources state)) of
                             None \<Rightarrow> ''module'' | Some r \<Rightarrow> or_rtype r))
             else if k = ''logical_id'' then Some (JStr address)
             else if k = ''resolved_by'' then Some (JStr STATE_EXTRACTOR_ID)
             else jget (n_props n) k))"

lemma resolve_placeholder_get:
  assumes "is_object props" "obj_wf props"
  shows "jget (resolve_placeholder state address observation props) k =
    (if k \<in> {''placeholder'', ''boundary'', ''reason'', ''attempted_tiers''} then None
     else if k = ''prov'' then Some observation
     else if k = ''type'' then
       Some (JStr (case find (\<lambda>r. or_address r = address) (rev (st_resources state)) of
                     None \<Rightarrow> ''module'' | Some r \<Rightarrow> or_rtype r))
     else if k = ''logical_id'' then Some (JStr address)
     else if k = ''resolved_by'' then Some (JStr STATE_EXTRACTOR_ID)
     else jget props k)"
  using assms by (simp add: resolve_placeholder_def Let_def om_get_by_address)

interpretation tf: node_pass "resource_kept H repo state path raw"
  by unfold_locales (simp_all add: resource_kept_def)

definition counts_up :: "bool \<Rightarrow> bool \<Rightarrow> enrichment \<Rightarrow> enrichment \<Rightarrow> bool" where
  "counts_up seen held out out' \<longleftrightarrow>
     en_resources_enriched out' = en_resources_enriched out + (if seen then 1 else 0) \<and>
     en_placeholders_resolved out' = en_placeholders_resolved out + (if held then 1 else 0)"

definition held_placeholder :: "string \<Rightarrow> observed_state \<Rightarrow> node \<Rightarrow> bool" where
  "held_placeholder repo state n \<longleftrightarrow>
     node_observation repo state n \<noteq> None \<and> jget (n_props n) ''placeholder'' \<noteq> None"

lemma enrich_resource_none:
  "node_observation repo state n = None \<Longrightarrow> enrich_resource H repo state path raw n out = Inr (n, out)"
  by (cases "strip_prefix (''res:'' @ repo @ ''@'') (n_id n)"; cases "n_label n = ''Resource''")
    (simp_all add: node_observation_def enrich_resource_def del: strip_prefix_Some append.simps append_Cons)

lemma enrich_resource_some:
  assumes "node_observation repo state n = Some (address, observed)"
  shows "enrich_resource H repo state path raw n out =
    (if \<not> is_object (n_props n) then Inl PropsNotObject
     else let props = jput ''observed_prov'' (state_prov H path raw address) (jput ''observed'' observed (n_props n));
              held = jget (n_props n) ''placeholder'' \<noteq> None
          in Inr (n\<lparr>n_props := if held then resolve_placeholder state address (state_prov H path raw address) props else props\<rparr>,
                  \<lparr>en_resources_enriched = en_resources_enriched out + 1,
                   en_placeholders_resolved = en_placeholders_resolved out + (if held then 1 else 0)\<rparr>))"
proof -
  have n: "n_label n = ''Resource''" "strip_prefix (''res:'' @ repo @ ''@'') (n_id n) = Some address"
    "observation_of state address (n_props n) = Some observed"
    using assms by (auto simp: node_observation_def bind_eq_Some_conv simp del: strip_prefix_Some split: if_splits)
  show ?thesis unfolding enrich_resource_def n(2) by (simp add: n(1,3) Let_def state_prov_def)
qed

lemma enrich_resource_step:
  assumes "obj_wf (n_props n)"
  shows "case enrich_resource H repo state path raw n out of
      Inl _ \<Rightarrow> node_observation repo state n \<noteq> None \<and> \<not> is_object (n_props n)
    | Inr (n', out') \<Rightarrow> (node_observation repo state n = None \<or> is_object (n_props n)) \<and>
        resource_kept H repo state path raw n n' \<and>
        counts_up (node_observation repo state n \<noteq> None) (held_placeholder repo state n) out out'"
proof (cases "node_observation repo state n")
  case None
  then show ?thesis
    by (simp add: enrich_resource_none resource_kept_def counts_up_def held_placeholder_def)
next
  case (Some x)
  obtain address observed where x: "x = (address, observed)" by (cases x)
  note s = enrich_resource_some [OF Some [unfolded x], of H path raw out]
  show ?thesis
  proof (cases "is_object (n_props n)")
    case True
    then show ?thesis
      using assms unfolding s Let_def
      by (cases "jget (n_props n) ''placeholder''")
        (simp_all add: resource_kept_def Some x counts_up_def held_placeholder_def resolve_placeholder_get)
  qed (simp add: s Some x)
qed

text \<open>
  Terraform observations land beside the facts. The pass fails exactly when a node the state knows has
  properties that are no object; otherwise every node is kept in place under its id and label, one the state
  does not know is unchanged, one it knows gains the observed attributes and their provenance and keeps every
  other property, and only a placeholder gives up the marks of its Gap for the observed type and evidence.
  The counts are the nodes observed and the placeholders among them.
\<close>

theorem enrich_resources_exact:
  assumes "\<forall>n \<in> set nodes. obj_wf (n_props n)"
  shows "case enrich_resources H nodes repo state path raw of
      Inl _ \<Rightarrow> \<exists>n \<in> set nodes. node_observation repo state n \<noteq> None \<and> \<not> is_object (n_props n)
    | Inr (nodes', out) \<Rightarrow>
        (\<forall>n \<in> set nodes. node_observation repo state n \<noteq> None \<longrightarrow> is_object (n_props n)) \<and>
        list_all2 (resource_kept H repo state path raw) nodes nodes' \<and>
        en_resources_enriched out = length (filter (\<lambda>n. node_observation repo state n \<noteq> None) nodes) \<and>
        en_placeholders_resolved out = length (filter (held_placeholder repo state) nodes)"
proof -
  have "case enrich_resources_from H repo state path raw ns out of
      Inl _ \<Rightarrow> \<exists>n \<in> set ns. node_observation repo state n \<noteq> None \<and> \<not> is_object (n_props n)
    | Inr (ns', out') \<Rightarrow>
        (\<forall>n \<in> set ns. node_observation repo state n \<noteq> None \<longrightarrow> is_object (n_props n)) \<and>
        list_all2 (resource_kept H repo state path raw) ns ns' \<and>
        en_resources_enriched out' = en_resources_enriched out + length (filter (\<lambda>n. node_observation repo state n \<noteq> None) ns) \<and>
        en_placeholders_resolved out' = en_placeholders_resolved out + length (filter (held_placeholder repo state) ns)"
    if "\<forall>n \<in> set ns. obj_wf (n_props n)" for ns out
    using that
  proof (induction ns arbitrary: out)
    case (Cons n ns)
    note step = enrich_resource_step [where n = n and H = H and repo = repo and state = state and path = path
        and raw = raw and out = out]
    show ?case
    proof (cases "enrich_resource H repo state path raw n out")
      case (Inl e)
      then show ?thesis using step Cons.prems by auto
    next
      case (Inr r)
      obtain n' out1 where r: "r = (n', out1)" by (cases r)
      have st: "node_observation repo state n = None \<or> is_object (n_props n)" "resource_kept H repo state path raw n n'"
        "counts_up (node_observation repo state n \<noteq> None) (held_placeholder repo state n) out out1"
        using step Cons.prems by (simp_all add: Inr r)
      have wf: "\<forall>n \<in> set ns. obj_wf (n_props n)" using Cons.prems by simp
      show ?thesis
        using Cons.IH [OF wf, of out1] st
        by (auto simp: Inr r counts_up_def split: sum.splits)
    qed
  qed simp
  from this [OF assms, of "\<lparr>en_resources_enriched = 0, en_placeholders_resolved = 0\<rparr>"] show ?thesis
    by (simp add: enrich_resources_def split: sum.splits prod.splits)
qed

section \<open>Pulumi\<close>

definition pulumi_matches :: "pulumi_resource list \<Rightarrow> node \<Rightarrow> pulumi_resource list" where
  "pulumi_matches rs n =
     (if n_label n = ''Resource'' \<and> as_str (jidx (n_props n) ''source'') = Some ''pulumi''
      then filter (\<lambda>r. as_str (jidx (n_props n) ''pulumi_type'') = Some (pr_type_token r) \<and>
                       as_str (jidx (n_props n) ''logical_id'') = Some (pr_logical_name r)) rs
      else [])"

lemma pulumi_groups_bucket:
  "om_get (pulumi_groups rs) k =
     (let hits = filter (\<lambda>r. (pr_type_token r, pr_logical_name r) = k) rs in if hits = [] then None else Some hits)"
proof -
  have "om_get (fold (\<lambda>r. push_bucket (pr_type_token r, pr_logical_name r) r) rs m) k =
      (let hits = filter (\<lambda>r. (pr_type_token r, pr_logical_name r) = k) rs in
       if hits = [] then om_get m k else Some (bucket m k @ hits))" for rs :: "pulumi_resource list" and m
    by (induction rs arbitrary: m) (auto simp: push_bucket_def bucket_def Let_def)
  from this [of rs "[]"] show ?thesis by (simp add: pulumi_groups_def Let_def bucket_def)
qed

lemma jidx_object: "as_str (jidx v k) = Some s \<Longrightarrow> is_object v"
  by (cases v) (simp_all add: jidx_def is_object_def)

text \<open>What the pass makes of a node, by the resources that match its type token and logical name.\<close>

definition pulumi_kept :: "(string \<Rightarrow> string) \<Rightarrow> string \<Rightarrow> pulumi_resource list \<Rightarrow> node \<Rightarrow> node \<Rightarrow> bool" where
  "pulumi_kept H path rs n n' \<longleftrightarrow>
     n_id n' = n_id n \<and> n_label n' = n_label n \<and>
     (case pulumi_matches rs n of
        [r] \<Rightarrow> \<forall>k. jget (n_props n') k =
          (if k = ''observed'' then Some (pulumi_observed r)
           else if k = ''observed_prov'' then
             Some (pulumi_prov H path (pr_start r, pr_end r) (''Observed Pulumi '' @ pr_urn r))
           else jget (n_props n) k)
      | _ \<Rightarrow> n' = n)"

interpretation pu: node_pass "pulumi_kept H path rs"
  by unfold_locales (simp_all add: pulumi_kept_def)

lemma enrich_pulumi_node_step:
  assumes "enrich_pulumi_node H (pulumi_groups rs) path n out = (n', out')"
  shows "pulumi_kept H path rs n n' \<and>
    pe_resources_enriched out' = pe_resources_enriched out + (if length (pulumi_matches rs n) = 1 then 1 else 0) \<and>
    pe_ambiguous_matches out' = pe_ambiguous_matches out + (if length (pulumi_matches rs n) > 1 then 1 else 0)"
proof (cases "n_label n = ''Resource'' \<and> as_str (jidx (n_props n) ''source'') = Some ''pulumi''")
  case False
  then show ?thesis using assms by (auto simp: enrich_pulumi_node_def pulumi_matches_def pulumi_kept_def)
next
  case True
  have obj: "is_object (n_props n)" using True jidx_object by blast
  show ?thesis
  proof (cases "as_str (jidx (n_props n) ''pulumi_type'')")
    case None
    then show ?thesis
      using assms True by (simp add: enrich_pulumi_node_def pulumi_matches_def pulumi_kept_def)
  next
    case (Some t)
    note t = this
    show ?thesis
    proof (cases "as_str (jidx (n_props n) ''logical_id'')")
      case None
      then show ?thesis
        using assms True t by (simp add: enrich_pulumi_node_def pulumi_matches_def pulumi_kept_def)
    next
      case (Some l)
      have m: "pulumi_matches rs n = filter (\<lambda>r. (pr_type_token r, pr_logical_name r) = (t, l)) rs"
        using True t Some by (auto simp: pulumi_matches_def intro: filter_cong)
      have g: "om_get (pulumi_groups rs) (t, l) = (if pulumi_matches rs n = [] then None else Some (pulumi_matches rs n))"
        by (simp add: pulumi_groups_bucket m Let_def)
      consider (none) "pulumi_matches rs n = []" | (one) r where "pulumi_matches rs n = [r]"
        | (many) r r' ms where "pulumi_matches rs n = r # r' # ms" by (metis list.exhaust)
      then show ?thesis
        by cases (use assms True t Some g obj in \<open>auto simp: enrich_pulumi_node_def pulumi_kept_def\<close>)
    qed
  qed
qed

text \<open>
  Pulumi observations never create and never guess: every node is kept in place, one with exactly one
  matching resource gains the observation and keeps its other properties, one with none or several is
  unchanged, and the counts are the nodes with one and with several matches.
\<close>

theorem enrich_pulumi_exact:
  assumes "enrich_pulumi_resources H nodes rs path = (nodes', out)"
  shows "list_all2 (pulumi_kept H path rs) nodes nodes' \<and>
    pe_resources_enriched out = length (filter (\<lambda>n. length (pulumi_matches rs n) = 1) nodes) \<and>
    pe_ambiguous_matches out = length (filter (\<lambda>n. length (pulumi_matches rs n) > 1) nodes)"
proof -
  have "list_all2 (pulumi_kept H path rs) ns ns' \<and>
    pe_resources_enriched out2 = pe_resources_enriched out1 + length (filter (\<lambda>n. length (pulumi_matches rs n) = 1) ns) \<and>
    pe_ambiguous_matches out2 = pe_ambiguous_matches out1 + length (filter (\<lambda>n. length (pulumi_matches rs n) > 1) ns)"
    if "enrich_pulumi_from H (pulumi_groups rs) path ns out1 = (ns', out2)" for ns ns' out1 out2
    using that
  proof (induction ns arbitrary: ns' out1)
    case (Cons n ns)
    obtain n' o1 where n': "enrich_pulumi_node H (pulumi_groups rs) path n out1 = (n', o1)" by fastforce
    obtain ms where ms: "enrich_pulumi_from H (pulumi_groups rs) path ns o1 = (ms, out2)" "ns' = n' # ms"
      using Cons.prems n' by (auto simp: Let_def split: prod.splits)
    show ?case using Cons.IH [OF ms(1)] enrich_pulumi_node_step [OF n'] ms(2) by simp
  qed simp
  from this [OF assms [unfolded enrich_pulumi_resources_def]] show ?thesis by simp
qed

text \<open>
  The two passes one after the other, as the extraction runs them, keep the ids in place: ids that were
  distinct stay so, and no edge loses an end.
\<close>

theorem infrastructure_passes_keep_ids:
  assumes "\<forall>n \<in> set nodes. obj_wf (n_props n)" "enrich_resources H nodes repo state path raw = Inr (nodes1, out1)"
    and "enrich_pulumi_resources H nodes1 rs path' = (nodes2, out2)"
  shows "map n_id nodes2 = map n_id nodes \<and> map n_label nodes2 = map n_label nodes"
proof -
  have "list_all2 (resource_kept H repo state path raw) nodes nodes1"
    using enrich_resources_exact [OF assms(1), where H = H and repo = repo and state = state and path = path and raw = raw]
    by (simp add: assms(2))
  then show ?thesis
    using enrich_pulumi_exact [OF assms(3)] tf.kept_maps pu.kept_maps by metis
qed

section \<open>Backed channels\<close>

text \<open>
  A backing edge runs from an observed resource to the channel its identity names, never on a redacted
  identity, and carries the observation's own evidence and extractor at the dynamic ceiling.
\<close>

theorem backing_candidates_sound:
  assumes "e \<in> set (backing_candidates H nodes)"
  shows "\<exists>n \<in> set nodes. \<exists>rtype kind attr identity prov p.
    n_label n = ''Resource'' \<and> Option.bind (jget (n_props n) ''type'') as_str = Some rtype \<and>
    (rtype, kind, attr) \<in> set CHANNEL_BACKINGS \<and> backing_identity (n_props n) attr = Some identity \<and> identity \<noteq> REDACTED \<and>
    Option.bind (jget (n_props n) ''observed_prov'') prov_from_value = Some prov \<and>
    e_src e = n_id n \<and> e_dst e = ''chan:'' @ kind @ '':'' @ identity \<and> e_label e = ''BACKS'' \<and>
    jget (e_props e) ''prov'' = Some (prov_to_value p) \<and> p_tier p = Dynamic \<and> p_confidence p = Confirmed \<and>
    p_evidence p = p_evidence prov \<and> p_extractor p = p_extractor prov"
proof -
  obtain n where n: "n \<in> set nodes" "backing_edge H n = Some e"
    using assms by (auto simp: backing_candidates_def List.map_filter_def)
  have label: "n_label n = ''Resource''" using n(2) by (auto simp: backing_edge_def split: if_splits)
  obtain rtype where ty: "Option.bind (jget (n_props n) ''type'') as_str = Some rtype"
    using n(2) label by (cases "Option.bind (jget (n_props n) ''type'') as_str") (auto simp: backing_edge_def)
  obtain t kind attr where bk: "find (\<lambda>(t, _, _). t = rtype) CHANNEL_BACKINGS = Some (t, kind, attr)"
    using n(2) label ty by (cases "find (\<lambda>(t, _, _). t = rtype) CHANNEL_BACKINGS") (auto simp: backing_edge_def)
  obtain identity where idn: "backing_identity (n_props n) attr = Some identity"
    using n(2) label ty bk by (cases "backing_identity (n_props n) attr") (auto simp: backing_edge_def)
  have red: "identity \<noteq> REDACTED" using n(2) label ty bk idn by (auto simp: backing_edge_def)
  obtain prov where pr: "Option.bind (jget (n_props n) ''observed_prov'') prov_from_value = Some prov"
    using n(2) label ty bk idn red
    by (cases "Option.bind (jget (n_props n) ''observed_prov'') prov_from_value") (auto simp: backing_edge_def)
  let ?p = "\<lparr>p_tier = Dynamic, p_confidence = Confirmed, p_evidence = p_evidence prov, p_extractor = p_extractor prov,
             p_hash = content_hash H (''BACKS '' @ n_id n @ '' -> '' @ ''chan:'' @ kind @ '':'' @ identity)\<rparr>"
  have e: "e = \<lparr>e_src = n_id n, e_dst = ''chan:'' @ kind @ '':'' @ identity, e_label = ''BACKS'',
          e_props = JObj [(''identity_attr'', JStr attr), (''prov'', prov_to_value ?p)]\<rparr>"
    using n(2) label ty bk idn red pr
    by (simp add: backing_edge_def Let_def prov_new_def confidence_above_ceiling_def confidence_ceiling_def)
  have "(rtype, kind, attr) \<in> set CHANNEL_BACKINGS" using bk by (auto simp: find_Some_iff in_set_conv_nth)
  with n(1) label ty idn red pr show ?thesis
    by (intro bexI [of _ n] exI [of _ rtype] exI [of _ kind] exI [of _ attr] exI [of _ identity] exI [of _ prov] exI [of _ ?p])
      (simp_all add: e)
qed

end
