(* ===== verification/Trace_Props.thy ===== *)
theory Trace_Props
  imports Trace_Apply Dynamic_Props
begin

text \<open>
  What observation may do to a statically extracted graph: it lands beside the facts and never rewrites one,
  a Gap gives way exactly when the trace names one identity for it, and the graph stays closed.
\<close>

section \<open>Provenance\<close>

lemma dynamic_prov_reads:
  "\<exists>p. dynamic_prov H x path span fct = prov_to_value p \<and> p_tier p = Dynamic \<and> p_confidence p = Confirmed \<and>
       p_extractor p = x \<and> map ev_path (p_evidence p) = [path]"
  by (auto simp: dynamic_prov_def prov_new_def confidence_above_ceiling_def confidence_ceiling_def confidence_rank_def)

section \<open>Nodes\<close>

text \<open>
  One node before and after: the same id and label, and other properties changed only as the kind of
  node allows -- observations on an endpoint, the record of an attempt on a Gap.
\<close>

definition node_kept :: "node \<Rightarrow> node \<Rightarrow> bool" where
  "node_kept n n' \<longleftrightarrow>
     n_id n' = n_id n \<and> n_label n' = n_label n \<and>
     (n_label n = ''Endpoint'' \<or> n_label n = ''Gap'' \<or> n' = n) \<and>
     (\<forall>k. k \<notin> (if n_label n = ''Endpoint'' then {''observed'', ''observed_prov''} else {''attempted_tiers'', ''t1_reason''})
          \<longrightarrow> jget (n_props n') k = jget (n_props n) k)"

lemma node_kept_refl: "node_kept n n"
  by (simp add: node_kept_def)

lemma node_kept_trans: "node_kept a b \<Longrightarrow> node_kept b c \<Longrightarrow> node_kept a c"
  by (auto simp: node_kept_def)

lemma jget_jput_other: "k \<noteq> j \<Longrightarrow> jget (jput j v w) k = jget w k"
  by (cases "is_object w") simp_all

lemma endpoint_kept: "n_label n = ''Endpoint'' \<Longrightarrow> node_kept n (observe_endpoint H p span n)"
  by (simp add: node_kept_def observe_endpoint_def Let_def jget_jput_other)

lemma gap_kept: "n_label n = ''Gap'' \<Longrightarrow> node_kept n (attempted b n)"
  by (simp add: node_kept_def attempted_def jget_jput_other)

lemma all2_kept_trans: "list_all2 node_kept xs ys \<Longrightarrow> list_all2 node_kept ys zs \<Longrightarrow> list_all2 node_kept xs zs"
  by (rule list_all2_trans [of node_kept node_kept node_kept]) (blast intro: node_kept_trans)

lemma all2_kept_update: "i < length xs \<Longrightarrow> node_kept (xs ! i) y \<Longrightarrow> list_all2 node_kept xs (xs[i := y])"
  by (simp add: list_all2_conv_all_nth nth_list_update node_kept_refl)

text \<open>Reading HTTP spans changes endpoints only.\<close>

definition endpoints_only :: "node \<Rightarrow> node \<Rightarrow> bool" where
  "endpoints_only n n' \<longleftrightarrow> node_kept n n' \<and> (n_label n \<noteq> ''Endpoint'' \<longrightarrow> n' = n)"

lemma endpoints_only_refl: "endpoints_only n n"
  by (simp add: endpoints_only_def node_kept_refl)

lemma endpoints_only_trans: "endpoints_only a b \<Longrightarrow> endpoints_only b c \<Longrightarrow> endpoints_only a c"
  unfolding endpoints_only_def using node_kept_trans by blast

lemma enrich_span_kept: "list_all2 endpoints_only (fst st) (fst (enrich_span H p span st))"
proof -
  have upd: "list_all2 endpoints_only ns (ns[i := observe_endpoint H p span (ns ! i)])"
    if "matching_indices (endpoint_matches m q) ns = [i]" for m q ns i
  proof -
    have "i \<in> set (matching_indices (endpoint_matches m q) ns)" using that by simp
    then have "i < length ns" "n_label (ns ! i) = ''Endpoint''"
      by (simp_all add: matching_indices_def endpoint_matches_def)
    then show ?thesis
      by (simp add: list_all2_conv_all_nth nth_list_update endpoints_only_refl)
        (simp add: endpoints_only_def endpoint_kept)
  qed
  then show ?thesis
    by (auto simp: enrich_span_def list_all2_refl endpoints_only_refl split: prod.split option.split list.split)
qed

lemma enrich_http_kept: "list_all2 endpoints_only nodes (fst (enrich_http_endpoints H nodes trace p))"
proof -
  have "list_all2 endpoints_only nodes (fst (fold (enrich_span H p) trace (nodes, 0)))"
  proof (rule fold_inv [where P = "\<lambda>st. list_all2 endpoints_only nodes (fst st)"])
    fix span and st :: "node list \<times> nat" assume "list_all2 endpoints_only nodes (fst st)"
    then show "list_all2 endpoints_only nodes (fst (enrich_span H p span st))"
      using enrich_span_kept [of st H p span]
      by (rule list_all2_trans [of endpoints_only endpoints_only endpoints_only, rotated])
        (blast intro: endpoints_only_trans)
  qed (simp add: list_all2_refl endpoints_only_refl)
  then show ?thesis by (simp add: enrich_http_endpoints_def)
qed

lemma endpoints_only_gaps:
  "list_all2 endpoints_only xs ys \<Longrightarrow> List.map_filter gap_fact_of ys = List.map_filter gap_fact_of xs"
proof (induction rule: list_all2_induct)
  case (Cons x xs y ys)
  have "gap_fact_of y = gap_fact_of x"
    using Cons(1) by (cases "n_label x = ''Endpoint''") (auto simp: endpoints_only_def node_kept_def gap_fact_of_def)
  with Cons show ?case by (simp add: List.map_filter_simps split: option.split)
qed simp

interpretation tr: node_pass node_kept
  by unfold_locales (simp_all add: node_kept_def)

lemma gap_labels_kept:
  assumes "list_all2 node_kept xs ys" "\<forall>g \<in> set gs. \<forall>n \<in> set xs. n_id n = fst g \<longrightarrow> n_label n = ''Gap''"
  shows "\<forall>g \<in> set gs. \<forall>n \<in> set ys. n_id n = fst g \<longrightarrow> n_label n = ''Gap''"
  using assms(2) tr.kept_rev [OF assms(1)] by (fastforce simp: node_kept_def)

section \<open>The choice for a Gap\<close>

lemma set_map_filter_Some: "set (List.map_filter f xs) = {y. \<exists>x \<in> set xs. f x = Some y}"
  by (induction xs) (auto simp: List.map_filter_simps split: option.splits)

lemma identities_props: "om_wf (identities cs)" "fst ` set (identities cs) = {i. \<exists>s \<in> set cs. identity_of s = Some i}"
proof -
  have *: "om_wf (fold (\<lambda>i. om_put i ()) xs m) \<and> dom (om_get (fold (\<lambda>i. om_put i ()) xs m)) = set xs \<union> dom (om_get m)"
    if "om_wf m" for xs :: "string list" and m
    using that by (induction xs arbitrary: m) auto
  show "om_wf (identities cs)" using * [of "[]"] by (simp add: identities_def)
  show "fst ` set (identities cs) = {i. \<exists>s \<in> set cs. identity_of s = Some i}"
    using * [of "[]" "List.map_filter identity_of cs"]
    by (auto simp: identities_def dom_map_of_conv_image_fst [symmetric] set_map_filter_Some)
qed

text \<open>The identity a Gap is filled with and the span that observed it, when the choice is unique.\<close>

definition chosen :: "observed_span list \<Rightarrow> gap_fact list \<Rightarrow> gap_fact \<Rightarrow> (string \<times> observed_span) option" where
  "chosen trace gaps g =
     (case identities (gap_candidates trace gaps g) of
        [(identity, _)] \<Rightarrow>
          map_option (Pair identity) (find (\<lambda>s. identity_of s = Some identity) (gap_candidates trace gaps g))
      | _ \<Rightarrow> None)"

lemma singleton_identity:
  "(\<exists>i u. identities cs = [(i, u)]) \<longleftrightarrow> (\<exists>i. {i. \<exists>s \<in> set cs. identity_of s = Some i} = {i})"
proof
  assume "\<exists>i. {i. \<exists>s \<in> set cs. identity_of s = Some i} = {i}"
  then obtain i where i: "fst ` set (identities cs) = {i}" using identities_props(2) by metis
  have d: "distinct (map fst (identities cs))"
    using identities_props(1) [of cs] by (auto simp: om_wf_def strict_sorted_iff)
  have "length (map fst (identities cs)) = 1" using distinct_card [OF d] i by simp
  then show "\<exists>i u. identities cs = [(i, u)]" by (auto simp: length_Suc_conv)
next
  assume "\<exists>i u. identities cs = [(i, u)]"
  then obtain i where "fst ` set (identities cs) = {i}" by auto
  then show "\<exists>i. {i. \<exists>s \<in> set cs. identity_of s = Some i} = {i}" using identities_props(2) by metis
qed

lemma chosen_iff:
  "chosen trace gaps g \<noteq> None \<longleftrightarrow>
     (\<exists>i. {i. \<exists>s \<in> set (gap_candidates trace gaps g). identity_of s = Some i} = {i})"
proof -
  let ?cs = "gap_candidates trace gaps g"
  have "find (\<lambda>s. identity_of s = Some i) ?cs \<noteq> None" if "identities ?cs = [(i, u)]" for i u
    using that identities_props(2) [of ?cs] by (auto simp: find_None_iff)
  then show ?thesis
    unfolding singleton_identity [symmetric] by (auto simp: chosen_def split: list.splits prod.splits)
qed

lemma chosen_Some:
  assumes "chosen trace gaps g = Some (i, span)"
  shows "span \<in> set trace" "observed_channel span = Some (fst (snd g), i)"
proof -
  have s: "span \<in> set (gap_candidates trace gaps g)" "identity_of span = Some i"
    using assms by (auto simp: chosen_def find_Some_iff split: list.splits prod.splits)
  then have "span \<in> set trace \<and> map_option fst (observed_channel span) = Some (fst (snd g))"
    by (cases g) (auto simp: gap_candidates_def Let_def split: if_splits)
  then show "span \<in> set trace" "observed_channel span = Some (fst (snd g), i)"
    using s(2) by (auto simp: identity_of_def)
qed

lemma resolve_gap_chosen:
  "resolve_gap H trace path gaps g st =
     (case chosen trace gaps g of
        None \<Rightarrow> st\<lparr>ts_nodes := update_first (\<lambda>n. n_id n = fst g) (attempted (gap_candidates trace gaps g = [])) (ts_nodes st),
                  ts_unresolved := ts_unresolved st + 1\<rparr>
      | Some (identity, span) \<Rightarrow>
          (let channel_id = channel_id_of (fst (snd g)) identity in
           st\<lparr>ts_new_channels :=
                (if \<not> list_ex (\<lambda>n. n_id n = channel_id) (ts_nodes st) \<and> om_get (ts_new_channels st) channel_id = None
                 then om_put channel_id (observed_channel_node H path (fst (snd g)) identity span) (ts_new_channels st)
                 else ts_new_channels st),
              ts_edges := map (redirect_edge H path (fst g) channel_id span) (ts_edges st),
              ts_resolved_ids := insert (fst g) (ts_resolved_ids st),
              ts_resolved := ts_resolved st + 1\<rparr>))"
proof -
  let ?cs = "gap_candidates trace gaps g"
  have "find (\<lambda>s. identity_of s = Some i) ?cs \<noteq> None" if "identities ?cs = [(i, u)]" for i u
    using that identities_props(2) [of ?cs] by (auto simp: find_None_iff)
  then show ?thesis
    by (cases g) (auto simp: resolve_gap_def chosen_def Let_def split: list.splits prod.splits option.splits)
qed

section \<open>All Gaps\<close>

lemma update_first_kept:
  "(\<And>n. n \<in> set ns \<Longrightarrow> P n \<Longrightarrow> node_kept n (f n)) \<Longrightarrow> list_all2 node_kept ns (update_first P f ns)"
  by (induction ns) (auto simp: node_kept_refl list_all2_refl)

lemma redirect_edge_id: "e_dst e \<noteq> g \<Longrightarrow> redirect_edge H path g c span e = e"
  by (simp add: redirect_edge_def)

text \<open>What one Gap does to one edge.\<close>

definition edge_step ::
  "(string \<Rightarrow> string) \<Rightarrow> observed_span list \<Rightarrow> string \<Rightarrow> gap_fact list \<Rightarrow> gap_fact \<Rightarrow> edge \<Rightarrow> edge" where
  "edge_step H trace path gaps g e =
     (case chosen trace gaps g of
        None \<Rightarrow> e
      | Some (i, span) \<Rightarrow> redirect_edge H path (fst g) (channel_id_of (fst (snd g)) i) span e)"

lemma resolve_gap_fields:
  "ts_edges (resolve_gap H trace path gaps g st) = map (edge_step H trace path gaps g) (ts_edges st)"
  "ts_resolved_ids (resolve_gap H trace path gaps g st) =
     ts_resolved_ids st \<union> (if chosen trace gaps g = None then {} else {fst g})"
  "ts_unresolved (resolve_gap H trace path gaps g st) =
     ts_unresolved st + (if chosen trace gaps g = None then 1 else 0)"
  "ts_resolved (resolve_gap H trace path gaps g st) =
     ts_resolved st + (if chosen trace gaps g = None then 0 else 1)"
  by (auto simp: resolve_gap_chosen edge_step_def Let_def split: option.splits prod.splits
      intro!: map_idI [symmetric])

lemma fold_gap_fields:
  "ts_edges (fold (resolve_gap H trace path gaps) gs st) =
     map (\<lambda>e. fold (edge_step H trace path gaps) gs e) (ts_edges st)"
  "ts_resolved_ids (fold (resolve_gap H trace path gaps) gs st) =
     ts_resolved_ids st \<union> fst ` {g \<in> set gs. chosen trace gaps g \<noteq> None}"
  "ts_unresolved (fold (resolve_gap H trace path gaps) gs st) =
     ts_unresolved st + length (filter (\<lambda>g. chosen trace gaps g = None) gs)"
  "ts_resolved (fold (resolve_gap H trace path gaps) gs st) =
     ts_resolved st + length (filter (\<lambda>g. chosen trace gaps g \<noteq> None) gs)"
proof -
  show "ts_edges (fold (resolve_gap H trace path gaps) gs st) =
     map (\<lambda>e. fold (edge_step H trace path gaps) gs e) (ts_edges st)"
    by (induction gs arbitrary: st) (simp_all add: resolve_gap_fields)
  show "ts_resolved_ids (fold (resolve_gap H trace path gaps) gs st) =
     ts_resolved_ids st \<union> fst ` {g \<in> set gs. chosen trace gaps g \<noteq> None}"
    by (induction gs arbitrary: st) (auto simp: resolve_gap_fields split: if_splits)
  show "ts_unresolved (fold (resolve_gap H trace path gaps) gs st) =
     ts_unresolved st + length (filter (\<lambda>g. chosen trace gaps g = None) gs)"
    by (induction gs arbitrary: st) (simp_all add: resolve_gap_fields)
  show "ts_resolved (fold (resolve_gap H trace path gaps) gs st) =
     ts_resolved st + length (filter (\<lambda>g. chosen trace gaps g \<noteq> None) gs)"
    by (induction gs arbitrary: st) (simp_all add: resolve_gap_fields)
qed

lemma fold_gap_nodes:
  assumes "\<forall>g \<in> set gs. \<forall>n \<in> set (ts_nodes st). n_id n = fst g \<longrightarrow> n_label n = ''Gap''"
  shows "list_all2 node_kept (ts_nodes st) (ts_nodes (fold (resolve_gap H trace path gaps) gs st))"
  using assms
proof (induction gs arbitrary: st)
  case Nil
  then show ?case by (simp add: list_all2_refl node_kept_refl)
next
  case (Cons g gs)
  define st' where "st' = resolve_gap H trace path gaps g st"
  have step: "list_all2 node_kept (ts_nodes st) (ts_nodes st')"
    using Cons.prems
    by (auto simp: st'_def resolve_gap_chosen Let_def list_all2_refl node_kept_refl
        split: option.split prod.split intro!: update_first_kept gap_kept)
  have "\<forall>g \<in> set gs. \<forall>n \<in> set (ts_nodes st'). n_id n = fst g \<longrightarrow> n_label n = ''Gap''"
    by (rule gap_labels_kept [OF step]) (use Cons.prems in simp)
  from Cons.IH [OF this] show ?case using all2_kept_trans [OF step] by (simp add: st'_def)
qed

text \<open>The channels that are added: keyed by id, none of them present before, and every chosen one at hand.\<close>

definition channel_entry :: "observed_span list \<Rightarrow> string list \<Rightarrow> string \<times> node \<Rightarrow> bool" where
  "channel_entry trace present p \<longleftrightarrow>
     fst p \<notin> set present \<and> n_id (snd p) = fst p \<and> n_label (snd p) = ''Channel'' \<and>
     (\<exists>s \<in> set trace. \<exists>k i. observed_channel s = Some (k, i) \<and> fst p = channel_id_of k i)"

definition channels_inv :: "observed_span list \<Rightarrow> string list \<Rightarrow> (string, node) omap \<Rightarrow> bool" where
  "channels_inv trace present m \<longleftrightarrow> om_wf m \<and> (\<forall>p \<in> set m. channel_entry trace present p)"

lemma fold_gap_channels:
  assumes "channels_inv trace (map n_id (ts_nodes st)) (ts_new_channels st)"
    and "\<forall>g \<in> set gs. \<forall>n \<in> set (ts_nodes st). n_id n = fst g \<longrightarrow> n_label n = ''Gap''"
  shows "channels_inv trace (map n_id (ts_nodes st)) (ts_new_channels (fold (resolve_gap H trace path gaps) gs st)) \<and>
     fst ` set (ts_new_channels st) \<subseteq> fst ` set (ts_new_channels (fold (resolve_gap H trace path gaps) gs st)) \<and>
     (\<forall>g \<in> set gs. \<forall>i s. chosen trace gaps g = Some (i, s) \<longrightarrow>
        channel_id_of (fst (snd g)) i \<in> n_id ` set (ts_nodes st) \<union>
          fst ` set (ts_new_channels (fold (resolve_gap H trace path gaps) gs st)))"
  using assms
proof (induction gs arbitrary: st)
  case Nil
  then show ?case by simp
next
  case (Cons g gs)
  define st' where "st' = resolve_gap H trace path gaps g st"
  have kept: "list_all2 node_kept (ts_nodes st) (ts_nodes st')"
    using fold_gap_nodes [of "[g]" st H trace path gaps] Cons.prems by (simp add: st'_def)
  have ids: "map n_id (ts_nodes st') = map n_id (ts_nodes st)" and labels: "map n_label (ts_nodes st') = map n_label (ts_nodes st)"
    using tr.kept_maps [OF kept] by auto
  have idset: "n_id ` set (ts_nodes st') = n_id ` set (ts_nodes st)" using ids by (metis set_map)
  have gapl: "\<forall>h \<in> set gs. \<forall>n \<in> set (ts_nodes st'). n_id n = fst h \<longrightarrow> n_label n = ''Gap''"
    by (rule gap_labels_kept [OF kept]) (use Cons.prems(2) in simp)
  have step: "channels_inv trace (map n_id (ts_nodes st)) (ts_new_channels st') \<and>
      fst ` set (ts_new_channels st) \<subseteq> fst ` set (ts_new_channels st') \<and>
      (\<forall>i s. chosen trace gaps g = Some (i, s) \<longrightarrow>
         channel_id_of (fst (snd g)) i \<in> n_id ` set (ts_nodes st) \<union> fst ` set (ts_new_channels st'))"
  proof (cases "chosen trace gaps g")
    case None
    then show ?thesis using Cons.prems(1) by (simp add: st'_def resolve_gap_chosen)
  next
    case (Some x)
    obtain i span where x: "x = (i, span)" by (cases x)
    note c = chosen_Some [OF Some [unfolded x]]
    define cid where "cid = channel_id_of (fst (snd g)) i"
    define v where "v = observed_channel_node H path (fst (snd g)) i span"
    have v: "n_id v = cid" "n_label v = ''Channel''" by (simp_all add: v_def cid_def observed_channel_node_def Let_def)
    have new: "ts_new_channels st' = (if cid \<notin> n_id ` set (ts_nodes st) \<and> om_get (ts_new_channels st) cid = None
        then om_put cid v (ts_new_channels st) else ts_new_channels st)"
      by (auto simp: st'_def resolve_gap_chosen Some x Let_def cid_def v_def list_ex_iff image_iff)
    have keys: "fst ` set (om_put cid v (ts_new_channels st)) = insert cid (fst ` set (ts_new_channels st))"
      using Cons.prems(1) by (auto simp: dom_map_of_conv_image_fst [symmetric])
    have inv: "channels_inv trace (map n_id (ts_nodes st)) (ts_new_channels st')"
    proof (cases "cid \<notin> n_id ` set (ts_nodes st) \<and> om_get (ts_new_channels st) cid = None")
      case True
      have "\<exists>s \<in> set trace. \<exists>k i. observed_channel s = Some (k, i) \<and> cid = channel_id_of k i"
        using c cid_def by blast
      then have "channel_entry trace (map n_id (ts_nodes st)) (cid, v)"
        using v True by (simp add: channel_entry_def)
      moreover have "p = (cid, v) \<or> p \<in> set (ts_new_channels st)" if "p \<in> set (ts_new_channels st')" for p
        using that set_om_put_sub [of cid v "ts_new_channels st"] True by (auto simp: new)
      moreover have "om_wf (ts_new_channels st')" using Cons.prems(1) by (simp add: new channels_inv_def)
      moreover have "\<forall>p \<in> set (ts_new_channels st). channel_entry trace (map n_id (ts_nodes st)) p"
        using Cons.prems(1) by (simp add: channels_inv_def)
      ultimately show ?thesis unfolding channels_inv_def by blast
    qed (use Cons.prems(1) new in auto)
    show ?thesis using inv keys by (auto simp: new Some x cid_def [symmetric] map_of_eq_None_iff)
  qed
  note ih = Cons.IH [of st', unfolded ids idset, OF conjunct1 [OF step] gapl]
  have e: "fold (resolve_gap H trace path gaps) (g # gs) st = fold (resolve_gap H trace path gaps) gs st'"
    by (simp add: st'_def)
  define F where "F = fold (resolve_gap H trace path gaps) gs st'"
  have sub: "fst ` set (ts_new_channels st') \<subseteq> fst ` set (ts_new_channels F)" using ih by (simp add: F_def)
  have "channel_id_of (fst (snd h)) i \<in> n_id ` set (ts_nodes st) \<union> fst ` set (ts_new_channels F)"
    if "h = g \<or> h \<in> set gs" "chosen trace gaps h = Some (i, s)" for h i s
    using that(1)
  proof
    assume "h = g"
    then have "channel_id_of (fst (snd h)) i \<in> n_id ` set (ts_nodes st) \<union> fst ` set (ts_new_channels st')"
      using step that(2) by simp
    then show ?thesis using subsetD [OF sub] by (elim UnE) simp_all
  qed (use ih that(2) in \<open>simp add: F_def\<close>)
  moreover have "fst ` set (ts_new_channels st) \<subseteq> fst ` set (ts_new_channels F)"
    using conjunct1 [OF conjunct2 [OF step]] sub by (rule subset_trans)
  moreover have "channels_inv trace (map n_id (ts_nodes st)) (ts_new_channels F)"
    using conjunct1 [OF ih] by (simp add: F_def)
  ultimately show ?case unfolding e F_def [symmetric] by simp
qed

section \<open>Edges\<close>

definition edge_kept :: "node list \<Rightarrow> observed_span list \<Rightarrow> edge \<Rightarrow> edge \<Rightarrow> bool" where
  "edge_kept nodes trace e e' \<longleftrightarrow>
     e' = e \<or>
     e_src e' = e_src e \<and> e_label e' = e_label e \<and>
     (\<exists>n \<in> set nodes. n_id n = e_dst e \<and> n_label n = ''Gap'') \<and>
     (\<exists>s \<in> set trace. \<exists>k i. observed_channel s = Some (k, i) \<and> e_dst e' = channel_id_of k i) \<and>
     (\<exists>p. jget (e_props e') ''prov'' = Some (prov_to_value p) \<and> p_tier p = Dynamic \<and> p_confidence p = Confirmed \<and>
          p_extractor p = OTEL_EXTRACTOR_ID)"

lemma redirect_edge_facts:
  assumes "e_dst e = g"
  shows "e_src (redirect_edge H path g c span e) = e_src e" "e_label (redirect_edge H path g c span e) = e_label e"
    "e_dst (redirect_edge H path g c span e) = c"
    "\<exists>p. jget (e_props (redirect_edge H path g c span e)) ''prov'' = Some (prov_to_value p) \<and> p_tier p = Dynamic \<and>
         p_confidence p = Confirmed \<and> p_extractor p = OTEL_EXTRACTOR_ID"
proof -
  let ?e = "redirect_edge H path g c span e"
  have "jget (e_props ?e) ''prov'' =
      Some (trace_prov H path span (e_label e @ '' '' @ e_src e @ '' -> '' @ c))"
    using assms by (simp add: redirect_edge_def)
  then show "\<exists>p. jget (e_props ?e) ''prov'' = Some (prov_to_value p) \<and> p_tier p = Dynamic \<and>
         p_confidence p = Confirmed \<and> p_extractor p = OTEL_EXTRACTOR_ID"
    unfolding trace_prov_def using dynamic_prov_reads by metis
qed (use assms in \<open>simp_all add: redirect_edge_def\<close>)

lemma edge_step_kept:
  assumes "edge_kept nodes trace e e'" "\<exists>n \<in> set nodes. n_id n = fst g \<and> n_label n = ''Gap''"
  shows "edge_kept nodes trace e (edge_step H trace path gaps g e')"
proof (cases "chosen trace gaps g")
  case (Some x)
  obtain i span where x: "x = (i, span)" by (cases x)
  note c = chosen_Some [OF Some [unfolded x]]
  show ?thesis
  proof (cases "e_dst e' = fst g")
    case True
    have step: "edge_step H trace path gaps g e' = redirect_edge H path (fst g) (channel_id_of (fst (snd g)) i) span e'"
      by (simp add: edge_step_def Some x)
    have dst: "\<exists>n \<in> set nodes. n_id n = e_dst e \<and> n_label n = ''Gap''"
      "e_src e' = e_src e" "e_label e' = e_label e"
      using assms True by (auto simp: edge_kept_def)
    note r = redirect_edge_facts [OF True, of H path "channel_id_of (fst (snd g)) i" span]
    have "\<exists>s \<in> set trace. \<exists>k j. observed_channel s = Some (k, j) \<and> channel_id_of (fst (snd g)) i = channel_id_of k j"
      using c by blast
    then show ?thesis unfolding edge_kept_def step r(1-3) using dst r(4) by blast
  qed (use assms(1) in \<open>simp add: edge_step_def Some x redirect_edge_id\<close>)
qed (use assms(1) in \<open>simp add: edge_step_def\<close>)

lemma starts_chan: "starts_with ''chan:'' (channel_id_of k i)"
  by (simp add: channel_id_of_def starts_with_def)

lemma edge_steps_other:
  "\<forall>g \<in> set gs. chosen trace gaps g \<noteq> None \<longrightarrow> e_dst e \<noteq> fst g \<Longrightarrow> fold (edge_step H trace path gaps) gs e = e"
  by (induction gs) (auto simp: edge_step_def redirect_edge_id split: option.splits prod.splits)

lemma edge_steps_hit:
  assumes "distinct (map fst gs)" "\<forall>g \<in> set gs. \<not> starts_with ''chan:'' (fst g)"
    and "g \<in> set gs" "chosen trace gaps g = Some (i, span)" "e_dst e = fst g"
  shows "fold (edge_step H trace path gaps) gs e =
    redirect_edge H path (fst g) (channel_id_of (fst (snd g)) i) span e"
  using assms
proof (induction gs)
  case (Cons h gs)
  show ?case
  proof (cases "h = g")
    case True
    let ?e = "redirect_edge H path (fst g) (channel_id_of (fst (snd g)) i) span e"
    have "\<forall>h \<in> set gs. e_dst ?e \<noteq> fst h"
      using Cons.prems(2) starts_chan redirect_edge_facts(3) [OF Cons.prems(5)] by (metis list.set_intros(2))
    then have "fold (edge_step H trace path gaps) gs ?e = ?e" by (intro edge_steps_other) simp
    moreover have "edge_step H trace path gaps g e = ?e" using Cons.prems(4) by (simp add: edge_step_def)
    ultimately show ?thesis using True by simp
  next
    case False
    then have "fst h \<noteq> fst g" using Cons.prems(1,3) by (metis distinct.simps(2) image_eqI list.simps(9) list.set_map set_ConsD)
    then have "edge_step H trace path gaps h e = e"
      using Cons.prems(5) by (auto simp: edge_step_def redirect_edge_id split: option.split prod.split)
    then show ?thesis using Cons False by simp
  qed
qed simp

section \<open>The whole pass\<close>

lemma gap_fact_node:
  assumes "g \<in> set (List.map_filter gap_fact_of nodes)"
  shows "\<exists>n \<in> set nodes. n_id n = fst g \<and> n_label n = ''Gap'' \<and> is_object (n_props n) \<and> gap_fact_of n = Some g"
proof -
  obtain n where n: "n \<in> set nodes" "gap_fact_of n = Some g" using assms by (auto simp: set_map_filter_Some)
  then have "n_id n = fst g" "n_label n = ''Gap''" "is_object (n_props n)"
    by (cases "n_props n"; auto simp: gap_fact_of_def bind_eq_Some_conv is_object_def split: if_splits)+
  with n show ?thesis by blast
qed

lemma gap_labels:
  assumes "distinct (map n_id nodes)"
  shows "\<forall>g \<in> set (List.map_filter gap_fact_of nodes). \<forall>n \<in> set nodes. n_id n = fst g \<longrightarrow> n_label n = ''Gap''"
  using gap_fact_node assms by (metis distinct_map inj_on_def)

lemma gap_facts_distinct:
  "distinct (map n_id nodes) \<Longrightarrow> distinct (map fst (List.map_filter gap_fact_of nodes))"
proof (induction nodes)
  case (Cons n nodes)
  have "fst g \<noteq> n_id n" if "g \<in> set (List.map_filter gap_fact_of nodes)" for g
    using gap_fact_node [OF that] Cons.prems by (auto simp: image_iff)
  moreover have "fst g = n_id n" if "gap_fact_of n = Some g" for g
    using that by (auto simp: gap_fact_of_def bind_eq_Some_conv split: if_splits)
  ultimately have "fst g \<notin> fst ` set (List.map_filter gap_fact_of nodes)" if "gap_fact_of n = Some g" for g
    using that by (metis (no_types, lifting) imageE)
  then show ?case using Cons by (simp add: List.map_filter_simps split: option.split)
qed simp

definition resolved_ids :: "observed_span list \<Rightarrow> gap_fact list \<Rightarrow> string set" where
  "resolved_ids trace gaps = fst ` {g \<in> set gaps. chosen trace gaps g \<noteq> None}"

lemma resolved_idI: "g \<in> set gaps \<Longrightarrow> chosen trace gaps g \<noteq> None \<Longrightarrow> fst g \<in> resolved_ids trace gaps"
  unfolding resolved_ids_def by blast

lemma resolved_idE:
  assumes "x \<in> resolved_ids trace gaps"
  obtains g where "g \<in> set gaps" "chosen trace gaps g \<noteq> None" "x = fst g"
  using assms unfolding resolved_ids_def by blast

lemma channel_not_resolved:
  assumes "\<forall>g \<in> set gaps. \<not> starts_with ''chan:'' (fst g)"
  shows "channel_id_of k i \<notin> resolved_ids trace gaps"
  using assms starts_chan resolved_idE by metis

lemma apply_trace_parts:
  assumes "distinct (map n_id nodes)" "apply_trace H nodes edges trace path = (nodes', edges', report)"
    and "gaps = List.map_filter gap_fact_of nodes"
  obtains kept new where
    "list_all2 node_kept nodes kept"
    "nodes' = filter (\<lambda>n. n_id n \<notin> resolved_ids trace gaps) kept @ map snd new"
    "channels_inv trace (map n_id nodes) new"
    "\<And>g i s. g \<in> set gaps \<Longrightarrow> chosen trace gaps g = Some (i, s) \<Longrightarrow>
       channel_id_of (fst (snd g)) i \<in> n_id ` set nodes \<union> fst ` set new"
    "edges' = map (\<lambda>e. fold (edge_step H trace path gaps) gaps e) edges"
    "te_channel_gaps_resolved report = length (filter (\<lambda>g. chosen trace gaps g \<noteq> None) gaps)"
    "te_channel_gaps_unresolved report = length (filter (\<lambda>g. chosen trace gaps g = None) gaps)"
proof -
  define nodes1 where "nodes1 = fst (enrich_http_endpoints H nodes trace path)"
  have k1: "list_all2 endpoints_only nodes nodes1" unfolding nodes1_def by (rule enrich_http_kept)
  have kept1: "list_all2 node_kept nodes nodes1"
    using k1 by (rule list_all2_mono) (simp add: endpoints_only_def)
  have ids: "map n_id nodes1 = map n_id nodes" using tr.kept_maps [OF kept1] by simp
  have gaps1: "List.map_filter gap_fact_of nodes1 = gaps" using endpoints_only_gaps [OF k1] assms(3) by simp
  define st0 where "st0 = \<lparr>ts_nodes = nodes1, ts_edges = edges, ts_resolved_ids = {}, ts_new_channels = [],
                  ts_resolved = 0, ts_unresolved = 0\<rparr>"
  define st where "st = fold (resolve_gap H trace path gaps) gaps st0"
  have res: "nodes' = filter (\<lambda>n. n_id n \<notin> ts_resolved_ids st) (ts_nodes st) @ map snd (ts_new_channels st)"
    "edges' = ts_edges st" "te_channel_gaps_resolved report = ts_resolved st"
    "te_channel_gaps_unresolved report = ts_unresolved st"
    using assms(2) by (auto simp: apply_trace_def Let_def case_prod_unfold nodes1_def [symmetric] gaps1 st_def st0_def)
  have labels: "\<forall>g \<in> set gaps. \<forall>n \<in> set (ts_nodes st0). n_id n = fst g \<longrightarrow> n_label n = ''Gap''"
    using gap_labels [of nodes1] assms(1) unfolding st0_def ids gaps1 by (simp add: ids)
  have rid: "ts_resolved_ids st = resolved_ids trace gaps"
    by (simp add: st_def fold_gap_fields st0_def resolved_ids_def)
  have "list_all2 node_kept nodes (ts_nodes st)"
    using all2_kept_trans [OF kept1] fold_gap_nodes [OF labels, of H trace path gaps] by (simp add: st_def st0_def)
  moreover have "channels_inv trace (map n_id (ts_nodes st0)) (ts_new_channels st0)"
    by (simp add: channels_inv_def st0_def)
  note ch = fold_gap_channels [OF this labels, of H path gaps, folded st_def]
  have n0: "map n_id (ts_nodes st0) = map n_id nodes" "n_id ` set (ts_nodes st0) = n_id ` set nodes"
    using ids by (simp_all add: st0_def) (metis set_map)
  show ?thesis
  proof (rule that)
    show "list_all2 node_kept nodes (ts_nodes st)" by fact
    show "nodes' = filter (\<lambda>n. n_id n \<notin> resolved_ids trace gaps) (ts_nodes st) @ map snd (ts_new_channels st)"
      unfolding res rid ..
    show "channels_inv trace (map n_id nodes) (ts_new_channels st)" using conjunct1 [OF ch] unfolding n0 .
    show "channel_id_of (fst (snd g)) i \<in> n_id ` set nodes \<union> fst ` set (ts_new_channels st)"
      if "g \<in> set gaps" "chosen trace gaps g = Some (i, s)" for g i s
      using conjunct2 [OF conjunct2 [OF ch]] that unfolding n0 by blast
    show "edges' = map (\<lambda>e. fold (edge_step H trace path gaps) gaps e) edges"
      by (simp add: res st_def fold_gap_fields st0_def)
    show "te_channel_gaps_resolved report = length (filter (\<lambda>g. chosen trace gaps g \<noteq> None) gaps)"
      unfolding res(3) by (simp add: st_def fold_gap_fields st0_def)
    show "te_channel_gaps_unresolved report = length (filter (\<lambda>g. chosen trace gaps g = None) gaps)"
      unfolding res(4) by (simp add: st_def fold_gap_fields st0_def)
  qed
qed

lemma edge_steps_kept:
  "edge_kept nodes trace e
     (fold (edge_step H trace path (List.map_filter gap_fact_of nodes)) (List.map_filter gap_fact_of nodes) e)"
proof (rule fold_inv [where P = "edge_kept nodes trace e"])
  fix g e' assume "g \<in> set (List.map_filter gap_fact_of nodes)" "edge_kept nodes trace e e'"
  then show "edge_kept nodes trace e (edge_step H trace path (List.map_filter gap_fact_of nodes) g e')"
    using edge_step_kept gap_fact_node by metis
qed (simp add: edge_kept_def)

lemma apply_trace_ids:
  assumes "list_all2 node_kept nodes kept"
    and "nodes' = filter (\<lambda>n. n_id n \<notin> resolved_ids trace gaps) kept @ map snd new"
    and "channels_inv trace (map n_id nodes) new"
  shows "n_id ` set nodes' = (n_id ` set nodes - resolved_ids trace gaps) \<union> fst ` set new"
proof -
  have "n_id ` set kept = n_id ` set nodes" using assms(1) by (rule tr.kept_ids)
  moreover have "n_id ` set (map snd new) = fst ` set new"
    using assms(3) by (force simp: channels_inv_def channel_entry_def)
  moreover have "n_id ` {n \<in> A. n_id n \<notin> R} = n_id ` A - R" for A and R :: "string set" by blast
  ultimately show ?thesis unfolding assms(2) set_append image_Un set_filter by metis
qed

text \<open>
  C1: a trace fills Gaps and rewrites nothing else. Of a graph whose node ids are distinct, every node that is
  not a Gap is still there: unchanged, except that an endpoint may carry an observation beside its own
  properties. Every node of the result is such a node, a Gap that was kept (with at most the attempt
  recorded), or a channel that was not there and that a span of the trace names. Every edge keeps its source
  and label; its target changes only from a Gap to a channel the trace names, and then its provenance is
  that of the trace, at the dynamic tier's ceiling. The two counts of Gaps add up to the Gaps considered.
\<close>

theorem trace_fills_only_gaps:
  assumes "distinct (map n_id nodes)" "apply_trace H nodes edges trace path = (nodes', edges', report)"
  shows "(\<forall>n \<in> set nodes. n_label n \<noteq> ''Gap'' \<longrightarrow> (\<exists>n' \<in> set nodes'. node_kept n n')) \<and>
     (\<forall>n' \<in> set nodes'. (\<exists>n \<in> set nodes. node_kept n n') \<or>
        n_label n' = ''Channel'' \<and> n_id n' \<notin> n_id ` set nodes \<and>
        (\<exists>s \<in> set trace. \<exists>k i. observed_channel s = Some (k, i) \<and> n_id n' = channel_id_of k i)) \<and>
     list_all2 (edge_kept nodes trace) edges edges' \<and>
     te_channel_gaps_resolved report + te_channel_gaps_unresolved report =
       length (List.map_filter gap_fact_of nodes)"
proof -
  define gaps where "gaps = List.map_filter gap_fact_of nodes"
  obtain kept new where p: "list_all2 node_kept nodes kept"
    "nodes' = filter (\<lambda>n. n_id n \<notin> resolved_ids trace gaps) kept @ map snd new"
    "channels_inv trace (map n_id nodes) new"
    "edges' = map (\<lambda>e. fold (edge_step H trace path gaps) gaps e) edges"
    "te_channel_gaps_resolved report = length (filter (\<lambda>g. chosen trace gaps g \<noteq> None) gaps)"
    "te_channel_gaps_unresolved report = length (filter (\<lambda>g. chosen trace gaps g = None) gaps)"
    using apply_trace_parts [OF assms gaps_def] by metis
  have "\<exists>n' \<in> set nodes'. node_kept n n'" if n: "n \<in> set nodes" "n_label n \<noteq> ''Gap''" for n
  proof -
    obtain n' where n': "n' \<in> set kept" "node_kept n n'" using tr.kept_fwd [OF p(1) n(1)] by blast
    have "n_id n \<notin> resolved_ids trace gaps"
      using gap_labels [OF assms(1)] n by (auto simp: resolved_ids_def gaps_def)
    then show ?thesis using n' by (auto simp: p(2) node_kept_def)
  qed
  moreover have "(\<exists>n \<in> set nodes. node_kept n n') \<or>
        n_label n' = ''Channel'' \<and> n_id n' \<notin> n_id ` set nodes \<and>
        (\<exists>s \<in> set trace. \<exists>k i. observed_channel s = Some (k, i) \<and> n_id n' = channel_id_of k i)"
    if n': "n' \<in> set nodes'" for n'
  proof -
    consider "n' \<in> set kept" | q where "q \<in> set new" "n' = snd q" using n' by (auto simp: p(2))
    then show ?thesis
    proof cases
      case 2
      then have "channel_entry trace (map n_id nodes) q" using p(3) by (simp add: channels_inv_def)
      then show ?thesis unfolding 2(2) channel_entry_def by simp
    qed (use tr.kept_rev [OF p(1)] in blast)
  qed
  moreover have "edge_kept nodes trace e (fold (edge_step H trace path gaps) gaps e)" for e
    unfolding gaps_def by (rule edge_steps_kept)
  then have "list_all2 (edge_kept nodes trace) edges edges'" by (simp add: p(4) list_all2_conv_all_nth)
  moreover have "te_channel_gaps_resolved report + te_channel_gaps_unresolved report = length gaps"
    using sum_length_filter_compl [of "\<lambda>g. chosen trace gaps g = None" gaps] by (simp add: p(5,6))
  ultimately show ?thesis unfolding gaps_def by blast
qed

definition sample_nodes :: "node list" where
  "sample_nodes =
     [\<lparr>n_id = ''sym:a'', n_label = ''Symbol'', n_props = JObj []\<rparr>,
      \<lparr>n_id = ''gap:1'', n_label = ''Gap'',
       n_props = JObj [(''kind'', JStr ''sqs-queue''), (''prov'', JObj [(''evidence'', JArr [JObj [(''path'', JStr ''a.ts'')]])])]\<rparr>]"

definition sample_edges :: "edge list" where
  "sample_edges = [\<lparr>e_src = ''sym:a'', e_dst = ''gap:1'', e_label = ''PUBLISHES'', e_props = JObj []\<rparr>]"

definition sample_trace :: "observed_span list" where
  "sample_trace =
     [\<lparr>os_trace_id = ''t'', os_span_id = ''s'', os_name = ''send'',
       os_attributes = [(''messaging.destination'', JStr ''q''), (''messaging.system'', JStr ''SQS'')],
       os_resource_attributes = [], os_start = 3, os_end = 4\<rparr>]"

lemma sample_distinct: "distinct (map n_id sample_nodes)"
  by (simp add: sample_nodes_def)

lemma sample_report:
  "te_channel_gaps_resolved (snd (snd (apply_trace (\<lambda>x. x) sample_nodes sample_edges sample_trace ''t.jsonl''))) = 1"
  by code_simp

theorem trace_fills_only_gaps_witness:
  "distinct (map n_id sample_nodes) \<and>
   list_all2 (edge_kept sample_nodes sample_trace) sample_edges
     (fst (snd (apply_trace (\<lambda>x. x) sample_nodes sample_edges sample_trace ''t.jsonl''))) \<and>
   te_channel_gaps_unresolved (snd (snd (apply_trace (\<lambda>x. x) sample_nodes sample_edges sample_trace ''t.jsonl''))) = 0"
proof (cases "apply_trace (\<lambda>x. x) sample_nodes sample_edges sample_trace ''t.jsonl''")
  case (fields nodes' edges' report)
  have "length (List.map_filter gap_fact_of sample_nodes) = 1" by code_simp
  then show ?thesis
    using trace_fills_only_gaps [OF sample_distinct fields] sample_report sample_distinct by (simp add: fields)
qed

text \<open>
  C27: exactly which Gaps give way. With distinct ids and no Gap named like a channel, a Gap leaves the
  graph exactly when the spans that fit it observe one identity; then the channel of that identity is a
  node of the result and every edge into the Gap ends there, and otherwise every edge into it is as before.
\<close>

theorem gap_resolved_exactly:
  assumes "distinct (map n_id nodes)" "apply_trace H nodes edges trace path = (nodes', edges', report)"
    and "gaps = List.map_filter gap_fact_of nodes" "\<forall>g \<in> set gaps. \<not> starts_with ''chan:'' (fst g)"
    and "(gid, kind, source) \<in> set gaps"
    and "seen = {i. \<exists>s \<in> set (gap_candidates trace gaps (gid, kind, source)). identity_of s = Some i}"
  shows "(gid \<notin> n_id ` set nodes' \<longleftrightarrow> (\<exists>i. seen = {i})) \<and>
     (\<forall>j < length edges. e_dst (edges ! j) = gid \<longrightarrow>
        (\<forall>i. seen = {i} \<longrightarrow> e_dst (edges' ! j) = channel_id_of kind i \<and> channel_id_of kind i \<in> n_id ` set nodes') \<and>
        ((\<nexists>i. seen = {i}) \<longrightarrow> edges' ! j = edges ! j))"
proof -
  let ?g = "(gid, kind, source)"
  obtain kept new where p: "list_all2 node_kept nodes kept"
    "nodes' = filter (\<lambda>n. n_id n \<notin> resolved_ids trace gaps) kept @ map snd new"
    "channels_inv trace (map n_id nodes) new"
    "\<And>g i s. g \<in> set gaps \<Longrightarrow> chosen trace gaps g = Some (i, s) \<Longrightarrow>
       channel_id_of (fst (snd g)) i \<in> n_id ` set nodes \<union> fst ` set new"
    "edges' = map (\<lambda>e. fold (edge_step H trace path gaps) gaps e) edges"
    using apply_trace_parts [OF assms(1-3)] by metis
  have dg: "distinct (map fst gaps)" using gap_facts_distinct [OF assms(1)] assms(3) by simp
  note ids' = apply_trace_ids [OF p(1-3)]
  have entry: "channel_entry trace (map n_id nodes) q" if "q \<in> set new" for q
    using p(3) that by (simp add: channels_inv_def)
  have gin: "gid \<in> n_id ` set nodes" using gap_fact_node [of ?g nodes] assms(3,5) by auto
  have "fst q \<notin> n_id ` set nodes" if "q \<in> set new" for q using entry [OF that] by (simp add: channel_entry_def)
  then have gnew: "gid \<notin> fst ` set new" using gin by blast
  have uniq: "h = ?g" if "h \<in> set gaps" "fst h = gid" for h
    using dg that assms(5) by (metis eq_key_imp_eq_value prod.collapse fst_conv distinct_map inj_onD)
  have rid: "gid \<in> resolved_ids trace gaps \<longleftrightarrow> chosen trace gaps ?g \<noteq> None"
    using uniq resolved_idI [OF assms(5), of trace] resolved_idE by (metis fst_conv)
  have seen: "chosen trace gaps ?g \<noteq> None \<longleftrightarrow> (\<exists>i. seen = {i})" unfolding assms(6) by (rule chosen_iff)
  have "gid \<notin> n_id ` set nodes' \<longleftrightarrow> (\<exists>i. seen = {i})"
    unfolding ids' using gin gnew rid seen by blast
  moreover have "e_dst (edges' ! j) = channel_id_of kind i \<and> channel_id_of kind i \<in> n_id ` set nodes'"
    if j: "j < length edges" "e_dst (edges ! j) = gid" and i: "seen = {i}" for i j
  proof -
    obtain i' s where c: "chosen trace gaps ?g = Some (i', s)" using seen i by fastforce
    have "s \<in> set (gap_candidates trace gaps ?g)" "identity_of s = Some i'"
      using c by (auto simp: chosen_def find_Some_iff split: list.splits prod.splits)
    then have i': "i' = i" using i assms(6) by blast
    have "edges' ! j = redirect_edge H path gid (channel_id_of kind i) s (edges ! j)"
      using edge_steps_hit [OF dg assms(4,5) c, of "edges ! j" H path] j by (simp add: p(5) i')
    then have "e_dst (edges' ! j) = channel_id_of kind i" using redirect_edge_facts(3) [OF j(2)] by simp
    moreover have "channel_id_of kind i \<notin> resolved_ids trace gaps" using assms(4) by (rule channel_not_resolved)
    ultimately show ?thesis using p(4) [OF assms(5) c] i' unfolding ids' by simp
  qed
  moreover have "edges' ! j = edges ! j"
    if j: "j < length edges" "e_dst (edges ! j) = gid" and no: "\<nexists>i. seen = {i}" for j
  proof -
    have "\<forall>h \<in> set gaps. chosen trace gaps h \<noteq> None \<longrightarrow> e_dst (edges ! j) \<noteq> fst h"
      using uniq seen no j(2) by metis
    then show ?thesis using j(1) by (simp add: p(5) edge_steps_other)
  qed
  ultimately show ?thesis by blast
qed

theorem gap_resolved_exactly_witness:
  "''gap:1'' \<notin> n_id ` set (fst (apply_trace (\<lambda>x. x) sample_nodes sample_edges sample_trace ''t.jsonl'')) \<and>
   e_dst (fst (snd (apply_trace (\<lambda>x. x) sample_nodes sample_edges sample_trace ''t.jsonl'')) ! 0) = ''chan:sqs-queue:q'' \<and>
   ''chan:sqs-queue:q'' \<in> n_id ` set (fst (apply_trace (\<lambda>x. x) sample_nodes sample_edges sample_trace ''t.jsonl''))"
proof (cases "apply_trace (\<lambda>x. x) sample_nodes sample_edges sample_trace ''t.jsonl''")
  case (fields nodes' edges' report)
  have gaps: "List.map_filter gap_fact_of sample_nodes = [(''gap:1'', ''sqs-queue'', ''a.ts'')]" by code_simp
  have cs: "gap_candidates sample_trace [(''gap:1'', ''sqs-queue'', ''a.ts'')] (''gap:1'', ''sqs-queue'', ''a.ts'') = sample_trace"
    by code_simp
  have "map identity_of sample_trace = [Some ''q'']" by code_simp
  then have seen: "{''q''} = {i. \<exists>s \<in> set (gap_candidates sample_trace [(''gap:1'', ''sqs-queue'', ''a.ts'')]
      (''gap:1'', ''sqs-queue'', ''a.ts'')). identity_of s = Some i}"
    unfolding cs by (auto simp: sample_trace_def)
  show ?thesis unfolding fields
    using gap_resolved_exactly [OF sample_distinct fields gaps [symmetric] _ _ seen]
    by (simp add: starts_with_def sample_edges_def channel_id_of_def)
qed

text \<open>
  Closure: when every edge of the graph joins two of its nodes and no edge starts at a Gap, the same
  holds after the pass.
\<close>

theorem trace_keeps_closed:
  assumes "distinct (map n_id nodes)" "apply_trace H nodes edges trace path = (nodes', edges', report)"
    and "\<forall>n \<in> set nodes. n_label n = ''Gap'' \<longrightarrow> \<not> starts_with ''chan:'' (n_id n)"
    and "\<forall>e \<in> set edges. e_dst e \<in> n_id ` set nodes \<and> (\<exists>n \<in> set nodes. n_id n = e_src e \<and> n_label n \<noteq> ''Gap'')"
  shows "\<forall>e \<in> set edges'. e_dst e \<in> n_id ` set nodes' \<and> e_src e \<in> n_id ` set nodes'"
proof
  define gaps where "gaps = List.map_filter gap_fact_of nodes"
  obtain kept new where p: "list_all2 node_kept nodes kept"
    "nodes' = filter (\<lambda>n. n_id n \<notin> resolved_ids trace gaps) kept @ map snd new"
    "channels_inv trace (map n_id nodes) new"
    "\<And>g i s. g \<in> set gaps \<Longrightarrow> chosen trace gaps g = Some (i, s) \<Longrightarrow>
       channel_id_of (fst (snd g)) i \<in> n_id ` set nodes \<union> fst ` set new"
    "edges' = map (\<lambda>e. fold (edge_step H trace path gaps) gaps e) edges"
    using apply_trace_parts [OF assms(1,2) gaps_def] by metis
  note ids' = apply_trace_ids [OF p(1-3)]
  have dg: "distinct (map fst gaps)" using gap_facts_distinct [OF assms(1)] by (simp add: gaps_def)
  have nochan: "\<forall>g \<in> set gaps. \<not> starts_with ''chan:'' (fst g)"
    using gap_fact_node [of _ nodes] assms(3) unfolding gaps_def by metis
  fix e' assume "e' \<in> set edges'"
  then obtain e where e: "e \<in> set edges" "e' = fold (edge_step H trace path gaps) gaps e" by (auto simp: p(5))
  have "edge_kept nodes trace e e'" unfolding e(2)
    unfolding gaps_def by (rule edge_steps_kept)
  then have src: "e_src e' = e_src e" by (auto simp: edge_kept_def)
  obtain n where n: "n \<in> set nodes" "n_id n = e_src e" "n_label n \<noteq> ''Gap''" using assms(4) e(1) by blast
  have "e_src e \<notin> resolved_ids trace gaps"
    using gap_labels [OF assms(1)] n by (auto simp: resolved_ids_def gaps_def)
  then have "e_src e \<in> n_id ` set nodes - resolved_ids trace gaps" using imageI [OF n(1), of n_id] n(2) by simp
  then have "e_src e' \<in> n_id ` set nodes'" unfolding src ids' by simp
  moreover have "e_dst e' \<in> n_id ` set nodes'"
  proof (cases "e_dst e \<in> resolved_ids trace gaps")
    case True
    then obtain g i s where g: "g \<in> set gaps" "e_dst e = fst g" "chosen trace gaps g = Some (i, s)"
      by (auto simp: resolved_ids_def)
    have "e_dst e' = channel_id_of (fst (snd g)) i"
      unfolding e(2) edge_steps_hit [OF dg nochan g(1,3,2)] by (rule redirect_edge_facts(3) [OF g(2)])
    moreover have "channel_id_of (fst (snd g)) i \<notin> resolved_ids trace gaps" using nochan by (rule channel_not_resolved)
    ultimately show ?thesis using p(4) [OF g(1,3)] unfolding ids' by simp
  next
    case False
    then have "e' = e" unfolding e(2) by (intro edge_steps_other) (auto simp: resolved_ids_def)
    then show ?thesis using False assms(4) e(1) unfolding ids' by simp
  qed
  ultimately show "e_dst e' \<in> n_id ` set nodes' \<and> e_src e' \<in> n_id ` set nodes'" by simp
qed

end
