(* ===== verification/Semantic_Context.thy ===== *)
theory Semantic_Context
  imports Graph_Store
begin

text \<open>
  Context for a model (\<^verbatim>\<open>crates/semantic/src/context.rs\<close>): the neighbourhood of a focus with hop distances,
  and its statements packed, nearest first, under a byte budget. Hops are natural numbers; the code counts
  them in 32 bits up to its argument.
\<close>

section \<open>Neighbourhood\<close>

record subgraph =
  sg_focus :: string
  sg_nodes :: "(nat \<times> node) list"
  sg_edges :: "edge list"

record context_bundle =
  cb_text :: string
  cb_cited :: "string list"
  cb_dropped :: "string list"

definition edge_identity :: "edge \<Rightarrow> string" where
  "edge_identity e = e_src e @ '' '' @ e_label e @ '' '' @ e_dst e"

text \<open>A \<^verbatim>\<open>BTreeMap\<close> of \<^verbatim>\<open>BTreeSet\<close>s: the entry of \<open>a\<close> gains \<open>b\<close>.\<close>

definition adj_insert :: "string \<Rightarrow> string \<Rightarrow> (string, string list) omap \<Rightarrow> (string, string list) omap" where
  "adj_insert a b m = om_put a (insort_insert b (bucket m a)) m"

definition adjacency :: "edge list \<Rightarrow> (string, string list) omap" where
  "adjacency edges = fold (\<lambda>e m. adj_insert (e_dst e) (e_src e) (adj_insert (e_src e) (e_dst e) m)) edges []"

definition reach_neighbor :: "nat \<Rightarrow> string \<Rightarrow> (string, nat) omap \<times> string list \<Rightarrow> (string, nat) omap \<times> string list" where
  "reach_neighbor hop x st =
     (case st of (distance, next) \<Rightarrow>
        if om_get distance x = None then (om_put x hop distance, next @ [x]) else st)"

definition expand_id ::
  "(string, string list) omap \<Rightarrow> nat \<Rightarrow> string \<Rightarrow> (string, nat) omap \<times> string list \<Rightarrow> (string, nat) omap \<times> string list" where
  "expand_id adj hop x st =
     (case om_get adj x of None \<Rightarrow> st | Some neighbors \<Rightarrow> fold (reach_neighbor hop) neighbors st)"

fun khop_rounds ::
  "(string, string list) omap \<Rightarrow> nat \<Rightarrow> nat \<Rightarrow> string list \<Rightarrow> (string, nat) omap \<Rightarrow> (string, nat) omap" where
  "khop_rounds adj hop 0 frontier distance = distance"
| "khop_rounds adj hop (Suc left) frontier distance =
     (let (distance', next) = fold (expand_id adj hop) frontier (distance, [])
      in khop_rounds adj (hop + 1) left next distance')"

definition khop_distance :: "edge list \<Rightarrow> string \<Rightarrow> nat \<Rightarrow> (string, nat) omap" where
  "khop_distance edges focus k = khop_rounds (adjacency edges) 1 k [focus] (om_put focus 0 [])"

definition khop_subgraph :: "node list \<Rightarrow> edge list \<Rightarrow> string \<Rightarrow> nat \<Rightarrow> subgraph" where
  "khop_subgraph nodes edges focus k =
     (let distance = khop_distance edges focus k;
          hop = (\<lambda>x. case om_get distance x of None \<Rightarrow> 0 | Some d \<Rightarrow> d);
          mem = (\<lambda>x. om_get distance x \<noteq> None)
      in \<lparr>sg_focus = focus,
          sg_nodes = sort_key (\<lambda>(d, n). (d, n_id n)) (map (\<lambda>n. (hop (n_id n), n)) (filter (\<lambda>n. mem (n_id n)) nodes)),
          sg_edges = sort_key edge_identity (filter (\<lambda>e. mem (e_src e) \<and> mem (e_dst e)) edges)\<rparr>)"

fun keep_unseen :: "string list \<Rightarrow> string list \<Rightarrow> string list" where
  "keep_unseen seen [] = []"
| "keep_unseen seen (x # xs) = (if x \<in> set seen then keep_unseen seen xs else x # keep_unseen (x # seen) xs)"

definition merge_candidates :: "string list \<Rightarrow> string list \<Rightarrow> string list" where
  "merge_candidates structural similar = keep_unseen [] (structural @ similar)"

section \<open>Statements\<close>

definition validated_confidence :: "json \<Rightarrow> string" where
  "validated_confidence props =
     (case prov_from_value (jidx props ''prov'') of
        None \<Rightarrow> ''Gap''
      | Some p \<Rightarrow> if is_ok (prov_validate p) then confidence_name (p_confidence p) else ''Gap'')"

fun first_string :: "json \<Rightarrow> string list \<Rightarrow> string option" where
  "first_string props [] = None"
| "first_string props (k # ks) = (case as_str (jidx props k) of Some s \<Rightarrow> Some s | None \<Rightarrow> first_string props ks)"

definition node_line :: "nat \<Rightarrow> node \<Rightarrow> string" where
  "node_line hop n =
     (let name = (case first_string (n_props n) [''title'', ''name'', ''identity'', ''path'', ''reason''] of
                    None \<Rightarrow> n_id n | Some s \<Rightarrow> s)
      in ''[node:'' @ n_id n @ ''] hop='' @ show_nat hop @ '' '' @ n_label n @ '' '' @ name @ '' ('' @
         validated_confidence (n_props n) @ '')'')"

definition edge_line :: "edge \<Rightarrow> string" where
  "edge_line e = ''[edge:'' @ edge_identity e @ ''] ('' @ validated_confidence (e_props e) @ '')''"

definition hop_of :: "subgraph \<Rightarrow> string \<Rightarrow> nat" where
  "hop_of sg x = (case find (\<lambda>(_, n). n_id n = x) (sg_nodes sg) of None \<Rightarrow> 2 ^ 32 - 1 | Some (h, _) \<Rightarrow> h)"

type_synonym context_line = "nat \<times> nat \<times> string \<times> string"

definition context_lines :: "subgraph \<Rightarrow> context_line list" where
  "context_lines sg =
     sort_key (\<lambda>(h, t, x, _). (h, t, x))
       (map (\<lambda>(h, n). (h, 0, ''node:'' @ n_id n, node_line h n)) (sg_nodes sg) @
        map (\<lambda>e. (max (hop_of sg (e_src e)) (hop_of sg (e_dst e)), 1, ''edge:'' @ edge_identity e, edge_line e)) (sg_edges sg))"

definition pack_line :: "nat \<Rightarrow> context_line \<Rightarrow> context_bundle \<times> bool \<Rightarrow> context_bundle \<times> bool" where
  "pack_line max_chars l st =
     (case (l, st) of ((_, _, x, line), (b, overflowed)) \<Rightarrow>
        if overflowed \<or> length (cb_text b) + length line + 1 > max_chars
        then (b\<lparr>cb_dropped := cb_dropped b @ [x]\<rparr>, True)
        else (b\<lparr>cb_text := cb_text b @ line @ [CHR 0x0A], cb_cited := cb_cited b @ [x]\<rparr>, overflowed))"

definition pack_context :: "subgraph \<Rightarrow> nat \<Rightarrow> context_bundle" where
  "pack_context sg max_chars =
     fst (fold (pack_line max_chars) (context_lines sg) (\<lparr>cb_text = [], cb_cited = [], cb_dropped = []\<rparr>, False))"

end
