(* ===== verification/Semantic_Context_Props.thy ===== *)
theory Semantic_Context_Props
  imports Semantic_Context
begin

text \<open>
  Correctness of model context: the distance of every member is its distance in the undirected graph, and
  packing keeps a prefix of the statements in order of relevance, within the budget, and records the rest.
\<close>

section \<open>Distances\<close>

definition undirected :: "edge list \<Rightarrow> (string \<times> string) set" where
  "undirected edges = {(x, y). \<exists>e \<in> set edges. e_src e = x \<and> e_dst e = y \<or> e_dst e = x \<and> e_src e = y}"

definition at_distance :: "edge list \<Rightarrow> string \<Rightarrow> string \<Rightarrow> nat \<Rightarrow> bool" where
  "at_distance edges focus x h \<longleftrightarrow>
     (focus, x) \<in> undirected edges ^^ h \<and> (\<forall>j < h. (focus, x) \<notin> undirected edges ^^ j)"

lemma bucket_put: "bucket (om_put a v m) x = (if x = a then v else bucket m x)"
  by (simp add: bucket_def)

lemma set_adj_insert: "set (bucket (adj_insert a b m) x) = (if x = a then insert b (set (bucket m a)) else set (bucket m x))"
  by (simp add: adj_insert_def bucket_put set_insort_insert)

lemma bucket_adjacency: "y \<in> set (bucket (adjacency edges) x) \<longleftrightarrow> (x, y) \<in> undirected edges"
proof -
  have "y \<in> set (bucket (fold (\<lambda>e m. adj_insert (e_dst e) (e_src e) (adj_insert (e_src e) (e_dst e) m)) es m) x) \<longleftrightarrow>
      y \<in> set (bucket m x) \<or> (x, y) \<in> undirected es" for es :: "edge list" and m
  proof (induction es arbitrary: m)
    case (Cons e es)
    have "(x, y) \<in> undirected (e # es) \<longleftrightarrow>
        e_src e = x \<and> e_dst e = y \<or> e_dst e = x \<and> e_src e = y \<or> (x, y) \<in> undirected es"
      by (simp add: undirected_def)
    then show ?case unfolding fold_simps Cons set_adj_insert
      by (cases "x = e_src e"; cases "x = e_dst e") (simp_all, blast+)
  qed (simp add: undirected_def)
  from this [of edges "[]"] show ?thesis unfolding adjacency_def by simp
qed

lemma fold_reach_get:
  "om_get (fst (fold (reach_neighbor hop) ns (d, nx))) x =
     (if om_get d x = None \<and> x \<in> set ns then Some hop else om_get d x)"
proof (induction ns arbitrary: d nx)
  case (Cons n ns)
  show ?case
  proof (cases "om_get d n")
    case None
    then have "reach_neighbor hop n (d, nx) = (om_put n hop d, nx @ [n])" by (simp add: reach_neighbor_def)
    with Cons [of "om_put n hop d" "nx @ [n]"] None show ?thesis by simp
  next
    case (Some h)
    then have "reach_neighbor hop n (d, nx) = (d, nx)" by (simp add: reach_neighbor_def)
    with Cons [of d nx] Some show ?thesis by auto
  qed
qed simp

lemma fold_reach_next:
  "set (snd (fold (reach_neighbor hop) ns (d, nx))) = set nx \<union> {x \<in> set ns. om_get d x = None}"
proof (induction ns arbitrary: d nx)
  case (Cons n ns)
  show ?case
  proof (cases "om_get d n")
    case None
    then have "reach_neighbor hop n (d, nx) = (om_put n hop d, nx @ [n])" by (simp add: reach_neighbor_def)
    then have "set (snd (fold (reach_neighbor hop) (n # ns) (d, nx))) =
        set (nx @ [n]) \<union> {x \<in> set ns. om_get (om_put n hop d) x = None}"
      using Cons [of "om_put n hop d" "nx @ [n]"] by simp
    also have "\<dots> = set nx \<union> {x \<in> set (n # ns). om_get d x = None}" using None by auto
    finally show ?thesis .
  next
    case (Some h)
    then have "reach_neighbor hop n (d, nx) = (d, nx)" by (simp add: reach_neighbor_def)
    with Cons [of d nx] Some show ?thesis by auto
  qed
qed simp

lemma fold_expand:
  "fold (expand_id adj hop) xs st = fold (reach_neighbor hop) (concat (map (bucket adj) xs)) st"
  by (induction xs arbitrary: st) (auto simp: expand_id_def bucket_def split: option.split)

lemma at_distance_step:
  "at_distance edges focus x (Suc h) \<longleftrightarrow>
     (\<forall>j \<le> h. \<not> at_distance edges focus x j) \<and> (\<exists>y. at_distance edges focus y h \<and> (y, x) \<in> undirected edges)"
proof
  assume x: "at_distance edges focus x (Suc h)"
  then obtain y where y: "(focus, y) \<in> undirected edges ^^ h" "(y, x) \<in> undirected edges"
    by (auto simp: at_distance_def)
  have "(focus, y) \<notin> undirected edges ^^ j" if "j < h" for j
    using that x y(2) relpow_Suc_I [of focus y j "undirected edges" x] by (auto simp: at_distance_def)
  with x y show "(\<forall>j \<le> h. \<not> at_distance edges focus x j) \<and> (\<exists>y. at_distance edges focus y h \<and> (y, x) \<in> undirected edges)"
    by (auto simp: at_distance_def)
next
  assume r: "(\<forall>j \<le> h. \<not> at_distance edges focus x j) \<and> (\<exists>y. at_distance edges focus y h \<and> (y, x) \<in> undirected edges)"
  then have "(focus, x) \<in> undirected edges ^^ Suc h" by (auto simp: at_distance_def)
  moreover have "(focus, x) \<notin> undirected edges ^^ j" if "j < Suc h" for j
    using that
  proof (induction j rule: less_induct)
    case (less j)
    then show ?case using r by (auto simp: at_distance_def less_Suc_eq_le)
  qed
  ultimately show "at_distance edges focus x (Suc h)" by (simp add: at_distance_def)
qed

lemma khop_rounds_exact:
  assumes "\<And>x h. om_get d x = Some h \<longleftrightarrow> h \<le> hop \<and> at_distance edges focus x h"
    and "set frontier = {x. at_distance edges focus x hop}"
  shows "om_get (khop_rounds (adjacency edges) (Suc hop) k frontier d) x = Some h \<longleftrightarrow>
    h \<le> hop + k \<and> at_distance edges focus x h"
  using assms
proof (induction k arbitrary: hop frontier d)
  case (Suc k)
  obtain d' nx where f: "fold (expand_id (adjacency edges) (Suc hop)) frontier (d, []) = (d', nx)" by fastforce
  let ?ns = "concat (map (bucket (adjacency edges)) frontier)"
  have ns: "x \<in> set ?ns \<longleftrightarrow> (\<exists>y. at_distance edges focus y hop \<and> (y, x) \<in> undirected edges)" for x
    using Suc.prems(2) by (auto simp: bucket_adjacency)
  have none: "om_get d x = None \<longleftrightarrow> (\<forall>j \<le> hop. \<not> at_distance edges focus x j)" for x
    using Suc.prems(1) [of x] by (cases "om_get d x") auto
  have new: "om_get d x = None \<and> x \<in> set ?ns \<longleftrightarrow> at_distance edges focus x (Suc hop)" for x
    unfolding at_distance_step none ns ..
  have d': "om_get d' x = (if at_distance edges focus x (Suc hop) then Some (Suc hop) else om_get d x)" for x
    using fold_reach_get [of "Suc hop" ?ns d "[]" x] f new [of x] by (simp add: fold_expand)
  have nx: "set nx = {x. at_distance edges focus x (Suc hop)}"
    unfolding new [symmetric] using fold_reach_next [of "Suc hop" ?ns d "[]"] f by (auto simp: fold_expand)
  have uniq: "i = j" if "at_distance edges focus x i" "at_distance edges focus x j" for x i j
    using that by (meson at_distance_def linorder_neqE_nat)
  have "om_get d' x = Some h \<longleftrightarrow> h \<le> Suc hop \<and> at_distance edges focus x h" for x h
    using Suc.prems(1) [of x h] uniq [of x h "Suc hop"] by (auto simp: d' le_Suc_eq)
  from Suc.IH [OF this nx] show ?case by (simp add: f)
qed simp

text \<open>
  The distance recorded for an id is its distance from the focus over edges taken in either direction, and
  exactly the ids within the requested number of hops have one.
\<close>

theorem khop_distance_exact:
  "om_get (khop_distance edges focus k) x = Some h \<longleftrightarrow> h \<le> k \<and> at_distance edges focus x h"
proof -
  have "om_get (om_put focus 0 []) x = Some h \<longleftrightarrow> h \<le> 0 \<and> at_distance edges focus x h" for x h
    by (auto simp: at_distance_def)
  moreover have "set [focus] = {x. at_distance edges focus x 0}" by (auto simp: at_distance_def)
  ultimately show ?thesis
    using khop_rounds_exact [of "om_put focus 0 []" 0 edges focus "[focus]" k x h] by (simp add: khop_distance_def)
qed

text \<open>The members of a subgraph: the nodes within the hops, at their distance, in order of distance and id.\<close>

theorem khop_subgraph_members:
  "(h, n) \<in> set (sg_nodes (khop_subgraph nodes edges focus k)) \<longleftrightarrow>
     n \<in> set nodes \<and> h \<le> k \<and> at_distance edges focus (n_id n) h"
  "e \<in> set (sg_edges (khop_subgraph nodes edges focus k)) \<longleftrightarrow>
     e \<in> set edges \<and> (\<exists>h \<le> k. at_distance edges focus (e_src e) h) \<and> (\<exists>h \<le> k. at_distance edges focus (e_dst e) h)"
  "sorted (map (\<lambda>(d, n). (d, n_id n)) (sg_nodes (khop_subgraph nodes edges focus k)))"
proof -
  have mem: "om_get (khop_distance edges focus k) x \<noteq> None \<longleftrightarrow> (\<exists>h \<le> k. at_distance edges focus x h)" for x
    using khop_distance_exact [of edges focus k x] by (cases "om_get (khop_distance edges focus k) x") auto
  show "(h, n) \<in> set (sg_nodes (khop_subgraph nodes edges focus k)) \<longleftrightarrow>
     n \<in> set nodes \<and> h \<le> k \<and> at_distance edges focus (n_id n) h"
    using khop_distance_exact [of edges focus k "n_id n" h]
    by (auto simp: khop_subgraph_def Let_def image_iff split: option.splits)
  show "e \<in> set (sg_edges (khop_subgraph nodes edges focus k)) \<longleftrightarrow>
     e \<in> set edges \<and> (\<exists>h \<le> k. at_distance edges focus (e_src e) h) \<and> (\<exists>h \<le> k. at_distance edges focus (e_dst e) h)"
    unfolding mem [symmetric] by (auto simp: khop_subgraph_def Let_def)
  show "sorted (map (\<lambda>(d, n). (d, n_id n)) (sg_nodes (khop_subgraph nodes edges focus k)))"
    by (simp add: khop_subgraph_def Let_def)
qed

section \<open>Packing\<close>

definition line_text :: "context_line \<Rightarrow> string" where
  "line_text l = (case l of (_, _, _, s) \<Rightarrow> s @ [CHR 0x0A])"

definition line_id :: "context_line \<Rightarrow> string" where
  "line_id l = (case l of (_, _, x, _) \<Rightarrow> x)"

lemma line_parts [simp]: "line_text (h, t, x, s) = s @ [CHR 0x0A]" "line_id (h, t, x, s) = x"
  by (simp_all add: line_text_def line_id_def)

lemma pack_overflowed:
  "fold (pack_line m) ls (b, True) = (b\<lparr>cb_dropped := cb_dropped b @ map line_id ls\<rparr>, True)"
  by (induction ls arbitrary: b) (auto simp: pack_line_def line_id_def split: prod.split)

lemma pack_prefix:
  assumes "length (cb_text b) \<le> m" "cb_dropped b = []"
  shows "\<exists>n \<le> length ls.
    fst (fold (pack_line m) ls (b, False)) =
      \<lparr>cb_text = cb_text b @ concat (map line_text (take n ls)), cb_cited = cb_cited b @ map line_id (take n ls),
       cb_dropped = map line_id (drop n ls)\<rparr> \<and>
    length (cb_text b @ concat (map line_text (take n ls))) \<le> m \<and>
    (n < length ls \<longrightarrow> length (cb_text b @ concat (map line_text (take (Suc n) ls))) > m)"
  using assms
proof (induction ls arbitrary: b)
  case (Cons l ls)
  obtain h t x s where l: "l = (h, t, x, s)" by (cases l)
  show ?case
  proof (cases "length (cb_text b) + length s + 1 > m")
    case True
    then have "fold (pack_line m) (l # ls) (b, False) = fold (pack_line m) ls (b\<lparr>cb_dropped := [x]\<rparr>, True)"
      using Cons.prems by (simp add: l pack_line_def)
    then show ?thesis using Cons.prems True
      by (intro exI [of _ 0]) (simp add: pack_overflowed l)
  next
    case False
    let ?b = "b\<lparr>cb_text := cb_text b @ s @ [CHR 0x0A], cb_cited := cb_cited b @ [x]\<rparr>"
    have step: "fold (pack_line m) (l # ls) (b, False) = fold (pack_line m) ls (?b, False)"
      using False by (simp add: l pack_line_def)
    obtain n where "n \<le> length ls" "fst (fold (pack_line m) ls (?b, False)) =
      \<lparr>cb_text = cb_text ?b @ concat (map line_text (take n ls)), cb_cited = cb_cited ?b @ map line_id (take n ls),
       cb_dropped = map line_id (drop n ls)\<rparr>"
      "length (cb_text ?b @ concat (map line_text (take n ls))) \<le> m"
      "n < length ls \<longrightarrow> length (cb_text ?b @ concat (map line_text (take (Suc n) ls))) > m"
      using Cons.IH [of ?b] Cons.prems False by auto
    then show ?thesis unfolding step
      by (intro exI [of _ "Suc n"]) (simp add: l)
  qed
qed simp

text \<open>
  Packing keeps the longest prefix of the statements, nearest first, that fits the budget: the text is that
  prefix, at most the budget long, the statements cited are its ids, everything after it is recorded as
  dropped, and one more statement would not fit.
\<close>

theorem pack_context_longest_prefix:
  "\<exists>n \<le> length (context_lines sg). \<exists>b. pack_context sg max_chars = b \<and>
     cb_text b = concat (map line_text (take n (context_lines sg))) \<and> length (cb_text b) \<le> max_chars \<and>
     cb_cited b @ cb_dropped b = map line_id (context_lines sg) \<and> length (cb_cited b) = n \<and>
     (n = length (context_lines sg) \<or> length (cb_text b) + length (line_text (context_lines sg ! n)) > max_chars) \<and>
     sorted (map (\<lambda>(h, t, x, _). (h, t, x)) (context_lines sg))"
proof -
  have s: "sorted (map (\<lambda>(h, t, x, _). (h, t, x)) (context_lines sg))"
    by (simp add: context_lines_def)
  obtain n where n: "n \<le> length (context_lines sg)"
    "pack_context sg max_chars = \<lparr>cb_text = concat (map line_text (take n (context_lines sg))),
      cb_cited = map line_id (take n (context_lines sg)), cb_dropped = map line_id (drop n (context_lines sg))\<rparr>"
    "length (concat (map line_text (take n (context_lines sg)))) \<le> max_chars"
    "n < length (context_lines sg) \<longrightarrow> length (concat (map line_text (take (Suc n) (context_lines sg)))) > max_chars"
    using pack_prefix [of "\<lparr>cb_text = [], cb_cited = [], cb_dropped = []\<rparr>" max_chars "context_lines sg"]
    unfolding pack_context_def by auto
  have "n = length (context_lines sg) \<or>
      length (concat (map line_text (take n (context_lines sg)))) + length (line_text (context_lines sg ! n)) > max_chars"
    using n(1,4) by (cases "n < length (context_lines sg)") (simp_all add: take_Suc_conv_app_nth)
  moreover have "map line_id (take n (context_lines sg)) @ map line_id (drop n (context_lines sg)) = map line_id (context_lines sg)"
    by (simp flip: map_append)
  ultimately show ?thesis using n s by (intro exI [of _ n]) simp
qed

section \<open>Candidates\<close>

text \<open>Merged candidates are each id once, the structural ones first, in the order of first occurrence.\<close>

lemma keep_unseen_props:
  "set (keep_unseen seen xs) = set xs - set seen \<and> distinct (keep_unseen seen xs)"
  by (induction xs arbitrary: seen) auto

lemma keep_unseen_append: "keep_unseen seen (xs @ ys) = keep_unseen seen xs @ keep_unseen (rev (keep_unseen seen xs) @ seen) ys"
  by (induction xs arbitrary: seen) auto

theorem merge_candidates_exact:
  "set (merge_candidates structural similar) = set structural \<union> set similar \<and>
   distinct (merge_candidates structural similar) \<and>
   (\<exists>rest. merge_candidates structural similar = keep_unseen [] structural @ rest \<and> set rest = set similar - set structural)"
  using keep_unseen_props [of "[]" "structural @ similar"] keep_unseen_append [of "[]" structural similar]
    keep_unseen_props [of "[]" structural] keep_unseen_props [of "rev (keep_unseen [] structural)" similar]
  by (simp add: merge_candidates_def)

end
