(* ===== verification/Semantic_Overlay.thy ===== *)
theory Semantic_Overlay
  imports Complex_Main Json_Map Graph_Store "HOL-Library.Option_ord"
begin

text \<open>
  The semantic resolver (\<^verbatim>\<open>crates/semantic/src/lib.rs\<close>): the slots that Gaps leave open, the candidates that
  could fill them, staged proposals, the gate on a passing evaluation and the overlay. Similarities are
  exact rationals; the code rounds in \<^verbatim>\<open>f32\<close>. \<open>emb\<close> is the provider's embedding call, \<open>us\<close> is the USearch
  library, \<open>fmt6\<close> prints a similarity with six
  decimals, \<open>fj\<close> is its JSON number and \<open>H\<close> the hash. A coordinate that is not finite is \<open>None\<close>.
\<close>

section \<open>Records\<close>

datatype hop_kind = HopChannel | HopCall

instantiation hop_kind :: linorder
begin

definition less_eq_hop_kind :: "hop_kind \<Rightarrow> hop_kind \<Rightarrow> bool" where
  "a \<le> b \<longleftrightarrow> a = b \<or> a = HopChannel"

definition less_hop_kind :: "hop_kind \<Rightarrow> hop_kind \<Rightarrow> bool" where
  "a < b \<longleftrightarrow> a = HopChannel \<and> b = HopCall"

instance
proof
  fix x y z :: hop_kind
  show "x < y \<longleftrightarrow> x \<le> y \<and> \<not> y \<le> x" by (cases x; cases y) (simp_all add: less_eq_hop_kind_def less_hop_kind_def)
  show "x \<le> x" by (simp add: less_eq_hop_kind_def)
  show "x \<le> y \<Longrightarrow> y \<le> z \<Longrightarrow> x \<le> z" by (auto simp: less_eq_hop_kind_def)
  show "x \<le> y \<Longrightarrow> y \<le> x \<Longrightarrow> x = y" by (auto simp: less_eq_hop_kind_def)
  show "x \<le> y \<or> y \<le> x" by (cases x; cases y) (simp_all add: less_eq_hop_kind_def)
qed

end

type_synonym hop_key = "hop_kind \<times> string option"
type_synonym embedding = "rat option list"

record unresolved_hop =
  uh_gap_id :: string
  uh_source_id :: string
  uh_edge_label :: string
  uh_kind :: hop_kind
  uh_subtype :: "string option"
  uh_query :: string
  uh_evidence :: "evidence_ref list"

record semantic_candidate =
  sc_node_id :: string
  sc_kind :: hop_kind
  sc_subtype :: "string option"
  sc_text :: string
  sc_evidence :: "evidence_ref list"
  sc_materialized :: "node option"

record semantic_proposal =
  sp_gap_id :: string
  sp_source_id :: string
  sp_target_id :: string
  sp_edge_label :: string
  sp_similarity :: rat
  sp_provenance :: provenance
  sp_target_node :: "node option"

record eval_report =
  er_precision_floor :: rat
  er_similarity_threshold :: rat
  er_precision :: rat
  er_recall :: rat
  er_passed :: bool
  er_true_positives :: nat
  er_false_positives :: nat
  er_false_negatives :: nat

record overlay_graph =
  og_nodes :: "node list"
  og_edges :: "edge list"
  og_gaps_filled :: nat

datatype semantic_error = SmProvider string | SmIndex string | SmProvenance integrity_error | SmPanic

text \<open>USearch: building an index over vectors, and its nearest neighbours of a query with their distances.\<close>

record usearch =
  us_build :: "embedding list \<Rightarrow> (string, unit) result"
  us_search :: "embedding list \<Rightarrow> embedding \<Rightarrow> nat \<Rightarrow> (string, (nat \<times> rat) list) result"

definition SEMANTIC_EXTRACTOR_ID :: string where "SEMANTIC_EXTRACTOR_ID = ''t2.semantic-ann''"

section \<open>Inputs\<close>

definition evidence_from :: "json \<Rightarrow> evidence_ref list" where
  "evidence_from props =
     (case jidx (jidx props ''prov'') ''evidence'' of
        JArr xs \<Rightarrow> (case all_some (map evidence_from_value xs) of None \<Rightarrow> [] | Some es \<Rightarrow> es)
      | _ \<Rightarrow> [])"

definition hop_kind_of :: "string \<Rightarrow> hop_kind option" where
  "hop_kind_of label =
     (if label = ''PUBLISHES'' \<or> label = ''SUBSCRIBES'' then Some HopChannel
      else if label = ''CALLS'' then Some HopCall else None)"

definition or_str :: "string option \<Rightarrow> string option \<Rightarrow> string option" where
  "or_str a b = (case a of Some s \<Rightarrow> Some s | None \<Rightarrow> b)"

definition gap_query :: "json \<Rightarrow> string" where
  "gap_query props =
     trim (case or_str (as_str (jidx props ''raw'')) (or_str (as_str (jidx props ''callee'')) (as_str (jidx props ''reason''))) of
             None \<Rightarrow> [] | Some s \<Rightarrow> s)"

definition gap_index :: "node list \<Rightarrow> (string, node) omap" where
  "gap_index nodes = fold (\<lambda>n. om_put (n_id n) n) (filter (\<lambda>n. n_label n = ''Gap'') nodes) []"

definition unresolved_of :: "(string, node) omap \<Rightarrow> edge \<Rightarrow> unresolved_hop option" where
  "unresolved_of gaps e =
     Option.bind (om_get gaps (e_dst e)) (\<lambda>gap.
     Option.bind (hop_kind_of (e_label e)) (\<lambda>kind.
       (let query = gap_query (n_props gap); evidence = evidence_from (n_props gap) in
        if query = [] \<or> evidence = [] then None
        else Some \<lparr>uh_gap_id = n_id gap, uh_source_id = e_src e, uh_edge_label = e_label e, uh_kind = kind,
                   uh_subtype = (if kind = HopChannel then as_str (jidx (n_props gap) ''kind'') else None),
                   uh_query = query, uh_evidence = evidence\<rparr>)))"

definition resource_channel_kind :: "string \<Rightarrow> string option" where
  "resource_channel_kind t =
     (if t = ''aws_sqs_queue'' then Some ''sqs-queue'' else if t = ''aws_sns_topic'' then Some ''sns-topic'' else None)"

definition spaced :: "string \<Rightarrow> string" where
  "spaced s = map (\<lambda>c. if c = CHR ''.'' \<or> c = CHR ''_'' \<or> c = CHR ''-'' then CHR '' '' else c) s"

definition candidate_parts :: "node \<Rightarrow> (hop_kind \<times> string option \<times> string option \<times> node option) option" where
  "candidate_parts n =
     (let p = n_props n in
      if n_label n = ''Channel'' then Some (HopChannel, as_str (jidx p ''kind''), as_str (jidx p ''identity''), None)
      else if n_label n = ''Symbol'' \<or> n_label n = ''Component''
      then Some (HopCall, None, or_str (as_str (jidx p ''name'')) (Some (last (split_on (CHR ''#'') (n_id n)))), None)
      else if n_label n = ''Resource'' then
        Option.bind (Option.bind (as_str (jidx p ''type'')) resource_channel_kind) (\<lambda>channel_kind.
        Option.bind (as_str (jidx p ''logical_id'')) (\<lambda>logical_id.
          Some (HopChannel, Some channel_kind,
                Some (spaced logical_id @ '' '' @ (case as_str (jidx p ''type'') of None \<Rightarrow> [] | Some t \<Rightarrow> t)),
                Some \<lparr>n_id = ''chan:'' @ channel_kind @ '':resource:'' @ n_id n, n_label = ''Channel'',
                      n_props = JObj [(''kind'', JStr channel_kind), (''identity'', JStr logical_id),
                                      (''backing_resource'', JStr (n_id n)), (''staged'', JBool True)]\<rparr>)))
      else None)"

definition candidate_of :: "node \<Rightarrow> semantic_candidate option" where
  "candidate_of n =
     Option.bind (candidate_parts n) (\<lambda>(kind, subtype, text, materialized).
     Option.bind text (\<lambda>t.
       (let evidence = evidence_from (n_props n) in
        if trim t = [] \<or> evidence = [] then None
        else Some \<lparr>sc_node_id = (case materialized of None \<Rightarrow> n_id n | Some m \<Rightarrow> n_id m), sc_kind = kind,
                   sc_subtype = subtype, sc_text = t, sc_evidence = evidence, sc_materialized = materialized\<rparr>)))"

definition graph_inputs :: "node list \<Rightarrow> edge list \<Rightarrow> unresolved_hop list \<times> semantic_candidate list" where
  "graph_inputs nodes edges =
     (sort_key uh_gap_id (List.map_filter (unresolved_of (gap_index nodes)) edges),
      sort_key sc_node_id (List.map_filter candidate_of nodes))"

section \<open>Proposals\<close>

definition ann_build :: "usearch \<Rightarrow> string list \<Rightarrow> embedding list \<Rightarrow> (semantic_error, unit) result" where
  "ann_build us ids embeddings =
     (if ids = [] \<or> embeddings = [] \<or> length ids \<noteq> length embeddings
      then Inl (SmIndex ''ids and embeddings must be non-empty and aligned'')
      else let dimensions = length (hd embeddings) in
        if dimensions = 0 \<or> list_ex (\<lambda>e. length e \<noteq> dimensions \<or> list_ex (\<lambda>v. v = None) e) embeddings
        then Inl (SmIndex ''vectors must be finite and uniformly sized'')
        else case us_build us embeddings of Inl e \<Rightarrow> Inl (SmIndex e) | Inr _ \<Rightarrow> Inr ())"

definition clamp01 :: "rat \<Rightarrow> rat" where
  "clamp01 x = (if x < 0 then 0 else if x > 1 then 1 else x)"

definition ann_search ::
  "usearch \<Rightarrow> string list \<Rightarrow> embedding list
     \<Rightarrow> embedding \<Rightarrow> nat \<Rightarrow> (semantic_error, (string \<times> rat) list) result" where
  "ann_search us ids embeddings query count =
     (let dimensions = length (hd embeddings) in
      if length query \<noteq> dimensions
      then Inl (SmIndex (''query dimension '' @ show_nat (length query) @ '' does not match index dimension '' @ show_nat dimensions))
      else case us_search us embeddings query (min count (length ids)) of
        Inl e \<Rightarrow> Inl (SmIndex e)
      | Inr matches \<Rightarrow>
          Inr (sort_key (\<lambda>(x, s). (- s, x))
            (List.map_filter (\<lambda>(key, distance).
               if key < length ids then Some (ids ! key, clamp01 (1 - distance)) else None) matches)))"

definition evidence_key :: "evidence_ref \<Rightarrow> string \<times> string \<times> u64 \<times> u64 \<times> string" where
  "evidence_key r = (ev_repo r, ev_path r, ev_byte_start r, ev_byte_end r, ev_commit_sha r)"

definition semantic_prov ::
  "(string \<Rightarrow> string) \<Rightarrow> evidence_ref list \<Rightarrow> string \<Rightarrow> (semantic_error, provenance) result" where
  "semantic_prov H evidence fact_bytes =
     (case prov_new H Semantic InferredStrong evidence SEMANTIC_EXTRACTOR_ID fact_bytes of
        Inl e \<Rightarrow> Inl (SmProvenance e) | Inr p \<Rightarrow> Inr p)"

text \<open>\<^verbatim>\<open>value[key] = v\<close>: an insert into an object, a new object from null, a panic on anything else.\<close>

definition index_put :: "string \<Rightarrow> json \<Rightarrow> json \<Rightarrow> (semantic_error, json) result" where
  "index_put k v w = (case w of JObj m \<Rightarrow> Inr (JObj (obj_put k v m)) | JNull \<Rightarrow> Inr (JObj [(k, v)]) | _ \<Rightarrow> Inl SmPanic)"

definition materialize ::
  "(string \<Rightarrow> string) \<Rightarrow> evidence_ref list \<Rightarrow> node option \<Rightarrow> (semantic_error, node option) result" where
  "materialize H evidence template =
     (case template of
        None \<Rightarrow> Inr None
      | Some n \<Rightarrow>
          rbind (semantic_prov H evidence (''materialize '' @ n_id n)) (\<lambda>p.
          rbind (index_put ''prov'' (prov_to_value p) (n_props n)) (\<lambda>props. Inr (Some (n\<lparr>n_props := props\<rparr>)))))"

definition propose_one ::
  "(string \<Rightarrow> string) \<Rightarrow> (rat \<Rightarrow> string) \<Rightarrow> (string, semantic_candidate) omap \<Rightarrow> unresolved_hop \<Rightarrow> string \<times> rat
     \<Rightarrow> semantic_proposal list \<Rightarrow> (semantic_error, semantic_proposal list) result" where
  "propose_one H fmt6 by_id hop hit proposals =
     (case hit of (target_id, similarity) \<Rightarrow>
     (case om_get by_id target_id of
        None \<Rightarrow> Inr proposals
      | Some candidate \<Rightarrow>
          (let evidence = remdups_adj (sort_key evidence_key (uh_evidence hop @ sc_evidence candidate));
               fact_bytes = uh_gap_id hop @ '':'' @ uh_source_id hop @ '':'' @ uh_edge_label hop @ '':'' @ target_id @ '':'' @ fmt6 similarity
           in rbind (semantic_prov H evidence fact_bytes) (\<lambda>p.
              rbind (materialize H evidence (sc_materialized candidate)) (\<lambda>target.
              Inr (proposals @
                [\<lparr>sp_gap_id = uh_gap_id hop, sp_source_id = uh_source_id hop, sp_target_id = target_id,
                  sp_edge_label = uh_edge_label hop, sp_similarity = similarity, sp_provenance = p,
                  sp_target_node = target\<rparr>]))))))"

definition propose_hop ::
  "usearch \<Rightarrow> (string \<Rightarrow> string) \<Rightarrow> (rat \<Rightarrow> string)
     \<Rightarrow> string list \<Rightarrow> embedding list \<Rightarrow> (string, semantic_candidate) omap \<Rightarrow> nat \<Rightarrow> unresolved_hop \<times> embedding
     \<Rightarrow> semantic_proposal list \<Rightarrow> (semantic_error, semantic_proposal list) result" where
  "propose_hop us H fmt6 ids embeddings by_id neighbors hq proposals =
     (case hq of (hop, query) \<Rightarrow>
        rbind (ann_search us ids embeddings query (max neighbors 1)) (\<lambda>hits.
        try_fold (propose_one H fmt6 by_id hop) hits proposals))"

definition propose_group ::
  "(string list \<Rightarrow> (string, embedding list) result)
     \<Rightarrow> usearch \<Rightarrow> (string \<Rightarrow> string) \<Rightarrow> (rat \<Rightarrow> string)
     \<Rightarrow> unresolved_hop list \<Rightarrow> nat \<Rightarrow> hop_key \<times> semantic_candidate list
     \<Rightarrow> semantic_proposal list \<Rightarrow> (semantic_error, semantic_proposal list) result" where
  "propose_group emb us H fmt6 hops neighbors grp proposals =
     (case grp of (key, compatible) \<Rightarrow>
       (let compatible_hops = filter (\<lambda>h. (uh_kind h, uh_subtype h) = key) hops in
        if compatible_hops = [] then Inr proposals
        else case emb (map sc_text compatible) of
          Inl e \<Rightarrow> Inl (SmProvider e)
        | Inr embeddings \<Rightarrow>
            rbind (ann_build us (map sc_node_id compatible) embeddings) (\<lambda>_.
            case emb (map uh_query compatible_hops) of
              Inl e \<Rightarrow> Inl (SmProvider e)
            | Inr query_embeddings \<Rightarrow>
                if length query_embeddings \<noteq> length compatible_hops
                then Inl (SmIndex (''provider returned '' @ show_nat (length query_embeddings) @ '' embeddings for '' @
                       show_nat (length compatible_hops) @ '' unresolved hops''))
                else
                  (let by_id = fold (\<lambda>c. om_put (sc_node_id c) c) compatible [] in
                   try_fold (propose_hop us H fmt6 (map sc_node_id compatible) embeddings by_id neighbors)
                     (zip compatible_hops query_embeddings) proposals))))"

definition proposal_key :: "semantic_proposal \<Rightarrow> string \<times> rat \<times> string" where
  "proposal_key p = (sp_gap_id p, - sp_similarity p, sp_target_id p)"

definition semantic_propose ::
  "(string list \<Rightarrow> (string, embedding list) result)
     \<Rightarrow> usearch \<Rightarrow> (string \<Rightarrow> string) \<Rightarrow> (rat \<Rightarrow> string)
     \<Rightarrow> unresolved_hop list \<Rightarrow> semantic_candidate list \<Rightarrow> nat \<Rightarrow> (semantic_error, semantic_proposal list) result" where
  "semantic_propose emb us H fmt6 hops candidates neighbors =
     (let grouped = fold (\<lambda>c. push_bucket (sc_kind c, sc_subtype c) c) candidates [] in
      rbind (try_fold (propose_group emb us H fmt6 hops neighbors) grouped []) (\<lambda>proposals.
      Inr (sort_key proposal_key proposals)))"

section \<open>Gate and overlay\<close>

fun first_per_gap :: "string list \<Rightarrow> semantic_proposal list \<Rightarrow> semantic_proposal list" where
  "first_per_gap seen [] = []"
| "first_per_gap seen (p # ps) =
     (if sp_gap_id p \<in> set seen then first_per_gap seen ps else p # first_per_gap (sp_gap_id p # seen) ps)"

definition admissible :: "eval_report \<Rightarrow> semantic_proposal \<Rightarrow> bool" where
  "admissible ev p \<longleftrightarrow> sp_similarity p + 1 / 1000000 \<ge> er_similarity_threshold ev"

definition gated_proposals :: "semantic_proposal list \<Rightarrow> eval_report \<Rightarrow> semantic_proposal list" where
  "gated_proposals proposals ev =
     (if \<not> er_passed ev \<or> er_precision ev < er_precision_floor ev then []
      else first_per_gap [] (filter (admissible ev) (sort_key proposal_key proposals)))"

definition as_edge :: "(rat \<Rightarrow> json) \<Rightarrow> eval_report \<Rightarrow> semantic_proposal \<Rightarrow> edge" where
  "as_edge fj ev p =
     \<lparr>e_src = sp_source_id p, e_dst = sp_target_id p, e_label = sp_edge_label p,
      e_props = JObj
        [(''resolver'', JStr SEMANTIC_EXTRACTOR_ID), (''fills_gap'', JStr (sp_gap_id p)),
         (''similarity'', fj (sp_similarity p)),
         (''eval'', JObj [(''precision'', fj (er_precision ev)), (''recall'', fj (er_recall ev)),
                          (''precision_floor'', fj (er_precision_floor ev)),
                          (''similarity_threshold'', fj (er_similarity_threshold ev))]),
         (''prov'', prov_to_value (sp_provenance p))]\<rparr>"

definition gap_edge_of :: "semantic_proposal \<Rightarrow> edge \<Rightarrow> bool" where
  "gap_edge_of p e \<longleftrightarrow>
     e_src e = sp_source_id p \<and> e_dst e = sp_gap_id p \<and> e_label e = sp_edge_label p \<and>
     jidx (jidx (e_props e) ''prov'') ''confidence_tier'' = JStr ''Gap''"

definition effective :: "node list \<Rightarrow> edge list \<Rightarrow> semantic_proposal list \<Rightarrow> (string, semantic_proposal) omap" where
  "effective nodes edges approved =
     fold (\<lambda>p. om_put (sp_gap_id p) p)
       (filter (\<lambda>p. list_ex (gap_edge_of p) edges)
         (filter (\<lambda>p. sp_gap_id p \<in> n_id ` set (filter (\<lambda>n. n_label n = ''Gap'') nodes)) approved)) []"

fun dedup_ids :: "node list \<Rightarrow> node list" where
  "dedup_ids (a # b # ns) = (if n_id a = n_id b then dedup_ids (a # ns) else a # dedup_ids (b # ns))"
| "dedup_ids ns = ns"

definition overlay ::
  "(rat \<Rightarrow> json) \<Rightarrow> node list \<Rightarrow> edge list \<Rightarrow> semantic_proposal list \<Rightarrow> eval_report \<Rightarrow> overlay_graph" where
  "overlay fj nodes edges approved ev =
     (let eff = effective nodes edges approved;
          resolved = map fst eff;
          kept = filter (\<lambda>n. n_id n \<notin> set resolved) nodes;
          added = filter (\<lambda>n. n_id n \<notin> n_id ` set kept) (List.map_filter (\<lambda>(_, p). sp_target_node p) eff)
      in \<lparr>og_nodes = dedup_ids (sort_key n_id (kept @ added)),
          og_edges = sort_key (\<lambda>e. (e_src e, e_dst e, e_label e))
            (filter (\<lambda>e. e_dst e \<notin> set resolved) edges @ map (\<lambda>(_, p). as_edge fj ev p) eff),
          og_gaps_filled = length eff\<rparr>)"

end
