(* ===== verification/Semantic_Overlay_Props.thy ===== *)
theory Semantic_Overlay_Props
  imports Semantic_Overlay
begin

text \<open>
  What the semantic resolver may do: a proposal is staged with the evidence of both sides at its own tier,
  the gate admits the best admissible proposal of each Gap or nothing, and the overlay takes out the filled
  Gaps with every edge into them, puts in one edge for each, and copies every other fact.
\<close>

section \<open>Gate\<close>

lemma first_per_gap_find:
  "find (\<lambda>p. sp_gap_id p = g) (first_per_gap seen ps) = (if g \<in> set seen then None else find (\<lambda>p. sp_gap_id p = g) ps)"
  by (induction ps arbitrary: seen) auto

lemma first_per_gap_sub:
  "set (first_per_gap seen ps) \<subseteq> set ps \<and> (\<forall>p \<in> set (first_per_gap seen ps). sp_gap_id p \<notin> set seen) \<and>
   distinct (map sp_gap_id (first_per_gap seen ps))"
proof (induction ps arbitrary: seen)
  case (Cons a ps)
  show ?case using Cons [of seen] Cons [of "sp_gap_id a # seen"] by auto
qed simp

lemma first_sorted_least:
  assumes "sorted (map proposal_key ps)" "p \<in> set ps"
  shows "\<exists>q. find (\<lambda>q. sp_gap_id q = sp_gap_id p) ps = Some q \<and> proposal_key q \<le> proposal_key p"
  using assms by (induction ps) auto

text \<open>
  The gate: nothing unless the evaluation passed at its floor; otherwise one proposal for each Gap that has an
  admissible one, itself admissible and, of those for that Gap, one of greatest similarity and then least
  target.
\<close>

theorem gated_proposals_exact:
  "(gated_proposals ps ev = [] \<or> er_passed ev \<and> er_precision_floor ev \<le> er_precision ev) \<and>
   set (gated_proposals ps ev) \<subseteq> {p \<in> set ps. admissible ev p} \<and>
   distinct (map sp_gap_id (gated_proposals ps ev)) \<and>
   (er_passed ev \<and> er_precision_floor ev \<le> er_precision ev \<longrightarrow>
     (\<forall>p \<in> set ps. admissible ev p \<longrightarrow>
        (\<exists>q \<in> set (gated_proposals ps ev). sp_gap_id q = sp_gap_id p \<and>
           (sp_similarity p < sp_similarity q \<or> sp_similarity p = sp_similarity q \<and> sp_target_id q \<le> sp_target_id p))))"
proof -
  let ?ord = "filter (admissible ev) (sort_key proposal_key ps)"
  have "\<exists>q \<in> set (first_per_gap [] ?ord). sp_gap_id q = sp_gap_id p \<and>
           (sp_similarity p < sp_similarity q \<or> sp_similarity p = sp_similarity q \<and> sp_target_id q \<le> sp_target_id p)"
    if p: "p \<in> set ps" "admissible ev p" for p
  proof -
    have "sorted (map proposal_key ?ord)" by (rule sorted_filter) simp
    moreover have "p \<in> set ?ord" using p by simp
    ultimately obtain q where q: "find (\<lambda>q. sp_gap_id q = sp_gap_id p) ?ord = Some q" "proposal_key q \<le> proposal_key p"
      using first_sorted_least by blast
    have f: "find (\<lambda>q. sp_gap_id q = sp_gap_id p) (first_per_gap [] ?ord) = Some q"
      using q(1) by (simp add: first_per_gap_find)
    then have "q \<in> set (first_per_gap [] ?ord)" "sp_gap_id q = sp_gap_id p"
      by (auto simp: find_Some_iff)
    then show ?thesis using q(2)
      by (intro bexI [of _ q]) (auto simp: proposal_key_def less_eq_prod_def)
  qed
  then show ?thesis
    using first_per_gap_sub [of "[]" ?ord] by (auto simp: gated_proposals_def)
qed

section \<open>Overlay\<close>









section \<open>Proposals\<close>









section \<open>The pipeline\<close>






definition sem_ev :: json where
  "sem_ev = JObj [(''confidence_tier'', JStr ''Gap''), (''evidence'', JArr [evidence_to_value
     \<lparr>ev_repo = ''r'', ev_path = ''a.ts'', ev_byte_start = 0, ev_byte_end = 1, ev_commit_sha = ''c''\<rparr>])]"

definition sem_nodes :: "node list" where
  "sem_nodes =
     [\<lparr>n_id = ''sym:a'', n_label = ''Symbol'', n_props = JObj []\<rparr>,
      \<lparr>n_id = ''gap:1'', n_label = ''Gap'',
       n_props = JObj [(''raw'', JStr ''queue''), (''kind'', JStr ''sqs-queue''), (''prov'', sem_ev)]\<rparr>,
      \<lparr>n_id = ''chan:q'', n_label = ''Channel'',
       n_props = JObj [(''kind'', JStr ''sqs-queue''), (''identity'', JStr ''q''), (''prov'', sem_ev)]\<rparr>]"

definition sem_edges :: "edge list" where
  "sem_edges =
     [\<lparr>e_src = ''sym:a'', e_dst = ''gap:1'', e_label = ''PUBLISHES'', e_props = JObj [(''prov'', sem_ev)]\<rparr>,
      \<lparr>e_src = ''sym:a'', e_dst = ''gap:1'', e_label = ''CALLS'', e_props = JObj [(''prov'', sem_ev)]\<rparr>]"

definition sem_report :: eval_report where
  "sem_report = \<lparr>er_precision_floor = 9 / 10, er_similarity_threshold = 8 / 10, er_precision = 1, er_recall = 1,
     er_passed = True, er_true_positives = 1, er_false_positives = 0, er_false_negatives = 0\<rparr>"

definition sem_proposals :: "semantic_proposal list" where
  "sem_proposals =
     projr (semantic_propose (\<lambda>ts. Inr (map (\<lambda>_. [Some 1]) ts)) \<lparr>us_build = \<lambda>_. Inr (), us_search = \<lambda>_ _ _. Inr [(0, 0)]\<rparr> (\<lambda>x. x) (\<lambda>_. [])
       (fst (graph_inputs sem_nodes sem_edges)) (snd (graph_inputs sem_nodes sem_edges)) 1)"



text \<open>
  What the replacement costs: every edge into a filled Gap goes, also one the proposal does not stand for. Here
  the second edge into the Gap has no counterpart in the overlay.
\<close>

theorem overlay_drops_other_edges:
  "map (\<lambda>e. (e_src e, e_dst e, e_label e)) (og_edges (overlay (\<lambda>_. JNull) sem_nodes sem_edges
     (gated_proposals sem_proposals sem_report) sem_report)) = [(''sym:a'', ''chan:q'', ''PUBLISHES'')]"
  by code_simp

end
