(* ===== verification/Spec2Isabelle.thy ===== *)
theory Spec2Isabelle
  imports Source_Binding_Props Flow_Trace_Props Placeholder_Props Context_Hub_Props Decision_Log_Props
    Event_Stitch_Props Investigation_Props Investigation_Reads_Props Staging_History_Props
    Rule_Payload_Props Bounded_Snapshot_Props Parallel_Merge_Props
    Plugin_Host_Props Trace_Props Semantic_Context_Props
    Semantic_Overlay_Props
begin

text \<open>
  \<^bold>\<open>Cartograph, verified core.\<close> Cartograph recovers an architecture graph from source code.
  Producers on four tiers (deterministic T0, dynamic T1, semantic T2, agentic T3) emit facts with
  provenance; the facts live in one SQLite graph; the flow tracer, the context service and the
  bounded T3 broker read them; anything sent to a model passes an egress firewall; human decisions on
  T3 proposals are kept in a decision log. A T3 task records the sources its spans came from; an
  investigation is a bounded conversation of a specialist with a provider, whose steps the desktop
  keeps, with its jobs, in a durable store.

  \<^bold>\<open>Theories and sources.\<close> Each component has a theory of definitions, in the order of its
  Rust file, and one of properties.

  \<^item> \<open>Cart_Prelude\<close>: results, key-ordered maps (with the contract locale \<open>keyed_table\<close>), multi-maps,
    byte strings. \<open>Json\<close>: \<^verbatim>\<open>serde_json::Value\<close>, its equality and canonical form; \<open>Json_Map\<close>: an object
    changed in place.
  \<^item> \<open>Prov\<close>: \<^verbatim>\<open>crates/core-prov/src/lib.rs\<close>.
  \<^item> \<open>Graph_Store\<close>, \<open>Graph_Store_Props\<close>: \<^verbatim>\<open>crates/core-graph/src/lib.rs\<close>, with the triggers of
    \<^verbatim>\<open>source.rs\<close>. The state \<open>graph_db\<close> is the tables; the locale \<open>graph_store\<close> is the interface of
    the \<^verbatim>\<open>GraphStore\<close> trait, interpreted on the SQLite model.
  \<^item> \<open>Source_Binding\<close>, \<open>Source_Binding_Props\<close>: \<^verbatim>\<open>crates/core-graph/src/source.rs\<close>. Every operation is
    a rule of the step relation \<open>store_step\<close>; the invariant is proved by rule induction.
  \<^item> \<open>Bounded_Snapshot\<close>, \<open>Bounded_Snapshot_Props\<close>: \<^verbatim>\<open>crates/core-graph/src/bounded.rs\<close> and the bounded
    selection of \<^verbatim>\<open>source.rs\<close>.
  \<^item> \<open>Rule_Evidence\<close>, \<open>Rule_Props\<close>, \<open>Rule_Payload_Props\<close>: \<^verbatim>\<open>crates/core-graph/src/rules.rs\<close> and
    \<^verbatim>\<open>rules/definitions.rs\<close>: the payload of a source rule, its reader and its validation. The locale
    \<open>source_traversal\<close> is the contract of a visiting function, interpreted on every part of a payload, so
    that \<open>visit_sources_mut_exact\<close> holds of the whole.
  \<^item> \<open>Flow_Trace\<close>, \<open>Flow_Trace_Props\<close>: \<^verbatim>\<open>crates/flowtracer/src/lib.rs\<close>.
  \<^item> \<open>Placeholder\<close>, \<open>Placeholder_Props\<close>: \<^verbatim>\<open>crates/core-graph/src/placeholder.rs\<close>.
  \<^item> \<open>Context_Hub\<close>, \<open>Context_Hub_Props\<close>: \<^verbatim>\<open>crates/context-hub/src/lib.rs\<close>; the locale
    \<open>paged_source\<close> is the contract of a cursor-paged reader, whose client passes back the cursors it is
    handed.
  \<^item> \<open>Egress\<close>, \<open>Egress_Props\<close>: \<^verbatim>\<open>crates/core-redact/src/lib.rs\<close> and the firewall of
    \<^verbatim>\<open>crates/llm/src/lib.rs\<close>; the locale \<open>egress_gate\<close> is what callers of the firewall rely on.
  \<^item> \<open>Agent_Broker\<close>, \<open>Decision_Log\<close>, \<open>Agent_Props\<close>, \<open>Decision_Log_Props\<close>:
    \<^verbatim>\<open>crates/agents/src/lib.rs\<close>.
  \<^item> \<open>Source_Walk\<close>, \<open>Source_Walk_Props\<close>: \<^verbatim>\<open>crates/source-walk/src/lib.rs\<close>. The file system is a
    tree whose unreadable entries hold their errors; names are byte strings, converted lossily as the code does.
  \<^item> \<open>Parallel_Merge\<close>, \<open>Parallel_Merge_Props\<close>: \<^verbatim>\<open>crates/source-walk/src/parallel.rs\<close>. The state of
    \<^verbatim>\<open>map_ordered\<close> is its mutex and the position of every thread; the step relation \<open>par_step\<close> interleaves
    critical sections, work, merges and notifications, and \<open>spurious_wake\<close> lets any wait end.
  \<^item> \<open>Event_Stitch\<close>, \<open>Event_Stitch_Props\<close>: \<^verbatim>\<open>crates/events/src/lib.rs\<close> and the site types of
    \<^verbatim>\<open>crates/adapters-fw\<close>.
  \<^item> \<open>Plugin_Host\<close>, \<open>Plugin_Host_Props\<close>: \<^verbatim>\<open>crates/adapters-plugin-host/src\<close>: bounds, attribution, gate,
    routing and discovery of runtime plugins.
  \<^item> \<open>Observed_Parse\<close>, \<open>Observed_Props\<close>, \<open>Dynamic_Tier\<close>, \<open>Dynamic_Props\<close>, \<open>Trace_Apply\<close>, \<open>Trace_Props\<close>:
    \<^verbatim>\<open>crates/dynamic/src/lib.rs\<close>: the readers of traces, Terraform states and Pulumi deployments, the passes
    that enrich resources, and the application of a trace. The locale \<open>node_pass\<close> is the contract of a pass
    over nodes, interpreted on all three.
  \<^item> \<open>Semantic_Context\<close>, \<open>Semantic_Context_Props\<close>: \<^verbatim>\<open>crates/semantic/src/context.rs\<close>: the neighbourhood of a
    focus and the context packed from it for a model. \<open>Semantic_Overlay\<close>, \<open>Semantic_Overlay_Props\<close>:
    \<^verbatim>\<open>crates/semantic/src/lib.rs\<close>, from the open slots of a graph to the overlay of admitted proposals.
  \<^item> \<open>Source_Basis\<close>, \<open>Source_Basis_Props\<close>: \<^verbatim>\<open>crates/agents/src/source_basis.rs\<close>,
    \<^verbatim>\<open>prepared.rs\<close> and the manifest records of \<^verbatim>\<open>staging.rs\<close>, which a staged record keeps.
  \<^item> \<open>Citation_Assignment\<close>, \<open>Staging\<close>: \<^verbatim>\<open>crates/agents/src/staging.rs\<close> and \<^verbatim>\<open>staging/strict.rs\<close>.
    The state \<open>proposal_store\<close> is the table of staged proposals; \<open>Citation_Assignment\<close> holds the search
    that recovers citation ids, with its masks as 16-bit words, and the proof that its pruning loses no
    assignment. \<open>Staging_Props\<close>: rows over runs of operations and reading back. \<open>Staging_Build_Props\<close>:
    which results can be staged. \<open>Staging_History_Props\<close>: pages, cursors and the receipt inventory.
  \<^item> \<open>Investigation\<close>, \<open>Investigation_Props\<close>: \<^verbatim>\<open>crates/agents/src/investigation/\<close>: requests,
    specialists, the strict JSON of an action, ledgers, the replay check, admission of a result.
  \<^item> \<open>Job_State\<close>, \<open>Investigation_Store\<close>, \<open>Job_Ledger\<close>: \<^verbatim>\<open>src-tauri/src/jobs.rs\<close>,
    \<^verbatim>\<open>jobs/execution.rs\<close>, \<^verbatim>\<open>job_execution.rs\<close>, \<^verbatim>\<open>jobs/investigations.rs\<close> and its
    \<^verbatim>\<open>storage.rs\<close> and \<^verbatim>\<open>transitions.rs\<close>. The state \<open>job_db\<close> is the tables of the state spine; each
    operation is one transaction and one rule of the step relation \<open>spine_step\<close> of \<open>Job_Effects\<close>, which
    says what a step does to jobs, attempts and tasks; \<open>Job_Props\<close> composes these over runs.
  \<^item> \<open>Investigation_Reads\<close>, \<open>Investigation_Reads_Props\<close>: \<^verbatim>\<open>jobs/investigations/reads.rs\<close>, the paged
    reads of history and events and the receipts that ledgers refer to.

  \<^bold>\<open>What is shown.\<close> C1 and C27: a trace fills Gaps and rewrites nothing
  else, exactly where it observes one identity; \<open>parse_state_exact\<close> and \<open>redaction_complete\<close> say that no
  sensitive value is stored, \<open>enrich_resources_exact\<close>, \<open>enrich_pulumi_exact\<close> and
  \<open>backing_candidates_sound\<close> what the infrastructure passes do. \<open>khop_distance_exact\<close> and
  \<open>pack_context_longest_prefix\<close> say which neighbourhood is taken and which of its statements are packed. C2 and C32: the parallel
  map of extraction is the serial loop under every schedule, bounded, never stuck and finite. C3 and C4: the
  conditional patch refines an abstract patch and is atomic, reachability is exact on cyclic
  graphs. C5 and C14: the local definitions of a validated rule are trees that use every prerequisite
  once, and their chains are short, acyclic and reach every definition. C6, C20, C26 and C35: the staged proposal store. A staged result reads
  back and staging is idempotent; reading the history by cursors sees every proposal staged at the start
  once, whatever happens in between; exactly the results the broker accepts for the host's task can be
  staged; rows are immutable and reviews compare-and-set over any run. C7: the receipts reported as in use are those the
  stored ledgers refer to, and the stored index of them is exact. C8 and C9: no source binding
  ever describes a fact that has changed, and publication replaces one repository only, takes over no fact of
  another and leaves the other bindings the patch does not touch. C10 and C11:
  a flow is exactly the walk of its slice and Verified means what it says. C12: a plugin passes the
  conformance gate exactly when it reproduces the fact texts of its golden corpus twice; \<open>call_extract_attributes\<close>,
  \<open>routed_pass_is_whole\<close> and \<open>discover_precedence\<close> say what attribution, routing and discovery do. C13: following the
  history cursors reads every task once. C15 and C16: referential closure
  and reconciliation fail closed. C17 to C19 and C21: pages, cursors, neighbourhoods,
  provenance shown. C22 and C23: the firewall and the strength of a grant. C24: the broker. C25: the
  semantic tier replaces filled Gaps, with every edge into them, by one admitted edge each and copies every other
  fact; \<open>gated_proposals_exact\<close> says which proposals pass the gate.
  C28 and C29: the decision log. C30: the source walk lists exactly the selected files, each once. C31:
  a bounded read of the graph is the plain read, exactly when everything is within its limits. C33, C34 and C36: event and fetch
  stitching, and that the tracer's flows cross stitched channels. C37: a prepared
  task accounts for every supplied span and its counts add up. C38: an admitted investigation answer
  is weak, cited, within bounds and repeats no long run of what was supplied. C39: a claimed execution
  is fenced against older handles and settled jobs stay settled. C40: cloud invocations are approved
  first, begun once and within the limits.

  \<^bold>\<open>Parameters.\<close> Code outside the repository is an argument: \<open>H\<close> is the BLAKE3 digest in hex,
  \<open>ts\<close> and \<open>fs\<close> print and parse JSON text, \<open>pretty\<close> prints it indented, \<open>store_env\<close>,
  \<open>staging_env\<close> and \<open>inv_codec\<close> hold the JSON text of stored records, the clock and the random tokens an
  operation of the state spine reads are its arguments, a redaction pattern is
  what a compiled regular expression answers, a provider is its completion function, \<open>GB\<close> compiles
  a \<^verbatim>\<open>.gitignore\<close> into a matcher, \<open>dec\<close>, \<open>vtext\<close> and \<open>rtext\<close> are the typed decoder and the JSON texts of a
  rule payload, \<open>stream\<close> and \<open>ins\<close> what a streaming JSON parser presents of a text and how its objects grow,
  \<open>compile\<close> and \<open>guest\<close> are Wasmtime compiling a component and the outcome of its k-th call, \<open>ps\<close> parses
  JSON with its error text and \<open>af\<close> reads a number as a float, \<open>emb\<close> and \<open>us\<close> are the embedding provider
  and the USearch library. Where a
  theorem needs something of them it is a hypothesis about the values at hand (the text of this
  value reads back; these two digests do not collide).

  \<^bold>\<open>Termination and bounds.\<close> The reachability query, the trace walk and the neighbourhood rounds
  are total functions, so that what they return is proved and not assumed; no model runs on fuel,
  except the clients that follow cursors, for which C13, C18 and C20 prove how many requests are enough
  (for \<open>read_pages\<close>, one per selected fact). Offsets and byte ranges are 64-bit words; sizes,
  lengths and depths are natural numbers, since each is bounded by a constant or by a list held in
  memory. The flow score and semantic similarities are exact rationals; the code rounds in
  \<^verbatim>\<open>f64\<close> and \<^verbatim>\<open>f32\<close>.

  \<^bold>\<open>Not modelled.\<close> SQLite itself beyond its statements, constraints and triggers (connections,
  WAL, concurrency between processes: a transaction is one step); the language adapters and the
  infrastructure importer, which walk third-party syntax trees; the HTTP providers; the calibration of the semantic
  gate, which is floating-point arithmetic on vectors; ingest and source capture, which are directories, locks and subprocesses; the rendering
  of documents; the desktop shell; the files behind execution locks, of which a model sees only the answer
  of a check.
\<close>

end
